(* ===== verification/Arena_Prelude.thy ===== *)
theory Arena_Prelude
  imports
    Complex_Main
    "HOL-Library.AList"
    "HOL-Library.Char_ord"
    "HOL-Library.List_Lexorder"
    "HOL-Library.Product_Lexorder"
    "HOL-Library.Multiset"
begin

text \<open>
  Shared vocabulary of the development.

  \<^item> The exceptions the Python code raises are the constructors of \<open>py_error\<close>; code that may
    raise returns \<open>'a result\<close>, with \<open>Inl\<close> for the exception.
  \<^item> A point in time is an \<open>int\<close>, the microseconds since the epoch in UTC (the resolution of
    Python's \<open>datetime\<close>); \<open>timedelta\<close>s are microseconds too. The helper \<open>_utc\<close> of the sources,
    which turns any representation of an instant into its UTC representation, is the identity here.
  \<^item> JSON documents are the datatype \<open>json\<close>; a Python \<open>dict\<close> with string keys is an association
    list in insertion order, updated by \<open>AList.update\<close>.
  \<^item> A database table is the list of its rows. The SQL statements the code issues are the
    functions \<open>select_where\<close>, \<open>update_where\<close>, \<open>rowcount\<close>, \<open>first\<close> and
    \<open>scalar_one_or_none\<close>.
  \<^item> A transaction body is a function from the database to \<open>'a tx\<close>; \<open>transaction\<close> rolls back
    on an exception and commits otherwise.
  \<^item> \<open>reachable\<close> and the locale \<open>invariant_system\<close> carry every proof that a property holds
    in all reachable states of a component.
\<close>

named_theorems tx_simps "unfolding rules for the result and transaction combinators"
named_theorems table_simps "rules for selects and updates on tables"

section \<open>Exceptions and results\<close>

datatype py_error =
    ValueError string
  | KeyError string
  | TypeError string
  | RuntimeError string
  | AttributeError string
  | IndexError
  | AssertionError
  | JSONDecodeError string
  | IntegrityError string
  | MultipleResultsFound
  | NoResultFound
  | InvariantViolation string
  | AggregateBudgetExceeded string
  | DuplicateProviderRequest string
  | ImmutableVersionConflict string
  | FrozenExperimentError string
  | ArtifactIntegrityError string
  | LookupError string
  | UnicodeDecodeError
  | ImmutableEvaluationConflict string
  | EvaluationError string
  | RecipeCompilationError string
  | FactorAdapterError string
  | FileNotFoundError string
  | TimeoutError
  | LeaseLost
  | CancellationRequested
  | UsageMismatch
  | MissingUsageEvidence
  | PartialTrace
  | MissingOutputEvidence
  | CancelledError
  | AdapterError string

text \<open>
  \<open>AdapterError c\<close> is an exception of a class \<open>c\<close> that comes out of a plugged-in adapter or hook;
  \<open>JSONDecodeError\<close>, a subclass of \<open>ValueError\<close> in Python, is told from a plain \<open>ValueError\<close> here because a handler does;
  \<open>EvaluationError\<close> carries the code of the error. \<open>CancelledError\<close>, the cancellation of an asynchronous
  task, is not an \<open>Exception\<close> in Python, so a handler of \<open>Exception\<close> lets it pass.
\<close>

type_synonym 'a result = "py_error + 'a"

definition bind_r :: "'a result \<Rightarrow> ('a \<Rightarrow> 'b result) \<Rightarrow> 'b result" where
  "bind_r r f = (case r of Inl e \<Rightarrow> Inl e | Inr a \<Rightarrow> f a)"

lemma bind_r_Inl [simp]: "bind_r (Inl e) f = Inl e"
  by (simp add: bind_r_def)

lemma bind_r_Inr [simp]: "bind_r (Inr a) f = f a"
  by (simp add: bind_r_def)

lemma bind_r_eq_Inr_iff [tx_simps]: "bind_r r f = Inr b \<longleftrightarrow> (\<exists>a. r = Inr a \<and> f a = Inr b)"
  by (cases r) auto

text \<open>A guard raises its exception when the condition holds.\<close>

definition raise_if :: "bool \<Rightarrow> py_error \<Rightarrow> unit result" where
  "raise_if b e = (if b then Inl e else Inr ())"

lemma raise_if_eq_Inr_iff [simp]: "raise_if b e = Inr u \<longleftrightarrow> \<not> b"
  by (simp add: raise_if_def)

lemma raise_if_False [simp]: "raise_if False e = Inr ()"
  by (simp add: raise_if_def)

lemma raise_if_True [simp]: "raise_if True e = Inl e"
  by (simp add: raise_if_def)

lemma bind_raise_if_eq_Inr_iff [simp]:
  "bind_r (raise_if b e) f = Inr c \<longleftrightarrow> \<not> b \<and> f () = Inr c"
  by (simp add: raise_if_def)

text \<open>A Python \<open>for\<close> loop whose body may raise: the first exception ends it.\<close>

fun for_each :: "('a \<Rightarrow> 's \<Rightarrow> 's result) \<Rightarrow> 'a list \<Rightarrow> 's \<Rightarrow> 's result" where
  "for_each body [] s = Inr s"
| "for_each body (x # xs) s = bind_r (body x s) (for_each body xs)"

lemma for_each_invariant:
  assumes "for_each body xs s = Inr t" and "P s"
    and "\<And>x s s'. x \<in> set xs \<Longrightarrow> P s \<Longrightarrow> body x s = Inr s' \<Longrightarrow> P s'"
  shows "P t"
  using assms
proof (induction xs arbitrary: s)
  case Nil
  then show ?case by simp
next
  case (Cons x xs)
  from Cons.prems(1) obtain s' where s': "body x s = Inr s'" "for_each body xs s' = Inr t"
    by (auto simp: tx_simps)
  have "P s'"
    using Cons.prems(2) s'(1) by (rule Cons.prems(3) [rotated]) simp
  with s'(2) show ?case
    using Cons.IH Cons.prems(3) by (meson list.set_intros(2))
qed

lemma for_each_unit_ok:
  "(\<And>x. x \<in> set xs \<Longrightarrow> body x () = Inr ()) \<Longrightarrow> for_each body xs () = Inr ()"
  by (induction xs) auto

text \<open>A comprehension whose body may raise.\<close>

fun map_r :: "('a \<Rightarrow> 'b result) \<Rightarrow> 'a list \<Rightarrow> 'b list result" where
  "map_r f [] = Inr []"
| "map_r f (x # xs) = bind_r (f x) (\<lambda>y. bind_r (map_r f xs) (\<lambda>ys. Inr (y # ys)))"

lemma map_r_all2: "map_r f xs = Inr ys \<longleftrightarrow> list_all2 (\<lambda>x y. f x = Inr y) xs ys"
  by (induction xs arbitrary: ys) (auto simp: bind_r_eq_Inr_iff list_all2_Cons1)

lemma map_r_map:
  assumes "map_r f xs = Inr ys" and "\<And>x y. x \<in> set xs \<Longrightarrow> f x = Inr y \<Longrightarrow> g y = g' x"
  shows "map g ys = map g' xs"
  using assms by (induction xs arbitrary: ys) (auto simp: bind_r_eq_Inr_iff)

lemma map_r_set: "map_r f xs = Inr ys \<Longrightarrow> y \<in> set ys \<Longrightarrow> \<exists>x \<in> set xs. f x = Inr y"
  by (induction xs arbitrary: ys) (auto simp: bind_r_eq_Inr_iff)

lemma map_r_Inr [simp]: "map_r (\<lambda>x. Inr (f x)) xs = Inr (map f xs)"
  by (induction xs) auto

lemma for_each_unit_iff: "for_each body xs () = Inr () \<longleftrightarrow> (\<forall>x \<in> set xs. body x () = Inr ())"
  by (induction xs) (auto simp: bind_r_eq_Inr_iff)

lemma map_r_total: "(\<And>x. x \<in> set xs \<Longrightarrow> \<exists>y. f x = Inr y) \<Longrightarrow> \<exists>ys. map_r f xs = Inr ys"
proof (induction xs)
  case (Cons x xs)
  then obtain y ys where "f x = Inr y" "map_r f xs = Inr ys" by fastforce
  then show ?case by simp
qed simp

text \<open>Loops that stop early: \<open>any\<close> and \<open>all\<close> over a generator, and a filtering comprehension.\<close>

fun any_r :: "('a \<Rightarrow> bool result) \<Rightarrow> 'a list \<Rightarrow> bool result" where
  "any_r p [] = Inr False"
| "any_r p (x # xs) = bind_r (p x) (\<lambda>b. if b then Inr True else any_r p xs)"

fun all_r :: "('a \<Rightarrow> bool result) \<Rightarrow> 'a list \<Rightarrow> bool result" where
  "all_r p [] = Inr True"
| "all_r p (x # xs) = bind_r (p x) (\<lambda>b. if b then all_r p xs else Inr False)"

fun filter_r :: "('a \<Rightarrow> bool result) \<Rightarrow> 'a list \<Rightarrow> 'a list result" where
  "filter_r p [] = Inr []"
| "filter_r p (x # xs) = bind_r (p x) (\<lambda>b. bind_r (filter_r p xs) (\<lambda>ys. Inr (if b then x # ys else ys)))"

lemma any_r_pure: "(\<And>x. x \<in> set xs \<Longrightarrow> p x = Inr (q x)) \<Longrightarrow> any_r p xs = Inr (list_ex q xs)"
  by (induction xs) auto

lemma all_r_pure: "(\<And>x. x \<in> set xs \<Longrightarrow> p x = Inr (q x)) \<Longrightarrow> all_r p xs = Inr (list_all q xs)"
  by (induction xs) auto

lemma filter_r_pure: "(\<And>x. x \<in> set xs \<Longrightarrow> p x = Inr (q x)) \<Longrightarrow> filter_r p xs = Inr (filter q xs)"
  by (induction xs) auto

section \<open>Time\<close>

type_synonym datetime = int
type_synonym timedelta = int

abbreviation seconds :: "int \<Rightarrow> timedelta" where
  "seconds n \<equiv> n * 1000000"

text \<open>
  Rounding to an integer, ties to even: what \<open>timedelta\<close> does to a number of microseconds and the
  rounding mode \<open>ROUND_HALF_EVEN\<close> to a number of units.
\<close>

definition round_half_even :: "rat \<Rightarrow> int" where
  "round_half_even q =
     (let f = \<lfloor>q\<rfloor>; d = q - of_int f
      in if d < 1 / 2 then f else if d > 1 / 2 then f + 1 else if even f then f else f + 1)"

definition td_seconds :: "rat \<Rightarrow> timedelta" where
  "td_seconds s = round_half_even (s * 1000000)"

lemma round_half_even_of_int [simp]: "round_half_even (of_int n) = n"
  by (simp add: round_half_even_def)

lemma round_half_even_numeral [simp]: "round_half_even (numeral n) = numeral n"
  using round_half_even_of_int [of "numeral n"] by simp

lemma round_half_even_mono: "p \<le> q \<Longrightarrow> round_half_even p \<le> round_half_even q"
proof -
  assume "p \<le> q"
  then have fl: "\<lfloor>p\<rfloor> \<le> \<lfloor>q\<rfloor>" by (rule floor_mono)
  show ?thesis
  proof (cases "\<lfloor>p\<rfloor> = \<lfloor>q\<rfloor>")
    case True
    with \<open>p \<le> q\<close> show ?thesis by (auto simp: round_half_even_def Let_def)
  next
    case False
    with fl show ?thesis by (auto simp: round_half_even_def Let_def)
  qed
qed

lemma round_half_even_nonneg: "0 \<le> q \<Longrightarrow> 0 \<le> round_half_even q"
  using round_half_even_mono [of 0 q] round_half_even_of_int [of 0] by simp

lemma round_half_even_error: "\<bar>of_int (round_half_even q) - q\<bar> \<le> 1 / 2"
proof -
  have "of_int \<lfloor>q\<rfloor> \<le> q" "q < of_int \<lfloor>q\<rfloor> + 1"
    by (simp, linarith)
  then show ?thesis
    by (auto simp: round_half_even_def Let_def)
qed

section \<open>JSON documents and dictionaries\<close>

text \<open>
  \<open>JTime t\<close> is the string \<open>t.isoformat()\<close>; \<open>JNum\<close> a JSON number.
\<close>

datatype json =
    JNull
  | JBool bool
  | JInt int
  | JNum rat
  | JStr string
  | JTime datetime
  | JArr "json list"
  | JObj "(string \<times> json) list"

type_synonym dict = "(string \<times> json) list"

definition dict_get :: "dict \<Rightarrow> string \<Rightarrow> json option" where
  "dict_get d k = map_of d k"

definition dict_set :: "string \<Rightarrow> json \<Rightarrow> dict \<Rightarrow> dict" where
  "dict_set k v d = AList.update k v d"

definition dict_update :: "dict \<Rightarrow> dict \<Rightarrow> dict" where
  "dict_update d new = fold (\<lambda>(k, v). dict_set k v) new d"

lemma dict_get_set: "dict_get (dict_set k v d) k' = (if k' = k then Some v else dict_get d k')"
  by (auto simp: dict_get_def dict_set_def update_conv')

lemma dict_get_update:
  "dict_get (dict_update d new) k =
     (case map_of (rev new) k of Some v \<Rightarrow> Some v | None \<Rightarrow> dict_get d k)"
proof (induction new arbitrary: d)
  case Nil
  then show ?case by (simp add: dict_update_def)
next
  case (Cons kv new)
  obtain k0 v0 where kv: "kv = (k0, v0)" by fastforce
  have "dict_update d (kv # new) = dict_update (dict_set k0 v0 d) new"
    by (simp add: dict_update_def kv)
  then show ?case
    by (simp add: Cons.IH dict_get_set kv map_add_def split: option.split)
qed

text \<open>
  Python's equality of JSON scalars: a boolean equals the integer it stands for, an integer the equal
  float. Two dictionaries are equal when they have the same keys with equal values.
\<close>

fun py_number :: "json \<Rightarrow> rat option" where
  "py_number (JBool b) = Some (if b then 1 else 0)"
| "py_number (JInt i) = Some (of_int i)"
| "py_number (JNum q) = Some q"
| "py_number _ = None"

definition py_eq :: "json \<Rightarrow> json \<Rightarrow> bool" where
  "py_eq a b \<longleftrightarrow> (case (py_number a, py_number b) of (Some x, Some y) \<Rightarrow> x = y | _ \<Rightarrow> a = b)"

definition dict_eq :: "dict \<Rightarrow> dict \<Rightarrow> bool" where
  "dict_eq a b \<longleftrightarrow> set (map fst a) = set (map fst b) \<and>
     list_all (\<lambda>(k, v). case dict_get b k of None \<Rightarrow> False | Some w \<Rightarrow> py_eq v w) a"

section \<open>Digests\<close>

definition hex_digits :: string where
  "hex_digits = ''0123456789abcdef''"

definition is_sha256 :: "string \<Rightarrow> bool" where
  "is_sha256 s \<longleftrightarrow> length s = 64 \<and> list_all (\<lambda>c. c \<in> set hex_digits) s"

text \<open>\<open>int(s, 16)\<close> for a string of hexadecimal digits.\<close>

definition hex_value :: "char \<Rightarrow> int" where
  "hex_value c = int (length (takeWhile (\<lambda>d. d \<noteq> c) hex_digits))"

definition int_of_hex :: "string \<Rightarrow> int" where
  "int_of_hex s = foldl (\<lambda>n c. 16 * n + hex_value c) 0 s"

section \<open>Strings\<close>

text \<open>
  A string is a list of Latin-1 characters. \<open>str.strip\<close> removes white space at both ends, \<open>find_from\<close> is
  \<open>text.find(sub, start)\<close>, \<open>split_on\<close> is \<open>str.split\<close> with a separator of one character, and \<open>casefold\<close> folds the
  letters of both alphabets of Latin-1; the sharp s folds to two letters.
\<close>

definition blank_char :: "char \<Rightarrow> bool" where
  "blank_char c \<longleftrightarrow> c \<in> set [CHR '' '', CHR 0x09, CHR 0x0A, CHR 0x0B, CHR 0x0C, CHR 0x0D,
     CHR 0x1C, CHR 0x1D, CHR 0x1E, CHR 0x1F, CHR 0x85, CHR 0xA0]"

definition strip :: "string \<Rightarrow> string" where
  "strip s = rev (dropWhile blank_char (rev (dropWhile blank_char s)))"

fun find_sub :: "string \<Rightarrow> string \<Rightarrow> nat option" where
  "find_sub sub [] = (if sub = [] then Some 0 else None)"
| "find_sub sub (c # cs) = (if take (length sub) (c # cs) = sub then Some 0 else map_option Suc (find_sub sub cs))"

definition find_from :: "string \<Rightarrow> string \<Rightarrow> nat \<Rightarrow> nat option" where
  "find_from text sub start =
     (if start \<le> length text then map_option (\<lambda>i. start + i) (find_sub sub (drop start text)) else None)"

definition contains :: "string \<Rightarrow> string \<Rightarrow> bool" where
  "contains text sub \<longleftrightarrow> find_sub sub text \<noteq> None"

fun split_on :: "char \<Rightarrow> string \<Rightarrow> string list" where
  "split_on sep [] = [[]]"
| "split_on sep (c # cs) =
     (if c = sep then [] # split_on sep cs
      else (case split_on sep cs of [] \<Rightarrow> [[c]] | p # ps \<Rightarrow> (c # p) # ps))"

definition upper_char :: "char \<Rightarrow> bool" where
  "upper_char c \<longleftrightarrow> (let n = of_char c :: nat in 65 \<le> n \<and> n \<le> 90 \<or> 192 \<le> n \<and> n \<le> 222 \<and> n \<noteq> 215)"

definition lower_char :: "char \<Rightarrow> char" where
  "lower_char c = (if upper_char c then char_of (of_char c + 32 :: nat) else c)"

definition lower :: "string \<Rightarrow> string" where
  "lower s = map lower_char s"

definition casefold :: "string \<Rightarrow> string" where
  "casefold s = concat (map (\<lambda>c. if c = CHR 0xDF then ''ss'' else [lower_char c]) s)"

text \<open>\<open>str\<close> of a natural number.\<close>

fun show_nat :: "nat \<Rightarrow> string" where
  "show_nat n = (if n < 10 then [char_of (48 + n)] else show_nat (n div 10) @ [char_of (48 + n mod 10)])"

declare show_nat.simps [simp del]

lemma find_sub_Some_iff:
  "find_sub sub t = Some i \<longleftrightarrow>
     i \<le> length t \<and> take (length sub) (drop i t) = sub \<and>
     (\<forall>j < i. take (length sub) (drop j t) \<noteq> sub)"
proof (induction t arbitrary: i)
  case Nil
  then show ?case by auto
next
  case (Cons c cs)
  show ?case
    by (cases i) (auto simp: Cons.IH less_Suc_eq_0_disj)
qed

section \<open>Tables\<close>

definition select_where :: "('r \<Rightarrow> bool) \<Rightarrow> 'r list \<Rightarrow> 'r list" where
  "select_where P rows = filter P rows"

definition update_where :: "('r \<Rightarrow> bool) \<Rightarrow> ('r \<Rightarrow> 'r) \<Rightarrow> 'r list \<Rightarrow> 'r list" where
  "update_where P f rows = map (\<lambda>r. if P r then f r else r) rows"

definition rowcount :: "('r \<Rightarrow> bool) \<Rightarrow> 'r list \<Rightarrow> nat" where
  "rowcount P rows = length (filter P rows)"

definition first :: "'a list \<Rightarrow> 'a option" where
  "first xs = (case xs of [] \<Rightarrow> None | x # _ \<Rightarrow> Some x)"

definition scalar_one_or_none :: "'a list \<Rightarrow> 'a option result" where
  "scalar_one_or_none xs =
     (case xs of [] \<Rightarrow> Inr None | [x] \<Rightarrow> Inr (Some x) | _ \<Rightarrow> Inl MultipleResultsFound)"

lemma first_simps [simp]: "first [] = None" "first (x # xs) = Some x"
  by (simp_all add: first_def)

lemma first_None_iff [simp]: "first xs = None \<longleftrightarrow> xs = []"
  by (cases xs) simp_all

lemma first_Some_in: "first xs = Some x \<Longrightarrow> x \<in> set xs"
  by (cases xs) simp_all

lemma scalar_one_or_none_simps [simp]:
  "scalar_one_or_none [] = Inr None"
  "scalar_one_or_none [x] = Inr (Some x)"
  "scalar_one_or_none (x # y # zs) = Inl MultipleResultsFound"
  by (simp_all add: scalar_one_or_none_def)

lemma scalar_one_or_none_Some_iff [table_simps]:
  "scalar_one_or_none xs = Inr (Some x) \<longleftrightarrow> xs = [x]"
  by (auto simp: scalar_one_or_none_def split: list.splits)

lemma scalar_one_or_none_None_iff [table_simps]:
  "scalar_one_or_none xs = Inr None \<longleftrightarrow> xs = []"
  by (auto simp: scalar_one_or_none_def split: list.splits)

lemma in_update_where_iff [table_simps]:
  "r \<in> set (update_where P f rows) \<longleftrightarrow>
     (\<exists>r0 \<in> set rows. r = (if P r0 then f r0 else r0))"
  by (auto simp: update_where_def)

lemma in_select_where_iff [table_simps]: "r \<in> set (select_where P rows) \<longleftrightarrow> r \<in> set rows \<and> P r"
  by (simp add: select_where_def)

lemma length_update_where [simp]: "length (update_where P f rows) = length rows"
  by (simp add: update_where_def)

lemma map_key_update_where:
  "(\<And>r. P r \<Longrightarrow> key (f r) = key r) \<Longrightarrow> map key (update_where P f rows) = map key rows"
  by (simp add: update_where_def comp_def)

lemma update_where_none: "rowcount P rows = 0 \<Longrightarrow> update_where P f rows = rows"
  by (induction rows) (auto simp: rowcount_def update_where_def split: if_splits)

lemma filter_singletonD:
  assumes "filter P xs = [x]" and "y \<in> set xs" and "P y"
  shows "y = x"
proof -
  have "y \<in> set (filter P xs)"
    using assms(2,3) by simp
  then show ?thesis
    by (simp add: assms(1))
qed

lemma rowcount_pos_iff: "0 < rowcount P rows \<longleftrightarrow> (\<exists>r \<in> set rows. P r)"
  by (auto simp: rowcount_def filter_empty_conv)

lemma distinct_map_filter_le1:
  "distinct (map key rows) \<Longrightarrow> length (filter (\<lambda>r. key r = k) rows) \<le> 1"
proof (induction rows)
  case Nil
  then show ?case by simp
next
  case (Cons r rows)
  have "key r = k \<Longrightarrow> filter (\<lambda>r. key r = k) rows = []"
    using Cons.prems by (auto simp: filter_empty_conv image_iff)
  with Cons show ?case by auto
qed

lemma rowcount_key_le1:
  assumes "distinct (map key rows)" and "\<And>r. P r \<Longrightarrow> key r = k"
  shows "rowcount P rows \<le> 1"
proof -
  have "filter P rows = filter P (filter (\<lambda>r. key r = k) rows)"
    using assms(2) by (auto intro: filter_cong)
  then have "rowcount P rows \<le> length (filter (\<lambda>r. key r = k) rows)"
    unfolding rowcount_def by (metis length_filter_le)
  also have "\<dots> \<le> 1"
    using assms(1) by (rule distinct_map_filter_le1)
  finally show ?thesis .
qed

lemma distinct_map_key_unique:
  "distinct (map key rows) \<Longrightarrow> r \<in> set rows \<Longrightarrow> r' \<in> set rows \<Longrightarrow> key r = key r' \<Longrightarrow> r = r'"
  by (auto simp: distinct_map inj_on_def)

lemma filter_key_unique:
  assumes "distinct (map key rows)" and "r \<in> set rows"
  shows "filter (\<lambda>x. key x = key r) rows = [r]"
  using assms
proof (induction rows)
  case Nil
  then show ?case by simp
next
  case (Cons x rows)
  show ?case
  proof (cases "key x = key r")
    case True
    then have "x = r"
      using Cons.prems by (auto dest: distinct_map_key_unique)
    moreover have "filter (\<lambda>x. key x = key r) rows = []"
      using Cons.prems(1) \<open>x = r\<close> by (auto simp: filter_empty_conv image_iff)
    ultimately show ?thesis by simp
  next
    case False
    with Cons show ?thesis by auto
  qed
qed

section \<open>Reachable states\<close>

inductive reachable :: "('s \<Rightarrow> bool) \<Rightarrow> ('s \<Rightarrow> 's \<Rightarrow> bool) \<Rightarrow> 's \<Rightarrow> bool"
  for init :: "'s \<Rightarrow> bool" and step :: "'s \<Rightarrow> 's \<Rightarrow> bool" where
  start: "init s \<Longrightarrow> reachable init step s"
| move: "reachable init step s \<Longrightarrow> step s t \<Longrightarrow> reachable init step t"

locale invariant_system =
  fixes init :: "'s \<Rightarrow> bool" and step :: "'s \<Rightarrow> 's \<Rightarrow> bool" and inv :: "'s \<Rightarrow> bool"
  assumes inv_start: "init s \<Longrightarrow> inv s"
    and inv_step: "inv s \<Longrightarrow> step s t \<Longrightarrow> inv t"
begin

lemma inv_reachable: "reachable init step s \<Longrightarrow> inv s"
  by (induction rule: reachable.induct) (blast intro: inv_start inv_step)+

text \<open>A property every step from a state of the invariant keeps is kept along whole runs.\<close>

lemma steps_preserve:
  assumes "step\<^sup>*\<^sup>* s t" and "inv s" and "P s"
    and "\<And>u v. inv u \<Longrightarrow> step u v \<Longrightarrow> P u \<Longrightarrow> P v"
  shows "P t"
proof -
  from assms(1) have "inv t \<and> P t"
    by (induction rule: rtranclp_induct) (use assms inv_step in blast)+
  then show ?thesis by blast
qed

end

end
