(* ===== verification/Arena_Db.thy ===== *)
theory Arena_Db
  imports Arena_Prelude
begin

text \<open>
  The tables of the durable execution core (\<open>src/backend/persistence_v1/schema.py\<close> and
  \<open>invocation_schema.py\<close>) as records of lists of rows, and the transaction discipline of
  \<open>ArenaRepository.transaction\<close>.

  Column names carry the prefix of their table. A column with a \<open>CheckConstraint\<close> that lists its
  values is a datatype, so that the constraint holds by typing; nullable columns are options.
  Primary keys, unique constraints and foreign keys are checked by the insert functions, which
  raise \<open>IntegrityError\<close>. The surrogate key of \<open>attempt_events\<close>, which no code reads, is left
  out.
\<close>

section \<open>Rows\<close>

datatype execution_status =
    Ex_queued | Ex_running | Ex_completed | Ex_failed | Ex_cancelled | Ex_legacy_local_unverified

datatype job_status = Job_queued | Job_running | Job_completed | Job_failed | Job_cancelled

datatype owner_approval = Approval_pending | Approval_approved | Approval_rejected

record experiment_row =
  xp_id :: string
  xp_project_id :: string
  xp_study_pack_id :: string
  xp_spec_hash :: "string option"
  xp_study_pack_hash :: "string option"
  xp_owner_approval :: owner_approval
  xp_definition :: dict
  xp_frozen_at :: "datetime option"

record execution_row =
  ex_id :: string
  ex_experiment_id :: string
  ex_status :: execution_status
  ex_parameters :: dict
  ex_started_at :: "datetime option"
  ex_completed_at :: "datetime option"

record episode_row =
  ep_id :: string
  ep_execution_id :: string
  ep_ordinal :: nat
  ep_scenario_id :: "string option"
  ep_metadata_json :: dict

record attempt_row =
  at_id :: string
  at_episode_id :: string
  at_ordinal :: nat
  at_status :: string
  at_request_metadata :: dict
  at_result_metadata :: dict

record job_row =
  jb_id :: string
  jb_execution_id :: string
  jb_attempt_id :: "string option"
  jb_kind :: string
  jb_status :: job_status
  jb_lease_owner :: "string option"
  jb_lease_token :: "string option"
  jb_lease_expires_at :: "datetime option"
  jb_heartbeat_at :: "datetime option"
  jb_attempt_count :: "nat option"
  jb_available_at :: "datetime option"
  jb_cancel_requested_at :: "datetime option"
  jb_payload :: dict
  jb_created_at :: datetime

record attempt_event_row =
  ev_attempt_id :: string
  ev_execution_id :: string
  ev_sequence :: nat
  ev_execution_sequence :: nat
  ev_event_type :: string
  ev_payload :: dict

record event_cursor_row =
  cu_execution_id :: string
  cu_last_sequence :: nat

datatype transport_context_state = Ctx_unknown | Ctx_supported | Ctx_unsupported

datatype cancellation_state =
    Can_not_requested | Can_requested | Can_dispatched | Can_acknowledged | Can_unsupported | Can_unknown

datatype side_effect_state =
    Eff_not_started | Eff_possible | Eff_observed | Eff_reconciled | Eff_ambiguous

datatype usage_state =
    Use_not_observed | Use_observed | Use_reconciled | Use_unknown | Use_disputed

datatype admission_state = Adm_current | Adm_stale | Adm_duplicate | Adm_ambiguous

record invocation_row =
  iv_id :: string
  iv_execution_id :: string
  iv_attempt_id :: string
  iv_job_id :: string
  iv_generation :: nat
  iv_fence_token :: string
  iv_provider :: string
  iv_provider_model :: string
  iv_provider_idempotency_key :: string
  iv_provider_request_namespace :: string
  iv_provider_request_id :: "string option"
  iv_lease_owner :: string
  iv_lease_acquired_at :: datetime
  iv_lease_expires_at :: datetime
  iv_dispatch_started_at :: "datetime option"
  iv_aggregate_deadline_at :: "datetime option"
  iv_transport_context_state :: transport_context_state
  iv_cancellation_state :: cancellation_state
  iv_side_effect_state :: side_effect_state
  iv_usage_state :: usage_state
  iv_admission_state :: admission_state
  iv_provider_result_digest :: "string option"
  iv_terminal_outcome :: "string option"
  iv_created_at :: datetime
  iv_updated_at :: datetime
  iv_terminal_at :: "datetime option"

datatype reservation_state =
    Res_requested | Res_reserved | Res_committed | Res_released | Res_expired | Res_disputed
  | Res_unknown_usage

record reservation_row =
  br_id :: string
  br_ledger_id :: string
  br_execution_id :: string
  br_attempt_id :: "string option"
  br_invocation_id :: "string option"
  br_state :: reservation_state
  br_reason :: "string option"
  br_version :: nat
  br_reserved_at :: datetime
  br_updated_at :: datetime
  br_terminal_at :: "datetime option"

text \<open>
  The \<open>cost_status\<close> values are those of \<open>invocation_schema.py\<close>, which replaces the constraint of
  \<open>schema.py\<close>. Amounts of money are rationals (see the theory \<open>Currency\<close>).
\<close>

datatype cost_status =
    Cost_reserved | Cost_estimated | Cost_reconciled | Cost_unknown | Cost_mismatch
  | Cost_released | Cost_expired

record ledger_row =
  ul_id :: string
  ul_execution_id :: string
  ul_attempt_id :: "string option"
  ul_model_id :: string
  ul_input_tokens :: "int option"
  ul_output_tokens :: "int option"
  ul_total_tokens :: "int option"
  ul_context_tokens :: "int option"
  ul_tool_calls :: "int option"
  ul_reserved_max_tokens :: "int option"
  ul_reserved_max_tool_calls :: "int option"
  ul_cost_status :: cost_status
  ul_cost_usd :: "rat option"
  ul_reserved_cost_usd :: "rat option"
  ul_estimated_cost_usd :: "rat option"
  ul_actual_cost_usd :: "rat option"
  ul_price_catalog_revision :: "string option"
  ul_provider_usage_digest :: "string option"
  ul_created_at :: datetime

record arena_db =
  db_experiments :: "experiment_row list"
  db_executions :: "execution_row list"
  db_episodes :: "episode_row list"
  db_attempts :: "attempt_row list"
  db_jobs :: "job_row list"
  db_attempt_events :: "attempt_event_row list"
  db_event_cursors :: "event_cursor_row list"
  db_invocations :: "invocation_row list"
  db_reservations :: "reservation_row list"
  db_ledger :: "ledger_row list"

section \<open>Transactions\<close>

type_synonym 'a tx = "arena_db \<Rightarrow> ('a \<times> arena_db) result"

text \<open>
  A public operation of a repository returns its value or exception and the committed database.
  \<open>transaction\<close> commits what the body has written, or rolls everything back when it raises.
\<close>

definition transaction :: "('s \<Rightarrow> ('a \<times> 's) result) \<Rightarrow> 's \<Rightarrow> 'a result \<times> 's" where
  "transaction body db =
     (case body db of Inl e \<Rightarrow> (Inl e, db) | Inr (a, db') \<Rightarrow> (Inr a, db'))"

lemma transaction_eq_Inr_iff [tx_simps]:
  "transaction body db = (Inr a, db') \<longleftrightarrow> body db = Inr (a, db')"
  by (auto simp: transaction_def split: sum.splits prod.splits)

lemma transaction_snd_cases:
  "snd (transaction body db) = db \<or> (\<exists>a. body db = Inr (a, snd (transaction body db)))"
  by (auto simp: transaction_def split: sum.splits prod.splits)

lemma transaction_Inl_rolls_back: "fst (transaction body db) = Inl e \<Longrightarrow> snd (transaction body db) = db"
  by (auto simp: transaction_def split: sum.splits prod.splits)

section \<open>Inserts\<close>

definition insert_execution :: "execution_row \<Rightarrow> arena_db \<Rightarrow> arena_db result" where
  "insert_execution row db =
     (if list_ex (\<lambda>r. ex_id r = ex_id row) (db_executions db)
      then Inl (IntegrityError ''executions'')
      else if \<not> list_ex (\<lambda>x. xp_id x = ex_experiment_id row) (db_experiments db)
      then Inl (IntegrityError ''executions foreign key'')
      else Inr (db\<lparr>db_executions := db_executions db @ [row]\<rparr>))"

definition insert_episode :: "episode_row \<Rightarrow> arena_db \<Rightarrow> arena_db result" where
  "insert_episode row db =
     (if list_ex (\<lambda>r. ep_id r = ep_id row \<or>
           ep_execution_id r = ep_execution_id row \<and> ep_ordinal r = ep_ordinal row) (db_episodes db)
      then Inl (IntegrityError ''episodes'')
      else if \<not> list_ex (\<lambda>x. ex_id x = ep_execution_id row) (db_executions db)
      then Inl (IntegrityError ''episodes foreign key'')
      else Inr (db\<lparr>db_episodes := db_episodes db @ [row]\<rparr>))"

definition insert_job :: "job_row \<Rightarrow> arena_db \<Rightarrow> arena_db result" where
  "insert_job row db =
     (if list_ex (\<lambda>r. jb_id r = jb_id row \<or>
           jb_attempt_id r \<noteq> None \<and> jb_attempt_id r = jb_attempt_id row \<and> jb_kind r = jb_kind row)
         (db_jobs db)
      then Inl (IntegrityError ''jobs'')
      else if \<not> list_ex (\<lambda>e. ex_id e = jb_execution_id row) (db_executions db) \<or>
              (case jb_attempt_id row of None \<Rightarrow> False
               | Some a \<Rightarrow> \<not> list_ex (\<lambda>t. at_id t = a) (db_attempts db))
      then Inl (IntegrityError ''jobs foreign key'')
      else Inr (db\<lparr>db_jobs := db_jobs db @ [row]\<rparr>))"

definition insert_attempt :: "attempt_row \<Rightarrow> arena_db \<Rightarrow> arena_db result" where
  "insert_attempt row db =
     (if list_ex (\<lambda>r. at_id r = at_id row \<or>
           at_episode_id r = at_episode_id row \<and> at_ordinal r = at_ordinal row) (db_attempts db)
      then Inl (IntegrityError ''attempts'')
      else if \<not> list_ex (\<lambda>e. ep_id e = at_episode_id row) (db_episodes db)
      then Inl (IntegrityError ''attempts foreign key'')
      else Inr (db\<lparr>db_attempts := db_attempts db @ [row]\<rparr>))"

definition insert_attempt_event :: "attempt_event_row \<Rightarrow> arena_db \<Rightarrow> arena_db result" where
  "insert_attempt_event row db =
     (if list_ex (\<lambda>r.
           ev_attempt_id r = ev_attempt_id row \<and> ev_sequence r = ev_sequence row \<or>
           ev_execution_id r = ev_execution_id row \<and>
           ev_execution_sequence r = ev_execution_sequence row) (db_attempt_events db)
         \<or> ev_sequence row = 0 \<or> ev_execution_sequence row = 0
      then Inl (IntegrityError ''attempt_events'')
      else Inr (db\<lparr>db_attempt_events := db_attempt_events db @ [row]\<rparr>))"

section \<open>Structural well-formedness\<close>

text \<open>
  Primary keys and unique constraints, and the foreign keys the joins of the code follow. The
  database enforces them; the operations are shown to keep them.
\<close>

definition db_keys :: "arena_db \<Rightarrow> bool" where
  "db_keys db \<longleftrightarrow>
     distinct (map ex_id (db_executions db)) \<and>
     distinct (map ep_id (db_episodes db)) \<and>
     distinct (map at_id (db_attempts db)) \<and>
     distinct (map jb_id (db_jobs db))"

definition db_refs :: "arena_db \<Rightarrow> bool" where
  "db_refs db \<longleftrightarrow>
     (\<forall>t \<in> set (db_attempts db). \<exists>e \<in> set (db_episodes db). ep_id e = at_episode_id t) \<and>
     (\<forall>e \<in> set (db_episodes db). \<exists>x \<in> set (db_executions db). ex_id x = ep_execution_id e) \<and>
     (\<forall>j \<in> set (db_jobs db). \<exists>x \<in> set (db_executions db). ex_id x = jb_execution_id j) \<and>
     (\<forall>j \<in> set (db_jobs db). \<forall>a. jb_attempt_id j = Some a \<longrightarrow>
        (\<exists>t \<in> set (db_attempts db). at_id t = a))"

lemma insert_job_Inr_iff:
  "insert_job row db = Inr db' \<longleftrightarrow>
     db' = db\<lparr>db_jobs := db_jobs db @ [row]\<rparr> \<and>
     (\<forall>r \<in> set (db_jobs db). jb_id r \<noteq> jb_id row \<and>
        (jb_attempt_id r \<noteq> None \<longrightarrow> jb_attempt_id r = jb_attempt_id row \<longrightarrow> jb_kind r \<noteq> jb_kind row)) \<and>
     (\<exists>e \<in> set (db_executions db). ex_id e = jb_execution_id row) \<and>
     (\<forall>a. jb_attempt_id row = Some a \<longrightarrow> (\<exists>t \<in> set (db_attempts db). at_id t = a))"
  by (auto simp: insert_job_def list_ex_iff split: option.splits)

lemma insert_execution_Inr_iff:
  "insert_execution row db = Inr db' \<longleftrightarrow>
     db' = db\<lparr>db_executions := db_executions db @ [row]\<rparr> \<and>
     (\<forall>r \<in> set (db_executions db). ex_id r \<noteq> ex_id row) \<and>
     (\<exists>x \<in> set (db_experiments db). xp_id x = ex_experiment_id row)"
  by (auto simp: insert_execution_def list_ex_iff)

lemma insert_episode_Inr_iff:
  "insert_episode row db = Inr db' \<longleftrightarrow>
     db' = db\<lparr>db_episodes := db_episodes db @ [row]\<rparr> \<and>
     (\<forall>r \<in> set (db_episodes db). ep_id r \<noteq> ep_id row \<and>
        (ep_execution_id r = ep_execution_id row \<longrightarrow> ep_ordinal r \<noteq> ep_ordinal row)) \<and>
     (\<exists>x \<in> set (db_executions db). ex_id x = ep_execution_id row)"
  by (auto simp: insert_episode_def list_ex_iff)

lemma insert_attempt_Inr_iff:
  "insert_attempt row db = Inr db' \<longleftrightarrow>
     db' = db\<lparr>db_attempts := db_attempts db @ [row]\<rparr> \<and>
     (\<forall>r \<in> set (db_attempts db). at_id r \<noteq> at_id row \<and>
        (at_episode_id r = at_episode_id row \<longrightarrow> at_ordinal r \<noteq> at_ordinal row)) \<and>
     (\<exists>e \<in> set (db_episodes db). ep_id e = at_episode_id row)"
  by (auto simp: insert_attempt_def list_ex_iff)

end
