(* ===== verification/Event_Log.thy ===== *)
theory Event_Log
  imports Arena_Db
begin

text \<open>
  The append-only event log: \<open>append_attempt_event_in_transaction\<close> and the execution-wide reader of
  \<open>src/backend/persistence_v1/repository.py\<close>, and the cursor reader of
  \<open>src/backend/execution_v1/events.py\<close>.

  The invariant \<open>events_inv\<close> says that the events of an attempt are numbered 1, 2, 3, ... without
  gaps, that the events of an execution are too, and that the cursor row of an execution holds the
  last number. It makes the unique constraints of the table unviolable and resuming exact.
\<close>

section \<open>Appending\<close>

definition attempt_execution_ids :: "arena_db \<Rightarrow> string \<Rightarrow> string list" where
  "attempt_execution_ids db attempt_id =
     concat (map (\<lambda>t. map ep_execution_id
         (filter (\<lambda>e. ep_id e = at_episode_id t) (db_episodes db)))
       (filter (\<lambda>t. at_id t = attempt_id) (db_attempts db)))"

definition append_attempt_event :: "string \<Rightarrow> string \<Rightarrow> dict \<Rightarrow> nat tx" where
  "append_attempt_event attempt_id event_type payload db =
     bind_r (scalar_one_or_none (attempt_execution_ids db attempt_id)) (\<lambda>found.
     case found of
       None \<Rightarrow> Inl (ValueError (''attempt '' @ attempt_id @ '' does not exist''))
     | Some execution_id \<Rightarrow>
         bind_r (scalar_one_or_none
             (map cu_last_sequence (filter (\<lambda>c. cu_execution_id c = execution_id) (db_event_cursors db))))
           (\<lambda>cursor.
         let execution_sequence = (case cursor of None \<Rightarrow> 1 | Some n \<Rightarrow> n + 1);
             cursors =
               (case cursor of
                  None \<Rightarrow> db_event_cursors db @
                            [\<lparr>cu_execution_id = execution_id, cu_last_sequence = execution_sequence\<rparr>]
                | Some _ \<Rightarrow> update_where (\<lambda>c. cu_execution_id c = execution_id)
                            (cu_last_sequence_update (\<lambda>_. execution_sequence)) (db_event_cursors db));
             sequence =
               foldr max (map ev_sequence
                 (filter (\<lambda>v. ev_attempt_id v = attempt_id) (db_attempt_events db))) 0 + 1
         in bind_r (insert_attempt_event
               \<lparr>ev_attempt_id = attempt_id, ev_execution_id = execution_id, ev_sequence = sequence,
                ev_execution_sequence = execution_sequence, ev_event_type = event_type,
                ev_payload = payload\<rparr> (db\<lparr>db_event_cursors := cursors\<rparr>))
             (\<lambda>db'. Inr (sequence, db'))))"

definition append_attempt_event_op :: "string \<Rightarrow> string \<Rightarrow> dict \<Rightarrow> arena_db \<Rightarrow> nat result \<times> arena_db" where
  "append_attempt_event_op attempt_id event_type payload =
     transaction (append_attempt_event attempt_id event_type payload)"

section \<open>Reading\<close>

record event_read_result =
  rd_events :: "attempt_event_row list"
  rd_next_cursor :: int
  rd_reset :: bool
  rd_retention_floor :: int
  rd_snapshot :: "attempt_row option"

definition read_events ::
  "arena_db \<Rightarrow> string \<Rightarrow> int \<Rightarrow> int option \<Rightarrow> event_read_result result" where
  "read_events db attempt_id after_sequence retention_floor =
     (if after_sequence < 0 then Inl (ValueError ''after_sequence cannot be negative'')
      else
        let own = filter (\<lambda>v. ev_attempt_id v = attempt_id) (db_attempt_events db);
            observed_floor =
              (if own = [] then None else Some (int (Min (set (map ev_sequence own)))));
            floor_of = (\<lambda>v. case v of None \<Rightarrow> 1 | Some f \<Rightarrow> if f = 0 then 1 else (f :: int));
            floor_seq = max (floor_of observed_floor) (floor_of retention_floor);
            reset = after_sequence < floor_seq - 1;
            cursor = (if reset then floor_seq - 1 else after_sequence);
            rows = sort_key ev_sequence (filter (\<lambda>v. int (ev_sequence v) > cursor) own);
            attempt = first (filter (\<lambda>t. at_id t = attempt_id) (db_attempts db))
        in Inr \<lparr>rd_events = rows,
                rd_next_cursor = (if rows \<noteq> [] then int (ev_sequence (last rows)) else cursor),
                rd_reset = reset, rd_retention_floor = floor_seq,
                rd_snapshot = (if reset then attempt else None)\<rparr>)"

text \<open>
  The outer join of the execution with its later events: one row with a null event when there is
  none, no row when the execution does not exist.
\<close>

definition invalid_event :: "arena_db \<Rightarrow> string \<Rightarrow> bool" where
  "invalid_event db execution_id \<longleftrightarrow>
     list_ex (\<lambda>v. list_ex (\<lambda>t. list_ex (\<lambda>e.
         at_id t = ev_attempt_id v \<and> ep_id e = at_episode_id t \<and>
         (ev_execution_id v = execution_id \<or> ep_execution_id e = execution_id) \<and>
         ep_execution_id e \<noteq> ev_execution_id v)
       (db_episodes db)) (db_attempts db)) (db_attempt_events db)"

definition list_execution_events_with_status_after ::
  "arena_db \<Rightarrow> string \<Rightarrow> int \<Rightarrow> (attempt_event_row list \<times> execution_status option) result" where
  "list_execution_events_with_status_after db execution_id cursor =
     (if cursor < 0 then Inl (ValueError ''cursor must be a nonnegative integer'')
      else
        let events = sort_key ev_execution_sequence
              (filter (\<lambda>v. ev_execution_id v = execution_id \<and> int (ev_execution_sequence v) > cursor)
                (db_attempt_events db))
        in (case first (filter (\<lambda>x. ex_id x = execution_id) (db_executions db)) of
              None \<Rightarrow> Inr ([], None)
            | Some x \<Rightarrow>
                if invalid_event db execution_id
                then Inl (ValueError ''execution event integrity mismatch'')
                else Inr (events, Some (ex_status x))))"

definition list_execution_events_after ::
  "arena_db \<Rightarrow> string \<Rightarrow> int \<Rightarrow> attempt_event_row list result" where
  "list_execution_events_after db execution_id cursor =
     bind_r (list_execution_events_with_status_after db execution_id cursor) (\<lambda>(events, _). Inr events)"

section \<open>The invariant of the log\<close>

definition attempt_events_of :: "string \<Rightarrow> arena_db \<Rightarrow> attempt_event_row list" where
  "attempt_events_of a db = filter (\<lambda>v. ev_attempt_id v = a) (db_attempt_events db)"

definition execution_events_of :: "string \<Rightarrow> arena_db \<Rightarrow> attempt_event_row list" where
  "execution_events_of x db = filter (\<lambda>v. ev_execution_id v = x) (db_attempt_events db)"

definition events_inv :: "arena_db \<Rightarrow> bool" where
  "events_inv db \<longleftrightarrow>
     (\<forall>a. map ev_sequence (attempt_events_of a db) = [1..<length (attempt_events_of a db) + 1]) \<and>
     (\<forall>x. map ev_execution_sequence (execution_events_of x db)
            = [1..<length (execution_events_of x db) + 1]) \<and>
     (\<forall>x. map cu_last_sequence (filter (\<lambda>c. cu_execution_id c = x) (db_event_cursors db))
            = (if execution_events_of x db = [] then [] else [length (execution_events_of x db)])) \<and>
     (\<forall>v \<in> set (db_attempt_events db).
        attempt_execution_ids db (ev_attempt_id v) = [ev_execution_id v])"

lemma foldr_max_upt: "foldr max [1..<n + 1] m = max (n :: nat) m"
  by (induction n arbitrary: m) auto

text \<open>A numbered list of rows: the column \<open>key\<close> counts 1, 2, 3, ...\<close>

lemma numbered_less:
  assumes "map key rows = [1..<length rows + 1]" and "r \<in> set rows"
  shows "1 \<le> key r \<and> key r \<le> length rows"
proof -
  from assms(2) have "key r \<in> set (map key rows)" by simp
  with assms(1) have "key r \<in> set [1..<length rows + 1]" by simp
  then show ?thesis by auto
qed

lemma numbered_filter_gt:
  fixes rows :: "'r list" and key :: "'r \<Rightarrow> nat"
  assumes "map key rows = [1..<length rows + 1]"
  shows "filter (\<lambda>r. int (key r) > c) rows = drop (nat c) rows"
  using assms
proof (induction rows rule: rev_induct)
  case Nil
  then show ?case by simp
next
  case (snoc r rows)
  then have "map key rows = [1..<length rows + 1]" "key r = length rows + 1"
    by simp_all
  with snoc.IH show ?case
    by (auto simp: nat_le_iff)
qed

lemma numbered_sorted:
  assumes "map key rows = [1..<length rows + 1]"
  shows "sort_key key rows = rows"
proof (rule sort_key_id_if_sorted)
  show "sorted (map key rows)"
    unfolding assms by (rule sorted_upt)
qed

lemma sort_key_drop_numbered:
  assumes "map key rows = [1..<length rows + 1]"
  shows "sort_key key (drop n rows) = drop n rows"
proof (rule sort_key_id_if_sorted)
  have "sorted (map key rows)"
    unfolding assms by (rule sorted_upt)
  then show "sorted (map key (drop n rows))"
    by (simp add: drop_map [symmetric])
qed

lemma numbered_Min:
  assumes "map key rows = [1..<length rows + 1]" and "rows \<noteq> []"
  shows "Min (set (map key rows)) = (1 :: nat)"
proof -
  have "set (map key rows) = {1..length rows}"
    unfolding assms(1) by auto
  with assms(2) show ?thesis
    by (auto intro!: Min_eqI simp: Suc_le_eq)
qed

section \<open>Appending keeps the invariant\<close>

definition new_event :: "string \<Rightarrow> string \<Rightarrow> string \<Rightarrow> dict \<Rightarrow> arena_db \<Rightarrow> attempt_event_row" where
  "new_event a x event_type payload db =
     \<lparr>ev_attempt_id = a, ev_execution_id = x, ev_sequence = length (attempt_events_of a db) + 1,
      ev_execution_sequence = length (execution_events_of x db) + 1, ev_event_type = event_type,
      ev_payload = payload\<rparr>"

definition bump_cursor :: "string \<Rightarrow> arena_db \<Rightarrow> event_cursor_row list" where
  "bump_cursor x db =
     (if execution_events_of x db = []
      then db_event_cursors db @ [\<lparr>cu_execution_id = x, cu_last_sequence = 1\<rparr>]
      else update_where (\<lambda>c. cu_execution_id c = x)
             (cu_last_sequence_update (\<lambda>_. length (execution_events_of x db) + 1))
             (db_event_cursors db))"

definition with_event :: "string \<Rightarrow> string \<Rightarrow> string \<Rightarrow> dict \<Rightarrow> arena_db \<Rightarrow> arena_db" where
  "with_event a x event_type payload db =
     db\<lparr>db_event_cursors := bump_cursor x db,
        db_attempt_events := db_attempt_events db @ [new_event a x event_type payload db]\<rparr>"

lemma filter_update_where_key:
  "(\<And>r. P r \<Longrightarrow> Q (f r) \<longleftrightarrow> Q r) \<Longrightarrow>
   filter Q (update_where P f rows) = update_where P f (filter Q rows)"
  by (induction rows) (auto simp: update_where_def)

lemma append_attempt_event_eq:
  assumes inv: "events_inv db" and x: "attempt_execution_ids db a = [x]"
  shows "append_attempt_event a event_type payload db =
     Inr (length (attempt_events_of a db) + 1, with_event a x event_type payload db)"
proof -
  have "map ev_sequence (filter (\<lambda>v. ev_attempt_id v = a) (db_attempt_events db))
      = [1..<length (attempt_events_of a db) + 1]"
    using inv by (simp only: events_inv_def attempt_events_of_def)
  then have seq: "foldr max (map ev_sequence
      (filter (\<lambda>v. ev_attempt_id v = a) (db_attempt_events db))) 0 = length (attempt_events_of a db)"
    by (simp only: foldr_max_upt max_0R)
  have cur: "map cu_last_sequence (filter (\<lambda>c. cu_execution_id c = x) (db_event_cursors db))
      = (if execution_events_of x db = [] then [] else [length (execution_events_of x db)])"
    using inv by (simp add: events_inv_def)
  have fresh_a: "ev_sequence v \<noteq> Suc (length (attempt_events_of a db))"
    if "v \<in> set (db_attempt_events db)" "ev_attempt_id v = a" for v
    using numbered_less [of ev_sequence "attempt_events_of a db" v] inv that
    by (simp add: events_inv_def attempt_events_of_def)
  have fresh_x: "ev_execution_sequence v \<noteq> Suc (length (execution_events_of x db))"
    if "v \<in> set (db_attempt_events db)" "ev_execution_id v = x" for v
    using numbered_less [of ev_execution_sequence "execution_events_of x db" v] inv that
    by (simp add: events_inv_def execution_events_of_def)
  show ?thesis
    using fresh_a fresh_x
    by (cases "execution_events_of x db = []")
      (auto simp: append_attempt_event_def x seq cur Let_def insert_attempt_event_def list_ex_iff
        with_event_def new_event_def bump_cursor_def)
qed

lemma with_event_frame [simp]:
  "db_experiments (with_event a x ty p db) = db_experiments db"
  "db_executions (with_event a x ty p db) = db_executions db"
  "db_episodes (with_event a x ty p db) = db_episodes db"
  "db_attempts (with_event a x ty p db) = db_attempts db"
  "db_jobs (with_event a x ty p db) = db_jobs db"
  "db_invocations (with_event a x ty p db) = db_invocations db"
  "db_reservations (with_event a x ty p db) = db_reservations db"
  "db_ledger (with_event a x ty p db) = db_ledger db"
  by (simp_all add: with_event_def)

lemma attempt_execution_ids_with_event [simp]:
  "attempt_execution_ids (with_event a x ty p db) b = attempt_execution_ids db b"
  by (simp add: attempt_execution_ids_def)

lemma attempt_events_of_with_event:
  "attempt_events_of b (with_event a x ty p db) =
     attempt_events_of b db @ (if b = a then [new_event a x ty p db] else [])"
  by (simp add: attempt_events_of_def with_event_def new_event_def)

lemma execution_events_of_with_event:
  "execution_events_of y (with_event a x ty p db) =
     execution_events_of y db @ (if y = x then [new_event a x ty p db] else [])"
  by (simp add: execution_events_of_def with_event_def new_event_def)

lemma event_cursors_with_event: "db_event_cursors (with_event a x ty p db) = bump_cursor x db"
  by (simp add: with_event_def)

lemma attempt_events_with_event:
  "db_attempt_events (with_event a x ty p db) = db_attempt_events db @ [new_event a x ty p db]"
  by (simp add: with_event_def)

text \<open>Numbering the cursor row of an execution leaves the rows of the others alone.\<close>

lemma bump_cursor_filter:
  assumes "map cu_last_sequence (filter (\<lambda>c. cu_execution_id c = x) (db_event_cursors db))
      = (if execution_events_of x db = [] then [] else [length (execution_events_of x db)])"
  shows "map cu_last_sequence (filter (\<lambda>c. cu_execution_id c = y) (bump_cursor x db)) =
     (if y = x then [length (execution_events_of x db) + 1]
      else map cu_last_sequence (filter (\<lambda>c. cu_execution_id c = y) (db_event_cursors db)))"
proof (cases "execution_events_of x db = []")
  case True
  with assms show ?thesis by (simp add: bump_cursor_def)
next
  case False
  then obtain c0 where c0: "filter (\<lambda>c. cu_execution_id c = x) (db_event_cursors db) = [c0]"
    using assms by (auto simp: map_eq_Cons_conv)
  have "cu_execution_id c0 = x"
    using c0 by (auto dest!: arg_cong [where f = set])
  moreover have "filter (\<lambda>c. cu_execution_id c = y)
        (update_where (\<lambda>c. cu_execution_id c = x) f (db_event_cursors db)) =
      update_where (\<lambda>c. cu_execution_id c = x) f
        (filter (\<lambda>c. cu_execution_id c = y) (db_event_cursors db))"
    if "\<And>c. cu_execution_id (f c) = cu_execution_id c" for f
    using that by (intro filter_update_where_key) simp
  moreover have "update_where (\<lambda>c. cu_execution_id c = x) f
        (filter (\<lambda>c. cu_execution_id c = y) (db_event_cursors db)) =
      filter (\<lambda>c. cu_execution_id c = y) (db_event_cursors db)" if "y \<noteq> x" for f
    using that by (auto simp: update_where_def intro!: map_idI)
  ultimately show ?thesis
    using False c0 by (auto simp: bump_cursor_def update_where_def)
qed

lemma with_event_inv:
  assumes inv: "events_inv db" and x: "attempt_execution_ids db a = [x]"
  shows "events_inv (with_event a x ty p db)"
proof -
  let ?db = "with_event a x ty p db"
  have a: "map ev_sequence (attempt_events_of b ?db) = [1..<length (attempt_events_of b ?db) + 1]" for b
    using inv by (simp add: events_inv_def attempt_events_of_with_event new_event_def)
  have e: "map ev_execution_sequence (execution_events_of y ?db)
      = [1..<length (execution_events_of y ?db) + 1]" for y
    using inv by (simp add: events_inv_def execution_events_of_with_event new_event_def)
  have cur: "map cu_last_sequence (filter (\<lambda>c. cu_execution_id c = y) (db_event_cursors db))
      = (if execution_events_of y db = [] then [] else [length (execution_events_of y db)])" for y
    using inv by (simp add: events_inv_def)
  have c: "map cu_last_sequence (filter (\<lambda>c. cu_execution_id c = y) (db_event_cursors ?db))
      = (if execution_events_of y ?db = [] then [] else [length (execution_events_of y ?db)])" for y
    unfolding event_cursors_with_event bump_cursor_filter [OF cur] execution_events_of_with_event
    using cur [of y] by simp
  have v: "attempt_execution_ids ?db (ev_attempt_id v) = [ev_execution_id v]"
    if "v \<in> set (db_attempt_events ?db)" for v
    using that inv x by (auto simp: events_inv_def attempt_events_with_event new_event_def)
  show ?thesis
    unfolding events_inv_def using a e c v by blast
qed

section \<open>The interface of the log\<close>

text \<open>
  What the writers of the log rely on: an append touches no other table, extends the log at its
  end, and keeps the numbering. \<open>append_run\<close> is any number of appends, by any writers.
\<close>

definition same_core :: "arena_db \<Rightarrow> arena_db \<Rightarrow> bool" where
  "same_core db db' \<longleftrightarrow>
     db_experiments db' = db_experiments db \<and> db_executions db' = db_executions db \<and>
     db_episodes db' = db_episodes db \<and> db_attempts db' = db_attempts db \<and>
     db_jobs db' = db_jobs db \<and> db_invocations db' = db_invocations db \<and>
     db_reservations db' = db_reservations db \<and> db_ledger db' = db_ledger db"

lemma same_coreD:
  assumes "same_core db db'"
  shows "db_experiments db' = db_experiments db" "db_executions db' = db_executions db"
    "db_episodes db' = db_episodes db" "db_attempts db' = db_attempts db"
    "db_jobs db' = db_jobs db" "db_invocations db' = db_invocations db"
    "db_reservations db' = db_reservations db" "db_ledger db' = db_ledger db"
  using assms by (simp_all add: same_core_def)

lemma same_core_refl [simp]: "same_core db db"
  by (simp add: same_core_def)

lemma same_core_trans: "same_core a b \<Longrightarrow> same_core b c \<Longrightarrow> same_core a c"
  by (simp add: same_core_def)

locale event_appender =
  fixes append :: "string \<Rightarrow> string \<Rightarrow> dict \<Rightarrow> nat tx"
  assumes append_core: "append a ty p db = Inr (n, db') \<Longrightarrow> same_core db db'"
    and append_inv: "events_inv db \<Longrightarrow> append a ty p db = Inr (n, db') \<Longrightarrow> events_inv db'"
    and append_extends: "append a ty p db = Inr (n, db') \<Longrightarrow>
      \<exists>v. db_attempt_events db' = db_attempt_events db @ [v] \<and> ev_attempt_id v = a \<and>
          ev_sequence v = n \<and> ev_event_type v = ty \<and> ev_payload v = p"
begin

inductive append_run :: "arena_db \<Rightarrow> arena_db \<Rightarrow> bool" where
  run_refl: "append_run db db"
| run_step: "append_run db db1 \<Longrightarrow> append a ty p db1 = Inr (n, db2) \<Longrightarrow> append_run db db2"

lemma append_run_core: "append_run db db' \<Longrightarrow> same_core db db'"
  by (induction rule: append_run.induct) (auto intro: same_core_trans append_core)

lemma append_run_inv: "append_run db db' \<Longrightarrow> events_inv db \<Longrightarrow> events_inv db'"
  by (induction rule: append_run.induct) (auto intro: append_inv)

lemma append_run_extends: "append_run db db' \<Longrightarrow> \<exists>vs. db_attempt_events db' = db_attempt_events db @ vs"
  by (induction rule: append_run.induct) (auto dest: append_extends)

lemma append_run_attempt_events:
  "append_run db db' \<Longrightarrow> \<exists>vs. attempt_events_of a db' = attempt_events_of a db @ vs"
  by (auto dest!: append_run_extends simp: attempt_events_of_def)

lemma append_run_execution_events:
  "append_run db db' \<Longrightarrow> \<exists>vs. execution_events_of x db' = execution_events_of x db @ vs"
  by (auto dest!: append_run_extends simp: execution_events_of_def)

end

lemma append_attempt_event_Inr:
  assumes "append_attempt_event a ty p db = Inr (n, db')"
  obtains x where "attempt_execution_ids db a = [x]"
proof -
  from assms obtain f where f: "scalar_one_or_none (attempt_execution_ids db a) = Inr f" "f \<noteq> None"
    by (auto simp: append_attempt_event_def bind_r_eq_Inr_iff split: option.splits)
  then show ?thesis
    using that by (auto simp: scalar_one_or_none_Some_iff)
qed

lemma insert_attempt_event_Inr:
  "insert_attempt_event row db = Inr db' \<Longrightarrow>
   db' = db\<lparr>db_attempt_events := db_attempt_events db @ [row]\<rparr>"
  by (simp add: insert_attempt_event_def split: if_splits)

lemma append_attempt_event_shape:
  assumes "append_attempt_event a ty p db = Inr (n, db')"
  obtains cs v where
    "db' = db\<lparr>db_event_cursors := cs, db_attempt_events := db_attempt_events db @ [v]\<rparr>"
    "ev_attempt_id v = a" "ev_sequence v = n" "ev_event_type v = ty" "ev_payload v = p"
proof -
  obtain x where x: "attempt_execution_ids db a = [x]"
    using assms by (rule append_attempt_event_Inr)
  show ?thesis
    using assms unfolding append_attempt_event_def x
    by (auto simp: bind_r_eq_Inr_iff Let_def dest!: insert_attempt_event_Inr intro: that)
qed

lemma append_attempt_event_core: "append_attempt_event a ty p db = Inr (n, db') \<Longrightarrow> same_core db db'"
  by (erule append_attempt_event_shape) (simp add: same_core_def)

lemma append_attempt_event_extends:
  "append_attempt_event a ty p db = Inr (n, db') \<Longrightarrow>
   \<exists>v. db_attempt_events db' = db_attempt_events db @ [v] \<and> ev_attempt_id v = a \<and>
       ev_sequence v = n \<and> ev_event_type v = ty \<and> ev_payload v = p"
  by (erule append_attempt_event_shape) simp

lemma append_attempt_event_inv:
  assumes "events_inv db" and "append_attempt_event a ty p db = Inr (n, db')"
  shows "events_inv db'"
proof -
  obtain x where x: "attempt_execution_ids db a = [x]"
    using assms(2) by (rule append_attempt_event_Inr)
  with assms have "db' = with_event a x ty p db"
    by (simp add: append_attempt_event_eq)
  with x assms(1) show ?thesis by (simp add: with_event_inv)
qed

interpretation log: event_appender append_attempt_event
  by unfold_locales
    (auto intro: append_attempt_event_core append_attempt_event_inv append_attempt_event_extends)

section \<open>Reading under the invariant\<close>

definition floor_value :: "int option \<Rightarrow> int" where
  "floor_value v = (case v of None \<Rightarrow> 1 | Some f \<Rightarrow> if f = 0 then 1 else f)"

definition effective_cursor :: "int \<Rightarrow> int option \<Rightarrow> int" where
  "effective_cursor c rf = (if c < max 1 (floor_value rf) - 1 then max 1 (floor_value rf) - 1 else c)"

lemma events_inv_attempt:
  "events_inv db \<Longrightarrow>
   map ev_sequence (attempt_events_of a db) = [1..<length (attempt_events_of a db) + 1]"
  by (simp add: events_inv_def)

lemma events_inv_execution:
  "events_inv db \<Longrightarrow>
   map ev_execution_sequence (execution_events_of x db) = [1..<length (execution_events_of x db) + 1]"
  by (simp add: events_inv_def)

lemma last_numbered:
  assumes "map key rows = [1..<length rows + 1]" and "rows \<noteq> []"
  shows "key (last rows) = length rows"
proof -
  have "key (last rows) = last (map key rows)"
    using assms(2) by (simp add: last_map)
  also have "\<dots> = length rows"
    using assms by (simp add: Suc_le_eq)
  finally show ?thesis .
qed

lemma read_events_eq:
  assumes inv: "events_inv db" and c: "0 \<le> c"
  shows "read_events db a c rf = Inr
    \<lparr>rd_events = drop (nat (effective_cursor c rf)) (attempt_events_of a db),
     rd_next_cursor = max (effective_cursor c rf) (int (length (attempt_events_of a db))),
     rd_reset = (c < max 1 (floor_value rf) - 1), rd_retention_floor = max 1 (floor_value rf),
     rd_snapshot = (if c < max 1 (floor_value rf) - 1
       then first (filter (\<lambda>t. at_id t = a) (db_attempts db)) else None)\<rparr>"
proof -
  let ?own = "attempt_events_of a db" and ?cur = "effective_cursor c rf"
  note num = events_inv_attempt [OF inv, of a]
  have obs: "floor_value (if ?own = [] then None else Some (int (Min (set (map ev_sequence ?own))))) = 1"
    using numbered_Min [OF num] by (cases "?own = []") (auto simp: floor_value_def)
  have rows: "sort_key ev_sequence (filter (\<lambda>v. int (ev_sequence v) > k) ?own) = drop (nat k) ?own" for k
    by (simp only: numbered_filter_gt [OF num] sort_key_drop_numbered [OF num])
  have "0 \<le> ?cur"
    using c by (auto simp: effective_cursor_def max_def)
  then have last: "(if drop (nat ?cur) ?own \<noteq> [] then int (ev_sequence (last (drop (nat ?cur) ?own)))
      else ?cur) = max ?cur (int (length ?own))"
    using last_numbered [OF num] by (cases "?own = []") (auto simp: last_drop not_le)
  have "\<not> c < 0"
    using c by simp
  then show ?thesis
    unfolding read_events_def Let_def
      attempt_events_of_def [symmetric] floor_value_def [symmetric] obs rows effective_cursor_def [symmetric]
    using last by simp
qed

lemma invalid_event_False:
  assumes inv: "events_inv db"
  shows "\<not> invalid_event db x"
proof
  assume "invalid_event db x"
  then obtain v t e where v: "v \<in> set (db_attempt_events db)" "t \<in> set (db_attempts db)"
      "e \<in> set (db_episodes db)" "at_id t = ev_attempt_id v" "ep_id e = at_episode_id t"
      "ep_execution_id e \<noteq> ev_execution_id v"
    by (auto simp: invalid_event_def list_ex_iff)
  then have "ep_execution_id e \<in> set (attempt_execution_ids db (ev_attempt_id v))"
    by (force simp: attempt_execution_ids_def)
  with v inv show False
    by (simp add: events_inv_def)
qed

lemma list_execution_events_eq:
  assumes inv: "events_inv db" and x: "first (filter (\<lambda>e. ex_id e = x) (db_executions db)) = Some e"
    and c: "0 \<le> c"
  shows "list_execution_events_with_status_after db x c =
    Inr (drop (nat c) (execution_events_of x db), Some (ex_status e))"
proof -
  note num = events_inv_execution [OF inv, of x]
  have "filter (\<lambda>v. ev_execution_id v = x \<and> int (ev_execution_sequence v) > c) (db_attempt_events db)
      = filter (\<lambda>v. int (ev_execution_sequence v) > c) (execution_events_of x db)"
    by (auto simp: execution_events_of_def intro: filter_cong)
  then have "sort_key ev_execution_sequence
      (filter (\<lambda>v. ev_execution_id v = x \<and> int (ev_execution_sequence v) > c) (db_attempt_events db))
      = drop (nat c) (execution_events_of x db)"
    by (simp only: numbered_filter_gt [OF num] sort_key_drop_numbered [OF num])
  with x c show ?thesis
    by (simp add: list_execution_events_with_status_after_def invalid_event_False [OF inv])
qed

section \<open>Properties of the log\<close>

definition example_log_db :: arena_db where
  "example_log_db =
    \<lparr>db_experiments = [],
     db_executions = [\<lparr>ex_id = ''x1'', ex_experiment_id = ''p'', ex_status = Ex_running,
        ex_parameters = [], ex_started_at = None, ex_completed_at = None\<rparr>],
     db_episodes = [\<lparr>ep_id = ''e1'', ep_execution_id = ''x1'', ep_ordinal = 0, ep_scenario_id = None,
        ep_metadata_json = []\<rparr>],
     db_attempts = [\<lparr>at_id = ''a1'', at_episode_id = ''e1'', at_ordinal = 0, at_status = ''queued'',
        at_request_metadata = [], at_result_metadata = []\<rparr>,
       \<lparr>at_id = ''a2'', at_episode_id = ''e1'', at_ordinal = 1, at_status = ''queued'',
        at_request_metadata = [], at_result_metadata = []\<rparr>],
     db_jobs = [], db_attempt_events = [], db_event_cursors = [], db_invocations = [],
     db_reservations = [], db_ledger = []\<rparr>"

text \<open>
  Appending an event to an attempt that belongs to an execution always succeeds (neither unique
  constraint of the table can be violated), returns the next number of the attempt, adds exactly one
  row at the end of the log, and keeps the numbering of all attempts and executions contiguous.
\<close>

theorem append_attempt_event_numbers:
  assumes "events_inv db" and "attempt_execution_ids db a = [x]"
  shows "\<exists>db' v. append_attempt_event_op a ty p db = (Inr (length (attempt_events_of a db) + 1), db') \<and>
     db_attempt_events db' = db_attempt_events db @ [v] \<and>
     ev_attempt_id v = a \<and> ev_execution_id v = x \<and> ev_payload v = p \<and>
     ev_sequence v = length (attempt_events_of a db) + 1 \<and>
     ev_execution_sequence v = length (execution_events_of x db) + 1 \<and>
     same_core db db' \<and> events_inv db'"
  using with_event_inv [OF assms, of ty p] append_attempt_event_eq [OF assms, of ty p]
    append_attempt_event_core [of a ty p db]
  by (simp add: append_attempt_event_op_def transaction_def attempt_events_with_event new_event_def)

lemma example_log_inv: "events_inv example_log_db"
  by (simp add: events_inv_def example_log_db_def attempt_events_of_def execution_events_of_def)

lemma example_log_ids: "attempt_execution_ids example_log_db ''a1'' = [''x1'']"
  by (simp add: attempt_execution_ids_def example_log_db_def)

theorem append_attempt_event_numbers_witness:
  "\<exists>db' v. append_attempt_event_op ''a1'' ''started'' [] example_log_db =
       (Inr (length (attempt_events_of ''a1'' example_log_db) + 1), db') \<and>
     db_attempt_events db' = db_attempt_events example_log_db @ [v] \<and>
     ev_attempt_id v = ''a1'' \<and> ev_execution_id v = ''x1'' \<and> ev_payload v = [] \<and>
     ev_sequence v = length (attempt_events_of ''a1'' example_log_db) + 1 \<and>
     ev_execution_sequence v = length (execution_events_of ''x1'' example_log_db) + 1 \<and>
     same_core example_log_db db' \<and> events_inv db'"
  by (rule append_attempt_event_numbers [OF example_log_inv example_log_ids])

text \<open>
  A client that reads the events of an attempt and later resumes from the cursor it was given
  sees, over the two reads, exactly the events one read of the final log from its first cursor
  returns: none is lost or repeated, whatever was appended in between, and the resumed read is never
  a reset.
\<close>

theorem read_events_resume:
  assumes "events_inv db" and "log.append_run db db'" and "read_events db a c None = Inr r"
  shows "\<exists>r' whole. read_events db' a (rd_next_cursor r) None = Inr r' \<and>
     read_events db' a c None = Inr whole \<and>
     rd_events r @ rd_events r' = rd_events whole \<and>
     rd_next_cursor r' = rd_next_cursor whole \<and> \<not> rd_reset r'"
proof -
  have c: "0 \<le> c"
    using assms(3) by (auto simp: read_events_def split: if_splits)
  obtain vs where vs: "attempt_events_of a db' = attempt_events_of a db @ vs"
    using log.append_run_attempt_events [OF assms(2)] by blast
  have inv': "events_inv db'"
    using assms(1,2) by (rule log.append_run_inv [rotated])
  have eff: "effective_cursor k None = k" if "0 \<le> k" for k
    using that by (simp add: effective_cursor_def floor_value_def)
  from assms(3) have r: "rd_events r = drop (nat c) (attempt_events_of a db)"
      "rd_next_cursor r = max c (int (length (attempt_events_of a db)))"
    using c by (auto simp: read_events_eq [OF assms(1) c] eff)
  have "drop (nat c) (attempt_events_of a db) @ drop (nat (rd_next_cursor r)) (attempt_events_of a db')
      = drop (nat c) (attempt_events_of a db')"
    by (cases "nat c \<le> length (attempt_events_of a db)") (auto simp: r(2) vs max_def)
  then show ?thesis
    using c by (simp add: read_events_eq [OF inv'] eff r vs floor_value_def)
qed

lemma example_log_run:
  "log.append_run (with_event ''a1'' ''x1'' ''started'' [] example_log_db)
     (with_event ''a1'' ''x1'' ''terminal'' [] (with_event ''a1'' ''x1'' ''started'' [] example_log_db))"
  by (rule log.run_step [OF log.run_refl append_attempt_event_eq
        [OF with_event_inv [OF example_log_inv example_log_ids]]])
    (simp add: example_log_ids)

theorem read_events_resume_witness:
  "\<exists>r' whole. let db = with_event ''a1'' ''x1'' ''started'' [] example_log_db;
                  db' = with_event ''a1'' ''x1'' ''terminal'' [] db;
                  r = projr (read_events db ''a1'' 0 None) in
     read_events db' ''a1'' (rd_next_cursor r) None = Inr r' \<and>
     read_events db' ''a1'' 0 None = Inr whole \<and>
     rd_events r @ rd_events r' = rd_events whole \<and>
     rd_next_cursor r' = rd_next_cursor whole \<and> \<not> rd_reset r'"
  unfolding Let_def
  by (rule read_events_resume [OF with_event_inv [OF example_log_inv example_log_ids] example_log_run])
    (simp add: read_events_eq [OF with_event_inv [OF example_log_inv example_log_ids]])

text \<open>
  The execution-wide reader never raises its integrity error on a log built by the appends: for
  an existing execution it returns the events numbered after the cursor, in order, and the status
  of the execution.
\<close>

theorem list_execution_events_exact:
  assumes "events_inv db" and "log.append_run db db'"
    and "first (filter (\<lambda>e. ex_id e = x) (db_executions db)) = Some e"
  shows "\<exists>new. list_execution_events_with_status_after db' x (int (length (execution_events_of x db)))
        = Inr (new, Some (ex_status e)) \<and>
     execution_events_of x db' = execution_events_of x db @ new \<and>
     map ev_execution_sequence new
       = [length (execution_events_of x db) + 1..<length (execution_events_of x db') + 1]"
proof -
  have inv': "events_inv db'"
    using assms(1,2) by (rule log.append_run_inv [rotated])
  have ex: "first (filter (\<lambda>e. ex_id e = x) (db_executions db')) = Some e"
    using assms(3) same_coreD(2) [OF log.append_run_core [OF assms(2)]] by simp
  obtain vs where vs: "execution_events_of x db' = execution_events_of x db @ vs"
    using log.append_run_execution_events [OF assms(2)] by blast
  have "map ev_execution_sequence vs
      = drop (length (execution_events_of x db)) (map ev_execution_sequence (execution_events_of x db'))"
    by (simp add: vs drop_map)
  also have "\<dots> = [length (execution_events_of x db) + 1..<length (execution_events_of x db') + 1]"
    by (simp add: events_inv_execution [OF inv'] drop_upt del: upt_Suc)
  finally show ?thesis
    using list_execution_events_eq [OF inv' ex] by (simp add: vs)
qed

theorem list_execution_events_exact_witness:
  "\<exists>new. let db = with_event ''a1'' ''x1'' ''started'' [] example_log_db;
              db' = with_event ''a1'' ''x1'' ''terminal'' [] db in
     list_execution_events_with_status_after db' ''x1'' (int (length (execution_events_of ''x1'' db)))
        = Inr (new, Some Ex_running) \<and>
     execution_events_of ''x1'' db' = execution_events_of ''x1'' db @ new \<and>
     map ev_execution_sequence new
       = [length (execution_events_of ''x1'' db) + 1..<length (execution_events_of ''x1'' db') + 1]"
proof -
  have "first (filter (\<lambda>e. ex_id e = ''x1'')
      (db_executions (with_event ''a1'' ''x1'' ''started'' [] example_log_db)))
    = Some \<lparr>ex_id = ''x1'', ex_experiment_id = ''p'', ex_status = Ex_running,
        ex_parameters = [], ex_started_at = None, ex_completed_at = None\<rparr>"
    by (simp add: example_log_db_def)
  from list_execution_events_exact [OF with_event_inv [OF example_log_inv example_log_ids]
      example_log_run this]
  show ?thesis unfolding Let_def by simp
qed

end
