(* ===== verification/Attempt_Input.thy ===== *)
theory Attempt_Input
  imports Arena_Prelude
begin

text \<open>
  The hash-bound input of an attempt: \<open>AttemptEnvelope\<close> and \<open>BudgetSpec\<close> of
  \<open>src/backend/protocol_v1/models.py\<close>, \<open>AttemptInput\<close> of \<open>src/backend/adapters_v1/models.py\<close> as
  \<open>src/backend/adapters_v1/controlled_models.py\<close> replaces it, and the execution controls of
  \<open>src/backend/adapters_v1/controls.py\<close> that a scenario carries in its extensions.

  The pydantic library, which parses JSON into a model and checks its field types, is a parameter:
  the record \<open>codec\<close> holds its parsers and the digest function \<open>sha256\<close> of canonical JSON.
  The validators the sources add run after the parser, as pydantic runs them. A scenario is its JSON
  dump with the fields the code reads; the provenance is its dump.
\<close>

record budget_spec =
  bs_max_attempts :: nat
  bs_max_cost_usd :: rat
  bs_max_latency_seconds :: rat
  bs_max_tokens :: int
  bs_max_tool_calls :: int
  bs_max_context_tokens :: int

datatype envelope_status =
    Env_queued | Env_started | Env_completed | Env_failed | Env_timed_out | Env_cancelled
  | Env_incomplete

record attempt_envelope =
  av_attempt_id :: string
  av_episode_id :: string
  av_ordinal :: nat
  av_provider_model :: string
  av_provider :: string
  av_endpoint_id :: "string option"
  av_pinned_endpoint_digest :: "string option"
  av_observed_provider_version :: "string option"
  av_observed_endpoint_digest :: "string option"
  av_harness_id :: string
  av_factor_assignments :: dict
  av_budget :: budget_spec
  av_provenance :: dict
  av_request_hash :: string
  av_response_hash :: "string option"
  av_status :: envelope_status
  av_queued_at :: datetime
  av_started_at :: "datetime option"
  av_completed_at :: "datetime option"

record scenario_spec =
  sc_scenario_id :: string
  sc_variant :: string
  sc_pair_id :: "string option"
  sc_cluster_id :: "string option"
  sc_extensions :: dict
  sc_dump :: dict

datatype control_source = Frozen_experiment | Compatibility_default

record execution_controls =
  ec_temperature :: rat
  ec_top_p :: rat
  ec_max_output_tokens :: int
  ec_seed :: int
  ec_timeout_seconds :: rat
  ec_max_tool_calls :: int
  ec_max_context_tokens :: int
  ec_max_attempts :: int
  ec_source :: control_source

record attempt_input =
  ai_scenario :: scenario_spec
  ai_attempt :: attempt_envelope
  ai_scenario_digest :: string
  ai_binding_digest :: string

record codec =
  sha256 :: "json \<Rightarrow> string"
  parse_scenario :: "json \<Rightarrow> scenario_spec result"
  parse_envelope :: "json \<Rightarrow> attempt_envelope result"
  parse_attempt_input :: "json \<Rightarrow> attempt_input result"
  parse_controls :: "json \<Rightarrow> execution_controls result"

section \<open>Validation\<close>

definition terminal_envelope :: "envelope_status list" where
  "terminal_envelope = [Env_completed, Env_failed, Env_timed_out, Env_cancelled, Env_incomplete]"

definition validate_lifecycle :: "attempt_envelope \<Rightarrow> attempt_envelope result" where
  "validate_lifecycle e =
     bind_r (raise_if ((av_endpoint_id e = None) \<noteq> (av_pinned_endpoint_digest e = None))
       (ValueError ''endpoint_id and pinned_endpoint_digest must appear together'')) (\<lambda>_.
     bind_r (raise_if ((av_observed_endpoint_digest e \<noteq> None \<or> av_observed_provider_version e \<noteq> None)
         \<and> av_endpoint_id e = None)
       (ValueError ''endpoint observations require a pinned endpoint binding'')) (\<lambda>_.
     bind_r (raise_if (av_status e = Env_queued
         \<and> (av_started_at e \<noteq> None \<or> av_completed_at e \<noteq> None))
       (ValueError ''queued attempts cannot have start or completion timestamps'')) (\<lambda>_.
     bind_r (raise_if (av_status e = Env_queued
         \<and> (av_observed_endpoint_digest e \<noteq> None \<or> av_observed_provider_version e \<noteq> None))
       (ValueError ''queued attempts cannot contain endpoint observations'')) (\<lambda>_.
     bind_r (raise_if (av_status e = Env_started
         \<and> (av_started_at e = None \<or> av_completed_at e \<noteq> None))
       (ValueError ''started attempts require started_at and no completed_at'')) (\<lambda>_.
     bind_r (raise_if (av_status e \<in> set terminal_envelope
         \<and> (av_started_at e = None \<or> av_completed_at e = None))
       (ValueError ''terminal attempts require started_at and completed_at'')) (\<lambda>_.
     bind_r (raise_if (case av_started_at e of None \<Rightarrow> False | Some t \<Rightarrow> t < av_queued_at e)
       (ValueError ''started_at cannot precede queued_at'')) (\<lambda>_.
     bind_r (raise_if (case (av_completed_at e, av_started_at e) of
           (Some c, Some t) \<Rightarrow> c < t | _ \<Rightarrow> False)
       (ValueError ''completed_at cannot precede started_at'')) (\<lambda>_.
     Inr e))))))))"

section \<open>Dumps\<close>

definition opt_json :: "('a \<Rightarrow> json) \<Rightarrow> 'a option \<Rightarrow> json" where
  "opt_json f v = (case v of None \<Rightarrow> JNull | Some a \<Rightarrow> f a)"

definition budget_dump :: "budget_spec \<Rightarrow> json" where
  "budget_dump b = JObj
     [(''max_attempts'', JInt (int (bs_max_attempts b))), (''max_cost_usd'', JNum (bs_max_cost_usd b)),
      (''max_latency_seconds'', JNum (bs_max_latency_seconds b)),
      (''max_tokens'', JInt (bs_max_tokens b)), (''max_tool_calls'', JInt (bs_max_tool_calls b)),
      (''max_context_tokens'', JInt (bs_max_context_tokens b))]"

fun status_dump :: "envelope_status \<Rightarrow> string" where
  "status_dump Env_queued = ''queued''"
| "status_dump Env_started = ''started''"
| "status_dump Env_completed = ''completed''"
| "status_dump Env_failed = ''failed''"
| "status_dump Env_timed_out = ''timed_out''"
| "status_dump Env_cancelled = ''cancelled''"
| "status_dump Env_incomplete = ''incomplete''"

definition envelope_dump :: "attempt_envelope \<Rightarrow> json" where
  "envelope_dump e = JObj
     [(''protocol_version'', JStr ''1.0''), (''attempt_id'', JStr (av_attempt_id e)),
      (''episode_id'', JStr (av_episode_id e)), (''ordinal'', JInt (int (av_ordinal e))),
      (''provider_model'', JStr (av_provider_model e)), (''provider'', JStr (av_provider e)),
      (''endpoint_id'', opt_json JStr (av_endpoint_id e)),
      (''pinned_endpoint_digest'', opt_json JStr (av_pinned_endpoint_digest e)),
      (''observed_provider_version'', opt_json JStr (av_observed_provider_version e)),
      (''observed_endpoint_digest'', opt_json JStr (av_observed_endpoint_digest e)),
      (''harness_id'', JStr (av_harness_id e)),
      (''factor_assignments'', JObj (av_factor_assignments e)),
      (''budget'', budget_dump (av_budget e)), (''provenance'', JObj (av_provenance e)),
      (''request_hash'', JStr (av_request_hash e)),
      (''response_hash'', opt_json JStr (av_response_hash e)),
      (''status'', JStr (status_dump (av_status e))), (''queued_at'', JTime (av_queued_at e)),
      (''started_at'', opt_json JTime (av_started_at e)),
      (''completed_at'', opt_json JTime (av_completed_at e))]"

definition attempt_input_dump :: "attempt_input \<Rightarrow> json" where
  "attempt_input_dump i = JObj
     [(''scenario'', JObj (sc_dump (ai_scenario i))), (''attempt'', envelope_dump (ai_attempt i)),
      (''scenario_digest'', JStr (ai_scenario_digest i)),
      (''binding_digest'', JStr (ai_binding_digest i))]"

section \<open>Binding\<close>

definition binding_document :: "string \<Rightarrow> string \<Rightarrow> attempt_envelope \<Rightarrow> json" where
  "binding_document scenario_id scenario_digest e = JObj
     [(''scenario_id'', JStr scenario_id), (''scenario_digest'', JStr scenario_digest),
      (''attempt'', envelope_dump e)]"

definition verify_binding :: "codec \<Rightarrow> attempt_input \<Rightarrow> attempt_input result" where
  "verify_binding k i =
     bind_r (raise_if (ai_scenario_digest i \<noteq> sha256 k (JObj (sc_dump (ai_scenario i))))
       (ValueError ''scenario_digest does not match canonical scenario'')) (\<lambda>_.
     bind_r (raise_if (ai_binding_digest i \<noteq> sha256 k (binding_document
           (sc_scenario_id (ai_scenario i)) (ai_scenario_digest i) (ai_attempt i)))
       (ValueError ''binding_digest does not match scenario and attempt'')) (\<lambda>_.
     Inr i))"

definition validate_envelope :: "codec \<Rightarrow> json \<Rightarrow> attempt_envelope result" where
  "validate_envelope k j = bind_r (parse_envelope k j) validate_lifecycle"

section \<open>Execution controls\<close>

definition CONTROL_EXTENSION_NAMESPACE :: string where
  "CONTROL_EXTENSION_NAMESPACE = ''org.scaffold-arena.execution-controls''"

text \<open>The bounds that the fields of \<open>AttemptExecutionControls\<close> declare, checked by its constructor.\<close>

definition new_controls :: "execution_controls \<Rightarrow> execution_controls result" where
  "new_controls c =
     bind_r (raise_if (\<not> (0 \<le> ec_temperature c \<and> ec_temperature c \<le> 2 \<and> 0 < ec_top_p c \<and> ec_top_p c \<le> 1
         \<and> 1 \<le> ec_max_output_tokens c \<and> 0 \<le> ec_seed c \<and> ec_seed c \<le> 2 ^ 31 - 1
         \<and> 0 < ec_timeout_seconds c \<and> ec_timeout_seconds c \<le> 3600 \<and> 0 \<le> ec_max_tool_calls c
         \<and> 1 \<le> ec_max_context_tokens c \<and> 1 \<le> ec_max_attempts c))
       (ValueError ''AttemptExecutionControls'')) (\<lambda>_. Inr c)"

definition compatibility :: "attempt_envelope \<Rightarrow> execution_controls result" where
  "compatibility attempt = new_controls
     \<lparr>ec_temperature = 0, ec_top_p = 1, ec_max_output_tokens = bs_max_tokens (av_budget attempt),
      ec_seed = 0, ec_timeout_seconds = bs_max_latency_seconds (av_budget attempt),
      ec_max_tool_calls = bs_max_tool_calls (av_budget attempt),
      ec_max_context_tokens = bs_max_context_tokens (av_budget attempt),
      ec_max_attempts = int (bs_max_attempts (av_budget attempt)),
      ec_source = Compatibility_default\<rparr>"

fun source_dump :: "control_source \<Rightarrow> string" where
  "source_dump Frozen_experiment = ''frozen_experiment''"
| "source_dump Compatibility_default = ''compatibility_default''"

definition controls_dump :: "execution_controls \<Rightarrow> dict" where
  "controls_dump c =
     [(''temperature'', JNum (ec_temperature c)), (''top_p'', JNum (ec_top_p c)),
      (''max_output_tokens'', JInt (ec_max_output_tokens c)), (''seed'', JInt (ec_seed c)),
      (''timeout_seconds'', JNum (ec_timeout_seconds c)), (''max_tool_calls'', JInt (ec_max_tool_calls c)),
      (''max_context_tokens'', JInt (ec_max_context_tokens c)),
      (''max_attempts'', JInt (ec_max_attempts c)), (''source'', JStr (source_dump (ec_source c)))]"

definition controls_digest :: "codec \<Rightarrow> execution_controls \<Rightarrow> string" where
  "controls_digest k c = sha256 k (JObj (controls_dump c))"

definition execution_controls_for :: "codec \<Rightarrow> attempt_input \<Rightarrow> execution_controls result" where
  "execution_controls_for k i =
     (case dict_get (sc_extensions (ai_scenario i)) CONTROL_EXTENSION_NAMESPACE of
        None \<Rightarrow> compatibility (ai_attempt i)
      | Some JNull \<Rightarrow> compatibility (ai_attempt i)
      | Some (JObj raw) \<Rightarrow> parse_controls k (JObj raw)
      | Some _ \<Rightarrow> Inl (ValueError ''execution-control extension must be a JSON object''))"

definition scenario_with_execution_controls ::
  "codec \<Rightarrow> scenario_spec \<Rightarrow> execution_controls \<Rightarrow> scenario_spec result" where
  "scenario_with_execution_controls k scenario controls =
     (let control_payload = controls_dump controls;
          extensions = dict_set CONTROL_EXTENSION_NAMESPACE (JObj control_payload) (sc_extensions scenario);
          updated = dict_set ''extensions'' (JObj extensions) (sc_dump scenario)
      in case dict_get (sc_extensions scenario) CONTROL_EXTENSION_NAMESPACE of
           Some (JObj existing) \<Rightarrow>
             if \<not> dict_eq existing control_payload
             then Inl (ValueError ''scenario already binds a different execution-control set'')
             else parse_scenario k (JObj updated)
         | None \<Rightarrow> parse_scenario k (JObj updated)
         | Some JNull \<Rightarrow> parse_scenario k (JObj updated)
         | Some _ \<Rightarrow> Inl (TypeError ''dict''))"

definition validate_control_budget_binding :: "codec \<Rightarrow> attempt_input \<Rightarrow> attempt_input result" where
  "validate_control_budget_binding k i =
     bind_r (execution_controls_for k i) (\<lambda>controls.
     let budget = av_budget (ai_attempt i) in
     bind_r (raise_if
         (ec_max_output_tokens controls > bs_max_tokens budget \<or>
          ec_timeout_seconds controls > bs_max_latency_seconds budget \<or>
          ec_max_tool_calls controls > bs_max_tool_calls budget \<or>
          ec_max_context_tokens controls > bs_max_context_tokens budget \<or>
          ec_max_attempts controls > int (bs_max_attempts budget))
       (ValueError ''execution control exceeds the immutable attempt budget'')) (\<lambda>_.
     Inr i))"

section \<open>Validated inputs\<close>

definition check_input :: "codec \<Rightarrow> attempt_input \<Rightarrow> attempt_input result" where
  "check_input k i = bind_r (verify_binding k i) (validate_control_budget_binding k)"

definition validate_attempt_input :: "codec \<Rightarrow> json \<Rightarrow> attempt_input result" where
  "validate_attempt_input k j =
     bind_r (parse_attempt_input k j) (\<lambda>i.
     bind_r (validate_lifecycle (ai_attempt i)) (\<lambda>_. check_input k i))"

definition bound_input :: "codec \<Rightarrow> scenario_spec \<Rightarrow> attempt_envelope \<Rightarrow> attempt_input" where
  "bound_input k scenario attempt =
     (let scenario_digest = sha256 k (JObj (sc_dump scenario)) in
       \<lparr>ai_scenario = scenario, ai_attempt = attempt, ai_scenario_digest = scenario_digest,
        ai_binding_digest =
          sha256 k (binding_document (sc_scenario_id scenario) scenario_digest attempt)\<rparr>)"

definition bind_input ::
  "codec \<Rightarrow> scenario_spec \<Rightarrow> attempt_envelope \<Rightarrow> execution_controls option \<Rightarrow> attempt_input result" where
  "bind_input k scenario attempt execution_controls =
     bind_r (parse_scenario k (JObj (sc_dump scenario))) (\<lambda>scenario'.
     bind_r (validate_envelope k (envelope_dump attempt)) (\<lambda>attempt'.
     bind_r (case execution_controls of
         None \<Rightarrow> Inr scenario'
       | Some c \<Rightarrow> bind_r (parse_controls k (JObj (controls_dump c)))
           (scenario_with_execution_controls k scenario')) (\<lambda>scenario''.
     check_input k (bound_input k scenario'' attempt'))))"

lemma validate_lifecycle_Inr: "validate_lifecycle e = Inr e' \<Longrightarrow> e' = e"
  by (simp add: validate_lifecycle_def)

lemma validate_lifecycle_again: "validate_lifecycle e = Inr e' \<Longrightarrow> validate_lifecycle e' = Inr e'"
  by (frule validate_lifecycle_Inr) simp

lemma verify_binding_bound [simp]: "verify_binding k (bound_input k s e) = Inr (bound_input k s e)"
  by (simp add: verify_binding_def bound_input_def Let_def)

lemma bound_input_simps [simp]:
  "ai_scenario (bound_input k s e) = s" "ai_attempt (bound_input k s e) = e"
  by (simp_all add: bound_input_def Let_def)

lemma check_input_Inr_iff:
  "check_input k i = Inr i' \<longleftrightarrow>
     i' = i \<and> verify_binding k i = Inr i \<and> validate_control_budget_binding k i = Inr i"
  by (auto simp: check_input_def bind_r_eq_Inr_iff verify_binding_def validate_control_budget_binding_def Let_def)

lemma bind_input_binds:
  assumes "bind_input k s e c = Inr i"
  shows "check_input k i = Inr i"
  using assms by (auto simp: bind_input_def bind_r_eq_Inr_iff check_input_Inr_iff)

text \<open>
  What the code relies on of pydantic: a dump of a validated model parses back to the model.
\<close>

definition codec_round_trips :: "codec \<Rightarrow> scenario_spec \<Rightarrow> attempt_envelope \<Rightarrow> bool" where
  "codec_round_trips k s e \<longleftrightarrow>
     parse_scenario k (JObj (sc_dump s)) = Inr s \<and> parse_envelope k (envelope_dump e) = Inr e"

text \<open>A bound input is verified; it holds the scenario and the envelope it was bound from.\<close>

lemma bind_input_facts:
  assumes "bind_input k s e None = Inr i"
  shows "verify_binding k i = Inr i" and "validate_control_budget_binding k i = Inr i"
    and "validate_lifecycle (ai_attempt i) = Inr (ai_attempt i)"
    and "codec_round_trips k s e \<Longrightarrow> ai_attempt i = e \<and> ai_scenario i = s"
  using assms bind_input_binds [OF assms]
  by (auto simp: check_input_Inr_iff bind_input_def bind_r_eq_Inr_iff validate_envelope_def
      codec_round_trips_def dest: validate_lifecycle_Inr validate_lifecycle_again)

text \<open>The controls of an input depend on its scenario and its budget only.\<close>

lemma control_binding_cong:
  assumes "validate_control_budget_binding k i = Inr i"
    and "ai_scenario j = ai_scenario i" and "av_budget (ai_attempt j) = av_budget (ai_attempt i)"
  shows "validate_control_budget_binding k j = Inr j"
  using assms by (auto simp: validate_control_budget_binding_def execution_controls_for_def compatibility_def
      bind_r_eq_Inr_iff Let_def cong: option.case_cong json.case_cong)

lemma bind_input_eq:
  assumes "codec_round_trips k s e" and "validate_lifecycle e = Inr e"
    and "validate_control_budget_binding k i = Inr i" and "ai_scenario i = s"
    and "av_budget (ai_attempt i) = av_budget e"
  shows "\<exists>i. bind_input k s e None = Inr i \<and> ai_attempt i = e \<and> ai_scenario i = s"
proof -
  have "validate_control_budget_binding k (bound_input k s e) = Inr (bound_input k s e)"
    using assms(3) by (rule control_binding_cong) (simp_all add: assms(4,5))
  then show ?thesis
    using assms(1,2) by (simp add: codec_round_trips_def bind_input_def validate_envelope_def check_input_def)
qed

end
