(* ===== verification/Jobs.thy ===== *)
theory Jobs
  imports Event_Log Attempt_Input
begin

text \<open>
  Database-authoritative leasing of worker jobs (\<open>src/backend/persistence_v1/jobs.py\<close>): the class
  \<open>JobLeaseRepository\<close>, one definition per method.

  Values the code draws from outside (the clock, fresh identifiers and lease tokens) are explicit
  arguments: \<open>now\<close> is the instant the caller passes or \<open>_now()\<close>, \<open>clock\<close> the server default of
  \<open>created_at\<close>. The public methods are \<open>transaction\<close> applied to their bodies.
\<close>

section \<open>Constants and small helpers\<close>

definition TERMINAL_JOB_STATUSES :: "job_status list" where
  "TERMINAL_JOB_STATUSES = [Job_completed, Job_failed, Job_cancelled]"

definition DECLARED_TRANSIENT_ADAPTER_CLASSIFICATIONS :: "string list" where
  "DECLARED_TRANSIENT_ADAPTER_CLASSIFICATIONS = [''transient_adapter'', ''transient_provider'']"

definition RETRYABLE_FAILURE_CLASSIFICATIONS :: "string list" where
  "RETRYABLE_FAILURE_CLASSIFICATIONS = [''transient'', ''transient_adapter'', ''transient_provider'']"

definition NON_SUCCESS_ATTEMPT_STATUSES :: "string list" where
  "NON_SUCCESS_ATTEMPT_STATUSES = [''failed'', ''timed_out'', ''incomplete'']"

definition LEASE_RECLAIM_GRACE :: timedelta where
  "LEASE_RECLAIM_GRACE = seconds 2"

definition MAX_LEASE_GENERATIONS :: nat where
  "MAX_LEASE_GENERATIONS = 5"

definition expired :: "datetime option \<Rightarrow> datetime \<Rightarrow> bool" where
  "expired value now = (case value of None \<Rightarrow> True | Some t \<Rightarrow> t \<le> now)"

definition reclaim_backoff :: "nat \<Rightarrow> timedelta" where
  "reclaim_backoff generation = seconds (min (2 * 2 ^ (generation - 1)) 8)"

record job_lease =
  jl_id :: string
  jl_execution_id :: string
  jl_attempt_id :: "string option"
  jl_kind :: string
  jl_owner :: string
  jl_token :: string
  jl_expires_at :: datetime
  jl_attempt_count :: nat
  jl_payload :: dict

definition job_generation :: "job_row \<Rightarrow> nat" where
  "job_generation j = (case jb_attempt_count j of None \<Rightarrow> 0 | Some n \<Rightarrow> n)"

definition terminal_job :: "job_row \<Rightarrow> bool" where
  "terminal_job j \<longleftrightarrow> jb_status j \<in> set TERMINAL_JOB_STATUSES"

definition job_by_id :: "arena_db \<Rightarrow> string \<Rightarrow> job_row option" where
  "job_by_id db job_id = first (filter (\<lambda>j. jb_id j = job_id) (db_jobs db))"

section \<open>Enqueueing\<close>

definition queued_job ::
  "string \<Rightarrow> string \<Rightarrow> string option \<Rightarrow> string \<Rightarrow> datetime \<Rightarrow> dict \<Rightarrow> datetime \<Rightarrow> job_row" where
  "queued_job job_id execution_id attempt_id kind available_at payload clock =
     \<lparr>jb_id = job_id, jb_execution_id = execution_id, jb_attempt_id = attempt_id, jb_kind = kind,
      jb_status = Job_queued, jb_lease_owner = None, jb_lease_token = None,
      jb_lease_expires_at = None, jb_heartbeat_at = None, jb_attempt_count = Some 0,
      jb_available_at = Some available_at, jb_cancel_requested_at = None, jb_payload = payload,
      jb_created_at = clock\<rparr>"

definition enqueue ::
  "string \<Rightarrow> string option \<Rightarrow> string \<Rightarrow> dict \<Rightarrow> string \<Rightarrow> datetime \<Rightarrow> datetime \<Rightarrow> string tx" where
  "enqueue execution_id attempt_id kind payload job_id available_at clock db =
     bind_r
       (case attempt_id of
          None \<Rightarrow> Inr ()
        | Some a \<Rightarrow>
            bind_r (scalar_one_or_none (attempt_execution_ids db a)) (\<lambda>found.
            raise_if (found \<noteq> Some execution_id)
              (ValueError ''attempt job must belong to its execution''))) (\<lambda>_.
     bind_r (insert_job (queued_job job_id execution_id attempt_id kind available_at payload clock) db)
       (\<lambda>db'. Inr (job_id, db')))"

section \<open>Finishing an execution\<close>

definition execution_statuses :: "arena_db \<Rightarrow> string \<Rightarrow> job_status list" where
  "execution_statuses db execution_id =
     map jb_status (filter (\<lambda>j. jb_execution_id j = execution_id) (db_jobs db))"

definition terminal_execution_status :: "job_status list \<Rightarrow> execution_status" where
  "terminal_execution_status statuses =
     (if set statuses = {Job_completed} then Ex_completed
      else if set statuses = {Job_cancelled} then Ex_cancelled else Ex_failed)"

definition finalize_execution_if_terminal :: "string \<Rightarrow> datetime \<Rightarrow> arena_db \<Rightarrow> arena_db" where
  "finalize_execution_if_terminal execution_id now db =
     (if rowcount (\<lambda>j. jb_execution_id j = execution_id \<and> \<not> terminal_job j) (db_jobs db) \<noteq> 0 then db
      else db\<lparr>db_executions := update_where (\<lambda>x. ex_id x = execution_id)
             (\<lambda>x. x\<lparr>ex_status := terminal_execution_status (execution_statuses db execution_id),
                     ex_completed_at := Some now\<rparr>) (db_executions db)\<rparr>)"

section \<open>Reclaiming expired leases\<close>

definition in_project :: "arena_db \<Rightarrow> string \<Rightarrow> job_row \<Rightarrow> bool" where
  "in_project db project_id j \<longleftrightarrow>
     list_ex (\<lambda>x. ex_id x = jb_execution_id j \<and>
       list_ex (\<lambda>p. xp_id p = ex_experiment_id x \<and> xp_project_id p = project_id) (db_experiments db))
     (db_executions db)"

definition project_job_ids :: "arena_db \<Rightarrow> string \<Rightarrow> string list" where
  "project_job_ids db project_id = map jb_id (filter (in_project db project_id) (db_jobs db))"

definition record_lease_generation_exhausted :: "job_row \<Rightarrow> datetime \<Rightarrow> nat \<Rightarrow> arena_db \<Rightarrow> arena_db result" where
  "record_lease_generation_exhausted job now generation db =
     (case jb_attempt_id job of
        None \<Rightarrow> Inr db
      | Some attempt_id \<Rightarrow>
          (case jb_lease_expires_at job of
             None \<Rightarrow> Inl (AttributeError ''isoformat'')
           | Some expires_at \<Rightarrow>
               let stored = (case first (filter (\<lambda>t. at_id t = attempt_id) (db_attempts db)) of
                     None \<Rightarrow> [] | Some t \<Rightarrow> at_result_metadata t);
                   metadata = dict_update stored
                     [(''error_code'', JStr ''lease_generation_exhausted''),
                      (''failure_classification'', JStr ''permanent_protocol''),
                      (''lease_generation'', JInt (int generation)),
                      (''max_lease_generations'', JInt (int MAX_LEASE_GENERATIONS)),
                      (''lease_expired_at'', JTime expires_at),
                      (''reclaimed_at'', JTime now)];
                   payload =
                     [(''error_code'', JStr ''lease_generation_exhausted''),
                      (''lease_generation'', JInt (int generation)),
                      (''max_lease_generations'', JInt (int MAX_LEASE_GENERATIONS))];
                   db1 = db\<lparr>db_attempts := update_where (\<lambda>t. at_id t = attempt_id)
                     (\<lambda>t. t\<lparr>at_status := ''incomplete'', at_result_metadata := metadata\<rparr>)
                     (db_attempts db)\<rparr>
               in bind_r (append_attempt_event attempt_id ''lease_generation_exhausted'' payload db1)
                    (\<lambda>(_, db2).
                  bind_r (append_attempt_event attempt_id ''terminal''
                      (dict_update [(''winner'', JStr ''failed''), (''reported_outcome'', JStr ''incomplete'')]
                        payload) db2)
                    (\<lambda>(_, db3). Inr db3))))"

definition reclaimable :: "datetime \<Rightarrow> job_row \<Rightarrow> bool" where
  "reclaimable cutoff j \<longleftrightarrow>
     jb_status j = Job_running \<and> (case jb_lease_expires_at j of None \<Rightarrow> False | Some t \<Rightarrow> t \<le> cutoff)"

definition release_lease :: "job_status \<Rightarrow> datetime option \<Rightarrow> job_row \<Rightarrow> job_row" where
  "release_lease status available_at j =
     j\<lparr>jb_status := status, jb_lease_owner := None, jb_lease_token := None,
       jb_lease_expires_at := None, jb_heartbeat_at := None, jb_available_at := available_at\<rparr>"

definition reclaim_row ::
  "datetime \<Rightarrow> job_row \<Rightarrow> nat \<times> string list \<times> arena_db \<Rightarrow> (nat \<times> string list \<times> arena_db) result" where
  "reclaim_row now row = (\<lambda>(reclaimed, terminal_execution_ids, db).
     let generation = job_generation row;
         condition = (\<lambda>j. jb_id j = jb_id row \<and> reclaimable (now - LEASE_RECLAIM_GRACE) j);
         changed = rowcount condition (db_jobs db)
     in if MAX_LEASE_GENERATIONS \<le> generation then
          let db1 = db\<lparr>db_jobs := update_where condition (release_lease Job_failed None) (db_jobs db)\<rparr>
          in if changed \<noteq> 1 then Inr (reclaimed, terminal_execution_ids, db1)
             else bind_r (record_lease_generation_exhausted row now generation db1) (\<lambda>db2.
                    Inr (reclaimed + 1, terminal_execution_ids @ [jb_execution_id row], db2))
        else
          Inr (reclaimed + changed, terminal_execution_ids,
               db\<lparr>db_jobs := update_where condition
                   (release_lease Job_queued (Some (now + reclaim_backoff generation))) (db_jobs db)\<rparr>))"

text \<open>
  The set of executions to finish is visited in the order in which they were added; each visit
  writes the row of its own execution only, so the order does not matter.
\<close>

definition reclaim_selected :: "datetime \<Rightarrow> string option \<Rightarrow> string option \<Rightarrow> arena_db \<Rightarrow> job_row list" where
  "reclaim_selected now project_id execution_id db =
     sort_key (\<lambda>j. (jb_created_at j, jb_id j))
       (filter (\<lambda>j. reclaimable (now - LEASE_RECLAIM_GRACE) j \<and>
          (case project_id of None \<Rightarrow> True | Some p \<Rightarrow> jb_id j \<in> set (project_job_ids db p)) \<and>
          (case execution_id of None \<Rightarrow> True | Some x \<Rightarrow> jb_execution_id j = x)) (db_jobs db))"

definition reclaim_expired_in_transaction ::
  "datetime \<Rightarrow> string option \<Rightarrow> string option \<Rightarrow> nat tx" where
  "reclaim_expired_in_transaction now project_id execution_id db =
     bind_r (for_each (reclaim_row now) (reclaim_selected now project_id execution_id db) (0, [], db))
       (\<lambda>(reclaimed, terminal_execution_ids, db').
          Inr (reclaimed,
               fold (\<lambda>x. finalize_execution_if_terminal x now) (remdups terminal_execution_ids) db'))"

definition reclaim_expired :: "datetime \<Rightarrow> nat tx" where
  "reclaim_expired now = reclaim_expired_in_transaction now None None"

section \<open>Claiming and heartbeats\<close>

definition claimable :: "datetime \<Rightarrow> string option \<Rightarrow> string option \<Rightarrow> string option \<Rightarrow> arena_db \<Rightarrow> job_row \<Rightarrow> bool" where
  "claimable now kind project_id execution_id db j \<longleftrightarrow>
     jb_status j = Job_queued \<and>
     (case jb_available_at j of None \<Rightarrow> True | Some t \<Rightarrow> t \<le> now) \<and>
     (case project_id of None \<Rightarrow> True | Some p \<Rightarrow> in_project db p j) \<and>
     (case kind of None \<Rightarrow> True | Some k \<Rightarrow> jb_kind j = k) \<and>
     (case execution_id of None \<Rightarrow> True | Some x \<Rightarrow> jb_execution_id j = x)"

definition next_job :: "datetime \<Rightarrow> string option \<Rightarrow> string option \<Rightarrow> string option \<Rightarrow> arena_db \<Rightarrow> job_row option" where
  "next_job now kind project_id execution_id db =
     first (sort_key (\<lambda>j. (jb_created_at j, jb_id j))
       (filter (claimable now kind project_id execution_id db) (db_jobs db)))"

definition claim_row :: "string \<Rightarrow> string \<Rightarrow> datetime \<Rightarrow> datetime \<Rightarrow> job_row \<Rightarrow> job_row" where
  "claim_row owner token expires_at now j =
     j\<lparr>jb_status := Job_running, jb_lease_owner := Some owner, jb_lease_token := Some token,
       jb_lease_expires_at := Some expires_at, jb_heartbeat_at := Some now,
       jb_attempt_count := Some (job_generation j + 1)\<rparr>"

definition claim ::
  "string \<Rightarrow> rat \<Rightarrow> datetime \<Rightarrow> string option \<Rightarrow> string option \<Rightarrow> string option \<Rightarrow> string
    \<Rightarrow> job_lease option tx" where
  "claim owner lease_seconds now kind project_id execution_id token db =
     bind_r (raise_if (owner = [] \<or> lease_seconds \<le> 0)
       (ValueError ''owner and positive lease_seconds are required'')) (\<lambda>_.
     bind_r (raise_if (project_id = Some [])
       (ValueError ''project_id must be non-empty when provided'')) (\<lambda>_.
     bind_r (raise_if (execution_id = Some [])
       (ValueError ''execution_id must be non-empty when provided'')) (\<lambda>_.
     let expires_at = now + td_seconds lease_seconds in
     bind_r (reclaim_expired_in_transaction now project_id execution_id db) (\<lambda>(_, db1).
     case next_job now kind project_id execution_id db1 of
       None \<Rightarrow> Inr (None, db1)
     | Some row \<Rightarrow>
         let condition = (\<lambda>j. jb_id j = jb_id row \<and> jb_status j = Job_queued);
             db2 = db1\<lparr>db_jobs := update_where condition (claim_row owner token expires_at now)
                         (db_jobs db1)\<rparr>
         in if rowcount condition (db_jobs db1) \<noteq> 1 then Inr (None, db2)
            else Inr (Some \<lparr>jl_id = jb_id row, jl_execution_id = jb_execution_id row,
                   jl_attempt_id = jb_attempt_id row, jl_kind = jb_kind row, jl_owner = owner,
                   jl_token = token, jl_expires_at = expires_at,
                   jl_attempt_count = job_generation row + 1, jl_payload = jb_payload row\<rparr>, db2)))))"

definition holds_lease :: "string \<Rightarrow> string \<Rightarrow> string \<Rightarrow> job_row \<Rightarrow> bool" where
  "holds_lease job_id owner lease_token j \<longleftrightarrow>
     jb_id j = job_id \<and> jb_status j = Job_running \<and> jb_lease_owner j = Some owner \<and>
     jb_lease_token j = Some lease_token"

definition heartbeat :: "string \<Rightarrow> string \<Rightarrow> string \<Rightarrow> rat \<Rightarrow> datetime \<Rightarrow> bool tx" where
  "heartbeat job_id owner lease_token lease_seconds now db =
     bind_r (raise_if (lease_seconds \<le> 0) (ValueError ''lease_seconds must be positive'')) (\<lambda>_.
     bind_r (scalar_one_or_none
         (map jb_lease_expires_at (filter (holds_lease job_id owner lease_token) (db_jobs db)))) (\<lambda>found.
     if expired (case found of None \<Rightarrow> None | Some e \<Rightarrow> e) now then Inr (False, db)
     else Inr (rowcount (holds_lease job_id owner lease_token) (db_jobs db) = 1,
            db\<lparr>db_jobs := update_where (holds_lease job_id owner lease_token)
              (\<lambda>j. j\<lparr>jb_heartbeat_at := Some now,
                      jb_lease_expires_at := Some (now + td_seconds lease_seconds)\<rparr>) (db_jobs db)\<rparr>)))"

section \<open>Cancellation\<close>

definition request_cancel :: "string \<Rightarrow> datetime \<Rightarrow> bool tx" where
  "request_cancel job_id now db =
     (case job_by_id db job_id of
        None \<Rightarrow> Inr (False, db)
      | Some row \<Rightarrow>
          if terminal_job row then Inr (False, db)
          else if jb_status row = Job_queued then
            let condition = (\<lambda>j. jb_id j = job_id \<and> jb_status j = Job_queued);
                changed = rowcount condition (db_jobs db);
                db1 = db\<lparr>db_jobs := update_where condition
                  (\<lambda>j. j\<lparr>jb_status := Job_cancelled, jb_cancel_requested_at := Some now\<rparr>) (db_jobs db)\<rparr>
            in (case (if changed \<noteq> 0 then jb_attempt_id row else None) of
                  None \<Rightarrow> Inr (changed = 1, db1)
                | Some attempt_id \<Rightarrow>
                    bind_r (append_attempt_event attempt_id ''terminal''
                        [(''winner'', JStr ''cancelled''), (''reported_outcome'', JStr ''cancelled'')]
                        (db1\<lparr>db_attempts := update_where (\<lambda>t. at_id t = attempt_id)
                          (\<lambda>t. t\<lparr>at_status := ''cancelled'',
                                  at_result_metadata := [(''cancelled_before_dispatch'', JBool True)]\<rparr>)
                          (db_attempts db1)\<rparr>))
                      (\<lambda>(_, db2). Inr (changed = 1, db2)))
          else
            let condition = (\<lambda>j. jb_id j = job_id \<and> jb_status j = Job_running)
            in Inr (rowcount condition (db_jobs db) = 1,
                 db\<lparr>db_jobs := update_where condition
                   (\<lambda>j. j\<lparr>jb_cancel_requested_at := Some now\<rparr>) (db_jobs db)\<rparr>))"

definition cancel_requested :: "arena_db \<Rightarrow> string \<Rightarrow> string \<Rightarrow> string \<Rightarrow> bool option" where
  "cancel_requested db job_id owner lease_token =
     (case job_by_id db job_id of
        None \<Rightarrow> None
      | Some row \<Rightarrow>
          if jb_status row \<noteq> Job_running \<or> jb_lease_owner row \<noteq> Some owner \<or>
             jb_lease_token row \<noteq> Some lease_token then None
          else Some (jb_cancel_requested_at row \<noteq> None))"

section \<open>Finalizing\<close>

definition outcome_status :: "string \<Rightarrow> job_status option" where
  "outcome_status outcome =
     (if outcome = ''completed'' then Some Job_completed
      else if outcome = ''failed'' then Some Job_failed
      else if outcome = ''cancelled'' then Some Job_cancelled else None)"

fun job_status_name :: "job_status \<Rightarrow> string" where
  "job_status_name Job_queued = ''queued''"
| "job_status_name Job_running = ''running''"
| "job_status_name Job_completed = ''completed''"
| "job_status_name Job_failed = ''failed''"
| "job_status_name Job_cancelled = ''cancelled''"

definition finalizable :: "string \<Rightarrow> string \<Rightarrow> string \<Rightarrow> datetime \<Rightarrow> job_row \<Rightarrow> bool" where
  "finalizable job_id owner lease_token now j \<longleftrightarrow>
     holds_lease job_id owner lease_token j \<and> \<not> expired (jb_lease_expires_at j) now"

definition finalize_row :: "job_status \<Rightarrow> datetime \<Rightarrow> job_row \<Rightarrow> job_row" where
  "finalize_row winner now j =
     j\<lparr>jb_status := winner, jb_lease_owner := None, jb_lease_token := None,
       jb_lease_expires_at := None, jb_heartbeat_at := Some now\<rparr>"

definition terminal_winner :: "job_row \<Rightarrow> job_status \<Rightarrow> job_status" where
  "terminal_winner row reported =
     (if jb_cancel_requested_at row \<noteq> None then Job_cancelled else reported)"

definition record_attempt_outcome ::
  "job_row \<Rightarrow> job_status \<Rightarrow> string \<Rightarrow> dict \<Rightarrow> arena_db \<Rightarrow> arena_db result" where
  "record_attempt_outcome row winner attempt_status result_metadata db =
     (case jb_attempt_id row of
        None \<Rightarrow> Inr db
      | Some attempt_id \<Rightarrow>
          bind_r (append_attempt_event attempt_id ''terminal''
              [(''winner'', JStr (job_status_name winner)), (''reported_outcome'', JStr attempt_status)]
              (db\<lparr>db_attempts := update_where (\<lambda>t. at_id t = attempt_id)
                (\<lambda>t. t\<lparr>at_status := (if winner = Job_cancelled then ''cancelled'' else attempt_status),
                        at_result_metadata := result_metadata\<rparr>) (db_attempts db)\<rparr>))
            (\<lambda>(_, db'). Inr db'))"

definition followup_id :: "(json \<Rightarrow> string) \<Rightarrow> string \<Rightarrow> string \<Rightarrow> string" where
  "followup_id digest attempt_id kind =
     ''ev-'' @ take 60 (digest (JObj [(''attempt_id'', JStr attempt_id), (''kind'', JStr kind)]))"

definition insert_followup ::
  "(json \<Rightarrow> string) \<Rightarrow> job_row \<Rightarrow> (string \<times> dict) option \<Rightarrow> datetime \<Rightarrow> datetime \<Rightarrow> arena_db \<Rightarrow> arena_db result" where
  "insert_followup digest row followup now clock db =
     (case followup of
        None \<Rightarrow> Inr db
      | Some (kind, payload) \<Rightarrow>
          (case jb_attempt_id row of
             None \<Rightarrow> Inl (ValueError ''follow-up job requires an attempt-bound lease'')
           | Some attempt_id \<Rightarrow>
               bind_r (scalar_one_or_none (map jb_id
                   (filter (\<lambda>j. jb_attempt_id j = Some attempt_id \<and> jb_kind j = kind) (db_jobs db))))
                 (\<lambda>existing.
               case existing of
                 Some _ \<Rightarrow> Inr db
               | None \<Rightarrow> insert_job (queued_job (followup_id digest attempt_id kind) (jb_execution_id row)
                            (Some attempt_id) kind now payload clock) db)))"

definition finalize ::
  "(json \<Rightarrow> string) \<Rightarrow> string \<Rightarrow> string \<Rightarrow> string \<Rightarrow> string \<Rightarrow> dict \<Rightarrow> datetime \<Rightarrow> string
    \<Rightarrow> (string \<times> dict) option \<Rightarrow> datetime \<Rightarrow> job_status option tx" where
  "finalize digest job_id owner outcome attempt_status result_metadata now lease_token followup clock db =
     (case outcome_status outcome of
        None \<Rightarrow> Inl (ValueError ''invalid job outcome'')
      | Some reported \<Rightarrow>
          (case job_by_id db job_id of
             None \<Rightarrow> Inl (KeyError job_id)
           | Some row \<Rightarrow>
               if terminal_job row then Inr (Some (jb_status row), db)
               else if \<not> finalizable job_id owner lease_token now row then Inr (None, db)
               else
                 let winner = terminal_winner row reported;
                     condition = finalizable job_id owner lease_token now;
                     db1 = db\<lparr>db_jobs := update_where condition (finalize_row winner now) (db_jobs db)\<rparr>
                 in if rowcount condition (db_jobs db) \<noteq> 1 then Inr (None, db1)
                    else
                      bind_r (record_attempt_outcome row winner attempt_status result_metadata db1) (\<lambda>db2.
                      bind_r (insert_followup digest row followup now clock db2) (\<lambda>db3.
                      Inr (Some winner,
                           finalize_execution_if_terminal (jb_execution_id row) now db3)))))"

definition finalize_with_followup ::
  "(json \<Rightarrow> string) \<Rightarrow> string \<Rightarrow> string \<Rightarrow> string \<Rightarrow> string \<Rightarrow> string \<Rightarrow> dict \<Rightarrow> dict \<Rightarrow> datetime \<Rightarrow> string
    \<Rightarrow> datetime \<Rightarrow> job_status option tx" where
  "finalize_with_followup digest job_id owner outcome attempt_status followup_kind result_metadata
       followup_payload now lease_token clock =
     finalize digest job_id owner outcome attempt_status result_metadata now lease_token
       (Some (followup_kind, followup_payload)) clock"

definition complete ::
  "(json \<Rightarrow> string) \<Rightarrow> string \<Rightarrow> string \<Rightarrow> string \<Rightarrow> dict \<Rightarrow> datetime \<Rightarrow> datetime \<Rightarrow> job_status option tx" where
  "complete digest job_id owner lease_token result_metadata now clock =
     finalize digest job_id owner ''completed'' ''completed'' result_metadata now lease_token None clock"

definition fail ::
  "(json \<Rightarrow> string) \<Rightarrow> string \<Rightarrow> string \<Rightarrow> string \<Rightarrow> string \<Rightarrow> dict \<Rightarrow> datetime \<Rightarrow> datetime \<Rightarrow> job_status option tx" where
  "fail digest job_id owner lease_token attempt_status result_metadata now clock =
     finalize digest job_id owner ''failed'' attempt_status result_metadata now lease_token None clock"

definition finalize_auxiliary ::
  "string \<Rightarrow> string \<Rightarrow> string \<Rightarrow> string \<Rightarrow> datetime \<Rightarrow> job_status option tx" where
  "finalize_auxiliary job_id owner outcome lease_token now db =
     (case outcome_status outcome of
        None \<Rightarrow> Inl (ValueError ''invalid job outcome'')
      | Some reported \<Rightarrow>
          (case job_by_id db job_id of
             None \<Rightarrow> Inl (KeyError job_id)
           | Some row \<Rightarrow>
               if terminal_job row then Inr (Some (jb_status row), db)
               else if \<not> finalizable job_id owner lease_token now row then Inr (None, db)
               else
                 let winner = terminal_winner row reported;
                     condition = finalizable job_id owner lease_token now;
                     db1 = db\<lparr>db_jobs := update_where condition (finalize_row winner now) (db_jobs db)\<rparr>
                 in if rowcount condition (db_jobs db) \<noteq> 1 then Inr (None, db1)
                    else Inr (Some winner,
                           finalize_execution_if_terminal (jb_execution_id row) now db1)))"

definition record_diagnostic :: "string \<Rightarrow> string \<Rightarrow> dict \<Rightarrow> unit tx" where
  "record_diagnostic attempt_id event_type payload db =
     bind_r (append_attempt_event attempt_id event_type payload db) (\<lambda>(_, db'). Inr ((), db'))"

section \<open>Retrying\<close>

definition retry_permitted :: "job_row \<Rightarrow> attempt_row \<Rightarrow> bool" where
  "retry_permitted job old =
     (let metadata = at_result_metadata old;
          classified = (\<lambda>cs. case dict_get metadata ''failure_classification'' of
             Some (JStr c) \<Rightarrow> c \<in> set cs | _ \<Rightarrow> False);
          captured = (dict_get metadata ''captured_adapter_terminal'' = Some (JBool True));
          captured_retry = (jb_status job = Job_completed \<and> captured \<and>
             classified DECLARED_TRANSIENT_ADAPTER_CLASSIFICATIONS);
          worker_retry = (jb_status job = Job_failed \<and> \<not> captured \<and>
             classified RETRYABLE_FAILURE_CLASSIFICATIONS)
      in captured_retry \<or> worker_retry)"

definition next_ordinal :: "arena_db \<Rightarrow> string \<Rightarrow> nat" where
  "next_ordinal db episode_id =
     nat (foldr max (map (int \<circ> at_ordinal)
       (filter (\<lambda>t. at_episode_id t = episode_id) (db_attempts db))) (-1) + 1)"

definition retry_envelope ::
  "codec \<Rightarrow> attempt_envelope \<Rightarrow> attempt_row \<Rightarrow> string \<Rightarrow> nat \<Rightarrow> datetime \<Rightarrow> attempt_envelope" where
  "retry_envelope k original old attempt_id ordinal now =
     original\<lparr>av_attempt_id := attempt_id, av_ordinal := ordinal + 1,
       av_request_hash := sha256 k (JObj
         [(''retry_of_request_hash'', JStr (av_request_hash original)),
          (''retry_of_attempt_id'', JStr (at_id old)), (''attempt_id'', JStr attempt_id),
          (''episode_id'', JStr (at_episode_id old)), (''ordinal'', JInt (int (ordinal + 1)))]),
       av_status := Env_queued, av_queued_at := now, av_started_at := None, av_completed_at := None,
       av_observed_provider_version := None, av_observed_endpoint_digest := None,
       av_response_hash := None\<rparr>"

definition read_attempt_input :: "codec \<Rightarrow> dict \<Rightarrow> attempt_input result" where
  "read_attempt_input k payload =
     (case dict_get payload ''attempt_input'' of
        Some (JObj raw_input) \<Rightarrow>
          (case validate_attempt_input k (JObj raw_input) of
             Inl (TypeError _) \<Rightarrow> Inl (ValueError ''retry requires a valid persisted attempt input'')
           | Inl (ValueError _) \<Rightarrow> Inl (ValueError ''retry requires a valid persisted attempt input'')
           | r \<Rightarrow> r)
      | _ \<Rightarrow> Inl (TypeError ''retry requires a persisted attempt input''))"

definition retry :: "codec \<Rightarrow> string \<Rightarrow> datetime \<Rightarrow> string \<Rightarrow> string \<Rightarrow> datetime \<Rightarrow> (string \<times> string) tx" where
  "retry k job_id now attempt_id next_job_id clock db =
     (case job_by_id db job_id of
        None \<Rightarrow> Inl (ValueError ''retry requires an attempt job'')
      | Some job \<Rightarrow>
     (case (if jb_kind job \<noteq> ''attempt'' then None else jb_attempt_id job) of
        None \<Rightarrow> Inl (ValueError ''retry requires an attempt job'')
      | Some old_id \<Rightarrow>
     (case filter (\<lambda>t. at_id t = old_id) (db_attempts db) of
        [] \<Rightarrow> Inl NoResultFound
      | [old] \<Rightarrow>
          bind_r (raise_if (at_status old \<notin> set NON_SUCCESS_ATTEMPT_STATUSES)
            (ValueError ''retry requires a non-success terminal attempt'')) (\<lambda>_.
          bind_r (raise_if (\<not> retry_permitted job old)
            (ValueError ''retry requires a persisted transient failure classification'')) (\<lambda>_.
          let ordinal = next_ordinal db (at_episode_id old) in
          bind_r (read_attempt_input k (jb_payload job)) (\<lambda>original.
          bind_r (raise_if (av_attempt_id (ai_attempt original) \<noteq> at_id old \<or>
                            av_episode_id (ai_attempt original) \<noteq> at_episode_id old)
            (ValueError ''retry attempt input does not bind the failed attempt'')) (\<lambda>_.
          bind_r (raise_if (bs_max_attempts (av_budget (ai_attempt original))
                \<le> rowcount (\<lambda>t. at_episode_id t = at_episode_id old) (db_attempts db))
            (ValueError ''retry would exceed the declared attempt budget'')) (\<lambda>_.
          bind_r (bind_input k (ai_scenario original)
              (retry_envelope k (ai_attempt original) old attempt_id ordinal now) None) (\<lambda>rebound.
          bind_r (insert_attempt
              \<lparr>at_id = attempt_id, at_episode_id = at_episode_id old, at_ordinal = ordinal,
               at_status = ''queued'',
               at_request_metadata = dict_set ''envelope'' (envelope_dump (ai_attempt rebound))
                 (dict_set ''retry_of_attempt_id'' (JStr (at_id old)) (at_request_metadata old)),
               at_result_metadata = []\<rparr> db) (\<lambda>db1.
          bind_r (insert_job (queued_job next_job_id (jb_execution_id job) (Some attempt_id) (jb_kind job)
              now (dict_set ''attempt_input'' (attempt_input_dump rebound) (jb_payload job)) clock) db1)
            (\<lambda>db2.
          Inr ((attempt_id, next_job_id),
            db2\<lparr>db_executions := update_where (\<lambda>x. ex_id x = jb_execution_id job)
              (\<lambda>x. x\<lparr>ex_status := Ex_queued, ex_completed_at := None\<rparr>) (db_executions db2)\<rparr>)))))))))
      | _ \<Rightarrow> Inl MultipleResultsFound)))"

section \<open>The steps of the job tables\<close>

text \<open>Any client may call any operation at any time; a failed call leaves the database alone.\<close>

inductive job_step :: "arena_db \<Rightarrow> arena_db \<Rightarrow> bool" where
  js_enqueue: "enqueue x a k p i t c db = Inr (r, db') \<Longrightarrow> job_step db db'"
| js_claim: "claim ow ls now k p x tok db = Inr (r2, db') \<Longrightarrow> job_step db db'"
| js_heartbeat: "heartbeat i ow tok ls now db = Inr (r3, db') \<Longrightarrow> job_step db db'"
| js_reclaim: "reclaim_expired now db = Inr (r4, db') \<Longrightarrow> job_step db db'"
| js_request_cancel: "request_cancel i now db = Inr (r5, db') \<Longrightarrow> job_step db db'"
| js_finalize: "finalize h i ow oc st md now tok fu c db = Inr (r6, db') \<Longrightarrow> job_step db db'"
| js_finalize_auxiliary: "finalize_auxiliary i ow oc tok now db = Inr (r7, db') \<Longrightarrow> job_step db db'"
| js_record_diagnostic: "record_diagnostic a ty pl db = Inr (r8, db') \<Longrightarrow> job_step db db'"
| js_retry: "retry kc i now a ni c db = Inr (r9, db') \<Longrightarrow> job_step db db'"

end
