(* ===== verification/Job_Moves.thy ===== *)
theory Job_Moves
  imports Jobs
begin

text \<open>
  The operations of \<open>JobLeaseRepository\<close> refine an abstract machine of elementary moves.

  \<open>row_move\<close> is the life cycle of one job row: the only ways in which a row may change.
  \<open>db_move\<close> lifts it to the database: a guarded update of jobs, the insertion of a queued job or of
  an attempt, an update of attempts or executions that keeps their keys, an appended event. The
  refinement lemma \<open>job_step_moves\<close> says that every operation is a sequence of such moves; the
  invariants of the tables are then proved once, for the moves.
\<close>

section \<open>Moves\<close>

inductive row_move :: "job_row \<Rightarrow> job_row \<Rightarrow> bool" where
  rm_claim: "jb_status j = Job_queued \<Longrightarrow> row_move j (claim_row owner token expires_at now j)"
| rm_beat: "jb_status j = Job_running \<Longrightarrow> jb_lease_expires_at j \<noteq> None \<Longrightarrow>
    row_move j (j\<lparr>jb_heartbeat_at := Some now, jb_lease_expires_at := Some expires_at\<rparr>)"
| rm_requeue: "jb_status j = Job_running \<Longrightarrow> job_generation j < MAX_LEASE_GENERATIONS \<Longrightarrow>
    row_move j (release_lease Job_queued (Some available_at) j)"
| rm_exhaust: "jb_status j = Job_running \<Longrightarrow> MAX_LEASE_GENERATIONS \<le> job_generation j \<Longrightarrow>
    row_move j (release_lease Job_failed None j)"
| rm_cancel_queued: "jb_status j = Job_queued \<Longrightarrow>
    row_move j (j\<lparr>jb_status := Job_cancelled, jb_cancel_requested_at := Some now\<rparr>)"
| rm_cancel_running: "jb_status j = Job_running \<Longrightarrow>
    row_move j (j\<lparr>jb_cancel_requested_at := Some now\<rparr>)"
| rm_final: "jb_status j = Job_running \<Longrightarrow> w \<in> set TERMINAL_JOB_STATUSES \<Longrightarrow>
    (jb_cancel_requested_at j \<noteq> None \<Longrightarrow> w = Job_cancelled) \<Longrightarrow> row_move j (finalize_row w now j)"

inductive db_move :: "arena_db \<Rightarrow> arena_db \<Rightarrow> bool" where
  dm_jobs: "(\<And>j. j \<in> set (db_jobs db) \<Longrightarrow> P j \<Longrightarrow> row_move j (f j)) \<Longrightarrow>
    db_move db (db\<lparr>db_jobs := update_where P f (db_jobs db)\<rparr>)"
| dm_insert_job: "insert_job (queued_job i x a k t p c) db = Inr db' \<Longrightarrow> db_move db db'"
| dm_attempts: "(\<And>t. at_id (g t) = at_id t \<and> at_episode_id (g t) = at_episode_id t
      \<and> at_ordinal (g t) = at_ordinal t) \<Longrightarrow>
    db_move db (db\<lparr>db_attempts := update_where Q g (db_attempts db)\<rparr>)"
| dm_insert_attempt: "insert_attempt row db = Inr db' \<Longrightarrow> db_move db db'"
| dm_event: "append_attempt_event a ty pl db = Inr (n, db') \<Longrightarrow> db_move db db'"
| dm_executions: "(\<And>x. ex_id (h x) = ex_id x \<and> ex_experiment_id (h x) = ex_experiment_id x) \<Longrightarrow>
    db_move db (db\<lparr>db_executions := update_where R h (db_executions db)\<rparr>)"

text \<open>Moves one after the other.\<close>

lemma then_move: "db_move\<^sup>*\<^sup>* a b \<Longrightarrow> db_move b c \<Longrightarrow> db_move\<^sup>*\<^sup>* a c"
  by (rule rtranclp.rtrancl_into_rtrancl)

lemma row_move_id: "row_move j j' \<Longrightarrow> jb_id j' = jb_id j"
  by (induction rule: row_move.induct) (simp_all add: claim_row_def release_lease_def finalize_row_def)

lemma row_move_frame:
  "row_move j j' \<Longrightarrow> jb_execution_id j' = jb_execution_id j \<and> jb_attempt_id j' = jb_attempt_id j \<and>
     jb_kind j' = jb_kind j \<and> jb_payload j' = jb_payload j \<and> jb_created_at j' = jb_created_at j"
  by (induction rule: row_move.induct) (simp_all add: claim_row_def release_lease_def finalize_row_def)

lemma row_move_not_terminal: "row_move j j' \<Longrightarrow> \<not> terminal_job j"
  by (induction rule: row_move.induct) (simp_all add: terminal_job_def TERMINAL_JOB_STATUSES_def)

lemma insert_job_jobs: "insert_job row db = Inr db' \<Longrightarrow> db_jobs db' = db_jobs db @ [row]"
  by (simp add: insert_job_Inr_iff)

section \<open>Every operation is a sequence of moves\<close>

lemma enqueue_moves: "enqueue x a k p i t c db = Inr (r, db') \<Longrightarrow> db_move\<^sup>*\<^sup>* db db'"
  by (auto simp: enqueue_def bind_r_eq_Inr_iff intro: dm_insert_job)

lemma finalize_execution_moves: "db_move\<^sup>*\<^sup>* db (finalize_execution_if_terminal x now db)"
  by (auto simp: finalize_execution_if_terminal_def intro!: r_into_rtranclp dm_executions)

lemma finalize_executions_moves:
  "db_move\<^sup>*\<^sup>* db (fold (\<lambda>x. finalize_execution_if_terminal x now) xs db)"
  by (induction xs arbitrary: db) (auto intro: rtranclp_trans finalize_execution_moves)

lemma finalize_executions_jobs [simp]:
  "db_jobs (finalize_execution_if_terminal x now db) = db_jobs db"
  "db_jobs (fold (\<lambda>x. finalize_execution_if_terminal x now) xs db) = db_jobs db"
proof -
  show one: "db_jobs (finalize_execution_if_terminal x now db) = db_jobs db" for x db
    by (simp add: finalize_execution_if_terminal_def)
  show "db_jobs (fold (\<lambda>x. finalize_execution_if_terminal x now) xs db) = db_jobs db"
    by (induction xs arbitrary: db) (simp_all add: one)
qed

lemma record_lease_shape:
  assumes "record_lease_generation_exhausted job now g db = Inr db'"
  shows "jb_attempt_id job = None \<and> db' = db \<or>
    (\<exists>a m p q n1 n2 db1. jb_attempt_id job = Some a \<and>
       append_attempt_event a ''lease_generation_exhausted'' p
         (db\<lparr>db_attempts := update_where (\<lambda>t. at_id t = a)
            (\<lambda>t. t\<lparr>at_status := ''incomplete'', at_result_metadata := m\<rparr>) (db_attempts db)\<rparr>) = Inr (n1, db1) \<and>
       append_attempt_event a ''terminal'' q db1 = Inr (n2, db'))"
proof (cases "jb_attempt_id job")
  case None
  with assms show ?thesis by (simp add: record_lease_generation_exhausted_def)
next
  case (Some a)
  with assms obtain e where "jb_lease_expires_at job = Some e"
    by (auto simp: record_lease_generation_exhausted_def split: option.splits)
  with assms Some show ?thesis
    unfolding record_lease_generation_exhausted_def Let_def
    by (simp only: option.case bind_r_eq_Inr_iff split_paired_Ex prod.case Inr_inject) blast
qed

lemma record_lease_moves:
  assumes "record_lease_generation_exhausted job now g db = Inr db'"
  shows "db_move\<^sup>*\<^sup>* db db'"
  using record_lease_shape [OF assms]
proof (elim disjE exE conjE)
  fix a m p q n1 n2 db1
  assume e1: "append_attempt_event a ''lease_generation_exhausted'' p
         (db\<lparr>db_attempts := update_where (\<lambda>t. at_id t = a)
            (\<lambda>t. t\<lparr>at_status := ''incomplete'', at_result_metadata := m\<rparr>) (db_attempts db)\<rparr>) = Inr (n1, db1)"
    and e2: "append_attempt_event a ''terminal'' q db1 = Inr (n2, db')"
  show "db_move\<^sup>*\<^sup>* db db'"
    by (rule then_move [OF then_move [OF r_into_rtranclp dm_event [OF e1]] dm_event [OF e2]])
      (rule dm_attempts, simp)
qed simp

lemma append_event_jobs: "append_attempt_event a ty p db = Inr (n, db') \<Longrightarrow> db_jobs db' = db_jobs db"
  by (rule same_coreD(5) [OF log.append_core])

lemma record_lease_jobs:
  "record_lease_generation_exhausted job now g db = Inr db' \<Longrightarrow> db_jobs db' = db_jobs db"
  by (drule record_lease_shape) (auto dest!: append_event_jobs)

text \<open>One reclaimed row: the row that was selected is still the row of its identifier.\<close>

lemma reclaim_row_moves:
  assumes keys: "distinct (map jb_id (db_jobs db))" and row: "row \<in> set (db_jobs db)"
    and step: "reclaim_row now row (n, xs, db) = Inr (n', xs', db')"
  shows "db_move\<^sup>*\<^sup>* db db'"
proof -
  let ?cond = "\<lambda>j. jb_id j = jb_id row \<and> reclaimable (now - LEASE_RECLAIM_GRACE) j"
  have only: "j = row \<and> jb_status j = Job_running" if "j \<in> set (db_jobs db)" "?cond j" for j
    using distinct_map_key_unique [OF keys that(1) row] that(2) by (auto simp: reclaimable_def)
  have jobs: "db_move db (db\<lparr>db_jobs := update_where ?cond f (db_jobs db)\<rparr>)"
    if "jb_status row = Job_running \<Longrightarrow> row_move row (f row)" for f
    by (rule dm_jobs) (use only that in blast)
  show ?thesis
  proof (cases "MAX_LEASE_GENERATIONS \<le> job_generation row")
    case True
    have "db_move db (db\<lparr>db_jobs := update_where ?cond (release_lease Job_failed None) (db_jobs db)\<rparr>)"
      by (rule jobs) (simp add: rm_exhaust True)
    then show ?thesis
      using step True by (auto simp: reclaim_row_def Let_def bind_r_eq_Inr_iff
          intro: converse_rtranclp_into_rtranclp dest: record_lease_moves split: if_splits)
  next
    case False
    have "db_move db (db\<lparr>db_jobs := update_where ?cond
        (release_lease Job_queued (Some (now + reclaim_backoff (job_generation row)))) (db_jobs db)\<rparr>)"
      by (rule jobs, rule rm_requeue) (use False in auto)
    then show ?thesis
      using step False by (auto simp: reclaim_row_def Let_def)
  qed
qed

lemma reclaim_row_jobs:
  assumes "reclaim_row now row (n, xs, db) = Inr (n', xs', db')"
  shows "\<exists>f. db_jobs db' = update_where
     (\<lambda>j. jb_id j = jb_id row \<and> reclaimable (now - LEASE_RECLAIM_GRACE) j) f (db_jobs db) \<and>
     (\<forall>j. jb_id (f j) = jb_id j \<and> jb_status (f j) \<noteq> Job_running)"
  using assms record_lease_jobs
  by (fastforce simp: reclaim_row_def Let_def bind_r_eq_Inr_iff release_lease_def split: if_splits)

lemma reclaim_row_keeps:
  assumes "reclaim_row now row (n, xs, db) = Inr (n', xs', db')"
  shows "map jb_id (db_jobs db') = map jb_id (db_jobs db)"
    and "\<And>j. j \<in> set (db_jobs db) \<Longrightarrow> jb_id j \<noteq> jb_id row \<Longrightarrow> j \<in> set (db_jobs db')"
  using reclaim_row_jobs [OF assms] by (auto simp: map_key_update_where in_update_where_iff)

lemma reclaim_rows_moves:
  assumes "distinct (map jb_id rows)" and "distinct (map jb_id (db_jobs db))"
    and "set rows \<subseteq> set (db_jobs db)"
    and "for_each (reclaim_row now) rows (n, xs, db) = Inr (n', xs', db')"
  shows "db_move\<^sup>*\<^sup>* db db'"
  using assms
proof (induction rows arbitrary: n xs db)
  case Nil
  then show ?case by simp
next
  case (Cons row rows)
  from Cons.prems(4) obtain n1 xs1 db1 where s1: "reclaim_row now row (n, xs, db) = Inr (n1, xs1, db1)"
    and s2: "for_each (reclaim_row now) rows (n1, xs1, db1) = Inr (n', xs', db')"
    by (auto simp: bind_r_eq_Inr_iff)
  have "db_move\<^sup>*\<^sup>* db db1"
    using Cons.prems(3) by (intro reclaim_row_moves [OF Cons.prems(2) _ s1]) simp
  moreover have "db_move\<^sup>*\<^sup>* db1 db'"
  proof (rule Cons.IH [OF _ _ _ s2])
    show "distinct (map jb_id (db_jobs db1))"
      using Cons.prems(2) by (simp add: reclaim_row_keeps(1) [OF s1])
    show "set rows \<subseteq> set (db_jobs db1)"
      using Cons.prems(1,3) by (auto intro!: reclaim_row_keeps(2) [OF s1] simp: image_iff)
  qed (use Cons.prems in simp)
  ultimately show ?case by (rule rtranclp_trans)
qed

lemma distinct_map_sort_filter:
  "distinct (map key rows) \<Longrightarrow> distinct (map key (sort_key k (filter P rows)))"
  by (simp add: distinct_map inj_on_def)

lemma reclaim_moves:
  assumes keys: "distinct (map jb_id (db_jobs db))"
    and step: "reclaim_expired_in_transaction now p x db = Inr (n, db')"
  shows "db_move\<^sup>*\<^sup>* db db'"
proof -
  from step obtain m xs db1 where
    loop: "for_each (reclaim_row now) (reclaim_selected now p x db) (0, [], db) = Inr (m, xs, db1)"
    and fin: "db' = fold (\<lambda>x. finalize_execution_if_terminal x now) (remdups xs) db1"
    by (auto simp: reclaim_expired_in_transaction_def bind_r_eq_Inr_iff)
  have "db_move\<^sup>*\<^sup>* db db1"
    by (rule reclaim_rows_moves [OF _ keys _ loop])
      (auto simp: reclaim_selected_def intro: distinct_map_sort_filter keys)
  then show ?thesis
    unfolding fin using finalize_executions_moves by (rule rtranclp_trans)
qed

lemma heartbeat_moves: "heartbeat i ow tok ls now db = Inr (r, db') \<Longrightarrow> db_move\<^sup>*\<^sup>* db db'"
proof -
  assume "heartbeat i ow tok ls now db = Inr (r, db')"
  then obtain found where found: "scalar_one_or_none
      (map jb_lease_expires_at (filter (holds_lease i ow tok) (db_jobs db))) = Inr found"
    and rest: "db' = db \<or> \<not> expired (case found of None \<Rightarrow> None | Some e \<Rightarrow> e) now \<and>
      db' = db\<lparr>db_jobs := update_where (holds_lease i ow tok)
        (\<lambda>j. j\<lparr>jb_heartbeat_at := Some now, jb_lease_expires_at := Some (now + td_seconds ls)\<rparr>) (db_jobs db)\<rparr>"
    by (auto simp: heartbeat_def bind_r_eq_Inr_iff split: if_splits)
  show ?thesis
  proof (cases "expired (case found of None \<Rightarrow> None | Some e \<Rightarrow> e) now")
    case True
    with rest show ?thesis by auto
  next
    case False
    then obtain e j0 where "filter (holds_lease i ow tok) (db_jobs db) = [j0]"
        "jb_lease_expires_at j0 = Some e"
      using found by (auto simp: expired_def scalar_one_or_none_Some_iff map_eq_Cons_conv split: option.splits)
    then have "jb_lease_expires_at j \<noteq> None" if "j \<in> set (db_jobs db)" "holds_lease i ow tok j" for j
      using that by (auto dest: filter_singletonD)
    then have "db_move db (db\<lparr>db_jobs := update_where (holds_lease i ow tok)
        (\<lambda>j. j\<lparr>jb_heartbeat_at := Some now, jb_lease_expires_at := Some (now + td_seconds ls)\<rparr>) (db_jobs db)\<rparr>)"
      by (intro dm_jobs rm_beat) (auto simp: holds_lease_def)
    with rest show ?thesis by auto
  qed
qed

lemma in_next_job:
  "next_job now k p x db = Some row \<Longrightarrow> row \<in> set (db_jobs db) \<and> claimable now k p x db row"
  by (auto simp: next_job_def dest!: first_Some_in)

definition lease_of :: "string \<Rightarrow> string \<Rightarrow> datetime \<Rightarrow> job_row \<Rightarrow> job_lease" where
  "lease_of owner token expires_at row =
     \<lparr>jl_id = jb_id row, jl_execution_id = jb_execution_id row, jl_attempt_id = jb_attempt_id row,
      jl_kind = jb_kind row, jl_owner = owner, jl_token = token, jl_expires_at = expires_at,
      jl_attempt_count = job_generation row + 1, jl_payload = jb_payload row\<rparr>"

definition claimed_db :: "string \<Rightarrow> string \<Rightarrow> datetime \<Rightarrow> datetime \<Rightarrow> job_row \<Rightarrow> arena_db \<Rightarrow> arena_db" where
  "claimed_db owner token expires_at now row db =
     db\<lparr>db_jobs := update_where (\<lambda>j. jb_id j = jb_id row \<and> jb_status j = Job_queued)
       (claim_row owner token expires_at now) (db_jobs db)\<rparr>"

lemma claim_Inr:
  assumes "claim ow ls now k p x tok db = Inr (r, db')"
  obtains m db1 where "reclaim_expired_in_transaction now p x db = Inr (m, db1)"
    "ow \<noteq> []" "0 < ls"
    "case next_job now k p x db1 of
       None \<Rightarrow> r = None \<and> db' = db1
     | Some row \<Rightarrow> db' = claimed_db ow tok (now + td_seconds ls) now row db1 \<and>
         r = (if rowcount (\<lambda>j. jb_id j = jb_id row \<and> jb_status j = Job_queued) (db_jobs db1) = 1
              then Some (lease_of ow tok (now + td_seconds ls) row) else None)"
proof -
  from assms obtain m db1 where rec: "reclaim_expired_in_transaction now p x db = Inr (m, db1)"
    and ok: "ow \<noteq> []" "0 < ls"
    unfolding claim_def by (auto simp: bind_r_eq_Inr_iff Let_def)
  show thesis
  proof (rule that [OF rec ok])
    show "case next_job now k p x db1 of
       None \<Rightarrow> r = None \<and> db' = db1
     | Some row \<Rightarrow> db' = claimed_db ow tok (now + td_seconds ls) now row db1 \<and>
         r = (if rowcount (\<lambda>j. jb_id j = jb_id row \<and> jb_status j = Job_queued) (db_jobs db1) = 1
              then Some (lease_of ow tok (now + td_seconds ls) row) else None)"
      using assms
      by (cases "next_job now k p x db1")
        (auto simp: claim_def rec Let_def lease_of_def claimed_db_def split: if_splits)
  qed
qed

lemma claimed_db_moves: "db_move\<^sup>*\<^sup>* db (claimed_db ow tok e now row db)"
  unfolding claimed_db_def by (intro r_into_rtranclp dm_jobs rm_claim) simp

lemma claim_moves:
  assumes keys: "distinct (map jb_id (db_jobs db))"
    and step: "claim ow ls now k p x tok db = Inr (r, db')"
  shows "db_move\<^sup>*\<^sup>* db db'"
  using step
proof (rule claim_Inr)
  fix m db1
  assume rec: "reclaim_expired_in_transaction now p x db = Inr (m, db1)"
    and rest: "case next_job now k p x db1 of
       None \<Rightarrow> r = None \<and> db' = db1
     | Some row \<Rightarrow> db' = claimed_db ow tok (now + td_seconds ls) now row db1 \<and>
         r = (if rowcount (\<lambda>j. jb_id j = jb_id row \<and> jb_status j = Job_queued) (db_jobs db1) = 1
              then Some (lease_of ow tok (now + td_seconds ls) row) else None)"
  from rest have "db_move\<^sup>*\<^sup>* db1 db'"
    by (cases "next_job now k p x db1") (auto intro: claimed_db_moves)
  with reclaim_moves [OF keys rec] show ?thesis by (rule rtranclp_trans)
qed

lemma update_attempt_event_moves:
  assumes "append_attempt_event a ty p (db\<lparr>db_attempts := update_where Q g (db_attempts db)\<rparr>) = Inr (n, db')"
    and "\<And>t. at_id (g t) = at_id t \<and> at_episode_id (g t) = at_episode_id t \<and> at_ordinal (g t) = at_ordinal t"
  shows "db_move\<^sup>*\<^sup>* db db'"
  by (rule then_move [OF r_into_rtranclp dm_event [OF assms(1)]]) (rule dm_attempts [OF assms(2)])

lemma request_cancel_moves:
  assumes "request_cancel i now db = Inr (r, db')"
  shows "db_move\<^sup>*\<^sup>* db db'"
proof (cases "job_by_id db i")
  case None
  with assms show ?thesis by (simp add: request_cancel_def)
next
  case (Some row)
  let ?queued = "\<lambda>j. jb_id j = i \<and> jb_status j = Job_queued"
  let ?cancel = "\<lambda>j. j\<lparr>jb_status := Job_cancelled, jb_cancel_requested_at := Some now\<rparr>"
  let ?db1 = "db\<lparr>db_jobs := update_where ?queued ?cancel (db_jobs db)\<rparr>"
  have q: "db_move db ?db1"
    by (rule dm_jobs) (auto intro: rm_cancel_queued)
  have run: "db_move db (db\<lparr>db_jobs := update_where (\<lambda>j. jb_id j = i \<and> jb_status j = Job_running)
      (\<lambda>j. j\<lparr>jb_cancel_requested_at := Some now\<rparr>) (db_jobs db)\<rparr>)"
    by (rule dm_jobs) (auto intro: rm_cancel_running)
  consider "terminal_job row" | "\<not> terminal_job row" "jb_status row = Job_queued"
    | "\<not> terminal_job row" "jb_status row \<noteq> Job_queued"
    by blast
  then show ?thesis
  proof cases
    case 1
    with assms Some show ?thesis by (simp add: request_cancel_def)
  next
    case 2
    show ?thesis
    proof (cases "if rowcount ?queued (db_jobs db) \<noteq> 0 then jb_attempt_id row else None")
      case None
      with assms Some 2 q show ?thesis by (auto simp: request_cancel_def Let_def)
    next
      case (Some a)
      with assms \<open>job_by_id db i = Some row\<close> 2 obtain n where
        "append_attempt_event a ''terminal''
           [(''winner'', JStr ''cancelled''), (''reported_outcome'', JStr ''cancelled'')]
           (?db1\<lparr>db_attempts := update_where (\<lambda>t. at_id t = a)
              (\<lambda>t. t\<lparr>at_status := ''cancelled'',
                     at_result_metadata := [(''cancelled_before_dispatch'', JBool True)]\<rparr>)
              (db_attempts ?db1)\<rparr>) = Inr (n, db')"
        by (auto simp: request_cancel_def Let_def bind_r_eq_Inr_iff)
      then have "db_move\<^sup>*\<^sup>* ?db1 db'"
        by (rule update_attempt_event_moves) simp
      with q show ?thesis by (rule converse_rtranclp_into_rtranclp)
    qed
  next
    case 3
    with assms Some run show ?thesis by (auto simp: request_cancel_def Let_def)
  qed
qed

lemma outcome_status_terminal: "outcome_status oc = Some w \<Longrightarrow> w \<in> set TERMINAL_JOB_STATUSES"
  by (auto simp: outcome_status_def TERMINAL_JOB_STATUSES_def split: if_splits)

lemma terminal_winner_terminal:
  "w \<in> set TERMINAL_JOB_STATUSES \<Longrightarrow> terminal_winner row w \<in> set TERMINAL_JOB_STATUSES"
  by (simp add: terminal_winner_def TERMINAL_JOB_STATUSES_def)

lemma job_by_id_Some: "job_by_id db i = Some row \<Longrightarrow> row \<in> set (db_jobs db) \<and> jb_id row = i"
  by (auto simp: job_by_id_def dest!: first_Some_in)

lemma job_by_id_eq:
  assumes "distinct (map jb_id (db_jobs db))" and "j \<in> set (db_jobs db)"
  shows "job_by_id db (jb_id j) = Some j"
  using filter_key_unique [OF assms] by (simp add: job_by_id_def)

lemma finalize_row_move:
  assumes keys: "distinct (map jb_id (db_jobs db))" and row: "job_by_id db i = Some row"
    and w: "outcome_status oc = Some w"
  shows "db_move db (db\<lparr>db_jobs := update_where (finalizable i ow tok now)
     (finalize_row (terminal_winner row w) now) (db_jobs db)\<rparr>)"
proof (rule dm_jobs)
  fix j
  assume "j \<in> set (db_jobs db)" and f: "finalizable i ow tok now j"
  then have "j = row"
    using job_by_id_Some [OF row] keys
    by (auto simp: finalizable_def holds_lease_def dest: distinct_map_key_unique)
  with f show "row_move j (finalize_row (terminal_winner row w) now j)"
    by (auto simp: finalizable_def holds_lease_def terminal_winner_def
        intro!: rm_final outcome_status_terminal [OF w] simp: TERMINAL_JOB_STATUSES_def)
qed

lemma record_outcome_moves:
  assumes "record_attempt_outcome row w st md db = Inr db'"
  shows "db_move\<^sup>*\<^sup>* db db'"
proof (cases "jb_attempt_id row")
  case None
  with assms show ?thesis by (simp add: record_attempt_outcome_def)
next
  case (Some a)
  with assms show ?thesis
    by (auto simp: record_attempt_outcome_def bind_r_eq_Inr_iff dest!: update_attempt_event_moves)
qed

lemma insert_followup_cases:
  assumes "insert_followup h row fu now c db = Inr db'"
  shows "db' = db \<or> (\<exists>a k p. jb_attempt_id row = Some a \<and> fu = Some (k, p) \<and>
    insert_job (queued_job (followup_id h a k) (jb_execution_id row) (Some a) k now p c) db = Inr db')"
  using assms by (auto simp: insert_followup_def bind_r_eq_Inr_iff split: option.splits)

lemma insert_followup_moves: "insert_followup h row fu now c db = Inr db' \<Longrightarrow> db_move\<^sup>*\<^sup>* db db'"
  by (drule insert_followup_cases) (auto intro: dm_insert_job)

text \<open>
  What a call of \<open>finalize\<close> does: it reports the status of a terminal job, does nothing without a
  live lease, or terminalizes the job it holds.
\<close>

definition finalized_db :: "string \<Rightarrow> string \<Rightarrow> string \<Rightarrow> datetime \<Rightarrow> job_status \<Rightarrow> arena_db \<Rightarrow> arena_db" where
  "finalized_db i ow tok now w db =
     db\<lparr>db_jobs := update_where (finalizable i ow tok now) (finalize_row w now) (db_jobs db)\<rparr>"

lemma rowcount_finalizable:
  assumes keys: "distinct (map jb_id (db_jobs db))" and row: "job_by_id db i = Some row"
    and f: "finalizable i ow tok now row"
  shows "rowcount (finalizable i ow tok now) (db_jobs db) = 1"
proof (rule antisym)
  show "rowcount (finalizable i ow tok now) (db_jobs db) \<le> 1"
    using keys by (rule rowcount_key_le1) (simp add: finalizable_def holds_lease_def)
  have "0 < rowcount (finalizable i ow tok now) (db_jobs db)"
    using job_by_id_Some [OF row] f by (auto simp: rowcount_pos_iff)
  then show "1 \<le> rowcount (finalizable i ow tok now) (db_jobs db)" by simp
qed

lemma finalize_cases [consumes 2, case_names terminal fenced won]:
  assumes keys: "distinct (map jb_id (db_jobs db))"
    and "finalize h i ow oc st md now tok fu c db = Inr (r, db')"
  obtains (terminal) row where "job_by_id db i = Some row" "terminal_job row" "r = Some (jb_status row)" "db' = db"
  | (fenced) row where "job_by_id db i = Some row" "\<not> terminal_job row"
      "\<not> finalizable i ow tok now row" "r = None" "db' = db"
  | (won) row w db2 db3 where "job_by_id db i = Some row" "finalizable i ow tok now row"
      "outcome_status oc = Some w" "r = Some (terminal_winner row w)"
      "record_attempt_outcome row (terminal_winner row w) st md
         (finalized_db i ow tok now (terminal_winner row w) db) = Inr db2"
      "insert_followup h row fu now c db2 = Inr db3"
      "db' = finalize_execution_if_terminal (jb_execution_id row) now db3"
proof -
  from assms(2) obtain w row where w: "outcome_status oc = Some w" and row: "job_by_id db i = Some row"
    by (auto simp: finalize_def split: option.splits)
  note body = assms(2) [unfolded finalize_def, simplified, unfolded w row, simplified]
  show thesis
  proof (cases "terminal_job row")
    case True
    with body row show thesis by (auto intro: terminal)
  next
    case nt: False
    show thesis
    proof (cases "finalizable i ow tok now row")
      case False
      with body row nt show thesis by (auto intro: fenced)
    next
      case True
      with body nt rowcount_finalizable [OF keys row True] show thesis
        by (auto simp: Let_def bind_r_eq_Inr_iff finalized_db_def [symmetric]
            intro: won [OF row True w])
    qed
  qed
qed

lemma finalize_moves:
  assumes keys: "distinct (map jb_id (db_jobs db))"
    and step: "finalize h i ow oc st md now tok fu c db = Inr (r, db')"
  shows "db_move\<^sup>*\<^sup>* db db'"
  using keys step
proof (cases rule: finalize_cases)
  case (won row w db2 db3)
  have "db_move db (finalized_db i ow tok now (terminal_winner row w) db)"
    unfolding finalized_db_def by (rule finalize_row_move [OF keys won(1,3)])
  also have "db_move\<^sup>*\<^sup>* \<dots> db2"
    using won(5) by (rule record_outcome_moves)
  also have "db_move\<^sup>*\<^sup>* db2 db3"
    using won(6) by (rule insert_followup_moves)
  also have "db_move\<^sup>*\<^sup>* db3 db'"
    unfolding won(7) by (rule finalize_execution_moves)
  finally show ?thesis .
qed simp_all

lemma finalize_auxiliary_cases [consumes 2, case_names terminal fenced won]:
  assumes keys: "distinct (map jb_id (db_jobs db))"
    and "finalize_auxiliary i ow oc tok now db = Inr (r, db')"
  obtains (terminal) row where "job_by_id db i = Some row" "terminal_job row" "r = Some (jb_status row)" "db' = db"
  | (fenced) row where "job_by_id db i = Some row" "\<not> terminal_job row"
      "\<not> finalizable i ow tok now row" "r = None" "db' = db"
  | (won) row w where "job_by_id db i = Some row" "finalizable i ow tok now row"
      "outcome_status oc = Some w" "r = Some (terminal_winner row w)"
      "db' = finalize_execution_if_terminal (jb_execution_id row) now
         (finalized_db i ow tok now (terminal_winner row w) db)"
proof -
  from assms(2) obtain w row where w: "outcome_status oc = Some w" and row: "job_by_id db i = Some row"
    by (auto simp: finalize_auxiliary_def split: option.splits)
  note body = assms(2) [unfolded finalize_auxiliary_def, simplified, unfolded w row, simplified]
  show thesis
  proof (cases "terminal_job row")
    case True
    with body row show thesis by (auto intro: terminal)
  next
    case nt: False
    show thesis
    proof (cases "finalizable i ow tok now row")
      case False
      with body row nt show thesis by (auto intro: fenced)
    next
      case True
      with body nt rowcount_finalizable [OF keys row True] show thesis
        by (auto simp: Let_def finalized_db_def [symmetric] intro: won [OF row True w])
    qed
  qed
qed

lemma finalize_auxiliary_moves:
  assumes keys: "distinct (map jb_id (db_jobs db))"
    and step: "finalize_auxiliary i ow oc tok now db = Inr (r, db')"
  shows "db_move\<^sup>*\<^sup>* db db'"
  using keys step
proof (cases rule: finalize_auxiliary_cases)
  case (won row w)
  have "db_move db (finalized_db i ow tok now (terminal_winner row w) db)"
    unfolding finalized_db_def by (rule finalize_row_move [OF keys won(1,3)])
  also have "db_move\<^sup>*\<^sup>* \<dots> db'"
    unfolding won(5) by (rule finalize_execution_moves)
  finally show ?thesis .
qed simp_all

text \<open>What a successful \<open>retry\<close> has checked and written.\<close>

definition retry_attempt :: "attempt_row \<Rightarrow> string \<Rightarrow> nat \<Rightarrow> attempt_input \<Rightarrow> attempt_row" where
  "retry_attempt old attempt_id ordinal rebound =
     \<lparr>at_id = attempt_id, at_episode_id = at_episode_id old, at_ordinal = ordinal, at_status = ''queued'',
      at_request_metadata = dict_set ''envelope'' (envelope_dump (ai_attempt rebound))
        (dict_set ''retry_of_attempt_id'' (JStr (at_id old)) (at_request_metadata old)),
      at_result_metadata = []\<rparr>"

lemma retry_Inr:
  assumes "retry k i now a ni c db = Inr (r, db')"
  obtains job old original rebound db1 db2 where
    "job_by_id db i = Some job" "jb_kind job = ''attempt''" "jb_attempt_id job = Some (at_id old)"
    "old \<in> set (db_attempts db)" "at_status old \<in> set NON_SUCCESS_ATTEMPT_STATUSES"
    "retry_permitted job old" "read_attempt_input k (jb_payload job) = Inr original"
    "av_attempt_id (ai_attempt original) = at_id old"
    "rowcount (\<lambda>t. at_episode_id t = at_episode_id old) (db_attempts db)
       < bs_max_attempts (av_budget (ai_attempt original))"
    "bind_input k (ai_scenario original) (retry_envelope k (ai_attempt original) old a
       (next_ordinal db (at_episode_id old)) now) None = Inr rebound"
    "insert_attempt (retry_attempt old a (next_ordinal db (at_episode_id old)) rebound) db = Inr db1"
    "insert_job (queued_job ni (jb_execution_id job) (Some a) ''attempt'' now
       (dict_set ''attempt_input'' (attempt_input_dump rebound) (jb_payload job)) c) db1 = Inr db2"
    "db' = db2\<lparr>db_executions := update_where (\<lambda>x. ex_id x = jb_execution_id job)
       (\<lambda>x. x\<lparr>ex_status := Ex_queued, ex_completed_at := None\<rparr>) (db_executions db2)\<rparr>"
    "r = (a, ni)"
proof -
  from assms obtain job where job: "job_by_id db i = Some job"
    by (auto simp: retry_def split: option.splits)
  from assms job obtain old_id where kind: "jb_kind job = ''attempt''" "jb_attempt_id job = Some old_id"
    by (cases "jb_kind job = ''attempt''"; cases "jb_attempt_id job") (simp_all add: retry_def)
  from assms job kind obtain old where old: "filter (\<lambda>t. at_id t = old_id) (db_attempts db) = [old]"
    by (auto simp: retry_def split: list.splits)
  then have in_old: "old \<in> set (db_attempts db) \<and> at_id old = old_id"
    by (metis (mono_tags, lifting) filter_set list.set_intros(1) mem_Collect_eq set_filter)
  show thesis
    using assms job kind old in_old
    by (auto simp: retry_def bind_r_eq_Inr_iff Let_def retry_attempt_def [symmetric] not_le intro: that)
qed

lemma retry_moves: "retry k i now a ni c db = Inr (r, db') \<Longrightarrow> db_move\<^sup>*\<^sup>* db db'"
  by (erule retry_Inr)
    (auto intro!: then_move [OF then_move [OF r_into_rtranclp dm_insert_job] dm_executions]
      intro: dm_insert_attempt)

lemma record_diagnostic_moves: "record_diagnostic a ty p db = Inr (r, db') \<Longrightarrow> db_move\<^sup>*\<^sup>* db db'"
  by (auto simp: record_diagnostic_def bind_r_eq_Inr_iff intro: dm_event)

lemma job_step_moves:
  assumes "job_step db db'" and "distinct (map jb_id (db_jobs db))"
  shows "db_move\<^sup>*\<^sup>* db db'"
  using assms
  by (induction rule: job_step.induct)
    (auto simp: reclaim_expired_def intro: enqueue_moves claim_moves heartbeat_moves reclaim_moves
      request_cancel_moves finalize_moves finalize_auxiliary_moves record_diagnostic_moves retry_moves)

end
