(* ===== verification/Job_Invariants.thy ===== *)
theory Job_Invariants
  imports Job_Moves
begin

text \<open>
  The invariant of the job tables, kept by every move and therefore by every operation, and the
  properties of \<open>JobLeaseRepository\<close> that rest on it: bounded lease generations, immutable terminal
  jobs, fencing of stale leases, exact reclaiming, cancellation that wins, and bounded retries.
\<close>

section \<open>The invariant\<close>

definition lease_free :: "job_row \<Rightarrow> bool" where
  "lease_free j \<longleftrightarrow> jb_lease_owner j = None \<and> jb_lease_token j = None \<and> jb_lease_expires_at j = None"

definition job_ok :: "job_row \<Rightarrow> bool" where
  "job_ok j \<longleftrightarrow>
     (jb_status j = Job_queued \<longrightarrow> job_generation j < MAX_LEASE_GENERATIONS) \<and>
     (jb_status j = Job_running \<longrightarrow> 1 \<le> job_generation j \<and> jb_lease_owner j \<noteq> None \<and>
        jb_lease_token j \<noteq> None \<and> jb_lease_expires_at j \<noteq> None) \<and>
     (jb_status j \<noteq> Job_running \<longrightarrow> lease_free j) \<and>
     job_generation j \<le> MAX_LEASE_GENERATIONS"

definition jobs_inv :: "arena_db \<Rightarrow> bool" where
  "jobs_inv db \<longleftrightarrow> db_keys db \<and> db_refs db \<and> events_inv db \<and> (\<forall>j \<in> set (db_jobs db). job_ok j)"

lemma row_move_ok: "row_move j j' \<Longrightarrow> job_ok j \<Longrightarrow> job_ok j'"
  by (induction rule: row_move.induct)
    (auto simp: job_ok_def lease_free_def claim_row_def release_lease_def finalize_row_def
      job_generation_def TERMINAL_JOB_STATUSES_def)

lemma queued_job_ok: "job_ok (queued_job i x a k t p c)"
  by (simp add: job_ok_def lease_free_def queued_job_def job_generation_def MAX_LEASE_GENERATIONS_def)

lemma jobs_keys: "jobs_inv db \<Longrightarrow> distinct (map jb_id (db_jobs db))"
  by (simp add: jobs_inv_def db_keys_def)

text \<open>The execution of an attempt depends on the keys of the attempts and on the episodes only.\<close>

definition attempt_keys :: "arena_db \<Rightarrow> (string \<times> string) list" where
  "attempt_keys db = map (\<lambda>t. (at_id t, at_episode_id t)) (db_attempts db)"

lemma attempt_execution_ids_keys:
  "attempt_execution_ids db a =
     concat (map (\<lambda>(_, e). map ep_execution_id (filter (\<lambda>p. ep_id p = e) (db_episodes db)))
       (filter (\<lambda>(i, _). i = a) (attempt_keys db)))"
  by (simp add: attempt_execution_ids_def attempt_keys_def filter_map comp_def)

lemma attempt_execution_ids_known:
  assumes "db_keys db" and "db_refs db" and "t \<in> set (db_attempts db)"
  shows "\<exists>x. attempt_execution_ids db (at_id t) = [x] \<and> (\<exists>e \<in> set (db_executions db). ex_id e = x)"
proof -
  obtain e where e: "e \<in> set (db_episodes db)" "ep_id e = at_episode_id t"
    using assms(2,3) by (auto simp: db_refs_def)
  have "filter (\<lambda>s. at_id s = at_id t) (db_attempts db) = [t]"
    using assms(1,3) by (intro filter_key_unique) (simp_all add: db_keys_def)
  moreover have "filter (\<lambda>p. ep_id p = ep_id e) (db_episodes db) = [e]"
    using assms(1) e(1) by (intro filter_key_unique) (simp_all add: db_keys_def)
  ultimately show ?thesis
    using e assms(2) by (auto simp: attempt_execution_ids_def db_refs_def)
qed

text \<open>\<open>events_inv\<close> survives every change that keeps the log and the executions of its attempts.\<close>

lemma events_inv_frame:
  assumes "events_inv db" and "db_attempt_events db' = db_attempt_events db"
    and "db_event_cursors db' = db_event_cursors db"
    and "\<And>v. v \<in> set (db_attempt_events db) \<Longrightarrow>
      attempt_execution_ids db' (ev_attempt_id v) = attempt_execution_ids db (ev_attempt_id v)"
  shows "events_inv db'"
  using assms by (simp add: events_inv_def attempt_events_of_def execution_events_of_def)

lemma events_inv_same_attempts:
  "events_inv db \<Longrightarrow> db_attempt_events db' = db_attempt_events db \<Longrightarrow>
   db_event_cursors db' = db_event_cursors db \<Longrightarrow> db_attempts db' = db_attempts db \<Longrightarrow>
   db_episodes db' = db_episodes db \<Longrightarrow> events_inv db'"
  by (erule events_inv_frame) (simp_all add: attempt_execution_ids_def)

lemma insert_attempt_events:
  assumes inv: "events_inv db" and ins: "insert_attempt row db = Inr db'"
  shows "events_inv db'"
proof (rule events_inv_frame [OF inv])
  fix v
  assume "v \<in> set (db_attempt_events db)"
  then have "attempt_execution_ids db (ev_attempt_id v) \<noteq> []"
    using inv by (simp add: events_inv_def)
  then have "\<exists>t \<in> set (db_attempts db). at_id t = ev_attempt_id v"
    by (auto simp: attempt_execution_ids_def filter_empty_conv)
  then have "at_id row \<noteq> ev_attempt_id v"
    using ins by (auto simp: insert_attempt_Inr_iff)
  then show "attempt_execution_ids db' (ev_attempt_id v) = attempt_execution_ids db (ev_attempt_id v)"
    using ins by (auto simp: insert_attempt_Inr_iff attempt_execution_ids_def)
qed (use ins in \<open>auto simp: insert_attempt_Inr_iff\<close>)

lemma update_attempts_keys:
  assumes "\<And>t. at_id (g t) = at_id t \<and> at_episode_id (g t) = at_episode_id t \<and> at_ordinal (g t) = at_ordinal t"
  shows "attempt_keys (db\<lparr>db_attempts := update_where Q g (db_attempts db)\<rparr>) = attempt_keys db"
  unfolding attempt_keys_def using assms by (simp add: map_key_update_where)

lemma db_move_events:
  assumes "db_move db db'" and "events_inv db"
  shows "events_inv db'"
  using assms
proof (induction rule: db_move.induct)
  case (dm_attempts g db Q)
  show ?case
    by (rule events_inv_frame [OF dm_attempts(2)])
      (simp_all add: attempt_execution_ids_keys update_attempts_keys [OF dm_attempts(1)])
next
  case (dm_insert_job i x a k t p c db db')
  then show ?case by (auto simp: insert_job_Inr_iff intro: events_inv_same_attempts)
next
  case (dm_insert_attempt row db db')
  then show ?case by (blast intro: insert_attempt_events)
next
  case (dm_event a ty pl db n db')
  then show ?case by (blast intro: log.append_inv)
qed (auto intro: events_inv_same_attempts)

lemma db_move_keys:
  assumes "db_move db db'" and "db_keys db"
  shows "db_keys db'"
  using assms
proof (induction rule: db_move.induct)
  case (dm_jobs db P f)
  then have "map jb_id (update_where P f (db_jobs db)) = map jb_id (db_jobs db)"
    by (auto simp: update_where_def row_move_id)
  with dm_jobs show ?case by (simp add: db_keys_def)
next
  case (dm_event a ty pl db n db')
  then show ?case by (simp add: db_keys_def same_coreD [OF log.append_core])
qed (auto simp: db_keys_def insert_job_Inr_iff insert_attempt_Inr_iff map_key_update_where queued_job_def)

lemma db_refs_keys:
  "db_refs db \<longleftrightarrow>
     set (map at_episode_id (db_attempts db)) \<subseteq> set (map ep_id (db_episodes db)) \<and>
     set (map ep_execution_id (db_episodes db)) \<subseteq> set (map ex_id (db_executions db)) \<and>
     set (map jb_execution_id (db_jobs db)) \<subseteq> set (map ex_id (db_executions db)) \<and>
     (\<forall>a. Some a \<in> set (map jb_attempt_id (db_jobs db)) \<longrightarrow> a \<in> set (map at_id (db_attempts db)))"
  unfolding db_refs_def set_map image_subset_iff image_iff
  by (rule iffI; elim conjE; intro conjI ballI allI impI; metis)

lemma db_move_refs:
  assumes "db_move db db'" and "db_refs db"
  shows "db_refs db'"
  using assms
proof (induction rule: db_move.induct)
  case (dm_jobs db P f)
  have "map jb_execution_id (update_where P f (db_jobs db)) = map jb_execution_id (db_jobs db)"
      "map jb_attempt_id (update_where P f (db_jobs db)) = map jb_attempt_id (db_jobs db)"
    using dm_jobs(1) by (auto simp: update_where_def dest: row_move_frame)
  with dm_jobs(2) show ?case by (simp add: db_refs_keys del: set_map)
next
  case (dm_event a ty pl db n db')
  then show ?case by (simp add: db_refs_def same_coreD [OF log.append_core])
next
  case (dm_attempts g db Q)
  then show ?case by (simp add: db_refs_keys map_key_update_where del: set_map)
next
  case (dm_executions h db R)
  then show ?case by (simp add: db_refs_keys map_key_update_where del: set_map)
qed (auto simp: db_refs_def insert_job_Inr_iff insert_attempt_Inr_iff queued_job_def)

lemma db_move_jobs_ok:
  assumes "db_move db db'" and "\<forall>j \<in> set (db_jobs db). job_ok j"
  shows "\<forall>j \<in> set (db_jobs db'). job_ok j"
  using assms
proof (induction rule: db_move.induct)
  case (dm_jobs db P f)
  then have "job_ok (f j)" if "j \<in> set (db_jobs db)" "P j" for j
    using that by (meson row_move_ok)
  with dm_jobs(2) show ?case by (auto simp: in_update_where_iff)
next
  case (dm_event a ty pl db n db')
  then show ?case by (simp add: same_coreD [OF log.append_core])
qed (auto simp: insert_job_Inr_iff insert_attempt_Inr_iff queued_job_ok)

lemma db_moves_inv: "db_move\<^sup>*\<^sup>* db db' \<Longrightarrow> jobs_inv db \<Longrightarrow> jobs_inv db'"
  by (induction rule: rtranclp_induct)
    (auto simp: jobs_inv_def intro: db_move_events db_move_keys db_move_refs dest: db_move_jobs_ok)

lemma job_step_inv: "jobs_inv db \<Longrightarrow> job_step db db' \<Longrightarrow> jobs_inv db'"
  by (blast intro: db_moves_inv job_step_moves jobs_keys)

text \<open>A database with experiments, executions, episodes and attempts, and no job yet.\<close>

definition jobs_init :: "arena_db \<Rightarrow> bool" where
  "jobs_init db \<longleftrightarrow> db_keys db \<and> db_refs db \<and> db_jobs db = [] \<and> db_attempt_events db = [] \<and>
     db_event_cursors db = []"

lemma jobs_init_inv: "jobs_init db \<Longrightarrow> jobs_inv db"
  by (simp add: jobs_init_def jobs_inv_def events_inv_def attempt_events_of_def execution_events_of_def)

interpretation jobs: invariant_system jobs_init job_step jobs_inv
  by unfold_locales (auto intro: job_step_inv jobs_init_inv)

section \<open>Terminal jobs and single winners\<close>

text \<open>What a sequence of moves keeps of a job: here, everything once the job is terminal.\<close>

lemma db_move_terminal:
  assumes "db_move db db'" and "j \<in> set (db_jobs db)" and "terminal_job j"
  shows "j \<in> set (db_jobs db')"
  using assms
proof (induction rule: db_move.induct)
  case (dm_jobs db P f)
  then have "\<not> P j"
    using row_move_not_terminal by blast
  with dm_jobs show ?case by (force simp: in_update_where_iff)
next
  case (dm_event a ty pl db n db')
  then show ?case by (simp add: append_event_jobs)
qed (auto simp: insert_job_Inr_iff insert_attempt_Inr_iff)

lemma db_moves_terminal:
  "db_move\<^sup>*\<^sup>* db db' \<Longrightarrow> j \<in> set (db_jobs db) \<Longrightarrow> terminal_job j \<Longrightarrow> j \<in> set (db_jobs db')"
  by (induction rule: rtranclp_induct) (auto intro: db_move_terminal)

lemma job_steps_moves:
  assumes "job_step\<^sup>*\<^sup>* db db'" and "jobs_inv db"
  shows "db_move\<^sup>*\<^sup>* db db' \<and> jobs_inv db'"
  using assms
proof (induction rule: rtranclp_induct)
  case (step u v)
  then show ?case
    by (meson job_step_inv job_step_moves jobs_keys rtranclp_trans)
qed simp

text \<open>An example database: one execution with two attempts, their jobs already enqueued.\<close>

definition example_jobs_db :: arena_db where
  "example_jobs_db = example_log_db\<lparr>db_jobs :=
     [queued_job ''j1'' ''x1'' (Some ''a1'') ''attempt'' 0 [] 0,
      queued_job ''j2'' ''x1'' (Some ''a2'') ''attempt'' 0 [] 1]\<rparr>"

lemma example_jobs_inv: "jobs_inv example_jobs_db"
  by (simp add: jobs_inv_def example_jobs_db_def events_inv_def attempt_events_of_def queued_job_ok
      execution_events_of_def db_keys_def db_refs_def example_log_db_def queued_job_def)
    (simp add: job_ok_def lease_free_def job_generation_def MAX_LEASE_GENERATIONS_def)

text \<open>
  C21: Whatever sequence of calls the clients of the job tables make, in every reachable database the
  keys and references are intact, the event log is numbered without gaps, a job has at most five
  lease generations (four while it is queued), exactly the running jobs carry a complete lease, and
  a running job has been claimed at least once.
\<close>

theorem jobs_invariant_reachable:
  assumes "reachable jobs_init job_step db"
  shows "db_keys db \<and> db_refs db \<and> events_inv db \<and>
    (\<forall>j \<in> set (db_jobs db).
       job_generation j \<le> 5 \<and> (jb_status j = Job_queued \<longrightarrow> job_generation j \<le> 4) \<and>
       (jb_status j = Job_running \<longleftrightarrow> jb_lease_token j \<noteq> None) \<and>
       (jb_status j = Job_running \<longleftrightarrow> jb_lease_owner j \<noteq> None) \<and>
       (jb_status j = Job_running \<longleftrightarrow> jb_lease_expires_at j \<noteq> None) \<and>
       (jb_status j = Job_running \<longrightarrow> 1 \<le> job_generation j))"
proof -
  have inv: "jobs_inv db"
    using assms by (rule jobs.inv_reachable)
  then have "job_ok j" if "j \<in> set (db_jobs db)" for j
    using that by (simp add: jobs_inv_def)
  with inv show ?thesis
    by (auto simp: jobs_inv_def job_ok_def lease_free_def MAX_LEASE_GENERATIONS_def)
qed

lemma example_jobs_reachable: "reachable jobs_init job_step example_jobs_db"
proof -
  let ?j1 = "queued_job ''j1'' ''x1'' (Some ''a1'') ''attempt'' 0 [] 0"
  let ?db1 = "example_log_db\<lparr>db_jobs := [?j1]\<rparr>"
  have "jobs_init example_log_db"
    by (simp add: jobs_init_def db_keys_def db_refs_def example_log_db_def)
  then have "reachable jobs_init job_step example_log_db"
    by (rule reachable.start)
  moreover have "enqueue ''x1'' (Some ''a1'') ''attempt'' [] ''j1'' 0 0 example_log_db = Inr (''j1'', ?db1)"
    by (simp add: enqueue_def attempt_execution_ids_def insert_job_def example_log_db_def queued_job_def)
  ultimately have "reachable jobs_init job_step ?db1"
    by (blast intro: reachable.move js_enqueue)
  moreover have "enqueue ''x1'' (Some ''a2'') ''attempt'' [] ''j2'' 0 1 ?db1 = Inr (''j2'', example_jobs_db)"
    by (simp add: enqueue_def attempt_execution_ids_def insert_job_def example_log_db_def queued_job_def
        example_jobs_db_def)
  ultimately show ?thesis
    by (blast intro: reachable.move js_enqueue)
qed

theorem jobs_invariant_reachable_witness:
  "db_keys example_jobs_db \<and> length (db_jobs example_jobs_db) = 2 \<and>
   list_all (\<lambda>j. job_generation j \<le> 5) (db_jobs example_jobs_db)"
  using jobs_invariant_reachable [OF example_jobs_reachable] by (simp add: example_jobs_db_def)

text \<open>
  A terminal job is immutable: no sequence of calls by any clients changes any column of it.
\<close>

theorem terminal_job_immutable:
  assumes "jobs_inv db" and "job_step\<^sup>*\<^sup>* db db'" and "j \<in> set (db_jobs db)" and "terminal_job j"
  shows "j \<in> set (db_jobs db') \<and> job_by_id db' (jb_id j) = Some j"
  using assms job_steps_moves [OF assms(2,1)]
  by (auto intro: db_moves_terminal job_by_id_eq jobs_keys)

definition example_done_db :: arena_db where
  "example_done_db = example_jobs_db\<lparr>db_jobs := map (\<lambda>j. j\<lparr>jb_status := Job_completed\<rparr>) (db_jobs example_jobs_db)\<rparr>"

lemma example_done_inv: "jobs_inv example_done_db"
  using example_jobs_inv
  by (simp add: jobs_inv_def example_done_db_def example_jobs_db_def job_ok_def lease_free_def
      job_generation_def queued_job_def events_inv_def attempt_events_of_def execution_events_of_def
      db_keys_def db_refs_def example_log_db_def)

theorem terminal_job_immutable_witness:
  "job_by_id example_done_db ''j1'' = Some ((queued_job ''j1'' ''x1'' (Some ''a1'') ''attempt'' 0 [] 0)\<lparr>jb_status := Job_completed\<rparr>)"
proof -
  let ?j = "(queued_job ''j1'' ''x1'' (Some ''a1'') ''attempt'' 0 [] 0)\<lparr>jb_status := Job_completed\<rparr>"
  have "?j \<in> set (db_jobs example_done_db)" "terminal_job ?j" "jb_id ?j = ''j1''"
    by (simp_all add: example_done_db_def example_jobs_db_def terminal_job_def TERMINAL_JOB_STATUSES_def queued_job_def)
  with terminal_job_immutable [OF example_done_inv rtranclp.rtrancl_refl] show ?thesis by metis
qed

lemma finalized_row:
  assumes keys: "distinct (map jb_id (db_jobs db))" and row: "job_by_id db i = Some row"
    and f: "finalizable i ow tok now row"
  shows "finalize_row w now row \<in> set (db_jobs (finalized_db i ow tok now w db))"
  using job_by_id_Some [OF row] f by (force simp: finalized_db_def in_update_where_iff)

lemma record_outcome_jobs:
  "record_attempt_outcome row w st md db = Inr db' \<Longrightarrow> db_jobs db' = db_jobs db"
  by (auto simp: record_attempt_outcome_def bind_r_eq_Inr_iff dest!: append_event_jobs split: option.splits)

lemma insert_followup_jobs:
  "insert_followup h row fu now c db = Inr db' \<Longrightarrow> set (db_jobs db) \<subseteq> set (db_jobs db')"
  by (drule insert_followup_cases) (auto dest!: insert_job_jobs)

text \<open>After a call that returns a status, the job is terminal with that status.\<close>

lemma finalize_returns_terminal:
  assumes keys: "distinct (map jb_id (db_jobs db))"
    and "finalize h i ow oc st md now tok fu c db = Inr (Some w, db')"
  shows "\<exists>j \<in> set (db_jobs db'). jb_id j = i \<and> jb_status j = w \<and> terminal_job j"
  using assms
proof (cases rule: finalize_cases)
  case (terminal row)
  then show ?thesis using job_by_id_Some by auto
next
  case (won row w' db2 db3)
  let ?w = "terminal_winner row w'"
  have "finalize_row ?w now row \<in> set (db_jobs db')"
    using finalized_row [OF keys won(1,2), of ?w] record_outcome_jobs [OF won(5)]
      insert_followup_jobs [OF won(6)] won(7)
    by auto
  moreover have "?w \<in> set TERMINAL_JOB_STATUSES"
    using won(3) by (intro terminal_winner_terminal outcome_status_terminal)
  ultimately show ?thesis
    using won(1,4) job_by_id_Some [OF won(1)]
    by (intro bexI [of _ "finalize_row ?w now row"]) (auto simp: finalize_row_def terminal_job_def)
qed simp

text \<open>
  One terminal winner per job: when a call of \<open>finalize\<close> has returned a status, every later
  call for that job, by any worker with any token and outcome, returns the same status and writes
  nothing, whatever happened in between.
\<close>

theorem finalize_single_winner:
  assumes "jobs_inv db" and "finalize h i ow oc st md now tok fu c db = Inr (Some w, db')"
    and "job_step\<^sup>*\<^sup>* db' db''" and "outcome_status oc' \<noteq> None"
  shows "finalize h' i ow' oc' st' md' now' tok' fu' c' db'' = Inr (Some w, db'')"
proof -
  have inv': "jobs_inv db'"
    using assms(1,2) by (blast intro: job_step_inv js_finalize)
  obtain j where j: "j \<in> set (db_jobs db')" "jb_id j = i" "jb_status j = w" "terminal_job j"
    using finalize_returns_terminal [OF jobs_keys [OF assms(1)] assms(2)] by blast
  have "j \<in> set (db_jobs db'')" "jobs_inv db''"
    using job_steps_moves [OF assms(3) inv'] j by (auto intro: db_moves_terminal)
  then have "job_by_id db'' i = Some j"
    using j(2) job_by_id_eq jobs_keys by blast
  with j assms(4) show ?thesis
    by (auto simp: finalize_def)
qed

definition example_running_db :: arena_db where
  "example_running_db = example_log_db\<lparr>db_jobs :=
     [claim_row ''w1'' ''t1'' (seconds 60) 0 (queued_job ''j1'' ''x1'' (Some ''a1'') ''attempt'' 0 [] 0)]\<rparr>"

lemma example_running_inv: "jobs_inv example_running_db"
  by (simp add: jobs_inv_def example_running_db_def events_inv_def attempt_events_of_def claim_row_def
      execution_events_of_def db_keys_def db_refs_def example_log_db_def queued_job_def job_ok_def
      job_generation_def MAX_LEASE_GENERATIONS_def lease_free_def)

lemma example_finalize:
  "\<exists>db'. finalize (\<lambda>_. ''d'') ''j1'' ''w1'' ''completed'' ''completed'' [] 5 ''t1'' None 5 example_running_db
     = Inr (Some Job_completed, db')"
  by (simp add: finalize_def job_by_id_def outcome_status_def terminal_job_def TERMINAL_JOB_STATUSES_def finalizable_def holds_lease_def
      expired_def terminal_winner_def example_running_db_def example_log_db_def claim_row_def
      queued_job_def rowcount_def record_attempt_outcome_def append_attempt_event_def
      attempt_execution_ids_def update_where_def insert_attempt_event_def insert_followup_def Let_def)

theorem finalize_single_winner_witness:
  "\<exists>db'. finalize (\<lambda>_. ''d'') ''j1'' ''w1'' ''completed'' ''completed'' [] 5 ''t1'' None 5 example_running_db
       = Inr (Some Job_completed, db') \<and>
     finalize (\<lambda>_. ''d'') ''j1'' ''w2'' ''failed'' ''failed'' [] 9 ''t2'' None 9 db' = Inr (Some Job_completed, db')"
proof -
  obtain db' where db': "finalize (\<lambda>_. ''d'') ''j1'' ''w1'' ''completed'' ''completed'' [] 5 ''t1'' None 5
      example_running_db = Inr (Some Job_completed, db')"
    using example_finalize by blast
  have "outcome_status ''failed'' \<noteq> None" by (simp add: outcome_status_def)
  from finalize_single_winner [OF example_running_inv db' rtranclp.rtrancl_refl this] db'
  show ?thesis by blast
qed

section \<open>Fencing\<close>

lemma heartbeat_fenced:
  assumes keys: "distinct (map jb_id (db_jobs db))" and j: "j \<in> set (db_jobs db)"
    and "\<not> finalizable (jb_id j) ow tok now j" and "0 < ls"
  shows "heartbeat (jb_id j) ow tok ls now db = Inr (False, db)"
proof -
  have only: "r = j" if "r \<in> set (db_jobs db)" "holds_lease (jb_id j) ow tok r" for r
    using that j keys by (auto simp: holds_lease_def dest: distinct_map_key_unique)
  show ?thesis
  proof (cases "holds_lease (jb_id j) ow tok j")
    case True
    then have "filter (holds_lease (jb_id j) ow tok) (db_jobs db) = filter (\<lambda>r. jb_id r = jb_id j) (db_jobs db)"
      using j keys by (intro filter_cong) (auto simp: holds_lease_def dest: distinct_map_key_unique)
    also have "\<dots> = [j]"
      using keys j by (rule filter_key_unique)
    finally show ?thesis
      using assms(3,4) True by (simp add: heartbeat_def finalizable_def)
  next
    case False
    with only have "filter (holds_lease (jb_id j) ow tok) (db_jobs db) = []"
      by (auto simp: filter_empty_conv)
    with assms(4) show ?thesis by (simp add: heartbeat_def expired_def)
  qed
qed

lemma finalize_fenced:
  assumes "distinct (map jb_id (db_jobs db))" and "j \<in> set (db_jobs db)" and "\<not> terminal_job j"
    and "\<not> finalizable (jb_id j) ow tok now j" and "outcome_status oc \<noteq> None"
  shows "finalize h (jb_id j) ow oc st md now tok fu c db = Inr (None, db)"
  using assms by (auto simp: finalize_def job_by_id_eq)

text \<open>
  C23: A lease is a fence: once a job has been claimed, a worker that presents another owner, or
  another token, or the right owner and token after the lease has expired, cannot extend the lease or
  terminalize the job; its calls write nothing.
\<close>

theorem claim_fences_other_tokens:
  assumes "jobs_inv db" and "claim ow ls now k p x tok db = Inr (Some lease, db')"
    and "ow' \<noteq> ow \<or> tok' \<noteq> tok \<or> jl_expires_at lease \<le> now'" and "0 < ls'" and "outcome_status oc \<noteq> None"
  shows "heartbeat (jl_id lease) ow' tok' ls' now' db' = Inr (False, db') \<and>
    finalize h (jl_id lease) ow' oc st md now' tok' fu c db' = Inr (None, db')"
proof -
  have keys': "distinct (map jb_id (db_jobs db'))"
    using assms(1,2) by (blast intro: jobs_keys job_step_inv js_claim)
  from assms(2) obtain m db1 row where row: "next_job now k p x db1 = Some row"
    and db': "db' = claimed_db ow tok (now + td_seconds ls) now row db1"
    and lease: "lease = lease_of ow tok (now + td_seconds ls) row"
    by (rule claim_Inr) (auto split: option.splits if_splits)
  let ?j = "claim_row ow tok (now + td_seconds ls) now row"
  have j: "?j \<in> set (db_jobs db')" "jb_id ?j = jl_id lease" "\<not> terminal_job ?j"
    using in_next_job [OF row]
    by (force simp: db' claimed_db_def in_update_where_iff claimable_def,
        simp_all add: lease lease_of_def claim_row_def terminal_job_def TERMINAL_JOB_STATUSES_def)
  have "\<not> finalizable (jl_id lease) ow' tok' now' ?j"
    using assms(3) by (auto simp: finalizable_def holds_lease_def claim_row_def expired_def lease lease_of_def)
  with j show ?thesis
    using heartbeat_fenced [OF keys' j(1)] finalize_fenced [OF keys' j(1,3)] assms(4,5) by simp
qed

lemma example_claim:
  "\<exists>db'. claim ''w1'' 60 5 None None None ''t1'' example_jobs_db =
     Inr (Some (lease_of ''w1'' ''t1'' 60000005
       (queued_job ''j1'' ''x1'' (Some ''a1'') ''attempt'' 0 [] 0)), db')"
  by (simp add: claim_def Let_def reclaim_expired_in_transaction_def reclaim_selected_def example_jobs_db_def
      reclaimable_def queued_job_def example_log_db_def next_job_def claimable_def rowcount_def
      lease_of_def td_seconds_def job_generation_def)

theorem claim_fences_other_tokens_witness:
  "\<exists>lease db'. claim ''w1'' 60 5 None None None ''t1'' example_jobs_db = Inr (Some lease, db') \<and>
     heartbeat (jl_id lease) ''w2'' ''t1'' 60 6 db' = Inr (False, db') \<and>
     finalize (\<lambda>_. ''d'') (jl_id lease) ''w2'' ''failed'' ''failed'' [] 6 ''t1'' None 6 db' = Inr (None, db')"
proof -
  obtain lease db' where c: "claim ''w1'' 60 5 None None None ''t1'' example_jobs_db = Inr (Some lease, db')"
    using example_claim by blast
  have "(''w2'' :: string) \<noteq> ''w1'' \<or> (''t1'' :: string) \<noteq> ''t1'' \<or> jl_expires_at lease \<le> 6"
    "(0 :: rat) < 60" "outcome_status ''failed'' \<noteq> None"
    by (simp_all add: outcome_status_def)
  from claim_fences_other_tokens [OF example_jobs_inv c this] c show ?thesis by blast
qed

section \<open>Claiming\<close>

lemma next_job_least:
  assumes "next_job now k p x db = Some row" and "j \<in> set (db_jobs db)" and "claimable now k p x db j"
  shows "(jb_created_at row, jb_id row) \<le> (jb_created_at j, jb_id j)"
proof -
  let ?key = "\<lambda>j. (jb_created_at j, jb_id j)"
  let ?rows = "sort_key ?key (filter (claimable now k p x db) (db_jobs db))"
  obtain rest where rows: "?rows = row # rest"
    using assms(1) by (auto simp: next_job_def first_def split: list.splits)
  have "sorted (map ?key ?rows)" by simp
  moreover have "j \<in> set ?rows" using assms(2,3) by simp
  ultimately show ?thesis
    unfolding rows by auto
qed

text \<open>
  A claim that returns a lease hands out the oldest claimable job of the database left by the
  reclaiming it starts with; the row of that job, and no other, becomes running under the owner and
  token of the lease, in its next generation, which is at most the fifth. A claim returns nothing
  exactly when no job is claimable.
\<close>

theorem claim_takes_oldest:
  assumes "jobs_inv db" and "claim ow ls now k p x tok db = Inr (r, db')"
  shows "\<exists>m db1. reclaim_expired_in_transaction now p x db = Inr (m, db1) \<and>
    (case r of
       None \<Rightarrow> db' = db1 \<and> (\<forall>j \<in> set (db_jobs db1). \<not> claimable now k p x db1 j)
     | Some lease \<Rightarrow> (\<exists>row \<in> set (db_jobs db1).
         claimable now k p x db1 row \<and>
         (\<forall>j \<in> set (db_jobs db1). claimable now k p x db1 j \<longrightarrow>
            (jb_created_at row, jb_id row) \<le> (jb_created_at j, jb_id j)) \<and>
         jl_id lease = jb_id row \<and> jl_attempt_count lease = job_generation row + 1 \<and>
         jl_attempt_count lease \<le> 5 \<and> jl_expires_at lease = now + td_seconds ls \<and>
         db_jobs db' = map (\<lambda>j. if j = row
            then claim_row ow tok (now + td_seconds ls) now row else j) (db_jobs db1)))"
proof -
  obtain m db1 where rec: "reclaim_expired_in_transaction now p x db = Inr (m, db1)"
    and rest: "case next_job now k p x db1 of
       None \<Rightarrow> r = None \<and> db' = db1
     | Some row \<Rightarrow> db' = claimed_db ow tok (now + td_seconds ls) now row db1 \<and>
         r = (if rowcount (\<lambda>j. jb_id j = jb_id row \<and> jb_status j = Job_queued) (db_jobs db1) = 1
              then Some (lease_of ow tok (now + td_seconds ls) row) else None)"
    using assms(2) by (rule claim_Inr)
  have inv1: "jobs_inv db1"
    using assms(1) reclaim_moves [OF jobs_keys [OF assms(1)] rec] by (blast intro: db_moves_inv)
  show ?thesis
  proof (cases "next_job now k p x db1")
    case None
    then have "\<forall>j \<in> set (db_jobs db1). \<not> claimable now k p x db1 j"
      by (auto simp: next_job_def filter_empty_conv dest!: arg_cong [where f = set])
    with None rest rec show ?thesis by auto
  next
    case (Some row)
    then have row: "row \<in> set (db_jobs db1)" "claimable now k p x db1 row"
      using in_next_job by blast+
    have only: "jb_id j = jb_id row \<and> jb_status j = Job_queued \<longleftrightarrow> j = row" if "j \<in> set (db_jobs db1)" for j
      using that row jobs_keys [OF inv1] by (auto simp: claimable_def dest: distinct_map_key_unique)
    have "filter (\<lambda>j. jb_id j = jb_id row \<and> jb_status j = Job_queued) (db_jobs db1)
        = filter (\<lambda>j. jb_id j = jb_id row) (db_jobs db1)"
      using only row jobs_keys [OF inv1] by (intro filter_cong) (auto dest: distinct_map_key_unique)
    then have "rowcount (\<lambda>j. jb_id j = jb_id row \<and> jb_status j = Job_queued) (db_jobs db1) = 1"
      using filter_key_unique [OF jobs_keys [OF inv1] row(1)] by (simp add: rowcount_def)
    moreover have "job_generation row < 5"
      using inv1 row by (auto simp: jobs_inv_def job_ok_def claimable_def MAX_LEASE_GENERATIONS_def)
    moreover have "db_jobs (claimed_db ow tok (now + td_seconds ls) now row db1) =
        map (\<lambda>j. if j = row then claim_row ow tok (now + td_seconds ls) now row else j) (db_jobs db1)"
      using only by (auto simp: claimed_db_def update_where_def)
    ultimately show ?thesis
      using rest rec Some row next_job_least [OF Some]
      by (auto simp: lease_of_def intro!: bexI [of _ row])
  qed
qed

theorem claim_takes_oldest_witness:
  "\<exists>m db1 r db'. claim ''w1'' 60 5 None None None ''t1'' example_jobs_db = Inr (r, db') \<and>
     reclaim_expired_in_transaction 5 None None example_jobs_db = Inr (m, db1) \<and>
     (\<exists>lease. r = Some lease \<and> jl_id lease = ''j1'' \<and> jl_attempt_count lease = 1)"
proof -
  obtain lease db' where c: "claim ''w1'' 60 5 None None None ''t1'' example_jobs_db = Inr (Some lease, db')"
      "jl_id lease = ''j1''" "jl_attempt_count lease = 1"
    using example_claim by (auto simp: lease_of_def job_generation_def queued_job_def)
  from claim_takes_oldest [OF example_jobs_inv c(1)] c show ?thesis by blast
qed

section \<open>Reclaiming\<close>

text \<open>The row a reclaimed job becomes.\<close>

definition reclaimed_row :: "datetime \<Rightarrow> job_row \<Rightarrow> job_row" where
  "reclaimed_row now j =
     (if MAX_LEASE_GENERATIONS \<le> job_generation j then release_lease Job_failed None j
      else release_lease Job_queued (Some (now + reclaim_backoff (job_generation j))) j)"

definition append_ready :: "arena_db \<Rightarrow> bool" where
  "append_ready db \<longleftrightarrow> db_keys db \<and> db_refs db \<and> events_inv db"

lemma append_event_total:
  assumes "append_ready db" and "a \<in> set (map at_id (db_attempts db))"
  shows "\<exists>n db'. append_attempt_event a ty p db = Inr (n, db') \<and> append_ready db'"
proof -
  obtain t where "t \<in> set (db_attempts db)" "at_id t = a"
    using assms(2) by auto
  then obtain x where x: "attempt_execution_ids db a = [x]"
    using assms(1) attempt_execution_ids_known unfolding append_ready_def by blast
  have ev: "events_inv db" using assms(1) by (simp add: append_ready_def)
  note eq = append_attempt_event_eq [OF ev x, of ty p]
  have "append_ready (with_event a x ty p db)"
    using assms(1) dm_event [OF eq] unfolding append_ready_def
    by (blast intro: db_move_keys db_move_refs db_move_events)
  with eq show ?thesis by blast
qed

lemma append_ready_moves: "db_move\<^sup>*\<^sup>* db db' \<Longrightarrow> append_ready db \<Longrightarrow> append_ready db'"
  by (induction rule: rtranclp_induct)
    (auto simp: append_ready_def intro: db_move_keys db_move_refs db_move_events)

lemma update_attempts_ready:
  assumes "append_ready db"
    and "\<And>t. at_id (g t) = at_id t \<and> at_episode_id (g t) = at_episode_id t \<and> at_ordinal (g t) = at_ordinal t"
  shows "append_ready (db\<lparr>db_attempts := update_where Q g (db_attempts db)\<rparr>)"
  by (rule append_ready_moves [OF r_into_rtranclp assms(1)]) (rule dm_attempts [OF assms(2)])

lemma update_attempt_event_total:
  assumes ready: "append_ready db" and a: "a \<in> set (map at_id (db_attempts db))"
    and g: "\<And>t. at_id (g t) = at_id t \<and> at_episode_id (g t) = at_episode_id t \<and> at_ordinal (g t) = at_ordinal t"
  shows "\<exists>n db'. append_attempt_event a ty p (db\<lparr>db_attempts := update_where Q g (db_attempts db)\<rparr>) = Inr (n, db') \<and>
     append_ready db' \<and> map at_id (db_attempts db') = map at_id (db_attempts db)"
proof -
  let ?db = "db\<lparr>db_attempts := update_where Q g (db_attempts db)\<rparr>"
  have ids: "map at_id (db_attempts ?db) = map at_id (db_attempts db)"
    using g by (simp add: map_key_update_where)
  obtain n db' where e: "append_attempt_event a ty p ?db = Inr (n, db')" "append_ready db'"
    using append_event_total [OF update_attempts_ready [OF ready g], of a Q ty p, unfolded ids] a by blast
  have "db_attempts db' = db_attempts ?db"
    using same_coreD(4) [OF log.append_core [OF e(1)]] .
  with ids have "map at_id (db_attempts db') = map at_id (db_attempts db)" by simp
  with e show ?thesis by blast
qed

lemma record_lease_total:
  assumes "append_ready db" and "\<And>a. jb_attempt_id job = Some a \<Longrightarrow> a \<in> set (map at_id (db_attempts db))"
    and "jb_lease_expires_at job \<noteq> None"
  shows "\<exists>db'. record_lease_generation_exhausted job now g db = Inr db'"
proof (cases "jb_attempt_id job")
  case None
  then show ?thesis by (simp add: record_lease_generation_exhausted_def)
next
  case (Some a)
  obtain e where e: "jb_lease_expires_at job = Some e"
    using assms(3) by blast
  have "\<exists>db'. bind_r (append_attempt_event a ty p (db\<lparr>db_attempts := update_where (\<lambda>t. at_id t = a)
        (\<lambda>t. t\<lparr>at_status := ''incomplete'', at_result_metadata := m\<rparr>) (db_attempts db)\<rparr>))
      (\<lambda>(_, db2). bind_r (append_attempt_event a ty' p' db2) (\<lambda>(_, db3). Inr db3)) = Inr db'"
    for ty p m ty' p'
  proof -
    obtain n db1 where s1: "append_attempt_event a ty p (db\<lparr>db_attempts := update_where (\<lambda>t. at_id t = a)
        (\<lambda>t. t\<lparr>at_status := ''incomplete'', at_result_metadata := m\<rparr>) (db_attempts db)\<rparr>) = Inr (n, db1)"
      and r1: "append_ready db1" and "map at_id (db_attempts db1) = map at_id (db_attempts db)"
      using update_attempt_event_total [OF assms(1) assms(2) [OF Some], of
          "\<lambda>t. t\<lparr>at_status := ''incomplete'', at_result_metadata := m\<rparr>" ty p "\<lambda>t. at_id t = a"]
      by auto
    then have "a \<in> set (map at_id (db_attempts db1))"
      using assms(2) [OF Some] by simp
    then obtain n2 db2 where "append_attempt_event a ty' p' db1 = Inr (n2, db2)"
      using append_event_total [OF r1] by blast
    with s1 show ?thesis by simp
  qed
  then show ?thesis
    by (simp add: record_lease_generation_exhausted_def Some e Let_def)
qed

lemma reclaimed_not_running: "jb_status (reclaimed_row now j) \<noteq> Job_running"
  by (simp add: reclaimed_row_def release_lease_def)

lemma reclaim_row_exact:
  assumes ready: "append_ready db" and row: "row \<in> set (db_jobs db)"
    and rec: "reclaimable (now - LEASE_RECLAIM_GRACE) row"
  shows "\<exists>xs' db'. reclaim_row now row (n, xs, db) = Inr (n + 1, xs', db') \<and> append_ready db' \<and>
    db_jobs db' = map (\<lambda>j. if j = row then reclaimed_row now j else j) (db_jobs db)"
proof -
  let ?cond = "\<lambda>j. jb_id j = jb_id row \<and> reclaimable (now - LEASE_RECLAIM_GRACE) j"
  have keys: "distinct (map jb_id (db_jobs db))"
    using ready by (simp add: append_ready_def db_keys_def)
  have only: "?cond j \<longleftrightarrow> j = row" if "j \<in> set (db_jobs db)" for j
    using that row rec keys by (auto dest: distinct_map_key_unique)
  then have "filter ?cond (db_jobs db) = filter (\<lambda>j. jb_id j = jb_id row) (db_jobs db)"
    using row rec keys by (intro filter_cong) (auto dest: distinct_map_key_unique)
  then have one: "rowcount ?cond (db_jobs db) = 1"
    using filter_key_unique [OF keys row] by (simp add: rowcount_def)
  have upd: "update_where ?cond f (db_jobs db) = map (\<lambda>j. if j = row then f j else j) (db_jobs db)" for f
    using only by (auto simp: update_where_def)
  have jobs: "append_ready (db\<lparr>db_jobs := update_where ?cond f (db_jobs db)\<rparr>)" if "row_move row (f row)" for f
    by (rule append_ready_moves [OF r_into_rtranclp ready], rule dm_jobs) (use only that in auto)
  show ?thesis
  proof (cases "MAX_LEASE_GENERATIONS \<le> job_generation row")
    case False
    then have "append_ready (db\<lparr>db_jobs := update_where ?cond
        (release_lease Job_queued (Some (now + reclaim_backoff (job_generation row)))) (db_jobs db)\<rparr>)"
      using rec by (intro jobs rm_requeue) (auto simp: reclaimable_def)
    with False one show ?thesis
      by (auto simp: reclaim_row_def Let_def upd reclaimed_row_def)
  next
    case True
    let ?db1 = "db\<lparr>db_jobs := update_where ?cond (release_lease Job_failed None) (db_jobs db)\<rparr>"
    have ready1: "append_ready ?db1"
      using True rec by (intro jobs rm_exhaust) (auto simp: reclaimable_def)
    moreover have "a \<in> set (map at_id (db_attempts ?db1))" if "jb_attempt_id row = Some a" for a
      using ready row that by (force simp: append_ready_def db_refs_def)
    moreover have "jb_lease_expires_at row \<noteq> None"
      using rec by (auto simp: reclaimable_def split: option.splits)
    ultimately obtain db2 where db2:
        "record_lease_generation_exhausted row now (job_generation row) ?db1 = Inr db2"
      using record_lease_total by blast
    then have "append_ready db2" "db_jobs db2 = db_jobs ?db1"
      using record_lease_moves append_ready_moves ready1 record_lease_jobs by blast+
    with True one db2 show ?thesis
      by (auto simp: reclaim_row_def Let_def upd reclaimed_row_def)
  qed
qed

lemma reclaim_rows_exact:
  assumes "distinct (map jb_id rows)" and "append_ready db" and "set rows \<subseteq> set (db_jobs db)"
    and "\<forall>r \<in> set rows. reclaimable (now - LEASE_RECLAIM_GRACE) r"
  shows "\<exists>xs' db'. for_each (reclaim_row now) rows (n, xs, db) = Inr (n + length rows, xs', db') \<and>
    append_ready db' \<and> db_jobs db' = map (\<lambda>j. if j \<in> set rows then reclaimed_row now j else j) (db_jobs db)"
  using assms
proof (induction rows arbitrary: n xs db)
  case Nil
  then show ?case by simp
next
  case (Cons row rows)
  obtain xs1 db1 where s1: "reclaim_row now row (n, xs, db) = Inr (n + 1, xs1, db1)"
    and r1: "append_ready db1"
    and j1: "db_jobs db1 = map (\<lambda>j. if j = row then reclaimed_row now j else j) (db_jobs db)"
    using reclaim_row_exact [OF Cons.prems(2), of row now n xs] Cons.prems(3,4) by auto
  have notin: "row \<notin> set rows"
    using Cons.prems(1) by auto
  have sub: "set rows \<subseteq> set (db_jobs db1)"
    using Cons.prems(3) notin by (auto simp: j1 image_iff intro!: bexI)
  obtain xs2 db2 where s2: "for_each (reclaim_row now) rows (n + 1, xs1, db1) = Inr (n + 1 + length rows, xs2, db2)"
    and r2: "append_ready db2"
    and j2: "db_jobs db2 = map (\<lambda>j. if j \<in> set rows then reclaimed_row now j else j) (db_jobs db1)"
    using Cons.IH [OF _ r1 sub, of "n + 1" xs1] Cons.prems(1,4) by auto
  have "reclaimed_row now row \<notin> set rows"
    using Cons.prems(4) reclaimed_not_running [of now row] by (auto simp: reclaimable_def)
  then have "db_jobs db2 = map (\<lambda>j. if j \<in> set (row # rows) then reclaimed_row now j else j) (db_jobs db)"
    using notin by (auto simp: j2 j1)
  with s1 s2 r2 show ?case by auto
qed

lemma reclaim_backoff_bounds: "seconds 2 \<le> reclaim_backoff g \<and> reclaim_backoff g \<le> seconds 8"
proof -
  have "(1 :: int) \<le> 2 ^ (g - 1)" by simp
  then show ?thesis by (simp add: reclaim_backoff_def min_def)
qed

text \<open>
  Reclaiming never fails and is exact. At time \<open>now\<close> it changes precisely the running jobs whose
  lease expired at least two seconds earlier, each once: a job in its fifth generation fails, any
  other is queued again, to be claimed not before a back-off of two to eight seconds. A job whose
  lease is live, or within the two seconds a supervisor needs to cancel its call, is not touched.
\<close>

theorem reclaim_expired_exact:
  assumes "jobs_inv db"
  shows "\<exists>db'. reclaim_expired now db
      = Inr (rowcount (reclaimable (now - LEASE_RECLAIM_GRACE)) (db_jobs db), db') \<and>
    db_jobs db' = map (\<lambda>j. if reclaimable (now - LEASE_RECLAIM_GRACE) j then reclaimed_row now j else j)
      (db_jobs db) \<and>
    (\<forall>j \<in> set (db_jobs db').
       reclaimable (now - LEASE_RECLAIM_GRACE) j = False \<and>
       (\<forall>i \<in> set (db_jobs db). jb_id i = jb_id j \<and> i \<noteq> j \<longrightarrow>
          (if job_generation i = 5 then jb_status j = Job_failed
           else jb_status j = Job_queued \<and>
             (\<exists>t. jb_available_at j = Some t \<and> now + seconds 2 \<le> t \<and> t \<le> now + seconds 8))))"
proof -
  let ?R = "reclaimable (now - LEASE_RECLAIM_GRACE)"
  let ?rows = "reclaim_selected now None None db"
  have ready: "append_ready db"
    using assms by (simp add: jobs_inv_def append_ready_def)
  note keys = jobs_keys [OF assms]
  have rows: "set ?rows = {j \<in> set (db_jobs db). ?R j}" "length ?rows = rowcount ?R (db_jobs db)"
    by (auto simp: reclaim_selected_def rowcount_def)
  have d: "distinct (map jb_id ?rows)"
    unfolding reclaim_selected_def using keys by (rule distinct_map_sort_filter)
  have sub: "set ?rows \<subseteq> set (db_jobs db)" and all: "\<forall>r \<in> set ?rows. ?R r"
    using rows(1) by auto
  obtain xs db1 where loop: "for_each (reclaim_row now) ?rows (0, [], db) = Inr (0 + length ?rows, xs, db1)"
    and j1: "db_jobs db1 = map (\<lambda>j. if j \<in> set ?rows then reclaimed_row now j else j) (db_jobs db)"
    using reclaim_rows_exact [OF d ready sub all, of 0 "[]"] by blast
  let ?db' = "fold (\<lambda>x. finalize_execution_if_terminal x now) (remdups xs) db1"
  have run: "reclaim_expired now db = Inr (rowcount ?R (db_jobs db), ?db')"
    using loop rows(2) by (simp add: reclaim_expired_def reclaim_expired_in_transaction_def)
  have jobs: "db_jobs ?db' = map (\<lambda>j. if ?R j then reclaimed_row now j else j) (db_jobs db)"
    using j1 rows(1) by auto
  have changed: "?R i \<and> j = reclaimed_row now i"
    if "i \<in> set (db_jobs db)" "j \<in> set (db_jobs ?db')" "jb_id i = jb_id j" "i \<noteq> j" for i j
  proof -
    from that(2) obtain i' where i': "i' \<in> set (db_jobs db)" "j = (if ?R i' then reclaimed_row now i' else i')"
      unfolding jobs by auto
    then have "jb_id i' = jb_id i"
      using that(3) by (auto simp: reclaimed_row_def release_lease_def split: if_splits)
    then have "i' = i"
      using i'(1) that(1) keys by (auto dest: distinct_map_key_unique)
    with i' that(4) show ?thesis by (auto split: if_splits)
  qed
  have "(if job_generation i = 5 then jb_status j = Job_failed
           else jb_status j = Job_queued \<and>
             (\<exists>t. jb_available_at j = Some t \<and> now + seconds 2 \<le> t \<and> t \<le> now + seconds 8))"
    if "i \<in> set (db_jobs db)" "j \<in> set (db_jobs ?db')" "jb_id i = jb_id j" "i \<noteq> j" for i j
  proof -
    have "job_generation i \<le> 5"
      using assms that(1) by (auto simp: jobs_inv_def job_ok_def MAX_LEASE_GENERATIONS_def)
    then show ?thesis
      using changed [OF that] reclaim_backoff_bounds [of "job_generation i"]
      by (auto simp: reclaimed_row_def release_lease_def MAX_LEASE_GENERATIONS_def)
  qed
  moreover have "\<not> ?R j" if "j \<in> set (db_jobs ?db')" for j
    using that reclaimed_not_running unfolding jobs by (auto simp: reclaimable_def)
  ultimately show ?thesis
    using run jobs by blast
qed

theorem reclaim_expired_exact_witness:
  "\<exists>db'. reclaim_expired (seconds 62) example_running_db = Inr (1, db') \<and>
     map jb_status (db_jobs db') = [Job_queued]"
proof -
  have "rowcount (reclaimable (seconds 62 - LEASE_RECLAIM_GRACE)) (db_jobs example_running_db) = 1"
    by (simp add: rowcount_def reclaimable_def example_running_db_def claim_row_def queued_job_def
        LEASE_RECLAIM_GRACE_def)
  with reclaim_expired_exact [OF example_running_inv, of "seconds 62"]
  obtain db' where "reclaim_expired (seconds 62) example_running_db = Inr (1, db')"
    "db_jobs db' = map (\<lambda>j. if reclaimable (seconds 62 - LEASE_RECLAIM_GRACE) j
       then reclaimed_row (seconds 62) j else j) (db_jobs example_running_db)"
    by auto
  then show ?thesis
    by (simp add: reclaimable_def example_running_db_def claim_row_def queued_job_def job_generation_def
        LEASE_RECLAIM_GRACE_def reclaimed_row_def release_lease_def MAX_LEASE_GENERATIONS_def)
qed

section \<open>Cancellation\<close>

definition cancel_pending :: "string \<Rightarrow> job_row list \<Rightarrow> bool" where
  "cancel_pending i js \<longleftrightarrow>
     (\<exists>j \<in> set js. jb_id j = i \<and> jb_cancel_requested_at j \<noteq> None \<and> jb_status j \<noteq> Job_completed)"

lemma row_move_cancel:
  "row_move j j' \<Longrightarrow> jb_cancel_requested_at j \<noteq> None \<Longrightarrow>
   jb_cancel_requested_at j' \<noteq> None \<and> jb_status j' \<noteq> Job_completed"
  by (induction rule: row_move.induct)
    (auto simp: claim_row_def release_lease_def finalize_row_def)

lemma db_move_cancel:
  assumes "db_move db db'" and "cancel_pending i (db_jobs db)"
  shows "cancel_pending i (db_jobs db')"
  using assms
proof (induction rule: db_move.induct)
  case (dm_jobs db P f)
  then obtain j where j: "j \<in> set (db_jobs db)" "jb_id j = i" "jb_cancel_requested_at j \<noteq> None"
      "jb_status j \<noteq> Job_completed"
    by (auto simp: cancel_pending_def)
  let ?j = "if P j then f j else j"
  have "?j \<in> set (update_where P f (db_jobs db))"
    using j(1) by (auto simp: update_where_def)
  moreover have "jb_id ?j = i \<and> jb_cancel_requested_at ?j \<noteq> None \<and> jb_status ?j \<noteq> Job_completed"
    using j dm_jobs(1) [OF j(1)] row_move_id [of j] row_move_cancel [of j] by auto
  ultimately show ?case
    unfolding cancel_pending_def by auto
next
  case (dm_event a ty pl db n db')
  then show ?case by (simp add: append_event_jobs)
qed (auto simp: cancel_pending_def insert_job_Inr_iff insert_attempt_Inr_iff)

lemma request_cancel_pending:
  assumes "request_cancel i now db = Inr (True, db')"
  shows "cancel_pending i (db_jobs db')"
proof -
  obtain row where row: "job_by_id db i = Some row" "\<not> terminal_job row"
    using assms by (auto simp: request_cancel_def split: option.splits if_splits)
  note in_row = job_by_id_Some [OF row(1)]
  show ?thesis
  proof (cases "jb_status row = Job_queued")
    case True
    let ?jobs = "update_where (\<lambda>j. jb_id j = i \<and> jb_status j = Job_queued)
      (\<lambda>j. j\<lparr>jb_status := Job_cancelled, jb_cancel_requested_at := Some now\<rparr>) (db_jobs db)"
    have "db_jobs db' = ?jobs"
      using assms row True
      by (auto simp: request_cancel_def Let_def bind_r_eq_Inr_iff dest!: append_event_jobs split: option.splits)
    moreover have "row\<lparr>jb_status := Job_cancelled, jb_cancel_requested_at := Some now\<rparr> \<in> set ?jobs"
      using in_row True by (auto simp: in_update_where_iff)
    ultimately show ?thesis
      unfolding cancel_pending_def using in_row
      by (intro bexI [of _ "row\<lparr>jb_status := Job_cancelled, jb_cancel_requested_at := Some now\<rparr>"]) simp_all
  next
    case False
    then have "jb_status row = Job_running"
      using row(2) by (cases "jb_status row") (auto simp: terminal_job_def TERMINAL_JOB_STATUSES_def)
    moreover from this have "row\<lparr>jb_cancel_requested_at := Some now\<rparr> \<in> set (db_jobs db')"
      using assms row in_row by (force simp: request_cancel_def Let_def in_update_where_iff)
    ultimately show ?thesis
      unfolding cancel_pending_def using in_row
      by (intro bexI [of _ "row\<lparr>jb_cancel_requested_at := Some now\<rparr>"]) simp_all
  qed
qed

text \<open>
  C22: Cancellation wins over completion: once \<open>request_cancel\<close> has returned true, the job is never
  completed afterwards, whatever any worker reports later; a worker that still holds the lease and
  finalizes it with any outcome is told \<open>cancelled\<close>.
\<close>

theorem cancel_wins:
  assumes "jobs_inv db" and "request_cancel i now db = Inr (True, db')" and "job_step\<^sup>*\<^sup>* db' db''"
  shows "\<exists>j. job_by_id db'' i = Some j \<and> jb_cancel_requested_at j \<noteq> None \<and> jb_status j \<noteq> Job_completed \<and>
    (\<forall>h ow oc st md now' tok fu c w db3.
       finalize h i ow oc st md now' tok fu c db'' = Inr (Some w, db3) \<and> \<not> terminal_job j
         \<longrightarrow> w = Job_cancelled)"
proof -
  have inv': "jobs_inv db'"
    using assms(1,2) by (blast intro: job_step_inv js_request_cancel)
  have "cancel_pending i (db_jobs db'')" "jobs_inv db''"
    using job_steps_moves [OF assms(3) inv'] request_cancel_pending [OF assms(2)]
    by (auto elim: rtranclp_induct intro: db_move_cancel)
  then obtain j where j: "j \<in> set (db_jobs db'')" "jb_id j = i" "jb_cancel_requested_at j \<noteq> None"
      "jb_status j \<noteq> Job_completed" and keys: "distinct (map jb_id (db_jobs db''))"
    by (auto simp: cancel_pending_def jobs_keys)
  have jid: "job_by_id db'' i = Some j"
    using job_by_id_eq [OF keys j(1)] j(2) by simp
  have "w = Job_cancelled"
    if "finalize h i ow oc st md now' tok fu c db'' = Inr (Some w, db3)" "\<not> terminal_job j"
    for h ow oc st md now' tok fu c w db3
    using keys that(1) by (cases rule: finalize_cases) (use jid that(2) j(3) in \<open>auto simp: terminal_winner_def\<close>)
  with jid j show ?thesis by blast
qed

lemma example_request_cancel:
  "\<exists>db'. request_cancel ''j1'' 5 example_running_db = Inr (True, db')"
  by (simp add: request_cancel_def job_by_id_def example_running_db_def claim_row_def queued_job_def
      terminal_job_def TERMINAL_JOB_STATUSES_def rowcount_def)

theorem cancel_wins_witness:
  "\<exists>db' j. request_cancel ''j1'' 5 example_running_db = Inr (True, db') \<and>
     job_by_id db' ''j1'' = Some j \<and> jb_cancel_requested_at j \<noteq> None \<and> jb_status j \<noteq> Job_completed"
proof -
  obtain db' where "request_cancel ''j1'' 5 example_running_db = Inr (True, db')"
    using example_request_cancel by blast
  with cancel_wins [OF example_running_inv this rtranclp.rtrancl_refl] show ?thesis by blast
qed

section \<open>Finishing executions\<close>

lemma record_outcome_executions:
  "record_attempt_outcome row w st md db = Inr db' \<Longrightarrow> db_executions db' = db_executions db"
  by (auto simp: record_attempt_outcome_def bind_r_eq_Inr_iff dest!: log.append_core same_coreD(2)
      split: option.splits)

lemma insert_followup_executions:
  "insert_followup h row fu now c db = Inr db' \<Longrightarrow> db_executions db' = db_executions db"
  by (drule insert_followup_cases) (auto simp: insert_job_Inr_iff)

lemma finalize_execution_row:
  assumes "\<forall>j \<in> set (db_jobs db). jb_execution_id j = x \<longrightarrow> terminal_job j"
    and "\<exists>j \<in> set (db_jobs db). jb_execution_id j = x"
    and "e \<in> set (db_executions (finalize_execution_if_terminal x now db))" and "ex_id e = x"
  shows "ex_completed_at e = Some now \<and>
    (ex_status e = Ex_completed \<longleftrightarrow>
       (\<forall>j \<in> set (db_jobs db). jb_execution_id j = x \<longrightarrow> jb_status j = Job_completed)) \<and>
    (ex_status e = Ex_cancelled \<longleftrightarrow>
       (\<forall>j \<in> set (db_jobs db). jb_execution_id j = x \<longrightarrow> jb_status j = Job_cancelled)) \<and>
    ex_status e \<in> {Ex_completed, Ex_cancelled, Ex_failed}"
proof -
  have "rowcount (\<lambda>j. jb_execution_id j = x \<and> \<not> terminal_job j) (db_jobs db) = 0"
    using assms(1) by (auto simp: rowcount_def filter_empty_conv)
  then have rows: "db_executions (finalize_execution_if_terminal x now db) =
      map (\<lambda>r. if ex_id r = x then r\<lparr>ex_status := terminal_execution_status (execution_statuses db x),
        ex_completed_at := Some now\<rparr> else r) (db_executions db)"
    by (simp add: finalize_execution_if_terminal_def update_where_def)
  obtain r where "e = (if ex_id r = x then r\<lparr>ex_status := terminal_execution_status (execution_statuses db x),
        ex_completed_at := Some now\<rparr> else r)"
    using assms(3) unfolding rows set_map by (rule imageE)
  with assms(4) have e: "ex_completed_at e = Some now \<and>
      ex_status e = terminal_execution_status (execution_statuses db x)"
    by (cases "ex_id r = x") auto
  have st: "set (execution_statuses db x) = {jb_status j |j. j \<in> set (db_jobs db) \<and> jb_execution_id j = x}"
    by (auto simp: execution_statuses_def)
  have one: "set (execution_statuses db x) = {s} \<longleftrightarrow>
      (\<forall>j \<in> set (db_jobs db). jb_execution_id j = x \<longrightarrow> jb_status j = s)" for s
    unfolding st using assms(2) by auto
  show ?thesis
    using e by (auto simp: terminal_execution_status_def one [symmetric])
qed

text \<open>
  When a worker terminalizes a job, the execution is finished in the same transaction exactly
  when this was its last open job: while a job of the execution is open the execution rows are
  unchanged; otherwise the execution is completed if all its jobs are, cancelled if all its jobs are,
  and failed in every other case.
\<close>

theorem finalize_finishes_execution:
  assumes "jobs_inv db" and "finalize h i ow oc st md now tok fu c db = Inr (Some w, db')"
    and "job_by_id db i = Some row" and "\<not> terminal_job row"
  shows "(\<exists>j \<in> set (db_jobs db'). jb_execution_id j = jb_execution_id row \<and> \<not> terminal_job j)
       \<and> db_executions db' = db_executions db
    \<or> (\<forall>j \<in> set (db_jobs db'). jb_execution_id j = jb_execution_id row \<longrightarrow> terminal_job j) \<and>
      (\<forall>e \<in> set (db_executions db'). ex_id e = jb_execution_id row \<longrightarrow>
         ex_completed_at e = Some now \<and>
         (ex_status e = Ex_completed \<longleftrightarrow> (\<forall>j \<in> set (db_jobs db').
            jb_execution_id j = jb_execution_id row \<longrightarrow> jb_status j = Job_completed)) \<and>
         (ex_status e = Ex_cancelled \<longleftrightarrow> (\<forall>j \<in> set (db_jobs db').
            jb_execution_id j = jb_execution_id row \<longrightarrow> jb_status j = Job_cancelled)) \<and>
         ex_status e \<in> {Ex_completed, Ex_cancelled, Ex_failed})"
  using jobs_keys [OF assms(1)] assms(2)
proof (cases rule: finalize_cases)
  case (won row' w' db2 db3)
  then have [simp]: "row' = row" using assms(3) by simp
  have jobs: "db_jobs db' = db_jobs db3"
    using won(7) by simp
  have "finalize_row (terminal_winner row w') now row \<in> set (db_jobs db3)"
    using finalized_row [OF jobs_keys [OF assms(1)] won(1,2)] record_outcome_jobs [OF won(5)]
      insert_followup_jobs [OF won(6)] by auto
  then have some: "\<exists>j \<in> set (db_jobs db3). jb_execution_id j = jb_execution_id row"
    by (rule bexI [rotated]) (simp add: finalize_row_def)
  show ?thesis
  proof (cases "\<forall>j \<in> set (db_jobs db3). jb_execution_id j = jb_execution_id row \<longrightarrow> terminal_job j")
    case True
    have "\<forall>e \<in> set (db_executions db'). ex_id e = jb_execution_id row \<longrightarrow>
         ex_completed_at e = Some now \<and>
         (ex_status e = Ex_completed \<longleftrightarrow> (\<forall>j \<in> set (db_jobs db3).
            jb_execution_id j = jb_execution_id row \<longrightarrow> jb_status j = Job_completed)) \<and>
         (ex_status e = Ex_cancelled \<longleftrightarrow> (\<forall>j \<in> set (db_jobs db3).
            jb_execution_id j = jb_execution_id row \<longrightarrow> jb_status j = Job_cancelled)) \<and>
         ex_status e \<in> {Ex_completed, Ex_cancelled, Ex_failed}"
      unfolding won(7) \<open>row' = row\<close>
      by (intro ballI impI) (rule finalize_execution_row [OF True some])
    with True show ?thesis unfolding jobs by blast
  next
    case False
    then have "rowcount (\<lambda>j. jb_execution_id j = jb_execution_id row \<and> \<not> terminal_job j) (db_jobs db3) \<noteq> 0"
      by (auto simp: rowcount_def filter_empty_conv)
    then have "db_executions db' = db_executions db"
      using won(7) record_outcome_executions [OF won(5)] insert_followup_executions [OF won(6)]
      by (simp add: finalize_execution_if_terminal_def finalized_db_def)
    with False show ?thesis unfolding jobs by blast
  qed
qed (use assms(3,4) in auto)

theorem finalize_finishes_execution_witness:
  "\<exists>db'. finalize (\<lambda>_. ''d'') ''j1'' ''w1'' ''completed'' ''completed'' [] 5 ''t1'' None 5 example_running_db
       = Inr (Some Job_completed, db') \<and>
     ((\<exists>j \<in> set (db_jobs db'). jb_execution_id j = ''x1'' \<and> \<not> terminal_job j) \<and>
        db_executions db' = db_executions example_running_db \<or>
      (\<forall>j \<in> set (db_jobs db'). jb_execution_id j = ''x1'' \<longrightarrow> terminal_job j))"
proof -
  obtain db' where f: "finalize (\<lambda>_. ''d'') ''j1'' ''w1'' ''completed'' ''completed'' [] 5 ''t1'' None 5
      example_running_db = Inr (Some Job_completed, db')"
    using example_finalize by blast
  obtain row where row: "job_by_id example_running_db ''j1'' = Some row" "\<not> terminal_job row"
      "jb_execution_id row = ''x1''"
    by (simp add: job_by_id_def example_running_db_def claim_row_def queued_job_def terminal_job_def
        TERMINAL_JOB_STATUSES_def)
  from finalize_finishes_execution [OF example_running_inv f row(1,2)] f row(3) show ?thesis by auto
qed

end
