(* ===== verification/Job_Retry.thy ===== *)
theory Job_Retry
  imports Job_Invariants
begin

text \<open>
  Retrying a failed attempt (\<open>JobLeaseRepository.retry\<close>): what a successful retry writes, that it
  stays within the declared attempt budget, and that it succeeds whenever its guards hold.
\<close>

section \<open>The next ordinal\<close>

lemma foldr_max_ge: "x \<in> set xs \<Longrightarrow> x \<le> foldr max xs (m :: int)"
  by (induction xs) (auto simp: max_def)

lemma foldr_max_init: "m \<le> foldr max xs (m :: int)"
  by (induction xs) (auto simp: max_def)

lemma next_ordinal_fresh:
  assumes "t \<in> set (db_attempts db)" and "at_episode_id t = e"
  shows "at_ordinal t < next_ordinal db e"
proof -
  have "int (at_ordinal t) \<le> foldr max (map (int \<circ> at_ordinal)
      (filter (\<lambda>t. at_episode_id t = e) (db_attempts db))) (-1)"
    using assms by (intro foldr_max_ge) auto
  then show ?thesis by (simp add: next_ordinal_def)
qed

lemma rowcount_snoc: "rowcount P (xs @ [x]) = rowcount P xs + (if P x then 1 else 0)"
  by (simp add: rowcount_def)

text \<open>
  C24: A retry happens only for a failed, timed-out or incomplete attempt with a transient
  classification; it never touches an existing attempt or job: it adds one queued attempt with an
  ordinal above all earlier ones of the episode, and one queued job for it, and the episode has then
  at most as many attempts as the budget of its persisted input declares. The payload of the new job
  holds a newly bound input, whose digests and execution controls are verified and whose envelope
  passes the lifecycle checks; the new attempt carries the same envelope, and where the envelope
  parses back to what was dumped it is that of the failed attempt with the new identifier, ordinal,
  request hash and queueing time and without its terminal fields.
\<close>

theorem retry_bounded_and_immutable:
  assumes "retry k i now a ni c db = Inr (r, db')"
  shows "\<exists>job old original new.
    job_by_id db i = Some job \<and> jb_attempt_id job = Some (at_id old) \<and> old \<in> set (db_attempts db) \<and>
    at_status old \<in> {''failed'', ''timed_out'', ''incomplete''} \<and> retry_permitted job old \<and>
    read_attempt_input k (jb_payload job) = Inr original \<and>
    db_attempts db' = db_attempts db @ [new] \<and>
    at_id new = a \<and> at_status new = ''queued'' \<and> at_episode_id new = at_episode_id old \<and>
    (\<forall>t \<in> set (db_attempts db). at_episode_id t = at_episode_id old \<longrightarrow> at_ordinal t < at_ordinal new) \<and>
    rowcount (\<lambda>t. at_episode_id t = at_episode_id old) (db_attempts db')
      \<le> bs_max_attempts (av_budget (ai_attempt original)) \<and>
    (\<exists>j rebound. db_jobs db' = db_jobs db @ [j] \<and> jb_id j = ni \<and> jb_attempt_id j = Some a \<and>
       jb_status j = Job_queued \<and> job_generation j = 0 \<and>
       jb_payload j = dict_set ''attempt_input'' (attempt_input_dump rebound) (jb_payload job) \<and>
       dict_get (at_request_metadata new) ''envelope'' = Some (envelope_dump (ai_attempt rebound)) \<and>
       verify_binding k rebound = Inr rebound \<and> validate_control_budget_binding k rebound = Inr rebound \<and>
       validate_lifecycle (ai_attempt rebound) = Inr (ai_attempt rebound) \<and>
       (let envelope = retry_envelope k (ai_attempt original) old a (at_ordinal new) now in
          codec_round_trips k (ai_scenario original) envelope \<longrightarrow>
          ai_attempt rebound = envelope \<and> ai_scenario rebound = ai_scenario original)) \<and>
    db_attempt_events db' = db_attempt_events db"
proof -
  from assms obtain job old original rebound db1 db2 where r:
    "job_by_id db i = Some job" "jb_attempt_id job = Some (at_id old)" "old \<in> set (db_attempts db)"
    "at_status old \<in> set NON_SUCCESS_ATTEMPT_STATUSES" "retry_permitted job old"
    "read_attempt_input k (jb_payload job) = Inr original"
    "rowcount (\<lambda>t. at_episode_id t = at_episode_id old) (db_attempts db)
       < bs_max_attempts (av_budget (ai_attempt original))"
    "bind_input k (ai_scenario original) (retry_envelope k (ai_attempt original) old a
       (next_ordinal db (at_episode_id old)) now) None = Inr rebound"
    "insert_attempt (retry_attempt old a (next_ordinal db (at_episode_id old)) rebound) db = Inr db1"
    "insert_job (queued_job ni (jb_execution_id job) (Some a) ''attempt'' now
       (dict_set ''attempt_input'' (attempt_input_dump rebound) (jb_payload job)) c) db1 = Inr db2"
    "db' = db2\<lparr>db_executions := update_where (\<lambda>x. ex_id x = jb_execution_id job)
       (\<lambda>x. x\<lparr>ex_status := Ex_queued, ex_completed_at := None\<rparr>) (db_executions db2)\<rparr>"
    by (rule retry_Inr)
  let ?new = "retry_attempt old a (next_ordinal db (at_episode_id old)) rebound"
  let ?j = "queued_job ni (jb_execution_id job) (Some a) ''attempt'' now
    (dict_set ''attempt_input'' (attempt_input_dump rebound) (jb_payload job)) c"
  from r(9-11) have tables: "db_attempts db' = db_attempts db @ [?new]"
      "db_attempt_events db' = db_attempt_events db" "db_jobs db' = db_jobs db @ [?j]"
    by (auto simp: insert_attempt_Inr_iff insert_job_Inr_iff)
  have new: "at_id ?new = a" "at_status ?new = ''queued''" "at_episode_id ?new = at_episode_id old"
      "at_ordinal ?new = next_ordinal db (at_episode_id old)"
      "dict_get (at_request_metadata ?new) ''envelope'' = Some (envelope_dump (ai_attempt rebound))"
    by (simp_all add: retry_attempt_def dict_get_set)
  have job: "jb_id ?j = ni" "jb_attempt_id ?j = Some a" "jb_status ?j = Job_queued" "job_generation ?j = 0"
      "jb_payload ?j = dict_set ''attempt_input'' (attempt_input_dump rebound) (jb_payload job)"
    by (simp_all add: queued_job_def job_generation_def)
  have count: "rowcount (\<lambda>t. at_episode_id t = at_episode_id old) (db_attempts db')
      \<le> bs_max_attempts (av_budget (ai_attempt original))"
    using r(7) by (simp add: tables(1) rowcount_snoc new)
  have "at_status old \<in> {''failed'', ''timed_out'', ''incomplete''}"
    using r(4) by (simp add: NON_SUCCESS_ATTEMPT_STATUSES_def)
  then show ?thesis
    using r(1-3,5,6) tables new job count next_ordinal_fresh bind_input_facts [OF r(8)]
    by (intro exI [of _ job] exI [of _ old] exI [of _ original] exI [of _ ?new] exI [of _ ?j]
        exI [of _ rebound] conjI) (simp_all add: Let_def)
qed

section \<open>Retries succeed\<close>

lemma retry_envelope_lifecycle:
  assumes "validate_lifecycle e = Inr e"
  shows "validate_lifecycle (retry_envelope k e old a n now) = Inr (retry_envelope k e old a n now)"
  using assms
  by (auto simp: validate_lifecycle_def retry_envelope_def terminal_envelope_def bind_r_eq_Inr_iff)

lemma read_attempt_input_valid:
  assumes "read_attempt_input k p = Inr i"
  shows "validate_lifecycle (ai_attempt i) = Inr (ai_attempt i)"
    and "validate_control_budget_binding k i = Inr i"
proof -
  obtain raw where "validate_attempt_input k (JObj raw) = Inr i"
    using assms by (auto simp: read_attempt_input_def split: option.splits json.splits sum.splits py_error.splits)
  then show "validate_lifecycle (ai_attempt i) = Inr (ai_attempt i)"
      "validate_control_budget_binding k i = Inr i"
    by (auto simp: validate_attempt_input_def check_input_Inr_iff bind_r_eq_Inr_iff dest: validate_lifecycle_Inr)
qed

lemma retry_total:
  assumes inv: "jobs_inv db" and job: "job_by_id db i = Some job" "jb_kind job = ''attempt''"
      "jb_attempt_id job = Some (at_id old)"
    and old: "old \<in> set (db_attempts db)" "at_status old \<in> set NON_SUCCESS_ATTEMPT_STATUSES"
      "retry_permitted job old"
    and original: "read_attempt_input k (jb_payload job) = Inr original"
      "av_attempt_id (ai_attempt original) = at_id old"
      "av_episode_id (ai_attempt original) = at_episode_id old"
      "rowcount (\<lambda>t. at_episode_id t = at_episode_id old) (db_attempts db)
        < bs_max_attempts (av_budget (ai_attempt original))"
    and codec: "codec_round_trips k (ai_scenario original)
      (retry_envelope k (ai_attempt original) old a (next_ordinal db (at_episode_id old)) now)"
    and fresh: "a \<notin> set (map at_id (db_attempts db))" "ni \<notin> set (map jb_id (db_jobs db))"
  shows "\<exists>db'. retry k i now a ni c db = Inr ((a, ni), db')"
proof -
  have keys: "distinct (map at_id (db_attempts db))"
    using inv by (simp add: jobs_inv_def db_keys_def)
  note refs = inv [unfolded jobs_inv_def db_refs_def]
  let ?ord = "next_ordinal db (at_episode_id old)"
  obtain rebound where rebound: "bind_input k (ai_scenario original)
      (retry_envelope k (ai_attempt original) old a ?ord now) None = Inr rebound"
    using bind_input_eq [OF codec retry_envelope_lifecycle [OF read_attempt_input_valid(1) [OF original(1)]]
        read_attempt_input_valid(2) [OF original(1)]]
    by (auto simp: retry_envelope_def)
  let ?new = "retry_attempt old a ?ord rebound"
  obtain db1 where db1: "insert_attempt ?new db = Inr db1" "db1 = db\<lparr>db_attempts := db_attempts db @ [?new]\<rparr>"
    using fresh(1) refs old(1) next_ordinal_fresh [of _ db "at_episode_id old"]
    by (force simp: insert_attempt_Inr_iff retry_attempt_def)
  let ?job = "queued_job ni (jb_execution_id job) (Some a) ''attempt'' now
    (dict_set ''attempt_input'' (attempt_input_dump rebound) (jb_payload job)) c"
  have "jb_id r \<noteq> ni \<and> jb_attempt_id r \<noteq> Some a" if "r \<in> set (db_jobs db)" for r
    using that fresh refs by (metis image_eqI set_map)
  then obtain db2 where db2: "insert_job ?job db1 = Inr db2"
    using refs job_by_id_Some [OF job(1)] by (auto simp: insert_job_Inr_iff db1(2) queued_job_def retry_attempt_def)
  have only: "filter (\<lambda>t. at_id t = at_id old) (db_attempts db) = [old]"
    using keys old(1) by (rule filter_key_unique)
  show ?thesis
    unfolding retry_def using job old(2,3) original rebound db1(1) db2 only
    by (simp add: retry_attempt_def [symmetric] Let_def)
qed

section \<open>Example\<close>

definition example_envelope :: attempt_envelope where
  "example_envelope =
     \<lparr>av_attempt_id = ''a1'', av_episode_id = ''e1'', av_ordinal = 1, av_provider_model = ''m'',
      av_provider = ''p'', av_endpoint_id = None, av_pinned_endpoint_digest = None,
      av_observed_provider_version = None, av_observed_endpoint_digest = None, av_harness_id = ''h1'',
      av_factor_assignments = [],
      av_budget = \<lparr>bs_max_attempts = 3, bs_max_cost_usd = 1, bs_max_latency_seconds = 1,
        bs_max_tokens = 10, bs_max_tool_calls = 1, bs_max_context_tokens = 10\<rparr>,
      av_provenance = [], av_request_hash = ''d'', av_response_hash = None, av_status = Env_queued,
      av_queued_at = 0, av_started_at = None, av_completed_at = None\<rparr>"

definition example_scenario :: scenario_spec where
  "example_scenario = \<lparr>sc_scenario_id = ''s1'', sc_variant = ''clean'', sc_pair_id = None, sc_cluster_id = None,
     sc_extensions = [], sc_dump = []\<rparr>"

definition example_input :: attempt_input where
  "example_input = \<lparr>ai_scenario = example_scenario, ai_attempt = example_envelope,
     ai_scenario_digest = ''d'', ai_binding_digest = ''d''\<rparr>"

text \<open>A model library for this example: every document parses to the example's models.\<close>

definition example_codec :: codec where
  "example_codec =
     \<lparr>sha256 = (\<lambda>_. ''d''), parse_scenario = (\<lambda>_. Inr example_scenario),
      parse_envelope = (\<lambda>_. Inr (example_envelope\<lparr>av_attempt_id := ''a3'', av_ordinal := 3,
        av_request_hash := ''d'', av_queued_at := 9\<rparr>)),
      parse_attempt_input = (\<lambda>_. Inr example_input),
      parse_controls = (\<lambda>_. Inl (ValueError ''controls''))\<rparr>"

definition example_failed_db :: arena_db where
  "example_failed_db = example_log_db\<lparr>
     db_attempts := map (\<lambda>t. t\<lparr>at_status := ''failed'',
       at_result_metadata := [(''failure_classification'', JStr ''transient'')]\<rparr>) (db_attempts example_log_db),
     db_jobs := [(queued_job ''j1'' ''x1'' (Some ''a1'') ''attempt'' 0 [(''attempt_input'', JObj [])] 0)
       \<lparr>jb_status := Job_failed\<rparr>]\<rparr>"

lemma example_failed_inv: "jobs_inv example_failed_db"
  by (simp add: jobs_inv_def example_failed_db_def events_inv_def attempt_events_of_def job_ok_def
      execution_events_of_def db_keys_def db_refs_def example_log_db_def queued_job_def lease_free_def
      job_generation_def)

lemmas example_retry_defs = example_failed_db_def example_log_db_def queued_job_def job_by_id_def
  retry_permitted_def dict_get_def NON_SUCCESS_ATTEMPT_STATUSES_def RETRYABLE_FAILURE_CLASSIFICATIONS_def
  DECLARED_TRANSIENT_ADAPTER_CLASSIFICATIONS_def read_attempt_input_def validate_attempt_input_def check_input_def validate_control_budget_binding_def execution_controls_for_def
  compatibility_def new_controls_def
  example_codec_def example_input_def example_envelope_def example_scenario_def validate_lifecycle_def
  terminal_envelope_def verify_binding_def rowcount_def codec_round_trips_def retry_envelope_def
  next_ordinal_def

definition example_failed_attempt :: attempt_row where
  "example_failed_attempt = \<lparr>at_id = ''a1'', at_episode_id = ''e1'', at_ordinal = 0, at_status = ''failed'',
     at_request_metadata = [], at_result_metadata = [(''failure_classification'', JStr ''transient'')]\<rparr>"

text \<open>
  A retry is never refused for another reason than its documented guards: when the job is a
  transient failure of a non-success attempt, its persisted input is valid and binds that attempt, the
  budget is not used up, the drawn identifiers are fresh and the model library parses back what it
  dumps, the retry succeeds. In particular the envelope rebuilt for the retry always passes its own
  validation.
\<close>

theorem retry_succeeds:
  assumes inv: "jobs_inv db" and job: "job_by_id db i = Some job" "jb_kind job = ''attempt''"
      "jb_attempt_id job = Some (at_id old)"
    and old: "old \<in> set (db_attempts db)" "at_status old \<in> set NON_SUCCESS_ATTEMPT_STATUSES"
      "retry_permitted job old"
    and original: "read_attempt_input k (jb_payload job) = Inr original"
      "av_attempt_id (ai_attempt original) = at_id old"
      "av_episode_id (ai_attempt original) = at_episode_id old"
      "rowcount (\<lambda>t. at_episode_id t = at_episode_id old) (db_attempts db)
        < bs_max_attempts (av_budget (ai_attempt original))"
    and codec: "codec_round_trips k (ai_scenario original)
      (retry_envelope k (ai_attempt original) old a (next_ordinal db (at_episode_id old)) now)"
    and fresh: "a \<notin> set (map at_id (db_attempts db))" "ni \<notin> set (map jb_id (db_jobs db))"
  shows "\<exists>db'. retry k i now a ni c db = Inr ((a, ni), db')"
  using assms by (rule retry_total)

theorem retry_succeeds_witness:
  "\<exists>db'. retry example_codec ''j1'' 9 ''a3'' ''j3'' 9 example_failed_db = Inr ((''a3'', ''j3''), db')"
  by (rule retry_succeeds [OF example_failed_inv, where old = example_failed_attempt and original = example_input
        and job = "(queued_job ''j1'' ''x1'' (Some ''a1'') ''attempt'' 0 [(''attempt_input'', JObj [])] 0)
          \<lparr>jb_status := Job_failed\<rparr>"])
    (simp_all add: example_retry_defs example_failed_attempt_def)

lemma example_retry:
  "\<exists>db'. retry example_codec ''j1'' 9 ''a3'' ''j3'' 9 example_failed_db = Inr ((''a3'', ''j3''), db')"
  by (rule retry_total [OF example_failed_inv, where old = example_failed_attempt and original = example_input
        and job = "(queued_job ''j1'' ''x1'' (Some ''a1'') ''attempt'' 0 [(''attempt_input'', JObj [])] 0)
          \<lparr>jb_status := Job_failed\<rparr>"])
    (simp_all add: example_retry_defs example_failed_attempt_def)

theorem retry_bounded_and_immutable_witness:
  "\<exists>db' new. retry example_codec ''j1'' 9 ''a3'' ''j3'' 9 example_failed_db = Inr ((''a3'', ''j3''), db') \<and>
     db_attempts db' = db_attempts example_failed_db @ [new] \<and> at_status new = ''queued''"
proof -
  obtain db' where r: "retry example_codec ''j1'' 9 ''a3'' ''j3'' 9 example_failed_db = Inr ((''a3'', ''j3''), db')"
    using example_retry by blast
  from retry_bounded_and_immutable [OF r] r show ?thesis by blast
qed

end
