(* ===== verification/Invocations.thy ===== *)
theory Invocations
  imports Job_Retry
begin

text \<open>
  Generation fences for external invocations (\<open>src/backend/execution_v1/invocations.py\<close>): the class
  \<open>InvocationRepository\<close>, one definition per method.

  An \<open>InvocationRecord\<close> is the row as it was read; the operations use its identifier and its fence
  token only. The digest function \<open>sha256\<close> of canonical JSON is the argument \<open>h\<close>; fresh identifiers
  and nonces are arguments too. Advisory locks serialize transactions and have no effect on the state;
  their key is \<open>advisory_lock_key\<close>. A public operation returns its value or exception together with
  the committed database, because \<open>observe_provider_request\<close> raises after it has committed.
\<close>

section \<open>Helpers\<close>

fun CANCEL_RANK :: "cancellation_state \<Rightarrow> nat" where
  "CANCEL_RANK Can_not_requested = 0"
| "CANCEL_RANK Can_requested = 1"
| "CANCEL_RANK Can_dispatched = 2"
| "CANCEL_RANK Can_acknowledged = 3"
| "CANCEL_RANK Can_unsupported = 3"
| "CANCEL_RANK Can_unknown = 3"

definition legacy_provider_request_namespace :: "(json \<Rightarrow> string) \<Rightarrow> string \<Rightarrow> string" where
  "legacy_provider_request_namespace h provider =
     h (JObj [(''provider'', JStr provider),
              (''provider_request_namespace'', JStr ''legacy-provider-only-v1'')])"

definition provider_request_namespace :: "(json \<Rightarrow> string) \<Rightarrow> string \<Rightarrow> string option \<Rightarrow> string" where
  "provider_request_namespace h provider pinned_endpoint_digest =
     (case pinned_endpoint_digest of
        None \<Rightarrow> legacy_provider_request_namespace h provider
      | Some d \<Rightarrow> h (JObj [(''endpoint_digest'', JStr d), (''provider'', JStr provider),
                           (''provider_request_namespace'', JStr ''pinned-endpoint-v1'')]))"

definition advisory_lock_key :: "(json \<Rightarrow> string) \<Rightarrow> string \<Rightarrow> json \<Rightarrow> int" where
  "advisory_lock_key h domain_name identity =
     (let unsigned = int_of_hex (take 16 (h (JObj
            [(''advisory_lock_domain'', JStr domain_name), (''identity'', identity)])))
      in if unsigned \<ge> 2 ^ 63 then unsigned - 2 ^ 64 else unsigned)"

section \<open>Reading\<close>

definition get_invocation :: "arena_db \<Rightarrow> string \<Rightarrow> invocation_row result" where
  "get_invocation db invocation_id =
     (case first (filter (\<lambda>r. iv_id r = invocation_id) (db_invocations db)) of
        None \<Rightarrow> Inl (KeyError invocation_id)
      | Some row \<Rightarrow> Inr row)"

definition current_for_attempt :: "arena_db \<Rightarrow> string \<Rightarrow> invocation_row option" where
  "current_for_attempt db attempt_id =
     first (rev (sort_key iv_generation
       (filter (\<lambda>r. iv_attempt_id r = attempt_id \<and> iv_admission_state r = Adm_current) (db_invocations db))))"

definition list_for_attempt :: "arena_db \<Rightarrow> string \<Rightarrow> invocation_row list" where
  "list_for_attempt db attempt_id =
     sort_key iv_generation (filter (\<lambda>r. iv_attempt_id r = attempt_id) (db_invocations db))"

definition locked :: "arena_db \<Rightarrow> invocation_row \<Rightarrow> bool \<Rightarrow> invocation_row result" where
  "locked db invocation require_current =
     (case first (filter (\<lambda>r. iv_id r = iv_id invocation \<and> iv_fence_token r = iv_fence_token invocation)
             (db_invocations db)) of
        None \<Rightarrow> Inl (ValueError ''invocation fence token does not match durable state'')
      | Some row \<Rightarrow>
          if require_current \<and> iv_admission_state row \<noteq> Adm_current
          then Inl (ValueError ''invocation is no longer the current generation'')
          else Inr row)"

text \<open>Reading the row back after the transaction has ended.\<close>

definition then_get :: "string \<Rightarrow> unit result \<times> arena_db \<Rightarrow> invocation_row result \<times> arena_db" where
  "then_get invocation_id outcome =
     (case outcome of (Inl e, db) \<Rightarrow> (Inl e, db) | (Inr _, db) \<Rightarrow> (get_invocation db invocation_id, db))"

definition update_invocation ::
  "string \<Rightarrow> (invocation_row \<Rightarrow> invocation_row) \<Rightarrow> arena_db \<Rightarrow> arena_db" where
  "update_invocation invocation_id f db =
     db\<lparr>db_invocations := update_where (\<lambda>r. iv_id r = invocation_id) f (db_invocations db)\<rparr>"

section \<open>Beginning a generation\<close>

definition insert_invocation :: "invocation_row \<Rightarrow> arena_db \<Rightarrow> arena_db result" where
  "insert_invocation row db =
     (if list_ex (\<lambda>r. iv_id r = iv_id row \<or> iv_fence_token r = iv_fence_token row \<or>
           iv_attempt_id r = iv_attempt_id row \<and> iv_generation r = iv_generation row) (db_invocations db)
         \<or> iv_generation row = 0 \<or> length (iv_fence_token row) \<noteq> 64
         \<or> length (iv_provider_request_namespace row) \<noteq> 64
      then Inl (IntegrityError ''invocation_records'')
      else if \<not> list_ex (\<lambda>x. ex_id x = iv_execution_id row) (db_executions db)
         \<or> \<not> list_ex (\<lambda>t. at_id t = iv_attempt_id row) (db_attempts db)
         \<or> \<not> list_ex (\<lambda>j. jb_id j = iv_job_id row) (db_jobs db)
      then Inl (IntegrityError ''invocation_records foreign key'')
      else Inr (db\<lparr>db_invocations := db_invocations db @ [row]\<rparr>))"

definition retire_side_effect :: "side_effect_state \<Rightarrow> side_effect_state" where
  "retire_side_effect s = (if s = Eff_not_started then Eff_not_started else Eff_ambiguous)"

definition retire_prior :: "string \<Rightarrow> datetime \<Rightarrow> invocation_row list \<Rightarrow> invocation_row list" where
  "retire_prior attempt_id observed_at rows =
     update_where (\<lambda>r. iv_attempt_id r = attempt_id \<and> iv_admission_state r = Adm_current)
       (\<lambda>r. r\<lparr>iv_admission_state := Adm_stale,
               iv_side_effect_state := retire_side_effect (iv_side_effect_state r),
               iv_updated_at := observed_at\<rparr>) rows"

definition lease_is_live :: "arena_db \<Rightarrow> job_lease \<Rightarrow> datetime \<Rightarrow> nat \<Rightarrow> bool" where
  "lease_is_live db lease observed_at generation =
     (case job_by_id db (jl_id lease) of
        None \<Rightarrow> False
      | Some job \<Rightarrow>
          jb_status job = Job_running \<and> jb_lease_owner job = Some (jl_owner lease) \<and>
          jb_lease_token job = Some (jl_token lease) \<and> \<not> expired (jb_lease_expires_at job) observed_at \<and>
          job_generation job = generation)"

definition new_invocation_row ::
  "(json \<Rightarrow> string) \<Rightarrow> job_lease \<Rightarrow> string \<Rightarrow> attempt_envelope \<Rightarrow> datetime option \<Rightarrow> datetime \<Rightarrow> string \<Rightarrow> string
    \<Rightarrow> invocation_row" where
  "new_invocation_row h lease attempt_id attempt deadline observed_at invocation_id nonce =
     \<lparr>iv_id = invocation_id, iv_execution_id = jl_execution_id lease, iv_attempt_id = attempt_id,
      iv_job_id = jl_id lease, iv_generation = jl_attempt_count lease,
      iv_fence_token = h (JObj [(''invocation_id'', JStr invocation_id), (''job_id'', JStr (jl_id lease)),
        (''attempt_id'', JStr attempt_id), (''generation'', JInt (int (jl_attempt_count lease))),
        (''owner'', JStr (jl_owner lease)), (''nonce'', JStr nonce)]),
      iv_provider = av_provider attempt, iv_provider_model = av_provider_model attempt,
      iv_provider_idempotency_key = h (JObj [(''attempt_id'', JStr attempt_id),
        (''request_hash'', JStr (av_request_hash attempt)), (''provider'', JStr (av_provider attempt)),
        (''provider_model'', JStr (av_provider_model attempt)),
        (''endpoint_digest'', opt_json JStr (av_pinned_endpoint_digest attempt))]),
      iv_provider_request_namespace =
        provider_request_namespace h (av_provider attempt) (av_pinned_endpoint_digest attempt),
      iv_provider_request_id = None, iv_lease_owner = jl_owner lease, iv_lease_acquired_at = observed_at,
      iv_lease_expires_at = jl_expires_at lease, iv_dispatch_started_at = None,
      iv_aggregate_deadline_at = deadline, iv_transport_context_state = Ctx_unknown,
      iv_cancellation_state = Can_not_requested, iv_side_effect_state = Eff_not_started,
      iv_usage_state = Use_not_observed, iv_admission_state = Adm_current,
      iv_provider_result_digest = None, iv_terminal_outcome = None, iv_created_at = observed_at,
      iv_updated_at = observed_at, iv_terminal_at = None\<rparr>"

definition begin_body ::
  "(json \<Rightarrow> string) \<Rightarrow> job_lease \<Rightarrow> string \<Rightarrow> attempt_envelope \<Rightarrow> datetime option \<Rightarrow> datetime \<Rightarrow> string \<Rightarrow> string
    \<Rightarrow> invocation_row option tx" where
  "begin_body h lease attempt_id attempt deadline observed_at invocation_id nonce db =
     bind_r (raise_if (\<not> lease_is_live db lease observed_at (jl_attempt_count lease))
       (ValueError ''invocation requires the current live database lease'')) (\<lambda>_.
     case first (filter (\<lambda>r. iv_attempt_id r = attempt_id \<and> iv_generation r = jl_attempt_count lease)
            (db_invocations db)) of
       Some existing \<Rightarrow>
         if iv_job_id existing \<noteq> jl_id lease \<or> iv_lease_owner existing \<noteq> jl_owner lease
         then Inl (ValueError ''invocation generation is already owned by another lease'')
         else Inr (Some existing, db)
     | None \<Rightarrow>
         bind_r (insert_invocation
             (new_invocation_row h lease attempt_id attempt deadline observed_at invocation_id nonce)
             (db\<lparr>db_invocations := retire_prior attempt_id observed_at (db_invocations db)\<rparr>))
           (\<lambda>db'. Inr (None, db')))"

definition begin_invocation ::
  "(json \<Rightarrow> string) \<Rightarrow> job_lease \<Rightarrow> attempt_input \<Rightarrow> datetime option \<Rightarrow> datetime \<Rightarrow> string \<Rightarrow> string \<Rightarrow> arena_db
    \<Rightarrow> invocation_row result \<times> arena_db" where
  "begin_invocation h lease input deadline now invocation_id nonce db =
     (case (if jl_kind lease \<noteq> ''attempt'' then None else jl_attempt_id lease) of
        None \<Rightarrow> (Inl (ValueError ''external invocation requires an attempt-bound lease''), db)
      | Some attempt_id \<Rightarrow>
          if av_attempt_id (ai_attempt input) \<noteq> attempt_id
          then (Inl (ValueError ''invocation AttemptInput does not bind the leased attempt''), db)
          else if (case deadline of None \<Rightarrow> False | Some d \<Rightarrow> d \<le> now)
          then (Inl (ValueError ''aggregate wall-time deadline has already expired''), db)
          else if jl_attempt_count lease < 1
          then (Inl (ValueError ''invocation generation must be positive''), db)
          else
            (case transaction (begin_body h lease attempt_id (ai_attempt input) deadline now
                    invocation_id nonce) db of
               (Inl e, db') \<Rightarrow> (Inl e, db')
             | (Inr (Some existing), db') \<Rightarrow> (Inr existing, db')
             | (Inr None, db') \<Rightarrow> (get_invocation db' invocation_id, db')))"

section \<open>Marking progress\<close>

definition mark_transport_context ::
  "invocation_row \<Rightarrow> bool \<Rightarrow> datetime \<Rightarrow> arena_db \<Rightarrow> invocation_row result \<times> arena_db" where
  "mark_transport_context invocation supported now db =
     then_get (iv_id invocation) (transaction (\<lambda>db.
       bind_r (locked db invocation True) (\<lambda>_.
       Inr ((), update_invocation (iv_id invocation)
         (\<lambda>r. r\<lparr>iv_transport_context_state := (if supported then Ctx_supported else Ctx_unsupported),
                 iv_updated_at := now\<rparr>) db))) db)"

definition settled_reservation :: "arena_db \<Rightarrow> string \<Rightarrow> string option" where
  "settled_reservation db invocation_id =
     first (map br_ledger_id (filter (\<lambda>b. br_invocation_id b = Some invocation_id \<and> br_state b \<noteq> Res_reserved)
       (db_reservations db)))"

definition mark_dispatch_started ::
  "invocation_row \<Rightarrow> datetime \<Rightarrow> arena_db \<Rightarrow> invocation_row result \<times> arena_db" where
  "mark_dispatch_started invocation now db =
     then_get (iv_id invocation) (transaction (\<lambda>db.
       bind_r (locked db invocation True) (\<lambda>current.
       bind_r (raise_if (iv_side_effect_state current \<notin> {Eff_not_started, Eff_possible})
         (ValueError ''invocation side-effect state cannot move backwards'')) (\<lambda>_.
       bind_r (raise_if (settled_reservation db (iv_id invocation) \<noteq> None)
         (ValueError ''invocation cannot dispatch after its reservation was settled'')) (\<lambda>_.
       Inr ((), update_invocation (iv_id invocation)
         (\<lambda>r. r\<lparr>iv_dispatch_started_at := Some now, iv_side_effect_state := Eff_possible,
                 iv_updated_at := now\<rparr>) db))))) db)"

definition in_request_scope :: "(json \<Rightarrow> string) \<Rightarrow> invocation_row \<Rightarrow> invocation_row \<Rightarrow> bool" where
  "in_request_scope h current r =
     (let legacy_namespace = legacy_provider_request_namespace h (iv_provider current)
      in if iv_provider_request_namespace current = legacy_namespace
         then iv_provider r = iv_provider current
         else iv_provider_request_namespace r = iv_provider_request_namespace current \<or>
              iv_provider_request_namespace r = legacy_namespace)"

definition request_matches :: "(json \<Rightarrow> string) \<Rightarrow> arena_db \<Rightarrow> invocation_row \<Rightarrow> string \<Rightarrow> string list" where
  "request_matches h db current provider_request_id =
     map iv_id (filter (\<lambda>r. in_request_scope h current r \<and>
         iv_provider_request_id r = Some provider_request_id \<and> iv_id r \<noteq> iv_id current)
       (db_invocations db))"

definition mark_ambiguous :: "string list \<Rightarrow> datetime \<Rightarrow> arena_db \<Rightarrow> arena_db" where
  "mark_ambiguous ids observed_at db =
     db\<lparr>db_invocations := update_where (\<lambda>r. iv_id r \<in> set ids)
       (\<lambda>r. r\<lparr>iv_side_effect_state := Eff_ambiguous, iv_updated_at := observed_at\<rparr>) (db_invocations db)\<rparr>"

definition observe_body ::
  "(json \<Rightarrow> string) \<Rightarrow> invocation_row \<Rightarrow> string \<Rightarrow> datetime \<Rightarrow> bool tx" where
  "observe_body h invocation provider_request_id now db =
     bind_r (locked db invocation True) (\<lambda>current.
     bind_r (raise_if (iv_provider_result_digest current \<noteq> None)
       (ValueError ''provider request identity must be observed before terminal result admission'')) (\<lambda>_.
     let matches = request_matches h db current provider_request_id in
     if matches \<noteq> [] then
       Inr (True, update_invocation (iv_id invocation)
         (\<lambda>r. r\<lparr>iv_provider_request_id := Some provider_request_id, iv_admission_state := Adm_duplicate,
                 iv_updated_at := now\<rparr>)
         (mark_ambiguous (matches @ [iv_id invocation]) now db))
     else
       Inr (False, update_invocation (iv_id invocation)
         (\<lambda>r. r\<lparr>iv_provider_request_id := Some provider_request_id, iv_side_effect_state := Eff_observed,
                 iv_updated_at := now\<rparr>) db)))"

definition observe_provider_request ::
  "(json \<Rightarrow> string) \<Rightarrow> invocation_row \<Rightarrow> string \<Rightarrow> datetime \<Rightarrow> arena_db \<Rightarrow> invocation_row result \<times> arena_db" where
  "observe_provider_request h invocation provider_request_id now db =
     (if list_all blank_char provider_request_id
      then (Inl (ValueError ''provider request identity must be non-empty''), db)
      else
        (case transaction (observe_body h invocation provider_request_id now) db of
           (Inl e, db') \<Rightarrow> (Inl e, db')
         | (Inr True, db') \<Rightarrow> (Inl (DuplicateProviderRequest
               ''provider request identity was observed in more than one compatible request namespace''), db')
         | (Inr False, db') \<Rightarrow> (get_invocation db' (iv_id invocation), db')))"

section \<open>Admitting a terminal result\<close>

definition unreconciled_usage :: "usage_state \<Rightarrow> usage_state" where
  "unreconciled_usage u = (if u \<noteq> Use_reconciled then u else Use_unknown)"

definition admission_is_live :: "arena_db \<Rightarrow> invocation_row \<Rightarrow> datetime \<Rightarrow> bool" where
  "admission_is_live db current observed_at \<longleftrightarrow>
     iv_admission_state current = Adm_current \<and>
     (case job_by_id db (iv_job_id current) of
        None \<Rightarrow> False
      | Some job \<Rightarrow>
          jb_status job = Job_running \<and> jb_lease_owner job = Some (iv_lease_owner current) \<and>
          job_generation job = iv_generation current \<and> \<not> expired (jb_lease_expires_at job) observed_at)"

definition admitted_side_effect :: "usage_state \<Rightarrow> side_effect_state" where
  "admitted_side_effect u =
     (if u = Use_reconciled then Eff_reconciled
      else if u \<in> {Use_unknown, Use_disputed} then Eff_ambiguous else Eff_observed)"

definition admit_body ::
  "invocation_row \<Rightarrow> string \<Rightarrow> string \<Rightarrow> usage_state \<Rightarrow> datetime \<Rightarrow> bool tx" where
  "admit_body invocation result_digest terminal_outcome usage now db =
     bind_r (locked db invocation False) (\<lambda>current.
     if iv_provider_result_digest current \<noteq> None then Inr (False, db)
     else
       let duplicate_ids = map iv_id (filter (\<lambda>r. iv_provider_result_digest r = Some result_digest \<and>
             iv_id r \<noteq> iv_id invocation) (db_invocations db))
       in if duplicate_ids \<noteq> [] then
            Inr (False, update_invocation (iv_id invocation)
              (\<lambda>r. r\<lparr>iv_admission_state := (if iv_admission_state current = Adm_current then Adm_duplicate
                        else iv_admission_state current),
                      iv_usage_state := unreconciled_usage usage, iv_updated_at := now\<rparr>)
              (mark_ambiguous (duplicate_ids @ [iv_id invocation]) now db))
          else if \<not> admission_is_live db current now then
            Inr (False, update_invocation (iv_id invocation)
              (\<lambda>r. r\<lparr>iv_admission_state := (if iv_admission_state current = Adm_duplicate then Adm_duplicate
                        else Adm_stale),
                      iv_side_effect_state := Eff_ambiguous, iv_usage_state := unreconciled_usage usage,
                      iv_provider_result_digest := Some result_digest,
                      iv_terminal_outcome := Some terminal_outcome, iv_terminal_at := Some now,
                      iv_updated_at := now\<rparr>) db)
          else
            Inr (True, update_invocation (iv_id invocation)
              (\<lambda>r. r\<lparr>iv_provider_result_digest := Some result_digest,
                      iv_terminal_outcome := Some terminal_outcome, iv_usage_state := usage,
                      iv_side_effect_state := admitted_side_effect usage, iv_terminal_at := Some now,
                      iv_updated_at := now\<rparr>) db))"

definition admit_terminal ::
  "invocation_row \<Rightarrow> string \<Rightarrow> string \<Rightarrow> usage_state \<Rightarrow> datetime \<Rightarrow> arena_db \<Rightarrow> bool result \<times> arena_db" where
  "admit_terminal invocation result_digest terminal_outcome usage now db =
     (if \<not> is_sha256 result_digest
      then (Inl (ValueError ''result_digest must be a lowercase SHA-256 digest''), db)
      else transaction (admit_body invocation result_digest terminal_outcome usage now) db)"

section \<open>Cancellation and lost leases\<close>

definition cancel_transition ::
  "invocation_row \<Rightarrow> cancellation_state \<Rightarrow> datetime \<Rightarrow> arena_db \<Rightarrow> invocation_row result \<times> arena_db" where
  "cancel_transition invocation state observed_at db =
     then_get (iv_id invocation) (transaction (\<lambda>db.
       bind_r (locked db invocation False) (\<lambda>current.
       bind_r (raise_if (CANCEL_RANK state < CANCEL_RANK (iv_cancellation_state current))
         (ValueError ''cancellation state cannot move backwards'')) (\<lambda>_.
       bind_r (raise_if (CANCEL_RANK state = CANCEL_RANK (iv_cancellation_state current) \<and>
           state \<noteq> iv_cancellation_state current)
         (ValueError ''terminal cancellation state cannot be replaced'')) (\<lambda>_.
       Inr ((), update_invocation (iv_id invocation)
         (\<lambda>r. r\<lparr>iv_cancellation_state := state, iv_updated_at := observed_at\<rparr>) db))))) db)"

definition iv_request_cancel where
  "iv_request_cancel invocation = cancel_transition invocation Can_requested"

definition mark_cancel_dispatched where
  "mark_cancel_dispatched invocation = cancel_transition invocation Can_dispatched"

definition mark_cancel_acknowledged where
  "mark_cancel_acknowledged invocation = cancel_transition invocation Can_acknowledged"

definition mark_cancel_unsupported where
  "mark_cancel_unsupported invocation = cancel_transition invocation Can_unsupported"

definition mark_cancel_unknown where
  "mark_cancel_unknown invocation = cancel_transition invocation Can_unknown"

definition mark_lease_lost ::
  "invocation_row \<Rightarrow> datetime \<Rightarrow> arena_db \<Rightarrow> invocation_row result \<times> arena_db" where
  "mark_lease_lost invocation now db =
     then_get (iv_id invocation) (transaction (\<lambda>db.
       bind_r (locked db invocation False) (\<lambda>current.
       Inr ((), update_invocation (iv_id invocation)
         (\<lambda>r. r\<lparr>iv_admission_state := (if iv_admission_state current = Adm_duplicate then Adm_duplicate
                   else Adm_stale),
                 iv_side_effect_state := retire_side_effect (iv_side_effect_state current),
                 iv_updated_at := now\<rparr>) db))) db)"

section \<open>The steps of the invocation table\<close>

inductive invocation_step :: "arena_db \<Rightarrow> arena_db \<Rightarrow> bool" where
  is_begin: "begin_invocation h lease inp dl now i nonce db = (r, db') \<Longrightarrow> invocation_step db db'"
| is_transport: "mark_transport_context iv b now db = (r, db') \<Longrightarrow> invocation_step db db'"
| is_dispatch: "mark_dispatch_started iv now db = (r, db') \<Longrightarrow> invocation_step db db'"
| is_observe: "observe_provider_request h iv q now db = (r, db') \<Longrightarrow> invocation_step db db'"
| is_admit: "admit_terminal iv d oc u now db = (b, db') \<Longrightarrow> invocation_step db db'"
| is_cancel: "cancel_transition iv st now db = (r, db') \<Longrightarrow> invocation_step db db'"
| is_lease_lost: "mark_lease_lost iv now db = (r, db') \<Longrightarrow> invocation_step db db'"

end
