(* ===== verification/Invocation_Invariants.thy ===== *)
theory Invocation_Invariants
  imports Invocations
begin

text \<open>
  What the operations on invocations guarantee. \<open>iv_safe\<close> collects what no operation may do to a
  row (reopen an admission, replace a result, move a cancellation backwards, forget a dispatch);
  \<open>table_step\<close> lists the three shapes a change of the table has; the operations refine it, and the
  invariants are proved for it.
\<close>

section \<open>Safe changes of a row\<close>

definition cancel_advances :: "cancellation_state \<Rightarrow> cancellation_state \<Rightarrow> bool" where
  "cancel_advances c c' \<longleftrightarrow> c' = c \<or> CANCEL_RANK c < CANCEL_RANK c'"

definition iv_safe :: "invocation_row \<Rightarrow> invocation_row \<Rightarrow> bool" where
  "iv_safe r r' \<longleftrightarrow>
     iv_id r' = iv_id r \<and> iv_attempt_id r' = iv_attempt_id r \<and> iv_generation r' = iv_generation r \<and>
     iv_job_id r' = iv_job_id r \<and> iv_fence_token r' = iv_fence_token r \<and>
     iv_lease_owner r' = iv_lease_owner r \<and>
     (iv_admission_state r' = Adm_current \<longrightarrow> iv_admission_state r = Adm_current) \<and>
     (iv_admission_state r = Adm_duplicate \<longrightarrow> iv_admission_state r' = Adm_duplicate) \<and>
     (iv_provider_result_digest r \<noteq> None \<longrightarrow>
        iv_provider_result_digest r' = iv_provider_result_digest r \<and>
        iv_terminal_outcome r' = iv_terminal_outcome r \<and> iv_terminal_at r' = iv_terminal_at r) \<and>
     cancel_advances (iv_cancellation_state r) (iv_cancellation_state r') \<and>
     (iv_side_effect_state r \<noteq> Eff_not_started \<longrightarrow> iv_side_effect_state r' \<noteq> Eff_not_started) \<and>
     (iv_dispatch_started_at r \<noteq> None \<longrightarrow> iv_dispatch_started_at r' \<noteq> None) \<and>
     (iv_dispatch_started_at r' \<noteq> None \<longrightarrow>
        iv_dispatch_started_at r \<noteq> None \<or> iv_side_effect_state r' \<noteq> Eff_not_started)"

lemma iv_safe_refl [simp]: "iv_safe r r"
  by (simp add: iv_safe_def cancel_advances_def)

lemma cancel_advances_trans: "cancel_advances a b \<Longrightarrow> cancel_advances b c \<Longrightarrow> cancel_advances a c"
  by (auto simp: cancel_advances_def)

lemma iv_safe_trans: "iv_safe a b \<Longrightarrow> iv_safe b c \<Longrightarrow> iv_safe a c"
  unfolding iv_safe_def
  by (elim conjE, intro conjI impI; (blast intro: cancel_advances_trans | simp))

section \<open>Changes of the table\<close>

inductive table_step :: "invocation_row list \<Rightarrow> invocation_row list \<Rightarrow> bool" where
  ts_keep: "(\<And>r. r \<in> set rows \<Longrightarrow> iv_safe r (f r) \<and> iv_provider_result_digest (f r) = iv_provider_result_digest r)
    \<Longrightarrow> table_step rows (map f rows)"
| ts_admit: "\<forall>r \<in> set rows. iv_provider_result_digest r \<noteq> Some d \<Longrightarrow>
    (\<And>r. r \<in> set rows \<Longrightarrow> iv_id r = i \<Longrightarrow> iv_safe r (f r) \<and> iv_provider_result_digest (f r) = Some d) \<Longrightarrow>
    table_step rows (update_where (\<lambda>r. iv_id r = i) f rows)"
| ts_begin: "\<forall>r \<in> set rows. iv_id r \<noteq> iv_id n \<and> iv_fence_token r \<noteq> iv_fence_token n \<and>
      (iv_attempt_id r, iv_generation r) \<noteq> (iv_attempt_id n, iv_generation n) \<Longrightarrow>
    iv_provider_result_digest n = None \<Longrightarrow> iv_dispatch_started_at n = None \<Longrightarrow>
    table_step rows (retire_prior (iv_attempt_id n) now rows @ [n])"

definition invocations_inv :: "invocation_row list \<Rightarrow> bool" where
  "invocations_inv rows \<longleftrightarrow>
     distinct (map iv_id rows) \<and> distinct (map iv_fence_token rows) \<and>
     distinct (map (\<lambda>r. (iv_attempt_id r, iv_generation r)) rows) \<and>
     distinct (map iv_attempt_id (filter (\<lambda>r. iv_admission_state r = Adm_current) rows)) \<and>
     distinct (map iv_provider_result_digest (filter (\<lambda>r. iv_provider_result_digest r \<noteq> None) rows)) \<and>
     (\<forall>r \<in> set rows. iv_dispatch_started_at r \<noteq> None \<longrightarrow> iv_side_effect_state r \<noteq> Eff_not_started)"

lemma iv_safe_keys:
  "iv_safe r r' \<Longrightarrow> iv_id r' = iv_id r \<and> iv_fence_token r' = iv_fence_token r \<and>
     iv_attempt_id r' = iv_attempt_id r \<and> iv_generation r' = iv_generation r"
  by (simp add: iv_safe_def)

lemma iv_safe_dispatch:
  "iv_safe r r' \<Longrightarrow> (iv_dispatch_started_at r \<noteq> None \<longrightarrow> iv_side_effect_state r \<noteq> Eff_not_started) \<Longrightarrow>
   iv_dispatch_started_at r' \<noteq> None \<longrightarrow> iv_side_effect_state r' \<noteq> Eff_not_started"
  by (auto simp: iv_safe_def)

text \<open>Rows that leave a selection do not make its keys collide.\<close>

lemma distinct_map_filter_shrink:
  assumes "distinct (map key (filter P rows))"
    and "\<And>r. r \<in> set rows \<Longrightarrow> key (f r) = key r"
    and "\<And>r. r \<in> set rows \<Longrightarrow> P (f r) \<Longrightarrow> P r"
  shows "distinct (map key (filter P (map f rows)))"
  using assms
proof (induction rows)
  case Nil
  then show ?case by simp
next
  case (Cons r rows)
  have IH: "distinct (map key (filter P (map f rows)))"
    using Cons by (cases "P r") auto
  show ?case
  proof (cases "P (f r)")
    case True
    then have "P r" using Cons.prems(3) by simp
    have "key (f r) \<notin> set (map key (filter P (map f rows)))"
    proof
      assume "key (f r) \<in> set (map key (filter P (map f rows)))"
      then obtain s where "s \<in> set rows" "P (f s)" "key (f s) = key (f r)" by auto
      then have "s \<in> set (filter P rows)" "key s = key r"
        using Cons.prems(2) [of s] Cons.prems(2) [of r] Cons.prems(3) [of s] by auto
      then have "key r \<in> set (map key (filter P rows))"
        by (metis image_eqI set_map)
      with Cons.prems(1) \<open>P r\<close> show False by simp
    qed
    with True IH show ?thesis by simp
  next
    case False
    with IH show ?thesis by simp
  qed
qed

lemma map_safe_inv:
  assumes inv: "invocations_inv rows" and safe: "\<And>r. r \<in> set rows \<Longrightarrow> iv_safe r (f r)"
    and digests: "distinct (map iv_provider_result_digest
      (filter (\<lambda>r. iv_provider_result_digest r \<noteq> None) (map f rows)))"
  shows "invocations_inv (map f rows)"
proof -
  have keys: "map iv_id (map f rows) = map iv_id rows"
      "map iv_fence_token (map f rows) = map iv_fence_token rows"
      "map (\<lambda>r. (iv_attempt_id r, iv_generation r)) (map f rows)
        = map (\<lambda>r. (iv_attempt_id r, iv_generation r)) rows"
    using safe by (auto dest: iv_safe_keys)
  have "distinct (map iv_attempt_id (filter (\<lambda>r. iv_admission_state r = Adm_current) (map f rows)))"
    using inv safe by (intro distinct_map_filter_shrink) (auto simp: invocations_inv_def iv_safe_def)
  moreover have "\<forall>r \<in> set (map f rows). iv_dispatch_started_at r \<noteq> None \<longrightarrow> iv_side_effect_state r \<noteq> Eff_not_started"
    using inv safe by (auto simp: invocations_inv_def dest: iv_safe_dispatch)
  ultimately show ?thesis
    unfolding invocations_inv_def keys using inv digests by (simp add: invocations_inv_def)
qed

lemma retire_prior_safe:
  "iv_safe r (if iv_attempt_id r = a \<and> iv_admission_state r = Adm_current
     then r\<lparr>iv_admission_state := Adm_stale, iv_side_effect_state := retire_side_effect (iv_side_effect_state r),
            iv_updated_at := now\<rparr> else r)"
  by (simp add: iv_safe_def cancel_advances_def retire_side_effect_def)

lemma append_invocation_inv:
  assumes inv: "invocations_inv rows"
    and fresh: "\<And>r. r \<in> set rows \<Longrightarrow> iv_id r \<noteq> iv_id n \<and> iv_fence_token r \<noteq> iv_fence_token n \<and>
      (iv_attempt_id r, iv_generation r) \<noteq> (iv_attempt_id n, iv_generation n) \<and>
      (iv_admission_state r = Adm_current \<longrightarrow> iv_attempt_id r \<noteq> iv_attempt_id n)"
    and n: "iv_provider_result_digest n = None" "iv_dispatch_started_at n = None"
  shows "invocations_inv (rows @ [n])"
proof -
  have "iv_id n \<notin> set (map iv_id rows)" "iv_fence_token n \<notin> set (map iv_fence_token rows)"
    using fresh by (auto simp: eq_commute)
  moreover have "(iv_attempt_id n, iv_generation n) \<notin> set (map (\<lambda>r. (iv_attempt_id r, iv_generation r)) rows)"
    using fresh by fastforce
  moreover have "iv_attempt_id n \<notin> set (map iv_attempt_id (filter (\<lambda>r. iv_admission_state r = Adm_current) rows))"
    using fresh by fastforce
  ultimately show ?thesis
    using inv n unfolding invocations_inv_def map_append filter_append distinct_append list.map
    by (intro conjI) simp_all
qed

lemma table_step_inv:
  assumes "table_step rows rows'" and "invocations_inv rows"
  shows "invocations_inv rows'"
  using assms
proof (induction rule: table_step.induct)
  case (ts_keep rows f)
  have "distinct (map iv_provider_result_digest
      (filter (\<lambda>r. iv_provider_result_digest r \<noteq> None) (map f rows)))"
    using ts_keep by (intro distinct_map_filter_shrink) (auto simp: invocations_inv_def)
  with ts_keep show ?case by (intro map_safe_inv) auto
next
  case (ts_admit rows d i f)
  let ?f = "\<lambda>r. if iv_id r = i then f r else r"
  have ids: "distinct (map iv_id rows)"
    using ts_admit(3) by (simp add: invocations_inv_def)
  let ?D = "\<lambda>rs. map iv_provider_result_digest (filter (\<lambda>r. iv_provider_result_digest r \<noteq> None) rs)"
  have "distinct (?D (map ?f rs)) \<and> (Some d \<in> set (?D (map ?f rs)) \<longleftrightarrow> i \<in> set (map iv_id rs)) \<and>
      set (?D (map ?f rs)) \<subseteq> insert (Some d) (set (?D rs))"
    if "set rs \<subseteq> set rows" "distinct (map iv_id rs)" "distinct (?D rs)" for rs
    using that
  proof (induction rs)
    case Nil
    then show ?case by simp
  next
    case (Cons r rs)
    have IH: "distinct (?D (map ?f rs))" "Some d \<in> set (?D (map ?f rs)) \<longleftrightarrow> i \<in> set (map iv_id rs)"
        "set (?D (map ?f rs)) \<subseteq> insert (Some d) (set (?D rs))"
      using Cons by (auto split: if_splits)
    have r: "r \<in> set rows" "iv_provider_result_digest r \<noteq> Some d"
      using Cons.prems(1) ts_admit(1) by auto
    show ?case
    proof (cases "iv_id r = i")
      case True
      then have "iv_provider_result_digest (?f r) = Some d" "i \<notin> set (map iv_id rs)"
        using ts_admit(2) [OF r(1)] Cons.prems(2) by auto
      with IH True show ?thesis by (auto split: if_splits)
    next
      case False
      then have "iv_provider_result_digest r \<notin> set (?D (map ?f rs))" if "iv_provider_result_digest r \<noteq> None"
        using IH(3) Cons.prems(3) that r(2) by auto
      with IH False r(2) show ?thesis by (auto split: if_splits)
    qed
  qed
  from this [of rows] have "distinct (?D (map ?f rows))"
    using ids ts_admit(3) by (simp add: invocations_inv_def)
  then show ?case
    unfolding update_where_def using ts_admit by (intro map_safe_inv) auto
next
  case (ts_begin rows n now)
  let ?f = "\<lambda>r. if iv_attempt_id r = iv_attempt_id n \<and> iv_admission_state r = Adm_current
     then r\<lparr>iv_admission_state := Adm_stale, iv_side_effect_state := retire_side_effect (iv_side_effect_state r),
            iv_updated_at := now\<rparr> else r"
  have rows: "retire_prior (iv_attempt_id n) now rows = map ?f rows"
    by (simp add: retire_prior_def update_where_def)
  have "distinct (map iv_provider_result_digest
      (filter (\<lambda>r. iv_provider_result_digest r \<noteq> None) (map ?f rows)))"
    using ts_begin(4) by (intro distinct_map_filter_shrink) (auto simp: invocations_inv_def split: if_splits)
  then have inv: "invocations_inv (map ?f rows)"
    by (intro map_safe_inv [OF ts_begin(4)] retire_prior_safe)
  have fresh: "iv_id r \<noteq> iv_id n \<and> iv_fence_token r \<noteq> iv_fence_token n \<and>
      (iv_attempt_id r, iv_generation r) \<noteq> (iv_attempt_id n, iv_generation n) \<and>
      (iv_admission_state r = Adm_current \<longrightarrow> iv_attempt_id r \<noteq> iv_attempt_id n)"
    if "r \<in> set (map ?f rows)" for r
    using that ts_begin(1) by (auto split: if_splits)
  show ?case
    unfolding rows using inv fresh ts_begin(2,3) by (rule append_invocation_inv)
qed

lemma table_steps_inv: "table_step\<^sup>*\<^sup>* rows rows' \<Longrightarrow> invocations_inv rows \<Longrightarrow> invocations_inv rows'"
  by (induction rule: rtranclp_induct) (auto intro: table_step_inv)

text \<open>Every row has a safe successor.\<close>

lemma table_step_safe:
  assumes "table_step rows rows'" and "r \<in> set rows"
  shows "\<exists>r' \<in> set rows'. iv_safe r r'"
  using assms
proof (induction rule: table_step.induct)
  case (ts_keep rows f)
  then show ?case by auto
next
  case (ts_admit rows d i f)
  then have "(if iv_id r = i then f r else r) \<in> set (update_where (\<lambda>r. iv_id r = i) f rows)"
    by (auto simp: update_where_def)
  moreover have "iv_safe r (if iv_id r = i then f r else r)"
    using ts_admit by simp
  ultimately show ?case by blast
next
  case (ts_begin rows n now)
  then show ?case
    using retire_prior_safe [of r "iv_attempt_id n" now]
    by (force simp: retire_prior_def update_where_def)
qed

lemma table_steps_safe:
  "table_step\<^sup>*\<^sup>* rows rows' \<Longrightarrow> r \<in> set rows \<Longrightarrow> \<exists>r' \<in> set rows'. iv_safe r r'"
proof (induction rule: rtranclp_induct)
  case base
  then show ?case using iv_safe_refl by blast
next
  case (step y z)
  then show ?case by (meson table_step_safe iv_safe_trans)
qed

section \<open>The operations refine the table steps\<close>

definition only_invocations :: "arena_db \<Rightarrow> arena_db \<Rightarrow> bool" where
  "only_invocations db db' \<longleftrightarrow> (\<exists>rows. db' = db\<lparr>db_invocations := rows\<rparr>)"

definition iv_refines :: "arena_db \<Rightarrow> arena_db \<Rightarrow> bool" where
  "iv_refines db db' \<longleftrightarrow>
     only_invocations db db' \<and> table_step\<^sup>*\<^sup>* (db_invocations db) (db_invocations db')"

lemma iv_refines_refl [simp]: "iv_refines db db"
  by (auto simp: iv_refines_def only_invocations_def intro: exI [of _ "db_invocations db"])

lemma only_invocations_trans: "only_invocations a b \<Longrightarrow> only_invocations b c \<Longrightarrow> only_invocations a c"
  by (auto simp: only_invocations_def)

lemma iv_refines_trans: "iv_refines a b \<Longrightarrow> iv_refines b c \<Longrightarrow> iv_refines a c"
  unfolding iv_refines_def by (blast intro: only_invocations_trans rtranclp_trans)

lemma locked_Inr:
  "locked db iv b = Inr cur \<Longrightarrow>
   cur \<in> set (db_invocations db) \<and> iv_id cur = iv_id iv \<and> iv_fence_token cur = iv_fence_token iv \<and>
   (b \<longrightarrow> iv_admission_state cur = Adm_current)"
  by (auto simp: locked_def split: option.splits if_splits dest!: first_Some_in)

lemma update_invocation_refines:
  assumes ids: "distinct (map iv_id (db_invocations db))" and cur: "cur \<in> set (db_invocations db)"
    and safe: "iv_safe cur (f cur)" "iv_provider_result_digest (f cur) = iv_provider_result_digest cur"
  shows "iv_refines db (update_invocation (iv_id cur) f db)"
proof -
  have "r = cur" if "r \<in> set (db_invocations db)" "iv_id r = iv_id cur" for r
    using ids that(1) cur that(2) by (rule distinct_map_key_unique)
  then have "table_step (db_invocations db) (update_where (\<lambda>r. iv_id r = iv_id cur) f (db_invocations db))"
    unfolding update_where_def using safe by (intro ts_keep) auto
  then show ?thesis
    by (auto simp: iv_refines_def only_invocations_def update_invocation_def)
qed

lemma admit_invocation_refines:
  assumes ids: "distinct (map iv_id (db_invocations db))" and cur: "cur \<in> set (db_invocations db)"
    and safe: "iv_safe cur (f cur)" "iv_provider_result_digest (f cur) = Some d"
    and unused: "\<forall>r \<in> set (db_invocations db). iv_provider_result_digest r \<noteq> Some d"
  shows "iv_refines db (update_invocation (iv_id cur) f db)"
proof -
  have "r = cur" if "r \<in> set (db_invocations db)" "iv_id r = iv_id cur" for r
    using ids that(1) cur that(2) by (rule distinct_map_key_unique)
  then have "table_step (db_invocations db) (update_where (\<lambda>r. iv_id r = iv_id cur) f (db_invocations db))"
    using safe by (intro ts_admit [OF unused]) auto
  then show ?thesis
    by (auto simp: iv_refines_def only_invocations_def update_invocation_def)
qed

lemma mark_ambiguous_refines: "iv_refines db (mark_ambiguous ids now db)"
proof -
  have "table_step (db_invocations db) (update_where (\<lambda>r. iv_id r \<in> set ids)
      (\<lambda>r. r\<lparr>iv_side_effect_state := Eff_ambiguous, iv_updated_at := now\<rparr>) (db_invocations db))"
    unfolding update_where_def by (intro ts_keep) (auto simp: iv_safe_def cancel_advances_def)
  then show ?thesis
    by (auto simp: iv_refines_def only_invocations_def mark_ambiguous_def)
qed

lemma mark_ambiguous_row:
  assumes "cur \<in> set (db_invocations db)" and "iv_id cur \<in> set ids"
  shows "cur\<lparr>iv_side_effect_state := Eff_ambiguous, iv_updated_at := now\<rparr>
    \<in> set (db_invocations (mark_ambiguous ids now db))"
  using assms by (force simp: mark_ambiguous_def in_update_where_iff)

lemma mark_ambiguous_ids:
  "map iv_id (db_invocations (mark_ambiguous ids now db)) = map iv_id (db_invocations db)"
  by (simp add: mark_ambiguous_def map_key_update_where)

text \<open>A conflict: the rows involved become ambiguous, and then one row is changed safely.\<close>

lemma conflict_refines:
  assumes ids: "distinct (map iv_id (db_invocations db))" and cur: "cur \<in> set (db_invocations db)"
    and safe: "\<And>r. r = cur\<lparr>iv_side_effect_state := Eff_ambiguous, iv_updated_at := now\<rparr> \<Longrightarrow>
      iv_safe r (f r) \<and> iv_provider_result_digest (f r) = iv_provider_result_digest r"
  shows "iv_refines db (update_invocation (iv_id cur) f (mark_ambiguous (xs @ [iv_id cur]) now db))"
proof -
  let ?db = "mark_ambiguous (xs @ [iv_id cur]) now db"
  let ?cur = "cur\<lparr>iv_side_effect_state := Eff_ambiguous, iv_updated_at := now\<rparr>"
  have "?cur \<in> set (db_invocations ?db)"
    using cur by (intro mark_ambiguous_row) simp_all
  then have "iv_refines ?db (update_invocation (iv_id ?cur) f ?db)"
    using safe ids by (intro update_invocation_refines) (simp_all add: mark_ambiguous_ids)
  then show ?thesis
    using iv_refines_trans [OF mark_ambiguous_refines] by simp
qed

lemma then_get_snd [simp]: "snd (then_get i (r, db)) = db"
  by (auto simp: then_get_def split: sum.splits)

lemma then_get_db: "then_get i o' = (r, db') \<Longrightarrow> db' = snd o'"
  by (metis prod.collapse snd_conv then_get_snd)

text \<open>A transaction refines when its body does; a failed one changes nothing.\<close>

lemma transaction_refines:
  assumes "\<And>a db'. body db = Inr (a, db') \<Longrightarrow> iv_refines db db'"
  shows "iv_refines db (snd (transaction body db))"
  using transaction_snd_cases [of body db] assms by auto

lemma then_get_refines:
  assumes "then_get i (transaction body db) = (r, db')"
    and "\<And>a db'. body db = Inr (a, db') \<Longrightarrow> iv_refines db db'"
  shows "iv_refines db db'"
  using then_get_db [OF assms(1)] transaction_refines [of body db] assms(2) by blast

lemma locked_update_refines:
  assumes ids: "distinct (map iv_id (db_invocations db))" and "locked db iv b = Inr cur"
    and "iv_safe cur (f cur) \<and> iv_provider_result_digest (f cur) = iv_provider_result_digest cur"
  shows "iv_refines db (update_invocation (iv_id iv) f db)"
  using update_invocation_refines [OF ids, of cur f] locked_Inr [OF assms(2)] assms(3) by simp

lemma mark_transport_context_refines:
  assumes ids: "distinct (map iv_id (db_invocations db))"
    and "mark_transport_context iv b now db = (r, db')"
  shows "iv_refines db db'"
  using assms(2) unfolding mark_transport_context_def
  by (rule then_get_refines)
    (auto simp: bind_r_eq_Inr_iff iv_safe_def cancel_advances_def intro!: locked_update_refines [OF ids])

lemma mark_dispatch_started_refines:
  assumes ids: "distinct (map iv_id (db_invocations db))"
    and "mark_dispatch_started iv now db = (r, db')"
  shows "iv_refines db db'"
  using assms(2) unfolding mark_dispatch_started_def
  by (rule then_get_refines)
    (auto simp: bind_r_eq_Inr_iff iv_safe_def cancel_advances_def intro!: locked_update_refines [OF ids])

lemma cancel_transition_refines:
  assumes ids: "distinct (map iv_id (db_invocations db))"
    and "cancel_transition iv st now db = (r, db')"
  shows "iv_refines db db'"
  using assms(2) unfolding cancel_transition_def
  by (rule then_get_refines)
    (auto simp: bind_r_eq_Inr_iff iv_safe_def cancel_advances_def intro!: locked_update_refines [OF ids])

lemma mark_lease_lost_refines:
  assumes ids: "distinct (map iv_id (db_invocations db))"
    and "mark_lease_lost iv now db = (r, db')"
  shows "iv_refines db db'"
  using assms(2) unfolding mark_lease_lost_def
  by (rule then_get_refines)
    (auto simp: bind_r_eq_Inr_iff iv_safe_def cancel_advances_def retire_side_effect_def
      intro!: locked_update_refines [OF ids])

lemma observe_body_refines:
  assumes ids: "distinct (map iv_id (db_invocations db))" and "observe_body h iv q now db = Inr (b, db')"
  shows "iv_refines db db'"
proof -
  from assms(2) obtain cur where cur: "locked db iv True = Inr cur" "iv_provider_result_digest cur = None"
    by (auto simp: observe_body_def bind_r_eq_Inr_iff)
  note in_cur = locked_Inr [OF cur(1)]
  show ?thesis
  proof (cases "request_matches h db cur q = []")
    case True
    with assms(2) cur show ?thesis
      by (auto simp: observe_body_def iv_safe_def cancel_advances_def intro!: locked_update_refines [OF ids cur(1)])
  next
    case False
    with assms(2) cur in_cur have db': "db' = update_invocation (iv_id cur)
        (\<lambda>r. r\<lparr>iv_provider_request_id := Some q, iv_admission_state := Adm_duplicate, iv_updated_at := now\<rparr>)
        (mark_ambiguous (request_matches h db cur q @ [iv_id cur]) now db)"
      by (simp add: observe_body_def)
    show ?thesis
      unfolding db' using in_cur
      by (intro conflict_refines [OF ids]) (auto simp: iv_safe_def cancel_advances_def)
  qed
qed

lemma observe_provider_request_refines:
  assumes ids: "distinct (map iv_id (db_invocations db))"
    and "observe_provider_request h iv q now db = (r, db')"
  shows "iv_refines db db'"
proof -
  have "db' = db \<or> db' = snd (transaction (observe_body h iv q now) db)"
    using assms(2) by (auto simp: observe_provider_request_def split: if_splits prod.splits sum.splits bool.splits)
  then show ?thesis
    using transaction_refines [of "observe_body h iv q now" db] observe_body_refines [OF ids] by auto
qed

lemma admit_body_refines:
  assumes ids: "distinct (map iv_id (db_invocations db))" and "admit_body iv d oc u now db = Inr (b, db')"
  shows "iv_refines db db'"
proof -
  from assms(2) obtain cur where cur: "locked db iv False = Inr cur"
    by (auto simp: admit_body_def bind_r_eq_Inr_iff)
  note in_cur = locked_Inr [OF cur]
  let ?dup = "map iv_id (filter (\<lambda>r. iv_provider_result_digest r = Some d \<and> iv_id r \<noteq> iv_id iv) (db_invocations db))"
  consider (had) "iv_provider_result_digest cur \<noteq> None"
    | (dup) "iv_provider_result_digest cur = None" "?dup \<noteq> []"
    | (new) "iv_provider_result_digest cur = None" "?dup = []"
    by blast
  then show ?thesis
  proof cases
    case had
    with assms(2) cur show ?thesis by (auto simp: admit_body_def)
  next
    case dup
    with assms(2) cur in_cur have db': "db' = update_invocation (iv_id cur)
        (\<lambda>r. r\<lparr>iv_admission_state := (if iv_admission_state cur = Adm_current then Adm_duplicate
                 else iv_admission_state cur),
               iv_usage_state := unreconciled_usage u, iv_updated_at := now\<rparr>)
        (mark_ambiguous (?dup @ [iv_id cur]) now db)"
      by (simp add: admit_body_def Let_def)
    show ?thesis
      unfolding db' using in_cur
      by (intro conflict_refines [OF ids]) (auto simp: iv_safe_def cancel_advances_def)
  next
    case new
    then have unused: "\<forall>r \<in> set (db_invocations db). iv_provider_result_digest r \<noteq> Some d"
      using in_cur ids by (auto simp: filter_empty_conv dest: distinct_map_key_unique)
    have eff: "admitted_side_effect u \<noteq> Eff_not_started"
      by (simp add: admitted_side_effect_def)
    show ?thesis
    proof (cases "admission_is_live db cur now")
      case True
      then have db': "db' = update_invocation (iv_id cur)
          (\<lambda>r. r\<lparr>iv_provider_result_digest := Some d, iv_terminal_outcome := Some oc, iv_usage_state := u,
                 iv_side_effect_state := admitted_side_effect u, iv_terminal_at := Some now,
                 iv_updated_at := now\<rparr>) db"
        using assms(2) cur in_cur new by (simp add: admit_body_def Let_def)
      show ?thesis
        unfolding db' by (rule admit_invocation_refines [OF ids conjunct1 [OF in_cur] _ _ unused])
          (use new(1) eff in \<open>simp_all add: iv_safe_def cancel_advances_def\<close>)
    next
      case False
      then have db': "db' = update_invocation (iv_id cur)
          (\<lambda>r. r\<lparr>iv_admission_state := (if iv_admission_state cur = Adm_duplicate then Adm_duplicate else Adm_stale),
                 iv_side_effect_state := Eff_ambiguous, iv_usage_state := unreconciled_usage u,
                 iv_provider_result_digest := Some d, iv_terminal_outcome := Some oc,
                 iv_terminal_at := Some now, iv_updated_at := now\<rparr>) db"
        using assms(2) cur in_cur new by (simp add: admit_body_def Let_def)
      show ?thesis
        unfolding db' by (rule admit_invocation_refines [OF ids conjunct1 [OF in_cur] _ _ unused])
          (use new(1) in \<open>simp_all add: iv_safe_def cancel_advances_def\<close>)
    qed
  qed
qed

lemma admit_terminal_refines:
  assumes ids: "distinct (map iv_id (db_invocations db))" and "admit_terminal iv d oc u now db = (b, db')"
  shows "iv_refines db db'"
proof -
  have "db' = db \<or> db' = snd (transaction (admit_body iv d oc u now) db)"
    using assms(2) by (auto simp: admit_terminal_def split: if_splits)
  then show ?thesis
    using transaction_refines [of "admit_body iv d oc u now" db] admit_body_refines [OF ids] by auto
qed

lemma insert_invocation_Inr:
  assumes "insert_invocation row db = Inr db'"
  shows "db' = db\<lparr>db_invocations := db_invocations db @ [row]\<rparr> \<and>
    (\<forall>r \<in> set (db_invocations db). iv_id r \<noteq> iv_id row \<and> iv_fence_token r \<noteq> iv_fence_token row \<and>
       (iv_attempt_id r, iv_generation r) \<noteq> (iv_attempt_id row, iv_generation row))"
  using assms by (auto simp: insert_invocation_def list_ex_iff split: if_splits)

lemma retire_prior_keys:
  "map iv_id (retire_prior a now rows) = map iv_id rows"
  "map iv_fence_token (retire_prior a now rows) = map iv_fence_token rows"
  "map (\<lambda>r. (iv_attempt_id r, iv_generation r)) (retire_prior a now rows)
     = map (\<lambda>r. (iv_attempt_id r, iv_generation r)) rows"
  by (simp_all add: retire_prior_def map_key_update_where)

lemma begin_body_refines:
  assumes "begin_body h lease a env dl now i nonce db = Inr (r, db')"
  shows "iv_refines db db'"
proof (cases "first (filter (\<lambda>r. iv_attempt_id r = a \<and> iv_generation r = jl_attempt_count lease) (db_invocations db))")
  case (Some existing)
  with assms show ?thesis by (auto simp: begin_body_def split: if_splits)
next
  case None
  let ?n = "new_invocation_row h lease a env dl now i nonce"
  let ?rows = "retire_prior a now (db_invocations db)"
  from assms None have "insert_invocation ?n (db\<lparr>db_invocations := ?rows\<rparr>) = Inr db'"
    by (auto simp: begin_body_def bind_r_eq_Inr_iff)
  from insert_invocation_Inr [OF this] have db': "db' = db\<lparr>db_invocations := ?rows @ [?n]\<rparr>"
    and fresh: "\<forall>r \<in> set ?rows. iv_id r \<noteq> iv_id ?n \<and> iv_fence_token r \<noteq> iv_fence_token ?n \<and>
       (iv_attempt_id r, iv_generation r) \<noteq> (iv_attempt_id ?n, iv_generation ?n)"
    by auto
  have "iv_id ?n \<notin> set (map iv_id ?rows)" "iv_fence_token ?n \<notin> set (map iv_fence_token ?rows)"
      "(iv_attempt_id ?n, iv_generation ?n) \<notin> set (map (\<lambda>r. (iv_attempt_id r, iv_generation r)) ?rows)"
    using fresh by (auto simp: eq_commute)
  then have "\<forall>r \<in> set (db_invocations db). iv_id r \<noteq> iv_id ?n \<and> iv_fence_token r \<noteq> iv_fence_token ?n \<and>
       (iv_attempt_id r, iv_generation r) \<noteq> (iv_attempt_id ?n, iv_generation ?n)"
    unfolding retire_prior_keys by (metis (mono_tags, lifting) image_eqI set_map)
  then have "table_step (db_invocations db) (retire_prior (iv_attempt_id ?n) now (db_invocations db) @ [?n])"
    by (rule ts_begin) (simp_all add: new_invocation_row_def)
  then show ?thesis
    unfolding db' by (auto simp: iv_refines_def only_invocations_def new_invocation_row_def)
qed

lemma begin_invocation_refines:
  assumes "begin_invocation h lease inp dl now i nonce db = (r, db')"
  shows "iv_refines db db'"
proof -
  let ?body = "begin_body h lease (av_attempt_id (ai_attempt inp)) (ai_attempt inp) dl now i nonce"
  have "db' = db \<or> db' = snd (transaction ?body db)"
    using assms by (auto simp: begin_invocation_def split: if_splits option.splits prod.splits sum.splits)
  then show ?thesis
    using transaction_refines [of ?body db] begin_body_refines by auto
qed

lemma invocation_step_refines:
  assumes "invocation_step db db'" and "invocations_inv (db_invocations db)"
  shows "iv_refines db db'"
proof -
  have ids: "distinct (map iv_id (db_invocations db))"
    using assms(2) by (simp add: invocations_inv_def)
  from assms(1) ids show ?thesis
    by (induction rule: invocation_step.induct)
      (blast intro: begin_invocation_refines mark_transport_context_refines mark_dispatch_started_refines
        observe_provider_request_refines admit_terminal_refines cancel_transition_refines
        mark_lease_lost_refines)+
qed

lemma iv_refinesD:
  assumes "iv_refines db db'"
  shows "db_jobs db' = db_jobs db" "db_attempts db' = db_attempts db" "db_executions db' = db_executions db"
    "db_episodes db' = db_episodes db" "db_reservations db' = db_reservations db" "db_ledger db' = db_ledger db"
    "db_attempt_events db' = db_attempt_events db" "db_event_cursors db' = db_event_cursors db"
    "db_experiments db' = db_experiments db"
  using assms by (auto simp: iv_refines_def only_invocations_def)

lemma invocation_step_inv:
  assumes "invocations_inv (db_invocations db)" and "invocation_step db db'"
  shows "invocations_inv (db_invocations db')"
  using invocation_step_refines [OF assms(2,1)] assms(1) table_steps_inv by (auto simp: iv_refines_def)

interpretation invocations: invariant_system "\<lambda>db. db_invocations db = []" invocation_step
    "\<lambda>db. invocations_inv (db_invocations db)"
  by unfold_locales (simp add: invocations_inv_def, rule invocation_step_inv)

text \<open>Along a whole run every row has a safe successor.\<close>

lemma invocation_steps_safe:
  assumes run: "invocation_step\<^sup>*\<^sup>* db db'" and inv: "invocations_inv (db_invocations db)"
    and r: "r \<in> set (db_invocations db)"
  shows "\<exists>r' \<in> set (db_invocations db'). iv_safe r r'"
proof (rule invocations.steps_preserve [OF run inv])
  show "\<exists>r' \<in> set (db_invocations db). iv_safe r r'"
    using r iv_safe_refl by blast
next
  fix u v
  assume "invocations_inv (db_invocations u)" and "invocation_step u v"
    and "\<exists>r' \<in> set (db_invocations u). iv_safe r r'"
  then show "\<exists>r' \<in> set (db_invocations v). iv_safe r r'"
    using invocation_step_refines table_steps_safe iv_safe_trans unfolding iv_refines_def by meson
qed

section \<open>Properties\<close>

definition example_iv_lease :: job_lease where
  "example_iv_lease = \<lparr>jl_id = ''j1'', jl_execution_id = ''x1'', jl_attempt_id = Some ''a1'', jl_kind = ''attempt'',
     jl_owner = ''w1'', jl_token = ''t1'', jl_expires_at = seconds 60, jl_attempt_count = 1, jl_payload = []\<rparr>"

definition example_digest :: string where
  "example_digest = replicate 64 (CHR ''a'')"

definition example_invocation :: invocation_row where
  "example_invocation =
     \<lparr>iv_id = ''i1'', iv_execution_id = ''x1'', iv_attempt_id = ''a1'', iv_job_id = ''j1'', iv_generation = 1,
      iv_fence_token = example_digest, iv_provider = ''p'', iv_provider_model = ''m'',
      iv_provider_idempotency_key = ''k'', iv_provider_request_namespace = example_digest,
      iv_provider_request_id = None, iv_lease_owner = ''w1'', iv_lease_acquired_at = 0,
      iv_lease_expires_at = seconds 60, iv_dispatch_started_at = None, iv_aggregate_deadline_at = None,
      iv_transport_context_state = Ctx_unknown, iv_cancellation_state = Can_not_requested,
      iv_side_effect_state = Eff_not_started, iv_usage_state = Use_not_observed,
      iv_admission_state = Adm_current, iv_provider_result_digest = None, iv_terminal_outcome = None,
      iv_created_at = 0, iv_updated_at = 0, iv_terminal_at = None\<rparr>"

definition example_iv_db :: arena_db where
  "example_iv_db = example_running_db\<lparr>db_invocations := [example_invocation]\<rparr>"

lemma example_iv_inv: "invocations_inv (db_invocations example_iv_db)"
  by (simp add: invocations_inv_def example_iv_db_def example_invocation_def)

text \<open>
  C25: In every database the operations on invocations can produce, an attempt has at most one current
  invocation, a provider result digest is held by at most one invocation, a generation of an attempt is
  begun at most once, and an invocation whose dispatch has started is never recorded as free of side
  effects.
\<close>

theorem invocations_invariant_reachable:
  assumes "reachable (\<lambda>db. db_invocations db = []) invocation_step db"
    and "r \<in> set (db_invocations db)" and "s \<in> set (db_invocations db)"
  shows "(iv_admission_state r = Adm_current \<and> iv_admission_state s = Adm_current \<and>
       iv_attempt_id r = iv_attempt_id s \<longrightarrow> r = s) \<and>
    (iv_provider_result_digest r \<noteq> None \<and> iv_provider_result_digest r = iv_provider_result_digest s \<longrightarrow> r = s) \<and>
    (iv_attempt_id r = iv_attempt_id s \<and> iv_generation r = iv_generation s \<longrightarrow> r = s) \<and>
    (iv_dispatch_started_at r \<noteq> None \<longrightarrow> iv_side_effect_state r \<noteq> Eff_not_started)"
proof -
  have inv: "invocations_inv (db_invocations db)"
    using assms(1) by (rule invocations.inv_reachable)
  show ?thesis
  proof (intro conjI impI)
    assume "iv_admission_state r = Adm_current \<and> iv_admission_state s = Adm_current \<and> iv_attempt_id r = iv_attempt_id s"
    then show "r = s"
      using inv assms(2,3) unfolding invocations_inv_def
      by (intro distinct_map_key_unique [of iv_attempt_id "filter (\<lambda>r. iv_admission_state r = Adm_current) (db_invocations db)"]) auto
  next
    assume "iv_provider_result_digest r \<noteq> None \<and> iv_provider_result_digest r = iv_provider_result_digest s"
    then obtain d where "iv_provider_result_digest r = Some d" "iv_provider_result_digest s = Some d"
      by (metis option.exhaust)
    with assms(2,3) inv show "r = s"
      unfolding invocations_inv_def
      by (intro distinct_map_key_unique [of iv_provider_result_digest
            "filter (\<lambda>r. iv_provider_result_digest r \<noteq> None) (db_invocations db)"]) simp_all
  next
    assume "iv_attempt_id r = iv_attempt_id s \<and> iv_generation r = iv_generation s"
    then show "r = s"
      using inv assms(2,3) unfolding invocations_inv_def
      by (intro distinct_map_key_unique [of "\<lambda>r. (iv_attempt_id r, iv_generation r)" "db_invocations db"]) auto
  next
    assume "iv_dispatch_started_at r \<noteq> None"
    then show "iv_side_effect_state r \<noteq> Eff_not_started"
      using inv assms(2) by (auto simp: invocations_inv_def)
  qed
qed

lemma example_begin:
  "\<exists>r db'. begin_invocation (\<lambda>_. example_digest) example_iv_lease example_input None 5 ''i1'' ''n'' example_running_db = (Inr r, db') \<and>
     r \<in> set (db_invocations db') \<and> iv_admission_state r = Adm_current"
  by (simp add: begin_invocation_def example_iv_lease_def transaction_def begin_body_def lease_is_live_def
      job_by_id_def example_running_db_def claim_row_def queued_job_def example_log_db_def expired_def
      job_generation_def insert_invocation_def new_invocation_row_def retire_prior_def update_where_def
      example_digest_def provider_request_namespace_def legacy_provider_request_namespace_def get_invocation_def
      example_input_def example_envelope_def)

theorem invocations_invariant_reachable_witness:
  "\<exists>r db'. reachable (\<lambda>db. db_invocations db = []) invocation_step db' \<and> r \<in> set (db_invocations db') \<and>
     iv_admission_state r = Adm_current \<and>
     (\<forall>s \<in> set (db_invocations db'). iv_admission_state s = Adm_current \<and> iv_attempt_id r = iv_attempt_id s \<longrightarrow> r = s)"
proof -
  obtain r db' where b: "begin_invocation (\<lambda>_. example_digest) example_iv_lease example_input None 5 ''i1'' ''n''
      example_running_db = (Inr r, db')" "r \<in> set (db_invocations db')" "iv_admission_state r = Adm_current"
    using example_begin by blast
  have "db_invocations example_running_db = []"
    by (simp add: example_running_db_def example_log_db_def)
  then have "reachable (\<lambda>db. db_invocations db = []) invocation_step example_running_db"
    by (rule reachable.start)
  then have "reachable (\<lambda>db. db_invocations db = []) invocation_step db'"
    using is_begin [OF b(1)] by (rule reachable.move)
  with invocations_invariant_reachable [OF this b(2)] b(2,3) show ?thesis by blast
qed

text \<open>
  What has been recorded about an invocation is never taken back, whatever operations follow: it
  keeps its identity, generation and fence; once fenced (stale or duplicate) it is never current again;
  its first result, outcome and terminal time stay as they are; its cancellation only advances, and a
  final cancellation answer is final; a started dispatch stays recorded.
\<close>

theorem invocation_record_monotone:
  assumes "invocations_inv (db_invocations db)" and "invocation_step\<^sup>*\<^sup>* db db'" and "r \<in> set (db_invocations db)"
  shows "\<exists>r' \<in> set (db_invocations db').
    iv_id r' = iv_id r \<and> iv_generation r' = iv_generation r \<and> iv_fence_token r' = iv_fence_token r \<and>
    (iv_admission_state r \<noteq> Adm_current \<longrightarrow> iv_admission_state r' \<noteq> Adm_current) \<and>
    (iv_provider_result_digest r \<noteq> None \<longrightarrow>
       iv_provider_result_digest r' = iv_provider_result_digest r \<and>
       iv_terminal_outcome r' = iv_terminal_outcome r \<and> iv_terminal_at r' = iv_terminal_at r) \<and>
    CANCEL_RANK (iv_cancellation_state r) \<le> CANCEL_RANK (iv_cancellation_state r') \<and>
    (CANCEL_RANK (iv_cancellation_state r) = 3 \<longrightarrow> iv_cancellation_state r' = iv_cancellation_state r) \<and>
    (iv_dispatch_started_at r \<noteq> None \<longrightarrow> iv_dispatch_started_at r' \<noteq> None)"
proof -
  obtain r' where r': "r' \<in> set (db_invocations db')" "iv_safe r r'"
    using invocation_steps_safe [OF assms(2,1,3)] by blast
  have "CANCEL_RANK c \<le> 3" for c
    by (cases c) simp_all
  then have "cancel_advances c c' \<Longrightarrow> CANCEL_RANK c \<le> CANCEL_RANK c' \<and> (CANCEL_RANK c = 3 \<longrightarrow> c' = c)" for c c'
    unfolding cancel_advances_def by (metis leD less_imp_le order_refl)
  then have "CANCEL_RANK (iv_cancellation_state r) \<le> CANCEL_RANK (iv_cancellation_state r') \<and>
      (CANCEL_RANK (iv_cancellation_state r) = 3 \<longrightarrow> iv_cancellation_state r' = iv_cancellation_state r)"
    using r'(2) by (simp add: iv_safe_def)
  with r' show ?thesis
    by (intro bexI [of _ r']) (auto simp: iv_safe_def)
qed

theorem invocation_record_monotone_witness:
  "\<exists>db'. invocation_step example_iv_db db' \<and> (\<exists>r' \<in> set (db_invocations db'). iv_id r' = ''i1'' \<and> iv_generation r' = 1)"
proof -
  let ?db' = "snd (mark_lease_lost example_invocation 5 example_iv_db)"
  have step: "invocation_step example_iv_db ?db'"
    by (rule is_lease_lost [OF prod.collapse [symmetric]])
  have "example_invocation \<in> set (db_invocations example_iv_db)"
    by (simp add: example_iv_db_def)
  from invocation_record_monotone [OF example_iv_inv r_into_rtranclp [of invocation_step, OF step] this] step
  show ?thesis by (auto simp: example_invocation_def)
qed

text \<open>
  C26: A terminal result is admitted (\<open>admit_terminal\<close> returns true) exactly when its digest is well
  formed, the caller holds the fence token, the invocation is current and holds no result yet, no other
  invocation holds the same digest, and the job it belongs to is running under the same owner, in the
  same lease generation, with an unexpired lease. The admitted result is then stored in its row.
\<close>

theorem admit_terminal_iff_live:
  assumes "invocations_inv (db_invocations db)"
  shows "fst (admit_terminal iv d oc u now db) = Inr True \<longleftrightarrow>
    is_sha256 d \<and>
    (\<exists>cur \<in> set (db_invocations db).
       iv_id cur = iv_id iv \<and> iv_fence_token cur = iv_fence_token iv \<and>
       iv_admission_state cur = Adm_current \<and> iv_provider_result_digest cur = None \<and>
       (\<forall>r \<in> set (db_invocations db). iv_provider_result_digest r \<noteq> Some d) \<and>
       (\<exists>job. job_by_id db (iv_job_id cur) = Some job \<and> jb_status job = Job_running \<and>
          jb_lease_owner job = Some (iv_lease_owner cur) \<and> job_generation job = iv_generation cur \<and>
          (\<exists>t. jb_lease_expires_at job = Some t \<and> now < t)))"
    (is "?admitted \<longleftrightarrow> ?cond")
proof -
  have ids: "distinct (map iv_id (db_invocations db))"
    using assms by (simp add: invocations_inv_def)
  have live: "admission_is_live db cur now \<longleftrightarrow> iv_admission_state cur = Adm_current \<and>
      (\<exists>job. job_by_id db (iv_job_id cur) = Some job \<and> jb_status job = Job_running \<and>
          jb_lease_owner job = Some (iv_lease_owner cur) \<and> job_generation job = iv_generation cur \<and>
          (\<exists>t. jb_lease_expires_at job = Some t \<and> now < t))" for cur
    by (auto simp: admission_is_live_def expired_def split: option.splits)
  have unused: "(\<forall>r \<in> set (db_invocations db). iv_provider_result_digest r = Some d \<longrightarrow> iv_id r = iv_id iv)
      \<longleftrightarrow> (\<forall>r \<in> set (db_invocations db). iv_provider_result_digest r \<noteq> Some d)"
    if "cur \<in> set (db_invocations db)" "iv_id cur = iv_id iv" "iv_provider_result_digest cur = None" for cur
    using that ids by (auto dest: distinct_map_key_unique)
  show ?thesis
  proof
    assume ?admitted
    then have d: "is_sha256 d" and "fst (transaction (admit_body iv d oc u now) db) = Inr True"
      by (auto simp: admit_terminal_def split: if_splits)
    then obtain cur where cur: "locked db iv False = Inr cur" "iv_provider_result_digest cur = None"
        "\<forall>r \<in> set (db_invocations db). iv_provider_result_digest r = Some d \<longrightarrow> iv_id r = iv_id iv"
        "admission_is_live db cur now"
      by (auto simp: transaction_def admit_body_def bind_r_def Let_def filter_empty_conv
          split: sum.splits if_splits prod.splits)
    with d locked_Inr [OF cur(1)] show ?cond
      unfolding live using unused by blast
  next
    assume ?cond
    then obtain cur where cur: "cur \<in> set (db_invocations db)" "iv_id cur = iv_id iv"
        "iv_fence_token cur = iv_fence_token iv" "iv_provider_result_digest cur = None"
        "\<forall>r \<in> set (db_invocations db). iv_provider_result_digest r \<noteq> Some d"
        "admission_is_live db cur now" and d: "is_sha256 d"
      unfolding live by blast
    have "filter (\<lambda>r. iv_id r = iv_id iv \<and> iv_fence_token r = iv_fence_token iv) (db_invocations db)
        = filter (\<lambda>r. iv_id r = iv_id cur) (db_invocations db)"
      using cur(1-3) ids by (intro filter_cong) (auto dest: distinct_map_key_unique)
    then have "locked db iv False = Inr cur"
      using filter_key_unique [OF ids cur(1)] by (simp add: locked_def)
    with d cur(4-6) show ?admitted
      by (auto simp: admit_terminal_def transaction_def admit_body_def Let_def filter_empty_conv)
  qed
qed

lemma example_iv_rows: "db_invocations example_iv_db = [example_invocation]"
  by (simp add: example_iv_db_def)

lemma example_iv_job:
  "job_by_id example_iv_db ''j1'' = Some (claim_row ''w1'' ''t1'' (seconds 60) 0
     (queued_job ''j1'' ''x1'' (Some ''a1'') ''attempt'' 0 [] 0))"
  by (simp add: job_by_id_def example_iv_db_def example_running_db_def claim_row_def queued_job_def)

theorem admit_terminal_iff_live_witness:
  "fst (admit_terminal example_invocation example_digest ''completed'' Use_observed 5 example_iv_db) = Inr True"
proof -
  have "is_sha256 example_digest"
    by (simp add: is_sha256_def example_digest_def hex_digits_def list_all_iff)
  then show ?thesis
    unfolding admit_terminal_iff_live [OF example_iv_inv]
    by (auto simp: example_iv_rows example_invocation_def example_iv_job claim_row_def
        queued_job_def job_generation_def)
qed

text \<open>
  A dispatch starts only for the current invocation, before any observed effect, and never after
  one of its budget reservations has left the state \<open>reserved\<close>; otherwise nothing is written.
\<close>

theorem dispatch_requires_open_reservation:
  assumes "mark_dispatch_started iv now db = (Inr r, db')"
  shows "(\<forall>b \<in> set (db_reservations db). br_invocation_id b = Some (iv_id iv) \<longrightarrow> br_state b = Res_reserved) \<and>
    (\<exists>cur \<in> set (db_invocations db). iv_id cur = iv_id iv \<and> iv_fence_token cur = iv_fence_token iv \<and>
       iv_admission_state cur = Adm_current \<and> iv_side_effect_state cur \<in> {Eff_not_started, Eff_possible}) \<and>
    db' = update_invocation (iv_id iv) (\<lambda>r. r\<lparr>iv_dispatch_started_at := Some now,
      iv_side_effect_state := Eff_possible, iv_updated_at := now\<rparr>) db"
proof -
  let ?body = "\<lambda>db. bind_r (locked db iv True) (\<lambda>current.
       bind_r (raise_if (iv_side_effect_state current \<notin> {Eff_not_started, Eff_possible})
         (ValueError ''invocation side-effect state cannot move backwards'')) (\<lambda>_.
       bind_r (raise_if (settled_reservation db (iv_id iv) \<noteq> None)
         (ValueError ''invocation cannot dispatch after its reservation was settled'')) (\<lambda>_.
       Inr ((), update_invocation (iv_id iv)
         (\<lambda>r. r\<lparr>iv_dispatch_started_at := Some now, iv_side_effect_state := Eff_possible,
                 iv_updated_at := now\<rparr>) db))))"
  from assms have "?body db = Inr ((), db')"
    unfolding mark_dispatch_started_def then_get_def
    by (auto simp: transaction_def split: sum.splits prod.splits)
  then obtain cur where cur: "locked db iv True = Inr cur"
      "iv_side_effect_state cur \<in> {Eff_not_started, Eff_possible}"
      "settled_reservation db (iv_id iv) = None"
      "db' = update_invocation (iv_id iv) (\<lambda>r. r\<lparr>iv_dispatch_started_at := Some now,
        iv_side_effect_state := Eff_possible, iv_updated_at := now\<rparr>) db"
    by (auto simp: bind_r_eq_Inr_iff)
  from cur(3) have "\<forall>b \<in> set (db_reservations db). br_invocation_id b = Some (iv_id iv) \<longrightarrow> br_state b = Res_reserved"
    by (auto simp: settled_reservation_def filter_empty_conv)
  with locked_Inr [OF cur(1)] cur(2,4) show ?thesis by blast
qed

lemma example_dispatch: "\<exists>r db'. mark_dispatch_started example_invocation 5 example_iv_db = (Inr r, db')"
  by (simp add: mark_dispatch_started_def transaction_def locked_def example_iv_db_def settled_reservation_def
      example_running_db_def example_log_db_def then_get_def get_invocation_def update_invocation_def
      update_where_def example_invocation_def)

theorem dispatch_requires_open_reservation_witness:
  "\<exists>r db'. mark_dispatch_started example_invocation 5 example_iv_db = (Inr r, db') \<and>
     (\<forall>b \<in> set (db_reservations example_iv_db). br_invocation_id b = Some ''i1'' \<longrightarrow> br_state b = Res_reserved)"
proof -
  obtain r db' where m: "mark_dispatch_started example_invocation 5 example_iv_db = (Inr r, db')"
    using example_dispatch by blast
  from dispatch_requires_open_reservation [OF m] m show ?thesis
    by (auto simp: example_invocation_def)
qed

lemma hex_value_bounds: "c \<in> set hex_digits \<Longrightarrow> 0 \<le> hex_value c \<and> hex_value c \<le> 15"
  by (auto simp: hex_digits_def hex_value_def)

lemma int_of_hex_bounds:
  "list_all (\<lambda>c. c \<in> set hex_digits) s \<Longrightarrow> 0 \<le> int_of_hex s \<and> int_of_hex s < 16 ^ length s"
proof (induction s rule: rev_induct)
  case Nil
  then show ?case by (simp add: int_of_hex_def)
next
  case (snoc c s)
  have "int_of_hex (s @ [c]) = 16 * int_of_hex s + hex_value c"
    by (simp add: int_of_hex_def)
  with snoc hex_value_bounds [of c] show ?case by auto
qed

text \<open>
  The advisory lock key computed from a hexadecimal digest is a signed 64-bit integer, and two
  digests with different leading 64 bits give different keys.
\<close>

theorem advisory_lock_key_signed:
  assumes "\<And>j. is_sha256 (h j)"
  shows "- (2 ^ 63) \<le> advisory_lock_key h lock_dom i \<and> advisory_lock_key h lock_dom i < 2 ^ 63 \<and>
    (advisory_lock_key h lock_dom i = advisory_lock_key h lock_dom2 i' \<longleftrightarrow>
       int_of_hex (take 16 (h (JObj [(''advisory_lock_domain'', JStr lock_dom), (''identity'', i)]))) =
       int_of_hex (take 16 (h (JObj [(''advisory_lock_domain'', JStr lock_dom2), (''identity'', i')]))))"
proof -
  have "0 \<le> int_of_hex (take 16 (h j)) \<and> int_of_hex (take 16 (h j)) < 2 ^ 64" for j
  proof -
    have "list_all (\<lambda>c. c \<in> set hex_digits) (take 16 (h j))" "length (take 16 (h j)) = 16"
      using assms [of j] by (auto simp: is_sha256_def list_all_iff dest: in_set_takeD)
    with int_of_hex_bounds [of "take 16 (h j)"] show ?thesis by simp
  qed
  from this [of "JObj [(''advisory_lock_domain'', JStr lock_dom), (''identity'', i)]"]
    this [of "JObj [(''advisory_lock_domain'', JStr lock_dom2), (''identity'', i')]"]
  show ?thesis
    by (auto simp: advisory_lock_key_def Let_def)
qed

theorem advisory_lock_key_signed_witness:
  "- (2 ^ 63) \<le> advisory_lock_key (\<lambda>_. example_digest) ''d'' JNull \<and>
   advisory_lock_key (\<lambda>_. example_digest) ''d'' JNull < 2 ^ 63"
proof -
  have "is_sha256 example_digest"
    by (simp add: is_sha256_def example_digest_def hex_digits_def list_all_iff)
  from advisory_lock_key_signed [of "\<lambda>_. example_digest" "''d''" JNull "''d''" JNull, OF this]
  show ?thesis by blast
qed

end
