(* ===== verification/Currency.thy ===== *)
theory Currency
  imports Arena_Prelude
begin

text \<open>
  The currency policy of \<open>src/backend/execution_v1/currency.py\<close>: amounts are rounded half-even to one
  billionth of a dollar before they are compared, added or stored.

  Amounts are rationals. \<open>currency_float\<close> stores the rounded amount in a binary float, and every
  reader applies \<open>Decimal(str(x))\<close> and rounds again; for amounts below a million dollars the float has
  the fifteen significant digits that make this round trip exact, and the model keeps the rational.
\<close>

definition currency_quantum :: rat where
  "currency_quantum = 1 / 1000000000"

definition currency :: "rat \<Rightarrow> rat" where
  "currency v = of_int (round_half_even (v * 1000000000)) / 1000000000"

definition currency_float :: "rat \<Rightarrow> rat" where
  "currency_float v = currency v"

definition currency_equal :: "rat \<Rightarrow> rat \<Rightarrow> bool" where
  "currency_equal l r \<longleftrightarrow> currency l = currency r"

definition currency_exceeds :: "rat \<Rightarrow> rat \<Rightarrow> bool" where
  "currency_exceeds l r \<longleftrightarrow> currency l > currency r"

lemma currency_of_units: "currency (of_int n / 1000000000) = of_int n / 1000000000"
  by (simp add: currency_def)

lemma currency_units: obtains n where "currency v = of_int n / 1000000000"
  by (simp add: currency_def)

lemma currency_0 [simp]: "currency 0 = 0"
  using currency_of_units [of 0] by simp

lemma currency_idem [simp]: "currency (currency v) = currency v"
  using currency_of_units [of "round_half_even (v * 1000000000)"] by (simp add: currency_def [of v])

lemma currency_mono: "p \<le> q \<Longrightarrow> currency p \<le> currency q"
  unfolding currency_def by (intro divide_right_mono) (auto intro: round_half_even_mono)

lemma currency_nonneg: "0 \<le> v \<Longrightarrow> 0 \<le> currency v"
  using currency_mono [of 0 v] by simp

lemma currency_add [simp]: "currency (currency p + currency q) = currency p + currency q"
proof -
  obtain m n where m: "currency p = of_int m / 1000000000" and n: "currency q = of_int n / 1000000000"
    by (meson currency_units)
  have "currency p + currency q = of_int (m + n) / 1000000000"
    by (simp add: m n add_divide_distrib)
  then show ?thesis by (simp only: currency_of_units)
qed

lemma currency_sum: "currency (sum_list (map currency vs)) = sum_list (map currency vs)"
proof (induction vs)
  case Nil
  then show ?case by simp
next
  case (Cons v vs)
  have "currency (currency v + currency (sum_list (map currency vs)))
      = currency v + currency (sum_list (map currency vs))"
    by (rule currency_add)
  with Cons show ?case by simp
qed

lemma currency_error: "\<bar>currency v - v\<bar> \<le> currency_quantum / 2"
proof -
  have "currency v - v = (of_int (round_half_even (v * 1000000000)) - v * 1000000000) / 1000000000"
    by (simp add: currency_def diff_divide_distrib)
  then have "\<bar>currency v - v\<bar>
      = \<bar>of_int (round_half_even (v * 1000000000)) - v * 1000000000\<bar> / 1000000000"
    by (simp only: abs_divide abs_numeral)
  also have "\<dots> \<le> (1 / 2) / 1000000000"
    using round_half_even_error by (intro divide_right_mono) auto
  finally show ?thesis by (simp add: currency_quantum_def)
qed

text \<open>
  Rounding to currency is deterministic accounting: it moves an amount by at most half a
  nanodollar, is idempotent and monotone, and a sum of rounded amounts needs no further rounding, so
  totals do not depend on the order in which amounts were added and no rounding error accumulates.
\<close>

theorem currency_exact_accounting:
  "\<bar>currency v - v\<bar> \<le> currency_quantum / 2 \<and> currency (currency v) = currency v \<and>
   (v < w \<and> \<not> currency_equal v w \<longrightarrow> currency_exceeds w v) \<and>
   currency (sum_list (map currency vs)) = sum_list (map currency vs)"
  using currency_error [of v] currency_mono [of v w] currency_sum [of vs]
  by (auto simp: currency_equal_def currency_exceeds_def)

theorem currency_exact_accounting_witness:
  "(1 / 10 :: rat) < 2 / 10 \<and> currency_exceeds (2 / 10) (1 / 10)"
proof -
  have "\<not> currency_equal (1 / 10) (2 / 10)"
    using currency_of_units [of 100000000] currency_of_units [of 200000000] by (simp add: currency_equal_def)
  with currency_exact_accounting [of "1 / 10" "2 / 10" "[]"] show ?thesis by simp
qed

end
