(* ===== verification/Provider_Models.thy ===== *)
theory Provider_Models
  imports Currency Attempt_Input
begin

text \<open>
  The usage a provider reports for an attempt: \<open>ProviderUsage\<close> of
  \<open>src/backend/adapters_v1/models.py\<close>, with the checks its fields and validator make.
\<close>

datatype evidence_source = Provider_reported | Fixture_recorded

record provider_usage =
  pu_evidence_source :: evidence_source
  pu_input_tokens :: "int option"
  pu_output_tokens :: "int option"
  pu_total_tokens :: "int option"
  pu_context_tokens :: "int option"
  pu_tool_calls :: "int option"
  pu_cached_input_tokens :: "int option"
  pu_service_tier :: "string option"
  pu_billing_profile :: "string option"
  pu_tool_billing_usd :: "rat option"
  pu_actual_cost_usd :: "rat option"
  pu_provider_usage_digest :: "string option"
  pu_observed_provider_version :: "string option"
  pu_observed_endpoint_digest :: "string option"
  pu_operator_attested_runtime_revision :: "string option"

definition opt_all :: "('a \<Rightarrow> bool) \<Rightarrow> 'a option \<Rightarrow> bool" where
  "opt_all P v = (case v of None \<Rightarrow> True | Some a \<Rightarrow> P a)"

lemma opt_all_simps [simp]: "opt_all P None" "opt_all P (Some a) = P a"
  by (simp_all add: opt_all_def)

definition usage_fields_ok :: "provider_usage \<Rightarrow> bool" where
  "usage_fields_ok u \<longleftrightarrow>
     opt_all (\<lambda>n. 0 \<le> n) (pu_input_tokens u) \<and> opt_all (\<lambda>n. 0 \<le> n) (pu_output_tokens u) \<and>
     opt_all (\<lambda>n. 0 \<le> n) (pu_total_tokens u) \<and> opt_all (\<lambda>n. 0 \<le> n) (pu_context_tokens u) \<and>
     opt_all (\<lambda>n. 0 \<le> n) (pu_tool_calls u) \<and> opt_all (\<lambda>n. 0 \<le> n) (pu_cached_input_tokens u) \<and>
     opt_all (\<lambda>s. s \<noteq> []) (pu_service_tier u) \<and> opt_all (\<lambda>s. s \<noteq> []) (pu_billing_profile u) \<and>
     opt_all (\<lambda>q. 0 \<le> q) (pu_tool_billing_usd u) \<and> opt_all (\<lambda>q. 0 \<le> q) (pu_actual_cost_usd u) \<and>
     opt_all is_sha256 (pu_provider_usage_digest u) \<and>
     opt_all (\<lambda>s. s \<noteq> []) (pu_observed_provider_version u) \<and>
     opt_all is_sha256 (pu_observed_endpoint_digest u) \<and>
     opt_all (\<lambda>s. s \<noteq> []) (pu_operator_attested_runtime_revision u)"

definition validate_token_consistency :: "provider_usage \<Rightarrow> provider_usage result" where
  "validate_token_consistency u =
     bind_r (raise_if (pu_total_tokens u \<noteq> None \<and>
         (pu_input_tokens u \<noteq> None \<or> pu_output_tokens u \<noteq> None) \<and>
         (case (pu_input_tokens u, pu_output_tokens u) of
            (Some i, Some j) \<Rightarrow> pu_total_tokens u \<noteq> Some (i + j)
          | _ \<Rightarrow> True))
       (ValueError ''total_tokens must equal input_tokens plus output_tokens when both are reported''))
     (\<lambda>_. Inr u)"

definition complete_usage :: "provider_usage \<Rightarrow> bool" where
  "complete_usage u \<longleftrightarrow>
     pu_input_tokens u \<noteq> None \<and> pu_output_tokens u \<noteq> None \<and> pu_total_tokens u \<noteq> None \<and>
     pu_context_tokens u \<noteq> None \<and> pu_tool_calls u \<noteq> None"

definition complete_evidence :: "provider_usage \<Rightarrow> bool" where
  "complete_evidence u \<longleftrightarrow>
     pu_input_tokens u \<noteq> None \<and> pu_output_tokens u \<noteq> None \<and> pu_total_tokens u \<noteq> None \<and>
     pu_context_tokens u \<noteq> None \<and> pu_tool_calls u \<noteq> None \<and> pu_provider_usage_digest u \<noteq> None \<and>
     pu_observed_provider_version u \<noteq> None \<and> pu_observed_endpoint_digest u \<noteq> None"

text \<open>A \<open>ProviderUsage\<close> object exists only when its fields and its validator accept it.\<close>

definition valid_usage :: "provider_usage \<Rightarrow> bool" where
  "valid_usage u \<longleftrightarrow> usage_fields_ok u \<and> validate_token_consistency u = Inr u"

lemma valid_usage_total:
  assumes "valid_usage u" and "pu_input_tokens u = Some i" and "pu_output_tokens u = Some j"
    and "pu_total_tokens u = Some t"
  shows "t = i + j"
  using assms by (simp add: valid_usage_def validate_token_consistency_def)

end
