(* ===== verification/Reservations.thy ===== *)
theory Reservations
  imports Invocation_Invariants Provider_Models
begin

text \<open>
  Reservation accounting: \<open>BudgetReservationService\<close> as the public module
  \<open>src/backend/execution_v1/budget.py\<close> exports it, that is the class of
  \<open>reservation_policy.py\<close> over the class of \<open>reservations.py\<close> over the base of \<open>_budget_kernel.py\<close>.
  A method that a subclass overrides is modelled in the version of the subclass.

  The check constraints of \<open>usage_ledger\<close> are \<open>ledger_ok\<close>; a write that breaks them raises
  \<open>IntegrityError\<close>. Operations that raise or read after their transaction has committed return the
  committed database together with their result.
\<close>

section \<open>The ledger and its constraints\<close>

definition ledger_ok :: "ledger_row \<Rightarrow> bool" where
  "ledger_ok u \<longleftrightarrow>
     opt_all (\<lambda>n. 0 \<le> n) (ul_input_tokens u) \<and> opt_all (\<lambda>n. 0 \<le> n) (ul_output_tokens u) \<and>
     opt_all (\<lambda>n. 0 \<le> n) (ul_total_tokens u) \<and> opt_all (\<lambda>n. 0 \<le> n) (ul_context_tokens u) \<and>
     opt_all (\<lambda>n. 0 \<le> n) (ul_tool_calls u) \<and> opt_all (\<lambda>n. 0 \<le> n) (ul_reserved_max_tokens u) \<and>
     opt_all (\<lambda>n. 0 \<le> n) (ul_reserved_max_tool_calls u) \<and>
     (ul_cost_status u = Cost_unknown \<longrightarrow> ul_cost_usd u = None \<and> ul_actual_cost_usd u = None) \<and>
     (ul_cost_status u = Cost_reconciled \<longrightarrow>
        ul_cost_usd u \<noteq> None \<and> ul_actual_cost_usd u \<noteq> None \<and> ul_price_catalog_revision u \<noteq> None \<and>
        (case ul_provider_usage_digest u of None \<Rightarrow> False | Some d \<Rightarrow> length d = 64) \<and>
        (case (ul_input_tokens u, ul_output_tokens u, ul_total_tokens u) of
           (Some i, Some j, Some t) \<Rightarrow> t = i + j | _ \<Rightarrow> False) \<and>
        ul_context_tokens u \<noteq> None \<and> ul_tool_calls u \<noteq> None) \<and>
     opt_all (\<lambda>q. 0 \<le> q) (ul_cost_usd u) \<and> opt_all (\<lambda>q. 0 \<le> q) (ul_reserved_cost_usd u) \<and>
     opt_all (\<lambda>q. 0 \<le> q) (ul_estimated_cost_usd u) \<and> opt_all (\<lambda>q. 0 \<le> q) (ul_actual_cost_usd u)"

definition update_ledger :: "string \<Rightarrow> (ledger_row \<Rightarrow> ledger_row) \<Rightarrow> arena_db \<Rightarrow> arena_db result" where
  "update_ledger ledger_id f db =
     (if list_all (\<lambda>u. ul_id u = ledger_id \<longrightarrow> ledger_ok (f u)) (db_ledger db)
      then Inr (db\<lparr>db_ledger := update_where (\<lambda>u. ul_id u = ledger_id) f (db_ledger db)\<rparr>)
      else Inl (IntegrityError ''usage_ledger''))"

definition insert_ledger :: "ledger_row \<Rightarrow> arena_db \<Rightarrow> arena_db result" where
  "insert_ledger row db =
     (if list_ex (\<lambda>u. ul_id u = ul_id row) (db_ledger db) \<or> \<not> ledger_ok row
      then Inl (IntegrityError ''usage_ledger'')
      else if \<not> list_ex (\<lambda>x. ex_id x = ul_execution_id row) (db_executions db) \<or>
              \<not> opt_all (\<lambda>a. list_ex (\<lambda>t. at_id t = a) (db_attempts db)) (ul_attempt_id row)
      then Inl (IntegrityError ''usage_ledger foreign key'')
      else Inr (db\<lparr>db_ledger := db_ledger db @ [row]\<rparr>))"

definition insert_reservation_row :: "reservation_row \<Rightarrow> arena_db \<Rightarrow> arena_db result" where
  "insert_reservation_row row db =
     (if list_ex (\<lambda>b. br_id b = br_id row \<or> br_ledger_id b = br_ledger_id row) (db_reservations db)
         \<or> br_version row = 0
      then Inl (IntegrityError ''budget_reservations'')
      else Inr (db\<lparr>db_reservations := db_reservations db @ [row]\<rparr>))"

record cost_reconciliation =
  cr_ledger_id :: string
  cr_status :: cost_status
  cr_cost_usd :: "rat option"

definition SETTLED_STATES :: "reservation_state list" where
  "SETTLED_STATES = [Res_committed, Res_released, Res_expired]"

definition digest_ok :: "string option \<Rightarrow> bool" where
  "digest_ok v = (case v of None \<Rightarrow> False | Some d \<Rightarrow> is_sha256 d)"

definition usage_values ::
  "provider_usage option \<Rightarrow> int option \<Rightarrow> int option \<Rightarrow> ledger_row \<Rightarrow> ledger_row" where
  "usage_values usage input_tokens output_tokens u =
     (case usage of
        None \<Rightarrow> u\<lparr>ul_input_tokens := input_tokens, ul_output_tokens := output_tokens,
                  ul_total_tokens := None, ul_context_tokens := None, ul_tool_calls := None\<rparr>
      | Some p \<Rightarrow> u\<lparr>ul_input_tokens := pu_input_tokens p, ul_output_tokens := pu_output_tokens p,
                    ul_total_tokens := pu_total_tokens p, ul_context_tokens := pu_context_tokens p,
                    ul_tool_calls := pu_tool_calls p\<rparr>)"

text \<open>Clearing the amounts and their evidence, under a new status.\<close>

definition clear_cost :: "cost_status \<Rightarrow> ledger_row \<Rightarrow> ledger_row" where
  "clear_cost status u =
     u\<lparr>ul_cost_status := status, ul_cost_usd := None, ul_actual_cost_usd := None,
       ul_price_catalog_revision := None, ul_provider_usage_digest := None\<rparr>"

section \<open>Reading and locking\<close>

definition lifecycle :: "arena_db \<Rightarrow> string \<Rightarrow> reservation_row result" where
  "lifecycle db ledger_id =
     (case first (filter (\<lambda>b. br_ledger_id b = ledger_id) (db_reservations db)) of
        None \<Rightarrow> Inl (KeyError ledger_id) | Some row \<Rightarrow> Inr row)"

definition latest_for_attempt :: "arena_db \<Rightarrow> string \<Rightarrow> ledger_row option" where
  "latest_for_attempt db attempt_id =
     first (rev (sort_key ul_created_at (filter (\<lambda>u. ul_attempt_id u = Some attempt_id) (db_ledger db))))"

definition require_open :: "arena_db \<Rightarrow> string \<Rightarrow> reservation_row result" where
  "require_open db ledger_id =
     bind_r (lifecycle db ledger_id) (\<lambda>row.
     bind_r (raise_if (br_state row \<in> set SETTLED_STATES)
       (ValueError ''terminal reservation lifecycle is immutable'')) (\<lambda>_. Inr row))"

definition lock_invocation :: "arena_db \<Rightarrow> string option \<Rightarrow> invocation_row option" where
  "lock_invocation db invocation_id =
     (case invocation_id of
        None \<Rightarrow> None
      | Some i \<Rightarrow> first (filter (\<lambda>r. iv_id r = i) (db_invocations db)))"

definition lock_bound_invocation :: "arena_db \<Rightarrow> string \<Rightarrow> invocation_row option result" where
  "lock_bound_invocation db ledger_id =
     bind_r (scalar_one_or_none (map br_invocation_id
       (filter (\<lambda>b. br_ledger_id b = ledger_id) (db_reservations db)))) (\<lambda>found.
     Inr (lock_invocation db (case found of None \<Rightarrow> None | Some i \<Rightarrow> i)))"

definition transition ::
  "string \<Rightarrow> reservation_state \<Rightarrow> string \<Rightarrow> datetime \<Rightarrow> arena_db \<Rightarrow> arena_db result" where
  "transition ledger_id state reason observed_at db =
     bind_r (require_open db ledger_id) (\<lambda>row.
     let condition = (\<lambda>b. br_ledger_id b = ledger_id \<and> br_version b = br_version row)
     in if rowcount condition (db_reservations db) \<noteq> 1
        then Inl (ValueError ''reservation lifecycle changed concurrently'')
        else Inr (db\<lparr>db_reservations := update_where condition
               (\<lambda>b. b\<lparr>br_state := state, br_reason := Some reason, br_version := br_version row + 1,
                       br_updated_at := observed_at,
                       br_terminal_at := (if state \<in> set SETTLED_STATES then Some observed_at else None)\<rparr>)
               (db_reservations db)\<rparr>))"

section \<open>Reserving\<close>

definition insert_reservation ::
  "string \<Rightarrow> string \<Rightarrow> string \<Rightarrow> string \<Rightarrow> string \<Rightarrow> rat \<Rightarrow> int option \<Rightarrow> int option \<Rightarrow> datetime \<Rightarrow> arena_db
    \<Rightarrow> arena_db result" where
  "insert_reservation ledger_id reservation_id execution_id attempt_id model_id max_cost_usd max_tokens
       max_tool_calls observed_at db =
     bind_r (scalar_one_or_none (map iv_id (rev (sort_key iv_generation
       (filter (\<lambda>r. iv_attempt_id r = attempt_id \<and> iv_admission_state r = Adm_current)
         (db_invocations db)))))) (\<lambda>invocation_id.
     bind_r (insert_ledger
       \<lparr>ul_id = ledger_id, ul_execution_id = execution_id, ul_attempt_id = Some attempt_id,
        ul_model_id = model_id, ul_input_tokens = None, ul_output_tokens = None, ul_total_tokens = None,
        ul_context_tokens = None, ul_tool_calls = None, ul_reserved_max_tokens = max_tokens,
        ul_reserved_max_tool_calls = max_tool_calls, ul_cost_status = Cost_reserved, ul_cost_usd = None,
        ul_reserved_cost_usd = Some (currency_float max_cost_usd),
        ul_estimated_cost_usd = Some (currency_float max_cost_usd), ul_actual_cost_usd = None,
        ul_price_catalog_revision = None, ul_provider_usage_digest = None,
        ul_created_at = observed_at\<rparr> db) (\<lambda>db1.
     insert_reservation_row
       \<lparr>br_id = reservation_id, br_ledger_id = ledger_id, br_execution_id = execution_id,
        br_attempt_id = Some attempt_id, br_invocation_id = invocation_id, br_state = Res_reserved,
        br_reason = None, br_version = 1, br_reserved_at = observed_at, br_updated_at = observed_at,
        br_terminal_at = None\<rparr> db1))"

definition negative :: "int option \<Rightarrow> bool" where
  "negative v = (case v of None \<Rightarrow> False | Some n \<Rightarrow> n < 0)"

definition reserve ::
  "string \<Rightarrow> string \<Rightarrow> string \<Rightarrow> rat \<Rightarrow> int option \<Rightarrow> int option \<Rightarrow> string \<Rightarrow> string \<Rightarrow> datetime \<Rightarrow> string tx" where
  "reserve execution_id attempt_id model_id max_cost_usd max_tokens max_tool_calls ledger_id
       reservation_id now db =
     bind_r (raise_if (currency max_cost_usd < 0 \<or> negative max_tokens \<or> negative max_tool_calls)
       (ValueError ''reservation cannot be negative'')) (\<lambda>_.
     bind_r (insert_reservation ledger_id reservation_id execution_id attempt_id model_id max_cost_usd
       max_tokens max_tool_calls now db) (\<lambda>db'. Inr (ledger_id, db')))"

record aggregate_limits =
  al_max_attempts :: "int option"
  al_max_total_cost_usd :: "rat option"
  al_max_total_tokens :: "int option"
  al_max_total_tool_calls :: "int option"

definition reservation_state_of :: "arena_db \<Rightarrow> ledger_row \<Rightarrow> reservation_state option" where
  "reservation_state_of db u =
     first (map br_state (filter (\<lambda>b. br_ledger_id b = ul_id u) (db_reservations db)))"

definition active_ledger :: "arena_db \<Rightarrow> string \<Rightarrow> ledger_row list" where
  "active_ledger db execution_id =
     filter (\<lambda>u. ul_execution_id u = execution_id \<and>
       reservation_state_of db u \<notin> {Some Res_released, Some Res_expired}) (db_ledger db)"

definition or_else :: "'a option \<Rightarrow> 'a option \<Rightarrow> 'a \<Rightarrow> 'a" where
  "or_else observed reserved zero =
     (case observed of Some v \<Rightarrow> v | None \<Rightarrow> (case reserved of Some v \<Rightarrow> v | None \<Rightarrow> zero))"

definition charged_cost :: "ledger_row \<Rightarrow> rat" where
  "charged_cost u = currency (or_else (ul_actual_cost_usd u) (ul_reserved_cost_usd u) 0)"

definition charged_tokens :: "ledger_row \<Rightarrow> int" where
  "charged_tokens u = or_else (ul_total_tokens u) (ul_reserved_max_tokens u) 0"

definition charged_tool_calls :: "ledger_row \<Rightarrow> int" where
  "charged_tool_calls u = or_else (ul_tool_calls u) (ul_reserved_max_tool_calls u) 0"

definition reserve_with_aggregate ::
  "string \<Rightarrow> string \<Rightarrow> string \<Rightarrow> rat \<Rightarrow> int option \<Rightarrow> int option \<Rightarrow> aggregate_limits \<Rightarrow> string \<Rightarrow> string
    \<Rightarrow> datetime \<Rightarrow> string tx" where
  "reserve_with_aggregate execution_id attempt_id model_id max_cost_usd max_tokens max_tool_calls limits
       ledger_id reservation_id now db =
     bind_r (raise_if (currency max_cost_usd < 0 \<or>
         (case al_max_attempts limits of None \<Rightarrow> False | Some n \<Rightarrow> n < 1) \<or>
         (case al_max_total_cost_usd limits of None \<Rightarrow> False | Some q \<Rightarrow> currency q < 0) \<or>
         negative max_tokens \<or> negative max_tool_calls \<or>
         negative (al_max_total_tokens limits) \<or> negative (al_max_total_tool_calls limits))
       (ValueError ''invalid aggregate reservation budget'')) (\<lambda>_.
     bind_r (scalar_one_or_none (map ex_id (filter (\<lambda>x. ex_id x = execution_id) (db_executions db)))) (\<lambda>found.
     bind_r (raise_if (found = None) (KeyError execution_id)) (\<lambda>_.
     let active = active_ledger db execution_id;
         prior_cost = sum_list (map charged_cost active) + currency 0;
         prior_tokens = sum_list (map charged_tokens active);
         prior_tool_calls = sum_list (map charged_tool_calls active)
     in
     bind_r (raise_if (case al_max_attempts limits of None \<Rightarrow> False | Some n \<Rightarrow> n \<le> int (length active))
       (AggregateBudgetExceeded ''aggregate attempt budget would be exceeded'')) (\<lambda>_.
     bind_r (raise_if (case al_max_total_cost_usd limits of None \<Rightarrow> False
           | Some q \<Rightarrow> currency_exceeds (prior_cost + currency max_cost_usd) q)
       (AggregateBudgetExceeded ''aggregate cost reservation would be exceeded'')) (\<lambda>_.
     bind_r (raise_if (case al_max_total_tokens limits of None \<Rightarrow> False
           | Some n \<Rightarrow> prior_tokens + or_else max_tokens None 0 > n)
       (AggregateBudgetExceeded ''aggregate token reservation would be exceeded'')) (\<lambda>_.
     bind_r (raise_if (case al_max_total_tool_calls limits of None \<Rightarrow> False
           | Some n \<Rightarrow> prior_tool_calls + or_else max_tool_calls None 0 > n)
       (AggregateBudgetExceeded ''aggregate tool-call reservation would be exceeded'')) (\<lambda>_.
     bind_r (insert_reservation ledger_id reservation_id execution_id attempt_id model_id max_cost_usd
       max_tokens max_tool_calls now db) (\<lambda>db'. Inr (ledger_id, db')))))))))"

section \<open>Settling\<close>

text \<open>
  The shape shared by \<open>unknown\<close>, \<open>mismatch\<close> and \<open>reconcile\<close>: write the ledger row, move the
  lifecycle, and after the commit complain when no ledger row was written.
\<close>

definition settle_body ::
  "string \<Rightarrow> (ledger_row \<Rightarrow> ledger_row) \<Rightarrow> reservation_state \<Rightarrow> string \<Rightarrow> datetime \<Rightarrow> nat tx" where
  "settle_body ledger_id f state reason now db =
     bind_r (require_open db ledger_id) (\<lambda>_.
     bind_r (update_ledger ledger_id f db) (\<lambda>db1.
     bind_r (transition ledger_id state reason now db1) (\<lambda>db2.
     Inr (rowcount (\<lambda>u. ul_id u = ledger_id) (db_ledger db), db2))))"

definition settle ::
  "string \<Rightarrow> (ledger_row \<Rightarrow> ledger_row) \<Rightarrow> reservation_state \<Rightarrow> string \<Rightarrow> datetime \<Rightarrow> cost_reconciliation
    \<Rightarrow> arena_db \<Rightarrow> cost_reconciliation result \<times> arena_db" where
  "settle ledger_id f state reason now value db =
     (case transaction (settle_body ledger_id f state reason now) db of
        (Inl e, db') \<Rightarrow> (Inl e, db')
      | (Inr n, db') \<Rightarrow> (if n \<noteq> 1 then Inl (KeyError ledger_id) else Inr value, db'))"

definition unknown ::
  "string \<Rightarrow> provider_usage option \<Rightarrow> datetime \<Rightarrow> arena_db \<Rightarrow> cost_reconciliation result \<times> arena_db" where
  "unknown ledger_id usage now =
     settle ledger_id (\<lambda>u. clear_cost Cost_unknown (usage_values usage None None u)) Res_unknown_usage
       ''provider usage could not be conclusively reconciled'' now
       \<lparr>cr_ledger_id = ledger_id, cr_status = Cost_unknown, cr_cost_usd = None\<rparr>"

definition mismatch ::
  "string \<Rightarrow> provider_usage option \<Rightarrow> datetime \<Rightarrow> arena_db \<Rightarrow> cost_reconciliation result \<times> arena_db" where
  "mismatch ledger_id usage now =
     settle ledger_id (\<lambda>u. clear_cost Cost_mismatch (usage_values usage None None u)) Res_disputed
       ''provider usage or pricing evidence did not match'' now
       \<lparr>cr_ledger_id = ledger_id, cr_status = Cost_mismatch, cr_cost_usd = None\<rparr>"

record reconcile_input =
  ri_input_tokens :: "int option"
  ri_output_tokens :: "int option"
  ri_actual_cost_usd :: "rat option"
  ri_provider_usage_digest :: "string option"
  ri_price_catalog_revision :: "string option"
  ri_expected_cost_usd :: "rat option"
  ri_usage :: "provider_usage option"

definition reconcile_valid :: "reconcile_input \<Rightarrow> bool" where
  "reconcile_valid i \<longleftrightarrow>
     ri_actual_cost_usd i \<noteq> None \<and> digest_ok (ri_provider_usage_digest i) \<and>
     (case ri_price_catalog_revision i of None \<Rightarrow> False | Some s \<Rightarrow> s \<noteq> []) \<and>
     (case ri_usage i of None \<Rightarrow> False | Some u \<Rightarrow> complete_usage u)"

definition reconcile_mismatch :: "reconcile_input \<Rightarrow> bool" where
  "reconcile_mismatch i \<longleftrightarrow>
     \<not> reconcile_valid i \<or>
     (case (ri_expected_cost_usd i, ri_actual_cost_usd i) of
        (Some e, Some a) \<Rightarrow> \<not> currency_equal a e | _ \<Rightarrow> False)"

definition reconcile ::
  "string \<Rightarrow> reconcile_input \<Rightarrow> datetime \<Rightarrow> arena_db \<Rightarrow> cost_reconciliation result \<times> arena_db" where
  "reconcile ledger_id i now db =
     (if negative (ri_input_tokens i) \<or> negative (ri_output_tokens i) \<or>
         (case ri_actual_cost_usd i of None \<Rightarrow> False | Some a \<Rightarrow> currency a < 0)
      then (Inl (ValueError ''usage and costs cannot be negative''), db)
      else
        let bad = reconcile_mismatch i;
            status = (if bad then Cost_mismatch else Cost_reconciled);
            cost = (if bad then None else map_option currency_float (ri_actual_cost_usd i));
            values = (\<lambda>u. (usage_values (ri_usage i) (ri_input_tokens i) (ri_output_tokens i) u)
              \<lparr>ul_cost_status := status, ul_cost_usd := cost, ul_actual_cost_usd := cost,
               ul_provider_usage_digest := (if digest_ok (ri_provider_usage_digest i)
                 then ri_provider_usage_digest i else None),
               ul_price_catalog_revision := (if reconcile_valid i then ri_price_catalog_revision i else None)\<rparr>)
        in settle ledger_id values (if bad then Res_disputed else Res_committed)
             (if bad then ''usage or price evidence mismatch'' else ''usage and price evidence reconciled'') now
             \<lparr>cr_ledger_id = ledger_id, cr_status = status, cr_cost_usd = cost\<rparr> db)"

section \<open>Releasing and expiring\<close>

definition dispatched_effect :: "invocation_row option \<Rightarrow> bool" where
  "dispatched_effect iv = (case iv of None \<Rightarrow> False | Some r \<Rightarrow> iv_side_effect_state r \<noteq> Eff_not_started)"

definition then_lifecycle :: "string \<Rightarrow> unit result \<times> arena_db \<Rightarrow> reservation_row result \<times> arena_db" where
  "then_lifecycle ledger_id outcome =
     (case outcome of (Inl e, db) \<Rightarrow> (Inl e, db) | (Inr _, db) \<Rightarrow> (lifecycle db ledger_id, db))"

definition release_body :: "string \<Rightarrow> string \<Rightarrow> datetime \<Rightarrow> unit tx" where
  "release_body ledger_id reason now db =
     bind_r (lock_bound_invocation db ledger_id) (\<lambda>invocation.
     bind_r (require_open db ledger_id) (\<lambda>_.
     bind_r (raise_if (dispatched_effect invocation)
       (ValueError ''reservation cannot be released after possible provider dispatch'')) (\<lambda>_.
     bind_r (update_ledger ledger_id (clear_cost Cost_released) db) (\<lambda>db1.
     bind_r (transition ledger_id Res_released reason now db1) (\<lambda>db2. Inr ((), db2))))))"

definition release_base ::
  "string \<Rightarrow> string \<Rightarrow> datetime \<Rightarrow> arena_db \<Rightarrow> reservation_row result \<times> arena_db" where
  "release_base ledger_id reason now db =
     (if list_all blank_char reason then (Inl (ValueError ''release requires a reason''), db)
      else then_lifecycle ledger_id (transaction (release_body ledger_id reason now) db))"

definition release ::
  "string \<Rightarrow> string \<Rightarrow> datetime \<Rightarrow> arena_db \<Rightarrow> reservation_row result \<times> arena_db" where
  "release ledger_id reason now db =
     (case lifecycle db ledger_id of
        Inl e \<Rightarrow> (Inl e, db)
      | Inr row \<Rightarrow>
          if br_state row \<in> set SETTLED_STATES
          then (Inl (ValueError ''terminal reservation lifecycle is immutable''), db)
          else if br_state row \<noteq> Res_reserved
          then (Inl (ValueError ''unknown or disputed usage cannot be released without reconciliation''), db)
          else release_base ledger_id reason now db)"

definition expire_body :: "string \<Rightarrow> string \<Rightarrow> datetime \<Rightarrow> unit tx" where
  "expire_body ledger_id reason now db =
     bind_r (lock_bound_invocation db ledger_id) (\<lambda>invocation.
     bind_r (require_open db ledger_id) (\<lambda>_.
     if dispatched_effect invocation then
       bind_r (update_ledger ledger_id (clear_cost Cost_unknown) db) (\<lambda>db1.
       bind_r (transition ledger_id Res_unknown_usage
         ''reservation reached expiry after possible provider dispatch'' now db1) (\<lambda>db2. Inr ((), db2)))
     else
       bind_r (update_ledger ledger_id (clear_cost Cost_expired) db) (\<lambda>db1.
       bind_r (transition ledger_id Res_expired reason now db1) (\<lambda>db2. Inr ((), db2)))))"

definition expire_base ::
  "string \<Rightarrow> string \<Rightarrow> datetime \<Rightarrow> arena_db \<Rightarrow> reservation_row result \<times> arena_db" where
  "expire_base ledger_id reason now db =
     then_lifecycle ledger_id (transaction (expire_body ledger_id reason now) db)"

definition expire ::
  "string \<Rightarrow> string \<Rightarrow> datetime \<Rightarrow> arena_db \<Rightarrow> reservation_row result \<times> arena_db" where
  "expire ledger_id reason now db =
     (case lifecycle db ledger_id of
        Inl e \<Rightarrow> (Inl e, db)
      | Inr row \<Rightarrow>
          if br_state row \<in> set SETTLED_STATES
          then (Inl (ValueError ''terminal reservation lifecycle is immutable''), db)
          else if br_state row \<noteq> Res_reserved
          then (Inl (ValueError ''only a reserved lifecycle can expire''), db)
          else expire_base ledger_id reason now db)"

section \<open>Settling what was left open\<close>

definition settle_open_row ::
  "invocation_row \<Rightarrow> string \<Rightarrow> datetime \<Rightarrow> reservation_row \<Rightarrow> string list \<times> arena_db
    \<Rightarrow> (string list \<times> arena_db) result" where
  "settle_open_row invocation reason now row = (\<lambda>(settled, db).
     let ledger_id = br_ledger_id row in
     bind_r (require_open db ledger_id) (\<lambda>locked_row.
     if br_state locked_row \<noteq> Res_reserved then Inr (settled, db)
     else if iv_side_effect_state invocation = Eff_not_started then
       bind_r (update_ledger ledger_id (\<lambda>u. u\<lparr>ul_cost_status := Cost_released\<rparr>) db) (\<lambda>db1.
       bind_r (transition ledger_id Res_released reason now db1) (\<lambda>db2.
       Inr (settled @ [ledger_id], db2)))
     else
       bind_r (update_ledger ledger_id (clear_cost Cost_unknown) db) (\<lambda>db1.
       bind_r (transition ledger_id Res_unknown_usage reason now db1) (\<lambda>db2.
       Inr (settled @ [ledger_id], db2)))))"

definition settle_open_for_invocation :: "string \<Rightarrow> string \<Rightarrow> datetime \<Rightarrow> string list tx" where
  "settle_open_for_invocation invocation_id reason now db =
     (case lock_invocation db (Some invocation_id) of
        None \<Rightarrow> Inr ([], db)
      | Some invocation \<Rightarrow>
          for_each (settle_open_row invocation reason now)
            (filter (\<lambda>b. br_invocation_id b = Some invocation_id \<and> br_state b = Res_reserved)
              (db_reservations db)) ([], db))"

definition lease_live_for :: "arena_db \<Rightarrow> reservation_row \<Rightarrow> datetime \<Rightarrow> bool" where
  "lease_live_for db row observed_at =
     (case lock_invocation db (br_invocation_id row) of
        None \<Rightarrow> False
      | Some iv \<Rightarrow>
          (case job_by_id db (iv_job_id iv) of
             None \<Rightarrow> False
           | Some job \<Rightarrow> jb_status job = Job_running \<and> \<not> expired (jb_lease_expires_at job) observed_at))"

text \<open>
  The query joins the job of each reservation before the loop; the loop writes reservations and
  ledger rows only, so the joined values are those of the database at the start.
\<close>

definition reconcile_stranded_row ::
  "arena_db \<Rightarrow> datetime \<Rightarrow> datetime \<Rightarrow> reservation_row \<Rightarrow> string list \<times> arena_db
    \<Rightarrow> (string list \<times> arena_db) result" where
  "reconcile_stranded_row start cutoff observed_at row = (\<lambda>(reconciled, db).
     if br_reserved_at row > cutoff then Inr (reconciled, db)
     else if lease_live_for start row observed_at then Inr (reconciled, db)
     else
       let ledger_id = br_ledger_id row;
           invocation = lock_invocation db (br_invocation_id row)
       in (case require_open db ledger_id of
             Inl (ValueError _) \<Rightarrow> Inr (reconciled, db)
           | Inl e \<Rightarrow> Inl e
           | Inr locked_row \<Rightarrow>
               if br_state locked_row \<noteq> Res_reserved then Inr (reconciled, db)
               else if \<not> dispatched_effect invocation then
                 bind_r (update_ledger ledger_id (\<lambda>u. u\<lparr>ul_cost_status := Cost_expired\<rparr>) db) (\<lambda>db1.
                 bind_r (transition ledger_id Res_expired
                     ''reservation expired before any provider dispatch was observed'' observed_at db1) (\<lambda>db2.
                 Inr (reconciled @ [ledger_id], db2)))
               else
                 bind_r (update_ledger ledger_id (clear_cost Cost_unknown) db) (\<lambda>db1.
                 bind_r (transition ledger_id Res_unknown_usage
                     ''reservation outlived its lease after possible provider dispatch'' observed_at db1) (\<lambda>db2.
                 Inr (reconciled @ [ledger_id], db2)))))"

definition reconcile_stranded :: "datetime \<Rightarrow> rat \<Rightarrow> string list tx" where
  "reconcile_stranded now stale_after_seconds db =
     bind_r (raise_if (stale_after_seconds < 0) (ValueError ''stale_after_seconds cannot be negative'')) (\<lambda>_.
     for_each (reconcile_stranded_row db (now - td_seconds stale_after_seconds) now)
       (filter (\<lambda>b. br_state b = Res_reserved) (db_reservations db)) ([], db))"

section \<open>The steps of the reservation tables\<close>

inductive reservation_step :: "arena_db \<Rightarrow> arena_db \<Rightarrow> bool" where
  rs_reserve: "reserve x a m c t k l r now db = Inr (v, db') \<Longrightarrow> reservation_step db db'"
| rs_reserve_aggregate: "reserve_with_aggregate x a m c t k lims l r now db = Inr (v, db') \<Longrightarrow> reservation_step db db'"
| rs_unknown: "opt_all valid_usage u \<Longrightarrow> unknown l u now db = (w, db') \<Longrightarrow> reservation_step db db'"
| rs_mismatch: "opt_all valid_usage u \<Longrightarrow> mismatch l u now db = (w, db') \<Longrightarrow> reservation_step db db'"
| rs_reconcile: "opt_all valid_usage (ri_usage i) \<Longrightarrow> reconcile l i now db = (w, db') \<Longrightarrow> reservation_step db db'"
| rs_release: "release l reason now db = (b, db') \<Longrightarrow> reservation_step db db'"
| rs_expire: "expire l reason now db = (b, db') \<Longrightarrow> reservation_step db db'"
| rs_settle_open: "settle_open_for_invocation i' reason now db = Inr (ls, db') \<Longrightarrow> reservation_step db db'"
| rs_stranded: "reconcile_stranded now s db = Inr (ls, db') \<Longrightarrow> reservation_step db db'"

end
