(* ===== verification/Reservation_Invariants.thy ===== *)
theory Reservation_Invariants
  imports Reservations
begin

text \<open>
  What the reservation service guarantees. Every operation refines the moves \<open>res_move\<close>: a new
  reservation, or one ledger row and its lifecycle row that change together. The invariant
  \<open>reservations_inv\<close> says that ledger and lifecycle always agree and that the constraints of the
  ledger hold; settled lifecycles are immutable, aggregate limits hold, and money that may have been
  spent is never released.
\<close>

section \<open>Moves\<close>

fun status_of :: "reservation_state \<Rightarrow> cost_status" where
  "status_of Res_requested = Cost_reserved"
| "status_of Res_reserved = Cost_reserved"
| "status_of Res_committed = Cost_reconciled"
| "status_of Res_released = Cost_released"
| "status_of Res_expired = Cost_expired"
| "status_of Res_disputed = Cost_mismatch"
| "status_of Res_unknown_usage = Cost_unknown"

definition settles :: "reservation_state \<Rightarrow> (ledger_row \<Rightarrow> ledger_row) \<Rightarrow> bool" where
  "settles st f \<longleftrightarrow>
     (\<forall>u. ul_id (f u) = ul_id u \<and> ul_execution_id (f u) = ul_execution_id u \<and>
       ul_attempt_id (f u) = ul_attempt_id u \<and> ul_cost_status (f u) = status_of st \<and>
       ul_reserved_cost_usd (f u) = ul_reserved_cost_usd u \<and>
       ul_reserved_max_tokens (f u) = ul_reserved_max_tokens u \<and>
       ul_reserved_max_tool_calls (f u) = ul_reserved_max_tool_calls u)"

text \<open>No invocation bound to the reservation of a ledger row may have had an effect.\<close>

definition undispatched :: "arena_db \<Rightarrow> string \<Rightarrow> bool" where
  "undispatched db l \<longleftrightarrow>
     (\<forall>b \<in> set (db_reservations db). \<forall>r \<in> set (db_invocations db).
        br_ledger_id b = l \<and> br_invocation_id b = Some (iv_id r) \<longrightarrow> iv_side_effect_state r = Eff_not_started)"

inductive res_move :: "arena_db \<Rightarrow> arena_db \<Rightarrow> bool" where
  rv_insert: "insert_reservation l i x a m c t k now db = Inr db' \<Longrightarrow> res_move db db'"
| rv_settle: "update_ledger l f db = Inr db1 \<Longrightarrow> transition l st reason now db1 = Inr db2 \<Longrightarrow>
    settles st f \<Longrightarrow> st \<notin> {Res_requested, Res_reserved} \<Longrightarrow>
    (st \<in> {Res_released, Res_expired} \<Longrightarrow> undispatched db l) \<Longrightarrow> res_move db db2"

definition reservations_inv :: "arena_db \<Rightarrow> bool" where
  "reservations_inv db \<longleftrightarrow>
     distinct (map ul_id (db_ledger db)) \<and> distinct (map br_ledger_id (db_reservations db)) \<and>
     (\<forall>u \<in> set (db_ledger db). ledger_ok u) \<and>
     (\<forall>b \<in> set (db_reservations db).
        (br_terminal_at b \<noteq> None \<longleftrightarrow> br_state b \<in> set SETTLED_STATES) \<and>
        (\<exists>u \<in> set (db_ledger db). ul_id u = br_ledger_id b \<and> ul_execution_id u = br_execution_id b \<and>
           ul_cost_status u = status_of (br_state b)))"

section \<open>The two writes of a settlement\<close>

lemma update_ledger_Inr:
  "update_ledger l f db = Inr db' \<longleftrightarrow>
     (\<forall>u \<in> set (db_ledger db). ul_id u = l \<longrightarrow> ledger_ok (f u)) \<and>
     db' = db\<lparr>db_ledger := update_where (\<lambda>u. ul_id u = l) f (db_ledger db)\<rparr>"
  by (auto simp: update_ledger_def list_all_iff)

definition moved :: "reservation_state \<Rightarrow> string \<Rightarrow> datetime \<Rightarrow> reservation_row \<Rightarrow> reservation_row" where
  "moved st reason now b =
     b\<lparr>br_state := st, br_reason := Some reason, br_version := br_version b + 1, br_updated_at := now,
       br_terminal_at := (if st \<in> set SETTLED_STATES then Some now else None)\<rparr>"

lemma lifecycle_Inr: "lifecycle db l = Inr row \<Longrightarrow> row \<in> set (db_reservations db) \<and> br_ledger_id row = l"
  by (auto simp: lifecycle_def split: option.splits dest!: first_Some_in)

lemma require_open_Inr:
  "require_open db l = Inr row \<Longrightarrow>
   row \<in> set (db_reservations db) \<and> br_ledger_id row = l \<and> br_state row \<notin> set SETTLED_STATES"
  by (auto simp: require_open_def bind_r_eq_Inr_iff dest!: lifecycle_Inr)

lemma transition_Inr:
  assumes ids: "distinct (map br_ledger_id (db_reservations db))"
    and "transition l st reason now db = Inr db'"
  obtains row where "row \<in> set (db_reservations db)" "br_ledger_id row = l" "br_state row \<notin> set SETTLED_STATES"
    "db' = db\<lparr>db_reservations := map (\<lambda>b. if br_ledger_id b = l then moved st reason now b else b)
       (db_reservations db)\<rparr>"
proof -
  from assms(2) obtain row where row: "require_open db l = Inr row"
    and db': "db' = db\<lparr>db_reservations := update_where
      (\<lambda>b. br_ledger_id b = l \<and> br_version b = br_version row)
      (\<lambda>b. b\<lparr>br_state := st, br_reason := Some reason, br_version := br_version row + 1,
             br_updated_at := now,
             br_terminal_at := (if st \<in> set SETTLED_STATES then Some now else None)\<rparr>) (db_reservations db)\<rparr>"
    by (auto simp: transition_def bind_r_eq_Inr_iff Let_def split: if_splits)
  note r = require_open_Inr [OF row]
  have only: "b = row" if "b \<in> set (db_reservations db)" "br_ledger_id b = l" for b
    using ids that r by (auto dest: distinct_map_key_unique)
  have "db' = db\<lparr>db_reservations := map (\<lambda>b. if br_ledger_id b = l then moved st reason now b else b)
      (db_reservations db)\<rparr>"
    unfolding db' update_where_def
    by (intro arg_cong [where f = "\<lambda>rs. db\<lparr>db_reservations := rs\<rparr>"] map_cong refl)
      (auto dest: only simp: moved_def)
  with r that show thesis by blast
qed

lemma res_move_frame:
  assumes "res_move db db'"
  shows "db_invocations db' = db_invocations db \<and> db_jobs db' = db_jobs db \<and> db_attempts db' = db_attempts db \<and>
    db_executions db' = db_executions db \<and> db_episodes db' = db_episodes db \<and>
    db_attempt_events db' = db_attempt_events db \<and> db_event_cursors db' = db_event_cursors db \<and>
    db_experiments db' = db_experiments db"
  using assms
  by (induction rule: res_move.induct)
    (auto simp: insert_reservation_def insert_ledger_def insert_reservation_row_def bind_r_eq_Inr_iff
      update_ledger_Inr transition_def Let_def split: if_splits)

lemma insert_reservation_Inr:
  assumes "insert_reservation l i x a m c t k now db = Inr db'"
  obtains u b where "db' = db\<lparr>db_ledger := db_ledger db @ [u], db_reservations := db_reservations db @ [b]\<rparr>"
    "\<forall>v \<in> set (db_ledger db). ul_id v \<noteq> l" "\<forall>d \<in> set (db_reservations db). br_ledger_id d \<noteq> l"
    "ledger_ok u" "ul_id u = l" "ul_execution_id u = x" "ul_cost_status u = Cost_reserved"
    "ul_actual_cost_usd u = None" "ul_reserved_cost_usd u = Some (currency_float c)"
    "ul_total_tokens u = None" "ul_reserved_max_tokens u = t"
    "ul_tool_calls u = None" "ul_reserved_max_tool_calls u = k"
    "br_ledger_id b = l" "br_execution_id b = x" "br_state b = Res_reserved" "br_terminal_at b = None"
    "br_version b = 1"
  using assms
  by (auto simp: insert_reservation_def insert_ledger_def insert_reservation_row_def bind_r_eq_Inr_iff
      list_ex_iff split: if_splits)

section \<open>The invariant\<close>

lemma settle_inv:
  assumes inv: "reservations_inv db" and upd: "update_ledger l f db = Inr db1"
    and tr: "transition l st reason now db1 = Inr db2" and f: "settles st f"
  shows "reservations_inv db2"
proof -
  from upd have ok: "\<forall>u \<in> set (db_ledger db). ul_id u = l \<longrightarrow> ledger_ok (f u)"
    and db1: "db1 = db\<lparr>db_ledger := update_where (\<lambda>u. ul_id u = l) f (db_ledger db)\<rparr>"
    by (auto simp: update_ledger_Inr)
  have ids: "distinct (map br_ledger_id (db_reservations db1))"
    using inv by (simp add: db1 reservations_inv_def)
  obtain row where db2: "db2 = db1\<lparr>db_reservations := map (\<lambda>b. if br_ledger_id b = l
      then moved st reason now b else b) (db_reservations db1)\<rparr>"
    using ids tr by (rule transition_Inr)
  have led: "map ul_id (db_ledger db2) = map ul_id (db_ledger db)"
    using f by (simp add: db2 db1 map_key_update_where settles_def)
  have res: "map br_ledger_id (db_reservations db2) = map br_ledger_id (db_reservations db)"
    by (simp add: db2 db1 moved_def)
  have "ledger_ok u" if "u \<in> set (db_ledger db2)" for u
    using that ok inv by (auto simp: db2 db1 in_update_where_iff reservations_inv_def)
  moreover have "(br_terminal_at b \<noteq> None \<longleftrightarrow> br_state b \<in> set SETTLED_STATES) \<and>
        (\<exists>u \<in> set (db_ledger db2). ul_id u = br_ledger_id b \<and> ul_execution_id u = br_execution_id b \<and>
           ul_cost_status u = status_of (br_state b))"
    if "b \<in> set (db_reservations db2)" for b
  proof -
    from that obtain b0 where b0: "b0 \<in> set (db_reservations db)"
        "b = (if br_ledger_id b0 = l then moved st reason now b0 else b0)"
      by (auto simp: db2 db1)
    obtain u0 where u0: "u0 \<in> set (db_ledger db)" "ul_id u0 = br_ledger_id b0"
        "ul_execution_id u0 = br_execution_id b0" "ul_cost_status u0 = status_of (br_state b0)"
      using inv b0(1) by (auto simp: reservations_inv_def)
    let ?u = "if ul_id u0 = l then f u0 else u0"
    have u: "?u \<in> set (db_ledger db2)"
      using u0(1) by (auto simp: db2 db1 update_where_def)
    show ?thesis
    proof (cases "br_ledger_id b0 = l")
      case True
      with b0(2) u0 f u show ?thesis
        by (intro conjI bexI [of _ ?u]) (auto simp: moved_def settles_def)
    next
      case False
      with b0 u0 u inv show ?thesis
        by (intro conjI bexI [of _ ?u]) (auto simp: reservations_inv_def)
    qed
  qed
  ultimately show ?thesis
    unfolding reservations_inv_def led res using inv by (simp add: reservations_inv_def)
qed

lemma res_move_inv:
  assumes "res_move db db'" and "reservations_inv db"
  shows "reservations_inv db'"
  using assms
proof (induction rule: res_move.induct)
  case (rv_insert l i x a m c t k now db db')
  from rv_insert(1) show ?case
  proof (rule insert_reservation_Inr)
    fix u b
    assume ins: "db' = db\<lparr>db_ledger := db_ledger db @ [u], db_reservations := db_reservations db @ [b]\<rparr>"
      "\<forall>v \<in> set (db_ledger db). ul_id v \<noteq> l" "\<forall>d \<in> set (db_reservations db). br_ledger_id d \<noteq> l"
      "ledger_ok u" "ul_id u = l" "ul_execution_id u = x" "ul_cost_status u = Cost_reserved"
      "br_ledger_id b = l" "br_execution_id b = x" "br_state b = Res_reserved" "br_terminal_at b = None"
    with rv_insert(2) show "reservations_inv db'"
      by (fastforce simp: reservations_inv_def SETTLED_STATES_def)
  qed
next
  case (rv_settle l f db db1 st reason now db2)
  then show ?case by (blast intro: settle_inv)
qed

lemma res_moves_inv: "res_move\<^sup>*\<^sup>* db db' \<Longrightarrow> reservations_inv db \<Longrightarrow> reservations_inv db'"
  by (induction rule: rtranclp_induct) (auto intro: res_move_inv)

lemma res_moves_invocations: "res_move\<^sup>*\<^sup>* db db' \<Longrightarrow> db_invocations db' = db_invocations db"
  by (induction rule: rtranclp_induct) (auto dest: res_move_frame)

section \<open>The operations refine the moves\<close>

lemma settles_intros:
  "settles Res_unknown_usage (\<lambda>u. clear_cost Cost_unknown (usage_values p i j u))"
  "settles Res_disputed (\<lambda>u. clear_cost Cost_mismatch (usage_values p i j u))"
  "settles Res_unknown_usage (clear_cost Cost_unknown)"
  "settles Res_released (clear_cost Cost_released)"
  "settles Res_expired (clear_cost Cost_expired)"
  "settles Res_released (\<lambda>u. u\<lparr>ul_cost_status := Cost_released\<rparr>)"
  "settles Res_expired (\<lambda>u. u\<lparr>ul_cost_status := Cost_expired\<rparr>)"
  by (auto simp: settles_def clear_cost_def usage_values_def split: option.splits)

lemma settle_moves:
  assumes "settle l f st reason now v db = (w, db')" and "settles st f"
    and "st \<notin> {Res_requested, Res_reserved, Res_released, Res_expired}"
  shows "res_move\<^sup>*\<^sup>* db db'"
proof -
  have "db' = snd (transaction (settle_body l f st reason now) db)"
    using assms(1) by (auto simp: settle_def split: sum.splits prod.splits)
  then have "db' = db \<or> (\<exists>n. settle_body l f st reason now db = Inr (n, db'))"
    using transaction_snd_cases by metis
  then show ?thesis
    using assms(2,3) by (auto simp: settle_body_def bind_r_eq_Inr_iff intro!: rv_settle)
qed

lemma unknown_moves: "unknown l u now db = (w, db') \<Longrightarrow> res_move\<^sup>*\<^sup>* db db'"
  unfolding unknown_def by (erule settle_moves) (simp_all add: settles_intros)

lemma mismatch_moves: "mismatch l u now db = (w, db') \<Longrightarrow> res_move\<^sup>*\<^sup>* db db'"
  unfolding mismatch_def by (erule settle_moves) (simp_all add: settles_intros)

lemma reconcile_moves:
  assumes "reconcile l i now db = (w, db')"
  shows "res_move\<^sup>*\<^sup>* db db'"
proof (cases "negative (ri_input_tokens i) \<or> negative (ri_output_tokens i) \<or>
    (case ri_actual_cost_usd i of None \<Rightarrow> False | Some a \<Rightarrow> currency a < 0)")
  case True
  with assms show ?thesis by (simp add: reconcile_def)
next
  case False
  then have "settle l (\<lambda>u. (usage_values (ri_usage i) (ri_input_tokens i) (ri_output_tokens i) u)
      \<lparr>ul_cost_status := (if reconcile_mismatch i then Cost_mismatch else Cost_reconciled),
       ul_cost_usd := (if reconcile_mismatch i then None else map_option currency_float (ri_actual_cost_usd i)),
       ul_actual_cost_usd := (if reconcile_mismatch i then None else map_option currency_float (ri_actual_cost_usd i)),
       ul_provider_usage_digest := (if digest_ok (ri_provider_usage_digest i)
         then ri_provider_usage_digest i else None),
       ul_price_catalog_revision := (if reconcile_valid i then ri_price_catalog_revision i else None)\<rparr>)
     (if reconcile_mismatch i then Res_disputed else Res_committed)
     (if reconcile_mismatch i then ''usage or price evidence mismatch'' else ''usage and price evidence reconciled'')
     now \<lparr>cr_ledger_id = l, cr_status = (if reconcile_mismatch i then Cost_mismatch else Cost_reconciled),
       cr_cost_usd = (if reconcile_mismatch i then None else map_option currency_float (ri_actual_cost_usd i))\<rparr> db
     = (w, db')"
    using assms unfolding reconcile_def Let_def by (simp only: if_False)
  then show ?thesis
    by (rule settle_moves) (auto simp: settles_def usage_values_def split: option.splits)
qed

lemma lock_bound_undispatched:
  assumes ids: "distinct (map br_ledger_id (db_reservations db))" "distinct (map iv_id (db_invocations db))"
    and "lock_bound_invocation db l = Inr iv" and "\<not> dispatched_effect iv"
  shows "undispatched db l"
proof -
  have "iv_side_effect_state r = Eff_not_started"
    if b: "b \<in> set (db_reservations db)" "br_ledger_id b = l" "br_invocation_id b = Some (iv_id r)"
      and r: "r \<in> set (db_invocations db)" for b r
  proof -
    have "filter (\<lambda>d. br_ledger_id d = l) (db_reservations db) = [b]"
      using filter_key_unique [OF ids(1) b(1)] b(2) by simp
    with assms(3) b(3) have "iv = first (filter (\<lambda>s. iv_id s = iv_id r) (db_invocations db))"
      by (simp add: lock_bound_invocation_def lock_invocation_def)
    with assms(4) show ?thesis
      using filter_key_unique [OF ids(2) r] by (simp add: dispatched_effect_def)
  qed
  then show ?thesis by (auto simp: undispatched_def)
qed

lemma release_body_moves:
  assumes ids: "distinct (map br_ledger_id (db_reservations db))" "distinct (map iv_id (db_invocations db))"
    and "release_body l reason now db = Inr (u, db')"
  shows "res_move\<^sup>*\<^sup>* db db'"
proof -
  from assms(3) obtain iv db1 where "lock_bound_invocation db l = Inr iv" "\<not> dispatched_effect iv"
      "update_ledger l (clear_cost Cost_released) db = Inr db1"
      "transition l Res_released reason now db1 = Inr db'"
    by (auto simp: release_body_def bind_r_eq_Inr_iff)
  with lock_bound_undispatched [OF ids] show ?thesis
    by (intro r_into_rtranclp rv_settle) (auto simp: settles_intros)
qed

lemma expire_body_moves:
  assumes ids: "distinct (map br_ledger_id (db_reservations db))" "distinct (map iv_id (db_invocations db))"
    and "expire_body l reason now db = Inr (u, db')"
  shows "res_move\<^sup>*\<^sup>* db db'"
proof -
  from assms(3) obtain iv where iv: "lock_bound_invocation db l = Inr iv"
    by (auto simp: expire_body_def bind_r_eq_Inr_iff)
  show ?thesis
  proof (cases "dispatched_effect iv")
    case True
    with assms(3) iv show ?thesis
      by (auto simp: expire_body_def bind_r_eq_Inr_iff settles_intros intro!: rv_settle)
  next
    case False
    with assms(3) iv lock_bound_undispatched [OF ids iv] show ?thesis
      by (auto simp: expire_body_def bind_r_eq_Inr_iff settles_intros intro!: rv_settle)
  qed
qed

lemma then_lifecycle_db: "then_lifecycle l o' = (r, db') \<Longrightarrow> db' = snd o'"
  by (auto simp: then_lifecycle_def split: prod.splits sum.splits)

lemma release_moves:
  assumes ids: "distinct (map br_ledger_id (db_reservations db))" "distinct (map iv_id (db_invocations db))"
    and "release l reason now db = (b, db')"
  shows "res_move\<^sup>*\<^sup>* db db'"
proof -
  have "db' = db \<or> db' = snd (transaction (release_body l reason now) db)"
    using assms(3) by (auto simp: release_def release_base_def dest!: then_lifecycle_db split: sum.splits if_splits)
  then show ?thesis
    using transaction_snd_cases [of "release_body l reason now" db] release_body_moves [OF ids] by auto
qed

lemma expire_moves:
  assumes ids: "distinct (map br_ledger_id (db_reservations db))" "distinct (map iv_id (db_invocations db))"
    and "expire l reason now db = (b, db')"
  shows "res_move\<^sup>*\<^sup>* db db'"
proof -
  have "db' = db \<or> db' = snd (transaction (expire_body l reason now) db)"
    using assms(3) by (auto simp: expire_def expire_base_def dest!: then_lifecycle_db split: sum.splits if_splits)
  then show ?thesis
    using transaction_snd_cases [of "expire_body l reason now" db] expire_body_moves [OF ids] by auto
qed

section \<open>The loops\<close>

definition bindings :: "arena_db \<Rightarrow> (string \<times> string option) list" where
  "bindings db = map (\<lambda>b. (br_ledger_id b, br_invocation_id b)) (db_reservations db)"

text \<open>What the loops keep: they are moves, and which invocation a reservation is bound to.\<close>

definition loop_inv :: "arena_db \<Rightarrow> 'a \<times> arena_db \<Rightarrow> bool" where
  "loop_inv start s \<longleftrightarrow> res_move\<^sup>*\<^sup>* start (snd s) \<and> bindings (snd s) = bindings start"

lemma distinct_bindings: "bindings db' = bindings db \<Longrightarrow>
  map br_ledger_id (db_reservations db') = map br_ledger_id (db_reservations db)"
  by (drule arg_cong [where f = "map fst"]) (simp add: bindings_def comp_def)

lemma settle_loop_inv:
  assumes inv: "loop_inv start (ls, db)" and ids: "distinct (map br_ledger_id (db_reservations start))"
    and upd: "update_ledger l f db = Inr db1" and tr: "transition l st reason now db1 = Inr db2"
    and f: "settles st f" "st \<notin> {Res_requested, Res_reserved}"
    and u: "st \<in> {Res_released, Res_expired} \<Longrightarrow> undispatched db l"
  shows "loop_inv start (ls', db2)"
proof -
  have "res_move db db2"
    using upd tr f u by (rule rv_settle)
  then have "res_move\<^sup>*\<^sup>* start db2"
    using inv by (auto simp: loop_inv_def)
  moreover have "bindings db2 = bindings db"
  proof -
    have db1: "db_reservations db1 = db_reservations db"
      using upd by (simp add: update_ledger_Inr)
    have "distinct (map br_ledger_id (db_reservations db1))"
      using inv ids distinct_bindings [of db start] by (simp add: db1 loop_inv_def)
    from this tr show ?thesis
      by (rule transition_Inr) (simp add: bindings_def db1 moved_def comp_def)
  qed
  ultimately show ?thesis
    using inv by (simp add: loop_inv_def)
qed

lemma binding_undispatched:
  assumes ids: "distinct (map br_ledger_id (db_reservations start))" "distinct (map iv_id (db_invocations start))"
    and inv: "loop_inv start (ls, db)" and row: "row \<in> set (db_reservations start)"
    and iv: "\<And>r. r \<in> set (db_invocations start) \<Longrightarrow> br_invocation_id row = Some (iv_id r) \<Longrightarrow>
      iv_side_effect_state r = Eff_not_started"
  shows "undispatched db (br_ledger_id row)"
proof -
  have bind: "bindings db = bindings start" and ivs: "db_invocations db = db_invocations start"
    using inv res_moves_invocations by (auto simp: loop_inv_def)
  have "br_invocation_id b = br_invocation_id row"
    if "b \<in> set (db_reservations db)" "br_ledger_id b = br_ledger_id row" for b
  proof -
    have "(br_ledger_id b, br_invocation_id b) \<in> set (bindings start)"
      using that(1) bind [symmetric] by (auto simp: bindings_def)
    then obtain b' where "b' \<in> set (db_reservations start)" "br_ledger_id b' = br_ledger_id b"
        "br_invocation_id b' = br_invocation_id b"
      by (auto simp: bindings_def)
    with ids(1) row that(2) show ?thesis
      using distinct_map_key_unique [of br_ledger_id "db_reservations start" b' row] by auto
  qed
  with iv ivs show ?thesis by (auto simp: undispatched_def)
qed

lemma settle_open_row_inv:
  assumes ids: "distinct (map br_ledger_id (db_reservations start))" "distinct (map iv_id (db_invocations start))"
    and iv: "iv \<in> set (db_invocations start)"
    and row: "row \<in> set (db_reservations start)" "br_invocation_id row = Some (iv_id iv)"
    and inv: "loop_inv start s" and step: "settle_open_row iv reason now row s = Inr s'"
  shows "loop_inv start s'"
proof -
  obtain ls db where s: "s = (ls, db)" by fastforce
  from step obtain locked where "require_open db (br_ledger_id row) = Inr locked"
    by (auto simp: s settle_open_row_def Let_def bind_r_eq_Inr_iff)
  show ?thesis
  proof (cases "iv_side_effect_state iv = Eff_not_started")
    case True
    have "iv_side_effect_state r = Eff_not_started"
      if "r \<in> set (db_invocations start)" "br_invocation_id row = Some (iv_id r)" for r
      using that row(2) True iv ids(2) distinct_map_key_unique by fastforce
    then have "undispatched db (br_ledger_id row)"
      using inv by (intro binding_undispatched [OF ids _ row(1)]) (auto simp: s)
    with True step inv show ?thesis
      by (auto simp: s settle_open_row_def Let_def bind_r_eq_Inr_iff settles_intros
          intro: settle_loop_inv [OF _ ids(1)] split: if_splits)
  next
    case False
    with step inv show ?thesis
      by (auto simp: s settle_open_row_def Let_def bind_r_eq_Inr_iff settles_intros
          intro: settle_loop_inv [OF _ ids(1)] split: if_splits)
  qed
qed

lemma settle_open_moves:
  assumes ids: "distinct (map br_ledger_id (db_reservations db))" "distinct (map iv_id (db_invocations db))"
    and "settle_open_for_invocation i reason now db = Inr (ls, db')"
  shows "res_move\<^sup>*\<^sup>* db db'"
proof (cases "lock_invocation db (Some i)")
  case None
  with assms(3) show ?thesis by (simp add: settle_open_for_invocation_def)
next
  case (Some iv)
  then have iv: "iv \<in> set (db_invocations db)" "iv_id iv = i"
    by (auto simp: lock_invocation_def dest!: first_Some_in)
  from assms(3) Some have loop: "for_each (settle_open_row iv reason now)
      (filter (\<lambda>b. br_invocation_id b = Some i \<and> br_state b = Res_reserved) (db_reservations db)) ([], db)
      = Inr (ls, db')"
    by (simp add: settle_open_for_invocation_def)
  have "loop_inv db (ls, db')"
    by (rule for_each_invariant [OF loop])
      (auto simp: loop_inv_def [of db "([], db)"] iv intro: settle_open_row_inv [OF ids iv(1)])
  then show ?thesis by (simp add: loop_inv_def)
qed

lemma reconcile_stranded_row_inv:
  assumes ids: "distinct (map br_ledger_id (db_reservations start))" "distinct (map iv_id (db_invocations start))"
    and row: "row \<in> set (db_reservations start)"
    and inv: "loop_inv start s" and step: "reconcile_stranded_row start c now row s = Inr s'"
  shows "loop_inv start s'"
proof -
  obtain ls db where s: "s = (ls, db)" by fastforce
  let ?iv = "lock_invocation db (br_invocation_id row)"
  have ivs: "db_invocations db = db_invocations start"
    using inv res_moves_invocations by (auto simp: s loop_inv_def)
  have und: "undispatched db (br_ledger_id row)" if "\<not> dispatched_effect ?iv"
  proof (rule binding_undispatched [OF ids _ row])
    show "loop_inv start (ls, db)" using inv by (simp add: s)
    fix r
    assume r: "r \<in> set (db_invocations start)" "br_invocation_id row = Some (iv_id r)"
    then have "?iv = Some r"
      using filter_key_unique [OF ids(2) r(1)] by (simp add: lock_invocation_def ivs)
    with that show "iv_side_effect_state r = Eff_not_started"
      by (simp add: dispatched_effect_def)
  qed
  show ?thesis
  proof (cases "br_reserved_at row > c \<or> lease_live_for start row now")
    case True
    with step inv show ?thesis by (cases "br_reserved_at row > c") (simp_all add: s reconcile_stranded_row_def)
  next
    case stale: False
    show ?thesis
    proof (cases "require_open db (br_ledger_id row)")
      case (Inl e)
      with step inv stale show ?thesis
        by (cases e) (auto simp: s reconcile_stranded_row_def Let_def)
    next
      case (Inr locked)
      show ?thesis
      proof (cases "dispatched_effect ?iv")
        case True
        with step inv stale Inr show ?thesis
          by (auto simp: s reconcile_stranded_row_def Let_def bind_r_eq_Inr_iff settles_intros
              intro: settle_loop_inv [OF _ ids(1)] split: if_splits)
      next
        case False
        with step inv stale Inr und show ?thesis
          by (auto simp: s reconcile_stranded_row_def Let_def bind_r_eq_Inr_iff settles_intros
              intro: settle_loop_inv [OF _ ids(1)] split: if_splits)
      qed
    qed
  qed
qed

lemma reconcile_stranded_moves:
  assumes ids: "distinct (map br_ledger_id (db_reservations db))" "distinct (map iv_id (db_invocations db))"
    and "reconcile_stranded now secs db = Inr (ls, db')"
  shows "res_move\<^sup>*\<^sup>* db db'"
proof -
  from assms(3) have loop: "for_each (reconcile_stranded_row db (now - td_seconds secs) now)
      (filter (\<lambda>b. br_state b = Res_reserved) (db_reservations db)) ([], db) = Inr (ls, db')"
    by (simp add: reconcile_stranded_def)
  have "loop_inv db (ls, db')"
    by (rule for_each_invariant [OF loop])
      (auto simp: loop_inv_def [of db "([], db)"] intro: reconcile_stranded_row_inv [OF ids])
  then show ?thesis by (simp add: loop_inv_def)
qed

lemma reserve_moves: "reserve x a m c t k l r now db = Inr (v, db') \<Longrightarrow> res_move\<^sup>*\<^sup>* db db'"
  by (auto simp: reserve_def bind_r_eq_Inr_iff intro: rv_insert)

lemma reserve_with_aggregate_insert:
  assumes "reserve_with_aggregate x a m c t k lims l r now db = Inr (v, db')"
  shows "insert_reservation l r x a m c t k now db = Inr db'"
  using assms by (auto simp: reserve_with_aggregate_def bind_r_eq_Inr_iff Let_def)

lemma reservation_step_moves:
  assumes "reservation_step db db'" and "reservations_inv db" and "invocations_inv (db_invocations db)"
  shows "res_move\<^sup>*\<^sup>* db db'"
proof -
  have ids: "distinct (map br_ledger_id (db_reservations db))" "distinct (map iv_id (db_invocations db))"
    using assms(2,3) by (simp_all add: reservations_inv_def invocations_inv_def)
  from assms(1) ids show ?thesis
    by (induction rule: reservation_step.induct)
      (blast intro: reserve_moves unknown_moves mismatch_moves reconcile_moves release_moves expire_moves
        settle_open_moves reconcile_stranded_moves r_into_rtranclp rv_insert reserve_with_aggregate_insert)+
qed

lemma reservation_step_inv:
  assumes "reservations_inv db" and "invocations_inv (db_invocations db)" and "reservation_step db db'"
  shows "reservations_inv db' \<and> db_invocations db' = db_invocations db"
  using reservation_step_moves [OF assms(3,1,2)] assms(1)
  by (auto intro: res_moves_inv res_moves_invocations)

section \<open>Settled reservations\<close>

definition settled_row :: "reservation_row \<Rightarrow> bool" where
  "settled_row b \<longleftrightarrow> br_state b \<in> set SETTLED_STATES"

lemma res_move_settled:
  assumes "res_move db db'" and "reservations_inv db" and "b \<in> set (db_reservations db)" and "settled_row b"
  shows "b \<in> set (db_reservations db')"
  using assms
proof (induction rule: res_move.induct)
  case (rv_insert l i x a m c t k now db db')
  from rv_insert(1) show ?case
    by (rule insert_reservation_Inr) (use rv_insert(3) in auto)
next
  case (rv_settle l f db db1 st reason now db2)
  have db1: "db_reservations db1 = db_reservations db"
    using rv_settle(1) by (simp add: update_ledger_Inr)
  have ids: "distinct (map br_ledger_id (db_reservations db))"
    using rv_settle by (simp add: reservations_inv_def)
  then have "distinct (map br_ledger_id (db_reservations db1))"
    by (simp add: db1)
  from this rv_settle(2) obtain row where row: "row \<in> set (db_reservations db)" "br_ledger_id row = l"
      "br_state row \<notin> set SETTLED_STATES"
      "db2 = db1\<lparr>db_reservations := map (\<lambda>b. if br_ledger_id b = l then moved st reason now b else b)
        (db_reservations db)\<rparr>"
    by (rule transition_Inr) (simp add: db1)
  have "br_ledger_id b \<noteq> l"
  proof
    assume "br_ledger_id b = l"
    with row(2) have "row = b"
      by (intro distinct_map_key_unique [OF ids row(1) rv_settle.prems(2)]) simp
    with row(3) rv_settle.prems(3) show False by (simp add: settled_row_def)
  qed
  with rv_settle.prems(2) show ?case
    by (force simp: row(4))
qed

lemma res_moves_settled:
  assumes "res_move\<^sup>*\<^sup>* db db'" and "reservations_inv db" and "b \<in> set (db_reservations db)" and "settled_row b"
  shows "b \<in> set (db_reservations db') \<and> reservations_inv db'"
  using assms by (induction rule: rtranclp_induct) (auto intro: res_move_settled res_move_inv)

definition accounts_inv :: "arena_db \<Rightarrow> bool" where
  "accounts_inv db \<longleftrightarrow> reservations_inv db \<and> invocations_inv (db_invocations db)"

interpretation accounts: invariant_system
  "\<lambda>db. db_ledger db = [] \<and> db_reservations db = [] \<and> db_invocations db = []" reservation_step accounts_inv
proof
  show "accounts_inv db" if "db_ledger db = [] \<and> db_reservations db = [] \<and> db_invocations db = []" for db
    using that by (simp add: accounts_inv_def reservations_inv_def invocations_inv_def)
  show "accounts_inv db'" if "accounts_inv db" "reservation_step db db'" for db db'
    using that reservation_step_inv [of db db'] by (simp add: accounts_inv_def)
qed

definition example_ledger_row :: ledger_row where
  "example_ledger_row =
    \<lparr>ul_id = ''l1'', ul_execution_id = ''x1'', ul_attempt_id = Some ''a1'', ul_model_id = ''m'',
     ul_input_tokens = None, ul_output_tokens = None, ul_total_tokens = None, ul_context_tokens = None,
     ul_tool_calls = None, ul_reserved_max_tokens = Some 100, ul_reserved_max_tool_calls = Some 2,
     ul_cost_status = Cost_reserved, ul_cost_usd = None, ul_reserved_cost_usd = Some 1,
     ul_estimated_cost_usd = Some 1, ul_actual_cost_usd = None, ul_price_catalog_revision = None,
     ul_provider_usage_digest = None, ul_created_at = 0\<rparr>"

definition example_reservation :: "reservation_state \<Rightarrow> reservation_row" where
  "example_reservation st =
    \<lparr>br_id = ''r1'', br_ledger_id = ''l1'', br_execution_id = ''x1'', br_attempt_id = Some ''a1'',
     br_invocation_id = Some ''i1'', br_state = st, br_reason = None, br_version = 1, br_reserved_at = 0,
     br_updated_at = 0, br_terminal_at = (if st \<in> set SETTLED_STATES then Some 0 else None)\<rparr>"

definition example_account_db :: "reservation_state \<Rightarrow> arena_db" where
  "example_account_db st = example_iv_db\<lparr>db_ledger := [example_ledger_row\<lparr>ul_cost_status := status_of st\<rparr>],
     db_reservations := [example_reservation st]\<rparr>"

lemma example_account_inv: "st \<noteq> Res_committed \<Longrightarrow> accounts_inv (example_account_db st)"
  using example_iv_inv
  by (cases st) (simp_all add: accounts_inv_def reservations_inv_def example_account_db_def example_reservation_def
      example_ledger_row_def ledger_ok_def)

text \<open>
  C27: A settled reservation is immutable: whatever operations of the reservation service follow, the
  lifecycle row of a committed, released or expired reservation keeps every column; meanwhile ledger
  and lifecycle agree and every ledger row satisfies its check constraints.
\<close>

theorem settled_reservation_immutable:
  assumes "accounts_inv db" and "reservation_step\<^sup>*\<^sup>* db db'"
    and "b \<in> set (db_reservations db)" and "br_state b \<in> {Res_committed, Res_released, Res_expired}"
  shows "b \<in> set (db_reservations db') \<and> (\<forall>u \<in> set (db_ledger db'). ledger_ok u) \<and>
    (\<forall>d \<in> set (db_reservations db'). \<exists>u \<in> set (db_ledger db'). ul_id u = br_ledger_id d \<and>
       ul_cost_status u = status_of (br_state d))"
proof -
  have set: "settled_row b"
    using assms(4) by (auto simp: settled_row_def SETTLED_STATES_def)
  have "accounts_inv db' \<and> b \<in> set (db_reservations db')"
    using assms(2)
  proof (induction rule: rtranclp_induct)
    case base
    then show ?case using assms(1,3) by simp
  next
    case (step u v)
    then have "reservations_inv u" "invocations_inv (db_invocations u)"
      by (auto simp: accounts_inv_def)
    with step set show ?case
      using res_moves_settled [OF reservation_step_moves] accounts.inv_step by blast
  qed
  then show ?thesis
    unfolding accounts_inv_def reservations_inv_def by blast
qed

theorem settled_reservation_immutable_witness:
  "let db = example_account_db Res_released; db' = snd (unknown ''l1'' None 5 db) in
   reservation_step db db' \<and> example_reservation Res_released \<in> set (db_reservations db')"
proof -
  let ?db = "example_account_db Res_released"
  have step: "reservation_step ?db (snd (unknown ''l1'' None 5 ?db))"
    by (rule rs_unknown [OF _ prod.collapse [symmetric]]) simp
  have "accounts_inv ?db" by (rule example_account_inv) simp
  from settled_reservation_immutable [OF this r_into_rtranclp [of reservation_step, OF step],
      of "example_reservation Res_released"] step
  show ?thesis by (simp add: example_account_db_def example_reservation_def Let_def)
qed

section \<open>Aggregate limits\<close>

lemma charged_cost_units: "currency (charged_cost u) = charged_cost u"
  by (simp add: charged_cost_def)

lemma sum_charged_units: "currency (sum_list (map charged_cost us)) = sum_list (map charged_cost us)"
proof -
  have "map charged_cost us = map currency (map (\<lambda>u. or_else (ul_actual_cost_usd u) (ul_reserved_cost_usd u) 0) us)"
    by (simp add: charged_cost_def)
  then show ?thesis by (simp only: currency_sum)
qed

lemma active_ledger_insert:
  assumes "reservations_inv db"
    and "insert_reservation l i x a m c t k now db = Inr db'"
  obtains u where "active_ledger db' x = active_ledger db x @ [u]" "charged_cost u = currency c"
    "charged_tokens u = or_else t None 0" "charged_tool_calls u = or_else k None 0"
  using assms(2)
proof (rule insert_reservation_Inr)
  fix u b
  assume ins: "db' = db\<lparr>db_ledger := db_ledger db @ [u], db_reservations := db_reservations db @ [b]\<rparr>"
    "\<forall>v \<in> set (db_ledger db). ul_id v \<noteq> l" "\<forall>d \<in> set (db_reservations db). br_ledger_id d \<noteq> l"
    "ul_id u = l" "ul_execution_id u = x" "br_ledger_id b = l" "br_state b = Res_reserved"
    and cost: "ul_actual_cost_usd u = None" "ul_reserved_cost_usd u = Some (currency_float c)"
    "ul_total_tokens u = None" "ul_reserved_max_tokens u = t"
    "ul_tool_calls u = None" "ul_reserved_max_tool_calls u = k"
  have old: "reservation_state_of db' v = reservation_state_of db v" if "v \<in> set (db_ledger db)" for v
  proof -
    have "ul_id v \<noteq> br_ledger_id b"
      using that ins(2,6) by simp
    then show ?thesis by (simp add: reservation_state_of_def ins(1))
  qed
  have new: "reservation_state_of db' u = Some Res_reserved"
    using ins by (simp add: reservation_state_of_def filter_empty_conv [THEN iffD2])
  have "active_ledger db' x = active_ledger db x @ [u]"
    using old new ins(1,5) by (simp add: active_ledger_def cong: filter_cong)
  with cost that show thesis
    by (auto simp: charged_cost_def charged_tokens_def charged_tool_calls_def or_else_def currency_float_def
        split: option.splits)
qed

text \<open>
  C28: After a reservation under aggregate limits has succeeded, the active reservations of the
  execution, the new one included, stay within every given limit: their number, their charged cost
  (actual where reconciled, reserved otherwise), their tokens and their tool calls.
\<close>

theorem aggregate_limits_hold:
  assumes "reservations_inv db"
    and "reserve_with_aggregate x a m c t k limits l r now db = Inr (v, db')"
  shows "(\<forall>n. al_max_attempts limits = Some n \<longrightarrow> int (length (active_ledger db' x)) \<le> n) \<and>
    (\<forall>q. al_max_total_cost_usd limits = Some q \<longrightarrow>
       sum_list (map charged_cost (active_ledger db' x)) \<le> currency q) \<and>
    (\<forall>n. al_max_total_tokens limits = Some n \<longrightarrow>
       sum_list (map charged_tokens (active_ledger db' x)) \<le> n) \<and>
    (\<forall>n. al_max_total_tool_calls limits = Some n \<longrightarrow>
       sum_list (map charged_tool_calls (active_ledger db' x)) \<le> n)"
proof -
  obtain u where u: "active_ledger db' x = active_ledger db x @ [u]" "charged_cost u = currency c"
      "charged_tokens u = or_else t None 0" "charged_tool_calls u = or_else k None 0"
    using active_ledger_insert [OF assms(1) reserve_with_aggregate_insert [OF assms(2)]] .
  let ?old = "active_ledger db x"
  have units: "currency (sum_list (map charged_cost ?old) + currency c)
      = sum_list (map charged_cost ?old) + currency c"
    using currency_add [of "sum_list (map charged_cost ?old)" c] by (simp only: sum_charged_units)
  from assms(2) have
    "case al_max_attempts limits of None \<Rightarrow> True | Some n \<Rightarrow> int (length ?old) < n"
    "case al_max_total_cost_usd limits of None \<Rightarrow> True
       | Some q \<Rightarrow> \<not> currency_exceeds (sum_list (map charged_cost ?old) + currency c) q"
    "case al_max_total_tokens limits of None \<Rightarrow> True
       | Some n \<Rightarrow> sum_list (map charged_tokens ?old) + or_else t None 0 \<le> n"
    "case al_max_total_tool_calls limits of None \<Rightarrow> True
       | Some n \<Rightarrow> sum_list (map charged_tool_calls ?old) + or_else k None 0 \<le> n"
    by (auto simp: reserve_with_aggregate_def bind_r_eq_Inr_iff Let_def not_less not_le split: option.splits)
  then show ?thesis
    by (auto simp: u currency_exceeds_def units not_less split: option.splits)
qed

definition example_limits :: aggregate_limits where
  "example_limits = \<lparr>al_max_attempts = Some 2, al_max_total_cost_usd = Some 3, al_max_total_tokens = Some 300,
     al_max_total_tool_calls = Some 10\<rparr>"

lemma currency_numeral: "currency 1 = 1" "currency 3 = 3" "currency 2 = 2"
  using currency_of_units [of 1000000000] currency_of_units [of 3000000000] currency_of_units [of 2000000000]
  by simp_all

lemma example_reserve:
  "\<exists>db'. reserve_with_aggregate ''x1'' ''a1'' ''m'' 1 (Some 100) (Some 2) example_limits ''l2'' ''r2'' 5
     (example_account_db Res_reserved) = Inr (''l2'', db')"
  by (simp add: reserve_with_aggregate_def example_limits_def currency_numeral negative_def Let_def
      active_ledger_def reservation_state_of_def example_account_db_def example_iv_db_def example_running_db_def
      example_log_db_def example_reservation_def example_ledger_row_def charged_cost_def charged_tokens_def
      charged_tool_calls_def or_else_def currency_exceeds_def insert_reservation_def insert_ledger_def
      insert_reservation_row_def example_invocation_def ledger_ok_def currency_float_def)

theorem aggregate_limits_hold_witness:
  "\<exists>db'. reserve_with_aggregate ''x1'' ''a1'' ''m'' 1 (Some 100) (Some 2) example_limits ''l2'' ''r2'' 5
       (example_account_db Res_reserved) = Inr (''l2'', db') \<and>
     sum_list (map charged_cost (active_ledger db' ''x1'')) \<le> 3"
proof -
  obtain db' where r: "reserve_with_aggregate ''x1'' ''a1'' ''m'' 1 (Some 100) (Some 2) example_limits ''l2'' ''r2'' 5
     (example_account_db Res_reserved) = Inr (''l2'', db')"
    using example_reserve by blast
  have "reservations_inv (example_account_db Res_reserved)"
    using example_account_inv [of Res_reserved] by (simp add: accounts_inv_def)
  from aggregate_limits_hold [OF this r] r show ?thesis
    by (simp add: example_limits_def currency_numeral)
qed

section \<open>Settlements succeed\<close>

lemma clear_cost_ok: "ledger_ok u \<Longrightarrow> st \<noteq> Cost_reconciled \<Longrightarrow> ledger_ok (clear_cost st u)"
  by (simp add: ledger_ok_def clear_cost_def)

lemma status_only_ok:
  "ledger_ok u \<Longrightarrow> st \<notin> {Cost_reconciled, Cost_unknown} \<Longrightarrow> ledger_ok (u\<lparr>ul_cost_status := st\<rparr>)"
  by (simp add: ledger_ok_def)

lemma usage_values_ok:
  assumes "ledger_ok u" and "opt_all valid_usage p" and "ul_cost_status u \<noteq> Cost_reconciled"
    and "opt_all (\<lambda>n. 0 \<le> n) i" and "opt_all (\<lambda>n. 0 \<le> n) j"
  shows "ledger_ok (usage_values p i j u)"
  using assms by (auto simp: ledger_ok_def usage_values_def valid_usage_def usage_fields_ok_def split: option.splits)

text \<open>On an open reservation, the two writes of a settlement succeed and change exactly its two rows.\<close>

lemma settlement_total:
  assumes inv: "reservations_inv db" and b: "b \<in> set (db_reservations db)" "\<not> settled_row b"
    and f: "settles st f" "\<And>u. ledger_ok u \<Longrightarrow> ul_id u = br_ledger_id b \<Longrightarrow>
      ul_cost_status u = status_of (br_state b) \<Longrightarrow> ledger_ok (f u)"
  shows "\<exists>db1 db2. update_ledger (br_ledger_id b) f db = Inr db1 \<and>
    transition (br_ledger_id b) st reason now db1 = Inr db2 \<and> reservations_inv db2 \<and>
    db_reservations db2 = map (\<lambda>d. if d = b then moved st reason now d else d) (db_reservations db) \<and>
    db_ledger db2 = update_where (\<lambda>u. ul_id u = br_ledger_id b) f (db_ledger db)"
proof -
  let ?l = "br_ledger_id b"
  have ids: "distinct (map br_ledger_id (db_reservations db))" "distinct (map ul_id (db_ledger db))"
    using inv by (simp_all add: reservations_inv_def)
  obtain u0 where u0: "u0 \<in> set (db_ledger db)" "ul_id u0 = ?l" "ul_cost_status u0 = status_of (br_state b)"
    using inv b(1) by (auto simp: reservations_inv_def)
  have "ledger_ok (f u)" if "u \<in> set (db_ledger db)" "ul_id u = ?l" for u
  proof -
    have "u = u0"
      by (rule distinct_map_key_unique [OF ids(2) that(1) u0(1)]) (simp add: that(2) u0(2))
    moreover have "ledger_ok u"
      using inv that(1) by (simp add: reservations_inv_def)
    ultimately show ?thesis using u0 f(2) by simp
  qed
  then obtain db1 where upd: "update_ledger ?l f db = Inr db1"
      "db1 = db\<lparr>db_ledger := update_where (\<lambda>u. ul_id u = ?l) f (db_ledger db)\<rparr>"
    by (auto simp: update_ledger_Inr)
  have only: "filter (\<lambda>d. br_ledger_id d = ?l) (db_reservations db) = [b]"
    using ids(1) b(1) by (rule filter_key_unique)
  have eq: "d = b" if "d \<in> set (db_reservations db)" "br_ledger_id d = ?l" for d
    using ids(1) that(1) b(1) that(2) by (rule distinct_map_key_unique)
  have "filter (\<lambda>d. br_ledger_id d = ?l \<and> br_version d = br_version b) (db_reservations db)
      = filter (\<lambda>d. br_ledger_id d = ?l) (db_reservations db)"
    by (intro filter_cong refl) (blast dest: eq)
  then have one: "rowcount (\<lambda>d. br_ledger_id d = ?l \<and> br_version d = br_version b) (db_reservations db1) = 1"
    by (simp add: rowcount_def upd(2) only)
  have "require_open db1 ?l = Inr b"
    using b(2) only by (simp add: require_open_def lifecycle_def upd(2) settled_row_def)
  with one obtain db2 where tr: "transition ?l st reason now db1 = Inr db2"
    by (simp add: transition_def Let_def)
  have inv2: "reservations_inv db2"
    using inv upd(1) tr f(1) by (rule settle_inv)
  have "distinct (map br_ledger_id (db_reservations db1))"
    using ids(1) by (simp add: upd(2))
  from this tr have "db2 = db1\<lparr>db_reservations := map (\<lambda>d. if br_ledger_id d = ?l then moved st reason now d else d)
      (db_reservations db1)\<rparr>"
    by (rule transition_Inr)
  then have "db_reservations db2 = map (\<lambda>d. if d = b then moved st reason now d else d) (db_reservations db)"
      "db_ledger db2 = update_where (\<lambda>u. ul_id u = ?l) f (db_ledger db)"
    by (simp_all add: upd(2)) (blast dest: eq)
  with upd(1) tr inv2 show ?thesis by blast
qed

section \<open>Stranded reservations\<close>

definition stranded :: "arena_db \<Rightarrow> datetime \<Rightarrow> datetime \<Rightarrow> reservation_row \<Rightarrow> bool" where
  "stranded db cutoff now b \<longleftrightarrow>
     br_state b = Res_reserved \<and> br_reserved_at b \<le> cutoff \<and> \<not> lease_live_for db b now"

definition stranded_outcome :: "arena_db \<Rightarrow> datetime \<Rightarrow> reservation_row \<Rightarrow> reservation_row" where
  "stranded_outcome db now b =
     (if dispatched_effect (lock_invocation db (br_invocation_id b))
      then moved Res_unknown_usage ''reservation outlived its lease after possible provider dispatch'' now b
      else moved Res_expired ''reservation expired before any provider dispatch was observed'' now b)"

lemma lock_invocation_cong:
  "db_invocations db' = db_invocations db \<Longrightarrow> lock_invocation db' i = lock_invocation db i"
  by (cases i) (simp_all add: lock_invocation_def)

lemma reconcile_stranded_row_exact:
  assumes inv: "reservations_inv db" and ivs: "db_invocations db = db_invocations start"
    and row: "row \<in> set (db_reservations db)" "br_state row = Res_reserved"
  shows "\<exists>ls' db'. reconcile_stranded_row start c now row (ls, db) = Inr (ls', db') \<and>
    reservations_inv db' \<and> db_invocations db' = db_invocations start \<and>
    db_reservations db' = map (\<lambda>b. if b = row \<and> stranded start c now b then stranded_outcome start now b else b)
      (db_reservations db)"
proof (cases "stranded start c now row")
  case False
  then have "reconcile_stranded_row start c now row (ls, db) = Inr (ls, db)"
    using row(2) by (auto simp: stranded_def reconcile_stranded_row_def)
  moreover have "map (\<lambda>b. if b = row \<and> stranded start c now b then stranded_outcome start now b else b)
      (db_reservations db) = db_reservations db"
    using False by (auto intro!: map_idI)
  ultimately show ?thesis using inv ivs by simp
next
  case True
  have nset: "\<not> settled_row row"
    using row(2) by (simp add: settled_row_def SETTLED_STATES_def)
  have lk: "require_open db (br_ledger_id row) = Inr row"
    using filter_key_unique [of br_ledger_id "db_reservations db" row] inv row nset
    by (simp add: require_open_def lifecycle_def reservations_inv_def settled_row_def)
  have eq: "map (\<lambda>b. if b = row \<and> stranded start c now b then g b else b) xs = map (\<lambda>b. if b = row then g b else b) xs"
    for g :: "reservation_row \<Rightarrow> reservation_row" and xs
    using True by auto
  show ?thesis
  proof (cases "dispatched_effect (lock_invocation start (br_invocation_id row))")
    case d: True
    obtain db1 db2 where w: "update_ledger (br_ledger_id row) (clear_cost Cost_unknown) db = Inr db1"
        "transition (br_ledger_id row) Res_unknown_usage
          ''reservation outlived its lease after possible provider dispatch'' now db1 = Inr db2"
        "reservations_inv db2"
        "db_reservations db2 = map (\<lambda>d. if d = row then moved Res_unknown_usage
          ''reservation outlived its lease after possible provider dispatch'' now d else d) (db_reservations db)"
      using settlement_total [OF inv row(1) nset, of Res_unknown_usage "clear_cost Cost_unknown"
          "''reservation outlived its lease after possible provider dispatch''" now]
      by (auto simp: settles_intros clear_cost_ok)
    have "res_move db db2"
      using w(1,2) by (rule rv_settle) (simp_all add: settles_intros)
    then have "db_invocations db2 = db_invocations start"
      using ivs by (simp add: res_move_frame)
    with w True d lk row(2) show ?thesis
      by (auto simp: reconcile_stranded_row_def Let_def stranded_def stranded_outcome_def
          lock_invocation_cong [OF ivs])
  next
    case d: False
    obtain db1 db2 where w: "update_ledger (br_ledger_id row) (\<lambda>u. u\<lparr>ul_cost_status := Cost_expired\<rparr>) db = Inr db1"
        "transition (br_ledger_id row) Res_expired
          ''reservation expired before any provider dispatch was observed'' now db1 = Inr db2"
        "reservations_inv db2"
        "db_reservations db2 = map (\<lambda>d. if d = row then moved Res_expired
          ''reservation expired before any provider dispatch was observed'' now d else d) (db_reservations db)"
      using settlement_total [OF inv row(1) nset, of Res_expired "\<lambda>u. u\<lparr>ul_cost_status := Cost_expired\<rparr>"
          "''reservation expired before any provider dispatch was observed''" now]
      by (auto simp: settles_intros status_only_ok)
    have "db_invocations db2 = db_invocations start"
      using w(1,2) ivs
      by (auto simp: update_ledger_Inr transition_def bind_r_eq_Inr_iff Let_def split: if_splits)
    with w True d lk row(2) show ?thesis
      by (auto simp: reconcile_stranded_row_def Let_def stranded_def stranded_outcome_def
          lock_invocation_cong [OF ivs])
  qed
qed

lemma reconcile_stranded_rows_exact:
  assumes "distinct rows" and "reservations_inv db" and "db_invocations db = db_invocations start"
    and "set rows \<subseteq> {b \<in> set (db_reservations db). br_state b = Res_reserved}"
  shows "\<exists>ls' db'. for_each (reconcile_stranded_row start c now) rows (ls, db) = Inr (ls', db') \<and>
    reservations_inv db' \<and>
    db_reservations db' = map (\<lambda>b. if b \<in> set rows \<and> stranded start c now b then stranded_outcome start now b else b)
      (db_reservations db)"
  using assms
proof (induction rows arbitrary: ls db)
  case Nil
  then show ?case by simp
next
  case (Cons row rows)
  obtain ls1 db1 where s1: "reconcile_stranded_row start c now row (ls, db) = Inr (ls1, db1)"
    and inv1: "reservations_inv db1" "db_invocations db1 = db_invocations start"
    and r1: "db_reservations db1 = map (\<lambda>b. if b = row \<and> stranded start c now b then stranded_outcome start now b else b)
      (db_reservations db)"
    using reconcile_stranded_row_exact [OF Cons.prems(2,3), of row c now ls] Cons.prems(4) by auto
  have "set rows \<subseteq> {b \<in> set (db_reservations db1). br_state b = Res_reserved}"
    using Cons.prems(1,4) by (force simp: r1)
  then obtain ls2 db2 where s2: "for_each (reconcile_stranded_row start c now) rows (ls1, db1) = Inr (ls2, db2)"
    and inv2: "reservations_inv db2"
    and r2: "db_reservations db2 = map (\<lambda>b. if b \<in> set rows \<and> stranded start c now b then stranded_outcome start now b else b)
      (db_reservations db1)"
    using Cons.IH [OF _ inv1, of ls1] Cons.prems(1) by (auto simp del: mem_Collect_eq)
  have "\<not> stranded start c now (stranded_outcome start now b)" for b
    by (simp add: stranded_def stranded_outcome_def moved_def)
  then have "db_reservations db2 = map (\<lambda>b. if b \<in> set (row # rows) \<and> stranded start c now b
      then stranded_outcome start now b else b) (db_reservations db)"
    by (auto simp: r2 r1)
  with s1 s2 inv2 show ?case by auto
qed

text \<open>
  No reservation stays reserved for ever: \<open>reconcile_stranded\<close> never fails, and afterwards every
  reservation that was reserved longer than the given time ago and whose job does not hold a live lease
  has left the state reserved: it is expired when nothing was dispatched, and otherwise its usage is
  unknown. No other reservation changes.
\<close>

theorem reconcile_stranded_complete:
  assumes "reservations_inv db" and "0 \<le> secs"
  shows "\<exists>ls db'. reconcile_stranded now secs db = Inr (ls, db') \<and>
    db_reservations db' = map (\<lambda>b. if stranded db (now - td_seconds secs) now b
       then stranded_outcome db now b else b) (db_reservations db) \<and>
    (\<forall>b \<in> set (db_reservations db'). \<not> stranded db (now - td_seconds secs) now b)"
proof -
  let ?rows = "filter (\<lambda>b. br_state b = Res_reserved) (db_reservations db)"
  have "distinct ?rows"
    using assms(1) by (auto simp: reservations_inv_def distinct_map)
  then obtain ls db' where loop: "for_each (reconcile_stranded_row db (now - td_seconds secs) now) ?rows ([], db) = Inr (ls, db')"
    and res: "db_reservations db' = map (\<lambda>b. if b \<in> set ?rows \<and> stranded db (now - td_seconds secs) now b
      then stranded_outcome db now b else b) (db_reservations db)"
    using reconcile_stranded_rows_exact [OF _ assms(1), of ?rows db "now - td_seconds secs" now "[]"] by auto
  have run: "reconcile_stranded now secs db = Inr (ls, db')"
    using loop assms(2) by (simp add: reconcile_stranded_def)
  have "db_reservations db' = map (\<lambda>b. if stranded db (now - td_seconds secs) now b
       then stranded_outcome db now b else b) (db_reservations db)"
    unfolding res by (auto simp: stranded_def)
  moreover have "\<not> stranded db c now (stranded_outcome db now b)" for c b
    by (simp add: stranded_def stranded_outcome_def moved_def)
  ultimately show ?thesis
    using run by auto
qed

theorem reconcile_stranded_complete_witness:
  "\<exists>ls db'. reconcile_stranded (seconds 400) 300 (example_account_db Res_reserved) = Inr (ls, db') \<and>
     map br_state (db_reservations db') = [Res_expired]"
proof -
  have inv: "reservations_inv (example_account_db Res_reserved)"
    using example_account_inv [of Res_reserved] by (simp add: accounts_inv_def)
  have "stranded (example_account_db Res_reserved) (seconds 400 - td_seconds 300) (seconds 400) (example_reservation Res_reserved)"
      "br_state (stranded_outcome (example_account_db Res_reserved) (seconds 400) (example_reservation Res_reserved)) = Res_expired"
    by (simp_all add: stranded_def stranded_outcome_def moved_def dispatched_effect_def example_account_db_def
        example_reservation_def td_seconds_def lease_live_for_def lock_invocation_def example_iv_db_def
        example_invocation_def job_by_id_def example_running_db_def claim_row_def queued_job_def expired_def)
  with reconcile_stranded_complete [OF inv, of 300 "seconds 400"]
  show ?thesis by (auto simp: example_account_db_def)
qed

section \<open>Evidence\<close>

lemma settle_succeeds:
  assumes inv: "reservations_inv db" and b: "b \<in> set (db_reservations db)" "br_state b \<notin> set SETTLED_STATES"
    and f: "settles st f" "\<And>u. ledger_ok u \<Longrightarrow> ul_id u = br_ledger_id b \<Longrightarrow>
      ul_cost_status u = status_of (br_state b) \<Longrightarrow> ledger_ok (f u)"
  shows "\<exists>db'. settle (br_ledger_id b) f st reason now v db = (Inr v, db') \<and> reservations_inv db' \<and>
    (\<exists>b' \<in> set (db_reservations db'). br_ledger_id b' = br_ledger_id b \<and> br_state b' = st) \<and>
    db_ledger db' = update_where (\<lambda>u. ul_id u = br_ledger_id b) f (db_ledger db)"
proof -
  let ?l = "br_ledger_id b"
  have ns: "\<not> settled_row b" using b(2) by (simp add: settled_row_def)
  obtain db1 db2 where w: "update_ledger ?l f db = Inr db1" "transition ?l st reason now db1 = Inr db2"
      "reservations_inv db2"
      "db_reservations db2 = map (\<lambda>d. if d = b then moved st reason now d else d) (db_reservations db)"
      "db_ledger db2 = update_where (\<lambda>u. ul_id u = ?l) f (db_ledger db)"
    using settlement_total [OF inv b(1) ns f] by blast
  have "filter (\<lambda>d. br_ledger_id d = ?l) (db_reservations db) = [b]"
    using inv b(1) by (intro filter_key_unique) (simp_all add: reservations_inv_def)
  then have opn: "require_open db ?l = Inr b"
    using b(2) by (simp add: require_open_def lifecycle_def)
  obtain v0 where v0: "v0 \<in> set (db_ledger db)" "ul_id v0 = ?l"
    using inv b(1) by (auto simp: reservations_inv_def)
  have "rowcount (\<lambda>v. ul_id v = ?l) (db_ledger db) = 1"
    using filter_key_unique [of ul_id "db_ledger db" v0] v0 inv
    by (simp add: rowcount_def reservations_inv_def)
  then have call: "settle ?l f st reason now v db = (Inr v, db2)"
    using w(1,2) opn by (simp add: settle_def transaction_def settle_body_def)
  have in_res: "moved st reason now b \<in> set (db_reservations db2)"
    using b(1) by (force simp: w(4))
  have "\<exists>b' \<in> set (db_reservations db2). br_ledger_id b' = ?l \<and> br_state b' = st"
    by (rule bexI [OF _ in_res]) (simp add: moved_def)
  with call w(3,5) show ?thesis by blast
qed

lemma open_not_reconciled:
  "br_state b \<notin> set SETTLED_STATES \<Longrightarrow> status_of (br_state b) \<noteq> Cost_reconciled"
  by (cases "br_state b") (auto simp: SETTLED_STATES_def)

text \<open>
  Settling usage as unknown never makes cost disappear: the call succeeds on every open
  reservation, the ledger row keeps its reserved amounts and has no actual cost, so that it stays
  charged with the full reserved cost, and the reservation stays active in the aggregate.
\<close>

theorem unresolved_usage_stays_charged:
  assumes "reservations_inv db" and "b \<in> set (db_reservations db)" and "br_state b \<notin> set SETTLED_STATES"
    and "opt_all valid_usage u"
  shows "\<exists>db'. unknown (br_ledger_id b) u now db = (Inr \<lparr>cr_ledger_id = br_ledger_id b, cr_status = Cost_unknown,
        cr_cost_usd = None\<rparr>, db') \<and>
    (\<exists>b' \<in> set (db_reservations db'). br_ledger_id b' = br_ledger_id b \<and> br_state b' = Res_unknown_usage) \<and>
    (\<forall>v \<in> set (db_ledger db). ul_id v = br_ledger_id b \<longrightarrow>
       (\<exists>v' \<in> set (db_ledger db'). ul_id v' = ul_id v \<and> ul_actual_cost_usd v' = None \<and>
          charged_cost v' = currency (or_else (ul_reserved_cost_usd v) None 0)))"
proof -
  let ?l = "br_ledger_id b" and ?f = "\<lambda>v. clear_cost Cost_unknown (usage_values u None None v)"
  have ok: "ledger_ok (?f v)" if "ledger_ok v" "ul_cost_status v = status_of (br_state b)" for v
    using that open_not_reconciled [OF assms(3)] assms(4) by (intro clear_cost_ok usage_values_ok) auto
  obtain db2 where call: "unknown ?l u now db
        = (Inr \<lparr>cr_ledger_id = ?l, cr_status = Cost_unknown, cr_cost_usd = None\<rparr>, db2)"
    and res: "\<exists>b' \<in> set (db_reservations db2). br_ledger_id b' = ?l \<and> br_state b' = Res_unknown_usage"
    and led: "db_ledger db2 = update_where (\<lambda>v. ul_id v = ?l) ?f (db_ledger db)"
    unfolding unknown_def using settle_succeeds [OF assms(1-3) settles_intros(1) ok] by blast
  have in_led: "?f v \<in> set (db_ledger db2)" if "v \<in> set (db_ledger db)" "ul_id v = ?l" for v
    using that by (force simp: led update_where_def)
  have charged: "ul_id (?f v) = ul_id v \<and> ul_actual_cost_usd (?f v) = None \<and>
      charged_cost (?f v) = currency (or_else (ul_reserved_cost_usd v) None 0)" for v
    by (cases "ul_reserved_cost_usd v")
      (auto simp: clear_cost_def usage_values_def charged_cost_def or_else_def split: option.splits)
  have "\<forall>v \<in> set (db_ledger db). ul_id v = ?l \<longrightarrow>
       (\<exists>v' \<in> set (db_ledger db2). ul_id v' = ul_id v \<and> ul_actual_cost_usd v' = None \<and>
          charged_cost v' = currency (or_else (ul_reserved_cost_usd v) None 0))"
    using in_led charged by blast
  with call res show ?thesis by blast
qed

theorem unresolved_usage_stays_charged_witness:
  "\<exists>db'. unknown ''l1'' None 5 (example_account_db Res_reserved) =
     (Inr \<lparr>cr_ledger_id = ''l1'', cr_status = Cost_unknown, cr_cost_usd = None\<rparr>, db')"
proof -
  have inv: "reservations_inv (example_account_db Res_reserved)"
    using example_account_inv [of Res_reserved] by (simp add: accounts_inv_def)
  from unresolved_usage_stays_charged [OF inv, of "example_reservation Res_reserved" None 5]
  show ?thesis
    by (auto simp: example_account_db_def example_reservation_def SETTLED_STATES_def)
qed

text \<open>The row that \<open>reconcile\<close> writes.\<close>

definition reconciled_row :: "reconcile_input \<Rightarrow> ledger_row \<Rightarrow> ledger_row" where
  "reconciled_row i u =
     (let bad = reconcile_mismatch i;
          cost = (if bad then None else map_option currency_float (ri_actual_cost_usd i))
      in (usage_values (ri_usage i) (ri_input_tokens i) (ri_output_tokens i) u)
        \<lparr>ul_cost_status := (if bad then Cost_mismatch else Cost_reconciled), ul_cost_usd := cost,
         ul_actual_cost_usd := cost,
         ul_provider_usage_digest := (if digest_ok (ri_provider_usage_digest i)
           then ri_provider_usage_digest i else None),
         ul_price_catalog_revision := (if reconcile_valid i then ri_price_catalog_revision i else None)\<rparr>)"

lemma reconcile_eq_settle:
  assumes "\<not> negative (ri_input_tokens i)" and "\<not> negative (ri_output_tokens i)"
    and "opt_all (\<lambda>a. 0 \<le> currency a) (ri_actual_cost_usd i)"
  shows "reconcile l i now db =
    settle l (reconciled_row i) (if reconcile_mismatch i then Res_disputed else Res_committed)
      (if reconcile_mismatch i then ''usage or price evidence mismatch'' else ''usage and price evidence reconciled'')
      now \<lparr>cr_ledger_id = l, cr_status = (if reconcile_mismatch i then Cost_mismatch else Cost_reconciled),
        cr_cost_usd = (if reconcile_mismatch i then None else map_option currency_float (ri_actual_cost_usd i))\<rparr> db"
proof -
  have "\<not> (negative (ri_input_tokens i) \<or> negative (ri_output_tokens i) \<or>
      (case ri_actual_cost_usd i of None \<Rightarrow> False | Some a \<Rightarrow> currency a < 0))"
    using assms by (auto simp: opt_all_def split: option.splits)
  then show ?thesis
    unfolding reconcile_def reconciled_row_def Let_def by (simp only: if_False)
qed

lemma reconciled_row_settles:
  "settles (if reconcile_mismatch i then Res_disputed else Res_committed) (reconciled_row i)"
  by (auto simp: settles_def reconciled_row_def Let_def usage_values_def split: option.splits)

lemma reconciled_row_ok_mismatch:
  assumes "ledger_ok (usage_values (ri_usage i) (ri_input_tokens i) (ri_output_tokens i) u)"
    and "reconcile_mismatch i"
  shows "ledger_ok (reconciled_row i u)"
  using assms by (simp add: ledger_ok_def reconciled_row_def)

lemma reconciled_row_ok_commit:
  assumes "ledger_ok u" and "\<not> reconcile_mismatch i" and "opt_all valid_usage (ri_usage i)"
    and "opt_all (\<lambda>a. 0 \<le> currency a) (ri_actual_cost_usd i)"
  shows "ledger_ok (reconciled_row i u)"
proof -
  obtain a p where ev: "ri_actual_cost_usd i = Some a" "ri_usage i = Some p" "complete_usage p"
      "digest_ok (ri_provider_usage_digest i)" "reconcile_valid i" "ri_price_catalog_revision i \<noteq> None"
    using assms(2) by (auto simp: reconcile_mismatch_def reconcile_valid_def split: option.splits)
  obtain x y z c k where toks: "pu_input_tokens p = Some x" "pu_output_tokens p = Some y"
      "pu_total_tokens p = Some z" "pu_context_tokens p = Some c" "pu_tool_calls p = Some k"
    using ev(3) by (auto simp: complete_usage_def)
  have vp: "valid_usage p" using assms(3) ev(2) by simp
  have total: "z = x + y" by (rule valid_usage_total [OF vp toks(1-3)])
  have signs: "0 \<le> x" "0 \<le> y" "0 \<le> c" "0 \<le> k"
    using vp toks by (simp_all add: valid_usage_def usage_fields_ok_def)
  obtain d where digest: "ri_provider_usage_digest i = Some d" "length d = 64"
    using ev(4) by (auto simp: digest_ok_def is_sha256_def split: option.splits)
  have row: "reconciled_row i u = u\<lparr>ul_input_tokens := Some x, ul_output_tokens := Some y,
      ul_total_tokens := Some (x + y), ul_context_tokens := Some c, ul_tool_calls := Some k,
      ul_cost_status := Cost_reconciled, ul_cost_usd := Some (currency_float a),
      ul_actual_cost_usd := Some (currency_float a), ul_provider_usage_digest := Some d,
      ul_price_catalog_revision := ri_price_catalog_revision i\<rparr>"
    using assms(2) ev toks total digest(1) by (simp add: reconciled_row_def usage_values_def Let_def)
  have cost: "0 \<le> currency_float a"
    using assms(4) ev(1) by (simp add: currency_float_def)
  show ?thesis
    unfolding row using assms(1) signs cost digest(2) ev(6) by (simp add: ledger_ok_def)
qed

lemma reconciled_row_ok:
  assumes "ledger_ok u" and "ul_cost_status u \<noteq> Cost_reconciled" and "opt_all valid_usage (ri_usage i)"
    and "\<not> negative (ri_input_tokens i)" and "\<not> negative (ri_output_tokens i)"
    and "opt_all (\<lambda>a. 0 \<le> currency a) (ri_actual_cost_usd i)"
  shows "ledger_ok (reconciled_row i u)"
proof (cases "reconcile_mismatch i")
  case True
  have "opt_all (\<lambda>n. 0 \<le> n) (ri_input_tokens i)" "opt_all (\<lambda>n. 0 \<le> n) (ri_output_tokens i)"
    using assms(4,5) by (auto simp: negative_def opt_all_def split: option.splits)
  with True assms(1-3) show ?thesis
    by (intro reconciled_row_ok_mismatch usage_values_ok)
next
  case False
  with assms show ?thesis by (intro reconciled_row_ok_commit)
qed

lemma not_mismatch_iff:
  "\<not> reconcile_mismatch i \<longleftrightarrow> (\<exists>a d p u. ri_actual_cost_usd i = Some a \<and>
      ri_provider_usage_digest i = Some d \<and> is_sha256 d \<and> ri_price_catalog_revision i = Some p \<and> p \<noteq> [] \<and>
      ri_usage i = Some u \<and> complete_usage u \<and> opt_all (\<lambda>e. currency a = currency e) (ri_expected_cost_usd i))"
  by (auto simp: reconcile_mismatch_def reconcile_valid_def digest_ok_def currency_equal_def opt_all_def
      split: option.splits)

lemma reconcile_negative:
  assumes "negative (ri_input_tokens i) \<or> negative (ri_output_tokens i) \<or>
    \<not> opt_all (\<lambda>a. 0 \<le> currency a) (ri_actual_cost_usd i)"
  shows "reconcile l i now db = (Inl (ValueError ''usage and costs cannot be negative''), db)"
  using assms by (auto simp: reconcile_def opt_all_def split: option.splits)

text \<open>
  C29: Cost is committed on complete evidence only, and on complete evidence always. On an open
  reservation, and for usage that passes the checks of its model, \<open>reconcile\<close> refuses a negative token
  count or a cost that rounds to a negative amount and writes nothing; otherwise it succeeds without
  breaking the constraints of the ledger, and it commits exactly when the actual cost, a well-formed
  usage digest, a price revision and complete token counts are present and the actual cost equals the
  expected one to the nanodollar; without that evidence the reservation is disputed and stays open.
\<close>

theorem reconcile_commits_iff_evidence:
  assumes "reservations_inv db" and "b \<in> set (db_reservations db)" and "br_state b \<notin> set SETTLED_STATES"
    and "opt_all valid_usage (ri_usage i)"
  shows "if negative (ri_input_tokens i) \<or> negative (ri_output_tokens i) \<or>
      \<not> opt_all (\<lambda>a. 0 \<le> currency a) (ri_actual_cost_usd i)
    then reconcile (br_ledger_id b) i now db = (Inl (ValueError ''usage and costs cannot be negative''), db)
    else \<exists>v db'. reconcile (br_ledger_id b) i now db = (Inr v, db') \<and> reservations_inv db' \<and>
      (\<exists>b' \<in> set (db_reservations db'). br_ledger_id b' = br_ledger_id b \<and>
         br_state b' = (if cr_status v = Cost_reconciled then Res_committed else Res_disputed)) \<and>
      (cr_status v = Cost_reconciled \<longleftrightarrow>
         (\<exists>a d p u. ri_actual_cost_usd i = Some a \<and> ri_provider_usage_digest i = Some d \<and> is_sha256 d \<and>
            ri_price_catalog_revision i = Some p \<and> p \<noteq> [] \<and> ri_usage i = Some u \<and> complete_usage u \<and>
            opt_all (\<lambda>e. currency a = currency e) (ri_expected_cost_usd i)))"
proof (cases "negative (ri_input_tokens i) \<or> negative (ri_output_tokens i) \<or>
    \<not> opt_all (\<lambda>a. 0 \<le> currency a) (ri_actual_cost_usd i)")
  case True
  then show ?thesis by (simp add: reconcile_negative)
next
  case False
  then have nonneg: "\<not> negative (ri_input_tokens i)" "\<not> negative (ri_output_tokens i)"
      "opt_all (\<lambda>a. 0 \<le> currency a) (ri_actual_cost_usd i)"
    by blast+
  have ok: "ledger_ok (reconciled_row i u)" if "ledger_ok u" "ul_cost_status u = status_of (br_state b)" for u
    using that open_not_reconciled [OF assms(3)] assms(4) nonneg by (intro reconciled_row_ok) simp_all
  let ?v = "\<lparr>cr_ledger_id = br_ledger_id b,
    cr_status = (if reconcile_mismatch i then Cost_mismatch else Cost_reconciled),
    cr_cost_usd = (if reconcile_mismatch i then None else map_option currency_float (ri_actual_cost_usd i))\<rparr>"
  have status: "cr_status ?v = Cost_reconciled \<longleftrightarrow> \<not> reconcile_mismatch i"
    by simp
  obtain db' where "reconcile (br_ledger_id b) i now db = (Inr ?v, db')" "reservations_inv db'"
      "\<exists>b' \<in> set (db_reservations db'). br_ledger_id b' = br_ledger_id b \<and>
         br_state b' = (if reconcile_mismatch i then Res_disputed else Res_committed)"
    unfolding reconcile_eq_settle [OF nonneg]
    using settle_succeeds [OF assms(1-3) reconciled_row_settles [of i] ok] by blast
  then have "\<exists>v db'. reconcile (br_ledger_id b) i now db = (Inr v, db') \<and> reservations_inv db' \<and>
      (\<exists>b' \<in> set (db_reservations db'). br_ledger_id b' = br_ledger_id b \<and>
         br_state b' = (if cr_status v = Cost_reconciled then Res_committed else Res_disputed)) \<and>
      (cr_status v = Cost_reconciled \<longleftrightarrow> \<not> reconcile_mismatch i)"
    by (intro exI [of _ ?v] exI [of _ db']) (simp add: status split: if_splits)
  then show ?thesis
    using False unfolding not_mismatch_iff by (simp only: if_False)
qed

definition example_reconcile_input :: reconcile_input where
  "example_reconcile_input =
    \<lparr>ri_input_tokens = Some 3, ri_output_tokens = Some 4, ri_actual_cost_usd = Some 1,
     ri_provider_usage_digest = Some example_digest, ri_price_catalog_revision = Some ''r1'',
     ri_expected_cost_usd = Some 1,
     ri_usage = Some \<lparr>pu_evidence_source = Provider_reported, pu_input_tokens = Some 3,
       pu_output_tokens = Some 4, pu_total_tokens = Some 7, pu_context_tokens = Some 3,
       pu_tool_calls = Some 0, pu_cached_input_tokens = None, pu_service_tier = None,
       pu_billing_profile = None, pu_tool_billing_usd = None, pu_actual_cost_usd = None,
       pu_provider_usage_digest = None, pu_observed_provider_version = None,
       pu_observed_endpoint_digest = None, pu_operator_attested_runtime_revision = None\<rparr>\<rparr>"

theorem reconcile_commits_iff_evidence_witness:
  "\<exists>v db'. reconcile ''l1'' example_reconcile_input 5 (example_account_db Res_reserved) = (Inr v, db') \<and>
     cr_status v = Cost_reconciled"
proof -
  have inv: "reservations_inv (example_account_db Res_reserved)"
    using example_account_inv [of Res_reserved] by (simp add: accounts_inv_def)
  have dig: "is_sha256 example_digest"
    by (simp add: is_sha256_def example_digest_def hex_digits_def list_all_iff)
  have "0 \<le> currency 1" by (rule currency_nonneg) simp
  moreover have "example_reservation Res_reserved \<in> set (db_reservations (example_account_db Res_reserved))"
    "br_state (example_reservation Res_reserved) \<notin> set SETTLED_STATES"
    "br_ledger_id (example_reservation Res_reserved) = ''l1''"
    by (simp_all add: example_account_db_def example_reservation_def SETTLED_STATES_def)
  moreover have "opt_all valid_usage (ri_usage example_reconcile_input)"
    "\<not> negative (ri_input_tokens example_reconcile_input)" "\<not> negative (ri_output_tokens example_reconcile_input)"
    "ri_actual_cost_usd example_reconcile_input = Some 1"
    by (simp_all add: example_reconcile_input_def valid_usage_def usage_fields_ok_def
        validate_token_consistency_def negative_def)
  ultimately obtain v db' where
      "reconcile ''l1'' example_reconcile_input 5 (example_account_db Res_reserved) = (Inr v, db')"
      "cr_status v = Cost_reconciled \<longleftrightarrow> (\<exists>a d p u. ri_actual_cost_usd example_reconcile_input = Some a \<and>
         ri_provider_usage_digest example_reconcile_input = Some d \<and> is_sha256 d \<and>
         ri_price_catalog_revision example_reconcile_input = Some p \<and> p \<noteq> [] \<and>
         ri_usage example_reconcile_input = Some u \<and> complete_usage u \<and>
         opt_all (\<lambda>e. currency a = currency e) (ri_expected_cost_usd example_reconcile_input))"
    using reconcile_commits_iff_evidence [OF inv, of "example_reservation Res_reserved"
        example_reconcile_input 5] by (metis opt_all_simps(2))
  then show ?thesis
    using dig by (simp add: example_reconcile_input_def complete_usage_def)
qed

text \<open>
  The guard of \<open>release\<close> that refuses an unknown or disputed reservation reads the lifecycle before the
  transaction starts; the transaction itself releases a disputed reservation whose invocation has not
  been dispatched. A dispute recorded between the two is therefore overwritten.
\<close>

theorem release_guard_outside_transaction:
  "fst (release ''l1'' ''done'' 5 (example_account_db Res_disputed)) =
     Inl (ValueError ''unknown or disputed usage cannot be released without reconciliation'') \<and>
   (\<exists>b db'. release_base ''l1'' ''done'' 5 (example_account_db Res_disputed) = (Inr b, db') \<and>
      br_state b = Res_released)"
  by (simp add: release_def release_base_def transaction_def release_body_def lock_bound_invocation_def
      require_open_def lifecycle_def update_ledger_def transition_def then_lifecycle_def lock_invocation_def
      example_account_db_def example_reservation_def example_ledger_row_def example_iv_db_def
      example_invocation_def ledger_ok_def clear_cost_def SETTLED_STATES_def dispatched_effect_def
      rowcount_def update_where_def blank_char_def Let_def)

end
