(* ===== verification/Worker_Writes.thy ===== *)
theory Worker_Writes
  imports Job_Retry Reservation_Invariants
begin

text \<open>
  The two writes a worker makes to the execution tables on its own, past the repositories:
  \<open>_mark_started\<close> of \<open>src/backend/execution_v1/_worker_kernel.py\<close> (its transaction; the event that
  follows it is an append of the event log) and \<open>_synchronize_usage_state\<close> of
  \<open>src/backend/execution_v1/fenced_worker.py\<close>.
\<close>

section \<open>Starting an attempt\<close>

definition mark_started_body :: "string option \<Rightarrow> string \<Rightarrow> datetime \<Rightarrow> unit tx" where
  "mark_started_body attempt_id execution_id now db =
     Inr ((), db\<lparr>
       db_attempts := update_where (\<lambda>t. Some (at_id t) = attempt_id \<and> at_status t = ''queued'')
         (\<lambda>t. t\<lparr>at_status := ''running''\<rparr>) (db_attempts db),
       db_executions := update_where (\<lambda>x. ex_id x = execution_id \<and> ex_status x = Ex_queued)
         (\<lambda>x. x\<lparr>ex_status := Ex_running, ex_started_at := Some now\<rparr>) (db_executions db)\<rparr>)"

lemma mark_started_moves:
  assumes "mark_started_body a x now db = Inr (r, db')"
  shows "db_move\<^sup>*\<^sup>* db db'"
proof -
  define db1 where "db1 = db\<lparr>db_attempts := update_where (\<lambda>t. Some (at_id t) = a \<and> at_status t = ''queued'')
     (\<lambda>t. t\<lparr>at_status := ''running''\<rparr>) (db_attempts db)\<rparr>"
  have "db_move db db1"
    unfolding db1_def by (rule dm_attempts) simp
  moreover have "db_move db1 db'"
  proof -
    have "db' = db1\<lparr>db_executions := update_where (\<lambda>e. ex_id e = x \<and> ex_status e = Ex_queued)
        (\<lambda>e. e\<lparr>ex_status := Ex_running, ex_started_at := Some now\<rparr>) (db_executions db1)\<rparr>"
      using assms by (simp add: mark_started_body_def db1_def)
    then show ?thesis by (simp add: dm_executions)
  qed
  ultimately show ?thesis by (rule converse_rtranclp_into_rtranclp [OF _ r_into_rtranclp])
qed

section \<open>Settled usage, written back to the invocation\<close>

definition synchronized_state :: "reservation_state list \<Rightarrow> (usage_state \<times> side_effect_state) option" where
  "synchronized_state states =
     (if Res_disputed \<in> set states then Some (Use_disputed, Eff_ambiguous)
      else if Res_unknown_usage \<in> set states then Some (Use_unknown, Eff_ambiguous)
      else if Res_committed \<in> set states then Some (Use_reconciled, Eff_reconciled)
      else if list_all (\<lambda>s. s \<in> {Res_released, Res_expired}) states then Some (Use_not_observed, Eff_not_started)
      else None)"

definition synchronize_usage_state :: "string \<Rightarrow> datetime \<Rightarrow> unit tx" where
  "synchronize_usage_state invocation_id now db =
     (let states = map br_state (filter (\<lambda>b. br_invocation_id b = Some invocation_id) (db_reservations db)) in
      if states = [] then Inr ((), db)
      else case synchronized_state states of
        None \<Rightarrow> Inr ((), db)
      | Some (usage_state, side_effect_state) \<Rightarrow>
          Inr ((), update_invocation invocation_id (\<lambda>r. r\<lparr>iv_usage_state := usage_state,
            iv_side_effect_state := side_effect_state, iv_updated_at := now\<rparr>) db))"

lemma synchronize_cases [consumes 1, case_names kept written]:
  assumes "synchronize_usage_state i now db = Inr (r, db')"
  obtains "db' = db"
  | u e where "db' = update_invocation i (\<lambda>r. r\<lparr>iv_usage_state := u, iv_side_effect_state := e,
      iv_updated_at := now\<rparr>) db"
    "e = Eff_not_started \<Longrightarrow>
       \<exists>b \<in> set (db_reservations db). br_invocation_id b = Some i \<and> br_state b \<in> {Res_released, Res_expired}"
proof -
  let ?states = "map br_state (filter (\<lambda>b. br_invocation_id b = Some i) (db_reservations db))"
  show thesis
  proof (cases "?states = [] \<or> synchronized_state ?states = None")
    case True
    then show ?thesis using assms that(1) by (auto simp: synchronize_usage_state_def Let_def split: if_splits)
  next
    case False
    then obtain u e where ue: "synchronized_state ?states = Some (u, e)" "?states \<noteq> []" by auto
    then have "db' = update_invocation i (\<lambda>r. r\<lparr>iv_usage_state := u, iv_side_effect_state := e,
        iv_updated_at := now\<rparr>) db"
      using assms by (simp add: synchronize_usage_state_def Let_def)
    moreover have "\<exists>b \<in> set (db_reservations db). br_invocation_id b = Some i \<and> br_state b \<in> {Res_released, Res_expired}"
      if "e = Eff_not_started"
    proof -
      have all: "list_all (\<lambda>s. s \<in> {Res_released, Res_expired}) ?states"
        using ue(1) that by (auto simp: synchronized_state_def split: if_splits)
      obtain b where "b \<in> set (filter (\<lambda>b. br_invocation_id b = Some i) (db_reservations db))"
        using ue(2) by (metis list.map_disc_iff list.set_sel(1))
      with all show ?thesis by (auto simp: list_all_iff)
    qed
    ultimately show ?thesis by (rule that(2))
  qed
qed

end
