(* ===== verification/Arena_System.thy ===== *)
theory Arena_System
  imports Worker_Writes
begin

text \<open>
  The services over one database: a step of the system is a step of the job queue, of the
  invocation table or of the reservation tables, or one of the worker's own writes, in any order. The frame lemmas say which tables a
  service leaves alone; \<open>arena_inv\<close> joins the invariants of the components and adds what only their
  composition gives: the reservation of a dispatched invocation is never released and never expires.
\<close>

section \<open>Steps of the system\<close>

inductive arena_step :: "arena_db \<Rightarrow> arena_db \<Rightarrow> bool" where
  as_job: "job_step db db' \<Longrightarrow> arena_step db db'"
| as_invocation: "invocation_step db db' \<Longrightarrow> arena_step db db'"
| as_reservation: "reservation_step db db' \<Longrightarrow> arena_step db db'"
| as_start: "transaction (mark_started_body a x now) db = (r, db') \<Longrightarrow> arena_step db db'"
| as_synchronize: "transaction (synchronize_usage_state i now) db = (r, db') \<Longrightarrow> arena_step db db'"

inductive_cases arena_stepE: "arena_step db db'"

section \<open>Frames\<close>

lemma append_event_frame:
  "append_attempt_event a ty pl db = Inr (n, db') \<Longrightarrow>
   db_invocations db' = db_invocations db \<and> db_reservations db' = db_reservations db \<and> db_ledger db' = db_ledger db"
  by (drule log.append_core) (simp add: same_core_def)

lemma db_move_frame:
  "db_move db db' \<Longrightarrow>
   db_invocations db' = db_invocations db \<and> db_reservations db' = db_reservations db \<and> db_ledger db' = db_ledger db"
proof (induction rule: db_move.induct)
  case (dm_event a ty pl db n db')
  then show ?case by (rule append_event_frame)
qed (auto simp: insert_job_Inr_iff insert_attempt_Inr_iff)

lemma db_moves_frame:
  "db_move\<^sup>*\<^sup>* db db' \<Longrightarrow>
   db_invocations db' = db_invocations db \<and> db_reservations db' = db_reservations db \<and> db_ledger db' = db_ledger db"
  by (induction rule: rtranclp_induct) (auto dest: db_move_frame)

lemma res_move_tables:
  assumes "res_move db db'"
  shows "\<exists>l b. db' = db\<lparr>db_ledger := l, db_reservations := b\<rparr>"
  using res_move_frame [OF assms]
  by (intro exI [of _ "db_ledger db'"] exI [of _ "db_reservations db'"]) simp

lemma res_moves_tables: "res_move\<^sup>*\<^sup>* db db' \<Longrightarrow> \<exists>l b. db' = db\<lparr>db_ledger := l, db_reservations := b\<rparr>"
proof (induction rule: rtranclp_induct)
  case base
  have "db = db\<lparr>db_ledger := db_ledger db, db_reservations := db_reservations db\<rparr>" by simp
  then show ?case by blast
next
  case (step u v)
  then show ?case using res_move_tables by fastforce
qed

text \<open>The invariant of the jobs reads none of the other tables.\<close>

lemma jobs_inv_frame [simp]:
  "jobs_inv (db\<lparr>db_invocations := r\<rparr>) = jobs_inv db"
  "jobs_inv (db\<lparr>db_ledger := l\<rparr>) = jobs_inv db"
  "jobs_inv (db\<lparr>db_reservations := b\<rparr>) = jobs_inv db"
  by (simp_all add: jobs_inv_def db_keys_def db_refs_def events_inv_def attempt_events_of_def
      execution_events_of_def attempt_execution_ids_def)

lemma reservations_inv_cong:
  "db_ledger db' = db_ledger db \<Longrightarrow> db_reservations db' = db_reservations db \<Longrightarrow>
   reservations_inv db' = reservations_inv db"
  by (simp add: reservations_inv_def)

section \<open>Which invocations have been dispatched\<close>

definition dispatched_ids :: "arena_db \<Rightarrow> string set" where
  "dispatched_ids db = {iv_id r | r. r \<in> set (db_invocations db) \<and> iv_dispatch_started_at r \<noteq> None}"

definition same_dispatch :: "arena_db \<Rightarrow> arena_db \<Rightarrow> bool" where
  "same_dispatch db db' \<longleftrightarrow> dispatched_ids db' \<subseteq> dispatched_ids db"

lemma same_dispatch_refl [simp]: "same_dispatch db db"
  by (simp add: same_dispatch_def)

lemma same_dispatchD: "same_dispatch db db' \<Longrightarrow> i \<in> dispatched_ids db' \<Longrightarrow> i \<in> dispatched_ids db"
  by (auto simp: same_dispatch_def)

lemma same_dispatch_update:
  assumes "same_dispatch db0 db"
    and "\<And>r. iv_id (f r) = iv_id r \<and> iv_dispatch_started_at (f r) = iv_dispatch_started_at r"
  shows "same_dispatch db0 (update_invocation i f db)"
proof -
  have "dispatched_ids (update_invocation i f db) \<subseteq> dispatched_ids db"
    using assms(2) by (auto simp: dispatched_ids_def update_invocation_def in_update_where_iff)
  with assms(1) show ?thesis by (simp add: same_dispatch_def)
qed

lemma same_dispatch_ambiguous: "same_dispatch db (mark_ambiguous ids now db)"
  by (auto simp: same_dispatch_def dispatched_ids_def mark_ambiguous_def in_update_where_iff)

lemma same_dispatch_begin:
  assumes "insert_invocation n (db\<lparr>db_invocations := retire_prior a now (db_invocations db)\<rparr>) = Inr db'"
    and "iv_dispatch_started_at n = None"
  shows "same_dispatch db db'"
  using assms by (auto simp: same_dispatch_def dispatched_ids_def insert_invocation_def retire_prior_def
      in_update_where_iff split: if_splits) blast+

lemma transaction_dispatch:
  assumes "\<And>a db'. body db = Inr (a, db') \<Longrightarrow> same_dispatch db db'"
  shows "same_dispatch db (snd (transaction body db))"
  using transaction_snd_cases [of body db] assms by auto

lemma then_get_dispatch:
  assumes "then_get i (transaction body db) = (r, db')"
    and "\<And>a db'. body db = Inr (a, db') \<Longrightarrow> same_dispatch db db'"
  shows "same_dispatch db db'"
  using then_get_db [OF assms(1)] transaction_dispatch [of body db] assms(2) by blast

lemmas dispatch_intros = same_dispatch_update same_dispatch_ambiguous same_dispatch_refl

lemma begin_dispatch:
  assumes "begin_invocation h lease inp dl now i nonce db = (r, db')"
  shows "same_dispatch db db'"
proof -
  have "same_dispatch db d" if "begin_body h lease a v dl now i nonce db = Inr (x, d)" for a v x d
    using that by (auto simp: begin_body_def bind_r_eq_Inr_iff new_invocation_row_def
        split: option.splits if_splits intro: same_dispatch_begin)
  then have "same_dispatch db (snd (transaction (begin_body h lease a v dl now i nonce) db))" for a v
    by (rule transaction_dispatch)
  from this [of _ "ai_attempt inp"] assms show ?thesis
    by (auto simp: begin_invocation_def split: option.splits if_splits prod.splits sum.splits) (metis snd_conv)+
qed

lemma observe_dispatch:
  assumes "observe_provider_request h iv q now db = (r, db')"
  shows "same_dispatch db db'"
proof -
  have "same_dispatch db d" if "observe_body h iv q now db = Inr (x, d)" for x d
    using that by (auto simp: observe_body_def bind_r_eq_Inr_iff Let_def split: if_splits intro!: dispatch_intros)
  then have "same_dispatch db (snd (transaction (observe_body h iv q now) db))"
    by (rule transaction_dispatch)
  with assms show ?thesis
    by (auto simp: observe_provider_request_def split: if_splits prod.splits sum.splits bool.splits)
qed

lemma admit_dispatch:
  assumes "admit_terminal iv d oc u now db = (r, db')"
  shows "same_dispatch db db'"
proof -
  have "same_dispatch db d'" if "admit_body iv d oc u now db = Inr (x, d')" for x d'
    using that by (auto simp: admit_body_def bind_r_eq_Inr_iff Let_def split: if_splits intro!: dispatch_intros)
  then have "same_dispatch db (snd (transaction (admit_body iv d oc u now) db))"
    by (rule transaction_dispatch)
  with assms show ?thesis
    by (auto simp: admit_terminal_def split: if_splits)
qed

lemma mark_dispatch:
  "mark_transport_context iv b now db = (r, db') \<Longrightarrow> same_dispatch db db'"
  "cancel_transition iv st now db = (r, db') \<Longrightarrow> same_dispatch db db'"
  "mark_lease_lost iv now db = (r, db') \<Longrightarrow> same_dispatch db db'"
  unfolding mark_transport_context_def cancel_transition_def mark_lease_lost_def
  by (erule then_get_dispatch; auto simp: bind_r_eq_Inr_iff intro!: dispatch_intros)+

text \<open>A dispatch is new only where every reservation of the invocation is still reserved.\<close>

lemma invocation_step_dispatch:
  assumes "invocation_step db db'" and "i \<in> dispatched_ids db'"
  shows "i \<in> dispatched_ids db \<or>
    (\<forall>b \<in> set (db_reservations db). br_invocation_id b = Some i \<longrightarrow> br_state b = Res_reserved)"
  using assms
proof (induction rule: invocation_step.induct)
  case (is_dispatch iv now db r db')
  then consider "db' = db" | "db' = update_invocation (iv_id iv) (\<lambda>r. r\<lparr>iv_dispatch_started_at := Some now,
      iv_side_effect_state := Eff_possible, iv_updated_at := now\<rparr>) db"
      "settled_reservation db (iv_id iv) = None"
    unfolding mark_dispatch_started_def
    by (auto dest!: then_get_db simp: transaction_def bind_r_eq_Inr_iff split: sum.splits)
  then show ?case
  proof cases
    case 2
    with is_dispatch.prems have "i \<in> dispatched_ids db \<or> i = iv_id iv"
      by (auto simp: dispatched_ids_def update_invocation_def in_update_where_iff) blast
    with 2(2) show ?thesis
      by (auto simp: settled_reservation_def filter_empty_conv)
  qed (use is_dispatch in simp)
qed (blast dest: same_dispatchD [rotated] begin_dispatch observe_dispatch admit_dispatch mark_dispatch)+

section \<open>The invariant of the system\<close>

definition dispatch_kept_charged :: "arena_db \<Rightarrow> bool" where
  "dispatch_kept_charged db \<longleftrightarrow>
     (\<forall>b \<in> set (db_reservations db). br_state b \<in> {Res_released, Res_expired} \<longrightarrow>
        (\<forall>i. br_invocation_id b = Some i \<longrightarrow> i \<notin> dispatched_ids db))"

definition arena_inv :: "arena_db \<Rightarrow> bool" where
  "arena_inv db \<longleftrightarrow>
     jobs_inv db \<and> invocations_inv (db_invocations db) \<and> reservations_inv db \<and> dispatch_kept_charged db"

definition arena_init :: "arena_db \<Rightarrow> bool" where
  "arena_init db \<longleftrightarrow> jobs_init db \<and> db_invocations db = [] \<and> db_reservations db = [] \<and> db_ledger db = []"

lemma undispatched_ids:
  assumes "invocations_inv (db_invocations db)" and "undispatched db l"
    and "b \<in> set (db_reservations db)" and "br_ledger_id b = l" and "br_invocation_id b = Some i"
  shows "i \<notin> dispatched_ids db"
  using assms unfolding dispatched_ids_def undispatched_def invocations_inv_def by blast

lemma res_move_charged:
  assumes "res_move db db'" and "invocations_inv (db_invocations db)" and "reservations_inv db"
    and "dispatch_kept_charged db"
  shows "dispatch_kept_charged db'"
  using assms
proof (induction rule: res_move.induct)
  case (rv_insert l i x a m c t k now db db')
  from rv_insert(1) show ?case
    by (rule insert_reservation_Inr) (use rv_insert(4) in \<open>auto simp: dispatch_kept_charged_def dispatched_ids_def\<close>)
next
  case (rv_settle l f db db1 st reason now db2)
  have db1: "db_reservations db1 = db_reservations db" "db_invocations db1 = db_invocations db"
    using rv_settle(1) by (simp_all add: update_ledger_Inr)
  have ids: "distinct (map br_ledger_id (db_reservations db1))"
    using rv_settle by (simp add: reservations_inv_def db1)
  from ids rv_settle(2) obtain row where row:
      "db2 = db1\<lparr>db_reservations := map (\<lambda>b. if br_ledger_id b = l then moved st reason now b else b)
        (db_reservations db)\<rparr>"
    by (rule transition_Inr) (simp add: db1)
  have same: "dispatched_ids db2 = dispatched_ids db"
    by (simp add: dispatched_ids_def row db1)
  show ?case
    unfolding dispatch_kept_charged_def same
  proof (intro ballI impI allI)
    fix b i assume b: "b \<in> set (db_reservations db2)" "br_state b \<in> {Res_released, Res_expired}"
      "br_invocation_id b = Some i"
    from b(1) obtain b0 where b0: "b0 \<in> set (db_reservations db)"
        "b = (if br_ledger_id b0 = l then moved st reason now b0 else b0)"
      by (auto simp: row)
    show "i \<notin> dispatched_ids db"
    proof (cases "br_ledger_id b0 = l")
      case True
      with b b0 have "st \<in> {Res_released, Res_expired}" "br_invocation_id b0 = Some i"
        by (simp_all add: moved_def)
      with rv_settle.hyps True b0(1) rv_settle.prems(1) show ?thesis
        by (intro undispatched_ids [where b = b0 and l = l]) auto
    next
      case False
      with b b0 rv_settle.prems(3) show ?thesis
        unfolding dispatch_kept_charged_def by auto
    qed
  qed
qed

lemma res_moves_charged:
  assumes "res_move\<^sup>*\<^sup>* db db'" and "invocations_inv (db_invocations db)" and "reservations_inv db"
    and "dispatch_kept_charged db"
  shows "dispatch_kept_charged db' \<and> reservations_inv db' \<and> db_invocations db' = db_invocations db"
  using assms
proof (induction rule: rtranclp_induct)
  case (step u v)
  then have "db_invocations v = db_invocations u" using res_move_tables by fastforce
  with step show ?case by (auto intro: res_move_charged res_move_inv)
qed simp

lemma dispatch_kept_charged_cong:
  "db_reservations db' = db_reservations db \<Longrightarrow> db_invocations db' = db_invocations db \<Longrightarrow>
   dispatch_kept_charged db' = dispatch_kept_charged db"
  by (simp add: dispatch_kept_charged_def dispatched_ids_def)

lemma db_moves_arena: "arena_inv db \<Longrightarrow> db_move\<^sup>*\<^sup>* db db' \<Longrightarrow> arena_inv db'"
  using db_moves_frame [of db db'] db_moves_inv [of db db']
  by (auto simp: arena_inv_def reservations_inv_cong [of db' db] dispatch_kept_charged_cong [of db' db])

lemma job_step_arena: "arena_inv db \<Longrightarrow> job_step db db' \<Longrightarrow> arena_inv db'"
  using job_step_moves [of db db'] jobs_keys [of db] db_moves_arena [of db db'] by (simp add: arena_inv_def)

lemma start_arena: "arena_inv db \<Longrightarrow> transaction (mark_started_body a x now) db = (r, db') \<Longrightarrow> arena_inv db'"
  by (auto simp: transaction_def split: sum.splits dest: mark_started_moves intro: db_moves_arena)

lemma invocation_step_arena:
  assumes "arena_inv db" and "invocation_step db db'"
  shows "arena_inv db'"
proof -
  have iv: "invocations_inv (db_invocations db)" using assms(1) by (simp add: arena_inv_def)
  have ref: "iv_refines db db'" by (rule invocation_step_refines [OF assms(2) iv])
  then obtain rows where db': "db' = db\<lparr>db_invocations := rows\<rparr>"
    by (auto simp: iv_refines_def only_invocations_def)
  have "dispatch_kept_charged db'"
    using assms(1) invocation_step_dispatch [OF assms(2)]
    by (fastforce simp: arena_inv_def dispatch_kept_charged_def db')
  with assms(1) invocation_step_inv [OF iv assms(2)] show ?thesis
    by (simp add: arena_inv_def db' reservations_inv_def)
qed

lemma reservation_step_arena:
  assumes "arena_inv db" and "reservation_step db db'"
  shows "arena_inv db'"
proof -
  have moves: "res_move\<^sup>*\<^sup>* db db'"
    using assms by (intro reservation_step_moves) (simp_all add: arena_inv_def)
  with assms(1) res_moves_charged [OF moves] res_moves_tables [OF moves] show ?thesis
    by (auto simp: arena_inv_def)
qed

text \<open>
  Writing settled usage back may reset an invocation to "no effect started", which is sound only
  because the reservation of a dispatched invocation is never released and never expires.
\<close>

lemma update_side_effect_inv:
  assumes "invocations_inv (db_invocations db)" and "e = Eff_not_started \<Longrightarrow> i \<notin> dispatched_ids db"
  shows "invocations_inv (db_invocations (update_invocation i (\<lambda>r. r\<lparr>iv_usage_state := u, iv_side_effect_state := e,
      iv_updated_at := now\<rparr>) db))"
proof -
  define f where "f = (\<lambda>r :: invocation_row. if iv_id r = i then r\<lparr>iv_usage_state := u, iv_side_effect_state := e,
      iv_updated_at := now\<rparr> else r)"
  have fields: "iv_id (f r) = iv_id r" "iv_fence_token (f r) = iv_fence_token r"
      "iv_attempt_id (f r) = iv_attempt_id r" "iv_generation (f r) = iv_generation r"
      "iv_admission_state (f r) = iv_admission_state r"
      "iv_provider_result_digest (f r) = iv_provider_result_digest r" for r
    by (simp_all add: f_def)
  have rows: "db_invocations (update_invocation i (\<lambda>r. r\<lparr>iv_usage_state := u, iv_side_effect_state := e,
      iv_updated_at := now\<rparr>) db) = map f (db_invocations db)"
    by (simp add: update_invocation_def update_where_def f_def)
  have "\<forall>r \<in> set (map f (db_invocations db)). iv_dispatch_started_at r \<noteq> None \<longrightarrow> iv_side_effect_state r \<noteq> Eff_not_started"
    using assms by (auto simp: invocations_inv_def dispatched_ids_def f_def)
  with assms(1) show ?thesis
    unfolding rows invocations_inv_def by (simp add: comp_def fields filter_map)
qed

lemma synchronize_arena:
  assumes "arena_inv db" and "transaction (synchronize_usage_state i now) db = (r, db')"
  shows "arena_inv db'"
proof (cases "synchronize_usage_state i now db")
  case (Inl e)
  with assms show ?thesis by (simp add: transaction_def)
next
  case (Inr p)
  obtain x where p: "p = (x, db')" using assms(2) Inr by (cases p) (simp add: transaction_def)
  have inv: "invocations_inv (db_invocations db)" "dispatch_kept_charged db" using assms(1) by (simp_all add: arena_inv_def)
  from Inr [unfolded p] show ?thesis
  proof (cases rule: synchronize_cases)
    case (written u e)
    have "e = Eff_not_started \<Longrightarrow> i \<notin> dispatched_ids db"
      using written(2) inv(2) unfolding dispatch_kept_charged_def by blast
    from update_side_effect_inv [OF inv(1) this]
    have "invocations_inv (db_invocations db')" unfolding written(1) .
    moreover have "same_dispatch db db'"
      unfolding written(1) by (rule same_dispatch_update) simp_all
    moreover have frame: "jobs_inv db'" "reservations_inv db'" "db_reservations db' = db_reservations db"
      using assms(1) by (simp_all add: arena_inv_def written(1) update_invocation_def reservations_inv_def)
    ultimately show ?thesis
      using inv(2) unfolding arena_inv_def dispatch_kept_charged_def by (simp add: frame same_dispatch_def) blast
  qed (use assms(1) in simp)
qed

lemma arena_step_inv: "arena_inv db \<Longrightarrow> arena_step db db' \<Longrightarrow> arena_inv db'"
  by (erule arena_stepE) (blast intro: job_step_arena invocation_step_arena reservation_step_arena start_arena
      synchronize_arena)+

interpretation arena: invariant_system arena_init arena_step arena_inv
proof
  show "arena_inv db" if "arena_init db" for db
    using that jobs_init_inv [of db]
    by (simp add: arena_init_def arena_inv_def invocations_inv_def reservations_inv_def dispatch_kept_charged_def)
  show "arena_inv db'" if "arena_inv db" "arena_step db db'" for db db'
    using that by (rule arena_step_inv)
qed

end
