(* ===== verification/Lifecycle_Model.thy ===== *)
theory Lifecycle_Model
  imports Arena_Prelude
begin

text \<open>
  The bounded executable model of invocation fencing and reservation settlement
  (\<open>src/backend/execution_v1/formal_model.py\<close>).

  The Python module explores its state machine to a depth of eight with two generations and two
  result digests and raises \<open>InvariantViolation\<close> when a state or a transition breaks one of seven
  invariants. Here the same transitions, the same checks and the same exploration are defined.
  The checks are then shown to hold for every depth, every number of generations and every digest
  (an invariant by rule induction), and the exploration is shown to end without a violation.
\<close>

section \<open>State\<close>

datatype admission = Current | Stale | Duplicate

datatype cancellation =
    Not_requested | Requested | Dispatched | Acknowledged | Unsupported | Cancel_unknown

datatype reservation =
    No_reservation | Reserved | Committed | Released | Expired | Unknown_usage | Disputed

definition TERMINAL_RESERVATIONS :: "reservation list" where
  "TERMINAL_RESERVATIONS = [Committed, Released, Expired, Unknown_usage, Disputed]"

definition TERMINAL_CANCELLATIONS :: "cancellation list" where
  "TERMINAL_CANCELLATIONS = [Acknowledged, Unsupported, Cancel_unknown]"

record invocation =
  generation :: nat
  admission :: admission
  dispatched :: bool
  cancellation :: cancellation
  reservation :: reservation
  result_digest :: "string option"
  budget_committed :: bool
  observed_request_identity :: bool

record lifecycle_state =
  invocations :: "invocation list"
  request_owner_generation :: "nat option"
  result_owners :: "(string \<times> nat) list"

record model_report =
  report_max_depth :: nat
  report_max_generations :: nat
  states_checked :: nat
  transitions_checked :: nat

definition new_invocation :: "nat \<Rightarrow> invocation" where
  "new_invocation g =
     \<lparr>generation = g, admission = Current, dispatched = False, cancellation = Not_requested,
      reservation = No_reservation, result_digest = None, budget_committed = False,
      observed_request_identity = False\<rparr>"

definition initial_state :: lifecycle_state where
  "initial_state = \<lparr>invocations = [], request_owner_generation = None, result_owners = []\<rparr>"

section \<open>Transitions\<close>

definition get :: "lifecycle_state \<Rightarrow> nat \<Rightarrow> invocation option" where
  "get s g = find (\<lambda>i. generation i = g) (invocations s)"

definition current :: "lifecycle_state \<Rightarrow> invocation option" where
  "current s = find (\<lambda>i. admission i = Current) (invocations s)"

definition replace_invocation :: "lifecycle_state \<Rightarrow> invocation \<Rightarrow> lifecycle_state" where
  "replace_invocation s new =
     s\<lparr>invocations := map (\<lambda>i. if generation i = generation new then new else i) (invocations s)\<rparr>"

definition begin_generation :: "nat \<Rightarrow> lifecycle_state \<Rightarrow> lifecycle_state option" where
  "begin_generation max_generations s =
     (if max_generations \<le> length (invocations s) \<or> current s \<noteq> None then None
      else Some (s\<lparr>invocations := invocations s @ [new_invocation (length (invocations s) + 1)]\<rparr>))"

definition expire_lease :: "lifecycle_state \<Rightarrow> nat \<Rightarrow> lifecycle_state option" where
  "expire_lease s g =
     (case get s g of
        None \<Rightarrow> None
      | Some i \<Rightarrow> if admission i \<noteq> Current then None
                   else Some (replace_invocation s (i\<lparr>admission := Stale\<rparr>)))"

definition reserve_budget :: "lifecycle_state \<Rightarrow> nat \<Rightarrow> lifecycle_state option" where
  "reserve_budget s g =
     (case get s g of
        None \<Rightarrow> None
      | Some i \<Rightarrow> if admission i \<noteq> Current \<or> reservation i \<noteq> No_reservation then None
                   else Some (replace_invocation s (i\<lparr>reservation := Reserved\<rparr>)))"

definition dispatch :: "lifecycle_state \<Rightarrow> nat \<Rightarrow> lifecycle_state option" where
  "dispatch s g =
     (case get s g of
        None \<Rightarrow> None
      | Some i \<Rightarrow>
          if admission i \<noteq> Current \<or> dispatched i \<or> reservation i \<in> set TERMINAL_RESERVATIONS
          then None
          else Some (replace_invocation s (i\<lparr>dispatched := True\<rparr>)))"

definition admit_result :: "lifecycle_state \<Rightarrow> nat \<Rightarrow> string \<Rightarrow> lifecycle_state option" where
  "admit_result s g digest =
     (case get s g of
        None \<Rightarrow> None
      | Some i \<Rightarrow>
          if admission i \<noteq> Current \<or> result_digest i \<noteq> None \<or> digest \<in> set (map fst (result_owners s))
          then None
          else
            let next_state = replace_invocation s (i\<lparr>result_digest := Some digest\<rparr>)
            in Some (next_state\<lparr>result_owners := sort (result_owners next_state @ [(digest, g)])\<rparr>))"

definition commit_budget :: "lifecycle_state \<Rightarrow> nat \<Rightarrow> lifecycle_state option" where
  "commit_budget s g =
     (case get s g of
        None \<Rightarrow> None
      | Some i \<Rightarrow>
          if reservation i \<noteq> Reserved \<or> result_digest i = None \<or> budget_committed i then None
          else Some (replace_invocation s (i\<lparr>reservation := Committed, budget_committed := True\<rparr>)))"

definition settle_unknown_or_release :: "lifecycle_state \<Rightarrow> nat \<Rightarrow> lifecycle_state option" where
  "settle_unknown_or_release s g =
     (case get s g of
        None \<Rightarrow> None
      | Some i \<Rightarrow>
          if reservation i \<noteq> Reserved then None
          else Some (replace_invocation s
                 (i\<lparr>reservation := (if dispatched i then Unknown_usage else Released)\<rparr>)))"

definition dispute_budget :: "lifecycle_state \<Rightarrow> nat \<Rightarrow> lifecycle_state option" where
  "dispute_budget s g =
     (case get s g of
        None \<Rightarrow> None
      | Some i \<Rightarrow> if reservation i \<noteq> Reserved then None
                   else Some (replace_invocation s (i\<lparr>reservation := Disputed\<rparr>)))"

definition observe_request_identity :: "lifecycle_state \<Rightarrow> nat \<Rightarrow> lifecycle_state option" where
  "observe_request_identity s g =
     (case get s g of
        None \<Rightarrow> None
      | Some i \<Rightarrow>
          if observed_request_identity i \<or> result_digest i \<noteq> None then None
          else
            (case request_owner_generation s of
               None \<Rightarrow> Some ((replace_invocation s (i\<lparr>observed_request_identity := True\<rparr>))
                               \<lparr>request_owner_generation := Some g\<rparr>)
             | Some owner \<Rightarrow>
                 if owner = g then None
                 else Some (replace_invocation s
                        (i\<lparr>admission := Duplicate, observed_request_identity := True\<rparr>))))"

definition next_cancellations :: "cancellation \<Rightarrow> cancellation list" where
  "next_cancellations c =
     (if c = Not_requested then [Requested]
      else if c = Requested then [Dispatched]
      else if c = Dispatched then [Acknowledged, Unsupported, Cancel_unknown]
      else [])"

definition is_next_cancellation :: "cancellation \<Rightarrow> cancellation \<Rightarrow> bool" where
  "is_next_cancellation c candidate \<longleftrightarrow> candidate \<in> set (next_cancellations c)"

definition advance_cancellation ::
  "lifecycle_state \<Rightarrow> nat \<Rightarrow> cancellation \<Rightarrow> lifecycle_state option" where
  "advance_cancellation s g c =
     (case get s g of
        None \<Rightarrow> None
      | Some i \<Rightarrow> if \<not> is_next_cancellation (cancellation i) c then None
                   else Some (replace_invocation s (i\<lparr>cancellation := c\<rparr>)))"

text \<open>The labels are strings such as \<open>expire:1\<close> in the source; they are read by no caller.\<close>

definition successors :: "nat \<Rightarrow> lifecycle_state \<Rightarrow> lifecycle_state list" where
  "successors max_generations s =
     List.map_filter id
       (begin_generation max_generations s #
        concat (map (\<lambda>i. let g = generation i in
            [expire_lease s g, reserve_budget s g, dispatch s g, observe_request_identity s g,
             admit_result s g ''rA'', admit_result s g ''rB'', commit_budget s g,
             settle_unknown_or_release s g, dispute_budget s g]
            @ map (advance_cancellation s g) (next_cancellations (cancellation i)))
          (invocations s)))"

section \<open>The checks\<close>

definition check_invocation :: "lifecycle_state \<Rightarrow> invocation \<Rightarrow> unit \<Rightarrow> unit result" where
  "check_invocation s i _ =
     (let owners = map_of (rev (result_owners s)) in
      if (case result_digest i of None \<Rightarrow> False | Some d \<Rightarrow> owners d \<noteq> Some (generation i))
      then Inl (InvariantViolation ''result owner does not match an admitted generation'')
      else if admission i = Duplicate \<and> result_digest i \<noteq> None
      then Inl (InvariantViolation ''duplicate request identity admitted an independent result'')
      else if dispatched i \<and> reservation i = Released
      then Inl (InvariantViolation ''post-dispatch usage was released as zero'')
      else if budget_committed i \<noteq> (reservation i = Committed)
      then Inl (InvariantViolation ''budget commit and reservation state diverged'')
      else if reservation i = Committed \<and> result_digest i = None
      then Inl (InvariantViolation ''budget committed without one admitted provider result'')
      else if observed_request_identity i \<and> request_owner_generation s = None
      then Inl (InvariantViolation ''observed request identity has no owner'')
      else Inr ())"

definition assert_state :: "lifecycle_state \<Rightarrow> unit result" where
  "assert_state s =
     (let cur = filter (\<lambda>i. admission i = Current) (invocations s) in
      if length cur > 1 then Inl (InvariantViolation ''more than one generation is current'')
      else if cur \<noteq> [] \<and> generation (hd cur) \<noteq> Max (set (map generation (invocations s)))
      then Inl (InvariantViolation ''an older generation remained current'')
      else if length (remdups (map fst (result_owners s))) \<noteq> length (result_owners s)
      then Inl (InvariantViolation ''one external result was admitted twice'')
      else for_each (check_invocation s) (invocations s) ())"

text \<open>\<open>by_generation\<close> is the dictionary comprehension over a state's invocations: the last wins.\<close>

definition by_generation :: "lifecycle_state \<Rightarrow> nat \<Rightarrow> invocation option" where
  "by_generation s = map_of (rev (map (\<lambda>i. (generation i, i)) (invocations s)))"

definition check_transition :: "lifecycle_state \<Rightarrow> invocation \<Rightarrow> unit \<Rightarrow> unit result" where
  "check_transition next_state earlier _ =
     (case by_generation next_state (generation earlier) of
        None \<Rightarrow> Inl (KeyError ''generation'')
      | Some later \<Rightarrow>
          if reservation earlier \<in> set TERMINAL_RESERVATIONS \<and> reservation later \<noteq> reservation earlier
          then Inl (InvariantViolation ''settled reservation regressed'')
          else if cancellation earlier \<in> set TERMINAL_CANCELLATIONS
                  \<and> cancellation later \<noteq> cancellation earlier
          then Inl (InvariantViolation ''terminal cancellation state regressed'')
          else if result_digest earlier \<noteq> None \<and> result_digest later \<noteq> result_digest earlier
          then Inl (InvariantViolation ''admitted external result changed'')
          else if budget_committed earlier \<and> \<not> budget_committed later
          then Inl (InvariantViolation ''budget commitment regressed'')
          else Inr ())"

definition assert_transition :: "lifecycle_state \<Rightarrow> lifecycle_state \<Rightarrow> unit result" where
  "assert_transition previous next_state =
     for_each (\<lambda>g. case by_generation previous g of
                     None \<Rightarrow> Inr
                   | Some earlier \<Rightarrow> check_transition next_state earlier)
       (remdups (map generation (invocations previous))) ()"

section \<open>The bounded exploration\<close>

text \<open>
  \<open>frontier\<close> is the Python list used as a stack: \<open>append\<close> puts an element on top and \<open>pop\<close> takes
  it off, so the model keeps the top at the head. \<open>seen\<close> is a set held as a list.
\<close>

fun visit_successors ::
  "lifecycle_state \<Rightarrow> nat \<Rightarrow> lifecycle_state list
     \<Rightarrow> (lifecycle_state \<times> nat) list \<Rightarrow> lifecycle_state list \<Rightarrow> nat
     \<Rightarrow> ((lifecycle_state \<times> nat) list \<times> lifecycle_state list \<times> nat) result" where
  "visit_successors s depth [] frontier seen tc = Inr (frontier, seen, tc)"
| "visit_successors s depth (t # ts) frontier seen tc =
     (case assert_transition s t of
        Inl e \<Rightarrow> Inl e
      | Inr _ \<Rightarrow>
          (case assert_state t of
             Inl e \<Rightarrow> Inl e
           | Inr _ \<Rightarrow>
               if t \<in> set seen then visit_successors s depth ts frontier seen (tc + 1)
               else visit_successors s depth ts ((t, depth + 1) # frontier) (t # seen) (tc + 1)))"

lemma visit_successors_frontier:
  "visit_successors s depth ts frontier seen tc = Inr (frontier', seen', tc') \<Longrightarrow>
     \<exists>new. frontier' = new @ frontier \<and> (\<forall>(t, d) \<in> set new. d = depth + 1 \<and> t \<in> set ts)"
proof (induction s depth ts frontier seen tc rule: visit_successors.induct)
  case (1 s depth frontier seen tc)
  then show ?case by simp
next
  case (2 s depth t ts frontier seen tc)
  then show ?case
    by (auto split: sum.splits if_splits)
qed

function explore ::
  "nat \<Rightarrow> nat \<Rightarrow> (lifecycle_state \<times> nat) list \<Rightarrow> lifecycle_state list \<Rightarrow> nat \<Rightarrow> nat
     \<Rightarrow> model_report result" where
  "explore max_depth max_generations [] seen sc tc =
     Inr \<lparr>report_max_depth = max_depth, report_max_generations = max_generations,
          states_checked = sc, transitions_checked = tc\<rparr>"
| "explore max_depth max_generations ((s, depth) # frontier) seen sc tc =
     (case assert_state s of
        Inl e \<Rightarrow> Inl e
      | Inr _ \<Rightarrow>
          if depth \<ge> max_depth then explore max_depth max_generations frontier seen (sc + 1) tc
          else
            (case visit_successors s depth (successors max_generations s) frontier seen tc of
               Inl e \<Rightarrow> Inl e
             | Inr (frontier', seen', tc') \<Rightarrow>
                 explore max_depth max_generations frontier' seen' (sc + 1) tc'))"
  by pat_completeness auto

text \<open>
  The stack need not shrink and the state space is not mentioned: every visited entry is replaced
  by entries one level deeper, so the multiset of remaining depths decreases.
\<close>

lemma frontier_decreases:
  assumes "visit_successors s depth ts frontier seen tc = Inr (frontier', seen', tc')"
    and "depth < max_depth"
  shows "(image_mset (\<lambda>(_, d). max_depth + 1 - d) (mset frontier'),
          image_mset (\<lambda>(_, d). max_depth + 1 - d) (mset ((s, depth) # frontier)))
         \<in> mult {(x :: nat, y). x < y}"
proof -
  let ?f = "\<lambda>(_ :: lifecycle_state, d). max_depth + 1 - d"
  from visit_successors_frontier [OF assms(1)] obtain new where new:
    "frontier' = new @ frontier" "\<forall>(t, d) \<in> set new. d = depth + 1 \<and> t \<in> set ts"
    by blast
  have "(image_mset ?f (mset frontier) + image_mset ?f (mset new),
         image_mset ?f (mset frontier) + {#?f (s, depth)#}) \<in> mult {(x :: nat, y). x < y}"
  proof (rule one_step_implies_mult)
    show "\<forall>k \<in># image_mset ?f (mset new). \<exists>j \<in># {#?f (s, depth)#}. (k, j) \<in> {(x, y). x < y}"
      using new(2) assms(2) by fastforce
  qed simp
  then show ?thesis
    by (simp add: new(1) add.commute)
qed

termination explore
proof (relation "inv_image (mult {(x, y). x < y} <*lex*> measure length)
    (\<lambda>(max_depth, _, frontier, _). (image_mset (\<lambda>(_, d). max_depth + 1 - d) (mset frontier), frontier))",
    goal_cases)
  case 1
  then show ?case
    by (intro wf_inv_image wf_lex_prod wf_mult wf_measure) (rule wf)
next
  case (2 max_depth max_generations s depth frontier seen sc tc u)
  show ?case
    using one_step_implies_mult [of "{#max_depth + 1 - depth#}" "{#}" "{(x :: nat, y). x < y}"
        "image_mset (\<lambda>(_, d). max_depth + 1 - d) (mset frontier)"] by simp
next
  case (3 max_depth max_generations s depth frontier seen sc tc u a frontier' b seen' tc')
  then show ?case
    using frontier_decreases [of s depth "successors max_generations s" frontier seen tc
        frontier' seen' tc' max_depth] by simp
qed

definition verify_bounded_lifecycle :: "int \<Rightarrow> int \<Rightarrow> model_report result" where
  "verify_bounded_lifecycle max_depth max_generations =
     (if max_depth < 1 then Inl (ValueError ''max_depth must be positive'')
      else if max_generations < 1 then Inl (ValueError ''max_generations must be positive'')
      else explore (nat max_depth) (nat max_generations) [(initial_state, 0)] [initial_state] 0 0)"

section \<open>Unbounded runs\<close>

text \<open>
  One rule per transition of the class \<open>LifecycleModel\<close>. The digest of an admitted result is
  arbitrary, so the relation contains the steps of \<open>successors\<close>.
\<close>

inductive lifecycle_step :: "nat \<Rightarrow> lifecycle_state \<Rightarrow> lifecycle_state \<Rightarrow> bool" for n :: nat where
  begin_step: "begin_generation n s = Some t \<Longrightarrow> lifecycle_step n s t"
| expire_step: "expire_lease s g = Some t \<Longrightarrow> lifecycle_step n s t"
| reserve_step: "reserve_budget s g = Some t \<Longrightarrow> lifecycle_step n s t"
| dispatch_step: "dispatch s g = Some t \<Longrightarrow> lifecycle_step n s t"
| admit_step: "admit_result s g d = Some t \<Longrightarrow> lifecycle_step n s t"
| commit_step: "commit_budget s g = Some t \<Longrightarrow> lifecycle_step n s t"
| settle_step: "settle_unknown_or_release s g = Some t \<Longrightarrow> lifecycle_step n s t"
| dispute_step: "dispute_budget s g = Some t \<Longrightarrow> lifecycle_step n s t"
| observe_step: "observe_request_identity s g = Some t \<Longrightarrow> lifecycle_step n s t"
| cancel_step: "advance_cancellation s g c = Some t \<Longrightarrow> lifecycle_step n s t"

lemma in_map_filter_id: "t \<in> set (List.map_filter id xs) \<longleftrightarrow> Some t \<in> set xs"
  by (induction xs) (auto simp: map_filter_def split: option.splits)

lemma successors_steps:
  assumes "t \<in> set (successors n s)"
  shows "lifecycle_step n s t"
proof -
  from assms consider "begin_generation n s = Some t"
    | g where "Some t \<in> {expire_lease s g, reserve_budget s g, dispatch s g,
        observe_request_identity s g, admit_result s g ''rA'', admit_result s g ''rB'',
        commit_budget s g, settle_unknown_or_release s g, dispute_budget s g}"
    | g c where "advance_cancellation s g c = Some t"
    unfolding successors_def in_map_filter_id Let_def
    by (auto simp del: insert_iff)
  then show ?thesis
    by cases (auto dest!: sym [of "Some t"] intro: lifecycle_step.intros)
qed

section \<open>The invariant\<close>

definition invocation_ok ::
  "(string \<times> nat) list \<Rightarrow> nat option \<Rightarrow> invocation \<Rightarrow> bool" where
  "invocation_ok owners owner i \<longleftrightarrow>
     (\<forall>d. result_digest i = Some d \<longrightarrow> (d, generation i) \<in> set owners) \<and>
     (admission i = Duplicate \<longrightarrow> result_digest i = None) \<and>
     (dispatched i \<longrightarrow> reservation i \<noteq> Released) \<and>
     (budget_committed i \<longleftrightarrow> reservation i = Committed) \<and>
     (reservation i = Committed \<longrightarrow> result_digest i \<noteq> None) \<and>
     (observed_request_identity i \<longrightarrow> owner \<noteq> None)"

definition lifecycle_inv :: "lifecycle_state \<Rightarrow> bool" where
  "lifecycle_inv s \<longleftrightarrow>
     map generation (invocations s) = [1..<length (invocations s) + 1] \<and>
     (\<forall>i \<in> set (invocations s). admission i = Current \<longrightarrow> generation i = length (invocations s)) \<and>
     distinct (map fst (result_owners s)) \<and>
     (\<forall>i \<in> set (invocations s). invocation_ok (result_owners s) (request_owner_generation s) i)"

text \<open>How one transition may change the invocation it is applied to.\<close>

definition evolves :: "invocation \<Rightarrow> invocation \<Rightarrow> bool" where
  "evolves i i' \<longleftrightarrow>
     generation i' = generation i \<and>
     (admission i' = Current \<longrightarrow> admission i = Current) \<and>
     (admission i \<noteq> Current \<longrightarrow> result_digest i' = result_digest i) \<and>
     (reservation i \<in> set TERMINAL_RESERVATIONS \<longrightarrow> reservation i' = reservation i) \<and>
     (cancellation i \<in> set TERMINAL_CANCELLATIONS \<longrightarrow> cancellation i' = cancellation i) \<and>
     (result_digest i \<noteq> None \<longrightarrow> result_digest i' = result_digest i) \<and>
     (budget_committed i \<longrightarrow> budget_committed i')"

lemma evolves_refl: "evolves i i"
  by (simp add: evolves_def)

lemma get_SomeD: "get s g = Some i \<Longrightarrow> i \<in> set (invocations s) \<and> generation i = g"
  by (auto simp: get_def find_Some_iff)

lemma lifecycle_inv_distinct: "lifecycle_inv s \<Longrightarrow> distinct (map generation (invocations s))"
  by (simp add: lifecycle_inv_def)

text \<open>
  Every transition but \<open>begin\<close> replaces one invocation, possibly recording a request owner or a
  result owner: this is the only shape of step the preservation proof looks at.
\<close>

inductive replaces :: "lifecycle_state \<Rightarrow> lifecycle_state \<Rightarrow> bool" where
  replaces: "\<lbrakk>i \<in> set (invocations s); evolves i i';
     invocation_ok (result_owners s) (request_owner_generation s) i
       \<Longrightarrow> invocation_ok owners owner i';
     set (result_owners s) \<subseteq> set owners;
     distinct (map fst (result_owners s)) \<Longrightarrow> distinct (map fst owners);
     request_owner_generation s \<noteq> None \<Longrightarrow> owner \<noteq> None;
     t = s\<lparr>invocations := map (\<lambda>j. if generation j = generation i then i' else j) (invocations s),
           request_owner_generation := owner, result_owners := owners\<rparr>\<rbrakk>
   \<Longrightarrow> replaces s t"

lemma replace_invocation_replaces:
  assumes "get s g = Some i" and "evolves i i'"
    and "invocation_ok (result_owners s) (request_owner_generation s) i
       \<Longrightarrow> invocation_ok (result_owners s) (request_owner_generation s) i'"
  shows "replaces s (replace_invocation s i')"
  using assms get_SomeD [OF assms(1)]
  by (intro replaces.intros [where i = i and i' = i' and owners = "result_owners s"
        and owner = "request_owner_generation s"])
    (auto simp: replace_invocation_def evolves_def)

lemmas transition_defs =
  expire_lease_def reserve_budget_def dispatch_def commit_budget_def dispute_budget_def
  settle_unknown_or_release_def advance_cancellation_def is_next_cancellation_def
  next_cancellations_def TERMINAL_RESERVATIONS_def TERMINAL_CANCELLATIONS_def

lemma admit_replaces:
  assumes "admit_result s g d = Some t"
  shows "replaces s t"
proof -
  from assms obtain i where i: "get s g = Some i" "admission i = Current" "result_digest i = None"
      "d \<notin> fst ` set (result_owners s)"
    and t: "t = (replace_invocation s (i\<lparr>result_digest := Some d\<rparr>))
              \<lparr>result_owners := sort (result_owners s @ [(d, g)])\<rparr>"
    by (auto simp: admit_result_def Let_def replace_invocation_def split: option.splits if_splits)
  show ?thesis
  proof (rule replaces.intros)
    show "distinct (map fst (result_owners s)) \<Longrightarrow> distinct (map fst (sort (result_owners s @ [(d, g)])))"
      using i(4) by (auto simp: distinct_map inj_on_def image_iff)
    show "t = s\<lparr>invocations := map (\<lambda>j. if generation j = generation i
                  then i\<lparr>result_digest := Some d\<rparr> else j) (invocations s),
               request_owner_generation := request_owner_generation s,
               result_owners := sort (result_owners s @ [(d, g)])\<rparr>"
      by (simp add: t replace_invocation_def)
  qed (use i get_SomeD [OF i(1)] in \<open>auto simp: evolves_def invocation_ok_def\<close>)
qed

lemma observe_replaces:
  assumes "observe_request_identity s g = Some t"
  shows "replaces s t"
proof -
  from assms obtain i where i: "get s g = Some i" "result_digest i = None"
    and t: "t = (replace_invocation s (i\<lparr>observed_request_identity := True\<rparr>))
                  \<lparr>request_owner_generation := Some g\<rparr>
            \<or> request_owner_generation s \<noteq> None \<and>
              t = replace_invocation s (i\<lparr>admission := Duplicate, observed_request_identity := True\<rparr>)"
    by (auto simp: observe_request_identity_def split: option.splits if_splits)
  from t show ?thesis
  proof
    assume t1: "t = (replace_invocation s (i\<lparr>observed_request_identity := True\<rparr>))
                  \<lparr>request_owner_generation := Some g\<rparr>"
    show ?thesis
      by (rule replaces.intros [where i = i and i' = "i\<lparr>observed_request_identity := True\<rparr>"
            and owner = "Some g" and owners = "result_owners s"])
        (use get_SomeD [OF i(1)] in
          \<open>auto simp: t1 replace_invocation_def evolves_def invocation_ok_def\<close>)
  next
    assume t2: "request_owner_generation s \<noteq> None \<and>
      t = replace_invocation s (i\<lparr>admission := Duplicate, observed_request_identity := True\<rparr>)"
    have "replaces s (replace_invocation s (i\<lparr>admission := Duplicate, observed_request_identity := True\<rparr>))"
      by (rule replace_invocation_replaces [OF i(1)])
        (use i(2) t2 in \<open>auto simp: evolves_def invocation_ok_def\<close>)
    with t2 show ?thesis by blast
  qed
qed

lemma step_cases:
  assumes "lifecycle_step n s t"
  shows "begin_generation n s = Some t \<or> replaces s t"
  using assms
proof cases
  case begin_step
  then show ?thesis by simp
next
  case (admit_step g d)
  then show ?thesis using admit_replaces by blast
next
  case (observe_step g)
  then show ?thesis using observe_replaces by blast
qed (auto simp: transition_defs evolves_def invocation_ok_def split: option.splits if_splits
      intro!: replace_invocation_replaces)

lemma lifecycle_inv_initial: "lifecycle_inv initial_state"
  by (simp add: lifecycle_inv_def initial_state_def)

lemma begin_lifecycle_inv:
  assumes "lifecycle_inv s" and "begin_generation n s = Some t"
  shows "lifecycle_inv t"
proof -
  from assms(2) have "\<forall>i \<in> set (invocations s). admission i \<noteq> Current"
    by (auto simp: begin_generation_def current_def find_None_iff split: if_splits)
  with assms show ?thesis
    by (auto simp: begin_generation_def lifecycle_inv_def new_invocation_def invocation_ok_def
        split: if_splits)
qed

lemma map_generation_replaced:
  "generation i' = generation i \<Longrightarrow>
   map generation (map (\<lambda>j. if generation j = generation i then i' else j) is) = map generation is"
  by (induction "is") auto

lemma replaces_lifecycle_inv:
  assumes "lifecycle_inv s" and "replaces s t"
  shows "lifecycle_inv t"
  using assms(2)
proof cases
  case (replaces i i' owners owner)
  have i_ok: "invocation_ok owners owner i'"
    using assms(1) replaces(1,3) by (simp add: lifecycle_inv_def)
  have j_ok: "invocation_ok owners owner j" if "j \<in> set (invocations s)" for j
    using assms(1) that replaces(4,6) by (auto simp: lifecycle_inv_def invocation_ok_def)
  have gen: "generation i' = generation i" "admission i' = Current \<longrightarrow> admission i = Current"
    using replaces(2) by (auto simp: evolves_def)
  have "map generation (invocations t) = map generation (invocations s)"
    and "length (invocations t) = length (invocations s)"
    using map_generation_replaced [OF gen(1)] replaces(7) by simp_all
  then have "map generation (invocations t) = [1..<length (invocations t) + 1]"
    using assms(1) by (simp only: lifecycle_inv_def)
  moreover have "\<forall>j \<in> set (invocations t). admission j = Current \<longrightarrow> generation j = length (invocations t)"
    using assms(1) gen replaces(1,7) by (auto simp: lifecycle_inv_def)
  moreover have "distinct (map fst (result_owners t))"
    using assms(1) replaces(5,7) by (simp add: lifecycle_inv_def)
  moreover have "\<forall>j \<in> set (invocations t). invocation_ok (result_owners t) (request_owner_generation t) j"
    using i_ok j_ok replaces(7) by auto
  ultimately show ?thesis
    unfolding lifecycle_inv_def by blast
qed

interpretation lifecycle: invariant_system "\<lambda>s. s = initial_state" "lifecycle_step n" lifecycle_inv
  for n
  by unfold_locales
    (auto simp: lifecycle_inv_initial dest!: step_cases
      intro: begin_lifecycle_inv replaces_lifecycle_inv)

section \<open>The invariant implies the checks\<close>

lemma lifecycle_inv_current:
  assumes "lifecycle_inv s" and "i \<in> set (invocations s)" and "j \<in> set (invocations s)"
    and "admission i = Current" and "admission j = Current"
  shows "i = j"
  using assms by (metis distinct_map_key_unique lifecycle_inv_def lifecycle_inv_distinct)

lemma lifecycle_inv_one_current:
  assumes "lifecycle_inv s"
  shows "length (filter (\<lambda>i. admission i = Current) (invocations s)) \<le> 1"
proof -
  have "filter (\<lambda>i. admission i = Current) (invocations s)
      = filter (\<lambda>i. admission i = Current)
          (filter (\<lambda>i. generation i = length (invocations s)) (invocations s))"
    using assms by (auto simp: lifecycle_inv_def intro!: filter_cong)
  also have "length \<dots> \<le> length (filter (\<lambda>i. generation i = length (invocations s)) (invocations s))"
    by (rule length_filter_le)
  also have "\<dots> \<le> 1"
    using lifecycle_inv_distinct [OF assms] by (rule distinct_map_filter_le1)
  finally show ?thesis .
qed

lemma generations_Max:
  assumes "lifecycle_inv s" and "invocations s \<noteq> []"
  shows "Max (set (map generation (invocations s))) = length (invocations s)"
proof -
  have "set (map generation (invocations s)) = {1..length (invocations s)}"
    using assms(1) by (auto simp: lifecycle_inv_def)
  moreover have "Max {1..length (invocations s)} = length (invocations s)"
    using assms(2) by (auto intro!: Max_eqI simp: Suc_le_eq)
  ultimately show ?thesis by simp
qed

lemma check_invocation_ok:
  assumes "lifecycle_inv s" and "i \<in> set (invocations s)"
  shows "check_invocation s i () = Inr ()"
proof -
  have owners: "map_of (rev (result_owners s)) d = Some g" if "(d, g) \<in> set (result_owners s)" for d g
  proof -
    from assms(1) have "distinct (map fst (rev (result_owners s)))"
      by (simp add: lifecycle_inv_def rev_map [symmetric])
    then show ?thesis
      using that by (subst map_of_is_SomeI) auto
  qed
  from assms have "invocation_ok (result_owners s) (request_owner_generation s) i"
    by (simp add: lifecycle_inv_def)
  then show ?thesis
    by (auto simp: check_invocation_def invocation_ok_def Let_def owners split: option.splits)
qed

lemma lifecycle_inv_assert_state:
  assumes "lifecycle_inv s"
  shows "assert_state s = Inr ()"
proof -
  let ?cur = "filter (\<lambda>i. admission i = Current) (invocations s)"
  have one: "length ?cur \<le> 1"
    using assms by (rule lifecycle_inv_one_current)
  have newest: "generation (hd ?cur) = Max (set (map generation (invocations s)))" if "?cur \<noteq> []"
  proof -
    from that have hd: "hd ?cur \<in> set ?cur" by (rule list.set_sel)
    then have "generation (hd ?cur) = length (invocations s)"
      using assms by (auto simp: lifecycle_inv_def)
    moreover have "invocations s \<noteq> []"
      using hd by auto
    ultimately show ?thesis
      using generations_Max [OF assms] by simp
  qed
  have owners: "length (remdups (map fst (result_owners s))) = length (result_owners s)"
    using assms by (simp add: lifecycle_inv_def distinct_remdups_id)
  have checks: "for_each (check_invocation s) (invocations s) () = Inr ()"
    by (rule for_each_unit_ok) (rule check_invocation_ok [OF assms])
  show ?thesis
    unfolding assert_state_def Let_def using one newest owners checks by auto
qed

lemma by_generation_eq:
  assumes "distinct (map generation (invocations s))" and "i \<in> set (invocations s)"
  shows "by_generation s (generation i) = Some i"
  unfolding by_generation_def
  using assms by (intro map_of_is_SomeI) (auto simp: rev_map [symmetric] comp_def)

lemma begin_assert_transition:
  assumes "lifecycle_inv s" and "begin_generation n s = Some t" and "i \<in> set (invocations s)"
  shows "check_transition t i () = Inr ()"
proof -
  have "lifecycle_inv t"
    using assms begin_lifecycle_inv by blast
  moreover have "i \<in> set (invocations t)"
    using assms by (auto simp: begin_generation_def split: if_splits)
  ultimately have "by_generation t (generation i) = Some i"
    by (simp add: by_generation_eq lifecycle_inv_distinct)
  then show ?thesis
    by (simp add: check_transition_def)
qed

lemma replaces_assert_transition:
  assumes "lifecycle_inv s" and "replaces s t" and "i \<in> set (invocations s)"
  shows "check_transition t i () = Inr ()"
  using assms(2)
proof cases
  case (replaces j j' owners owner)
  define i' where "i' = (if generation i = generation j then j' else i)"
  have "evolves i i'"
    using replaces(1,2) assms(3) distinct_map_key_unique [OF lifecycle_inv_distinct [OF assms(1)]]
    by (auto simp: i'_def evolves_refl)
  moreover have "i' \<in> set (invocations t)"
    using assms(3) replaces(7) by (auto simp: i'_def)
  moreover have "distinct (map generation (invocations t))"
    using assms(1,2) replaces_lifecycle_inv lifecycle_inv_distinct by blast
  ultimately have "by_generation t (generation i) = Some i'"
    using by_generation_eq [of t i'] by (simp add: evolves_def)
  with \<open>evolves i i'\<close> show ?thesis
    by (auto simp: check_transition_def evolves_def)
qed

lemma step_assert_transition:
  assumes "lifecycle_inv s" and "lifecycle_step n s t"
  shows "assert_transition s t = Inr ()"
proof -
  have "check_transition t i () = Inr ()" if "i \<in> set (invocations s)" for i
    using step_cases [OF assms(2)] assms(1) that begin_assert_transition replaces_assert_transition
    by blast
  then show ?thesis
    unfolding assert_transition_def
    using by_generation_eq [OF lifecycle_inv_distinct [OF assms(1)]]
    by (intro for_each_unit_ok) auto
qed

section \<open>The exploration never raises\<close>

lemma visit_successors_ok:
  assumes "lifecycle_inv s" and "set ts \<subseteq> {t. lifecycle_step n s t}"
  shows "\<exists>frontier' seen' tc'. visit_successors s depth ts frontier seen tc = Inr (frontier', seen', tc')"
  using assms(2)
proof (induction ts arbitrary: frontier seen tc)
  case Nil
  then show ?case by simp
next
  case (Cons t ts)
  then have "lifecycle_step n s t" by simp
  then have "assert_transition s t = Inr ()" and "assert_state t = Inr ()"
    using assms(1) step_assert_transition lifecycle.inv_step lifecycle_inv_assert_state by blast+
  with Cons show ?case by simp
qed

lemma explore_ok:
  "(\<forall>(s, d) \<in> set frontier. lifecycle_inv s) \<Longrightarrow>
   \<exists>sc' tc'. explore md n frontier seen sc tc =
     Inr \<lparr>report_max_depth = md, report_max_generations = n, states_checked = sc',
          transitions_checked = tc'\<rparr> \<and> sc + length frontier \<le> sc'"
proof (induction md n frontier seen sc tc rule: explore.induct)
  case (1 md n seen sc tc)
  then show ?case by simp
next
  case (2 md n s depth frontier seen sc tc)
  from 2(3) have s: "lifecycle_inv s" by simp
  note state_ok = lifecycle_inv_assert_state [OF s]
  show ?case
  proof (cases "depth \<ge> md")
    case True
    with 2(1) [OF state_ok True] 2(3) state_ok show ?thesis by fastforce
  next
    case False
    have steps: "set (successors n s) \<subseteq> {t. lifecycle_step n s t}"
      using successors_steps by blast
    obtain frontier' seen' tc' where
      visit: "visit_successors s depth (successors n s) frontier seen tc = Inr (frontier', seen', tc')"
      using visit_successors_ok [OF s steps] by blast
    obtain new where new: "frontier' = new @ frontier" "\<forall>(t, d) \<in> set new. t \<in> set (successors n s)"
      using visit_successors_frontier [OF visit] by blast
    have "\<forall>(t, d) \<in> set new. lifecycle_inv t"
      using new(2) steps s lifecycle.inv_step by blast
    with 2(3) new(1) have "\<forall>(t, d) \<in> set frontier'. lifecycle_inv t" by auto
    with 2(2) [OF state_ok False visit] visit state_ok False new(1) show ?thesis by fastforce
  qed
qed

section \<open>Fencing\<close>

lemma step_keeps_fenced:
  assumes "lifecycle_inv s" and "lifecycle_step n s t"
    and "\<exists>i \<in> set (invocations s). generation i = g \<and> admission i \<noteq> Current \<and> result_digest i = None"
  shows "\<exists>i \<in> set (invocations t). generation i = g \<and> admission i \<noteq> Current \<and> result_digest i = None"
  using step_cases [OF assms(2)]
proof
  assume "begin_generation n s = Some t"
  with assms(3) show ?thesis
    by (auto simp: begin_generation_def split: if_splits)
next
  assume "replaces s t"
  then show ?thesis
  proof cases
    case (replaces j j' owners owner)
    from assms(3) obtain i where i: "i \<in> set (invocations s)" "generation i = g"
        "admission i \<noteq> Current" "result_digest i = None" by blast
    define i' where "i' = (if generation i = generation j then j' else i)"
    have "evolves i i'"
      using replaces(1,2) i(1) distinct_map_key_unique [OF lifecycle_inv_distinct [OF assms(1)]]
      by (auto simp: i'_def evolves_refl)
    then have "generation i' = g \<and> admission i' \<noteq> Current \<and> result_digest i' = None"
      using i by (auto simp: evolves_def)
    moreover have "i' \<in> set (invocations t)"
      using i(1) replaces(7) by (auto simp: i'_def)
    ultimately show ?thesis by blast
  qed
qed

section \<open>Properties\<close>

text \<open>
  C30. The checks of the model hold without the bounds of the exploration: in every state that any
  number of transitions can reach, with any number of generations and any result digests,
  \<open>_assert_state\<close> raises nothing, and \<open>_assert_transition\<close> raises nothing on any transition out
  of it.
\<close>

theorem lifecycle_checks_hold:
  assumes "reachable (\<lambda>s. s = initial_state) (lifecycle_step n) s"
  shows "assert_state s = Inr () \<and> (\<forall>t. lifecycle_step n s t \<longrightarrow> assert_transition s t = Inr ())"
  using lifecycle.inv_reachable [OF assms] lifecycle_inv_assert_state step_assert_transition by blast

definition example_dispatched :: lifecycle_state where
  "example_dispatched = initial_state\<lparr>invocations := [(new_invocation 1)\<lparr>dispatched := True\<rparr>]\<rparr>"

lemma example_dispatched_reachable:
  "reachable (\<lambda>s. s = initial_state) (lifecycle_step 2) example_dispatched"
proof -
  let ?s1 = "initial_state\<lparr>invocations := [new_invocation 1]\<rparr>"
  have "begin_generation 2 initial_state = Some ?s1"
    by (simp add: begin_generation_def initial_state_def current_def)
  then have 1: "reachable (\<lambda>s. s = initial_state) (lifecycle_step 2) ?s1"
    by (intro reachable.move [OF reachable.start] lifecycle_step.begin_step) simp_all
  have "dispatch ?s1 1 = Some example_dispatched"
    by (simp add: dispatch_def get_def new_invocation_def TERMINAL_RESERVATIONS_def
        replace_invocation_def example_dispatched_def initial_state_def)
  with 1 show ?thesis
    by (blast intro: reachable.move lifecycle_step.dispatch_step)
qed

theorem lifecycle_checks_hold_witness:
  "reachable (\<lambda>s. s = initial_state) (lifecycle_step 2) example_dispatched \<and>
   assert_state example_dispatched = Inr ()"
  using lifecycle_checks_hold [OF example_dispatched_reachable] example_dispatched_reachable by blast

text \<open>
  C31. The exploration ends and reports instead of raising \<open>InvariantViolation\<close>, for every positive
  depth and every positive number of generations; at least the initial state has been checked.
\<close>

theorem verify_bounded_lifecycle_reports:
  assumes "1 \<le> max_depth" and "1 \<le> max_generations"
  shows "\<exists>sc tc. verify_bounded_lifecycle max_depth max_generations =
     Inr \<lparr>report_max_depth = nat max_depth, report_max_generations = nat max_generations,
          states_checked = sc, transitions_checked = tc\<rparr> \<and> 1 \<le> sc"
  using explore_ok [of "[(initial_state, 0)]" "nat max_depth" "nat max_generations"
      "[initial_state]" 0 0] assms
  by (simp add: verify_bounded_lifecycle_def lifecycle_inv_initial)

theorem verify_bounded_lifecycle_reports_witness:
  "\<exists>sc tc. verify_bounded_lifecycle 8 2 =
     Inr \<lparr>report_max_depth = 8, report_max_generations = 2,
          states_checked = sc, transitions_checked = tc\<rparr> \<and> 1 \<le> sc"
  using verify_bounded_lifecycle_reports [of 8 2] by simp

text \<open>
  Stale generations cannot finalise current truth: an invocation that is no longer current and
  has no admitted result never gets one, whatever transitions follow.
\<close>

theorem fenced_generation_never_admits:
  assumes "reachable (\<lambda>s. s = initial_state) (lifecycle_step n) s"
    and "(lifecycle_step n)\<^sup>*\<^sup>* s t"
    and "i \<in> set (invocations s)" and "admission i \<noteq> Current" and "result_digest i = None"
    and "j \<in> set (invocations t)" and "generation j = generation i"
  shows "admission j \<noteq> Current \<and> result_digest j = None"
proof -
  have inv: "lifecycle_inv s"
    using assms(1) by (rule lifecycle.inv_reachable)
  have "\<exists>k \<in> set (invocations t). generation k = generation i \<and> admission k \<noteq> Current
      \<and> result_digest k = None"
    using assms(2) inv
    by (rule lifecycle.steps_preserve) (use assms(3-5) step_keeps_fenced in blast)+
  moreover have "lifecycle_inv t"
    using assms(2) inv inv by (rule lifecycle.steps_preserve) (rule lifecycle.inv_step)
  ultimately show ?thesis
    using assms(6,7) by (metis distinct_map_key_unique lifecycle_inv_distinct)
qed

definition example_stale :: lifecycle_state where
  "example_stale =
     initial_state\<lparr>invocations := [(new_invocation 1)\<lparr>dispatched := True, admission := Stale\<rparr>]\<rparr>"

lemma example_stale_reachable:
  "reachable (\<lambda>s. s = initial_state) (lifecycle_step 2) example_stale"
proof -
  have "expire_lease example_dispatched 1 = Some example_stale"
    by (simp add: expire_lease_def get_def new_invocation_def replace_invocation_def
        example_dispatched_def example_stale_def initial_state_def)
  then show ?thesis
    using example_dispatched_reachable by (blast intro: reachable.move lifecycle_step.expire_step)
qed

definition example_second :: lifecycle_state where
  "example_second =
     initial_state\<lparr>invocations :=
       [(new_invocation 1)\<lparr>dispatched := True, admission := Stale\<rparr>, new_invocation 2]\<rparr>"

theorem fenced_generation_never_admits_witness:
  "lifecycle_step 2 example_stale example_second \<and>
   result_digest (invocations example_second ! 0) = None"
proof -
  have "begin_generation 2 example_stale = Some example_second"
    by (simp add: begin_generation_def current_def example_stale_def example_second_def
        new_invocation_def initial_state_def)
  then have step: "lifecycle_step 2 example_stale example_second"
    by (rule lifecycle_step.begin_step)
  moreover have "result_digest (invocations example_second ! 0) = None"
    using fenced_generation_never_admits [OF example_stale_reachable,
        of example_second "(new_invocation 1)\<lparr>dispatched := True, admission := Stale\<rparr>"
           "invocations example_second ! 0"]
      r_into_rtranclp [of "lifecycle_step 2", OF step]
    by (simp add: example_stale_def example_second_def new_invocation_def)
  ultimately show ?thesis by blast
qed

end
