(* ===== verification/Pricing.thy ===== *)
theory Pricing
  imports Provider_Models
begin

text \<open>
  Central prices: the immutable catalogue of \<open>src/backend/config/models.py\<close> and the resolver of
  \<open>src/backend/execution_v1/pricing.py\<close>. Prices per million tokens are decimal literals in the code
  and rationals here; \<open>Decimal(str(x))\<close> reads a literal back exactly. The constructor of a
  \<open>PriceQuote\<close> may raise, so \<open>resolve\<close> returns a result; the lemmas show that it never does. The
  catalogue's display labels, source addresses and effective dates are left out, no code reads them
  for a price.
\<close>

section \<open>The catalogue\<close>

definition PRICE_CATALOG_REVISION :: string where
  "PRICE_CATALOG_REVISION = ''2026-08-14''"

definition LOCAL_OLLAMA_CONTEXT_HANDOFF_PROFILE :: string where
  "LOCAL_OLLAMA_CONTEXT_HANDOFF_PROFILE = ''local_zero_paid_context_handoff''"

record billing_profile =
  bp_name :: string
  bp_input_usd_per_mtok :: rat
  bp_output_usd_per_mtok :: rat
  bp_min_context_tokens :: "int option"
  bp_max_context_tokens :: "int option"

definition accepts_context :: "billing_profile \<Rightarrow> int option \<Rightarrow> bool" where
  "accepts_context p context_tokens =
     (if bp_min_context_tokens p = None \<and> bp_max_context_tokens p = None then True
      else case context_tokens of
        None \<Rightarrow> False
      | Some n \<Rightarrow> opt_all (\<lambda>k. k \<le> n) (bp_min_context_tokens p) \<and> opt_all (\<lambda>k. n \<le> k) (bp_max_context_tokens p))"

record model_def =
  md_id :: string
  md_provider :: string
  md_input_usd_per_mtok :: rat
  md_output_usd_per_mtok :: rat
  md_catalog_revision :: string

record price_catalog_entry =
  pe_provider :: string
  pe_model_id :: string
  pe_revision :: string
  pe_billing_profile :: billing_profile

definition model_entry :: "string \<Rightarrow> string \<Rightarrow> rat \<Rightarrow> rat \<Rightarrow> model_def" where
  "model_entry i p a b = \<lparr>md_id = i, md_provider = p, md_input_usd_per_mtok = a,
     md_output_usd_per_mtok = b, md_catalog_revision = PRICE_CATALOG_REVISION\<rparr>"

definition MODEL_REGISTRY :: "model_def list" where
  "MODEL_REGISTRY =
     [model_entry ''claude-sonnet-4-6'' ''anthropic'' 3 15,
      model_entry ''claude-haiku-4-5'' ''anthropic'' 1 5,
      model_entry ''gpt-4.1-mini'' ''openai'' (4/10) (16/10),
      model_entry ''gpt-4.1'' ''openai'' 2 8,
      model_entry ''gemini-2.5-flash'' ''gemini'' (3/10) (25/10),
      model_entry ''gemini-2.5-pro'' ''gemini'' (125/100) 10,
      model_entry ''openrouter/openai/gpt-4.1-mini'' ''openrouter'' (4/10) (16/10),
      model_entry ''openrouter/openai/gpt-4.1'' ''openrouter'' 2 8]"

definition catalog_entry :: "model_def \<Rightarrow> billing_profile \<Rightarrow> price_catalog_entry" where
  "catalog_entry m p = \<lparr>pe_provider = md_provider m, pe_model_id = md_id m, pe_revision = md_catalog_revision m,
     pe_billing_profile = p\<rparr>"

definition standard_profile :: "model_def \<Rightarrow> billing_profile" where
  "standard_profile m = \<lparr>bp_name = ''standard'', bp_input_usd_per_mtok = md_input_usd_per_mtok m,
     bp_output_usd_per_mtok = md_output_usd_per_mtok m, bp_min_context_tokens = None,
     bp_max_context_tokens = None\<rparr>"

definition gemini_pro :: model_def where
  "gemini_pro = model_entry ''gemini-2.5-pro'' ''gemini'' (125/100) 10"

definition PRICE_CATALOG :: "price_catalog_entry list" where
  "PRICE_CATALOG =
     map (\<lambda>m. catalog_entry m (standard_profile m)) (filter (\<lambda>m. md_id m \<noteq> ''gemini-2.5-pro'') MODEL_REGISTRY) @
     [\<lparr>pe_provider = ''ollama'', pe_model_id = ''qwen3.5:4b'',
       pe_revision = ''2026-09-13-context-handoff-local-v1'',
       pe_billing_profile = \<lparr>bp_name = LOCAL_OLLAMA_CONTEXT_HANDOFF_PROFILE, bp_input_usd_per_mtok = 0,
         bp_output_usd_per_mtok = 0, bp_min_context_tokens = None, bp_max_context_tokens = Some 4096\<rparr>\<rparr>,
      catalog_entry gemini_pro \<lparr>bp_name = ''standard'', bp_input_usd_per_mtok = 125/100,
        bp_output_usd_per_mtok = 10, bp_min_context_tokens = None, bp_max_context_tokens = Some 200000\<rparr>,
      catalog_entry gemini_pro \<lparr>bp_name = ''long_context'', bp_input_usd_per_mtok = 25/10,
        bp_output_usd_per_mtok = 15, bp_min_context_tokens = Some 200001, bp_max_context_tokens = None\<rparr>]"

definition get_model :: "string \<Rightarrow> model_def result" where
  "get_model model_id =
     (case first (filter (\<lambda>m. md_id m = model_id) MODEL_REGISTRY) of
        None \<Rightarrow> Inl (ValueError (''Unknown model: '' @ model_id)) | Some m \<Rightarrow> Inr m)"

definition get_price_catalog_entry :: "string \<Rightarrow> string \<Rightarrow> string \<Rightarrow> price_catalog_entry result" where
  "get_price_catalog_entry provider model_id profile =
     (case filter (\<lambda>e. pe_provider e = provider \<and> pe_model_id e = model_id \<and>
             bp_name (pe_billing_profile e) = profile) PRICE_CATALOG of
        [e] \<Rightarrow> Inr e
      | _ \<Rightarrow> Inl (ValueError ''no immutable price snapshot for provider, model, and billing profile''))"

section \<open>Quotes\<close>

record price_quote =
  pq_provider :: string
  pq_model_id :: string
  pq_price_catalog_revision :: string
  pq_provider_usage_digest :: string
  pq_cost_usd :: rat
  pq_billing_profile :: string

definition make_quote :: "price_quote \<Rightarrow> price_quote result" where
  "make_quote q =
     bind_r (raise_if (pq_provider q = [] \<or> pq_model_id q = [] \<or> pq_price_catalog_revision q = [])
       (ValueError ''price quote requires provider, model, and central snapshot revision'')) (\<lambda>_.
     bind_r (raise_if (\<not> is_sha256 (pq_provider_usage_digest q))
       (ValueError ''price quote requires a provider usage digest'')) (\<lambda>_.
     let normalized_cost = currency_float (pq_cost_usd q) in
     bind_r (raise_if (normalized_cost < 0) (ValueError ''price quote cost cannot be negative'')) (\<lambda>_.
     Inr (q\<lparr>pq_cost_usd := normalized_cost\<rparr>))))"

definition local_zero_paid :: "string \<Rightarrow> string \<Rightarrow> provider_usage \<Rightarrow> bool" where
  "local_zero_paid provider model_id usage \<longleftrightarrow>
     provider = ''ollama'' \<and> model_id = ''qwen3.5:4b'' \<and>
     pu_billing_profile usage = Some LOCAL_OLLAMA_CONTEXT_HANDOFF_PROFILE \<and>
     pu_cached_input_tokens usage = None \<and> pu_service_tier usage = None"

definition nonstandard_usage :: "string \<Rightarrow> string \<Rightarrow> provider_usage \<Rightarrow> bool" where
  "nonstandard_usage provider model_id usage \<longleftrightarrow>
     pu_cached_input_tokens usage \<noteq> Some 0 \<and> \<not> local_zero_paid provider model_id usage \<or>
     pu_tool_billing_usd usage \<noteq> None \<or>
     pu_service_tier usage \<noteq> Some ''standard'' \<and> \<not> local_zero_paid provider model_id usage"

definition resolve :: "string \<Rightarrow> string \<Rightarrow> provider_usage \<Rightarrow> price_quote option result" where
  "resolve provider model_id usage =
     (case (pu_input_tokens usage, pu_output_tokens usage, pu_provider_usage_digest usage, pu_billing_profile usage) of
        (Some input_tokens, Some output_tokens, Some digest, Some profile_name) \<Rightarrow>
          if nonstandard_usage provider model_id usage then Inr None
          else
            (case get_price_catalog_entry provider model_id profile_name of
               Inl _ \<Rightarrow> Inr None
             | Inr entry \<Rightarrow>
                 let profile = pe_billing_profile entry in
                 if \<not> accepts_context profile (pu_context_tokens usage) then Inr None
                 else bind_r (make_quote
                   \<lparr>pq_provider = pe_provider entry, pq_model_id = pe_model_id entry,
                    pq_price_catalog_revision = pe_revision entry, pq_provider_usage_digest = digest,
                    pq_cost_usd = currency_float
                      ((of_int input_tokens * bp_input_usd_per_mtok profile +
                        of_int output_tokens * bp_output_usd_per_mtok profile) / 1000000),
                    pq_billing_profile = bp_name profile\<rparr>) (\<lambda>q. Inr (Some q)))
      | _ \<Rightarrow> Inr None)"

section \<open>Lemmas\<close>

lemmas catalog_defs = PRICE_CATALOG_def MODEL_REGISTRY_def catalog_entry_def standard_profile_def
  gemini_pro_def model_entry_def PRICE_CATALOG_REVISION_def LOCAL_OLLAMA_CONTEXT_HANDOFF_PROFILE_def

text \<open>Every entry is usable in a quote, and no two entries answer the same question.\<close>

lemma catalog_entries_ok:
  "e \<in> set PRICE_CATALOG \<Longrightarrow> pe_provider e \<noteq> [] \<and> pe_model_id e \<noteq> [] \<and> pe_revision e \<noteq> [] \<and>
     0 \<le> bp_input_usd_per_mtok (pe_billing_profile e) \<and> 0 \<le> bp_output_usd_per_mtok (pe_billing_profile e)"
  by (auto simp: catalog_defs)

lemma catalog_keys_distinct:
  "distinct (map (\<lambda>e. (pe_provider e, pe_model_id e, bp_name (pe_billing_profile e))) PRICE_CATALOG)"
  by (simp add: catalog_defs)

lemma get_price_catalog_entry_Inr:
  "get_price_catalog_entry p m n = Inr e \<longleftrightarrow>
     e \<in> set PRICE_CATALOG \<and> pe_provider e = p \<and> pe_model_id e = m \<and> bp_name (pe_billing_profile e) = n"
proof
  assume "get_price_catalog_entry p m n = Inr e"
  then have "filter (\<lambda>e. pe_provider e = p \<and> pe_model_id e = m \<and> bp_name (pe_billing_profile e) = n) PRICE_CATALOG = [e]"
    by (auto simp: get_price_catalog_entry_def split: list.splits)
  then have "e \<in> set (filter (\<lambda>e. pe_provider e = p \<and> pe_model_id e = m \<and> bp_name (pe_billing_profile e) = n) PRICE_CATALOG)"
    by simp
  then show "e \<in> set PRICE_CATALOG \<and> pe_provider e = p \<and> pe_model_id e = m \<and> bp_name (pe_billing_profile e) = n"
    by simp
next
  assume e: "e \<in> set PRICE_CATALOG \<and> pe_provider e = p \<and> pe_model_id e = m \<and> bp_name (pe_billing_profile e) = n"
  have "filter (\<lambda>x. (pe_provider x, pe_model_id x, bp_name (pe_billing_profile x)) =
      (pe_provider e, pe_model_id e, bp_name (pe_billing_profile e))) PRICE_CATALOG = [e]"
    by (rule filter_key_unique [OF catalog_keys_distinct]) (use e in simp)
  with e show "get_price_catalog_entry p m n = Inr e"
    by (simp add: get_price_catalog_entry_def)
qed

lemma make_quote_ok:
  assumes "pq_provider q \<noteq> []" "pq_model_id q \<noteq> []" "pq_price_catalog_revision q \<noteq> []"
    and "is_sha256 (pq_provider_usage_digest q)" and "0 \<le> pq_cost_usd q"
  shows "make_quote q = Inr (q\<lparr>pq_cost_usd := currency (pq_cost_usd q)\<rparr>)"
  using assms currency_nonneg [of "pq_cost_usd q"]
  by (simp add: make_quote_def currency_float_def Let_def)

lemma entry_price_nonneg:
  assumes "e \<in> set PRICE_CATALOG" and "0 \<le> i" and "0 \<le> j"
  shows "0 \<le> (of_int i * bp_input_usd_per_mtok (pe_billing_profile e) +
    of_int j * bp_output_usd_per_mtok (pe_billing_profile e)) / 1000000"
  using catalog_entries_ok [OF assms(1)] assms(2,3) by simp

section \<open>Properties\<close>

text \<open>
  The resolver never raises on usage a provider can report, and a quote it gives is bound to
  its question: the same provider, model and usage digest, the revision of the one catalogue entry
  for that billing profile whose context window admits the usage, and as cost the catalogue price of
  the tokens rounded to the nanodollar, off by at most half a nanodollar and never negative.
\<close>

theorem resolve_quote_exact:
  assumes "valid_usage usage"
  shows "\<exists>r. resolve provider model_id usage = Inr r \<and>
    (\<forall>q. r = Some q \<longrightarrow>
      (\<exists>e \<in> set PRICE_CATALOG. \<exists>i j. pe_provider e = provider \<and> pe_model_id e = model_id \<and>
         pu_billing_profile usage = Some (bp_name (pe_billing_profile e)) \<and>
         accepts_context (pe_billing_profile e) (pu_context_tokens usage) \<and>
         pu_input_tokens usage = Some i \<and> pu_output_tokens usage = Some j \<and>
         pq_provider q = provider \<and> pq_model_id q = model_id \<and> pq_price_catalog_revision q = pe_revision e \<and>
         pu_provider_usage_digest usage = Some (pq_provider_usage_digest q) \<and> 0 \<le> pq_cost_usd q \<and>
         \<bar>pq_cost_usd q - (of_int i * bp_input_usd_per_mtok (pe_billing_profile e) +
            of_int j * bp_output_usd_per_mtok (pe_billing_profile e)) / 1000000\<bar> \<le> currency_quantum / 2))"
proof (cases "resolve provider model_id usage = Inr None")
  case False
  then obtain i j d n where u: "pu_input_tokens usage = Some i" "pu_output_tokens usage = Some j"
      "pu_provider_usage_digest usage = Some d" "pu_billing_profile usage = Some n"
    by (auto simp: resolve_def split: option.splits)
  have rest: "\<not> nonstandard_usage provider model_id usage"
    using False by (auto simp: resolve_def u)
  obtain e where entry: "get_price_catalog_entry provider model_id n = Inr e"
    using False rest by (cases "get_price_catalog_entry provider model_id n") (simp_all add: resolve_def u)
  then have e: "e \<in> set PRICE_CATALOG" "pe_provider e = provider" "pe_model_id e = model_id"
      "bp_name (pe_billing_profile e) = n"
    by (simp_all add: get_price_catalog_entry_Inr)
  have ctx: "accepts_context (pe_billing_profile e) (pu_context_tokens usage)"
    using False rest entry by (auto simp: resolve_def u Let_def split: if_splits)
  have tok: "0 \<le> i" "0 \<le> j" and dig: "is_sha256 d"
    using assms u by (simp_all add: valid_usage_def usage_fields_ok_def)
  let ?price = "(of_int i * bp_input_usd_per_mtok (pe_billing_profile e) +
    of_int j * bp_output_usd_per_mtok (pe_billing_profile e)) / 1000000"
  let ?q = "\<lparr>pq_provider = provider, pq_model_id = model_id, pq_price_catalog_revision = pe_revision e,
    pq_provider_usage_digest = d, pq_cost_usd = currency ?price, pq_billing_profile = n\<rparr>"
  have price: "0 \<le> ?price" by (rule entry_price_nonneg [OF e(1) tok])
  have "resolve provider model_id usage = Inr (Some ?q)"
    using rest entry ctx catalog_entries_ok [OF e(1)] e dig currency_nonneg [OF price]
    by (simp add: resolve_def u make_quote_ok currency_float_def Let_def del: zero_le_divide_iff)
  then show ?thesis
    using e u ctx currency_nonneg [OF price] currency_error [of ?price] by (auto intro!: bexI [of _ e])
qed simp

definition example_usage :: provider_usage where
  "example_usage =
     \<lparr>pu_evidence_source = Provider_reported, pu_input_tokens = Some 1000, pu_output_tokens = Some 200,
      pu_total_tokens = Some 1200, pu_context_tokens = Some 250000, pu_tool_calls = Some 0,
      pu_cached_input_tokens = Some 0, pu_service_tier = Some ''standard'',
      pu_billing_profile = Some ''long_context'', pu_tool_billing_usd = None, pu_actual_cost_usd = None,
      pu_provider_usage_digest = Some (replicate 64 (CHR ''a'')), pu_observed_provider_version = None,
      pu_observed_endpoint_digest = None, pu_operator_attested_runtime_revision = None\<rparr>"

lemma example_usage_valid: "valid_usage example_usage"
  by (simp add: valid_usage_def usage_fields_ok_def validate_token_consistency_def example_usage_def
      is_sha256_def hex_digits_def list_all_iff)

lemma example_quote:
  "\<exists>q. resolve ''gemini'' ''gemini-2.5-pro'' example_usage = Inr (Some q)"
  by (simp add: resolve_def example_usage_def get_price_catalog_entry_def catalog_defs accepts_context_def
      Let_def make_quote_def is_sha256_def hex_digits_def list_all_iff currency_float_def local_zero_paid_def nonstandard_usage_def
      currency_nonneg not_less raise_if_def)

theorem resolve_quote_exact_witness:
  "\<exists>q. resolve ''gemini'' ''gemini-2.5-pro'' example_usage = Inr (Some q) \<and>
     pq_price_catalog_revision q = ''2026-08-14'' \<and> pq_model_id q = ''gemini-2.5-pro'' \<and> 0 \<le> pq_cost_usd q"
proof -
  obtain q where q: "resolve ''gemini'' ''gemini-2.5-pro'' example_usage = Inr (Some q)"
    using example_quote by blast
  with resolve_quote_exact [OF example_usage_valid, of "''gemini''" "''gemini-2.5-pro''"]
  obtain e where "e \<in> set PRICE_CATALOG" "pe_model_id e = ''gemini-2.5-pro''" "pq_model_id q = ''gemini-2.5-pro''"
      "pq_price_catalog_revision q = pe_revision e" "0 \<le> pq_cost_usd q"
    by auto
  with q show ?thesis by (auto simp: catalog_defs)
qed

end
