(* ===== verification/Artifact_Store.thy ===== *)
theory Artifact_Store
  imports Arena_Prelude
begin

text \<open>
  Content-addressed artifact storage: \<open>LocalArtifactStore\<close> and \<open>S3CompatibleArtifactStore\<close> of
  \<open>src/backend/artifacts_v1/store.py\<close>, the registry \<open>ArenaRepository.register_artifact\<close>, and the two
  clients of the durable worker that persist evidence.

  Bytes are strings of 8-bit characters. The digest function \<open>h\<close> stands for the hexadecimal SHA-256
  digest; no collision resistance is assumed. The tree below the root of the local store is the map
  of digests to nodes, with the two-character directories that resolve outside the root listed in
  \<open>ls_escapes\<close>; a concurrent writer may create the target between the existence test and the link.
  The S3 service is a parameter: a record of its two calls on a service state. Failures of the
  operating system itself (a full disk) are not modelled.
\<close>

section \<open>Digests\<close>

definition validate_digest :: "string \<Rightarrow> unit result" where
  "validate_digest d = raise_if (\<not> is_sha256 d) (ValueError ''digest must be a lowercase SHA-256 hex value'')"

section \<open>The local store\<close>

datatype fs_node = Regular string | Symlink bool

record local_store =
  ls_escapes :: "string list"
  ls_nodes :: "string \<Rightarrow> fs_node option"

text \<open>\<open>path.exists()\<close> follows symbolic links; a dangling link does not exist.\<close>

definition node_exists :: "fs_node option \<Rightarrow> bool" where
  "node_exists n = (case n of None \<Rightarrow> False | Some (Regular _) \<Rightarrow> True | Some (Symlink live) \<Rightarrow> live)"

definition local_path :: "local_store \<Rightarrow> string \<Rightarrow> unit result" where
  "local_path st digest =
     bind_r (validate_digest digest) (\<lambda>_.
     bind_r (raise_if (take 2 digest \<in> set (ls_escapes st))
       (ArtifactIntegrityError ''artifact path escapes configured root'')) (\<lambda>_.
     raise_if (ls_nodes st digest = Some (Symlink True))
       (ArtifactIntegrityError ''symlink artifacts are not allowed'')))"

definition get_bytes_local :: "(string \<Rightarrow> string) \<Rightarrow> string \<Rightarrow> local_store \<Rightarrow> string result" where
  "get_bytes_local h digest st =
     bind_r (local_path st digest) (\<lambda>_.
     case ls_nodes st digest of
       Some (Regular content) \<Rightarrow>
         if h content \<noteq> digest then Inl (ArtifactIntegrityError ''artifact content does not match its digest'')
         else Inr content
     | _ \<Rightarrow> Inl (FileNotFoundError digest))"

definition verify_existing :: "(string \<Rightarrow> string) \<Rightarrow> string \<Rightarrow> local_store \<Rightarrow> string result" where
  "verify_existing h content st =
     bind_r (get_bytes_local h (h content) st) (\<lambda>found.
     if found \<noteq> content then Inl (ArtifactIntegrityError ''digest path already contains mismatched content'')
     else Inr (h content))"

definition put_bytes_local ::
  "(string \<Rightarrow> string) \<Rightarrow> string option \<Rightarrow> string \<Rightarrow> local_store \<Rightarrow> string result \<times> local_store" where
  "put_bytes_local h race content st =
     (let digest = h content in
      case local_path st digest of
        Inl e \<Rightarrow> (Inl e, st)
      | Inr _ \<Rightarrow>
          if node_exists (ls_nodes st digest) then (verify_existing h content st, st)
          else
            let raced = (case (race, ls_nodes st digest) of
                  (Some other, None) \<Rightarrow> st\<lparr>ls_nodes := (ls_nodes st)(digest \<mapsto> Regular other)\<rparr>
                | _ \<Rightarrow> st)
            in if ls_nodes raced digest = None
               then (Inr digest, raced\<lparr>ls_nodes := (ls_nodes raced)(digest \<mapsto> Regular content)\<rparr>)
               else (verify_existing h content raced, raced))"

section \<open>The S3-compatible store\<close>

text \<open>
  A response of the service: the chunks that successive reads of the body return (\<open>None\<close> for a read
  that does not return bytes), the declared length when it is an integer, and the metadata.
\<close>

record s3_response =
  sr_body :: "string option list option"
  sr_content_length :: "int option"
  sr_metadata :: "(string \<times> string) list option"

text \<open>
  The calls of the service: \<open>put_object\<close> with \<open>IfNoneMatch="*"\<close> returns the error code of a failed
  call, \<open>get_object\<close> an error code or a response (\<open>None\<close>: not a mapping).
\<close>

record 's transport =
  tr_put :: "string \<Rightarrow> string \<Rightarrow> string \<Rightarrow> 's \<Rightarrow> string option option \<times> 's"
  tr_get :: "string \<Rightarrow> 's \<Rightarrow> string option + s3_response option"

record s3_config =
  s3_prefix :: string
  s3_max_artifact_bytes :: int

definition s3_key :: "s3_config \<Rightarrow> string \<Rightarrow> string result" where
  "s3_key cfg digest =
     bind_r (validate_digest digest) (\<lambda>_.
     let key = ''sha256/'' @ take 2 digest @ ''/'' @ digest
     in Inr (if s3_prefix cfg \<noteq> [] then s3_prefix cfg @ ''/'' @ key else key))"

fun read_chunks :: "int \<Rightarrow> string \<Rightarrow> string option list \<Rightarrow> string result" where
  "read_chunks limit acc [] = Inr acc"
| "read_chunks limit acc (None # _) = Inl (ArtifactIntegrityError ''artifact response body is invalid'')"
| "read_chunks limit acc (Some chunk # rest) =
     (if chunk = [] then Inr acc
      else if int (length (acc @ chunk)) > limit
      then Inl (ArtifactIntegrityError ''artifact exceeds configured byte limit'')
      else read_chunks limit (acc @ chunk) rest)"

definition ascii_lower :: "string \<Rightarrow> string" where
  "ascii_lower s = map (\<lambda>c. if CHR ''A'' \<le> c \<and> c \<le> CHR ''Z'' then char_of (of_char c + (32 :: nat)) else c) s"

definition metadata_digest :: "(string \<times> string) list \<Rightarrow> string" where
  "metadata_digest m =
     ascii_lower (case map_of m ''sha256'' of Some v \<Rightarrow> v
       | None \<Rightarrow> (case map_of m ''SHA256'' of Some v \<Rightarrow> v | None \<Rightarrow> []))"

definition read_limited :: "(string \<Rightarrow> string) \<Rightarrow> s3_config \<Rightarrow> s3_response \<Rightarrow> string \<Rightarrow> string result" where
  "read_limited h cfg r digest =
     (case sr_body r of
        None \<Rightarrow> Inl (ArtifactIntegrityError ''artifact response has no readable body'')
      | Some chunks \<Rightarrow>
          (case sr_content_length r of
             None \<Rightarrow> Inl (ArtifactIntegrityError ''artifact response has invalid content length'')
           | Some len \<Rightarrow>
               bind_r (raise_if (len < 0) (ArtifactIntegrityError ''artifact response has invalid content length'')) (\<lambda>_.
               bind_r (raise_if (len > s3_max_artifact_bytes cfg)
                 (ArtifactIntegrityError ''artifact exceeds configured byte limit'')) (\<lambda>_.
               bind_r (read_chunks (s3_max_artifact_bytes cfg) [] chunks) (\<lambda>content.
               bind_r (raise_if (int (length content) \<noteq> len)
                 (ArtifactIntegrityError ''artifact response length does not match declared length'')) (\<lambda>_.
               bind_r (raise_if (case sr_metadata r of None \<Rightarrow> True | Some m \<Rightarrow> metadata_digest m \<noteq> digest)
                 (ArtifactIntegrityError ''artifact metadata digest does not match key'')) (\<lambda>_.
               bind_r (raise_if (h content \<noteq> digest)
                 (ArtifactIntegrityError ''artifact content does not match its digest'')) (\<lambda>_.
               Inr content))))))))"

definition get_bytes_s3 ::
  "(string \<Rightarrow> string) \<Rightarrow> s3_config \<Rightarrow> 's transport \<Rightarrow> string \<Rightarrow> 's \<Rightarrow> string result" where
  "get_bytes_s3 h cfg tr digest st =
     bind_r (s3_key cfg digest) (\<lambda>key.
     case tr_get tr key st of
       Inl code \<Rightarrow>
         if code \<in> {Some ''404'', Some ''NoSuchKey'', Some ''NotFound''} then Inl (FileNotFoundError digest)
         else Inl (ArtifactIntegrityError ''artifact object could not be retrieved'')
     | Inr None \<Rightarrow> Inl (ArtifactIntegrityError ''artifact response is invalid'')
     | Inr (Some response) \<Rightarrow> read_limited h cfg response digest)"

definition put_bytes_s3 ::
  "(string \<Rightarrow> string) \<Rightarrow> s3_config \<Rightarrow> 's transport \<Rightarrow> string \<Rightarrow> 's \<Rightarrow> string result \<times> 's" where
  "put_bytes_s3 h cfg tr content st =
     (if int (length content) > s3_max_artifact_bytes cfg
      then (Inl (ArtifactIntegrityError ''artifact exceeds configured byte limit''), st)
      else
        let digest = h content in
        case s3_key cfg digest of
          Inl e \<Rightarrow> (Inl e, st)
        | Inr key \<Rightarrow>
            (case tr_put tr key content digest st of
               (failure, st') \<Rightarrow>
                 if (case failure of None \<Rightarrow> False
                     | Some code \<Rightarrow> code \<notin> {Some ''412'', Some ''PreconditionFailed'', Some ''ConditionalRequestConflict''})
                 then (Inl (ArtifactIntegrityError ''artifact upload failed''), st')
                 else
                   (case get_bytes_s3 h cfg tr digest st' of
                      Inl (ArtifactIntegrityError _) \<Rightarrow>
                        (Inl (ArtifactIntegrityError ''artifact upload could not be verified''), st')
                    | Inl (FileNotFoundError _) \<Rightarrow>
                        (Inl (ArtifactIntegrityError ''artifact upload could not be verified''), st')
                    | Inl e \<Rightarrow> (Inl e, st')
                    | Inr persisted \<Rightarrow>
                        if persisted \<noteq> content
                        then (Inl (ArtifactIntegrityError ''artifact digest key contains mismatched content''), st')
                        else (Inr digest, st'))))"

section \<open>The registry and the clients\<close>

record artifact_row =
  ar_digest :: string
  ar_size_bytes :: nat
  ar_media_type :: string
  ar_storage_uri :: string
  ar_metadata :: dict

definition register_artifact :: "artifact_row \<Rightarrow> artifact_row list \<Rightarrow> artifact_row list result" where
  "register_artifact row rows =
     bind_r (raise_if (length (ar_digest row) \<noteq> 64) (IntegrityError ''artifacts'')) (\<lambda>_.
     let rows' = (if list_ex (\<lambda>r. ar_digest r = ar_digest row) rows then rows else rows @ [row]) in
     case filter (\<lambda>r. ar_digest r = ar_digest row) rows' of
       [existing] \<Rightarrow>
         if ar_size_bytes existing \<noteq> ar_size_bytes row \<or> ar_storage_uri existing \<noteq> ar_storage_uri row
         then Inl (ImmutableVersionConflict (''artifact '' @ ar_digest row @
           '' is already registered with different content location or size''))
         else Inr rows'
     | [] \<Rightarrow> Inl NoResultFound
     | _ \<Rightarrow> Inl MultipleResultsFound)"

definition registering :: "artifact_row \<Rightarrow> 's \<times> artifact_row list \<Rightarrow> unit result \<times> 's \<times> artifact_row list" where
  "registering row w =
     (case register_artifact row (snd w) of Inl e \<Rightarrow> (Inl e, w) | Inr rows \<Rightarrow> (Inr (), fst w, rows))"

definition persist_generated_artifact ::
  "(string \<Rightarrow> 's \<Rightarrow> string result \<times> 's) \<Rightarrow> (string \<Rightarrow> 's \<Rightarrow> string result) \<Rightarrow> (string \<Rightarrow> string) \<Rightarrow>
   string \<Rightarrow> string \<Rightarrow> dict \<Rightarrow> 's \<times> artifact_row list \<Rightarrow> string result \<times> 's \<times> artifact_row list" where
  "persist_generated_artifact put get uri content media_type metadata w =
     (case put content (fst w) of
        (Inl e, st) \<Rightarrow> (Inl e, st, snd w)
      | (Inr digest, st) \<Rightarrow>
          (case get digest st of
             Inl e \<Rightarrow> (Inl e, st, snd w)
           | Inr persisted \<Rightarrow>
               if persisted \<noteq> content
               then (Inl (ValueError ''artifact store reread does not match persisted content''), st, snd w)
               else
                 (case registering \<lparr>ar_digest = digest, ar_size_bytes = length persisted,
                      ar_media_type = media_type, ar_storage_uri = uri digest, ar_metadata = metadata\<rparr> (st, snd w) of
                    (Inl e, w') \<Rightarrow> (Inl e, w')
                  | (Inr _, w') \<Rightarrow> (Inr digest, w'))))"

record artifact_ref =
  rf_artifact_id :: string
  rf_media_type :: string
  rf_sha256 :: string
  rf_uri :: "string option"
  rf_content :: "string option"

definition verify_inline_content :: "(string \<Rightarrow> string) \<Rightarrow> artifact_ref \<Rightarrow> artifact_ref result" where
  "verify_inline_content h r =
     bind_r (raise_if (case rf_content r of None \<Rightarrow> False | Some c \<Rightarrow> h c \<noteq> rf_sha256 r)
       (ValueError ''artifact content does not match declared sha256'')) (\<lambda>_. Inr r)"

text \<open>One round of the loop of \<open>_persist_artifacts\<close>, for a digest that was not seen before.\<close>

definition persist_ref ::
  "(string \<Rightarrow> 's \<Rightarrow> string result \<times> 's) \<Rightarrow> (string \<Rightarrow> 's \<Rightarrow> string result) \<Rightarrow> (string \<Rightarrow> string) \<Rightarrow>
   artifact_ref \<Rightarrow> 's \<times> artifact_row list \<Rightarrow> string result \<times> 's \<times> artifact_row list" where
  "persist_ref put get uri ref w =
     (case (case rf_content ref of
              Some content \<Rightarrow> put content (fst w)
            | None \<Rightarrow> (bind_r (get (rf_sha256 ref) (fst w)) (\<lambda>_. Inr (rf_sha256 ref)), fst w)) of
        (Inl e, st) \<Rightarrow> (Inl e, st, snd w)
      | (Inr digest, st) \<Rightarrow>
          if digest \<noteq> rf_sha256 ref
          then (Inl (ValueError ''artifact store digest does not match adapter artifact''), st, snd w)
          else
            (case get digest st of
               Inl e \<Rightarrow> (Inl e, st, snd w)
             | Inr content \<Rightarrow>
                 (case registering \<lparr>ar_digest = digest, ar_size_bytes = length content,
                      ar_media_type = rf_media_type ref, ar_storage_uri = uri digest, ar_metadata = []\<rparr> (st, snd w) of
                    (Inl e, w') \<Rightarrow> (Inl e, w')
                  | (Inr _, w') \<Rightarrow> (Inr digest, w'))))"

fun persist_artifacts_from ::
  "(string \<Rightarrow> 's \<Rightarrow> string result \<times> 's) \<Rightarrow> (string \<Rightarrow> 's \<Rightarrow> string result) \<Rightarrow> (string \<Rightarrow> string) \<Rightarrow>
   artifact_ref list \<Rightarrow> string list \<Rightarrow> (string \<times> string) list \<Rightarrow> 's \<times> artifact_row list
   \<Rightarrow> (string list \<times> (string \<times> string) list) result \<times> 's \<times> artifact_row list" where
  "persist_artifacts_from put get uri [] persisted by_artifact_id w = (Inr (persisted, by_artifact_id), w)"
| "persist_artifacts_from put get uri (ref # refs) persisted by_artifact_id w =
     (case map_of by_artifact_id (rf_artifact_id ref) of
        Some existing \<Rightarrow>
          if existing \<noteq> rf_sha256 ref
          then (Inl (ValueError ''logical artifact_id has conflicting digests''), w)
          else persist_artifacts_from put get uri refs persisted by_artifact_id w
      | None \<Rightarrow>
          let ids = by_artifact_id @ [(rf_artifact_id ref, rf_sha256 ref)] in
          if rf_sha256 ref \<in> set persisted then persist_artifacts_from put get uri refs persisted ids w
          else
            (case persist_ref put get uri ref w of
               (Inl e, w') \<Rightarrow> (Inl e, w')
             | (Inr digest, w') \<Rightarrow> persist_artifacts_from put get uri refs (persisted @ [digest]) ids w'))"

definition persist_artifacts ::
  "(string \<Rightarrow> 's \<Rightarrow> string result \<times> 's) \<Rightarrow> (string \<Rightarrow> 's \<Rightarrow> string result) \<Rightarrow> (string \<Rightarrow> string) \<Rightarrow>
   artifact_ref list \<Rightarrow> 's \<times> artifact_row list
   \<Rightarrow> (string list \<times> (string \<times> string) list) result \<times> 's \<times> artifact_row list" where
  "persist_artifacts put get uri refs w = persist_artifacts_from put get uri refs [] [] w"

section \<open>The contract of a store\<close>

text \<open>
  What \<open>ArtifactStore\<close> promises its clients: what has been stored under a digest is read back, a read
  never returns content with another digest, and no write takes an artifact away or replaces it.
\<close>

locale artifact_store =
  fixes put :: "string \<Rightarrow> 's \<Rightarrow> string result \<times> 's" and get :: "string \<Rightarrow> 's \<Rightarrow> string result"
    and h :: "string \<Rightarrow> string"
  assumes put_get: "put c st = (Inr d, st') \<Longrightarrow> get d st' = Inr c \<and> d = h c"
    and put_keeps: "put c st = (r, st') \<Longrightarrow> get d st = Inr c' \<Longrightarrow> get d st' = Inr c'"
    and get_digest: "get d st = Inr c \<Longrightarrow> h c = d"
begin

text \<open>A digest is held when the store reads it back and the registry has its size and location.\<close>

definition held :: "(string \<Rightarrow> string) \<Rightarrow> 's \<times> artifact_row list \<Rightarrow> string \<Rightarrow> bool" where
  "held uri w d \<longleftrightarrow> (\<exists>c. get d (fst w) = Inr c \<and> h c = d \<and>
     (\<exists>r \<in> set (snd w). ar_digest r = d \<and> ar_size_bytes r = length c \<and> ar_storage_uri r = uri d))"

lemma register_artifact_held:
  assumes "register_artifact row rows = Inr rows'"
  shows "set rows \<subseteq> set rows' \<and> (\<exists>r \<in> set rows'. ar_digest r = ar_digest row \<and>
    ar_size_bytes r = ar_size_bytes row \<and> ar_storage_uri r = ar_storage_uri row)"
proof -
  let ?rows = "if list_ex (\<lambda>r. ar_digest r = ar_digest row) rows then rows else rows @ [row]"
  obtain e where e: "filter (\<lambda>r. ar_digest r = ar_digest row) ?rows = [e]" "rows' = ?rows"
      "ar_size_bytes e = ar_size_bytes row" "ar_storage_uri e = ar_storage_uri row"
    using assms by (auto simp: register_artifact_def Let_def split: list.splits if_splits)
  have "e \<in> set (filter (\<lambda>r. ar_digest r = ar_digest row) ?rows)"
    unfolding e(1) by simp
  then have "e \<in> set rows' \<and> ar_digest e = ar_digest row"
    by (simp add: e(2))
  then show ?thesis
    using e by auto
qed

lemma registering_held:
  assumes "registering row w = (Inr u, w')"
  shows "fst w' = fst w \<and> set (snd w) \<subseteq> set (snd w') \<and> (\<exists>r \<in> set (snd w'). ar_digest r = ar_digest row \<and>
    ar_size_bytes r = ar_size_bytes row \<and> ar_storage_uri r = ar_storage_uri row)"
  using assms register_artifact_held [of row "snd w" "snd w'"]
  by (auto simp: registering_def split: sum.splits)

lemma held_mono:
  assumes "held uri w d" and "\<And>c. get d (fst w) = Inr c \<Longrightarrow> get d (fst w') = Inr c"
    and "set (snd w) \<subseteq> set (snd w')"
  shows "held uri w' d"
  using assms unfolding held_def by blast

lemma persist_generated_held:
  assumes "persist_generated_artifact put get uri content mt md w = (Inr d, w')"
  shows "held uri w' d \<and> d = h content \<and> get d (fst w') = Inr content \<and> (\<forall>x. held uri w x \<longrightarrow> held uri w' x)"
proof -
  obtain st where st: "put content (fst w) = (Inr d, st)" "get d st = Inr content"
      "registering \<lparr>ar_digest = d, ar_size_bytes = length content, ar_media_type = mt,
         ar_storage_uri = uri d, ar_metadata = md\<rparr> (st, snd w) = (Inr (), w')"
    using assms
    by (auto simp: persist_generated_artifact_def split: prod.splits sum.splits if_splits)
  note reg = registering_held [OF st(3)]
  have "held uri w' x" if "held uri w x" for x
    by (rule held_mono [OF that]) (use reg put_keeps [OF st(1)] in auto)
  moreover have "held uri w' d"
    using reg st(2) get_digest [OF st(2)] by (auto simp: held_def)
  ultimately show ?thesis
    using reg st(2) get_digest [OF st(2)] by auto
qed

lemma persist_ref_held:
  assumes "persist_ref put get uri ref w = (Inr d, w')"
  shows "d = rf_sha256 ref \<and> held uri w' d \<and> (\<forall>x. held uri w x \<longrightarrow> held uri w' x)"
proof -
  obtain st c where st: "d = rf_sha256 ref" "get d st = Inr c"
      "\<And>x y. get x (fst w) = Inr y \<Longrightarrow> get x st = Inr y"
      "registering \<lparr>ar_digest = d, ar_size_bytes = length c, ar_media_type = rf_media_type ref,
         ar_storage_uri = uri d, ar_metadata = []\<rparr> (st, snd w) = (Inr (), w')"
    using assms put_keeps
    by (auto simp: persist_ref_def bind_r_eq_Inr_iff split: prod.splits sum.splits if_splits option.splits)
  note reg = registering_held [OF st(4)]
  have "held uri w' x" if "held uri w x" for x
    by (rule held_mono [OF that]) (use reg st(3) in auto)
  moreover have "held uri w' d"
    using reg st(2) get_digest [OF st(2)] by (auto simp: held_def)
  ultimately show ?thesis using st(1) by blast
qed

lemma persist_from_held:
  assumes "persist_artifacts_from put get uri refs ps ids w = (Inr (ds, ids'), w')"
    and "distinct ps" and "\<forall>d \<in> set ps. held uri w d" and "\<forall>x d. map_of ids x = Some d \<longrightarrow> d \<in> set ps"
  shows "distinct ds \<and> (\<forall>d \<in> set ds. held uri w' d) \<and> (\<forall>x d. map_of ids' x = Some d \<longrightarrow> d \<in> set ds) \<and>
    (\<forall>x d. map_of ids x = Some d \<longrightarrow> map_of ids' x = Some d) \<and>
    (\<forall>r \<in> set refs. map_of ids' (rf_artifact_id r) = Some (rf_sha256 r))"
  using assms
proof (induction refs arbitrary: ps ids w)
  case Nil
  then show ?case by auto
next
  case (Cons r refs)
  show ?case
  proof (cases "map_of ids (rf_artifact_id r)")
    case (Some e)
    with Cons.prems have "e = rf_sha256 r" "persist_artifacts_from put get uri refs ps ids w = (Inr (ds, ids'), w')"
      by (auto split: if_splits)
    with Cons.IH [OF this(2) Cons.prems(2-4)] Some show ?thesis by auto
  next
    case None
    let ?ids = "ids @ [(rf_artifact_id r, rf_sha256 r)]"
    have look: "map_of ?ids (rf_artifact_id r) = Some (rf_sha256 r)"
        "\<forall>x d. map_of ids x = Some d \<longrightarrow> map_of ?ids x = Some d"
      using None by (auto simp: map_add_def split: option.splits)
    show ?thesis
    proof (cases "rf_sha256 r \<in> set ps")
      case True
      with Cons.prems None have go: "persist_artifacts_from put get uri refs ps ?ids w = (Inr (ds, ids'), w')"
        by (simp add: Let_def)
      have "\<forall>x d. map_of ?ids x = Some d \<longrightarrow> d \<in> set ps"
        using Cons.prems(4) True by (auto simp: map_add_def split: option.splits if_splits)
      from Cons.IH [OF go Cons.prems(2,3) this] look show ?thesis by auto
    next
      case False
      obtain d w1 where p: "persist_ref put get uri r w = (Inr d, w1)"
          "persist_artifacts_from put get uri refs (ps @ [d]) ?ids w1 = (Inr (ds, ids'), w')"
        using Cons.prems(1) None False by (auto simp: Let_def split: prod.splits sum.splits)
      note h1 = persist_ref_held [OF p(1)]
      have "distinct (ps @ [d])" "\<forall>x \<in> set (ps @ [d]). held uri w1 x"
          "\<forall>x e. map_of ?ids x = Some e \<longrightarrow> e \<in> set (ps @ [d])"
        using Cons.prems(2-4) h1 False by (auto simp: map_add_def split: option.splits if_splits)
      from Cons.IH [OF p(2) this] look show ?thesis by auto
    qed
  qed
qed

lemma persist_artifacts_held:
  assumes "persist_artifacts put get uri refs w = (Inr (ds, ids), w')"
  shows "distinct ds \<and> (\<forall>r \<in> set refs. map_of ids (rf_artifact_id r) = Some (rf_sha256 r) \<and>
    rf_sha256 r \<in> set ds) \<and> (\<forall>d \<in> set ds. held uri w' d)"
  using persist_from_held [of uri refs "[]" "[]" w ds ids w'] assms by (auto simp: persist_artifacts_def)

end

section \<open>Both stores keep the contract\<close>

lemma local_path_Inr:
  "local_path st d = Inr u \<longleftrightarrow> is_sha256 d \<and> take 2 d \<notin> set (ls_escapes st) \<and> ls_nodes st d \<noteq> Some (Symlink True)"
  by (auto simp: local_path_def validate_digest_def)

lemma get_bytes_local_Inr:
  "get_bytes_local h d st = Inr c \<longleftrightarrow>
     is_sha256 d \<and> take 2 d \<notin> set (ls_escapes st) \<and> ls_nodes st d = Some (Regular c) \<and> h c = d"
  by (auto simp: get_bytes_local_def bind_r_eq_Inr_iff local_path_Inr split: option.splits fs_node.splits)

lemma verify_existing_Inr:
  "verify_existing h c st = Inr d \<longleftrightarrow> d = h c \<and> get_bytes_local h (h c) st = Inr c"
  by (auto simp: verify_existing_def bind_r_eq_Inr_iff)

interpretation local: artifact_store "put_bytes_local h race" "get_bytes_local h" h for h race
proof
  fix c st d st'
  assume put: "put_bytes_local h race c st = (Inr d, st')"
  then have path: "is_sha256 (h c)" "take 2 (h c) \<notin> set (ls_escapes st)"
    by (auto simp: put_bytes_local_def local_path_Inr Let_def split: sum.splits)
  with put show "get_bytes_local h d st' = Inr c \<and> d = h c"
    by (auto simp: put_bytes_local_def Let_def verify_existing_Inr get_bytes_local_Inr node_exists_def
        split: sum.splits if_splits option.splits)
next
  fix c st r st' d c'
  assume "put_bytes_local h race c st = (r, st')" and "get_bytes_local h d st = Inr c'"
  then show "get_bytes_local h d st' = Inr c'"
    by (auto simp: put_bytes_local_def Let_def get_bytes_local_Inr node_exists_def
        split: sum.splits if_splits option.splits)
next
  fix d st c
  assume "get_bytes_local h d st = Inr c"
  then show "h c = d" by (simp add: get_bytes_local_Inr)
qed

text \<open>
  The service keeps the condition \<open>IfNoneMatch="*"\<close>: a put leaves every object that a read returns
  as it is.
\<close>

definition conditional_put :: "'s transport \<Rightarrow> bool" where
  "conditional_put tr \<longleftrightarrow>
     (\<forall>key content digest st f st' key' r. tr_put tr key content digest st = (f, st') \<longrightarrow>
        tr_get tr key' st = Inr (Some r) \<longrightarrow> tr_get tr key' st' = Inr (Some r))"

lemma read_chunks_limit: "read_chunks limit acc cs = Inr c \<Longrightarrow> int (length acc) \<le> limit \<Longrightarrow> int (length c) \<le> limit"
  by (induction limit acc cs rule: read_chunks.induct) (auto split: if_splits)

lemma read_limited_Inr:
  "read_limited h cfg r d = Inr c \<Longrightarrow> h c = d \<and> int (length c) \<le> s3_max_artifact_bytes cfg"
  by (auto simp: read_limited_def bind_r_eq_Inr_iff split: option.splits)

lemma get_bytes_s3_Inr:
  assumes "get_bytes_s3 h cfg tr d st = Inr c"
  obtains key r where "s3_key cfg d = Inr key" "tr_get tr key st = Inr (Some r)" "read_limited h cfg r d = Inr c"
proof -
  from assms obtain key where key: "s3_key cfg d = Inr key"
    by (auto simp: get_bytes_s3_def bind_r_eq_Inr_iff)
  with assms show thesis
    by (cases "tr_get tr key st") (auto simp: get_bytes_s3_def intro: that split: option.splits if_splits)
qed

lemma put_bytes_s3_Inr:
  assumes "put_bytes_s3 h cfg tr c st = (Inr d, st')"
  shows "d = h c \<and> get_bytes_s3 h cfg tr d st' = Inr c"
  using assms
  by (auto simp: put_bytes_s3_def Let_def split: if_splits sum.splits prod.splits py_error.splits)

lemma put_bytes_s3_state:
  assumes "put_bytes_s3 h cfg tr c st = (r, st')"
  shows "st' = st \<or> (\<exists>key f. tr_put tr key c (h c) st = (f, st'))"
  using assms
  by (auto simp: put_bytes_s3_def Let_def split: if_splits sum.splits prod.splits py_error.splits)

lemma s3_store:
  assumes "conditional_put tr"
  shows "artifact_store (put_bytes_s3 h cfg tr) (get_bytes_s3 h cfg tr) h"
proof
  fix c st d st'
  assume "put_bytes_s3 h cfg tr c st = (Inr d, st')"
  then show "get_bytes_s3 h cfg tr d st' = Inr c \<and> d = h c"
    by (auto dest: put_bytes_s3_Inr)
next
  fix c st r st' d c'
  assume put: "put_bytes_s3 h cfg tr c st = (r, st')" and "get_bytes_s3 h cfg tr d st = Inr c'"
  then obtain key res where g: "s3_key cfg d = Inr key" "tr_get tr key st = Inr (Some res)"
      "read_limited h cfg res d = Inr c'"
    by (blast elim: get_bytes_s3_Inr)
  have "tr_get tr key st' = Inr (Some res)"
    using put_bytes_s3_state [OF put] g(2) assms unfolding conditional_put_def by blast
  with g show "get_bytes_s3 h cfg tr d st' = Inr c'"
    by (simp add: get_bytes_s3_def)
next
  fix d st c
  assume "get_bytes_s3 h cfg tr d st = Inr c"
  then show "h c = d" by (auto elim!: get_bytes_s3_Inr dest: read_limited_Inr)
qed

text \<open>A service that keeps the condition: a dictionary of objects.\<close>

definition memory_transport :: "(string \<Rightarrow> s3_response option) transport" where
  "memory_transport =
     \<lparr>tr_put = (\<lambda>key content digest st. if st key \<noteq> None then (Some (Some ''412''), st)
        else (None, st(key \<mapsto> \<lparr>sr_body = Some [Some content], sr_content_length = Some (int (length content)),
          sr_metadata = Some [(''sha256'', digest)]\<rparr>))),
      tr_get = (\<lambda>key st. case st key of None \<Rightarrow> Inl (Some ''NoSuchKey'') | Some r \<Rightarrow> Inr (Some r))\<rparr>"

lemma memory_transport_conditional: "conditional_put memory_transport"
  by (auto simp: conditional_put_def memory_transport_def split: if_splits option.splits)

interpretation s3: artifact_store "put_bytes_s3 h cfg memory_transport" "get_bytes_s3 h cfg memory_transport" h
  for h cfg
  by (rule s3_store [OF memory_transport_conditional])

section \<open>Properties\<close>

text \<open>
  C32: The local store is content-addressed and write-once, also when another writer creates the
  target at the same moment: a successful write returns the digest of its content and that content is
  read back; everything that could be read before is still read unchanged after any write, successful
  or not; and on a well-formed digest in an untouched directory a write of new content succeeds.
\<close>

theorem local_store_write_once:
  "(put_bytes_local h race c st = (Inr d, st') \<longrightarrow> d = h c \<and> get_bytes_local h d st' = Inr c) \<and>
   (put_bytes_local h race c st = (r, st') \<longrightarrow> get_bytes_local h d' st = Inr c' \<longrightarrow> get_bytes_local h d' st' = Inr c') \<and>
   (is_sha256 (h c) \<longrightarrow> take 2 (h c) \<notin> set (ls_escapes st) \<longrightarrow> ls_nodes st (h c) = None \<longrightarrow> race \<in> {None, Some c} \<longrightarrow>
      fst (put_bytes_local h race c st) = Inr (h c))"
proof (intro conjI impI)
  assume "put_bytes_local h race c st = (Inr d, st')"
  then show "d = h c" "get_bytes_local h d st' = Inr c" by (auto dest: local.put_get)
next
  assume "put_bytes_local h race c st = (r, st')" "get_bytes_local h d' st = Inr c'"
  then show "get_bytes_local h d' st' = Inr c'" by (rule local.put_keeps)
next
  assume "is_sha256 (h c)" "take 2 (h c) \<notin> set (ls_escapes st)" "ls_nodes st (h c) = None" "race \<in> {None, Some c}"
  moreover from this have "local_path st (h c) = Inr ()" by (simp add: local_path_Inr)
  ultimately show "fst (put_bytes_local h race c st) = Inr (h c)"
    by (auto simp: put_bytes_local_def Let_def node_exists_def verify_existing_def get_bytes_local_def
        local_path_def validate_digest_def)
qed

definition example_hash :: "string \<Rightarrow> string" where
  "example_hash c = replicate 64 (if c = ''x'' then CHR ''a'' else CHR ''b'')"

theorem local_store_write_once_witness:
  "\<exists>st'. put_bytes_local example_hash None ''x'' \<lparr>ls_escapes = [], ls_nodes = \<lambda>_. None\<rparr> =
      (Inr (replicate 64 (CHR ''a'')), st') \<and> get_bytes_local example_hash (replicate 64 (CHR ''a'')) st' = Inr ''x''"
proof -
  let ?st = "\<lparr>ls_escapes = [], ls_nodes = \<lambda>_. None\<rparr>"
  have "is_sha256 (example_hash ''x'')"
    by (simp add: example_hash_def is_sha256_def hex_digits_def list_all_iff)
  then have "fst (put_bytes_local example_hash None ''x'' ?st) = Inr (example_hash ''x'')"
    using local_store_write_once [of example_hash None "''x''" ?st] by simp
  then have "put_bytes_local example_hash None ''x'' ?st =
      (Inr (example_hash ''x''), snd (put_bytes_local example_hash None ''x'' ?st))"
    by (simp add: prod_eq_iff)
  with local_store_write_once [of example_hash None "''x''" ?st "example_hash ''x''"
      "snd (put_bytes_local example_hash None ''x'' ?st)"]
  show ?thesis by (auto simp: example_hash_def)
qed

text \<open>
  C33: The S3 store fails closed against an arbitrary service: whatever the service answers, a read
  that returns content returns content with the requested digest within the byte limit, and a write
  that returns has re-read exactly its content; with a service that honours \<open>IfNoneMatch\<close>, no write
  replaces an artifact.
\<close>

theorem s3_store_fails_closed:
  "(get_bytes_s3 h cfg tr d st = Inr c \<longrightarrow> h c = d \<and> int (length c) \<le> s3_max_artifact_bytes cfg) \<and>
   (put_bytes_s3 h cfg tr c st = (Inr d, st') \<longrightarrow> d = h c \<and> get_bytes_s3 h cfg tr d st' = Inr c) \<and>
   (conditional_put tr \<longrightarrow> put_bytes_s3 h cfg tr c st = (r, st') \<longrightarrow> get_bytes_s3 h cfg tr d' st = Inr c' \<longrightarrow>
      get_bytes_s3 h cfg tr d' st' = Inr c')"
proof (intro conjI impI)
  assume "get_bytes_s3 h cfg tr d st = Inr c"
  then show "h c = d" "int (length c) \<le> s3_max_artifact_bytes cfg"
    by (auto elim!: get_bytes_s3_Inr dest: read_limited_Inr)
next
  assume "put_bytes_s3 h cfg tr c st = (Inr d, st')"
  then show "d = h c" "get_bytes_s3 h cfg tr d st' = Inr c" by (auto dest: put_bytes_s3_Inr)
next
  assume "conditional_put tr" "put_bytes_s3 h cfg tr c st = (r, st')" "get_bytes_s3 h cfg tr d' st = Inr c'"
  then show "get_bytes_s3 h cfg tr d' st' = Inr c'" by (rule artifact_store.put_keeps [OF s3_store])
qed

theorem s3_store_fails_closed_witness:
  "\<exists>st'. put_bytes_s3 example_hash \<lparr>s3_prefix = ''p'', s3_max_artifact_bytes = 10\<rparr> memory_transport ''x'' (\<lambda>_. None) =
      (Inr (example_hash ''x''), st') \<and>
    get_bytes_s3 example_hash \<lparr>s3_prefix = ''p'', s3_max_artifact_bytes = 10\<rparr> memory_transport
      (example_hash ''x'') st' = Inr ''x''"
proof -
  let ?cfg = "\<lparr>s3_prefix = ''p'', s3_max_artifact_bytes = 10\<rparr>"
  have dig: "is_sha256 (example_hash ''x'')"
    by (simp add: example_hash_def is_sha256_def hex_digits_def list_all_iff)
  have low: "ascii_lower (example_hash ''x'') = example_hash ''x''"
    by (simp add: ascii_lower_def example_hash_def less_eq_char_def)
  obtain st' where st': "put_bytes_s3 example_hash ?cfg memory_transport ''x'' (\<lambda>_. None) = (Inr (example_hash ''x''), st')"
    using dig low
    by (auto simp: put_bytes_s3_def s3_key_def validate_digest_def Let_def memory_transport_def get_bytes_s3_def
        read_limited_def metadata_digest_def)
  with s3_store_fails_closed [of example_hash ?cfg memory_transport "example_hash ''x''" "\<lambda>_. None" "''x''" st']
  show ?thesis by auto
qed

text \<open>
  When the worker has persisted the artifacts of an attempt in the local store, every artifact
  the adapter named is bound to the digest it declared, every such digest is listed once, the store
  reads back content with that digest, and the registry holds its size and location.
\<close>

theorem persist_artifacts_exact:
  assumes "persist_artifacts (put_bytes_local h race) (get_bytes_local h) uri refs w = (Inr (ds, ids), w')"
  shows "distinct ds \<and>
    (\<forall>r \<in> set refs. map_of ids (rf_artifact_id r) = Some (rf_sha256 r) \<and> rf_sha256 r \<in> set ds) \<and>
    (\<forall>d \<in> set ds. \<exists>c. get_bytes_local h d (fst w') = Inr c \<and> h c = d \<and>
       (\<exists>r \<in> set (snd w'). ar_digest r = d \<and> ar_size_bytes r = length c \<and> ar_storage_uri r = uri d))"
  using local.persist_artifacts_held [OF assms] unfolding local.held_def by blast

definition example_ref :: artifact_ref where
  "example_ref = \<lparr>rf_artifact_id = ''out'', rf_media_type = ''text/plain'', rf_sha256 = replicate 64 (CHR ''a''),
     rf_uri = None, rf_content = Some ''x''\<rparr>"

theorem persist_artifacts_exact_witness:
  "\<exists>ds ids w'. persist_artifacts (put_bytes_local example_hash None) (get_bytes_local example_hash) id
      [example_ref, example_ref] (\<lparr>ls_escapes = [], ls_nodes = \<lambda>_. None\<rparr>, []) = (Inr (ds, ids), w') \<and>
    map_of ids ''out'' = Some (replicate 64 (CHR ''a'')) \<and> distinct ds"
proof -
  let ?run = "persist_artifacts (put_bytes_local example_hash None) (get_bytes_local example_hash) id
      [example_ref, example_ref] (\<lparr>ls_escapes = [], ls_nodes = \<lambda>_. None\<rparr>, [])"
  have "\<exists>ds ids w'. ?run = (Inr (ds, ids), w')"
    by (simp add: persist_artifacts_def example_ref_def persist_ref_def put_bytes_local_def Let_def local_path_def
        validate_digest_def is_sha256_def hex_digits_def list_all_iff example_hash_def node_exists_def
        get_bytes_local_def registering_def register_artifact_def)
  then obtain ds ids w' where r: "?run = (Inr (ds, ids), w')" by blast
  from persist_artifacts_exact [OF r] r show ?thesis by (auto simp: example_ref_def)
qed

end
