(* ===== verification/Adapter_Results.thy ===== *)
theory Adapter_Results
  imports Provider_Models Artifact_Store Job_Retry
begin

text \<open>
  What an adapter hands back, and the checks on it: \<open>ResultBundle\<close>, \<open>TraceEvent\<close> and
  \<open>CertificationReport\<close> with the validators of \<open>src/backend/adapters_v1/models.py\<close>. The patterns of
  identifiers and digests that pydantic checks on single fields are left to the parameters that
  parse documents.
\<close>

section \<open>Results\<close>

datatype terminal_outcome = Out_completed | Out_failed | Out_timed_out | Out_cancelled | Out_incomplete

datatype failure_classification =
    Transient_adapter | Transient_provider | Permanent_adapter | Permanent_provider | Permanent_protocol

record result_bundle =
  rb_attempt_id :: string
  rb_terminal_outcome :: terminal_outcome
  rb_completed_at :: datetime
  rb_response_hash :: "string option"
  rb_response_artifact_id :: "string option"
  rb_usage :: "provider_usage option"
  rb_artifacts :: "artifact_ref list"
  rb_detail :: "string option"
  rb_failure_classification :: "failure_classification option"

definition validate_response_artifact_contract :: "result_bundle \<Rightarrow> result_bundle result" where
  "validate_response_artifact_contract r =
     bind_r (raise_if (rb_terminal_outcome r = Out_completed \<and>
         (rb_response_hash r = None \<or> rb_response_artifact_id r = None))
       (ValueError ''completed result requires response_hash and response_artifact_id'')) (\<lambda>_.
     case rb_response_artifact_id r of
       None \<Rightarrow> Inr r
     | Some artifact_id \<Rightarrow>
         (case rb_response_hash r of
            None \<Rightarrow> Inl (ValueError ''response_artifact_id requires response_hash'')
          | Some response_hash \<Rightarrow>
              (case filter (\<lambda>a. rf_artifact_id a = artifact_id) (rb_artifacts r) of
                 [artifact] \<Rightarrow>
                   bind_r (raise_if (rf_sha256 artifact \<noteq> response_hash)
                     (ValueError ''response artifact sha256 does not match response_hash'')) (\<lambda>_.
                   bind_r (raise_if (rf_content artifact = None \<and> rf_uri artifact = None)
                     (ValueError ''response artifact must provide inline content or a durable URI'')) (\<lambda>_.
                   Inr r))
               | _ \<Rightarrow> Inl (ValueError ''response_artifact_id must identify exactly one artifact''))))"

definition bind_response_artifact :: "result_bundle \<Rightarrow> result_bundle result" where
  "bind_response_artifact r =
     bind_r (validate_response_artifact_contract r) (\<lambda>_.
     case rb_terminal_outcome r of
       Out_completed \<Rightarrow>
         bind_r (raise_if (rb_failure_classification r \<noteq> None)
           (ValueError ''completed result must not declare failure_classification'')) (\<lambda>_. Inr r)
     | Out_cancelled \<Rightarrow>
         bind_r (raise_if (rb_failure_classification r \<noteq> None)
           (ValueError ''cancelled result must not declare failure_classification'')) (\<lambda>_. Inr r)
     | _ \<Rightarrow>
         bind_r (raise_if (rb_failure_classification r = None)
           (ValueError ''failed, timed_out, and incomplete results require failure_classification'')) (\<lambda>_. Inr r))"

definition validate_result_for_attempt :: "result_bundle \<Rightarrow> attempt_envelope \<Rightarrow> result_bundle result" where
  "validate_result_for_attempt r attempt =
     bind_r (validate_response_artifact_contract r) (\<lambda>_.
     bind_r (raise_if (rb_attempt_id r \<noteq> av_attempt_id attempt)
       (ValueError ''result attempt_id does not match prepared attempt'')) (\<lambda>_.
     bind_r (raise_if (av_response_hash attempt \<noteq> None \<and> rb_response_hash r \<noteq> av_response_hash attempt)
       (ValueError ''result response_hash does not match attempt envelope'')) (\<lambda>_.
     Inr r)))"

section \<open>Traces\<close>

datatype trace_actor = Actor_harness | Actor_model | Actor_tool | Actor_evaluator | Actor_system

datatype trace_event_type =
    Ev_request | Ev_response | Ev_tool_call | Ev_tool_result | Ev_state | Ev_error

record trace_event =
  te_trace_id :: string
  te_episode_id :: string
  te_attempt_id :: string
  te_sequence :: int
  te_actor :: trace_actor
  te_event_type :: trace_event_type
  te_timestamp :: datetime
  te_monotonic_time :: rat
  te_payload :: dict
  te_payload_hash :: string

fun validate_events_from :: "int \<Rightarrow> trace_event list \<Rightarrow> attempt_envelope \<Rightarrow> unit result" where
  "validate_events_from previous [] attempt = Inr ()"
| "validate_events_from previous (e # es) attempt =
     bind_r (raise_if (te_attempt_id e \<noteq> av_attempt_id attempt \<or> te_episode_id e \<noteq> av_episode_id attempt)
       (ValueError ''trace event does not belong to attempt'')) (\<lambda>_.
     bind_r (raise_if (te_sequence e \<le> previous)
       (ValueError ''trace event sequences must be strictly increasing'')) (\<lambda>_.
     validate_events_from (te_sequence e) es attempt))"

definition validate_events_for_attempt :: "trace_event list \<Rightarrow> attempt_envelope \<Rightarrow> trace_event list result" where
  "validate_events_for_attempt events attempt =
     bind_r (validate_events_from (- 1) events attempt) (\<lambda>_. Inr events)"

section \<open>Certification\<close>

datatype certification_case_kind =
    Case_capability | Case_input_binding | Case_lifecycle | Case_trace | Case_usage | Case_artifact
  | Case_isolation | Case_cancellation | Case_cleanup

record certification_case =
  cc_case :: certification_case_kind
  cc_passed :: bool
  cc_detail :: string

record certification_report =
  ct_adapter_id :: string
  ct_adapter_digest :: string
  ct_certified_at :: datetime
  ct_passed :: bool
  ct_cases :: "certification_case list"

definition certification_cases :: "certification_case_kind list" where
  "certification_cases = [Case_capability, Case_input_binding, Case_lifecycle, Case_trace, Case_usage,
     Case_artifact, Case_isolation, Case_cancellation, Case_cleanup]"

definition bind_complete_case_set_and_verdict :: "certification_report \<Rightarrow> certification_report result" where
  "bind_complete_case_set_and_verdict r =
     (let observed = map cc_case (ct_cases r) in
      bind_r (raise_if (length observed \<noteq> length certification_cases \<or> set observed \<noteq> set certification_cases)
        (ValueError ''certification requires exactly one result for every case'')) (\<lambda>_.
      bind_r (raise_if (ct_passed r \<noteq> list_all cc_passed (ct_cases r))
        (ValueError ''certification verdict must equal the conjunction of case results'')) (\<lambda>_.
      Inr r)))"

section \<open>Lemmas and properties\<close>

lemma validate_events_from_Inr:
  "validate_events_from p es a = Inr () \<longleftrightarrow>
     (\<forall>e \<in> set es. te_attempt_id e = av_attempt_id a \<and> te_episode_id e = av_episode_id a \<and> p < te_sequence e) \<and>
     sorted_wrt (<) (map te_sequence es)"
proof (induction es arbitrary: p)
  case Nil
  then show ?case by simp
next
  case (Cons e es)
  show ?case
    by (auto simp: Cons.IH)
qed

lemma certification_cases_all: "set certification_cases = UNIV" "distinct certification_cases"
  using certification_case_kind.exhaust by (auto simp: certification_cases_def)

text \<open>
  A trace is accepted exactly when every event belongs to the attempt and its episode and the
  sequence numbers are nonnegative and strictly increasing; acceptance returns the trace unchanged.
\<close>

theorem validate_events_exact:
  "validate_events_for_attempt events attempt = Inr out \<longleftrightarrow>
     out = events \<and>
     (\<forall>e \<in> set events. te_attempt_id e = av_attempt_id attempt \<and> te_episode_id e = av_episode_id attempt \<and>
        0 \<le> te_sequence e) \<and>
     sorted_wrt (<) (map te_sequence events)"
proof -
  have "(- 1 < n) = (0 \<le> n)" for n :: int by arith
  then show ?thesis
    using validate_events_from_Inr [of "- 1" events attempt]
    by (auto simp: validate_events_for_attempt_def bind_r_eq_Inr_iff)
qed

definition example_trace :: "int list \<Rightarrow> trace_event list" where
  "example_trace ns = map (\<lambda>n. \<lparr>te_trace_id = ''t'', te_episode_id = av_episode_id example_envelope,
     te_attempt_id = av_attempt_id example_envelope, te_sequence = n, te_actor = Actor_model,
     te_event_type = Ev_response, te_timestamp = 0, te_monotonic_time = 0, te_payload = [],
     te_payload_hash = ''h''\<rparr>) ns"

theorem validate_events_exact_witness:
  "validate_events_for_attempt (example_trace [0, 2, 5]) example_envelope = Inr (example_trace [0, 2, 5]) \<and>
   validate_events_for_attempt (example_trace [0, 2, 2]) example_envelope \<noteq> Inr (example_trace [0, 2, 2])"
  unfolding validate_events_exact by (simp add: example_trace_def)

text \<open>
  A certification report is accepted exactly when it has one result for each of the nine cases,
  in any order, and its verdict is the conjunction of their results; so a report that claims to have
  passed has nine passed cases.
\<close>

theorem certification_complete:
  "bind_complete_case_set_and_verdict r = Inr s \<longleftrightarrow>
     s = r \<and> mset (map cc_case (ct_cases r)) = mset certification_cases \<and>
     (ct_passed r \<longleftrightarrow> (\<forall>c \<in> set (ct_cases r). cc_passed c))"
proof -
  have "(length (map cc_case (ct_cases r)) = length certification_cases \<and>
      set (map cc_case (ct_cases r)) = set certification_cases) \<longleftrightarrow>
    mset (map cc_case (ct_cases r)) = mset certification_cases" (is "?l \<longleftrightarrow> ?r")
  proof
    assume l: ?l
    then have "card (set (map cc_case (ct_cases r))) = length (map cc_case (ct_cases r))"
      using certification_cases_all(2) by (simp add: distinct_card)
    then have "distinct (map cc_case (ct_cases r))" by (rule card_distinct)
    with l show ?r
      using certification_cases_all(2) set_eq_iff_mset_eq_distinct by blast
  next
    assume ?r
    then show ?l by (metis mset_eq_length mset_eq_setD)
  qed
  then show ?thesis
    by (auto simp: bind_complete_case_set_and_verdict_def Let_def list_all_iff)
qed

definition example_report :: certification_report where
  "example_report = \<lparr>ct_adapter_id = ''a'', ct_adapter_digest = ''d'', ct_certified_at = 0, ct_passed = True,
     ct_cases = map (\<lambda>k. \<lparr>cc_case = k, cc_passed = True, cc_detail = ''ok''\<rparr>) (rev certification_cases)\<rparr>"

theorem certification_complete_witness:
  "bind_complete_case_set_and_verdict example_report = Inr example_report"
  unfolding certification_complete by (simp add: example_report_def comp_def)

text \<open>
  A completed result that passes its validator binds its response: exactly one of its artifacts
  has the response artifact id, that artifact carries the response hash and can be fetched, and no
  failure is declared.
\<close>

theorem completed_result_bound:
  assumes "bind_response_artifact r = Inr s" and "rb_terminal_outcome r = Out_completed"
  shows "s = r \<and> rb_failure_classification r = None \<and>
    (\<exists>a d. rb_response_hash r = Some d \<and> rb_response_artifact_id r = Some (rf_artifact_id a) \<and> rf_sha256 a = d \<and>
       filter (\<lambda>b. rf_artifact_id b = rf_artifact_id a) (rb_artifacts r) = [a] \<and>
       (rf_content a \<noteq> None \<or> rf_uri a \<noteq> None))"
proof -
  from assms have v: "validate_response_artifact_contract r = Inr r" "s = r" "rb_failure_classification r = None"
    by (auto simp: bind_response_artifact_def bind_r_eq_Inr_iff validate_response_artifact_contract_def
        split: option.splits list.splits)
  from v(1) assms(2) obtain i d a where a: "rb_response_artifact_id r = Some i" "rb_response_hash r = Some d"
      "filter (\<lambda>b. rf_artifact_id b = i) (rb_artifacts r) = [a]" "rf_sha256 a = d"
      "rf_content a \<noteq> None \<or> rf_uri a \<noteq> None"
    by (auto simp: validate_response_artifact_contract_def split: option.splits list.splits)
  have "a \<in> set (filter (\<lambda>b. rf_artifact_id b = i) (rb_artifacts r))" by (simp add: a(3))
  then have "rf_artifact_id a = i" by simp
  with a v show ?thesis by blast
qed

definition example_result :: result_bundle where
  "example_result = \<lparr>rb_attempt_id = ''a1'', rb_terminal_outcome = Out_completed, rb_completed_at = 5,
     rb_response_hash = Some (replicate 64 (CHR ''a'')), rb_response_artifact_id = Some ''out'',
     rb_usage = None, rb_artifacts = [example_ref], rb_detail = None, rb_failure_classification = None\<rparr>"

theorem completed_result_bound_witness:
  "bind_response_artifact example_result = Inr example_result \<and> rb_failure_classification example_result = None"
proof -
  have "bind_response_artifact example_result = Inr example_result" "rb_terminal_outcome example_result = Out_completed"
    by (simp_all add: bind_response_artifact_def validate_response_artifact_contract_def example_result_def example_ref_def)
  with completed_result_bound [OF this] show ?thesis by simp
qed

end
