(* ===== verification/Experiment_Spec.thy ===== *)
theory Experiment_Spec
  imports Attempt_Input
begin

text \<open>
  The declaration of an experiment: \<open>FactorSpec\<close>, \<open>HarnessSpec\<close>, \<open>ExperimentSpec\<close> and the models they
  hold (\<open>src/backend/protocol_v1/models.py\<close>), with the validators of factors and experiments.

  A record has the fields that some code reads, and for the two models that are hashed or stored whole
  the JSON dump. Patterns and ranges of single fields are the parser's, as are the validators of
  extensions and of harnesses. A level of a factor is a string, an integer or a boolean; Python compares a
  boolean with an integer as numbers, which \<open>level_norm\<close> makes explicit.
\<close>

section \<open>Levels\<close>

datatype level = LStr string | LInt int | LBool bool

fun level_json :: "level \<Rightarrow> json" where
  "level_json (LStr s) = JStr s"
| "level_json (LInt i) = JInt i"
| "level_json (LBool b) = JBool b"

fun level_norm :: "level \<Rightarrow> level" where
  "level_norm (LBool b) = LInt (if b then 1 else 0)"
| "level_norm l = l"

definition level_eq :: "level \<Rightarrow> level \<Rightarrow> bool" where
  "level_eq a b \<longleftrightarrow> level_norm a = level_norm b"

lemma level_eq_py: "level_eq a b \<longleftrightarrow> py_eq (level_json a) (level_json b)"
  by (cases a; cases b) (auto simp: level_eq_def py_eq_def)

text \<open>The set of a collection of levels, as Python builds it.\<close>

definition level_set :: "level list \<Rightarrow> level set" where
  "level_set ls = set (map level_norm ls)"

definition unique_levels :: "level list \<Rightarrow> bool" where
  "unique_levels ls \<longleftrightarrow> distinct (map level_norm ls)"

fun is_LInt :: "level \<Rightarrow> bool" where
  "is_LInt (LInt _) = True"
| "is_LInt _ = False"

fun is_LBool :: "level \<Rightarrow> bool" where
  "is_LBool (LBool _) = True"
| "is_LBool _ = False"

fun int_of_level :: "level \<Rightarrow> int" where
  "int_of_level (LInt i) = i"
| "int_of_level _ = 0"

type_synonym assignment = "(string \<times> level) list"

definition assignment_dump :: "assignment \<Rightarrow> dict" where
  "assignment_dump a = map (\<lambda>(i, v). (i, level_json v)) a"

section \<open>Factors\<close>

datatype factor_kind = Binary | Categorical | Ordinal

record treatment_mutation =
  tm_target :: string
  tm_level :: level

record manipulation_check =
  mc_factor_id :: string
  mc_expected_value :: level

record level_combination =
  lc_assignments :: assignment

record sham_treatment =
  st_levels :: "level list"

record factor_spec =
  fs_factor_id :: string
  fs_kind :: factor_kind
  fs_levels :: "level list"
  fs_baseline :: "level option"
  fs_treatment_mutations :: "treatment_mutation list"
  fs_manipulation_checks :: "manipulation_check list"
  fs_sham_treatment :: "sham_treatment option"
  fs_no_op_levels :: "level list"
  fs_incompatible_with :: "string list"
  fs_incompatible_level_combinations :: "level_combination list"

text \<open>Only validated factors are asked for their baseline; they have two levels at least.\<close>

definition baseline_value :: "factor_spec \<Rightarrow> level" where
  "baseline_value f = (case fs_baseline f of None \<Rightarrow> hd (fs_levels f) | Some b \<Rightarrow> b)"

definition validate_levels :: "factor_spec \<Rightarrow> factor_spec result" where
  "validate_levels f =
     (let mutation_levels = level_set (map tm_level (fs_treatment_mutations f));
          no_op_levels = level_set (fs_no_op_levels f) \<union>
            (case fs_sham_treatment f of None \<Rightarrow> {} | Some s \<Rightarrow> level_set (st_levels s));
          levels = level_set (fs_levels f)
      in
     bind_r (raise_if (length (fs_levels f) < 2 \<or> \<not> unique_levels (fs_levels f))
       (ValueError ''factors require at least two unique levels'')) (\<lambda>_.
     bind_r (raise_if (fs_kind f = Binary \<and> (length (fs_levels f) \<noteq> 2 \<or> \<not> list_all is_LBool (fs_levels f) \<or>
         levels \<noteq> level_set [LBool False, LBool True]))
       (ValueError ''binary factor levels must be false and true'')) (\<lambda>_.
     bind_r (raise_if (fs_kind f = Ordinal \<and> \<not> list_all is_LInt (fs_levels f))
       (ValueError ''ordinal factor levels must be integers'')) (\<lambda>_.
     bind_r (raise_if (fs_kind f = Ordinal \<and>
         sort (map int_of_level (fs_levels f)) \<noteq> map int_of_level (fs_levels f))
       (ValueError ''ordinal factor levels must be ascending'')) (\<lambda>_.
     bind_r (raise_if (case fs_baseline f of None \<Rightarrow> False | Some b \<Rightarrow> level_norm b \<notin> levels)
       (ValueError ''factor baseline must be a declared level'')) (\<lambda>_.
     bind_r (raise_if (\<not> mutation_levels \<subseteq> levels)
       (ValueError ''treatment mutation level must be a declared factor level'')) (\<lambda>_.
     bind_r (raise_if (\<not> no_op_levels \<subseteq> levels)
       (ValueError ''no-op or sham levels must be declared factor levels'')) (\<lambda>_.
     bind_r (raise_if (levels - {level_norm (baseline_value f)} - mutation_levels - no_op_levels \<noteq> {})
       (ValueError ''every non-baseline factor level requires a mutation, no-op, or sham declaration'')) (\<lambda>_.
     bind_r (raise_if (fs_factor_id f \<in> set (fs_incompatible_with f))
       (ValueError ''a factor cannot be incompatible with itself'')) (\<lambda>_.
     bind_r (raise_if (list_ex (\<lambda>c. fs_factor_id f \<notin> set (map fst (lc_assignments c)))
         (fs_incompatible_level_combinations f))
       (ValueError ''incompatible level combinations must include this factor'')) (\<lambda>_.
     Inr f)))))))))))"

section \<open>Harnesses\<close>

datatype claim_eligibility = Fixture_only | Protocol_only | Live_provider | Externally_validated

record harness_spec =
  hs_adapter_identity :: "string option"
  hs_adapter_digest :: "string option"
  hs_timeout_seconds :: int
  hs_configuration :: dict
  hs_effective_configuration_hash :: "string option"
  hs_checkpoint :: bool
  hs_claim_eligibility :: claim_eligibility
  hs_dump :: dict

section \<open>Experiments\<close>

datatype design = Full | Fractional | Custom

datatype block_unit = By_scenario | By_model | By_harness | By_cluster

datatype approval = Pending | Approved | Rejected

record custom_treatment =
  ct_treatment_id :: "string option"
  ct_assignments :: assignment

record model_endpoint =
  me_endpoint_id :: string
  me_provider :: string
  me_model :: string
  me_endpoint_digest :: "string option"

record sampling_spec =
  sp_temperature :: rat
  sp_top_p :: rat
  sp_max_tokens :: int

record randomization_block =
  rk_block_id :: string
  rk_unit :: block_unit
  rk_values :: "string list"

record stopping_rule =
  sr_rule_id :: string

record aggregate_budget_spec =
  ag_max_total_cost_usd :: rat
  ag_max_total_tokens :: int
  ag_max_total_tool_calls :: int
  ag_max_wall_time_seconds :: rat
  ag_max_attempts :: int

record outcome_interaction =
  oi_factor_ids :: "string list"

record experiment_spec =
  xs_experiment_id :: string
  xs_study_pack_hash :: "string option"
  xs_scenario_ids :: "string list"
  xs_harness_ids :: "string list"
  xs_model_endpoints :: "model_endpoint list"
  xs_sampling :: sampling_spec
  xs_repetitions :: nat
  xs_randomization_blocks :: "randomization_block list"
  xs_randomization_seed :: nat
  xs_stopping_rules :: "stopping_rule list"
  xs_budgets :: "budget_spec option"
  xs_aggregate_budget :: "aggregate_budget_spec option"
  xs_factors :: "factor_spec list"
  xs_design :: design
  xs_custom_design :: "custom_treatment list"
  xs_manipulation_checks :: "manipulation_check list"
  xs_primary_outcomes :: "string list"
  xs_interactions :: "outcome_interaction list"
  xs_claim_bearing :: bool
  xs_owner_approval :: approval
  xs_predecessor_experiment_id :: "string option"
  xs_frozen :: bool
  xs_freeze_hash :: "string option"
  xs_frozen_at :: "datetime option"
  xs_extensions :: dict
  xs_dump :: dict

definition factor_ids :: "experiment_spec \<Rightarrow> string list" where
  "factor_ids spec = map fs_factor_id (xs_factors spec)"

text \<open>The set \<open>level_by_factor[factor_id]\<close>; the code only looks up identifiers it has checked.\<close>

definition level_by_factor :: "experiment_spec \<Rightarrow> string \<Rightarrow> level set" where
  "level_by_factor spec i =
     (case map_of (rev (map (\<lambda>f. (fs_factor_id f, level_set (fs_levels f))) (xs_factors spec))) i of
        None \<Rightarrow> {} | Some ls \<Rightarrow> ls)"

definition all_checks :: "experiment_spec \<Rightarrow> manipulation_check list" where
  "all_checks spec = xs_manipulation_checks spec @ concat (map fs_manipulation_checks (xs_factors spec))"

definition check_ids_unique :: "experiment_spec \<Rightarrow> unit result" where
  "check_ids_unique spec =
     for_each (\<lambda>(ids, label) _. raise_if (\<not> distinct ids) (ValueError (label @ '' ids must be unique'')))
       [(xs_scenario_ids spec, ''scenario''), (xs_harness_ids spec, ''harness''),
        (map me_endpoint_id (xs_model_endpoints spec), ''model endpoint''),
        (map rk_block_id (xs_randomization_blocks spec), ''randomization block''),
        (map sr_rule_id (xs_stopping_rules spec), ''stopping rule'')] ()"

text \<open>The loop over the rows of a custom design carries the assignment keys seen so far.\<close>

definition assignment_key :: "assignment \<Rightarrow> (string \<times> level) list" where
  "assignment_key a = sort_key fst (map (\<lambda>(i, v). (i, level_norm v)) a)"

definition check_custom_row ::
  "experiment_spec \<Rightarrow> custom_treatment \<Rightarrow> (string \<times> level) list list \<Rightarrow> (string \<times> level) list list result" where
  "check_custom_row spec row keys =
     bind_r (raise_if (set (map fst (ct_assignments row)) \<noteq> set (factor_ids spec))
       (ValueError ''custom design rows must assign every factor exactly once'')) (\<lambda>_.
     bind_r (raise_if (list_ex (\<lambda>(i, v). level_norm v \<notin> level_by_factor spec i) (ct_assignments row))
       (ValueError ''custom design row uses an undeclared factor level'')) (\<lambda>_.
     bind_r (raise_if (assignment_key (ct_assignments row) \<in> set keys)
       (ValueError ''custom design assignments must be unique'')) (\<lambda>_.
     Inr (assignment_key (ct_assignments row) # keys))))"

definition check_custom_design :: "experiment_spec \<Rightarrow> unit result" where
  "check_custom_design spec =
     (let treatment_ids = map ct_treatment_id (xs_custom_design spec) in
     bind_r (raise_if (xs_design spec = Custom \<and> xs_custom_design spec = [])
       (ValueError ''custom designs require custom_design'')) (\<lambda>_.
     bind_r (raise_if (xs_design spec \<noteq> Custom \<and> xs_custom_design spec \<noteq> [])
       (ValueError ''custom_design is only valid for custom designs'')) (\<lambda>_.
     if xs_design spec \<noteq> Custom then Inr ()
     else
       bind_r (raise_if (None \<in> set treatment_ids)
         (ValueError ''custom design rows require treatment_id'')) (\<lambda>_.
       bind_r (raise_if (\<not> distinct treatment_ids)
         (ValueError ''custom design treatment ids must be unique'')) (\<lambda>_.
       bind_r (for_each (check_custom_row spec) (xs_custom_design spec) []) (\<lambda>_. Inr ()))))))"

definition check_combinations :: "experiment_spec \<Rightarrow> unit result" where
  "check_combinations spec =
     for_each (\<lambda>f. for_each (\<lambda>c _.
         bind_r (raise_if (\<not> set (map fst (lc_assignments c)) \<subseteq> set (factor_ids spec))
           (ValueError ''incompatible level combination references unknown factor'')) (\<lambda>_.
         raise_if (list_ex (\<lambda>(i, v). level_norm v \<notin> level_by_factor spec i) (lc_assignments c))
           (ValueError ''incompatible level combination uses undeclared level'')))
       (fs_incompatible_level_combinations f)) (xs_factors spec) ()"

definition validate_experiment :: "experiment_spec \<Rightarrow> experiment_spec result" where
  "validate_experiment spec =
     (let ids = factor_ids spec; check_ids = set (map mc_factor_id (all_checks spec)) in
     bind_r (raise_if (xs_scenario_ids spec = [] \<or> xs_harness_ids spec = [])
       (ValueError ''experiments require scenarios and harnesses'')) (\<lambda>_.
     bind_r (raise_if (xs_predecessor_experiment_id spec = Some (xs_experiment_id spec))
       (ValueError ''an experiment cannot be its own predecessor'')) (\<lambda>_.
     bind_r (check_ids_unique spec) (\<lambda>_.
     bind_r (raise_if (\<not> distinct ids) (ValueError ''factor ids must be unique'')) (\<lambda>_.
     bind_r (raise_if (\<not> set (concat (map fs_incompatible_with (xs_factors spec))) \<subseteq> set ids)
       (ValueError ''factor incompatibility references unknown factors'')) (\<lambda>_.
     bind_r (raise_if (\<not> check_ids \<subseteq> set ids)
       (ValueError ''manipulation checks must reference declared factors'')) (\<lambda>_.
     bind_r (raise_if (list_ex (\<lambda>c. level_norm (mc_expected_value c) \<notin> level_by_factor spec (mc_factor_id c))
         (all_checks spec))
       (ValueError ''manipulation check expected_value must be a factor level'')) (\<lambda>_.
     bind_r (raise_if (xs_factors spec \<noteq> [] \<and> check_ids \<noteq> set ids)
       (ValueError ''every varied factor requires a manipulation check'')) (\<lambda>_.
     bind_r (check_combinations spec) (\<lambda>_.
     bind_r (raise_if (list_ex (\<lambda>i. \<not> set (oi_factor_ids i) \<subseteq> set ids) (xs_interactions spec))
       (ValueError ''interactions must reference declared factors'')) (\<lambda>_.
     bind_r (check_custom_design spec) (\<lambda>_.
     bind_r (raise_if (case xs_budgets spec of None \<Rightarrow> False
         | Some b \<Rightarrow> sp_max_tokens (xs_sampling spec) > bs_max_tokens b)
       (ValueError ''sampling max_tokens cannot exceed the attempt token budget'')) (\<lambda>_.
     bind_r (raise_if (xs_frozen spec \<and> xs_claim_bearing spec \<and> xs_primary_outcomes spec = [])
       (ValueError ''claim-bearing frozen experiments require primary outcomes'')) (\<lambda>_.
     bind_r (raise_if (xs_frozen spec \<and> xs_claim_bearing spec \<and>
         list_ex (\<lambda>e. me_endpoint_digest e = None) (xs_model_endpoints spec))
       (ValueError ''claim-bearing frozen experiments require pinned model endpoint digests'')) (\<lambda>_.
     bind_r (raise_if (xs_frozen spec \<noteq>
         (xs_freeze_hash spec \<noteq> None \<and> xs_frozen_at spec \<noteq> None \<and> xs_study_pack_hash spec \<noteq> None))
       (ValueError ''frozen experiments require freeze_hash, frozen_at, and study_pack_hash'')) (\<lambda>_.
     Inr spec))))))))))))))))"

text \<open>A validated experiment: its factors have passed their own validator before.\<close>

definition valid_experiment :: "experiment_spec \<Rightarrow> bool" where
  "valid_experiment spec \<longleftrightarrow>
     list_all (\<lambda>f. validate_levels f = Inr f) (xs_factors spec) \<and> validate_experiment spec = Inr spec"

section \<open>What validation guarantees\<close>

lemma for_each_raise_if:
  "for_each (\<lambda>x _. raise_if (P x) (e x)) xs u = Inr v \<longleftrightarrow> (\<forall>x \<in> set xs. \<not> P x)"
  by (induction xs arbitrary: u) (auto simp: bind_r_eq_Inr_iff)

lemma valid_factor:
  assumes "validate_levels f = Inr f"
  shows "2 \<le> length (fs_levels f)" "unique_levels (fs_levels f)"
    "level_norm (baseline_value f) \<in> level_set (fs_levels f)"
    "fs_kind f = Binary \<Longrightarrow> length (fs_levels f) = 2"
proof -
  show two: "2 \<le> length (fs_levels f)" "unique_levels (fs_levels f)"
    "fs_kind f = Binary \<Longrightarrow> length (fs_levels f) = 2"
    using assms by (auto simp: validate_levels_def Let_def)
  have "fs_levels f \<noteq> []" using two(1) by auto
  then show "level_norm (baseline_value f) \<in> level_set (fs_levels f)"
    using assms by (auto simp: validate_levels_def Let_def baseline_value_def level_set_def split: option.splits)
qed

lemma valid_experimentD:
  assumes "valid_experiment spec"
  shows "f \<in> set (xs_factors spec) \<Longrightarrow> validate_levels f = Inr f"
    and "distinct (factor_ids spec)" and "distinct (xs_scenario_ids spec)" and "distinct (xs_harness_ids spec)"
    and "distinct (map me_endpoint_id (xs_model_endpoints spec))"
    and "f \<in> set (xs_factors spec) \<Longrightarrow> set (fs_incompatible_with f) \<subseteq> set (factor_ids spec)"
    and "check_combinations spec = Inr ()" and "check_custom_design spec = Inr ()"
    and "xs_scenario_ids spec \<noteq> []" and "xs_harness_ids spec \<noteq> []"
  using assms
  by (auto simp: valid_experiment_def validate_experiment_def Let_def bind_r_eq_Inr_iff list_all_iff check_ids_unique_def
      for_each_raise_if)

lemma valid_combination:
  assumes "valid_experiment spec" and "f \<in> set (xs_factors spec)"
    and "c \<in> set (fs_incompatible_level_combinations f)"
  shows "set (map fst (lc_assignments c)) \<subseteq> set (factor_ids spec)"
  using valid_experimentD(7) [OF assms(1)] assms(2,3)
  by (auto simp: check_combinations_def for_each_unit_iff)

end
