(* ===== verification/Worker.thy ===== *)
theory Worker
  imports Arena_System Pricing Adapter_Results Experiment_Spec
begin

text \<open>
  The durable worker: \<open>DurableWorker\<close> of \<open>src/backend/execution_v1/_worker_kernel.py\<close>.

  A run of the worker threads a state: the database, the artifact store and registry, and the local
  variables of \<open>run_lease\<close> that its exception handlers read. A step returns its value or exception and
  the state it leaves, so a raised exception keeps what was written before it. What is outside the
  worker is a parameter: the hooks and parsers in \<open>worker_env\<close>, the clock readings (\<open>we_clock\<close>, one
  per place of the code that reads the clock), and in \<open>adapter_calls\<close> the calls of the adapter, each
  of which may change the whole state, since other processes run meanwhile. The three tasks that
  \<open>_execute_supervised\<close> runs concurrently are interleaved by an explicit schedule.
\<close>

section \<open>Steps\<close>

record attempt_evidence =
  ae_input_artifact_digest :: "string option"
  ae_output_artifact_digest :: "string option"
  ae_trace_artifact_digest :: "string option"
  ae_trace_complete :: bool
  ae_trace_events :: "trace_event list"

record 's run =
  rn_db :: arena_db
  rn_store :: 's
  rn_artifacts :: "artifact_row list"
  rn_adapter :: bool
  rn_prepared :: bool
  rn_reservation :: "string option"
  rn_result :: "result_bundle option"
  rn_evidence :: attempt_evidence
  rn_invocation :: "invocation_row option"

type_synonym ('s, 'a) step = "'s run \<Rightarrow> 'a result \<times> 's run"

definition return_s :: "'a \<Rightarrow> ('s, 'a) step" where
  "return_s a s = (Inr a, s)"

definition bind_s :: "('s, 'a) step \<Rightarrow> ('a \<Rightarrow> ('s, 'b) step) \<Rightarrow> ('s, 'b) step" where
  "bind_s m f s = (case m s of (Inl e, s') \<Rightarrow> (Inl e, s') | (Inr a, s') \<Rightarrow> f a s')"

definition lift_s :: "'a result \<Rightarrow> ('s, 'a) step" where
  "lift_s r s = (r, s)"

definition modify_s :: "('s run \<Rightarrow> 's run) \<Rightarrow> ('s, unit) step" where
  "modify_s f s = (Inr (), f s)"

text \<open>
  \<open>try ... except Exception\<close>: a cancelled task is not an \<open>Exception\<close>. \<open>attempt_s\<close> keeps the
  exception as the outcome of a task.
\<close>

definition try_s :: "('s, 'a) step \<Rightarrow> (py_error \<Rightarrow> ('s, 'a) step) \<Rightarrow> ('s, 'a) step" where
  "try_s m handler s =
     (case m s of
        (Inl e, s') \<Rightarrow> if e = CancelledError then (Inl e, s') else handler e s'
      | (Inr a, s') \<Rightarrow> (Inr a, s'))"

definition attempt_s :: "('s, 'a) step \<Rightarrow> ('s, 'a result) step" where
  "attempt_s m s = (case m s of (r, s') \<Rightarrow> (Inr r, s'))"

definition read_s :: "('s run \<Rightarrow> ('s, 'a) step) \<Rightarrow> ('s, 'a) step" where
  "read_s f s = f s s"

text \<open>A repository call: an operation that commits, or a transaction body.\<close>

definition db_op :: "(arena_db \<Rightarrow> 'a result \<times> arena_db) \<Rightarrow> ('s, 'a) step" where
  "db_op f s = (case f (rn_db s) of (r, db) \<Rightarrow> (r, s\<lparr>rn_db := db\<rparr>))"

definition tx_op :: "'a tx \<Rightarrow> ('s, 'a) step" where
  "tx_op body = db_op (transaction body)"

definition store_op ::
  "('s \<times> artifact_row list \<Rightarrow> 'a result \<times> 's \<times> artifact_row list) \<Rightarrow> ('s, 'a) step" where
  "store_op f s =
     (case f (rn_store s, rn_artifacts s) of (r, st, rows) \<Rightarrow> (r, s\<lparr>rn_store := st, rn_artifacts := rows\<rparr>))"

text \<open>\<open>type(exc).__name__\<close>\<close>

fun class_name :: "py_error \<Rightarrow> string" where
  "class_name (ValueError _) = ''ValueError''"
| "class_name (KeyError _) = ''KeyError''"
| "class_name (TypeError _) = ''TypeError''"
| "class_name (RuntimeError _) = ''RuntimeError''"
| "class_name (AttributeError _) = ''AttributeError''"
| "class_name IndexError = ''IndexError''"
| "class_name AssertionError = ''AssertionError''"
| "class_name (JSONDecodeError _) = ''JSONDecodeError''"
| "class_name (IntegrityError _) = ''IntegrityError''"
| "class_name MultipleResultsFound = ''MultipleResultsFound''"
| "class_name NoResultFound = ''NoResultFound''"
| "class_name (InvariantViolation _) = ''InvariantViolation''"
| "class_name (AggregateBudgetExceeded _) = ''AggregateBudgetExceeded''"
| "class_name (DuplicateProviderRequest _) = ''DuplicateProviderRequest''"
| "class_name (ImmutableVersionConflict _) = ''ImmutableVersionConflict''"
| "class_name (FrozenExperimentError _) = ''FrozenExperimentError''"
| "class_name (ArtifactIntegrityError _) = ''ArtifactIntegrityError''"
| "class_name (LookupError _) = ''LookupError''"
| "class_name UnicodeDecodeError = ''UnicodeDecodeError''"
| "class_name (ImmutableEvaluationConflict _) = ''ImmutableEvaluationConflict''"
| "class_name (EvaluationError _) = ''EvaluationError''"
| "class_name (RecipeCompilationError _) = ''RecipeCompilationError''"
| "class_name (FactorAdapterError _) = ''FactorAdapterError''"
| "class_name (FileNotFoundError _) = ''FileNotFoundError''"
| "class_name TimeoutError = ''TimeoutError''"
| "class_name LeaseLost = ''LeaseLost''"
| "class_name CancellationRequested = ''CancellationRequested''"
| "class_name UsageMismatch = ''UsageMismatch''"
| "class_name MissingUsageEvidence = ''MissingUsageEvidence''"
| "class_name PartialTrace = ''PartialTrace''"
| "class_name MissingOutputEvidence = ''MissingOutputEvidence''"
| "class_name CancelledError = ''CancelledError''"
| "class_name (AdapterError c) = c"

section \<open>Parameters\<close>

record oracle_decision =
  od_terminal_outcome :: string
  od_detail :: string
  od_evidence :: dict

text \<open>
  \<open>we_dump_event\<close> and \<open>we_dump_usage\<close> are pydantic's dumps, \<open>we_parse_event\<close> its revalidation of a streamed
  event; \<open>we_parse_int\<close> and \<open>we_parse_float\<close> are \<open>int\<close> and \<open>float\<close> of a string; \<open>we_has_oracle\<close> tells
  whether a scenario carries a final-state or state oracle.
\<close>

record 's worker_env =
  we_codec :: codec
  we_parse_harness :: "json \<Rightarrow> harness_spec result"
  we_parse_event :: "trace_event \<Rightarrow> trace_event result"
  we_dump_event :: "trace_event \<Rightarrow> dict"
  we_dump_usage :: "provider_usage \<Rightarrow> json"
  we_parse_int :: "string \<Rightarrow> int result"
  we_parse_float :: "string \<Rightarrow> rat result"
  we_canonical :: "json \<Rightarrow> string"
  we_put :: "string \<Rightarrow> 's \<Rightarrow> string result \<times> 's"
  we_get :: "string \<Rightarrow> 's \<Rightarrow> string result"
  we_uri :: "string \<Rightarrow> string"
  we_registry :: "string \<Rightarrow> string \<Rightarrow> unit result"
  we_fault_hook :: "scenario_spec \<Rightarrow> attempt_envelope \<Rightarrow> unit result"
  we_after_artifacts :: "result_bundle \<Rightarrow> unit result"
  we_price_resolver :: "(string \<Rightarrow> string \<Rightarrow> provider_usage \<Rightarrow> price_quote option result) option"
  we_has_oracle :: "scenario_spec \<Rightarrow> bool"
  we_state_oracle :: "(scenario_spec \<Rightarrow> attempt_envelope \<Rightarrow> result_bundle \<Rightarrow> oracle_decision result) option"
  we_terminalize_on_cancel :: bool
  we_ledger_id :: string
  we_reservation_id :: string
  we_clock :: "string \<Rightarrow> datetime"
  we_elapsed :: rat

record 's adapter_calls =
  ad_prepare :: "harness_spec \<Rightarrow> attempt_input \<Rightarrow> ('s, unit) step"
  ad_execute :: "('s, result_bundle) step"
  ad_collect :: "('s, artifact_ref list) step"
  ad_cleanup :: "('s, unit) step"
  ad_cancel :: "('s, unit) step"

section \<open>Checks on the input and the result\<close>

definition validate_scenario_binding :: "job_lease \<Rightarrow> attempt_input \<Rightarrow> arena_db \<Rightarrow> unit result" where
  "validate_scenario_binding lease input db =
     (case jl_attempt_id lease of
        None \<Rightarrow> Inl (ValueError ''attempt job lease is missing attempt_id'')
      | Some attempt_id \<Rightarrow>
          (case first (concat (map (\<lambda>t. map (\<lambda>p. (t, p)) (filter (\<lambda>p. ep_id p = at_episode_id t) (db_episodes db)))
                  (filter (\<lambda>t. at_id t = attempt_id) (db_attempts db)))) of
             None \<Rightarrow> Inl (ValueError ''leased attempt is not persisted'')
           | Some (t, p) \<Rightarrow>
               bind_r (raise_if (av_episode_id (ai_attempt input) \<noteq> at_episode_id t)
                 (ValueError ''attempt input episode_id does not match persisted attempt'')) (\<lambda>_.
               bind_r (raise_if (ep_execution_id p \<noteq> jl_execution_id lease)
                 (ValueError ''leased attempt does not belong to the leased execution'')) (\<lambda>_.
               raise_if (ep_scenario_id p \<noteq> Some (sc_scenario_id (ai_scenario input)))
                 (ValueError ''attempt input scenario_id does not match persisted episode'')))))"

definition enforce_usage :: "result_bundle \<Rightarrow> attempt_envelope \<Rightarrow> claim_eligibility \<Rightarrow> bool \<Rightarrow> unit result" where
  "enforce_usage result envelope eligibility require_complete =
     (case rb_usage result of
        None \<Rightarrow> raise_if require_complete MissingUsageEvidence
      | Some usage \<Rightarrow>
          bind_r (raise_if (require_complete \<and> eligibility \<noteq> Fixture_only \<and>
              (pu_evidence_source usage \<noteq> Provider_reported \<or> \<not> complete_evidence usage))
            MissingUsageEvidence) (\<lambda>_.
          bind_r (raise_if (require_complete \<and> eligibility = Fixture_only \<and>
              (pu_total_tokens usage = None \<or> pu_context_tokens usage = None \<or> pu_tool_calls usage = None))
            MissingUsageEvidence) (\<lambda>_.
          bind_r (raise_if (pu_total_tokens usage \<noteq> None \<and>
              (pu_input_tokens usage = None) \<noteq> (pu_output_tokens usage = None)) UsageMismatch) (\<lambda>_.
          bind_r (raise_if (\<not> opt_all (\<lambda>n. n \<le> bs_max_tokens (av_budget envelope)) (pu_total_tokens usage))
            UsageMismatch) (\<lambda>_.
          bind_r (raise_if (\<not> opt_all (\<lambda>n. n \<le> bs_max_context_tokens (av_budget envelope)) (pu_context_tokens usage))
            UsageMismatch) (\<lambda>_.
          bind_r (raise_if (\<not> opt_all (\<lambda>n. n \<le> bs_max_tool_calls (av_budget envelope)) (pu_tool_calls usage))
            UsageMismatch) (\<lambda>_.
          raise_if (require_complete \<and> eligibility \<noteq> Fixture_only \<and>
              (pu_observed_provider_version usage = None \<or> pu_observed_endpoint_digest usage = None \<or>
               av_pinned_endpoint_digest envelope \<noteq> None \<and>
                 pu_observed_endpoint_digest usage \<noteq> av_pinned_endpoint_digest envelope))
            MissingUsageEvidence)))))))"

definition validate_result_lifecycle :: "result_bundle \<Rightarrow> attempt_envelope \<Rightarrow> unit result" where
  "validate_result_lifecycle result envelope =
     (case av_started_at envelope of
        None \<Rightarrow> Inl (ValueError ''started envelope is required before result terminalization'')
      | Some started_at \<Rightarrow>
          bind_r (raise_if (rb_completed_at result < started_at)
            (ValueError ''result completed_at precedes attempt start'')) (\<lambda>_.
          bind_r (raise_if (rb_attempt_id result \<noteq> av_attempt_id envelope)
            (ValueError ''result attempt_id does not match attempt envelope'')) (\<lambda>_.
          raise_if (av_response_hash envelope \<noteq> None \<and> rb_response_hash result \<noteq> av_response_hash envelope)
            (ValueError ''result response_hash does not match attempt envelope''))))"

fun outcome_name :: "terminal_outcome \<Rightarrow> string" where
  "outcome_name Out_completed = ''completed''"
| "outcome_name Out_failed = ''failed''"
| "outcome_name Out_timed_out = ''timed_out''"
| "outcome_name Out_cancelled = ''cancelled''"
| "outcome_name Out_incomplete = ''incomplete''"

fun outcome_envelope_status :: "terminal_outcome \<Rightarrow> envelope_status" where
  "outcome_envelope_status Out_completed = Env_completed"
| "outcome_envelope_status Out_failed = Env_failed"
| "outcome_envelope_status Out_timed_out = Env_timed_out"
| "outcome_envelope_status Out_cancelled = Env_cancelled"
| "outcome_envelope_status Out_incomplete = Env_incomplete"

definition worker_terminal_envelope :: "attempt_envelope \<Rightarrow> result_bundle \<Rightarrow> terminal_outcome \<Rightarrow> json" where
  "worker_terminal_envelope envelope result status =
     envelope_dump (envelope
       \<lparr>av_status := outcome_envelope_status status, av_completed_at := Some (rb_completed_at result),
        av_response_hash := rb_response_hash result,
        av_observed_provider_version := (case rb_usage result of None \<Rightarrow> None | Some u \<Rightarrow> pu_observed_provider_version u),
        av_observed_endpoint_digest := (case rb_usage result of None \<Rightarrow> None | Some u \<Rightarrow> pu_observed_endpoint_digest u)\<rparr>)"

section \<open>Manipulation fidelity\<close>

definition fidelity_events :: "trace_event list \<Rightarrow> trace_event list" where
  "fidelity_events events =
     filter (\<lambda>e. dict_get (te_payload e) ''event'' = Some (JStr ''factor_fidelity'')) events"

text \<open>\<open>by_factor.setdefault(factor_id, []).append(entry)\<close>, over the entries with a string factor id.\<close>

fun by_factor :: "trace_event list \<Rightarrow> (string \<times> trace_event list) list" where
  "by_factor [] = []"
| "by_factor (e # es) =
     (case dict_get (te_payload e) ''factor_id'' of
        Some (JStr f) \<Rightarrow>
          AList.update f (e # (case map_of (by_factor es) f of None \<Rightarrow> [] | Some l \<Rightarrow> l)) (by_factor es)
      | _ \<Rightarrow> by_factor es)"

definition entry_passed :: "trace_event \<Rightarrow> bool" where
  "entry_passed e \<longleftrightarrow> dict_get (te_payload e) ''passed'' = Some (JBool True) \<and>
     dict_get (te_payload e) ''compute_context_matched'' = Some (JBool True)"

definition manipulation_evidence :: "attempt_envelope \<Rightarrow> trace_event list \<Rightarrow> bool \<times> string option" where
  "manipulation_evidence envelope events =
     (let bound = map fst (av_factor_assignments envelope);
          fidelity = fidelity_events events;
          factors = by_factor fidelity;
          malformed = list_ex (\<lambda>e. case dict_get (te_payload e) ''factor_id'' of Some (JStr _) \<Rightarrow> False | _ \<Rightarrow> True) fidelity
      in if bound = [] then (True, None)
         else if malformed \<or> set (map fst factors) \<noteq> set bound
         then (False, Some ''factor_fidelity_keys_do_not_match_bound_factor_assignments'')
         else if list_ex (\<lambda>(_, entries). length entries \<noteq> 1) factors
         then (False, Some ''factor_fidelity_duplicate_or_ambiguous'')
         else if list_ex (\<lambda>(_, entries). list_ex (\<lambda>e. \<not> entry_passed e) entries) factors
         then (False, Some ''factor_fidelity_failed'')
         else (True, None))"

section \<open>Artifacts and the oracle\<close>

definition persist_generated ::
  "'s worker_env \<Rightarrow> json \<Rightarrow> string \<Rightarrow> dict \<Rightarrow> ('s, string) step" where
  "persist_generated env content media_type metadata =
     store_op (persist_generated_artifact (we_put env) (we_get env) (we_uri env) (we_canonical env content) media_type metadata)"

definition persist_trace :: "'s worker_env \<Rightarrow> trace_event list \<Rightarrow> ('s, string) step" where
  "persist_trace env events =
     persist_generated env (JArr (map (\<lambda>e. JObj (we_dump_event env e)) events))
       ''application/vnd.scaffold-arena.trace+json'' [(''artifact_role'', JStr ''trace'')]"

definition persist_refs ::
  "'s worker_env \<Rightarrow> artifact_ref list \<Rightarrow> ('s, string list \<times> (string \<times> string) list) step" where
  "persist_refs env refs = store_op (persist_artifacts (we_put env) (we_get env) (we_uri env) refs)"

definition derive_manipulation_evidence ::
  "'s worker_env \<Rightarrow> attempt_envelope \<Rightarrow> trace_event list \<Rightarrow> ('s, bool \<times> string \<times> string option) step" where
  "derive_manipulation_evidence env envelope trace_events =
     (case manipulation_evidence envelope trace_events of
        (passed, detail) \<Rightarrow>
          bind_s (persist_generated env
            (JObj [(''attempt_id'', JStr (av_attempt_id envelope)),
                   (''factor_assignments'', JObj (av_factor_assignments envelope)),
                   (''fidelity'', JArr (map (\<lambda>e. JObj [(''sequence'', JInt (te_sequence e)), (''payload'', JObj (te_payload e))])
                      (fidelity_events trace_events))),
                   (''manipulation_pass'', JBool passed), (''detail'', opt_json JStr detail)])
            ''application/vnd.scaffold-arena.manipulation-fidelity+json''
            [(''artifact_role'', JStr ''manipulation_fidelity''), (''attempt_id'', JStr (av_attempt_id envelope))])
          (\<lambda>digest. return_s (passed, digest, detail)))"

definition resolve_output_artifact ::
  "'s worker_env \<Rightarrow> result_bundle \<Rightarrow> (string \<times> string) list \<Rightarrow> 's \<Rightarrow> string option result" where
  "resolve_output_artifact env result artifact_ids store =
     (if rb_response_hash result = None \<and> rb_response_artifact_id result = None \<and>
         rb_terminal_outcome result \<noteq> Out_completed then Inr None
      else
        (case (rb_response_artifact_id result, rb_response_hash result) of
           (Some artifact_id, Some response_hash) \<Rightarrow>
             if map_of artifact_ids artifact_id \<noteq> Some response_hash then Inl MissingOutputEvidence
             else bind_r (we_get env response_hash store) (\<lambda>_. Inr (Some response_hash))
         | _ \<Rightarrow> Inl MissingOutputEvidence))"

definition decide ::
  "'s worker_env \<Rightarrow> scenario_spec \<Rightarrow> attempt_envelope \<Rightarrow> result_bundle \<Rightarrow> oracle_decision option result" where
  "decide env scenario envelope result =
     (case we_state_oracle env of
        None \<Rightarrow> Inr None
      | Some evaluate \<Rightarrow>
          if \<not> we_has_oracle env scenario then Inr None
          else
            bind_r (evaluate scenario envelope result) (\<lambda>decision.
            bind_r (raise_if (od_terminal_outcome decision \<notin>
                {''completed'', ''failed'', ''timed_out'', ''cancelled'', ''incomplete''})
              (ValueError ''state oracle returned an invalid terminal outcome'')) (\<lambda>_.
            if rb_terminal_outcome result \<noteq> Out_completed \<and> od_terminal_outcome decision = ''completed''
            then if dict_get (od_evidence decision) ''authoritative_terminal_evidence'' \<noteq> Some (JBool True)
              then Inr (Some \<lparr>od_terminal_outcome = outcome_name (rb_terminal_outcome result),
                od_detail = ''state_oracle_upgrade_denied'',
                od_evidence = [(''limitation'', JStr
                  ''state_oracle_cannot_upgrade_noncompleted_adapter_result_without_authoritative_terminal_evidence'')]\<rparr>)
              else Inr (Some (decision\<lparr>od_evidence := dict_set ''limitation''
                (JStr ''adapter_noncompleted_outcome_authoritatively_overridden'') (od_evidence decision)\<rparr>))
            else Inr (Some decision))))"

end
