(* ===== verification/Worker_Run.thy ===== *)
theory Worker_Run
  imports Worker
begin

text \<open>
  The run of one lease by the kernel worker: \<open>run_lease\<close> of
  \<open>src/backend/execution_v1/_worker_kernel.py\<close> with everything it calls.

  \<open>execute_supervised\<close> interleaves its three tasks (the adapter's execution, the collector of streamed
  events and the lease supervisor) along a schedule that is an argument: what happens before the first
  wait returns, before the second one returns, and while the remaining tasks are cancelled. Between two
  awaits a task runs without interruption, so each entry of a schedule is one atomic chunk of a task,
  or a change made elsewhere.
\<close>

section \<open>Reservation\<close>

text \<open>\<open>int(x)\<close> and \<open>float(x)\<close> of a JSON value.\<close>

definition py_int :: "'s worker_env \<Rightarrow> json \<Rightarrow> int result" where
  "py_int env j =
     (case j of
        JInt n \<Rightarrow> Inr n
      | JBool b \<Rightarrow> Inr (if b then 1 else 0)
      | JNum q \<Rightarrow> Inr (if q < 0 then \<lceil>q\<rceil> else \<lfloor>q\<rfloor>)
      | JStr t \<Rightarrow> we_parse_int env t
      | JTime _ \<Rightarrow> Inl (ValueError ''invalid literal for int() with base 10'')
      | _ \<Rightarrow> Inl (TypeError ''int() argument must be a string or a real number''))"

definition py_float :: "'s worker_env \<Rightarrow> json \<Rightarrow> rat result" where
  "py_float env j =
     (case j of
        JInt n \<Rightarrow> Inr (of_int n)
      | JBool b \<Rightarrow> Inr (if b then 1 else 0)
      | JNum q \<Rightarrow> Inr q
      | JStr t \<Rightarrow> we_parse_float env t
      | JTime _ \<Rightarrow> Inl (ValueError ''could not convert string to float'')
      | _ \<Rightarrow> Inl (TypeError ''float() argument must be a string or a real number''))"

definition subscript :: "dict \<Rightarrow> string \<Rightarrow> json result" where
  "subscript d k = (case dict_get d k of None \<Rightarrow> Inl (KeyError k) | Some v \<Rightarrow> Inr v)"

definition read_aggregate :: "'s worker_env \<Rightarrow> json option \<Rightarrow> aggregate_limits result" where
  "read_aggregate env aggregate =
     (let no_limits = \<lparr>al_max_attempts = None, al_max_total_cost_usd = None, al_max_total_tokens = None,
            al_max_total_tool_calls = None\<rparr> in
      case aggregate of
        None \<Rightarrow> Inr no_limits
      | Some JNull \<Rightarrow> Inr no_limits
      | Some (JObj []) \<Rightarrow> Inr no_limits
      | Some (JObj d) \<Rightarrow>
          bind_r (bind_r (subscript d ''max_attempts'') (py_int env)) (\<lambda>max_attempts.
          bind_r (bind_r (subscript d ''max_total_cost_usd'') (py_float env)) (\<lambda>max_total_cost_usd.
          bind_r (bind_r (subscript d ''max_total_tokens'') (py_int env)) (\<lambda>max_total_tokens.
          bind_r (bind_r (subscript d ''max_total_tool_calls'') (py_int env)) (\<lambda>max_total_tool_calls.
          Inr \<lparr>al_max_attempts = Some max_attempts, al_max_total_cost_usd = Some max_total_cost_usd,
               al_max_total_tokens = Some max_total_tokens, al_max_total_tool_calls = Some max_total_tool_calls\<rparr>))))
      | Some _ \<Rightarrow> Inl (ValueError ''aggregate_budget job payload must be an object''))"

definition reserve_once :: "'s worker_env \<Rightarrow> job_lease \<Rightarrow> attempt_envelope \<Rightarrow> ('s, string) step" where
  "reserve_once env lease envelope =
     read_s (\<lambda>s.
       case latest_for_attempt (rn_db s) (av_attempt_id envelope) of
         Some existing \<Rightarrow> return_s (ul_id existing)
       | None \<Rightarrow>
           bind_s (lift_s (read_aggregate env (dict_get (jl_payload lease) ''aggregate_budget''))) (\<lambda>limits.
           tx_op (reserve_with_aggregate (jl_execution_id lease) (av_attempt_id envelope)
             (av_provider_model envelope) (bs_max_cost_usd (av_budget envelope))
             (Some (bs_max_tokens (av_budget envelope))) (Some (bs_max_tool_calls (av_budget envelope)))
             limits (we_ledger_id env) (we_reservation_id env) (we_clock env ''reserve''))))"

definition mark_started :: "'s worker_env \<Rightarrow> job_lease \<Rightarrow> ('s, unit) step" where
  "mark_started env lease =
     bind_s (tx_op (mark_started_body (jl_attempt_id lease) (jl_execution_id lease) (we_clock env ''mark_started''))) (\<lambda>_.
     bind_s (db_op (append_attempt_event_op (case jl_attempt_id lease of None \<Rightarrow> ''None'' | Some a \<Rightarrow> a) ''started''
       [(''job_id'', JStr (jl_id lease)), (''lease_owner'', JStr (jl_owner lease))])) (\<lambda>_.
     return_s ()))"

section \<open>Reconciliation\<close>

definition reconcile_unknown ::
  "'s worker_env \<Rightarrow> string \<Rightarrow> provider_usage option \<Rightarrow> ('s, cost_reconciliation) step" where
  "reconcile_unknown env ledger_id usage = db_op (unknown ledger_id usage (we_clock env ''settle''))"

definition reconcile_result ::
  "'s worker_env \<Rightarrow> string \<Rightarrow> result_bundle \<Rightarrow> attempt_envelope \<Rightarrow> ('s, cost_reconciliation) step" where
  "reconcile_result env ledger_id result envelope =
     (case (rb_usage result, we_price_resolver env) of
        (Some usage, Some resolver) \<Rightarrow>
          if pu_input_tokens usage = None \<or> pu_output_tokens usage = None \<or> pu_provider_usage_digest usage = None
          then reconcile_unknown env ledger_id (Some usage)
          else
            bind_s (lift_s (resolver (av_provider envelope) (av_provider_model envelope) usage)) (\<lambda>quote.
            case quote of
              None \<Rightarrow> db_op (mismatch ledger_id (Some usage) (we_clock env ''settle''))
            | Some q \<Rightarrow>
                if pq_provider q \<noteq> av_provider envelope \<or> pq_model_id q \<noteq> av_provider_model envelope \<or>
                   Some (pq_provider_usage_digest q) \<noteq> pu_provider_usage_digest usage \<or>
                   (pu_actual_cost_usd usage \<noteq> None \<and> pu_actual_cost_usd usage \<noteq> Some (pq_cost_usd q)) \<or>
                   currency_exceeds (pq_cost_usd q) (bs_max_cost_usd (av_budget envelope))
                then db_op (mismatch ledger_id (Some usage) (we_clock env ''settle''))
                else db_op (reconcile ledger_id
                  \<lparr>ri_input_tokens = pu_input_tokens usage, ri_output_tokens = pu_output_tokens usage,
                   ri_actual_cost_usd = Some (pq_cost_usd q), ri_provider_usage_digest = pu_provider_usage_digest usage,
                   ri_price_catalog_revision = Some (pq_price_catalog_revision q),
                   ri_expected_cost_usd = Some (pq_cost_usd q), ri_usage = Some usage\<rparr> (we_clock env ''settle'')))
      | (usage, _) \<Rightarrow> reconcile_unknown env ledger_id usage)"

section \<open>Terminalisation\<close>

record worker_result =
  wr_job_id :: string
  wr_status :: string
  wr_detail :: "string option"

text \<open>
  \<open>str(metadata.get(...) or ...) or None\<close>: the worker writes only strings and nulls under the two keys.
\<close>

definition text_of :: "dict \<Rightarrow> string \<Rightarrow> string option" where
  "text_of d k = (case dict_get d k of Some (JStr (c # cs)) \<Rightarrow> Some (c # cs) | _ \<Rightarrow> None)"

definition result_detail :: "dict \<Rightarrow> string option" where
  "result_detail metadata =
     (case text_of metadata ''detail_code'' of Some d \<Rightarrow> Some d | None \<Rightarrow> text_of metadata ''error_code'')"

definition captured :: "dict \<Rightarrow> bool" where
  "captured metadata \<longleftrightarrow> dict_get metadata ''captured_adapter_terminal'' = Some (JBool True)"

definition status_or_lost :: "job_status option \<Rightarrow> string" where
  "status_or_lost winner = (case winner of None \<Rightarrow> ''lost'' | Some w \<Rightarrow> job_status_name w)"

definition terminal ::
  "'s worker_env \<Rightarrow> job_lease \<Rightarrow> string \<Rightarrow> string \<Rightarrow> dict \<Rightarrow> ('s, worker_result) step" where
  "terminal env lease outcome attempt_status metadata =
     (let job_outcome = (if outcome = ''cancelled'' then ''cancelled''
            else if captured metadata then ''completed'' else ''failed'');
          followup = (if captured metadata then Some (''evaluation'', []) else None)
      in bind_s (tx_op (finalize (sha256 (we_codec env)) (jl_id lease) (jl_owner lease) job_outcome attempt_status metadata
           (we_clock env ''finalize'') (jl_token lease) followup (we_clock env ''created''))) (\<lambda>winner.
         return_s \<lparr>wr_job_id = jl_id lease, wr_status = status_or_lost winner, wr_detail = result_detail metadata\<rparr>))"

definition opt_str :: "string option \<Rightarrow> json" where
  "opt_str = opt_json JStr"

definition collect_on_finish :: "'s worker_env \<Rightarrow> 's adapter_calls \<Rightarrow> dict \<Rightarrow> ('s, dict) step" where
  "collect_on_finish env ad metadata =
     (if dict_get metadata ''artifact_digests'' \<noteq> None then return_s metadata
      else try_s
        (bind_s (ad_collect ad) (\<lambda>refs.
         bind_s (persist_refs env refs) (\<lambda>(digests, ids).
         return_s (dict_update metadata
           [(''artifact_digests'', JArr (map JStr digests)), (''artifact_ids'', JObj (map (map_prod id JStr) ids))]))))
        (\<lambda>e. return_s (dict_set ''artifact_persistence_error'' (JStr (class_name e)) metadata)))"

definition diagnose :: "job_lease \<Rightarrow> string \<Rightarrow> string \<Rightarrow> ('s, unit) step" where
  "diagnose lease event_type code =
     (case jl_attempt_id lease of
        None \<Rightarrow> return_s ()
      | Some a \<Rightarrow> tx_op (record_diagnostic a event_type [(''error_code'', JStr code)]))"

definition finish ::
  "'s worker_env \<Rightarrow> 's adapter_calls \<Rightarrow> job_lease \<Rightarrow> string \<times> string \<times> dict \<Rightarrow> ('s, worker_result) step" where
  "finish env ad lease t =
     (case t of (outcome, attempt_status, metadata0) \<Rightarrow>
      bind_s (read_s (\<lambda>s.
        if rn_adapter s \<and> rn_prepared s
        then bind_s (collect_on_finish env ad metadata0) (\<lambda>metadata.
             bind_s (try_s (ad_cleanup ad) (\<lambda>e. diagnose lease ''cleanup_failed'' (class_name e))) (\<lambda>_.
             return_s metadata))
        else return_s metadata0)) (\<lambda>metadata1.
      bind_s (read_s (\<lambda>s.
        if ae_trace_artifact_digest (rn_evidence s) = None \<and> ae_trace_events (rn_evidence s) \<noteq> []
        then try_s
          (bind_s (persist_trace env (ae_trace_events (rn_evidence s))) (\<lambda>digest.
           bind_s (modify_s (rn_evidence_update (\<lambda>v. v\<lparr>ae_trace_artifact_digest := Some digest\<rparr>))) (\<lambda>_.
           return_s metadata1)))
          (\<lambda>e. return_s (dict_set ''trace_persistence_error'' (JStr (class_name e)) metadata1))
        else return_s metadata1)) (\<lambda>metadata2.
      read_s (\<lambda>s.
        terminal env lease outcome attempt_status (dict_update metadata2
          [(''input_artifact_digest'', opt_str (ae_input_artifact_digest (rn_evidence s))),
           (''output_artifact_digest'', opt_str (ae_output_artifact_digest (rn_evidence s))),
           (''trace_artifact_digest'', opt_str (ae_trace_artifact_digest (rn_evidence s))),
           (''trace_complete'', JBool (ae_trace_complete (rn_evidence s)))])))))"

definition cancel_with_timeout :: "'s adapter_calls \<Rightarrow> job_lease \<Rightarrow> string \<Rightarrow> ('s, unit) step" where
  "cancel_with_timeout ad lease diagnostic =
     read_s (\<lambda>s.
       if rn_adapter s \<and> rn_prepared s
       then try_s (ad_cancel ad) (\<lambda>e. diagnose lease diagnostic (class_name e))
       else return_s ())"

section \<open>Supervised execution\<close>

record tasks =
  tk_events :: "unit result option"
  tk_execute :: "result_bundle result option"
  tk_supervisor :: "string result option"

datatype 's sched =
    Stream_event trace_event
  | Stream_end "unit result"
  | Execute_end
  | Supervisor_tick datetime
  | Elsewhere "'s run \<Rightarrow> 's run"

text \<open>\<open>sp_interrupted\<close>: the worker's own task is cancelled while it waits.\<close>

record 's schedule =
  sp_first :: "'s sched list"
  sp_interrupted :: bool
  sp_remaining :: rat
  sp_second :: "'s sched list"
  sp_last :: "'s sched list"

definition previous_sequence :: "trace_event list \<Rightarrow> int" where
  "previous_sequence events = (if events = [] then -1 else te_sequence (last events))"

definition collect_event :: "'s worker_env \<Rightarrow> attempt_envelope \<Rightarrow> trace_event \<Rightarrow> ('s, unit) step" where
  "collect_event env envelope streamed =
     bind_s (lift_s (we_parse_event env streamed)) (\<lambda>event.
     read_s (\<lambda>s.
     bind_s (lift_s (raise_if (te_attempt_id event \<noteq> av_attempt_id envelope \<or> te_episode_id event \<noteq> av_episode_id envelope \<or>
         te_sequence event \<le> previous_sequence (ae_trace_events (rn_evidence s)))
       (ValueError ''invalid streamed trace event''))) (\<lambda>_.
     bind_s (modify_s (rn_evidence_update (\<lambda>v. v\<lparr>ae_trace_events := ae_trace_events v @ [event]\<rparr>))) (\<lambda>_.
     bind_s (db_op (append_attempt_event_op (av_attempt_id envelope) ''trace'' (we_dump_event env event))) (\<lambda>_.
     return_s ())))))"

definition supervise_tick ::
  "'s adapter_calls \<Rightarrow> job_lease \<Rightarrow> rat \<Rightarrow> datetime \<Rightarrow> ('s, string option) step" where
  "supervise_tick ad lease lease_seconds now =
     (let cancelling = (\<lambda>reason. bind_s (try_s (ad_cancel ad) (\<lambda>_. return_s ())) (\<lambda>_. return_s (Some reason))) in
      read_s (\<lambda>s.
        case cancel_requested (rn_db s) (jl_id lease) (jl_owner lease) (jl_token lease) of
          None \<Rightarrow> cancelling ''lease_lost''
        | Some cancel \<Rightarrow>
            bind_s (tx_op (heartbeat (jl_id lease) (jl_owner lease) (jl_token lease) lease_seconds now)) (\<lambda>alive.
            if \<not> alive then cancelling ''lease_lost''
            else if cancel then cancelling ''cancel_requested'' else return_s None)))"

definition sched_step ::
  "'s worker_env \<Rightarrow> 's adapter_calls \<Rightarrow> job_lease \<Rightarrow> rat \<Rightarrow> attempt_envelope \<Rightarrow> 's sched \<Rightarrow> tasks \<Rightarrow> ('s, tasks) step" where
  "sched_step env ad lease lease_seconds envelope item tk =
     (case item of
        Stream_event e \<Rightarrow>
          if tk_events tk \<noteq> None then return_s tk
          else bind_s (attempt_s (collect_event env envelope e)) (\<lambda>r.
            return_s (case r of Inl x \<Rightarrow> tk\<lparr>tk_events := Some (Inl x)\<rparr> | Inr _ \<Rightarrow> tk))
      | Stream_end r \<Rightarrow> return_s (if tk_events tk \<noteq> None then tk else tk\<lparr>tk_events := Some r\<rparr>)
      | Execute_end \<Rightarrow>
          if tk_execute tk \<noteq> None then return_s tk
          else bind_s (attempt_s (ad_execute ad)) (\<lambda>r. return_s (tk\<lparr>tk_execute := Some r\<rparr>))
      | Supervisor_tick now \<Rightarrow>
          if tk_supervisor tk \<noteq> None then return_s tk
          else bind_s (attempt_s (supervise_tick ad lease lease_seconds now)) (\<lambda>r.
            return_s (case r of
              Inl x \<Rightarrow> tk\<lparr>tk_supervisor := Some (Inl x)\<rparr>
            | Inr None \<Rightarrow> tk
            | Inr (Some reason) \<Rightarrow> tk\<lparr>tk_supervisor := Some (Inr reason)\<rparr>))
      | Elsewhere f \<Rightarrow> bind_s (modify_s f) (\<lambda>_. return_s tk))"

fun run_sched ::
  "'s worker_env \<Rightarrow> 's adapter_calls \<Rightarrow> job_lease \<Rightarrow> rat \<Rightarrow> attempt_envelope \<Rightarrow> 's sched list \<Rightarrow> tasks \<Rightarrow> ('s, tasks) step" where
  "run_sched env ad lease lease_seconds envelope [] tk = return_s tk"
| "run_sched env ad lease lease_seconds envelope (item # items) tk =
     bind_s (sched_step env ad lease lease_seconds envelope item tk)
       (run_sched env ad lease lease_seconds envelope items)"

text \<open>What the supervisor's verdict makes the waiting code raise; \<open>None\<close> is to go on.\<close>

definition supervisor_raises :: "tasks \<Rightarrow> py_error option" where
  "supervisor_raises tk =
     (case tk_supervisor tk of
        None \<Rightarrow> None
      | Some (Inl e) \<Rightarrow> Some e
      | Some (Inr reason) \<Rightarrow>
          if reason = ''lease_lost'' then Some LeaseLost
          else if reason = ''cancel_requested'' then Some CancellationRequested else None)"

definition drain_tail ::
  "'s worker_env \<Rightarrow> 's adapter_calls \<Rightarrow> job_lease \<Rightarrow> rat \<Rightarrow> attempt_envelope \<Rightarrow> 's schedule \<Rightarrow> result_bundle \<Rightarrow> tasks
    \<Rightarrow> ('s, result_bundle result \<times> tasks) step" where
  "drain_tail env ad lease lease_seconds envelope sp result tk =
     (if sp_remaining sp \<le> 0 then return_s (Inl PartialTrace, tk)
      else
        bind_s (run_sched env ad lease lease_seconds envelope (sp_second sp) tk) (\<lambda>tk2.
        return_s
          (case supervisor_raises tk2 of
             Some e \<Rightarrow> Inl e
           | None \<Rightarrow>
               (case tk_events tk2 of
                  None \<Rightarrow> Inl PartialTrace
                | Some (Inl e) \<Rightarrow> Inl e
                | Some (Inr _) \<Rightarrow> Inr result), tk2)))"

definition await_tasks ::
  "'s worker_env \<Rightarrow> 's adapter_calls \<Rightarrow> job_lease \<Rightarrow> rat \<Rightarrow> attempt_envelope \<Rightarrow> 's schedule
    \<Rightarrow> ('s, result_bundle result \<times> tasks) step" where
  "await_tasks env ad lease lease_seconds envelope sp =
     bind_s (run_sched env ad lease lease_seconds envelope (sp_first sp)
       \<lparr>tk_events = None, tk_execute = None, tk_supervisor = None\<rparr>) (\<lambda>tk.
     if sp_interrupted sp then return_s (Inl CancelledError, tk)
     else if tk_execute tk = None \<and> tk_supervisor tk = None then return_s (Inl TimeoutError, tk)
     else case supervisor_raises tk of
       Some e \<Rightarrow> return_s (Inl e, tk)
     | None \<Rightarrow>
         read_s (\<lambda>s.
           if cancel_requested (rn_db s) (jl_id lease) (jl_owner lease) (jl_token lease) = Some True
           then bind_s (attempt_s (ad_cancel ad)) (\<lambda>r.
             return_s (case r of Inl e \<Rightarrow> Inl e | Inr _ \<Rightarrow> Inl CancellationRequested, tk))
           else case tk_execute tk of
             None \<Rightarrow> return_s (Inl (AdapterError ''InvalidStateError''), tk)
           | Some (Inl e) \<Rightarrow> return_s (Inl e, tk)
           | Some (Inr result) \<Rightarrow> drain_tail env ad lease lease_seconds envelope sp result tk))"

text \<open>
  The \<open>finally\<close> clause: what the cancelled tasks still do, then the awaits in their order; an exception
  of a task other than its cancellation replaces the outcome.
\<close>

definition task_error :: "'a result option \<Rightarrow> py_error option" where
  "task_error t = (case t of Some (Inl e) \<Rightarrow> if e = CancelledError then None else Some e | _ \<Rightarrow> None)"

definition execute_supervised ::
  "'s worker_env \<Rightarrow> 's adapter_calls \<Rightarrow> job_lease \<Rightarrow> rat \<Rightarrow> attempt_envelope \<Rightarrow> 's schedule \<Rightarrow> ('s, result_bundle) step" where
  "execute_supervised env ad lease lease_seconds envelope sp =
     bind_s (await_tasks env ad lease lease_seconds envelope sp) (\<lambda>(r, tk).
     bind_s (run_sched env ad lease lease_seconds envelope (sp_last sp) tk) (\<lambda>tk'.
     lift_s
       (case task_error (tk_supervisor tk') of
          Some e \<Rightarrow> Inl e
        | None \<Rightarrow>
            (case task_error (tk_events tk') of
               Some e \<Rightarrow> Inl e
             | None \<Rightarrow> (case task_error (tk_execute tk') of Some e \<Rightarrow> Inl e | None \<Rightarrow> r)))))"

section \<open>The run of a lease\<close>

definition lease_seconds_left :: "'s worker_env \<Rightarrow> job_lease \<Rightarrow> rat" where
  "lease_seconds_left env lease =
     max (1 / 20) (of_int (jl_expires_at lease - we_clock env ''supervise'') / of_int (seconds 1))"

definition terminal_failure :: "string \<Rightarrow> string \<Rightarrow> string \<Rightarrow> string option \<Rightarrow> string \<times> string \<times> dict" where
  "terminal_failure outcome attempt_status error_code classification =
     (outcome, attempt_status, (''error_code'', JStr error_code) #
        (case classification of None \<Rightarrow> [] | Some c \<Rightarrow> [(''failure_classification'', JStr c)]))"

definition set_evidence :: "(attempt_evidence \<Rightarrow> attempt_evidence) \<Rightarrow> ('s, unit) step" where
  "set_evidence f = modify_s (rn_evidence_update f)"

fun classification_name :: "failure_classification \<Rightarrow> string" where
  "classification_name Transient_adapter = ''transient_adapter''"
| "classification_name Transient_provider = ''transient_provider''"
| "classification_name Permanent_adapter = ''permanent_adapter''"
| "classification_name Permanent_provider = ''permanent_provider''"
| "classification_name Permanent_protocol = ''permanent_protocol''"

fun cost_status_name :: "cost_status \<Rightarrow> string" where
  "cost_status_name Cost_reserved = ''reserved''"
| "cost_status_name Cost_reconciled = ''reconciled''"
| "cost_status_name Cost_unknown = ''unknown''"
| "cost_status_name Cost_mismatch = ''mismatch''"
| "cost_status_name Cost_released = ''released''"
| "cost_status_name Cost_expired = ''expired''"

definition usage_ledger_columns :: "string list" where
  "usage_ledger_columns =
     [''id'', ''execution_id'', ''attempt_id'', ''model_id'', ''input_tokens'', ''output_tokens'', ''total_tokens'',
      ''context_tokens'', ''tool_calls'', ''reserved_max_tokens'', ''reserved_max_tool_calls'', ''cost_status'',
      ''cost_usd'', ''reserved_cost_usd'', ''estimated_cost_usd'', ''actual_cost_usd'', ''price_catalog_revision'',
      ''provider_usage_digest'', ''created_at'']"

definition aggregate_usage_reconciliation_supported :: bool where
  "aggregate_usage_reconciliation_supported \<longleftrightarrow>
     list_all (\<lambda>c. c \<in> set usage_ledger_columns)
       [''total_tokens'', ''tool_calls'', ''reserved_max_tokens'', ''reserved_max_tool_calls'']"

definition truthy :: "json option \<Rightarrow> bool" where
  "truthy j = (case j of None \<Rightarrow> False | Some JNull \<Rightarrow> False | Some (JBool b) \<Rightarrow> b | Some (JInt n) \<Rightarrow> n \<noteq> 0
     | Some (JNum q) \<Rightarrow> q \<noteq> 0 | Some (JStr t) \<Rightarrow> t \<noteq> [] | Some (JTime _) \<Rightarrow> True | Some (JArr l) \<Rightarrow> l \<noteq> []
     | Some (JObj d) \<Rightarrow> d \<noteq> [])"

definition limitations :: "job_lease \<Rightarrow> harness_spec \<Rightarrow> result_bundle \<Rightarrow> cost_reconciliation \<Rightarrow> string list" where
  "limitations lease harness result cost =
     (if hs_claim_eligibility harness = Fixture_only \<and> cr_status cost = Cost_unknown
      then [''fixture_only_recorded_evidence_cost_unknown''] else []) @
     (if truthy (dict_get (jl_payload lease) ''aggregate_budget'') \<and> \<not> aggregate_usage_reconciliation_supported
      then [''aggregate_token_and_tool_reconciliation_requires_persisted_usage_schema''] else []) @
     (if rb_terminal_outcome result = Out_completed \<and> hs_claim_eligibility harness \<noteq> Fixture_only \<and>
         cr_status cost \<noteq> Cost_reconciled
      then [''claim_eligible_completion_requires_central_price_resolution''] else [])"

definition terminal_metadata ::
  "'s worker_env \<Rightarrow> job_lease \<Rightarrow> harness_spec \<Rightarrow> attempt_envelope \<Rightarrow> result_bundle \<Rightarrow> string list \<Rightarrow> (string \<times> string) list
    \<Rightarrow> cost_reconciliation \<Rightarrow> oracle_decision option \<Rightarrow> string option \<Rightarrow> bool \<times> string \<times> string option \<Rightarrow> dict" where
  "terminal_metadata env lease harness envelope result artifact_digests artifact_ids cost decision oracle_digest manipulation =
     [(''terminal_outcome'', JStr (outcome_name (rb_terminal_outcome result))),
      (''detail_code'', if decision \<noteq> None then JStr ''state_oracle'' else JNull),
      (''response_hash'', opt_str (rb_response_hash result)),
      (''failure_classification'', opt_str (map_option classification_name (rb_failure_classification result))),
      (''usage'', case rb_usage result of None \<Rightarrow> JNull | Some u \<Rightarrow> we_dump_usage env u),
      (''artifact_digests'', JArr (map JStr artifact_digests)),
      (''artifact_ids'', JObj (map (map_prod id JStr) artifact_ids)),
      (''cost_status'', JStr (cost_status_name (cr_status cost))),
      (''cost_usd'', opt_json JNum (cr_cost_usd cost)),
      (''state_oracle'', case decision of None \<Rightarrow> JNull | Some d \<Rightarrow> JObj (od_evidence d)),
      (''state_oracle_artifact_digest'', opt_str oracle_digest),
      (''terminal_envelope'', worker_terminal_envelope envelope result (rb_terminal_outcome result)),
      (''manipulation_pass'', JBool (fst manipulation)),
      (''manipulation_artifact_digest'', JStr (fst (snd manipulation))),
      (''manipulation_detail'', opt_str (snd (snd manipulation))),
      (''captured_adapter_terminal'', JBool True),
      (''limitations'', JArr (map JStr (limitations lease harness result cost)))]"

text \<open>From the result of the adapter to its terminal metadata (lines 138 to 199).\<close>

definition conclude ::
  "'s worker_env \<Rightarrow> 's adapter_calls \<Rightarrow> job_lease \<Rightarrow> harness_spec \<Rightarrow> scenario_spec \<Rightarrow> attempt_envelope \<Rightarrow> string
    \<Rightarrow> result_bundle \<Rightarrow> ('s, worker_result) step" where
  "conclude env ad lease harness scenario envelope reservation result =
     read_s (\<lambda>s.
     bind_s (lift_s (raise_if (rb_terminal_outcome result = Out_completed \<and> ae_trace_events (rn_evidence s) = [])
       PartialTrace)) (\<lambda>_.
     bind_s (persist_trace env (ae_trace_events (rn_evidence s))) (\<lambda>trace_digest.
     bind_s (set_evidence (\<lambda>v. v\<lparr>ae_trace_artifact_digest := Some trace_digest, ae_trace_complete := True\<rparr>)) (\<lambda>_.
     bind_s (derive_manipulation_evidence env envelope (ae_trace_events (rn_evidence s))) (\<lambda>manipulation.
     bind_s (lift_s (validate_result_lifecycle result envelope)) (\<lambda>_.
     bind_s (lift_s (enforce_usage result envelope (hs_claim_eligibility harness)
       (rb_terminal_outcome result = Out_completed))) (\<lambda>_.
     bind_s (ad_collect ad) (\<lambda>collected.
     bind_s (persist_refs env (rb_artifacts result @ collected)) (\<lambda>(artifact_digests, artifact_ids).
     bind_s (read_s (\<lambda>s. lift_s (resolve_output_artifact env result artifact_ids (rn_store s)))) (\<lambda>output.
     bind_s (set_evidence (\<lambda>v. v\<lparr>ae_output_artifact_digest := output\<rparr>)) (\<lambda>_.
     bind_s (lift_s (we_after_artifacts env result)) (\<lambda>_.
     bind_s (lift_s (decide env scenario envelope result)) (\<lambda>decision.
     bind_s (case decision of
         None \<Rightarrow> return_s None
       | Some d \<Rightarrow>
           bind_s (persist_generated env
             (JObj [(''terminal_outcome'', JStr (od_terminal_outcome d)), (''detail_code'', JStr (od_detail d)),
                    (''evidence'', JObj (od_evidence d))])
             ''application/vnd.scaffold-arena.state-oracle+json''
             [(''artifact_role'', JStr ''state_oracle''), (''attempt_id'', JStr (av_attempt_id envelope))])
           (\<lambda>digest. return_s (Some digest))) (\<lambda>oracle_digest.
     bind_s (reconcile_result env reservation result envelope) (\<lambda>cost.
     finish env ad lease (outcome_name (rb_terminal_outcome result), outcome_name (rb_terminal_outcome result),
       terminal_metadata env lease harness envelope result artifact_digests artifact_ids cost decision oracle_digest
         manipulation))))))))))))))))"

text \<open>The dispatch of a bound attempt (lines 119 to 137).\<close>

definition perform ::
  "'s worker_env \<Rightarrow> 's adapter_calls \<Rightarrow> 's schedule \<Rightarrow> job_lease \<Rightarrow> harness_spec \<Rightarrow> attempt_input \<Rightarrow> attempt_envelope
    \<Rightarrow> ('s, worker_result) step" where
  "perform env ad sp lease harness input envelope =
     bind_s (modify_s (rn_adapter_update (\<lambda>_. True))) (\<lambda>_.
     bind_s (reserve_once env lease envelope) (\<lambda>reservation.
     bind_s (modify_s (rn_reservation_update (\<lambda>_. Some reservation))) (\<lambda>_.
     bind_s (lift_s (parse_scenario (we_codec env) (JObj (sc_dump (ai_scenario input))))) (\<lambda>scenario.
     bind_s (lift_s (we_fault_hook env scenario envelope)) (\<lambda>_.
     bind_s (mark_started env lease) (\<lambda>_.
     bind_s (lift_s (bind_input (we_codec env) scenario envelope None)) (\<lambda>started_input.
     bind_s (persist_generated env (attempt_input_dump started_input)
       ''application/vnd.scaffold-arena.attempt-input+json''
       [(''artifact_role'', JStr ''attempt_input''), (''attempt_id'', JStr (av_attempt_id envelope))]) (\<lambda>input_digest.
     bind_s (set_evidence (\<lambda>v. v\<lparr>ae_input_artifact_digest := Some input_digest\<rparr>)) (\<lambda>_.
     bind_s (ad_prepare ad harness started_input) (\<lambda>_.
     bind_s (modify_s (rn_prepared_update (\<lambda>_. True))) (\<lambda>_.
     bind_s (execute_supervised env ad lease (lease_seconds_left env lease) envelope sp) (\<lambda>result.
     bind_s (modify_s (rn_result_update (\<lambda>_. Some result))) (\<lambda>_.
     if we_elapsed env > bs_max_latency_seconds (av_budget envelope)
     then finish env ad lease (terminal_failure ''failed'' ''timed_out'' ''latency_budget_exceeded'' (Some ''transient''))
     else conclude env ad lease harness scenario envelope reservation result)))))))))))))"

definition payload_keys :: "string list" where
  "payload_keys = [''attempt_input'', ''harness'', ''aggregate_budget'']"

definition lease_body ::
  "'s worker_env \<Rightarrow> 's adapter_calls \<Rightarrow> 's schedule \<Rightarrow> job_lease \<Rightarrow> ('s, worker_result) step" where
  "lease_body env ad sp lease =
     (case (if jl_kind lease = ''attempt'' then jl_attempt_id lease else None) of
        None \<Rightarrow>
          bind_s (tx_op (fail (sha256 (we_codec env)) (jl_id lease) (jl_owner lease) (jl_token lease) ''failed''
            [(''error'', JStr ''unsupported job kind'')] (we_clock env ''fail'') (we_clock env ''created''))) (\<lambda>status.
          return_s \<lparr>wr_job_id = jl_id lease, wr_status = status_or_lost status, wr_detail = Some ''unsupported job kind''\<rparr>)
      | Some attempt_id \<Rightarrow>
          bind_s (lift_s (raise_if (list_ex (\<lambda>(k, _). k \<notin> set payload_keys) (jl_payload lease))
            (ValueError ''attempt job payload contains unsupported keys''))) (\<lambda>_.
          bind_s (lift_s (bind_r (subscript (jl_payload lease) ''attempt_input'') (validate_attempt_input (we_codec env)))) (\<lambda>input0.
          bind_s (lift_s (validate_attempt_input (we_codec env) (attempt_input_dump input0))) (\<lambda>input.
          let envelope = (ai_attempt input)\<lparr>av_status := Env_started, av_started_at := Some (we_clock env ''started_at'')\<rparr> in
          bind_s (lift_s (bind_r (subscript (jl_payload lease) ''harness'') (we_parse_harness env))) (\<lambda>harness.
          bind_s (lift_s (raise_if (av_attempt_id envelope \<noteq> attempt_id)
            (ValueError ''job payload envelope does not bind the leased attempt''))) (\<lambda>_.
          bind_s (read_s (\<lambda>s. lift_s (validate_scenario_binding lease input (rn_db s)))) (\<lambda>_.
          case (hs_adapter_identity harness, hs_adapter_digest harness) of
            (Some (c # identity), Some (d # digest)) \<Rightarrow>
              bind_s (lift_s (we_registry env (c # identity) (d # digest))) (\<lambda>_.
              perform env ad sp lease harness input envelope)
          | _ \<Rightarrow> lift_s (Inl (ValueError ''harness must bind an explicitly trusted adapter identity and digest'')))))))))"

definition observed_usage :: "'s run \<Rightarrow> provider_usage option" where
  "observed_usage s = (case rn_result s of None \<Rightarrow> None | Some r \<Rightarrow> rb_usage r)"

definition handle_error ::
  "'s worker_env \<Rightarrow> 's adapter_calls \<Rightarrow> job_lease \<Rightarrow> py_error \<Rightarrow> ('s, worker_result) step" where
  "handle_error env ad lease e =
     (case e of
        CancelledError \<Rightarrow>
          if \<not> we_terminalize_on_cancel env then lift_s (Inl CancelledError)
          else
            bind_s (cancel_with_timeout ad lease ''task_cancel_failed'') (\<lambda>_.
            bind_s (finish env ad lease (terminal_failure ''cancelled'' ''cancelled'' ''worker_task_cancelled'' (Some ''transient''))) (\<lambda>_.
            lift_s (Inl CancelledError)))
      | LeaseLost \<Rightarrow>
          bind_s (diagnose lease ''lease_lost'' ''lease_lost'') (\<lambda>_.
          finish env ad lease (terminal_failure ''incomplete'' ''incomplete'' ''lease_lost'' (Some ''transient'')))
      | CancellationRequested \<Rightarrow>
          finish env ad lease (terminal_failure ''cancelled'' ''cancelled'' ''cancel_requested'' None)
      | UsageMismatch \<Rightarrow>
          bind_s (read_s (\<lambda>s. case rn_reservation s of
              None \<Rightarrow> return_s ()
            | Some l \<Rightarrow> bind_s (db_op (mismatch l (observed_usage s) (we_clock env ''settle''))) (\<lambda>_. return_s ()))) (\<lambda>_.
          finish env ad lease (terminal_failure ''failed'' ''failed'' ''usage_mismatch'' (Some ''permanent_protocol'')))
      | MissingUsageEvidence \<Rightarrow>
          bind_s (read_s (\<lambda>s. case rn_reservation s of
              None \<Rightarrow> return_s ()
            | Some l \<Rightarrow> bind_s (reconcile_unknown env l (observed_usage s)) (\<lambda>_. return_s ()))) (\<lambda>_.
          finish env ad lease (terminal_failure ''incomplete'' ''incomplete'' ''usage_evidence_hold'' (Some ''permanent_protocol'')))
      | AggregateBudgetExceeded _ \<Rightarrow>
          finish env ad lease (terminal_failure ''incomplete'' ''incomplete'' ''aggregate_budget_hold'' (Some ''permanent_protocol''))
      | PartialTrace \<Rightarrow>
          finish env ad lease (terminal_failure ''incomplete'' ''incomplete'' ''partial_trace'' (Some ''transient''))
      | TimeoutError \<Rightarrow>
          bind_s (cancel_with_timeout ad lease ''timeout_cancel_failed'') (\<lambda>_.
          finish env ad lease (terminal_failure ''failed'' ''timed_out'' ''adapter_timeout'' (Some ''transient_adapter'')))
      | MissingOutputEvidence \<Rightarrow>
          finish env ad lease (terminal_failure ''failed'' ''failed'' ''output_artifact_evidence_missing'' (Some ''permanent_protocol''))
      | _ \<Rightarrow> finish env ad lease (terminal_failure ''failed'' ''failed'' (class_name e) (Some ''permanent_protocol'')))"

definition fresh_locals :: "'s run \<Rightarrow> 's run" where
  "fresh_locals s = s\<lparr>rn_adapter := False, rn_prepared := False, rn_reservation := None, rn_result := None,
     rn_evidence := \<lparr>ae_input_artifact_digest = None, ae_output_artifact_digest = None,
       ae_trace_artifact_digest = None, ae_trace_complete = False, ae_trace_events = []\<rparr>\<rparr>"

definition run_lease ::
  "'s worker_env \<Rightarrow> 's adapter_calls \<Rightarrow> 's schedule \<Rightarrow> job_lease \<Rightarrow> ('s, worker_result) step" where
  "run_lease env ad sp lease =
     bind_s (modify_s fresh_locals) (\<lambda>_.
     bind_s (attempt_s (lease_body env ad sp lease)) (\<lambda>r.
     case r of Inr result \<Rightarrow> return_s result | Inl e \<Rightarrow> handle_error env ad lease e))"

definition run_once ::
  "'s worker_env \<Rightarrow> 's adapter_calls \<Rightarrow> 's schedule \<Rightarrow> string \<Rightarrow> rat \<Rightarrow> string option \<Rightarrow> string option \<Rightarrow> string
    \<Rightarrow> ('s, worker_result option) step" where
  "run_once env ad sp owner lease_seconds project_id execution_id token =
     bind_s (tx_op (claim owner lease_seconds (we_clock env ''claim'') (Some ''attempt'') project_id execution_id token)) (\<lambda>lease.
     case lease of
       None \<Rightarrow> return_s None
     | Some l \<Rightarrow> bind_s (run_lease env ad sp l) (\<lambda>r. return_s (Some r)))"

section \<open>Resuming from a checkpoint\<close>

definition worker_retry :: "'s worker_env \<Rightarrow> string \<Rightarrow> string \<Rightarrow> string \<Rightarrow> ('s, string \<times> string) step" where
  "worker_retry env job_id attempt_id next_job_id =
     tx_op (retry (we_codec env) job_id (we_clock env ''retry'') attempt_id next_job_id (we_clock env ''created''))"

definition same_harness :: "harness_spec \<Rightarrow> harness_spec \<Rightarrow> bool" where
  "same_harness a b \<longleftrightarrow> hs_adapter_identity a = hs_adapter_identity b \<and> hs_adapter_digest a = hs_adapter_digest b \<and>
     hs_effective_configuration_hash a = hs_effective_configuration_hash b \<and> hs_configuration a = hs_configuration b"

definition checkpoint_bound :: "json option \<Rightarrow> string \<Rightarrow> harness_spec \<Rightarrow> bool" where
  "checkpoint_bound provenance checkpoint original \<longleftrightarrow>
     (case provenance of
        Some (JObj p) \<Rightarrow> dict_get p ''artifact_digest'' = Some (JStr checkpoint) \<and>
          (case dict_get p ''adapter_digest'' of
             None \<Rightarrow> hs_adapter_digest original = None
           | Some j \<Rightarrow> j = opt_str (hs_adapter_digest original))
      | _ \<Rightarrow> False)"

definition resume ::
  "'s worker_env \<Rightarrow> string \<Rightarrow> harness_spec \<Rightarrow> string \<Rightarrow> string \<Rightarrow> ('s, string \<times> string) step" where
  "resume env job_id harness attempt_id next_job_id =
     bind_s (lift_s (raise_if (\<not> hs_checkpoint harness)
       (ValueError ''resume is forbidden because the harness does not declare checkpoint support''))) (\<lambda>_.
     read_s (\<lambda>s.
       case first (concat (map (\<lambda>t. map (\<lambda>j. (t, j)) (filter (\<lambda>j. jb_attempt_id j = Some (at_id t) \<and> jb_id j = job_id)
              (db_jobs (rn_db s)))) (db_attempts (rn_db s)))) of
         None \<Rightarrow> lift_s (Inl (KeyError job_id))
       | Some (row, job) \<Rightarrow>
           (case dict_get (at_result_metadata row) ''checkpoint_artifact_digest'' of
              Some (JStr checkpoint) \<Rightarrow>
                bind_s (lift_s (raise_if (\<not> list_ex (\<lambda>a. ar_digest a = checkpoint) (rn_artifacts s))
                  (ValueError ''resume is forbidden because the checkpoint artifact is not registered''))) (\<lambda>_.
                bind_s (lift_s (we_parse_harness env
                  (case dict_get (jb_payload job) ''harness'' of None \<Rightarrow> JObj [] | Some h \<Rightarrow> h))) (\<lambda>original.
                bind_s (lift_s (raise_if (\<not> same_harness harness original)
                  (ValueError ''resume harness does not match the original bound harness''))) (\<lambda>_.
                bind_s (lift_s (raise_if (\<not> checkpoint_bound (dict_get (at_result_metadata row) ''checkpoint_provenance'')
                    checkpoint original)
                  (ValueError ''resume is forbidden without checkpoint provenance bound to the original harness''))) (\<lambda>_.
                bind_s (lift_s (we_get env checkpoint (rn_store s))) (\<lambda>_.
                worker_retry env job_id attempt_id next_job_id)))))
            | _ \<Rightarrow> lift_s (Inl (ValueError ''resume is forbidden without a checkpoint artifact'')))))"

end
