(* ===== verification/Fenced_Worker.thy ===== *)
theory Fenced_Worker
  imports Worker_Run
begin

text \<open>
  The public worker: the adapter that fences each call by an invocation record, and the worker that
  wraps the kernel with it (\<open>src/backend/execution_v1/fenced_worker.py\<close>), and the outer worker that
  leaves malformed inputs to the kernel (\<open>src/backend/execution_v1/validated_worker.py\<close>).

  The fenced adapter is again a record of adapter calls, built from the plugged-in adapter's calls.
  The adapter object's current invocation record is \<open>rn_invocation\<close>; its context is the invocation the
  worker began, of which only the aggregate deadline is read. A \<open>wait_for\<close> that times out is a
  \<open>TimeoutError\<close> of the call it wraps.
\<close>

section \<open>The fenced adapter\<close>

text \<open>
  \<open>fe_supported\<close>: the adapter overrides \<open>prepare_invocation\<close>; \<open>fe_request_id\<close>: the provider request id
  among the controls the result reports; \<open>fe_result_digest\<close>: the digest of the result's dump.
\<close>

record fence_env =
  fe_supported :: bool
  fe_request_id :: "result_bundle \<Rightarrow> string option"
  fe_result_digest :: "result_bundle \<Rightarrow> string"
  fe_parse_datetime :: "string \<Rightarrow> datetime result"
  fe_invocation_id :: string
  fe_nonce :: string
  fe_sha256 :: "json \<Rightarrow> string"
  fe_clock :: "string \<Rightarrow> datetime"

definition remaining :: "fence_env \<Rightarrow> invocation_row \<Rightarrow> string \<Rightarrow> timedelta option" where
  "remaining fe invocation site = map_option (\<lambda>deadline. deadline - fe_clock fe site) (iv_aggregate_deadline_at invocation)"

definition exhausted :: "timedelta option \<Rightarrow> bool" where
  "exhausted r = (case r of None \<Rightarrow> False | Some t \<Rightarrow> t \<le> 0)"

definition with_invocation :: "(invocation_row \<Rightarrow> ('s, 'a) step) \<Rightarrow> ('s, 'a) step" where
  "with_invocation f =
     read_s (\<lambda>s. case rn_invocation s of
       None \<Rightarrow> lift_s (Inl (AttributeError ''_invocation'')) | Some iv \<Rightarrow> f iv)"

definition get_current :: "string \<Rightarrow> ('s, invocation_row) step" where
  "get_current i = read_s (\<lambda>s. lift_s (get_invocation (rn_db s) i))"

definition set_invocation :: "invocation_row \<Rightarrow> ('s, unit) step" where
  "set_invocation iv = modify_s (rn_invocation_update (\<lambda>_. Some iv))"

definition fence_prepare ::
  "fence_env \<Rightarrow> invocation_row \<Rightarrow> 's adapter_calls \<Rightarrow> harness_spec \<Rightarrow> attempt_input \<Rightarrow> ('s, unit) step" where
  "fence_prepare fe invocation raw harness input =
     (let left = remaining fe invocation ''prepare'' in
      if exhausted left
      then lift_s (Inl (AggregateBudgetExceeded ''aggregate wall-time budget expired before adapter preparation''))
      else
        bind_s (with_invocation (\<lambda>iv. db_op (mark_transport_context iv (fe_supported fe) (fe_clock fe ''transport'')))) (\<lambda>_.
        bind_s (with_invocation (\<lambda>iv. db_op (mark_dispatch_started iv (fe_clock fe ''dispatch'')))) (\<lambda>dispatched.
        bind_s (set_invocation dispatched) (\<lambda>_.
        bind_s (attempt_s (ad_prepare raw harness input)) (\<lambda>r.
        case r of
          Inr p \<Rightarrow> return_s p
        | Inl e \<Rightarrow>
            lift_s (Inl (if e = TimeoutError \<and> left \<noteq> None
              then AggregateBudgetExceeded ''aggregate wall-time budget expired during adapter preparation'' else e)))))))"

definition fence_cancel :: "fence_env \<Rightarrow> 's adapter_calls \<Rightarrow> ('s, unit) step" where
  "fence_cancel fe raw =
     bind_s (with_invocation (\<lambda>iv. get_current (iv_id iv))) (\<lambda>found.
     bind_s (if iv_cancellation_state found = Can_not_requested
       then db_op (iv_request_cancel found (fe_clock fe ''cancel_request'')) else return_s found) (\<lambda>asked.
     bind_s (if iv_cancellation_state asked = Can_requested
       then db_op (mark_cancel_dispatched asked (fe_clock fe ''cancel_dispatch'')) else return_s asked) (\<lambda>sent.
     bind_s (attempt_s (ad_cancel raw)) (\<lambda>r.
     case r of
       Inl e \<Rightarrow>
         if e = CancelledError then lift_s (Inl e)
         else
           bind_s (get_current (iv_id sent)) (\<lambda>current.
           bind_s (if iv_cancellation_state current = Can_dispatched
             then db_op (mark_cancel_unknown current (fe_clock fe ''cancel_end'')) else return_s current) (\<lambda>_.
           lift_s (Inl e)))
     | Inr _ \<Rightarrow>
         bind_s (get_current (iv_id sent)) (\<lambda>current.
         bind_s (if iv_cancellation_state current = Can_dispatched
           then db_op (mark_cancel_acknowledged current (fe_clock fe ''cancel_end'')) else return_s current) (\<lambda>_.
         return_s ()))))))"

definition observed_state :: "result_bundle \<Rightarrow> usage_state" where
  "observed_state result =
     (case rb_usage result of
        Some usage \<Rightarrow> if complete_usage usage then Use_observed else Use_unknown
      | None \<Rightarrow> Use_unknown)"

definition admit_execution :: "fence_env \<Rightarrow> result_bundle \<Rightarrow> ('s, result_bundle) step" where
  "admit_execution fe result =
     bind_s (case fe_request_id fe result of
         Some (c # cs) \<Rightarrow>
           bind_s (with_invocation (\<lambda>iv.
             db_op (observe_provider_request (fe_sha256 fe) iv (c # cs) (fe_clock fe ''observe'')))) set_invocation
       | _ \<Rightarrow> return_s ()) (\<lambda>_.
     bind_s (with_invocation (\<lambda>iv. db_op (admit_terminal iv (fe_result_digest fe result)
       (outcome_name (rb_terminal_outcome result)) (observed_state result) (fe_clock fe ''admit'')))) (\<lambda>admitted.
     if admitted then return_s result else lift_s (Inl LeaseLost)))"

definition fence_execute :: "fence_env \<Rightarrow> invocation_row \<Rightarrow> 's adapter_calls \<Rightarrow> ('s, result_bundle) step" where
  "fence_execute fe invocation raw =
     (if exhausted (remaining fe invocation ''execute'')
      then bind_s (fence_cancel fe raw) (\<lambda>_.
        lift_s (Inl (AggregateBudgetExceeded ''aggregate wall-time budget expired before provider execution'')))
      else
        bind_s (attempt_s (ad_execute raw)) (\<lambda>r.
        case r of
          Inr result \<Rightarrow> admit_execution fe result
        | Inl e \<Rightarrow>
            if e = TimeoutError
            then bind_s (fence_cancel fe raw) (\<lambda>_.
              lift_s (Inl (AggregateBudgetExceeded ''aggregate wall-time budget expired during provider execution'')))
            else lift_s (Inl e)))"

definition fence_adapter :: "fence_env \<Rightarrow> invocation_row \<Rightarrow> 's adapter_calls \<Rightarrow> 's adapter_calls" where
  "fence_adapter fe invocation raw =
     \<lparr>ad_prepare = fence_prepare fe invocation raw, ad_execute = fence_execute fe invocation raw,
      ad_collect = ad_collect raw, ad_cleanup = ad_cleanup raw, ad_cancel = fence_cancel fe raw\<rparr>"

section \<open>The fenced worker\<close>

definition aggregate_deadline :: "fence_env \<Rightarrow> json option \<Rightarrow> datetime option result" where
  "aggregate_deadline fe value =
     (case value of
        Some (JObj d) \<Rightarrow>
          (case dict_get d ''deadline_at'' of
             None \<Rightarrow> Inr None
           | Some JNull \<Rightarrow> Inr None
           | Some (JTime t) \<Rightarrow> Inr (Some t)
           | Some (JStr raw) \<Rightarrow> bind_r (fe_parse_datetime fe raw) (\<lambda>t. Inr (Some t))
           | Some _ \<Rightarrow> Inl (ValueError ''aggregate deadline must be an ISO-8601 string''))
      | _ \<Rightarrow> Inr None)"

definition fail_incomplete ::
  "'s worker_env \<Rightarrow> job_lease \<Rightarrow> string \<Rightarrow> dict \<Rightarrow> ('s, worker_result) step" where
  "fail_incomplete env lease detail extra =
     bind_s (tx_op (fail (sha256 (we_codec env)) (jl_id lease) (jl_owner lease) (jl_token lease) ''incomplete''
       ([(''error_code'', JStr detail), (''failure_classification'', JStr ''permanent_protocol'')] @ extra)
       (we_clock env ''fail'') (we_clock env ''created''))) (\<lambda>status.
     return_s \<lparr>wr_job_id = jl_id lease, wr_status = status_or_lost status, wr_detail = Some detail\<rparr>)"

definition exit_reason :: "worker_result option \<Rightarrow> string" where
  "exit_reason result =
     (case result of
        None \<Rightarrow> ''worker exited before durable terminalization''
      | Some w \<Rightarrow> ''worker exited with '' @ (case wr_detail w of Some (c # cs) \<Rightarrow> c # cs | _ \<Rightarrow> wr_status w))"

definition exit_scope ::
  "fence_env \<Rightarrow> invocation_row \<Rightarrow> worker_result option \<Rightarrow> worker_result result \<Rightarrow> ('s, worker_result) step" where
  "exit_scope fe invocation result r =
     bind_s (if (case result of None \<Rightarrow> False | Some w \<Rightarrow> wr_status w = ''lost'')
       then bind_s (attempt_s (db_op (mark_lease_lost invocation (fe_clock fe ''exit'')))) (\<lambda>x.
         case x of
           Inr iv \<Rightarrow> return_s iv
         | Inl (ValueError _) \<Rightarrow> get_current (iv_id invocation)
         | Inl e \<Rightarrow> lift_s (Inl e))
       else return_s invocation) (\<lambda>iv.
     bind_s (tx_op (settle_open_for_invocation (iv_id iv) (exit_reason result) (fe_clock fe ''settle''))) (\<lambda>_.
     bind_s (tx_op (synchronize_usage_state (iv_id iv) (fe_clock fe ''synchronize''))) (\<lambda>_.
     lift_s r)))"

definition fenced_scope ::
  "fence_env \<Rightarrow> 's worker_env \<Rightarrow> 's adapter_calls \<Rightarrow> 's schedule \<Rightarrow> job_lease \<Rightarrow> invocation_row \<Rightarrow> ('s, worker_result) step" where
  "fenced_scope fe env raw sp lease invocation =
     bind_s (set_invocation invocation) (\<lambda>_.
     bind_s (attempt_s (run_lease env (fence_adapter fe invocation raw) sp lease)) (\<lambda>r.
     case r of
       Inr result \<Rightarrow>
         bind_s (attempt_s (if wr_detail result = Some ''lease_lost''
           then bind_s (db_op (mark_lease_lost invocation (fe_clock fe ''lost''))) (\<lambda>_. return_s ())
           else return_s ())) (\<lambda>x.
         exit_scope fe invocation (Some result) (case x of Inl e \<Rightarrow> Inl e | Inr _ \<Rightarrow> Inr result))
     | Inl (DuplicateProviderRequest m) \<Rightarrow>
         bind_s (attempt_s (fail_incomplete env lease ''duplicate_provider_request'' [])) (\<lambda>x.
         exit_scope fe invocation (case x of Inl _ \<Rightarrow> None | Inr w \<Rightarrow> Some w) x)
     | Inl e \<Rightarrow> exit_scope fe invocation None (Inl e)))"

definition fenced_run_lease ::
  "fence_env \<Rightarrow> 's worker_env \<Rightarrow> 's adapter_calls \<Rightarrow> 's schedule \<Rightarrow> job_lease \<Rightarrow> ('s, worker_result) step" where
  "fenced_run_lease fe env raw sp lease =
     (if jl_kind lease \<noteq> ''attempt'' \<or> jl_attempt_id lease = None then run_lease env raw sp lease
      else case dict_get (jl_payload lease) ''attempt_input'' of
        Some (JObj d) \<Rightarrow>
          bind_s (lift_s (validate_attempt_input (we_codec env) (JObj d))) (\<lambda>input.
          bind_s (lift_s (aggregate_deadline fe (dict_get (jl_payload lease) ''aggregate_budget''))) (\<lambda>deadline.
          if (case deadline of None \<Rightarrow> False | Some t \<Rightarrow> t \<le> fe_clock fe ''deadline'')
          then fail_incomplete env lease ''aggregate_wall_time_hold''
            [(''aggregate_deadline_at'', opt_json JTime deadline)]
          else
            bind_s (db_op (begin_invocation (fe_sha256 fe) lease input deadline (fe_clock fe ''begin'')
              (fe_invocation_id fe) (fe_nonce fe))) (\<lambda>invocation.
            fenced_scope fe env raw sp lease invocation)))
      | _ \<Rightarrow> run_lease env raw sp lease)"

section \<open>The validated worker\<close>

definition validated_run_lease ::
  "fence_env \<Rightarrow> 's worker_env \<Rightarrow> 's adapter_calls \<Rightarrow> 's schedule \<Rightarrow> job_lease \<Rightarrow> ('s, worker_result) step" where
  "validated_run_lease fe env raw sp lease =
     (case dict_get (jl_payload lease) ''attempt_input'' of
        Some (JObj d) \<Rightarrow>
          (case validate_attempt_input (we_codec env) (JObj d) of
             Inl (TypeError m) \<Rightarrow> run_lease env raw sp lease
           | Inl (ValueError m) \<Rightarrow> run_lease env raw sp lease
           | Inl e \<Rightarrow> lift_s (Inl e)
           | Inr _ \<Rightarrow> fenced_run_lease fe env raw sp lease)
      | _ \<Rightarrow> fenced_run_lease fe env raw sp lease)"

end
