(* ===== verification/Worker_Refinement.thy ===== *)
theory Worker_Refinement
  imports Fenced_Worker
begin

text \<open>
  The worker refines the services: whatever the adapter answers, whatever the schedule and wherever an
  exception is raised, a run changes the database only by steps of the system, so every invariant of
  the system holds after it. \<open>moves R m\<close> is the judgement of a small logic of steps, with one rule per
  combinator; the locale \<open>worker_port\<close> is what the worker relies on of an adapter, and the fenced
  adapter over a port is a port again.
\<close>

section \<open>A logic of steps\<close>

named_theorems moves_rules "rules of the logic of steps"

definition valid_locals :: "'s run \<Rightarrow> bool" where
  "valid_locals s \<longleftrightarrow> opt_all valid_usage (observed_usage s)"

definition moves :: "('a \<Rightarrow> bool) \<Rightarrow> ('s, 'a) step \<Rightarrow> bool" where
  "moves R m \<longleftrightarrow> (\<forall>s r s'. valid_locals s \<longrightarrow> m s = (r, s') \<longrightarrow>
     arena_step\<^sup>*\<^sup>* (rn_db s) (rn_db s') \<and> valid_locals s' \<and> (\<forall>a. r = Inr a \<longrightarrow> R a))"

abbreviation moves_any :: "('s, 'a) step \<Rightarrow> bool" where
  "moves_any \<equiv> moves (\<lambda>_. True)"

lemma movesI:
  assumes "\<And>s r s'. valid_locals s \<Longrightarrow> m s = (r, s') \<Longrightarrow>
    arena_step\<^sup>*\<^sup>* (rn_db s) (rn_db s') \<and> valid_locals s' \<and> (\<forall>a. r = Inr a \<longrightarrow> R a)"
  shows "moves R m"
  using assms by (auto simp: moves_def)

lemma movesD:
  assumes "moves R m" and "valid_locals s" and "m s = (r, s')"
  shows "arena_step\<^sup>*\<^sup>* (rn_db s) (rn_db s')" and "valid_locals s'" and "r = Inr a \<Longrightarrow> R a"
  using assms by (auto simp: moves_def)

lemma moves_weaken: "moves R m \<Longrightarrow> moves_any m"
  by (auto simp: moves_def)

lemma moves_return [moves_rules]: "R a \<Longrightarrow> moves R (return_s a)"
  by (simp add: moves_def return_s_def)

lemma moves_lift [moves_rules]: "(\<And>a. r = Inr a \<Longrightarrow> R a) \<Longrightarrow> moves R (lift_s r)"
  by (simp add: moves_def lift_s_def)

lemma moves_modify:
  "(\<And>s. arena_step\<^sup>*\<^sup>* (rn_db s) (rn_db (f s)) \<and> (valid_locals s \<longrightarrow> valid_locals (f s))) \<Longrightarrow> moves_any (modify_s f)"
  by (auto simp: moves_def modify_s_def)

lemma moves_bind_post:
  assumes m: "moves Q m" and f: "\<And>a. Q a \<Longrightarrow> moves R (f a)"
  shows "moves R (bind_s m f)"
proof (rule movesI)
  fix s r s' assume v: "valid_locals s" and run: "bind_s m f s = (r, s')"
  obtain r1 s1 where m1: "m s = (r1, s1)" by fastforce
  show "arena_step\<^sup>*\<^sup>* (rn_db s) (rn_db s') \<and> valid_locals s' \<and> (\<forall>a. r = Inr a \<longrightarrow> R a)"
  proof (cases r1)
    case (Inl e)
    with run m1 have "r = Inl e" "s' = s1" by (simp_all add: bind_s_def)
    with movesD(1,2) [OF m v m1] show ?thesis by simp
  next
    case (Inr a)
    with run m1 have "f a s1 = (r, s')" by (simp add: bind_s_def)
    with movesD [OF f, OF movesD(3) [OF m v m1 Inr], of s1 r s'] movesD(1,2) [OF m v m1] show ?thesis by auto
  qed
qed

lemma moves_bind [moves_rules]: "moves_any m \<Longrightarrow> (\<And>a. moves R (f a)) \<Longrightarrow> moves R (bind_s m f)"
  by (rule moves_bind_post)

lemma moves_try [moves_rules]:
  assumes m: "moves R m" and h: "\<And>e. moves R (h e)"
  shows "moves R (try_s m h)"
proof (rule movesI)
  fix s r s' assume v: "valid_locals s" and run: "try_s m h s = (r, s')"
  obtain r1 s1 where m1: "m s = (r1, s1)" by fastforce
  note d = movesD [OF m v m1]
  show "arena_step\<^sup>*\<^sup>* (rn_db s) (rn_db s') \<and> valid_locals s' \<and> (\<forall>a. r = Inr a \<longrightarrow> R a)"
  proof (cases "\<exists>e. r1 = Inl e \<and> e \<noteq> CancelledError")
    case True
    then obtain e where "h e s1 = (r, s')" using run m1 by (auto simp: try_s_def)
    with movesD [OF h d(2), of e r s'] d(1) show ?thesis by auto
  next
    case False
    then have "r = r1" "s' = s1" using run m1 by (auto simp: try_s_def split: sum.splits if_splits)
    with d show ?thesis by auto
  qed
qed

lemma moves_attempt:
  assumes "moves Q m"
  shows "moves (\<lambda>r. \<forall>a. r = Inr a \<longrightarrow> Q a) (attempt_s m)"
proof (rule movesI)
  fix s r s' assume v: "valid_locals s" and run: "attempt_s m s = (r, s')"
  obtain r1 s1 where m1: "m s = (r1, s1)" by fastforce
  then have "r = Inr r1" "s' = s1" using run by (simp_all add: attempt_s_def)
  with movesD [OF assms v m1] show "arena_step\<^sup>*\<^sup>* (rn_db s) (rn_db s') \<and> valid_locals s' \<and>
      (\<forall>a. r = Inr a \<longrightarrow> (\<forall>b. a = Inr b \<longrightarrow> Q b))" by auto
qed

lemma moves_attempt_any [moves_rules]: "moves_any m \<Longrightarrow> moves_any (attempt_s m)"
  by (erule moves_weaken [OF moves_attempt])

lemma moves_read [moves_rules]: "(\<And>s. valid_locals s \<Longrightarrow> moves R (f s)) \<Longrightarrow> moves R (read_s f)"
  unfolding moves_def read_s_def by blast

lemma moves_if [moves_rules]: "(b \<Longrightarrow> moves R m) \<Longrightarrow> (\<not> b \<Longrightarrow> moves R n) \<Longrightarrow> moves R (if b then m else n)"
  by simp

lemma moves_option [moves_rules]:
  "(x = None \<Longrightarrow> moves R m) \<Longrightarrow> (\<And>a. x = Some a \<Longrightarrow> moves R (n a)) \<Longrightarrow>
   moves R (case x of None \<Rightarrow> m | Some a \<Rightarrow> n a)"
  by (cases x) simp_all

lemma moves_sum [moves_rules]:
  "(\<And>e. x = Inl e \<Longrightarrow> moves R (m e)) \<Longrightarrow> (\<And>a. x = Inr a \<Longrightarrow> moves R (n a)) \<Longrightarrow>
   moves R (case x of Inl e \<Rightarrow> m e | Inr a \<Rightarrow> n a)"
  by (cases x) simp_all

lemma moves_prod [moves_rules]: "(\<And>a b. x = (a, b) \<Longrightarrow> moves R (m a b)) \<Longrightarrow> moves R (case x of (a, b) \<Rightarrow> m a b)"
  by (cases x) simp

lemma moves_let [moves_rules]: "moves R (f x) \<Longrightarrow> moves R (let y = x in f y)"
  by simp

section \<open>Calls of the repositories\<close>

lemma moves_db_op:
  assumes "\<And>db r db'. f db = (r, db') \<Longrightarrow> arena_step\<^sup>*\<^sup>* db db'"
  shows "moves_any (db_op f)"
proof (rule movesI)
  fix s :: "'s run" and r s' assume v: "valid_locals s" and run: "db_op f s = (r, s')"
  obtain r1 db1 where f1: "f (rn_db s) = (r1, db1)" by fastforce
  then have "s' = s\<lparr>rn_db := db1\<rparr>" using run by (simp add: db_op_def)
  with v assms [OF f1] show "arena_step\<^sup>*\<^sup>* (rn_db s) (rn_db s') \<and> valid_locals s' \<and> (\<forall>a. r = Inr a \<longrightarrow> True)"
    by (simp add: valid_locals_def observed_usage_def)
qed

lemma moves_step_op: "(\<And>db r db'. f db = (r, db') \<Longrightarrow> arena_step db db') \<Longrightarrow> moves_any (db_op f)"
  by (rule moves_db_op) blast

lemma moves_tx_op:
  assumes "\<And>db a db'. f db = Inr (a, db') \<Longrightarrow> arena_step db db'"
  shows "moves_any (tx_op f)"
  unfolding tx_op_def
proof (rule moves_db_op)
  fix db r db' assume "transaction f db = (r, db')"
  then show "arena_step\<^sup>*\<^sup>* db db'"
    using assms by (cases "f db") (auto simp: transaction_def)
qed

lemma moves_store_op [moves_rules]: "moves_any (store_op f)"
  by (rule movesI) (auto simp: store_op_def valid_locals_def observed_usage_def split: prod.splits)

lemma moves_append [moves_rules]: "moves_any (db_op (append_attempt_event_op a ty pl))"
  unfolding append_attempt_event_op_def tx_op_def [symmetric]
proof (rule moves_tx_op)
  fix db n db' assume "append_attempt_event a ty pl db = Inr (n, db')"
  then have "record_diagnostic a ty pl db = Inr ((), db')" by (simp add: record_diagnostic_def)
  then show "arena_step db db'" by (intro as_job js_record_diagnostic)
qed

lemma moves_job_ops [moves_rules]:
  "moves_any (tx_op (finalize h i ow oc st md now tok fu c))"
  "moves_any (tx_op (heartbeat i ow tok ls now))"
  "moves_any (tx_op (record_diagnostic a ty pl))"
  "moves_any (tx_op (claim ow ls now k p x tok))"
  "moves_any (tx_op (retry kc i now a ni c))"
  by (rule moves_tx_op, rule as_job, erule job_step.intros)+

lemma moves_fail [moves_rules]: "moves_any (tx_op (fail h i ow tok st md now c))"
  unfolding fail_def [abs_def] by (rule moves_job_ops)

lemma moves_invocation_ops [moves_rules]:
  "moves_any (db_op (begin_invocation h lease inp dl now i nonce))"
  "moves_any (db_op (mark_transport_context iv b now))"
  "moves_any (db_op (mark_dispatch_started iv now))"
  "moves_any (db_op (observe_provider_request h iv q now))"
  "moves_any (db_op (admit_terminal iv d oc u now))"
  "moves_any (db_op (cancel_transition iv st now))"
  "moves_any (db_op (mark_lease_lost iv now))"
  by (rule moves_step_op, rule as_invocation, erule invocation_step.intros)+

lemma moves_cancel_ops [moves_rules]:
  "moves_any (db_op (iv_request_cancel iv now))"
  "moves_any (db_op (mark_cancel_dispatched iv now))"
  "moves_any (db_op (mark_cancel_unknown iv now))"
  "moves_any (db_op (mark_cancel_acknowledged iv now))"
  by (simp_all add: iv_request_cancel_def mark_cancel_dispatched_def mark_cancel_unknown_def mark_cancel_acknowledged_def
      moves_invocation_ops)

lemma moves_reservation_ops [moves_rules]:
  "moves_any (tx_op (reserve_with_aggregate x a m c t k lims l r now))"
  "moves_any (tx_op (settle_open_for_invocation i reason now))"
  by (rule moves_tx_op, rule as_reservation, erule reservation_step.intros)+

lemma moves_settle_ops [moves_rules]:
  "opt_all valid_usage u \<Longrightarrow> moves_any (db_op (unknown l u now))"
  "opt_all valid_usage u \<Longrightarrow> moves_any (db_op (mismatch l u now))"
  "opt_all valid_usage (ri_usage i) \<Longrightarrow> moves_any (db_op (reconcile l i now))"
  by (rule moves_step_op, rule as_reservation, erule (1) reservation_step.intros)+

lemma moves_writes [moves_rules]:
  "moves_any (tx_op (mark_started_body a x now))"
  "moves_any (tx_op (synchronize_usage_state i now))"
  unfolding tx_op_def by (rule moves_step_op, erule arena_step.intros)+

lemma moves_locals [moves_rules]:
  "moves_any (modify_s (rn_adapter_update f))"
  "moves_any (modify_s (rn_prepared_update f))"
  "moves_any (modify_s (rn_reservation_update g))"
  "moves_any (modify_s (rn_evidence_update k))"
  "moves_any (modify_s (rn_invocation_update l))"
  "moves_any (modify_s fresh_locals)"
  by (rule moves_modify, simp add: valid_locals_def observed_usage_def fresh_locals_def)+

lemma moves_set_result: "opt_all valid_usage (rb_usage r) \<Longrightarrow> moves_any (modify_s (rn_result_update (\<lambda>_. Some r)))"
  by (rule moves_modify) (simp add: valid_locals_def observed_usage_def)

section \<open>What the worker relies on of an adapter\<close>

text \<open>
  Each call of the adapter leaves the database to the services, and a result it returns carries a
  \<open>ProviderUsage\<close> that satisfies its validator, as every instance of that model does.
\<close>

definition valid_result :: "result_bundle \<Rightarrow> bool" where
  "valid_result r \<longleftrightarrow> opt_all valid_usage (rb_usage r)"

locale worker_port =
  fixes ad :: "'s adapter_calls"
  assumes prepare_moves [moves_rules]: "moves_any (ad_prepare ad harness input)"
    and execute_moves: "moves valid_result (ad_execute ad)"
    and collect_moves [moves_rules]: "moves_any (ad_collect ad)"
    and cleanup_moves [moves_rules]: "moves_any (ad_cleanup ad)"
    and cancel_moves [moves_rules]: "moves_any (ad_cancel ad)"

definition benign :: "'s sched \<Rightarrow> bool" where
  "benign item = (case item of Elsewhere f \<Rightarrow> moves_any (modify_s f) | _ \<Rightarrow> True)"

definition benign_schedule :: "'s schedule \<Rightarrow> bool" where
  "benign_schedule sp \<longleftrightarrow> (\<forall>item \<in> set (sp_first sp @ sp_second sp @ sp_last sp). benign item)"

section \<open>The kernel\<close>

lemma moves_terminal [moves_rules]: "moves_any (terminal env lease oc st md)"
  unfolding terminal_def by (intro moves_rules TrueI)

lemma moves_persist [moves_rules]:
  "moves_any (persist_generated env j mt md)" "moves_any (persist_trace env evs)" "moves_any (persist_refs env refs)"
  unfolding persist_generated_def persist_trace_def persist_refs_def by (intro moves_rules)+

lemma moves_diagnose [moves_rules]: "moves_any (diagnose lease ty c)"
  unfolding diagnose_def by (intro moves_rules TrueI)

lemma moves_derive [moves_rules]: "moves_any (derive_manipulation_evidence env envelope evs)"
  unfolding derive_manipulation_evidence_def by (intro moves_rules TrueI)

lemma moves_set_evidence [moves_rules]: "moves_any (set_evidence f)"
  unfolding set_evidence_def by (intro moves_rules)

lemma moves_reserve [moves_rules]: "moves_any (reserve_once env lease envelope)"
  unfolding reserve_once_def by (intro moves_rules TrueI)

lemma moves_mark_started [moves_rules]: "moves_any (mark_started env lease)"
  unfolding mark_started_def by (intro moves_rules TrueI)

lemma moves_reconcile_unknown [moves_rules]:
  "opt_all valid_usage u \<Longrightarrow> moves_any (reconcile_unknown env l u)"
  unfolding reconcile_unknown_def by (intro moves_rules)

lemma moves_reconcile [moves_rules]:
  assumes "valid_result result"
  shows "moves_any (reconcile_result env l result envelope)"
  using assms unfolding reconcile_result_def valid_result_def
  by (auto split: option.split intro!: moves_rules)

lemma moves_collect_event [moves_rules]: "moves_any (collect_event env envelope e)"
  unfolding collect_event_def by (intro moves_rules TrueI)

text \<open>The result of a finished execution is valid.\<close>

definition valid_tasks :: "tasks \<Rightarrow> bool" where
  "valid_tasks tk \<longleftrightarrow> (\<forall>r. tk_execute tk = Some (Inr r) \<longrightarrow> valid_result r)"

definition valid_outcome :: "result_bundle result \<times> tasks \<Rightarrow> bool" where
  "valid_outcome p \<longleftrightarrow> (\<forall>r. fst p = Inr r \<longrightarrow> valid_result r) \<and> valid_tasks (snd p)"

context worker_port
begin

lemma collect_on_finish_moves [moves_rules]: "moves_any (collect_on_finish env ad md)"
  unfolding collect_on_finish_def by (intro moves_rules TrueI)

lemma finish_moves [moves_rules]: "moves_any (finish env ad lease t)"
  unfolding finish_def by (intro moves_rules TrueI)

lemma cancel_with_timeout_moves [moves_rules]: "moves_any (cancel_with_timeout ad lease d)"
  unfolding cancel_with_timeout_def by (intro moves_rules TrueI)

lemma supervise_tick_moves [moves_rules]: "moves_any (supervise_tick ad lease ls now)"
  unfolding supervise_tick_def Let_def by (intro moves_rules TrueI)

lemma sched_step_moves:
  assumes "benign item" and "valid_tasks tk"
  shows "moves valid_tasks (sched_step env ad lease ls envelope item tk)"
proof (cases item)
  case Execute_end
  have "moves valid_tasks (bind_s (attempt_s (ad_execute ad)) (\<lambda>r. return_s (tk\<lparr>tk_execute := Some r\<rparr>)))"
    by (rule moves_bind_post [OF moves_attempt [OF execute_moves]]) (auto intro!: moves_rules simp: valid_tasks_def)
  with assms show ?thesis
    by (auto simp: sched_step_def Execute_end intro: moves_return)
next
  case (Elsewhere f)
  with assms show ?thesis
    by (auto simp: sched_step_def benign_def intro!: moves_rules)
qed (use assms in \<open>auto simp: sched_step_def valid_tasks_def split: sum.split option.split intro!: moves_rules\<close>)

lemma run_sched_moves:
  "\<forall>item \<in> set items. benign item \<Longrightarrow> valid_tasks tk \<Longrightarrow>
   moves valid_tasks (run_sched env ad lease ls envelope items tk)"
proof (induction items arbitrary: tk)
  case Nil
  then show ?case by (simp add: moves_return)
next
  case (Cons item items)
  then show ?case by (auto intro!: moves_bind_post [OF sched_step_moves])
qed


lemma drain_tail_moves:
  assumes "benign_schedule sp" and "valid_result result" and "valid_tasks tk"
  shows "moves valid_outcome (drain_tail env ad lease ls envelope sp result tk)"
proof -
  have "moves valid_tasks (run_sched env ad lease ls envelope (sp_second sp) tk)"
    using assms by (intro run_sched_moves) (auto simp: benign_schedule_def)
  then show ?thesis
    using assms unfolding drain_tail_def
    by (intro moves_if moves_return moves_bind_post [where Q = valid_tasks])
      (auto simp: valid_outcome_def split: option.split sum.split)
qed

lemma await_tasks_moves:
  assumes "benign_schedule sp"
  shows "moves valid_outcome (await_tasks env ad lease ls envelope sp)"
  unfolding await_tasks_def
proof (rule moves_bind_post [OF run_sched_moves])
  show "\<forall>item \<in> set (sp_first sp). benign item" using assms by (auto simp: benign_schedule_def)
  show "valid_tasks \<lparr>tk_events = None, tk_execute = None, tk_supervisor = None\<rparr>" by (simp add: valid_tasks_def)
  fix tk assume tk: "valid_tasks tk"
  have fails: "valid_outcome (Inl e, tk)" for e using tk by (simp add: valid_outcome_def)
  have drain: "moves valid_outcome (drain_tail env ad lease ls envelope sp result tk)"
    if "tk_execute tk = Some (Inr result)" for result
    using assms tk that by (intro drain_tail_moves) (auto simp: valid_tasks_def)
  have cancel: "moves valid_outcome (bind_s (attempt_s (ad_cancel ad)) (\<lambda>r.
      return_s (case r of Inl e \<Rightarrow> Inl e | Inr _ \<Rightarrow> Inl CancellationRequested, tk)))"
    by (intro moves_rules) (auto simp: fails split: sum.split)
  show "moves valid_outcome
    (if sp_interrupted sp then return_s (Inl CancelledError, tk)
     else if tk_execute tk = None \<and> tk_supervisor tk = None then return_s (Inl TimeoutError, tk)
     else case supervisor_raises tk of
       Some e \<Rightarrow> return_s (Inl e, tk)
     | None \<Rightarrow> read_s (\<lambda>s.
         if cancel_requested (rn_db s) (jl_id lease) (jl_owner lease) (jl_token lease) = Some True
         then bind_s (attempt_s (ad_cancel ad)) (\<lambda>r.
           return_s (case r of Inl e \<Rightarrow> Inl e | Inr _ \<Rightarrow> Inl CancellationRequested, tk))
         else case tk_execute tk of
           None \<Rightarrow> return_s (Inl (AdapterError ''InvalidStateError''), tk)
         | Some (Inl e) \<Rightarrow> return_s (Inl e, tk)
         | Some (Inr result) \<Rightarrow> drain_tail env ad lease ls envelope sp result tk))"
    by (intro moves_if moves_option moves_sum moves_read moves_return fails cancel drain) simp_all
qed

lemma execute_supervised_moves:
  assumes "benign_schedule sp"
  shows "moves valid_result (execute_supervised env ad lease ls envelope sp)"
  unfolding execute_supervised_def
proof (rule moves_bind_post [OF await_tasks_moves [OF assms]])
  fix p assume p: "valid_outcome p"
  obtain r tk where rt: "p = (r, tk)" by fastforce
  show "moves valid_result (case p of (r, tk) \<Rightarrow>
      bind_s (run_sched env ad lease ls envelope (sp_last sp) tk) (\<lambda>tk'.
        lift_s (case task_error (tk_supervisor tk') of
          Some e \<Rightarrow> Inl e
        | None \<Rightarrow> (case task_error (tk_events tk') of
            Some e \<Rightarrow> Inl e
          | None \<Rightarrow> (case task_error (tk_execute tk') of Some e \<Rightarrow> Inl e | None \<Rightarrow> r)))))"
    using p assms unfolding rt
    by (auto intro!: moves_bind_post [OF run_sched_moves] moves_lift
        simp: benign_schedule_def valid_outcome_def split: option.splits)
qed

lemma conclude_moves:
  assumes "valid_result result"
  shows "moves_any (conclude env ad lease harness scenario envelope l result)"
  unfolding conclude_def by (intro moves_rules TrueI assms)

lemma perform_moves [moves_rules]:
  assumes "benign_schedule sp"
  shows "moves_any (perform env ad sp lease harness input envelope)"
  unfolding perform_def
  by (intro moves_rules TrueI moves_bind_post [OF execute_supervised_moves [OF assms]])
    (auto intro!: moves_rules moves_set_result conclude_moves simp: valid_result_def)


lemma lease_body_moves [moves_rules]:
  assumes "benign_schedule sp"
  shows "moves_any (lease_body env ad sp lease)"
  unfolding lease_body_def Let_def
  by (auto intro!: moves_rules perform_moves [OF assms] split: option.split list.split prod.split)

lemma handle_error_moves [moves_rules]: "moves_any (handle_error env ad lease e)"
  unfolding handle_error_def
  by (cases e) (auto intro!: moves_rules simp: valid_locals_def)

lemma run_lease_moves [moves_rules]:
  assumes "benign_schedule sp"
  shows "moves_any (run_lease env ad sp lease)"
  unfolding run_lease_def by (intro moves_rules assms TrueI)

end

section \<open>The fenced adapter\<close>

lemma moves_with_invocation: "(\<And>iv. moves R (f iv)) \<Longrightarrow> moves R (with_invocation f)"
  unfolding with_invocation_def by (intro moves_rules) auto

lemma moves_set_invocation [moves_rules]: "moves_any (set_invocation iv)"
  unfolding set_invocation_def by (intro moves_rules)

lemma moves_get_current [moves_rules]: "moves_any (get_current i)"
  unfolding get_current_def by (intro moves_rules TrueI)

lemma moves_fail_incomplete [moves_rules]: "moves_any (fail_incomplete env lease d x)"
  unfolding fail_incomplete_def by (intro moves_rules TrueI)

lemma moves_exit_scope [moves_rules]: "moves_any (exit_scope fe iv result r)"
  unfolding exit_scope_def by (auto intro!: moves_rules split: py_error.split)

lemma moves_admit_execution:
  assumes "valid_result result"
  shows "moves valid_result (admit_execution fe result)"
  unfolding admit_execution_def
  by (intro moves_bind moves_with_invocation)
    (auto intro!: moves_rules moves_with_invocation simp: assms split: option.split list.split)

context worker_port
begin

lemma fence_cancel_moves [moves_rules]: "moves_any (fence_cancel fe ad)"
  unfolding fence_cancel_def by (auto intro!: moves_rules moves_with_invocation split: sum.split)

lemma fence_prepare_moves: "moves_any (fence_prepare fe iv ad harness input)"
  unfolding fence_prepare_def Let_def by (auto intro!: moves_rules moves_with_invocation)

lemma fence_execute_moves: "moves valid_result (fence_execute fe iv ad)"
  unfolding fence_execute_def
proof (intro moves_if)
  show "moves valid_result (bind_s (attempt_s (ad_execute ad)) (\<lambda>r. case r of
      Inr result \<Rightarrow> admit_execution fe result
    | Inl e \<Rightarrow> if e = TimeoutError
        then bind_s (fence_cancel fe ad) (\<lambda>_.
          lift_s (Inl (AggregateBudgetExceeded ''aggregate wall-time budget expired during provider execution'')))
        else lift_s (Inl e)))"
    by (rule moves_bind_post [OF moves_attempt [OF execute_moves]])
      (auto intro!: moves_rules moves_admit_execution split: sum.split)
qed (auto intro!: moves_rules)

lemma fenced_port: "worker_port (fence_adapter fe iv ad)"
  by unfold_locales
    (simp_all add: fence_adapter_def fence_prepare_moves fence_execute_moves fence_cancel_moves
      collect_moves cleanup_moves)

lemma fenced_scope_moves [moves_rules]:
  assumes "benign_schedule sp"
  shows "moves_any (fenced_scope fe env ad sp lease iv)"
  unfolding fenced_scope_def
  by (auto intro!: moves_rules worker_port.run_lease_moves [OF fenced_port assms] split: sum.split py_error.split)

lemma fenced_run_lease_moves [moves_rules]:
  assumes "benign_schedule sp"
  shows "moves_any (fenced_run_lease fe env ad sp lease)"
  unfolding fenced_run_lease_def
  by (auto intro!: moves_rules assms split: option.split json.split)

lemma validated_run_lease_moves:
  assumes "benign_schedule sp"
  shows "moves_any (validated_run_lease fe env ad sp lease)"
  unfolding validated_run_lease_def
  by (auto intro!: moves_rules assms split: option.split json.split sum.split py_error.split)

end

section \<open>Adapters\<close>

text \<open>
  A plugged-in adapter is another program: it has no connection to the database and answers each call
  as it likes. A result it returns has passed the validator of its usage.
\<close>

record 's plugin =
  pg_prepare :: "harness_spec \<Rightarrow> attempt_input \<Rightarrow> 's run \<Rightarrow> unit result"
  pg_execute :: "'s run \<Rightarrow> result_bundle result"
  pg_collect :: "'s run \<Rightarrow> artifact_ref list result"
  pg_cleanup :: "'s run \<Rightarrow> unit result"
  pg_cancel :: "'s run \<Rightarrow> unit result"

definition isolated_adapter :: "'s plugin \<Rightarrow> 's adapter_calls" where
  "isolated_adapter p =
     \<lparr>ad_prepare = (\<lambda>harness input s. (pg_prepare p harness input s, s)),
      ad_execute = (\<lambda>s. (bind_r (pg_execute p s) (\<lambda>r.
        if valid_result r then Inr r else Inl (ValueError ''usage'')), s)),
      ad_collect = (\<lambda>s. (pg_collect p s, s)), ad_cleanup = (\<lambda>s. (pg_cleanup p s, s)),
      ad_cancel = (\<lambda>s. (pg_cancel p s, s))\<rparr>"

interpretation isolated: worker_port "isolated_adapter p" for p
  by unfold_locales (auto simp: isolated_adapter_def moves_def bind_r_eq_Inr_iff split: if_splits)

interpretation fenced: worker_port "fence_adapter fe iv (isolated_adapter p)" for fe iv p
  by (rule isolated.fenced_port)

end
