(* ===== verification/Worker_Durability.thy ===== *)
theory Worker_Durability
  imports Worker_Refinement
begin

text \<open>
  What a worker reports is what the database holds: the status in a \<open>WorkerResult\<close> is the terminal
  status of the job, unless the lease was lost. The judgement \<open>durable_run\<close> has the same shape of rules
  as \<open>moves\<close>.
\<close>

named_theorems durable_rules "rules for durable results"

definition durable :: "job_lease \<Rightarrow> arena_db \<Rightarrow> worker_result \<Rightarrow> bool" where
  "durable lease db w \<longleftrightarrow> wr_job_id w = jl_id lease \<and> (wr_status w = ''lost'' \<or>
     (\<exists>j \<in> set (db_jobs db). jb_id j = jl_id lease \<and> terminal_job j \<and> wr_status w = job_status_name (jb_status j)))"

definition durable_run :: "job_lease \<Rightarrow> ('s, worker_result) step \<Rightarrow> bool" where
  "durable_run lease m \<longleftrightarrow> (\<forall>s w s'. valid_locals s \<longrightarrow> arena_inv (rn_db s) \<longrightarrow> m s = (Inr w, s') \<longrightarrow>
     durable lease (rn_db s') w)"

lemma arena_steps_inv: "arena_step\<^sup>*\<^sup>* db db' \<Longrightarrow> arena_inv db \<Longrightarrow> arena_inv db'"
  by (induction rule: rtranclp_induct) (blast intro: arena_step_inv)+

lemma durable_bind_post:
  assumes m: "moves Q m" and f: "\<And>a. Q a \<Longrightarrow> durable_run lease (f a)"
  shows "durable_run lease (bind_s m f)"
  unfolding durable_run_def
proof (intro allI impI)
  fix s w s' assume v: "valid_locals s" "arena_inv (rn_db s)" and run: "bind_s m f s = (Inr w, s')"
  then obtain a s1 where m1: "m s = (Inr a, s1)" and f1: "f a s1 = (Inr w, s')"
    by (auto simp: bind_s_def split: prod.splits sum.splits)
  note d = movesD [OF m v(1) m1]
  have "durable_run lease (f a)" by (rule f [OF d(3)]) simp
  with d(2) f1 arena_steps_inv [OF d(1) v(2)] show "durable lease (rn_db s') w"
    unfolding durable_run_def by blast
qed

lemma durable_bind [durable_rules]: "moves_any m \<Longrightarrow> (\<And>a. durable_run lease (f a)) \<Longrightarrow> durable_run lease (bind_s m f)"
  by (rule durable_bind_post)

lemma durable_raise [durable_rules]: "durable_run lease (lift_s (Inl e))"
  by (simp add: durable_run_def lift_s_def)

lemma durable_read [durable_rules]: "(\<And>s. valid_locals s \<Longrightarrow> durable_run lease (f s)) \<Longrightarrow> durable_run lease (read_s f)"
  unfolding durable_run_def read_s_def by blast

lemma durable_if [durable_rules]:
  "(b \<Longrightarrow> durable_run lease m) \<Longrightarrow> (\<not> b \<Longrightarrow> durable_run lease n) \<Longrightarrow> durable_run lease (if b then m else n)"
  by simp

lemma durable_option [durable_rules]:
  "(x = None \<Longrightarrow> durable_run lease m) \<Longrightarrow> (\<And>a. x = Some a \<Longrightarrow> durable_run lease (n a)) \<Longrightarrow>
   durable_run lease (case x of None \<Rightarrow> m | Some a \<Rightarrow> n a)"
  by (cases x) simp_all

lemma durable_prod [durable_rules]:
  "(\<And>a b. x = (a, b) \<Longrightarrow> durable_run lease (m a b)) \<Longrightarrow> durable_run lease (case x of (a, b) \<Rightarrow> m a b)"
  by (cases x) simp

text \<open>The outcome of a durable step, kept as a value: what follows may assume it was durable.\<close>

lemma durable_attempt:
  assumes m: "moves_any m" "durable_run lease m"
    and f: "\<And>r s w s'. valid_locals s \<Longrightarrow> arena_inv (rn_db s) \<Longrightarrow> (\<And>v. r = Inr v \<Longrightarrow> durable lease (rn_db s) v) \<Longrightarrow>
      f r s = (Inr w, s') \<Longrightarrow> durable lease (rn_db s') w"
  shows "durable_run lease (bind_s (attempt_s m) f)"
  unfolding durable_run_def
proof (intro allI impI)
  fix s w s' assume v: "valid_locals s" "arena_inv (rn_db s)" and run: "bind_s (attempt_s m) f s = (Inr w, s')"
  obtain r s1 where m1: "m s = (r, s1)" by fastforce
  with run have f1: "f r s1 = (Inr w, s')" by (simp add: bind_s_def attempt_s_def)
  note d = movesD [OF m(1) v(1) m1]
  have "durable lease (rn_db s1) a" if "r = Inr a" for a
    using m(2) v m1 that unfolding durable_run_def by blast
  with d(2) arena_steps_inv [OF d(1) v(2)] show "durable lease (rn_db s') w" using f1 by (rule f)
qed

lemma durable_finalize:
  "durable_run lease (bind_s (tx_op (finalize h (jl_id lease) ow oc st md now tok fu c)) (\<lambda>winner.
     return_s \<lparr>wr_job_id = jl_id lease, wr_status = status_or_lost winner, wr_detail = d\<rparr>))"
  unfolding durable_run_def
proof (intro allI impI)
  fix s :: "'s run" and w s'
  assume inv: "arena_inv (rn_db s)" and run: "bind_s (tx_op (finalize h (jl_id lease) ow oc st md now tok fu c)) (\<lambda>winner.
     return_s \<lparr>wr_job_id = jl_id lease, wr_status = status_or_lost winner, wr_detail = d\<rparr>) s = (Inr w, s')"
  then obtain winner where fin: "finalize h (jl_id lease) ow oc st md now tok fu c (rn_db s) = Inr (winner, rn_db s')"
      and w: "w = \<lparr>wr_job_id = jl_id lease, wr_status = status_or_lost winner, wr_detail = d\<rparr>"
    by (auto simp: bind_s_def tx_op_def db_op_def transaction_def return_s_def split: sum.splits prod.splits)
  have "distinct (map jb_id (db_jobs (rn_db s)))" using inv by (intro jobs_keys) (simp add: arena_inv_def)
  with fin show "durable lease (rn_db s') w"
    by (cases winner) (auto simp: durable_def w status_or_lost_def dest!: finalize_returns_terminal [rotated])
qed

lemma durable_terminal [durable_rules]: "durable_run lease (terminal env lease oc st md)"
  unfolding terminal_def Let_def by (rule durable_finalize)

lemma durable_fail [durable_rules]:
  "durable_run lease (bind_s (tx_op (fail h (jl_id lease) ow tok st md now c)) (\<lambda>winner.
     return_s \<lparr>wr_job_id = jl_id lease, wr_status = status_or_lost winner, wr_detail = d\<rparr>))"
  unfolding fail_def [abs_def] by (rule durable_finalize)

section \<open>The kernel\<close>

context worker_port
begin

lemma finish_durable [durable_rules]: "durable_run lease (finish env ad lease t)"
  unfolding finish_def by (intro durable_rules) (intro moves_rules TrueI)+

lemma conclude_durable:
  assumes "valid_result result"
  shows "durable_run lease (conclude env ad lease harness scenario envelope l result)"
  unfolding conclude_def by (intro durable_rules; (intro moves_rules TrueI assms)?)

lemma perform_durable:
  assumes "benign_schedule sp"
  shows "durable_run lease (perform env ad sp lease harness input envelope)"
proof -
  have tail: "durable_run lease (bind_s (execute_supervised env ad lease ls envelope sp) (\<lambda>result.
     bind_s (modify_s (rn_result_update (\<lambda>_. Some result))) (\<lambda>_.
     if we_elapsed env > bs_max_latency_seconds (av_budget envelope)
     then finish env ad lease (terminal_failure ''failed'' ''timed_out'' ''latency_budget_exceeded'' (Some ''transient''))
     else conclude env ad lease harness scenario envelope l result)))" for ls scenario l
    by (rule durable_bind_post [OF execute_supervised_moves [OF assms]])
      (auto intro!: durable_rules moves_set_result conclude_durable simp: valid_result_def)
  show ?thesis
    unfolding perform_def by (intro durable_bind tail) (intro moves_rules TrueI)+
qed

lemma lease_body_durable:
  assumes "benign_schedule sp"
  shows "durable_run lease (lease_body env ad sp lease)"
  unfolding lease_body_def Let_def
  by (auto intro!: durable_rules moves_rules perform_durable [OF assms] split: option.split list.split prod.split)

lemma handle_error_durable: "durable_run lease (handle_error env ad lease e)"
  unfolding handle_error_def
  by (cases e) (auto intro!: durable_rules moves_rules simp: valid_locals_def)


lemma run_lease_durable:
  assumes "benign_schedule sp"
  shows "durable_run lease (run_lease env ad sp lease)"
proof -
  have "durable_run lease (bind_s (attempt_s (lease_body env ad sp lease)) (\<lambda>r.
      case r of Inr result \<Rightarrow> return_s result | Inl e \<Rightarrow> handle_error env ad lease e))"
  proof (rule durable_attempt [OF lease_body_moves [OF assms] lease_body_durable [OF assms]])
    fix r s w s'
    assume s: "valid_locals s" "arena_inv (rn_db s)" "\<And>v. r = Inr v \<Longrightarrow> durable lease (rn_db s) v"
      and run: "(case r of Inr result \<Rightarrow> return_s result | Inl e \<Rightarrow> handle_error env ad lease e) s = (Inr w, s')"
    show "durable lease (rn_db s') w"
    proof (cases r)
      case (Inl e)
      with handle_error_durable [of lease env e] s(1,2) run show ?thesis by (simp add: durable_run_def)
    next
      case (Inr a)
      with s(3) run show ?thesis by (simp add: return_s_def)
    qed
  qed
  then show ?thesis unfolding run_lease_def by (rule durable_bind [OF moves_locals(6)])
qed

end

section \<open>The fenced and the validated worker\<close>

lemma arena_step_terminal:
  assumes "arena_step db db'" and "arena_inv db" and "j \<in> set (db_jobs db)" and "terminal_job j"
  shows "j \<in> set (db_jobs db')"
  using assms(1)
proof cases
  case as_job
  then have "db_move\<^sup>*\<^sup>* db db'" using assms(2) jobs_keys by (auto simp: arena_inv_def intro: job_step_moves)
  then show ?thesis using assms(3,4) by (rule db_moves_terminal)
next
  case as_invocation
  then have "iv_refines db db'" using assms(2) by (intro invocation_step_refines) (simp_all add: arena_inv_def)
  then show ?thesis using assms(3) by (auto simp: iv_refines_def only_invocations_def)
next
  case as_reservation
  then have "res_move\<^sup>*\<^sup>* db db'" using assms(2) by (intro reservation_step_moves) (simp_all add: arena_inv_def)
  from res_moves_tables [OF this] show ?thesis using assms(3) by auto
next
  case (as_start a x now r)
  then have "db_move\<^sup>*\<^sup>* db db'"
    by (auto simp: transaction_def split: sum.splits intro: mark_started_moves)
  then show ?thesis using assms(3,4) by (rule db_moves_terminal)
next
  case (as_synchronize i now r)
  then have "db' = db \<or> synchronize_usage_state i now db = Inr ((), db')"
    by (auto simp: transaction_def split: sum.splits)
  then show ?thesis
    using assms(3) by (auto elim!: synchronize_cases simp: update_invocation_def)
qed

lemma durable_stable:
  assumes "arena_step\<^sup>*\<^sup>* db db'" and "arena_inv db" and "durable lease db w"
  shows "durable lease db' w"
  using assms
proof (induction rule: rtranclp_induct)
  case (step u v)
  then have "arena_inv u" "durable lease u w" by (auto intro: arena_steps_inv)
  with step(2) show ?case unfolding durable_def by (blast intro: arena_step_terminal)
qed simp

lemma exit_scope_value: "exit_scope fe iv result r s = (Inr w, s') \<Longrightarrow> r = Inr w"
  by (auto simp: exit_scope_def bind_s_def lift_s_def split: prod.splits sum.splits)

text \<open>A step whose result was durable when it was produced, followed by the exit of the scope.\<close>

lemma exit_scope_durable:
  assumes "valid_locals s" and "arena_inv (rn_db s)" and "exit_scope fe iv result r s = (Inr w, s')"
    and "\<And>v. r = Inr v \<Longrightarrow> durable lease (rn_db s) v"
  shows "durable lease (rn_db s') w"
  using durable_stable [OF movesD(1) [OF moves_exit_scope assms(1,3)] assms(2)] exit_scope_value [OF assms(3)] assms(4)
  by blast

lemma fail_incomplete_durable [durable_rules]: "durable_run lease (fail_incomplete env lease d x)"
  unfolding fail_incomplete_def by (rule durable_fail)

context worker_port
begin

lemma fenced_scope_durable [durable_rules]:
  assumes "benign_schedule sp"
  shows "durable_run lease (fenced_scope fe env ad sp lease iv)"
  unfolding fenced_scope_def
proof (rule durable_bind [OF moves_set_invocation], rule durable_attempt [OF
      worker_port.run_lease_moves [OF fenced_port assms] worker_port.run_lease_durable [OF fenced_port assms]], goal_cases)
  case (1 _ r s w s')
  have exit: "durable lease (rn_db s') w"
    if "moves_any m" "m s = (x, s2)" "exit_scope fe iv result q s2 = (Inr w, s')"
      "\<And>v. q = Inr v \<Longrightarrow> durable lease (rn_db s2) v" for m :: "('s, 'b) step" and x s2 result q
    using movesD(2) [OF that(1) 1(1) that(2)] arena_steps_inv [OF movesD(1) [OF that(1) 1(1) that(2)] 1(2)] that(3,4)
    by (rule exit_scope_durable)
  show ?case
  proof (cases r)
    case (Inr result)
    define k :: "('s, unit) step" where "k = (if wr_detail result = Some ''lease_lost''
      then bind_s (db_op (mark_lease_lost iv (fe_clock fe ''lost''))) (\<lambda>_. return_s ()) else return_s ())"
    obtain x s2 where k2: "k s = (x, s2)" by fastforce
    have k: "moves_any k" unfolding k_def by (intro moves_rules TrueI)
    have run: "exit_scope fe iv (Some result) (case x of Inl e \<Rightarrow> Inl e | Inr _ \<Rightarrow> Inr result) s2 = (Inr w, s')"
      using 1(4) k2 unfolding Inr by (simp add: k_def [symmetric] bind_s_def attempt_s_def)
    have "durable lease (rn_db s2) result"
      using movesD(1) [OF k 1(1) k2] 1(2) by (rule durable_stable) (rule 1(3) [OF Inr])
    with run show ?thesis by (intro exit [OF k k2 run]) (auto split: sum.splits)
  next
    case (Inl e)
    show ?thesis
    proof (cases "\<exists>m. e = DuplicateProviderRequest m")
      case True
      obtain x s2 where f2: "fail_incomplete env lease ''duplicate_provider_request'' [] s = (x, s2)" by fastforce
      have run: "exit_scope fe iv (case x of Inl _ \<Rightarrow> None | Inr w \<Rightarrow> Some w) x s2 = (Inr w, s')"
        using 1(4) f2 True unfolding Inl by (auto simp: bind_s_def attempt_s_def)
      show ?thesis
        by (rule exit [OF moves_fail_incomplete f2 run])
          (use fail_incomplete_durable [of lease env "''duplicate_provider_request''" "[]"] 1(1,2) f2 in
            \<open>simp add: durable_run_def\<close>)
    next
      case False
      then have "exit_scope fe iv None (Inl e) s = (Inr w, s')"
        using 1(4) unfolding Inl by (cases e) simp_all
      then show ?thesis by (auto dest: exit_scope_value)
    qed
  qed
qed

lemma fenced_run_lease_durable:
  assumes "benign_schedule sp"
  shows "durable_run lease (fenced_run_lease fe env ad sp lease)"
  unfolding fenced_run_lease_def
  by (auto intro!: durable_rules moves_rules assms run_lease_durable split: option.split json.split)

lemma validated_run_lease_durable:
  assumes "benign_schedule sp"
  shows "durable_run lease (validated_run_lease fe env ad sp lease)"
  unfolding validated_run_lease_def
  by (auto intro!: durable_rules fenced_run_lease_durable run_lease_durable assms
      split: option.split json.split sum.split py_error.split)

end

end
