(* ===== verification/Worker_Settlement.thy ===== *)
theory Worker_Settlement
  imports Worker_Durability
begin

text \<open>
  What the exit of a fenced run guarantees: whatever way the run ended, no reservation of its
  invocation is left open, and the usage recorded on the invocation is the one its reservations give.
\<close>

section \<open>Settling what was left open\<close>

definition exit_state :: "invocation_row \<Rightarrow> reservation_state" where
  "exit_state iv = (if iv_side_effect_state iv = Eff_not_started then Res_released else Res_unknown_usage)"

lemma settle_open_row_exact:
  assumes inv: "reservations_inv db" and row: "row \<in> set (db_reservations db)" "br_state row = Res_reserved"
  shows "\<exists>ls' db'. settle_open_row iv reason now row (ls, db) = Inr (ls', db') \<and> reservations_inv db' \<and>
    db_invocations db' = db_invocations db \<and>
    db_reservations db' = map (\<lambda>b. if b = row then moved (exit_state iv) reason now b else b) (db_reservations db)"
proof -
  have nset: "\<not> settled_row row" using row(2) by (simp add: settled_row_def SETTLED_STATES_def)
  have lk: "require_open db (br_ledger_id row) = Inr row"
    using filter_key_unique [of br_ledger_id "db_reservations db" row] inv row nset
    by (simp add: require_open_def lifecycle_def reservations_inv_def settled_row_def)
  define f where "f = (if iv_side_effect_state iv = Eff_not_started then (\<lambda>u :: ledger_row. u\<lparr>ul_cost_status := Cost_released\<rparr>)
    else clear_cost Cost_unknown)"
  have f: "settles (exit_state iv) f" "\<And>u. ledger_ok u \<Longrightarrow> ledger_ok (f u)"
    by (simp_all add: f_def exit_state_def settles_intros clear_cost_ok status_only_ok)
  obtain db1 db2 where w: "update_ledger (br_ledger_id row) f db = Inr db1"
      "transition (br_ledger_id row) (exit_state iv) reason now db1 = Inr db2" "reservations_inv db2"
      "db_reservations db2 = map (\<lambda>d. if d = row then moved (exit_state iv) reason now d else d) (db_reservations db)"
    using settlement_total [OF inv row(1) nset f(1), of reason now] f(2) by auto
  have "db_invocations db2 = db_invocations db"
    using w(1,2) by (auto simp: update_ledger_Inr transition_def bind_r_eq_Inr_iff Let_def split: if_splits)
  with w lk row(2) show ?thesis
    by (auto simp: settle_open_row_def Let_def f_def exit_state_def split: if_splits)
qed

lemma settle_open_rows_exact:
  assumes "distinct rows" and "reservations_inv db"
    and "set rows \<subseteq> {b \<in> set (db_reservations db). br_state b = Res_reserved}"
  shows "\<exists>ls' db'. for_each (settle_open_row iv reason now) rows (ls, db) = Inr (ls', db') \<and>
    db_invocations db' = db_invocations db \<and>
    db_reservations db' = map (\<lambda>b. if b \<in> set rows then moved (exit_state iv) reason now b else b) (db_reservations db)"
  using assms
proof (induction rows arbitrary: ls db)
  case Nil
  then show ?case by simp
next
  case (Cons row rows)
  obtain ls1 db1 where s1: "settle_open_row iv reason now row (ls, db) = Inr (ls1, db1)"
    and inv1: "reservations_inv db1" "db_invocations db1 = db_invocations db"
    and r1: "db_reservations db1 = map (\<lambda>b. if b = row then moved (exit_state iv) reason now b else b) (db_reservations db)"
    using settle_open_row_exact [OF Cons.prems(2), of row iv reason now ls] Cons.prems(3) by auto
  have "set rows \<subseteq> {b \<in> set (db_reservations db1). br_state b = Res_reserved}"
    using Cons.prems(1,3) by (force simp: r1)
  then obtain ls2 db2 where s2: "for_each (settle_open_row iv reason now) rows (ls1, db1) = Inr (ls2, db2)"
    and inv2: "db_invocations db2 = db_invocations db1"
    and r2: "db_reservations db2 = map (\<lambda>b. if b \<in> set rows then moved (exit_state iv) reason now b else b) (db_reservations db1)"
    using Cons.IH [OF _ inv1(1), of ls1] Cons.prems(1) by (auto simp del: mem_Collect_eq)
  have "moved (exit_state iv) reason now b \<notin> set rows" for b
    using Cons.prems(3) by (auto simp: moved_def exit_state_def)
  then have "db_reservations db2 = map (\<lambda>b. if b \<in> set (row # rows) then moved (exit_state iv) reason now b else b)
      (db_reservations db)"
    by (auto simp: r2 r1)
  with s1 s2 inv1 inv2 show ?case by auto
qed

lemma settle_open_complete:
  assumes inv: "reservations_inv db" and iv: "i \<in> iv_id ` set (db_invocations db)"
  shows "\<exists>ls db'. settle_open_for_invocation i reason now db = Inr (ls, db') \<and>
    db_invocations db' = db_invocations db \<and>
    (\<forall>b \<in> set (db_reservations db'). br_invocation_id b = Some i \<longrightarrow> br_state b \<noteq> Res_reserved)"
proof -
  obtain row where lk: "lock_invocation db (Some i) = Some row"
    using iv by (cases "filter (\<lambda>r. iv_id r = i) (db_invocations db)") (auto simp: lock_invocation_def filter_empty_conv)
  let ?rows = "filter (\<lambda>b. br_invocation_id b = Some i \<and> br_state b = Res_reserved) (db_reservations db)"
  have "distinct (map br_ledger_id (db_reservations db))" using inv by (simp add: reservations_inv_def)
  then have rows: "distinct ?rows" by (simp add: distinct_map)
  have sub: "set ?rows \<subseteq> {b \<in> set (db_reservations db). br_state b = Res_reserved}" by auto
  from settle_open_rows_exact [OF rows inv sub, of row reason now "[]"] obtain ls db' where
      run: "for_each (settle_open_row row reason now) ?rows ([], db) = Inr (ls, db')"
        "db_invocations db' = db_invocations db"
        "db_reservations db' = map (\<lambda>b. if b \<in> set ?rows then moved (exit_state row) reason now b else b) (db_reservations db)"
    by blast
  have "br_state b \<noteq> Res_reserved" if "b \<in> set (db_reservations db')" "br_invocation_id b = Some i" for b
    using that by (auto simp: run(3) moved_def exit_state_def split: if_splits)
  moreover have "settle_open_for_invocation i reason now db = Inr (ls, db')"
    using run(1) by (simp add: settle_open_for_invocation_def lk)
  ultimately show ?thesis using run(2) by blast
qed

section \<open>Invocations are never deleted\<close>

lemma update_invocation_ids:
  "(\<And>r. iv_id (f r) = iv_id r) \<Longrightarrow>
   iv_id ` set (db_invocations (update_invocation i f db)) = iv_id ` set (db_invocations db)"
  unfolding update_invocation_def by (simp add: map_key_update_where flip: set_map)

lemma arena_step_invocation:
  assumes "arena_step db db'" and "arena_inv db" and "i \<in> iv_id ` set (db_invocations db)"
  shows "i \<in> iv_id ` set (db_invocations db')"
  using assms(1)
proof cases
  case as_job
  then have "db_move\<^sup>*\<^sup>* db db'" using assms(2) jobs_keys by (auto simp: arena_inv_def intro: job_step_moves)
  then show ?thesis using assms(3) by (simp add: db_moves_frame)
next
  case as_invocation
  then have "iv_refines db db'" using assms(2) by (intro invocation_step_refines) (simp_all add: arena_inv_def)
  then have rows: "table_step\<^sup>*\<^sup>* (db_invocations db) (db_invocations db')" by (simp add: iv_refines_def)
  from assms(3) obtain r where r: "r \<in> set (db_invocations db)" "i = iv_id r" by blast
  from table_steps_safe [OF rows r(1)] obtain r' where "r' \<in> set (db_invocations db')" "iv_safe r r'" by blast
  then have "r' \<in> set (db_invocations db')" "iv_id r' = i" using r(2) iv_safe_keys by auto
  then show ?thesis by blast
next
  case as_reservation
  then have "res_move\<^sup>*\<^sup>* db db'" using assms(2) by (intro reservation_step_moves) (simp_all add: arena_inv_def)
  from res_moves_tables [OF this] show ?thesis using assms(3) by auto
next
  case (as_start a x now r)
  then have "db_move\<^sup>*\<^sup>* db db'"
    by (auto simp: transaction_def split: sum.splits intro: mark_started_moves)
  then show ?thesis using assms(3) by (simp add: db_moves_frame)
next
  case (as_synchronize i' now r)
  then have "db' = db \<or> synchronize_usage_state i' now db = Inr ((), db')"
    by (auto simp: transaction_def split: sum.splits)
  then show ?thesis
    using assms(3) by (auto elim!: synchronize_cases simp: update_invocation_ids)
qed

lemma arena_steps_invocation:
  assumes "arena_step\<^sup>*\<^sup>* db db'" and "arena_inv db" and "i \<in> iv_id ` set (db_invocations db)"
  shows "i \<in> iv_id ` set (db_invocations db')"
  using assms
proof (induction rule: rtranclp_induct)
  case (step u v)
  then show ?case by (blast intro: arena_step_invocation arena_steps_inv)
qed simp

section \<open>The exit of a fenced run\<close>

definition settled_scope :: "string \<Rightarrow> arena_db \<Rightarrow> bool" where
  "settled_scope i db \<longleftrightarrow>
     (\<forall>b \<in> set (db_reservations db). br_invocation_id b = Some i \<longrightarrow> br_state b \<noteq> Res_reserved) \<and>
     (let states = map br_state (filter (\<lambda>b. br_invocation_id b = Some i) (db_reservations db)) in
      states \<noteq> [] \<longrightarrow> (\<forall>u e. synchronized_state states = Some (u, e) \<longrightarrow>
        (\<forall>r \<in> set (db_invocations db). iv_id r = i \<longrightarrow> iv_usage_state r = u \<and> iv_side_effect_state r = e)))"

lemma synchronize_settled:
  assumes "\<forall>b \<in> set (db_reservations db). br_invocation_id b = Some i \<longrightarrow> br_state b \<noteq> Res_reserved"
  shows "\<exists>db'. synchronize_usage_state i now db = Inr ((), db') \<and> settled_scope i db'"
proof -
  let ?states = "map br_state (filter (\<lambda>b. br_invocation_id b = Some i) (db_reservations db))"
  show ?thesis
  proof (cases "?states = [] \<or> synchronized_state ?states = None")
    case True
    then have "synchronize_usage_state i now db = Inr ((), db)"
      by (auto simp: synchronize_usage_state_def Let_def)
    with True assms show ?thesis by (auto simp: settled_scope_def Let_def)
  next
    case False
    then obtain u e where ue: "?states \<noteq> []" "synchronized_state ?states = Some (u, e)" by auto
    let ?db = "update_invocation i (\<lambda>r. r\<lparr>iv_usage_state := u, iv_side_effect_state := e, iv_updated_at := now\<rparr>) db"
    have "iv_usage_state r = u \<and> iv_side_effect_state r = e" if r: "r \<in> set (db_invocations ?db)" "iv_id r = i" for r
    proof -
      from r(1) obtain r0 where "r = (if iv_id r0 = i
          then r0\<lparr>iv_usage_state := u, iv_side_effect_state := e, iv_updated_at := now\<rparr> else r0)"
        by (auto simp: update_invocation_def in_update_where_iff)
      with r(2) show ?thesis by (cases "iv_id r0 = i") simp_all
    qed
    moreover have "db_reservations ?db = db_reservations db" by (simp add: update_invocation_def)
    ultimately show ?thesis
      using ue assms by (simp add: synchronize_usage_state_def Let_def settled_scope_def)
  qed
qed

lemma get_invocation_known:
  "i \<in> iv_id ` set (db_invocations db) \<Longrightarrow> \<exists>r. get_invocation db i = Inr r \<and> iv_id r = i"
  by (cases "filter (\<lambda>r. iv_id r = i) (db_invocations db)")
    (auto simp: get_invocation_def filter_empty_conv dest: filter_eq_ConsD split: option.split)

lemma mark_lease_lost_error:
  assumes "iv_id iv \<in> iv_id ` set (db_invocations db)" and "mark_lease_lost iv now db = (Inl e, db')"
  shows "\<exists>m. e = ValueError m"
proof (cases "locked db iv False")
  case (Inl x)
  then have "e = x" using assms(2) by (simp add: mark_lease_lost_def transaction_def then_get_def)
  with Inl show ?thesis by (auto simp: locked_def split: option.splits if_splits)
next
  case (Inr cur)
  let ?db = "update_invocation (iv_id iv) (\<lambda>r. r\<lparr>iv_admission_state := (if iv_admission_state cur = Adm_duplicate
      then Adm_duplicate else Adm_stale), iv_side_effect_state := retire_side_effect (iv_side_effect_state cur),
      iv_updated_at := now\<rparr>) db"
  have "iv_id iv \<in> iv_id ` set (db_invocations ?db)"
    using assms(1) by (simp add: update_invocation_ids)
  with get_invocation_known [OF this] assms(2) Inr show ?thesis
    by (auto simp: mark_lease_lost_def transaction_def then_get_def)
qed

lemma exit_scope_settles:
  fixes s :: "'s run"
  assumes v: "valid_locals s" "arena_inv (rn_db s)" and iv: "iv_id iv \<in> iv_id ` set (db_invocations (rn_db s))"
    and run: "exit_scope fe iv result r s = (q, s')"
  shows "q = r \<and> settled_scope (iv_id iv) (rn_db s')"
proof -
  define pre :: "('s, invocation_row) step" where "pre =
    (if (case result of None \<Rightarrow> False | Some w \<Rightarrow> wr_status w = ''lost'')
     then bind_s (attempt_s (db_op (mark_lease_lost iv (fe_clock fe ''exit'')))) (\<lambda>x.
       case x of Inr iv \<Rightarrow> return_s iv | Inl (ValueError _) \<Rightarrow> get_current (iv_id iv) | Inl e \<Rightarrow> lift_s (Inl e))
     else return_s iv)"
  have pre: "moves_any pre" unfolding pre_def by (auto intro!: moves_rules split: py_error.split)
  obtain p s1 where p: "pre s = (p, s1)" by fastforce
  note d = movesD [OF pre v(1) p]
  have inv1: "arena_inv (rn_db s1)" by (rule arena_steps_inv [OF d(1) v(2)])
  have iv1: "iv_id iv \<in> iv_id ` set (db_invocations (rn_db s1))" by (rule arena_steps_invocation [OF d(1) v(2) iv])
  have "\<exists>j. p = Inr j \<and> iv_id j = iv_id iv"
  proof (cases "case result of None \<Rightarrow> False | Some w \<Rightarrow> wr_status w = ''lost''")
    case True
    obtain x db1 where x: "mark_lease_lost iv (fe_clock fe ''exit'') (rn_db s) = (x, db1)" by fastforce
    show ?thesis
    proof (cases x)
      case (Inl e)
      then obtain m where "e = ValueError m" using mark_lease_lost_error [OF iv] x by blast
      with True p x Inl have "p = get_invocation (rn_db s1) (iv_id iv)"
        by (simp add: pre_def bind_s_def attempt_s_def db_op_def get_current_def read_s_def lift_s_def) auto
      with get_invocation_known [OF iv1] show ?thesis by auto
    next
      case (Inr j)
      with True p x have "p = Inr j" by (simp add: pre_def bind_s_def attempt_s_def db_op_def return_s_def)
      moreover have "iv_id j = iv_id iv"
        using x Inr by (auto simp: mark_lease_lost_def then_get_def get_invocation_def transaction_def
            split: prod.splits sum.splits option.splits dest!: first_Some_in)
      ultimately show ?thesis by blast
    qed
  qed (use p in \<open>auto simp: pre_def return_s_def\<close>)
  then obtain j where j: "p = Inr j" "iv_id j = iv_id iv" by blast
  have "reservations_inv (rn_db s1)" using inv1 by (simp add: arena_inv_def)
  from settle_open_complete [OF this iv1, of "exit_reason result" "fe_clock fe ''settle''"] obtain ls db2 where
      db2: "settle_open_for_invocation (iv_id iv) (exit_reason result) (fe_clock fe ''settle'') (rn_db s1) = Inr (ls, db2)"
        "\<forall>b \<in> set (db_reservations db2). br_invocation_id b = Some (iv_id iv) \<longrightarrow> br_state b \<noteq> Res_reserved"
    by blast
  from synchronize_settled [OF db2(2), of "fe_clock fe ''synchronize''"] obtain db3 where
      db3: "synchronize_usage_state (iv_id iv) (fe_clock fe ''synchronize'') db2 = Inr ((), db3)" "settled_scope (iv_id iv) db3"
    by blast
  have "exit_scope fe iv result r s = (r, s1\<lparr>rn_db := db3\<rparr>)"
    unfolding exit_scope_def pre_def [symmetric]
    by (simp add: bind_s_def p j tx_op_def db_op_def transaction_def db2(1) db3(1) lift_s_def)
  with run db3(2) show ?thesis by auto
qed

text \<open>
  A step that always ends with a settled scope, raised exceptions included: what precedes the exit must
  not raise, so it is an attempted step or an assignment.
\<close>

definition settles_run :: "string \<Rightarrow> ('s, 'a) step \<Rightarrow> bool" where
  "settles_run i m \<longleftrightarrow> (\<forall>s q s'. valid_locals s \<longrightarrow> arena_inv (rn_db s) \<longrightarrow> i \<in> iv_id ` set (db_invocations (rn_db s)) \<longrightarrow>
     m s = (q, s') \<longrightarrow> settled_scope i (rn_db s'))"

lemma settles_exit: "settles_run (iv_id iv) (exit_scope fe iv result r)"
  unfolding settles_run_def using exit_scope_settles by blast

lemma settles_bind:
  assumes m: "moves_any m" "\<And>s. \<exists>a s'. m s = (Inr a, s')" and f: "\<And>a. settles_run i (f a)"
  shows "settles_run i (bind_s m f)"
  unfolding settles_run_def
proof (intro allI impI)
  fix s q s' assume v: "valid_locals s" "arena_inv (rn_db s)" "i \<in> iv_id ` set (db_invocations (rn_db s))"
    and run: "bind_s m f s = (q, s')"
  obtain a s1 where m1: "m s = (Inr a, s1)" using m(2) by blast
  with run have "f a s1 = (q, s')" by (simp add: bind_s_def)
  moreover note d = movesD [OF m(1) v(1) m1]
  ultimately show "settled_scope i (rn_db s')"
    using f [of a] d(2) arena_steps_inv [OF d(1) v(2)] arena_steps_invocation [OF d(1) v(2,3)]
    unfolding settles_run_def by blast
qed

lemma attempt_never_raises: "\<exists>a s'. attempt_s m s = (Inr a, s')"
  by (cases "m s") (simp add: attempt_s_def)

lemma settles_attempt: "moves_any m \<Longrightarrow> (\<And>r. settles_run i (f r)) \<Longrightarrow> settles_run i (bind_s (attempt_s m) f)"
  by (intro settles_bind moves_attempt_any attempt_never_raises)

context worker_port
begin

lemma fenced_scope_settles_run:
  assumes "benign_schedule sp"
  shows "settles_run (iv_id iv) (fenced_scope fe env ad sp lease iv)"
  unfolding fenced_scope_def
proof (rule settles_bind [OF moves_set_invocation], goal_cases)
  case (1 s)
  then show ?case by (simp add: set_invocation_def modify_s_def)
next
  case (2 _)
  show ?case
    by (rule settles_attempt [OF worker_port.run_lease_moves [OF fenced_port assms]])
      (auto intro!: settles_attempt settles_exit moves_rules split: sum.split py_error.split)
qed

end

end
