(* ===== verification/Worker_Checks.thy ===== *)
theory Worker_Checks
  imports Worker_Durability
begin

text \<open>
  What the worker's own checks decide: the manipulation evidence, the usage it accepts, the follow-up
  evaluation of a captured result, and the reservation it reuses.
\<close>

section \<open>Manipulation fidelity\<close>

definition has_factor :: "string \<Rightarrow> trace_event \<Rightarrow> bool" where
  "has_factor f e \<longleftrightarrow> dict_get (te_payload e) ''factor_id'' = Some (JStr f)"

lemma by_factor_entries:
  "distinct (map fst (by_factor es)) \<and>
   map_of (by_factor es) f = (if filter (has_factor f) es = [] then None else Some (filter (has_factor f) es))"
proof (induction es arbitrary: f)
  case Nil
  then show ?case by simp
next
  case (Cons e es)
  show ?case
  proof (cases "\<exists>g. has_factor g e")
    case True
    then obtain g where g: "dict_get (te_payload e) ''factor_id'' = Some (JStr g)" by (auto simp: has_factor_def)
    have IH: "distinct (map fst (by_factor es))"
        "\<And>f. map_of (by_factor es) f = (if filter (has_factor f) es = [] then None else Some (filter (has_factor f) es))"
      using Cons.IH by blast+
    have "distinct (map fst (AList.update g l (by_factor es)))" for l
      using IH(1) by (rule distinct_update)
    moreover have "has_factor k e \<longleftrightarrow> k = g" for k using g by (auto simp: has_factor_def)
    ultimately show ?thesis
      using g by (auto simp: update_conv' IH(2))
  next
    case False
    then have "by_factor (e # es) = by_factor es"
      by (auto simp: has_factor_def split: option.split json.split)
    with Cons.IH False show ?thesis by auto
  qed
qed

lemma in_by_factor:
  "(f, l) \<in> set (by_factor es) \<longleftrightarrow> l = filter (has_factor f) es \<and> l \<noteq> []"
  using by_factor_entries [of es f] map_of_eq_Some_iff [of "by_factor es" f l] by (auto split: if_splits)

lemma factor_keys: "f \<in> set (map fst (by_factor es)) \<longleftrightarrow> (\<exists>e \<in> set es. has_factor f e)"
proof -
  have "f \<in> set (map fst (by_factor es)) \<longleftrightarrow> (\<exists>l. (f, l) \<in> set (by_factor es))" by force
  also have "\<dots> \<longleftrightarrow> filter (has_factor f) es \<noteq> []" by (simp add: in_by_factor)
  finally show ?thesis by (auto simp: filter_empty_conv)
qed

text \<open>Entries of one factor each: they cover exactly the bound factors, one apiece.\<close>

lemma factor_cover:
  assumes unique: "\<And>f g e. H f e \<Longrightarrow> H g e \<Longrightarrow> f = g"
  shows "(\<forall>e \<in> E. \<exists>f. H f e) \<and> (\<forall>f. (\<exists>e \<in> E. H f e) \<longleftrightarrow> f \<in> B) \<and> (\<forall>f. (\<exists>e \<in> E. H f e) \<longrightarrow> L f) \<and>
      (\<forall>f. \<forall>e \<in> E. H f e \<longrightarrow> P e) \<longleftrightarrow>
    (\<forall>e \<in> E. \<exists>f \<in> B. H f e) \<and> (\<forall>f \<in> B. (\<exists>e \<in> E. H f e) \<and> L f \<and> (\<forall>e \<in> E. H f e \<longrightarrow> P e))"
    (is "?l \<longleftrightarrow> ?r")
proof
  assume r: ?r
  then have bound: "f \<in> B" if "e \<in> E" "H f e" for f e
    using that unique by blast
  with r show ?l by (intro conjI allI ballI impI iffI) blast+
qed blast

text \<open>
  Manipulation evidence passes exactly when no factor is bound or the trace reports, for every
  bound factor, exactly one fidelity entry, which passed with a matching compute context, and no entry
  that is malformed or about another factor.
\<close>

theorem manipulation_pass_exact:
  "fst (manipulation_evidence envelope events) \<longleftrightarrow>
     av_factor_assignments envelope = [] \<or>
     (\<forall>e \<in> set (fidelity_events events). \<exists>f \<in> fst ` set (av_factor_assignments envelope). has_factor f e) \<and>
     (\<forall>f \<in> fst ` set (av_factor_assignments envelope).
        \<exists>e. filter (has_factor f) (fidelity_events events) = [e] \<and> entry_passed e)"
proof -
  let ?es = "fidelity_events events" and ?bound = "fst ` set (av_factor_assignments envelope)"
  have malformed: "list_ex (\<lambda>e. case dict_get (te_payload e) ''factor_id'' of Some (JStr _) \<Rightarrow> False | _ \<Rightarrow> True) ?es \<longleftrightarrow>
      (\<exists>e \<in> set ?es. \<forall>f. \<not> has_factor f e)"
    by (auto simp: list_ex_iff has_factor_def split: option.split json.split)
  have keys: "set (map fst (by_factor ?es)) = {f. \<exists>e \<in> set ?es. has_factor f e}"
    using factor_keys [of _ ?es] by blast
  have single: "list_ex (\<lambda>(_, entries). length entries \<noteq> 1) (by_factor ?es) \<longleftrightarrow>
      (\<exists>f. filter (has_factor f) ?es \<noteq> [] \<and> length (filter (has_factor f) ?es) \<noteq> 1)"
    by (auto simp: list_ex_iff in_by_factor)
  have passed: "list_ex (\<lambda>(_, entries). list_ex (\<lambda>e. \<not> entry_passed e) entries) (by_factor ?es) \<longleftrightarrow>
      (\<exists>f. \<exists>e \<in> set ?es. has_factor f e \<and> \<not> entry_passed e)"
  proof
    assume "\<exists>f. \<exists>e \<in> set ?es. has_factor f e \<and> \<not> entry_passed e"
    then obtain f e where "e \<in> set ?es" "has_factor f e" "\<not> entry_passed e" by blast
    then have "(f, filter (has_factor f) ?es) \<in> set (by_factor ?es)" "e \<in> set (filter (has_factor f) ?es)"
      by (auto simp: in_by_factor filter_empty_conv)
    with \<open>\<not> entry_passed e\<close> show "list_ex (\<lambda>(_, entries). list_ex (\<lambda>e. \<not> entry_passed e) entries) (by_factor ?es)"
      unfolding list_ex_iff by blast
  next
    assume "list_ex (\<lambda>(_, entries). list_ex (\<lambda>e. \<not> entry_passed e) entries) (by_factor ?es)"
    then obtain f l e where "(f, l) \<in> set (by_factor ?es)" "e \<in> set l" "\<not> entry_passed e"
      by (auto simp: list_ex_iff)
    then show "\<exists>f. \<exists>e \<in> set ?es. has_factor f e \<and> \<not> entry_passed e"
      by (intro exI [of _ f] bexI [of _ e]) (auto simp: in_by_factor)
  qed
  have pass: "fst (manipulation_evidence envelope events) \<longleftrightarrow> av_factor_assignments envelope = [] \<or>
      (\<forall>e \<in> set ?es. \<exists>f. has_factor f e) \<and> {f. \<exists>e \<in> set ?es. has_factor f e} = ?bound \<and>
      (\<forall>f. filter (has_factor f) ?es \<noteq> [] \<longrightarrow> length (filter (has_factor f) ?es) = 1) \<and>
      (\<forall>f. \<forall>e \<in> set ?es. has_factor f e \<longrightarrow> entry_passed e)"
    by (simp add: manipulation_evidence_def Let_def malformed keys single [unfolded One_nat_def] passed del: set_map)
      (auto simp: set_map)
  have entry: "(\<exists>e. filter (has_factor f) ?es = [e] \<and> entry_passed e) \<longleftrightarrow>
      (\<exists>e \<in> set ?es. has_factor f e) \<and> length (filter (has_factor f) ?es) = 1 \<and>
      (\<forall>e \<in> set ?es. has_factor f e \<longrightarrow> entry_passed e)" (is "?l \<longleftrightarrow> ?r") for f
  proof
    assume ?l
    then obtain e where e: "filter (has_factor f) ?es = [e]" "entry_passed e" by blast
    have mem: "x \<in> set ?es \<and> has_factor f x \<longleftrightarrow> x = e" for x
      using arg_cong [OF e(1), of "\<lambda>l. x \<in> set l"] by simp
    show ?r using mem e by (intro conjI) (blast, simp, metis)
  next
    assume r: ?r
    then obtain e where e: "filter (has_factor f) ?es = [e]" by (auto simp: length_Suc_conv)
    have "e \<in> set ?es \<and> has_factor f e"
      using arg_cong [OF e, of "\<lambda>l. e \<in> set l"] by simp
    with r e show ?l by blast
  qed
  have ne: "filter (has_factor f) ?es \<noteq> [] \<longleftrightarrow> f \<in> {f. \<exists>e \<in> set ?es. has_factor f e}" for f
    by (simp add: filter_empty_conv)
  have keys_iff: "{f. \<exists>e \<in> set ?es. has_factor f e} = ?bound \<longleftrightarrow> (\<forall>f. (\<exists>e \<in> set ?es. has_factor f e) \<longleftrightarrow> f \<in> ?bound)"
    by (simp only: set_eq_iff mem_Collect_eq)
  have unique: "\<And>f g e. has_factor f e \<Longrightarrow> has_factor g e \<Longrightarrow> f = g" by (simp add: has_factor_def)
  show ?thesis
    unfolding pass entry ne keys_iff mem_Collect_eq by (simp only: factor_cover [of has_factor, OF unique])
qed

definition example_fidelity :: trace_event where
  "example_fidelity = \<lparr>te_trace_id = ''t'', te_episode_id = ''e1'', te_attempt_id = ''a1'', te_sequence = 0, te_actor = Actor_harness,
     te_event_type = Ev_state, te_timestamp = 0, te_monotonic_time = 0,
     te_payload = [(''event'', JStr ''factor_fidelity''), (''factor_id'', JStr ''f1''), (''passed'', JBool True),
       (''compute_context_matched'', JBool True)], te_payload_hash = ''d''\<rparr>"

theorem manipulation_pass_exact_witness:
  "fst (manipulation_evidence (example_envelope\<lparr>av_factor_assignments := [(''f1'', JStr ''on'')]\<rparr>) [example_fidelity])"
  unfolding manipulation_pass_exact
  by (simp add: fidelity_events_def example_fidelity_def has_factor_def dict_get_def entry_passed_def)

section \<open>Accepted usage\<close>

text \<open>
  The usage of a completed result is accepted exactly when it is there, within the token, context
  and tool-call budgets of the attempt, and, for a claim-eligible harness, reported by the provider with
  every field of the evidence and observed at the pinned endpoint; a fixture needs the three counts.
\<close>

theorem enforce_usage_exact:
  "enforce_usage result envelope eligibility True = Inr () \<longleftrightarrow>
     (\<exists>u. rb_usage result = Some u \<and>
        opt_all (\<lambda>n. n \<le> bs_max_tokens (av_budget envelope)) (pu_total_tokens u) \<and>
        opt_all (\<lambda>n. n \<le> bs_max_context_tokens (av_budget envelope)) (pu_context_tokens u) \<and>
        opt_all (\<lambda>n. n \<le> bs_max_tool_calls (av_budget envelope)) (pu_tool_calls u) \<and>
        pu_total_tokens u \<noteq> None \<and> pu_context_tokens u \<noteq> None \<and> pu_tool_calls u \<noteq> None \<and>
        (pu_input_tokens u = None \<longleftrightarrow> pu_output_tokens u = None) \<and>
        (eligibility \<noteq> Fixture_only \<longrightarrow>
           pu_evidence_source u = Provider_reported \<and> complete_evidence u \<and>
           (av_pinned_endpoint_digest envelope = None \<or>
            pu_observed_endpoint_digest u = av_pinned_endpoint_digest envelope)))"
  by (cases "rb_usage result")
    (auto simp: enforce_usage_def bind_raise_if_eq_Inr_iff raise_if_eq_Inr_iff complete_evidence_def)

section \<open>The evaluation of a captured result\<close>

lemma record_outcome_attempt:
  assumes "record_attempt_outcome row w st md db = Inr db'" and "jb_attempt_id row = Some a"
  shows "\<exists>t \<in> set (db_attempts db'). at_id t = a \<and> at_result_metadata t = md \<and>
    at_status t = (if w = Job_cancelled then ''cancelled'' else st)"
proof -
  define g where "g = (\<lambda>t :: attempt_row. t\<lparr>at_status := (if w = Job_cancelled then ''cancelled'' else st),
    at_result_metadata := md\<rparr>)"
  define db1 where "db1 = db\<lparr>db_attempts := update_where (\<lambda>t. at_id t = a) g (db_attempts db)\<rparr>"
  obtain n where app: "append_attempt_event a ''terminal''
      [(''winner'', JStr (job_status_name w)), (''reported_outcome'', JStr st)] db1 = Inr (n, db')"
    using assms by (auto simp: record_attempt_outcome_def bind_r_eq_Inr_iff db1_def g_def)
  from append_attempt_event_Inr [OF app] obtain x where "attempt_execution_ids db1 a = [x]" .
  then have "attempt_execution_ids db1 a \<noteq> []" by simp
  then obtain t where t: "t \<in> set (db_attempts db1)" "at_id t = a"
    by (auto simp: attempt_execution_ids_def filter_empty_conv)
  then obtain t0 where "t = (if at_id t0 = a then g t0 else t0)"
    by (auto simp: db1_def in_update_where_iff)
  with t(2) have "t = g t0" by (cases "at_id t0 = a") auto
  moreover have "db_attempts db' = db_attempts db1"
    using append_attempt_event_core [OF app] by (simp add: same_core_def)
  ultimately show ?thesis using t by (intro bexI [of _ t]) (simp_all add: g_def)
qed

lemma insert_followup_job:
  assumes "insert_followup h row (Some (k, p)) now c db = Inr db'"
  shows "\<exists>a. jb_attempt_id row = Some a \<and> (\<exists>j \<in> set (db_jobs db'). jb_kind j = k \<and> jb_attempt_id j = Some a)"
proof (cases "jb_attempt_id row")
  case None
  with assms show ?thesis by (simp add: insert_followup_def)
next
  case (Some a)
  let ?found = "filter (\<lambda>j. jb_attempt_id j = Some a \<and> jb_kind j = k) (db_jobs db)"
  show ?thesis
  proof (cases ?found)
    case Nil
    with assms Some have "insert_job (queued_job (followup_id h a k) (jb_execution_id row) (Some a) k now p c) db = Inr db'"
      by (simp add: insert_followup_def)
    with insert_job_jobs [OF this] Some show ?thesis by (auto simp: queued_job_def)
  next
    case (Cons j js)
    then have "j \<in> set ?found" by simp
    moreover have "db' = db"
      using assms Some Cons by (cases js) (simp_all add: insert_followup_def)
    ultimately show ?thesis using Some by auto
  qed
qed

text \<open>
  A captured adapter result is never made terminal without its evaluation: when the worker
  terminalizes a job with a captured result, the transaction leaves an evaluation job of the attempt in
  the queue tables, and the attempt carries the evidence of that very run.
\<close>

theorem captured_result_gets_evaluated:
  assumes inv: "arena_inv (rn_db s)" and row: "job_by_id (rn_db s) (jl_id lease) = Some row" "\<not> terminal_job row"
    and md: "captured metadata" and run: "terminal env lease outcome attempt_status metadata s = (Inr w, s')"
    and won: "wr_status w \<noteq> ''lost''"
  shows "\<exists>a. jb_attempt_id row = Some a \<and>
    (\<exists>j \<in> set (db_jobs (rn_db s')). jb_kind j = ''evaluation'' \<and> jb_attempt_id j = Some a) \<and>
    (\<exists>t \<in> set (db_attempts (rn_db s')). at_id t = a \<and> at_result_metadata t = metadata)"
proof -
  obtain oc winner where fin: "finalize (sha256 (we_codec env)) (jl_id lease) (jl_owner lease) oc attempt_status metadata
      (we_clock env ''finalize'') (jl_token lease) (Some (''evaluation'', [])) (we_clock env ''created'') (rn_db s)
      = Inr (winner, rn_db s')" and w: "wr_status w = status_or_lost winner"
    using run md by (auto simp: terminal_def Let_def bind_s_def tx_op_def db_op_def transaction_def return_s_def
        split: sum.splits prod.splits)
  have "distinct (map jb_id (db_jobs (rn_db s)))" using inv by (intro jobs_keys) (simp add: arena_inv_def)
  from this fin show ?thesis
  proof (cases rule: finalize_cases)
    case (won row' w' db2 db3)
    then have "row' = row" using row by simp
    from insert_followup_job [OF won(6)] obtain a j where a: "jb_attempt_id row' = Some a"
        "j \<in> set (db_jobs db3)" "jb_kind j = ''evaluation''" "jb_attempt_id j = Some a" by blast
    from record_outcome_attempt [OF won(5) a(1)] obtain t where t: "t \<in> set (db_attempts db2)" "at_id t = a"
        "at_result_metadata t = metadata" by blast
    have "db_attempts db3 = db_attempts db2"
      using insert_followup_cases [OF won(6)] by (auto simp: insert_job_Inr_iff)
    with a t won(7) \<open>row' = row\<close> show ?thesis by (auto simp: finalize_execution_if_terminal_def)
  qed (use row w won in \<open>auto simp: status_or_lost_def\<close>)
qed

section \<open>An example run\<close>

definition example_env :: "unit worker_env" where
  "example_env =
     \<lparr>we_codec = example_codec, we_parse_harness = (\<lambda>_. Inl (ValueError ''harness'')), we_parse_event = Inr,
      we_dump_event = (\<lambda>_. []), we_dump_usage = (\<lambda>_. JNull), we_parse_int = (\<lambda>_. Inl (ValueError ''int'')),
      we_parse_float = (\<lambda>_. Inl (ValueError ''float'')), we_canonical = (\<lambda>_. ''{}''),
      we_put = (\<lambda>_ st. (Inr ''d'', st)), we_get = (\<lambda>_ _. Inr ''{}''), we_uri = (\<lambda>d. d),
      we_registry = (\<lambda>_ _. Inr ()), we_fault_hook = (\<lambda>_ _. Inr ()), we_after_artifacts = (\<lambda>_. Inr ()),
      we_price_resolver = None, we_has_oracle = (\<lambda>_. False), we_state_oracle = None,
      we_terminalize_on_cancel = False, we_ledger_id = ''l1'', we_reservation_id = ''r1'',
      we_clock = (\<lambda>_. 5), we_elapsed = 0\<rparr>"

definition example_state :: "arena_db \<Rightarrow> unit run" where
  "example_state db =
     \<lparr>rn_db = db, rn_store = (), rn_artifacts = [], rn_adapter = False, rn_prepared = False, rn_reservation = None,
      rn_result = None, rn_evidence = \<lparr>ae_input_artifact_digest = None, ae_output_artifact_digest = None,
        ae_trace_artifact_digest = None, ae_trace_complete = False, ae_trace_events = []\<rparr>, rn_invocation = None\<rparr>"

lemma example_running_arena: "arena_inv example_running_db"
  using example_running_inv
  by (simp add: arena_inv_def invocations_inv_def reservations_inv_def dispatch_kept_charged_def
      example_running_db_def example_log_db_def)

lemma example_terminal:
  "\<exists>w s'. terminal example_env example_iv_lease ''completed'' ''completed'' [(''captured_adapter_terminal'', JBool True)]
     (example_state example_running_db) = (Inr w, s') \<and> wr_status w = ''completed''"
  by (simp add: terminal_def captured_def dict_get_def bind_s_def tx_op_def db_op_def transaction_def return_s_def
      example_env_def example_state_def example_codec_def example_iv_lease_def status_or_lost_def
      finalize_def job_by_id_def outcome_status_def terminal_job_def TERMINAL_JOB_STATUSES_def finalizable_def holds_lease_def
      expired_def terminal_winner_def example_running_db_def example_log_db_def claim_row_def
      queued_job_def rowcount_def record_attempt_outcome_def append_attempt_event_def insert_job_def
      attempt_execution_ids_def update_where_def insert_attempt_event_def insert_followup_def finalize_row_def followup_id_def Let_def)

theorem captured_result_gets_evaluated_witness:
  "\<exists>w s'. terminal example_env example_iv_lease ''completed'' ''completed'' [(''captured_adapter_terminal'', JBool True)]
     (example_state example_running_db) = (Inr w, s') \<and>
     (\<exists>j \<in> set (db_jobs (rn_db s')). jb_kind j = ''evaluation'')"
proof -
  obtain w s' where run: "terminal example_env example_iv_lease ''completed'' ''completed''
      [(''captured_adapter_terminal'', JBool True)] (example_state example_running_db) = (Inr w, s')"
      "wr_status w = ''completed''"
    using example_terminal by blast
  define row where "row = claim_row ''w1'' ''t1'' (seconds 60) 0 (queued_job ''j1'' ''x1'' (Some ''a1'') ''attempt'' 0 [] 0)"
  have row: "job_by_id (rn_db (example_state example_running_db)) (jl_id example_iv_lease) = Some row" "\<not> terminal_job row"
    by (simp_all add: job_by_id_def example_state_def example_running_db_def example_iv_lease_def row_def claim_row_def
        queued_job_def terminal_job_def TERMINAL_JOB_STATUSES_def)
  have inv: "arena_inv (rn_db (example_state example_running_db))"
    by (simp add: example_state_def example_running_arena)
  have md: "captured [(''captured_adapter_terminal'', JBool True)]" by (simp add: captured_def dict_get_def)
  have "wr_status w \<noteq> ''lost''" using run(2) by simp
  from captured_result_gets_evaluated [OF inv row md run(1) this] run(1) show ?thesis by blast
qed

end
