(* ===== verification/Experiment_Design.thy ===== *)
theory Experiment_Design
  imports Experiment_Spec
begin

text \<open>
  Deterministic treatment generation (\<open>src/backend/protocol_v1/design.py\<close>): full, fractional and
  custom designs, and the filter of incompatible arms.

  An assignment is a dictionary of factor identifiers and levels. \<open>h\<close> is the digest of canonical JSON.
  A missing key raises \<open>KeyError\<close>; the lemmas show that a validated experiment never gets there.
\<close>

section \<open>Treatment arms\<close>

definition assign_get :: "assignment \<Rightarrow> string \<Rightarrow> level result" where
  "assign_get a i = (case map_of a i of None \<Rightarrow> Inl (KeyError i) | Some v \<Rightarrow> Inr v)"

definition factor_by_id :: "factor_spec list \<Rightarrow> string \<Rightarrow> factor_spec result" where
  "factor_by_id factors i =
     (case map_of (rev (map (\<lambda>f. (fs_factor_id f, f)) factors)) i of
        None \<Rightarrow> Inl (KeyError i) | Some f \<Rightarrow> Inr f)"

text \<open>The body of the loop over the factors: does this factor rule the assignment out?\<close>

definition factor_conflict :: "assignment \<Rightarrow> factor_spec list \<Rightarrow> factor_spec \<Rightarrow> bool result" where
  "factor_conflict assignment factors factor =
     bind_r (assign_get assignment (fs_factor_id factor)) (\<lambda>value.
     if level_eq value (baseline_value factor) then Inr False
     else
       bind_r (any_r (\<lambda>incompatible_id.
           bind_r (factor_by_id factors incompatible_id) (\<lambda>other.
           bind_r (assign_get assignment incompatible_id) (\<lambda>v.
           Inr (\<not> level_eq v (baseline_value other))))) (fs_incompatible_with factor)) (\<lambda>clash.
       if clash then Inr True
       else any_r (\<lambda>combination.
           all_r (\<lambda>(i, v). bind_r (assign_get assignment i) (\<lambda>w. Inr (level_eq w v)))
             (lc_assignments combination)) (fs_incompatible_level_combinations factor)))"

definition valid_assignment :: "assignment \<Rightarrow> factor_spec list \<Rightarrow> bool result" where
  "valid_assignment assignment factors =
     bind_r (any_r (factor_conflict assignment factors) factors) (\<lambda>conflict. Inr (\<not> conflict))"

definition sorted_factors :: "experiment_spec \<Rightarrow> factor_spec list" where
  "sorted_factors experiment = sort_key fs_factor_id (xs_factors experiment)"

record fractional_metadata =
  fm_family :: string
  fm_generator :: string
  fm_resolution :: nat
  fm_runs :: nat

definition letters :: string where
  "letters = ''ABCDEFGHIJKLMNOPQRSTUVWXYZ''"

definition fractional_design_metadata :: "experiment_spec \<Rightarrow> fractional_metadata result" where
  "fractional_design_metadata experiment =
     (let factors = sorted_factors experiment in
     bind_r (raise_if (xs_design experiment \<noteq> Fractional)
       (ValueError ''fractional design metadata is only available for fractional designs'')) (\<lambda>_.
     bind_r (raise_if (length factors < 2 \<or> list_ex (\<lambda>f. fs_kind f \<noteq> Binary) factors)
       (ValueError ''fractional designs require at least two binary factors; use custom for other matrices'')) (\<lambda>_.
     bind_r (raise_if (length letters < length factors) IndexError) (\<lambda>_.
     Inr \<lparr>fm_family = ''regular_two_level_half_fraction'', fm_generator = ''I='' @ take (length factors) letters,
          fm_resolution = length factors, fm_runs = 2 ^ (length factors - 1)\<rparr>))))"

definition custom_assignment :: "experiment_spec \<Rightarrow> custom_treatment \<Rightarrow> assignment list \<Rightarrow> assignment list result" where
  "custom_assignment experiment treatment assignments =
     (let assignment = ct_assignments treatment in
     bind_r (raise_if (set (map fst assignment) \<noteq> set (factor_ids experiment))
       (ValueError ''custom treatment must assign every factor exactly once'')) (\<lambda>_.
     bind_r (raise_if (list_ex (\<lambda>(i, v). level_norm v \<notin> level_by_factor experiment i) assignment)
       (ValueError ''custom treatment contains an undeclared factor level'')) (\<lambda>_.
     Inr (assignments @ [assignment]))))"

definition custom_assignments :: "experiment_spec \<Rightarrow> assignment list result" where
  "custom_assignments experiment = for_each (custom_assignment experiment) (xs_custom_design experiment) []"

definition at_baseline :: "assignment \<Rightarrow> factor_spec \<Rightarrow> bool" where
  "at_baseline a f \<longleftrightarrow> (case map_of a (fs_factor_id f) of None \<Rightarrow> False | Some v \<Rightarrow> level_eq v (baseline_value f))"

definition product_assignments :: "factor_spec list \<Rightarrow> assignment list" where
  "product_assignments factors =
     map (\<lambda>vs. fold (\<lambda>(i, v). AList.update i v) (zip (map fs_factor_id factors) vs) [])
       (product_lists (map fs_levels factors))"

definition even_parity :: "factor_spec list \<Rightarrow> assignment \<Rightarrow> bool" where
  "even_parity factors a \<longleftrightarrow> length (filter (at_baseline a) factors) mod 2 = 0"

definition assignment_hash :: "(json \<Rightarrow> string) \<Rightarrow> assignment \<Rightarrow> string" where
  "assignment_hash h a = h (JObj (assignment_dump a))"

definition expand_design :: "(json \<Rightarrow> string) \<Rightarrow> experiment_spec \<Rightarrow> assignment list result" where
  "expand_design h experiment =
     (let factors = sorted_factors experiment in
     bind_r (case xs_design experiment of
         Custom \<Rightarrow> custom_assignments experiment
       | Fractional \<Rightarrow> bind_r (fractional_design_metadata experiment) (\<lambda>_.
           Inr (filter (even_parity factors) (product_assignments factors)))
       | Full \<Rightarrow> Inr (product_assignments factors)) (\<lambda>candidates.
     bind_r (filter_r (\<lambda>c. valid_assignment c factors) candidates) (\<lambda>valid.
     bind_r (raise_if (valid = [])
       (ValueError ''design has no valid treatment arms after incompatibilities'')) (\<lambda>_.
     bind_r (raise_if (\<not> distinct (map (assignment_hash h) valid))
       (ValueError ''design contains duplicate treatment assignments'')) (\<lambda>_.
     Inr valid)))))"

definition treatment_id :: "(json \<Rightarrow> string) \<Rightarrow> assignment \<Rightarrow> string" where
  "treatment_id h a = ''t-'' @ take 16 (assignment_hash h a)"

section \<open>The arms a design declares\<close>

text \<open>
  The reference: an arm assigns a declared level to every factor, and no factor that leaves its
  baseline meets an incompatible factor that leaves its own, or completes a forbidden combination.
\<close>

definition compatible :: "factor_spec list \<Rightarrow> assignment \<Rightarrow> bool" where
  "compatible factors a \<longleftrightarrow>
     (\<forall>f \<in> set factors. \<not> at_baseline a f \<longrightarrow>
        (\<forall>g \<in> set factors. fs_factor_id g \<in> set (fs_incompatible_with f) \<longrightarrow> at_baseline a g) \<and>
        (\<forall>c \<in> set (fs_incompatible_level_combinations f).
           \<exists>(i, v) \<in> set (lc_assignments c). \<exists>w. map_of a i = Some w \<and> \<not> level_eq w v))"

definition total_assignment :: "factor_spec list \<Rightarrow> assignment \<Rightarrow> bool" where
  "total_assignment factors a \<longleftrightarrow>
     map fst a = map fs_factor_id factors \<and>
     list_all2 (\<lambda>f v. v \<in> set (fs_levels f)) factors (map snd a)"

lemma sorted_factors_set [simp]: "set (sorted_factors spec) = set (xs_factors spec)"
  by (simp add: sorted_factors_def)

lemma distinct_sorted_ids:
  assumes "distinct (factor_ids spec)"
  shows "distinct (map fs_factor_id (sorted_factors spec))"
  using assms by (simp add: sorted_factors_def factor_ids_def distinct_map)

lemma update_fresh_keys:
  "distinct (map fst ps) \<Longrightarrow> set (map fst ps) \<inter> set (map fst d) = {} \<Longrightarrow>
   fold (\<lambda>(i, v). AList.update i v) ps d = d @ ps"
proof (induction ps arbitrary: d)
  case Nil
  then show ?case by simp
next
  case (Cons p ps)
  obtain i v where p: "p = (i, v)" by fastforce
  have "i \<notin> fst ` set d" using Cons.prems(2) p by auto
  then have "AList.update i v d = d @ [(i, v)]"
    by (induction d) auto
  then show ?case
    using Cons.IH [of "d @ [(i, v)]"] Cons.prems p by auto
qed

lemma product_assignments_eq:
  assumes "distinct (map fs_factor_id factors)"
  shows "product_assignments factors =
    map (zip (map fs_factor_id factors)) (product_lists (map fs_levels factors))"
  unfolding product_assignments_def
proof (rule map_cong [OF refl])
  fix vs assume "vs \<in> set (product_lists (map fs_levels factors))"
  then have "length vs = length factors" by (auto simp: product_lists_set list_all2_conv_all_nth)
  then show "fold (\<lambda>(i, v). AList.update i v) (zip (map fs_factor_id factors) vs) [] =
      zip (map fs_factor_id factors) vs"
    using update_fresh_keys [of "zip (map fs_factor_id factors) vs" "[]"] assms by simp
qed

lemma product_assignments_total:
  assumes "distinct (map fs_factor_id factors)"
  shows "a \<in> set (product_assignments factors) \<longleftrightarrow> total_assignment factors a"
proof
  assume "a \<in> set (product_assignments factors)"
  then show "total_assignment factors a"
    by (auto simp: product_assignments_eq [OF assms] product_lists_set total_assignment_def list_all2_conv_all_nth)
next
  assume t: "total_assignment factors a"
  then have "a = zip (map fs_factor_id factors) (map snd a)"
    unfolding total_assignment_def by (metis zip_map_fst_snd)
  moreover have "map snd a \<in> set (product_lists (map fs_levels factors))"
    using t by (auto simp: product_lists_set total_assignment_def list_all2_conv_all_nth)
  ultimately show "a \<in> set (product_assignments factors)"
    by (auto simp: product_assignments_eq [OF assms] intro: image_eqI)
qed

lemma factor_by_id_unique:
  assumes "distinct (map fs_factor_id factors)" and "f \<in> set factors"
  shows "factor_by_id factors (fs_factor_id f) = Inr f"
proof -
  have "map_of (rev (map (\<lambda>f. (fs_factor_id f, f)) factors)) (fs_factor_id f) = Some f"
    using assms by (intro map_of_is_SomeI) (auto simp: rev_map [symmetric] comp_def)
  then show ?thesis by (simp add: factor_by_id_def)
qed

text \<open>On an assignment of every factor, the filter decides compatibility and raises nothing.\<close>

definition clashes :: "factor_spec list \<Rightarrow> assignment \<Rightarrow> string \<Rightarrow> bool" where
  "clashes factors a i \<longleftrightarrow> (\<exists>g \<in> set factors. fs_factor_id g = i \<and> \<not> at_baseline a g)"

definition completes :: "assignment \<Rightarrow> level_combination \<Rightarrow> bool" where
  "completes a c \<longleftrightarrow> (\<forall>(i, v) \<in> set (lc_assignments c). \<exists>w. map_of a i = Some w \<and> level_eq w v)"

lemma compatible_iff:
  assumes "\<And>f c i. f \<in> set factors \<Longrightarrow> c \<in> set (fs_incompatible_level_combinations f) \<Longrightarrow>
      i \<in> set (map fst (lc_assignments c)) \<Longrightarrow> map_of a i \<noteq> None"
  shows "compatible factors a \<longleftrightarrow> \<not> (\<exists>f \<in> set factors. \<not> at_baseline a f \<and>
      ((\<exists>i \<in> set (fs_incompatible_with f). clashes factors a i) \<or>
       (\<exists>c \<in> set (fs_incompatible_level_combinations f). completes a c)))"
proof -
  have "completes a c \<longleftrightarrow> \<not> (\<exists>(i, v) \<in> set (lc_assignments c). \<exists>w. map_of a i = Some w \<and> \<not> level_eq w v)"
    if "f \<in> set factors" "c \<in> set (fs_incompatible_level_combinations f)" for f c
    using assms [OF that] by (force simp: completes_def)
  then show ?thesis
    unfolding compatible_def clashes_def by (auto simp: Bex_def)
qed

lemma any_incompatible:
  assumes "distinct (map fs_factor_id factors)" and "set (fs_incompatible_with f) \<subseteq> set (map fs_factor_id factors)"
    and "\<And>i. i \<in> set (map fs_factor_id factors) \<Longrightarrow> \<exists>v. map_of a i = Some v"
  shows "any_r (\<lambda>i. bind_r (factor_by_id factors i) (\<lambda>other. bind_r (assign_get a i) (\<lambda>v.
      Inr (\<not> level_eq v (baseline_value other))))) (fs_incompatible_with f) =
    Inr (list_ex (clashes factors a) (fs_incompatible_with f))"
proof (rule any_r_pure)
  fix i assume i: "i \<in> set (fs_incompatible_with f)"
  then obtain g where g: "g \<in> set factors" "fs_factor_id g = i" using assms(2) by auto
  obtain v where v: "map_of a i = Some v" using assms(2,3) i by blast
  have "clashes factors a i \<longleftrightarrow> \<not> at_baseline a g"
    unfolding clashes_def using g distinct_map_key_unique [OF assms(1)] by metis
  then show "bind_r (factor_by_id factors i) (\<lambda>other. bind_r (assign_get a i) (\<lambda>v.
      Inr (\<not> level_eq v (baseline_value other)))) = Inr (clashes factors a i)"
    using factor_by_id_unique [OF assms(1) g(1)] g v by (simp add: assign_get_def at_baseline_def)
qed

lemma any_combination:
  assumes "\<And>c i. c \<in> set cs \<Longrightarrow> i \<in> set (map fst (lc_assignments c)) \<Longrightarrow> map_of a i \<noteq> None"
  shows "any_r (\<lambda>c. all_r (\<lambda>(i, v). bind_r (assign_get a i) (\<lambda>w. Inr (level_eq w v))) (lc_assignments c)) cs =
    Inr (list_ex (completes a) cs)"
proof (rule any_r_pure)
  fix c assume c: "c \<in> set cs"
  have "all_r (\<lambda>(i, v). bind_r (assign_get a i) (\<lambda>w. Inr (level_eq w v))) (lc_assignments c) =
      Inr (list_all (\<lambda>(i, v). \<exists>w. map_of a i = Some w \<and> level_eq w v) (lc_assignments c))"
  proof (rule all_r_pure)
    fix x assume x: "x \<in> set (lc_assignments c)"
    obtain i v where iv: "x = (i, v)" by fastforce
    with assms [OF c, of i] x obtain w where "map_of a i = Some w" by force
    then show "(case x of (i, v) \<Rightarrow> bind_r (assign_get a i) (\<lambda>w. Inr (level_eq w v))) =
        Inr (case x of (i, v) \<Rightarrow> \<exists>w. map_of a i = Some w \<and> level_eq w v)"
      by (simp add: iv assign_get_def)
  qed
  then show "all_r (\<lambda>(i, v). bind_r (assign_get a i) (\<lambda>w. Inr (level_eq w v))) (lc_assignments c) =
      Inr (completes a c)"
    by (simp add: completes_def list_all_iff)
qed

lemma valid_assignment_compatible:
  assumes ids: "distinct (map fs_factor_id factors)" and keys: "set (map fst a) = set (map fs_factor_id factors)"
    and refs: "\<And>f. f \<in> set factors \<Longrightarrow> set (fs_incompatible_with f) \<subseteq> set (map fs_factor_id factors)"
    and combs: "\<And>f c. f \<in> set factors \<Longrightarrow> c \<in> set (fs_incompatible_level_combinations f) \<Longrightarrow>
      set (map fst (lc_assignments c)) \<subseteq> set (map fs_factor_id factors)"
  shows "valid_assignment a factors = Inr (compatible factors a)"
proof -
  have some: "\<exists>v. map_of a i = Some v" if "i \<in> set (map fs_factor_id factors)" for i
    using that keys by (metis list.set_map map_of_eq_None_iff option.exhaust)
  then have defined: "map_of a i \<noteq> None"
    if "f \<in> set factors" "c \<in> set (fs_incompatible_level_combinations f)" "i \<in> set (map fst (lc_assignments c))" for f c i
    using combs [OF that(1,2)] that(3) by blast
  have "factor_conflict a factors f = Inr (\<not> at_baseline a f \<and>
      (list_ex (clashes factors a) (fs_incompatible_with f) \<or>
       list_ex (completes a) (fs_incompatible_level_combinations f)))" if f: "f \<in> set factors" for f
  proof -
    obtain v where "map_of a (fs_factor_id f) = Some v" using some f by auto
    then have get: "assign_get a (fs_factor_id f) = Inr v" "at_baseline a f = level_eq v (baseline_value f)"
      by (simp_all add: assign_get_def at_baseline_def)
    show ?thesis
      using any_incompatible [OF ids refs [OF f] some] any_combination [OF defined [OF f]]
      by (simp add: factor_conflict_def get)
  qed
  then have "any_r (factor_conflict a factors) factors = Inr (list_ex (\<lambda>f. \<not> at_baseline a f \<and>
      (list_ex (clashes factors a) (fs_incompatible_with f) \<or>
       list_ex (completes a) (fs_incompatible_level_combinations f))) factors)"
    by (rule any_r_pure)
  moreover have "compatible factors a \<longleftrightarrow> \<not> list_ex (\<lambda>f. \<not> at_baseline a f \<and>
      (list_ex (clashes factors a) (fs_incompatible_with f) \<or>
       list_ex (completes a) (fs_incompatible_level_combinations f))) factors"
    using compatible_iff [OF defined] by (simp add: list_ex_iff)
  ultimately show ?thesis by (simp add: valid_assignment_def)
qed

section \<open>The expansion is exact\<close>

definition declared_arm :: "experiment_spec \<Rightarrow> assignment \<Rightarrow> bool" where
  "declared_arm spec a \<longleftrightarrow>
     (case xs_design spec of
        Full \<Rightarrow> total_assignment (sorted_factors spec) a
      | Fractional \<Rightarrow> total_assignment (sorted_factors spec) a \<and> even_parity (sorted_factors spec) a
      | Custom \<Rightarrow> a \<in> ct_assignments ` set (xs_custom_design spec))"

definition checked_arms :: "(json \<Rightarrow> string) \<Rightarrow> assignment list \<Rightarrow> assignment list result" where
  "checked_arms h arms =
     (if arms = [] then Inl (ValueError ''design has no valid treatment arms after incompatibilities'')
      else if \<not> distinct (map (assignment_hash h) arms)
      then Inl (ValueError ''design contains duplicate treatment assignments'')
      else Inr arms)"

lemma custom_rows:
  assumes "for_each (check_custom_row spec) rows keys = Inr keys'"
  shows "for_each (custom_assignment spec) rows acc = Inr (acc @ map ct_assignments rows) \<and>
    distinct (map ct_assignments rows) \<and>
    (\<forall>r \<in> set rows. assignment_key (ct_assignments r) \<notin> set keys \<and>
       set (map fst (ct_assignments r)) = set (factor_ids spec))"
  using assms
proof (induction rows arbitrary: keys acc)
  case Nil
  then show ?case by simp
next
  case (Cons r rows)
  from Cons.prems have rest: "for_each (check_custom_row spec) rows (assignment_key (ct_assignments r) # keys) = Inr keys'"
    and row: "set (map fst (ct_assignments r)) = set (factor_ids spec)"
      "\<not> list_ex (\<lambda>(i, v). level_norm v \<notin> level_by_factor spec i) (ct_assignments r)"
      "assignment_key (ct_assignments r) \<notin> set keys"
    by (auto simp: check_custom_row_def [of spec r] bind_r_eq_Inr_iff)
  have "custom_assignment spec r acc = Inr (acc @ [ct_assignments r])"
    using row by (simp add: custom_assignment_def Let_def raise_if_def)
  then show ?case
    using Cons.IH [OF rest, of "acc @ [ct_assignments r]"] row by fastforce
qed

lemma distinct_product_assignments:
  assumes "distinct (map fs_factor_id factors)" and "\<And>f. f \<in> set factors \<Longrightarrow> validate_levels f = Inr f"
  shows "distinct (product_assignments factors)"
proof -
  have "distinct ls" if "ls \<in> set (map fs_levels factors)" for ls
    using that assms(2) valid_factor(2) by (auto simp: unique_levels_def distinct_map)
  then have "distinct (product_lists (map fs_levels factors))"
    by (simp add: distinct_product_lists)
  moreover have "inj_on (zip (map fs_factor_id factors)) (set (product_lists (map fs_levels factors)))"
    by (rule inj_onI) (auto simp: product_lists_set list_all2_conv_all_nth dest!: arg_cong [where f = "map snd"])
  ultimately show ?thesis
    by (simp add: product_assignments_eq [OF assms(1)] distinct_map)
qed

text \<open>The candidates, before the filter of incompatible arms.\<close>

definition design_candidates :: "experiment_spec \<Rightarrow> assignment list" where
  "design_candidates spec =
     (case xs_design spec of
        Full \<Rightarrow> product_assignments (sorted_factors spec)
      | Fractional \<Rightarrow> filter (even_parity (sorted_factors spec)) (product_assignments (sorted_factors spec))
      | Custom \<Rightarrow> map ct_assignments (xs_custom_design spec))"

lemma valid_sorted_factors:
  assumes "valid_experiment spec"
  shows "distinct (map fs_factor_id (sorted_factors spec))"
    "f \<in> set (sorted_factors spec) \<Longrightarrow> validate_levels f = Inr f"
    "set (map fs_factor_id (sorted_factors spec)) = set (factor_ids spec)"
  using distinct_sorted_ids [OF valid_experimentD(2) [OF assms]] valid_experimentD(1) [OF assms]
  by (simp_all add: factor_ids_def)

lemma design_candidates_facts:
  assumes "valid_experiment spec"
  shows "distinct (design_candidates spec)" "a \<in> set (design_candidates spec) \<longleftrightarrow> declared_arm spec a"
    "a \<in> set (design_candidates spec) \<Longrightarrow> set (map fst a) = set (factor_ids spec)"
    "xs_design spec = Custom \<Longrightarrow> custom_assignments spec = Inr (design_candidates spec)"
proof -
  note ids = valid_sorted_factors [OF assms]
  have custom: "custom_assignments spec = Inr (map ct_assignments (xs_custom_design spec)) \<and>
      distinct (map ct_assignments (xs_custom_design spec)) \<and>
      (\<forall>r \<in> set (xs_custom_design spec). set (map fst (ct_assignments r)) = set (factor_ids spec))"
    if c: "xs_design spec = Custom"
  proof -
    obtain keys where "for_each (check_custom_row spec) (xs_custom_design spec) [] = Inr keys"
      using valid_experimentD(8) [OF assms] c by (auto simp: check_custom_design_def Let_def bind_r_eq_Inr_iff)
    from custom_rows [OF this, of "[]"] show ?thesis by (simp add: custom_assignments_def)
  qed
  show "distinct (design_candidates spec)"
    using custom distinct_product_assignments [OF ids(1,2)] by (auto simp: design_candidates_def split: design.splits)
  show "a \<in> set (design_candidates spec) \<longleftrightarrow> declared_arm spec a"
    by (auto simp: design_candidates_def declared_arm_def product_assignments_total [OF ids(1)] split: design.splits)
  show "set (map fst a) = set (factor_ids spec)" if "a \<in> set (design_candidates spec)"
  proof (cases "xs_design spec = Custom")
    case True
    with custom that show ?thesis by (auto simp: design_candidates_def)
  next
    case False
    with that have "total_assignment (sorted_factors spec) a"
      by (auto simp: design_candidates_def product_assignments_total [OF ids(1)] split: design.splits)
    then show ?thesis by (metis ids(3) total_assignment_def)
  qed
  show "custom_assignments spec = Inr (design_candidates spec)" if "xs_design spec = Custom"
    using custom that by (simp add: design_candidates_def)
qed

lemma expand_design_eq:
  assumes "valid_experiment spec"
  shows "expand_design h spec =
    (let arms = filter (compatible (sorted_factors spec)) (design_candidates spec)
     in if xs_design spec = Fractional then bind_r (fractional_design_metadata spec) (\<lambda>_. checked_arms h arms)
        else checked_arms h arms)"
proof -
  note ids = valid_sorted_factors [OF assms] and cands = design_candidates_facts [OF assms]
  have "filter_r (\<lambda>c. valid_assignment c (sorted_factors spec)) (design_candidates spec) =
      Inr (filter (compatible (sorted_factors spec)) (design_candidates spec))"
  proof (rule filter_r_pure)
    fix a assume "a \<in> set (design_candidates spec)"
    then show "valid_assignment a (sorted_factors spec) = Inr (compatible (sorted_factors spec) a)"
      using ids cands(3) valid_experimentD(6) [OF assms] valid_combination [OF assms]
      by (intro valid_assignment_compatible) simp_all
  qed
  then show ?thesis
    using cands(4) unfolding expand_design_def Let_def
    by (cases "fractional_design_metadata spec"; cases "xs_design spec")
      (simp_all add: design_candidates_def checked_arms_def raise_if_def)
qed

lemma fractional_metadata_cases:
  assumes "xs_design spec = Fractional"
  shows "bind_r (fractional_design_metadata spec) (\<lambda>_. r) =
    (if length (xs_factors spec) < 2 \<or> (\<exists>f \<in> set (xs_factors spec). fs_kind f \<noteq> Binary)
     then Inl (ValueError ''fractional designs require at least two binary factors; use custom for other matrices'')
     else if 26 < length (xs_factors spec) then Inl IndexError else r)"
  using assms
  by (simp add: fractional_design_metadata_def sorted_factors_def letters_def raise_if_def list_ex_iff Let_def)

text \<open>
  C35: For a validated experiment the expansion yields exactly the declared arms that no
  incompatibility rules out, each once: every assignment of declared levels for a full design, those of
  even parity for a fractional one, the listed rows for a custom one. It raises only for a fractional
  design of fewer than two factors or with one that is not binary, for a fractional design of more than
  26 factors (an \<open>IndexError\<close>: the generator is a product of letters), when no arm is left, or when two
  arms have the same digest; in particular no lookup in the loops can miss.
\<close>

theorem expand_design_exact:
  assumes "valid_experiment spec"
  shows "\<exists>arms. distinct arms \<and>
    (\<forall>a. a \<in> set arms \<longleftrightarrow> declared_arm spec a \<and> compatible (sorted_factors spec) a) \<and>
    expand_design h spec =
      (if xs_design spec = Fractional \<and>
          (length (xs_factors spec) < 2 \<or> (\<exists>f \<in> set (xs_factors spec). fs_kind f \<noteq> Binary))
       then Inl (ValueError ''fractional designs require at least two binary factors; use custom for other matrices'')
       else if xs_design spec = Fractional \<and> 26 < length (xs_factors spec) then Inl IndexError
       else if arms = [] then Inl (ValueError ''design has no valid treatment arms after incompatibilities'')
       else if \<not> distinct (map (assignment_hash h) arms)
       then Inl (ValueError ''design contains duplicate treatment assignments'')
       else Inr arms)"
  using design_candidates_facts(1,2) [OF assms] expand_design_eq [OF assms, of h]
  by (intro exI [of _ "filter (compatible (sorted_factors spec)) (design_candidates spec)"])
    (simp_all add: Let_def fractional_metadata_cases checked_arms_def)

section \<open>Half fractions\<close>

abbreviation hit :: "factor_spec \<Rightarrow> level \<Rightarrow> bool" where
  "hit f v \<equiv> level_eq v (baseline_value f)"

definition hits :: "factor_spec list \<Rightarrow> level list \<Rightarrow> nat" where
  "hits fs vs = length (filter (\<lambda>(f, v). hit f v) (zip fs vs))"

definition two_levels :: "factor_spec \<Rightarrow> bool" where
  "two_levels f \<longleftrightarrow> (\<exists>l0 l1. fs_levels f = [l0, l1] \<and> hit f l0 = (\<not> hit f l1))"

definition runs_where :: "factor_spec list \<Rightarrow> (level list \<Rightarrow> bool) \<Rightarrow> nat" where
  "runs_where fs P = length (filter P (product_lists (map fs_levels fs)))"

lemma hits_Cons [simp]: "hits (f # fs) (v # vs) = (if hit f v then 1 else 0) + hits fs vs"
  by (simp add: hits_def)

lemma runs_where_Cons:
  assumes "fs_levels f = [l0, l1]"
  shows "runs_where (f # fs) P = runs_where fs (\<lambda>vs. P (l0 # vs)) + runs_where fs (\<lambda>vs. P (l1 # vs))"
  by (simp add: runs_where_def assms filter_map comp_def)

lemma runs_where_split:
  "runs_where fs (\<lambda>vs. Q vs \<and> P vs) + runs_where fs (\<lambda>vs. \<not> Q vs \<and> P vs) = runs_where fs P"
proof -
  have "length (filter (\<lambda>v. Q v \<and> P v) xs) + length (filter (\<lambda>v. \<not> Q v \<and> P v) xs) = length (filter P xs)" for xs
    by (induction xs) auto
  then show ?thesis by (simp add: runs_where_def)
qed

lemma runs_all: "list_all two_levels fs \<Longrightarrow> runs_where fs (\<lambda>_. True) = 2 ^ length fs"
proof (induction fs)
  case Nil
  then show ?case by (simp add: runs_where_def)
next
  case (Cons f fs)
  then show ?case by (auto simp: two_levels_def runs_where_Cons)
qed

lemma runs_parity:
  assumes "list_all two_levels fs" and "fs \<noteq> []"
  shows "runs_where fs (\<lambda>vs. even (hits fs vs)) = 2 ^ (length fs - 1)"
    "runs_where fs (\<lambda>vs. odd (hits fs vs)) = 2 ^ (length fs - 1)"
proof -
  obtain f gs where fs: "fs = f # gs" using assms(2) by (cases fs) auto
  with assms(1) obtain l0 l1 where f: "fs_levels f = [l0, l1]" "hit f l0 = (\<not> hit f l1)"
    by (auto simp: two_levels_def)
  have all: "runs_where gs (\<lambda>_. True) = 2 ^ length gs" using assms(1) fs by (simp add: runs_all)
  have split: "runs_where gs (\<lambda>vs. even (hits gs vs)) + runs_where gs (\<lambda>vs. odd (hits gs vs)) = 2 ^ length gs"
    using runs_where_split [of gs "\<lambda>vs. even (hits gs vs)" "\<lambda>_. True"] all by simp
  show "runs_where fs (\<lambda>vs. even (hits fs vs)) = 2 ^ (length fs - 1)"
    "runs_where fs (\<lambda>vs. odd (hits fs vs)) = 2 ^ (length fs - 1)"
    using split f(2) by (auto simp: fs runs_where_Cons [OF f(1)])
qed

lemma runs_hit:
  assumes "list_all two_levels fs" and "i < length fs"
  shows "runs_where fs (\<lambda>vs. hit (fs ! i) (vs ! i)) = 2 ^ (length fs - 1)"
  using assms
proof (induction fs arbitrary: i)
  case Nil
  then show ?case by simp
next
  case (Cons f fs)
  then obtain l0 l1 where f: "fs_levels f = [l0, l1]" "hit f l0 = (\<not> hit f l1)"
    by (auto simp: two_levels_def)
  show ?case
  proof (cases i)
    case 0
    have "runs_where fs (\<lambda>_. True) = 2 ^ length fs" "runs_where fs (\<lambda>_. False) = 0"
      using Cons.prems by (simp_all add: runs_all) (simp add: runs_where_def)
    then show ?thesis using 0 f(2) by (auto simp: runs_where_Cons [OF f(1)])
  next
    case (Suc j)
    with Cons have "runs_where fs (\<lambda>vs. hit (fs ! j) (vs ! j)) = 2 ^ (length fs - 1)" "fs \<noteq> []" by auto
    then show ?thesis using Suc
      by (simp add: runs_where_Cons [OF f(1)]) (cases fs; simp)
  qed
qed

lemma runs_balanced:
  assumes "list_all two_levels fs" and "i < length fs" and "2 \<le> length fs"
  shows "2 * runs_where fs (\<lambda>vs. even (hits fs vs) \<and> hit (fs ! i) (vs ! i)) = 2 ^ (length fs - 1)"
proof -
  obtain f gs where fs: "fs = f # gs" "gs \<noteq> []"
    using assms(3) by (cases fs rule: remdups_adj.cases) auto
  with assms(1) obtain l0 l1 where f: "fs_levels f = [l0, l1]" "hit f l0 = (\<not> hit f l1)"
    by (auto simp: two_levels_def)
  have gs: "list_all two_levels gs" using assms(1) fs by simp
  have two: "2 * 2 ^ (length gs - 1) = (2 :: nat) ^ length gs" using fs(2) by (cases gs) auto
  show ?thesis
  proof (cases i)
    case 0
    have "runs_where gs (\<lambda>_. False) = 0" by (simp add: runs_where_def)
    then show ?thesis
      using 0 f(2) runs_parity(2) [OF gs fs(2)] two by (auto simp: fs(1) runs_where_Cons [OF f(1)])
  next
    case (Suc j)
    then have "runs_where gs (\<lambda>vs. hit (gs ! j) (vs ! j)) = 2 ^ (length gs - 1)"
      using assms(2) fs(1) by (simp add: runs_hit [OF gs])
    then have "runs_where gs (\<lambda>vs. even (hits gs vs) \<and> hit (gs ! j) (vs ! j)) +
        runs_where gs (\<lambda>vs. odd (hits gs vs) \<and> hit (gs ! j) (vs ! j)) = 2 ^ (length gs - 1)"
      using runs_where_split [of gs "\<lambda>vs. even (hits gs vs)" "\<lambda>vs. hit (gs ! j) (vs ! j)"] by simp
    then show ?thesis
      using Suc f(2) two by (auto simp: fs(1) runs_where_Cons [OF f(1)] add.commute)
  qed
qed

lemma binary_two_levels:
  assumes "validate_levels f = Inr f" and "fs_kind f = Binary"
  shows "two_levels f"
proof -
  obtain l0 l1 where l: "fs_levels f = [l0, l1]"
    using valid_factor(4) [OF assms] by (auto simp: length_Suc_conv numeral_2_eq_2)
  have "level_norm l0 \<noteq> level_norm l1"
    using valid_factor(2) [OF assms(1)] by (simp add: unique_levels_def l)
  moreover have "level_norm (baseline_value f) = level_norm l0 \<or> level_norm (baseline_value f) = level_norm l1"
    using valid_factor(3) [OF assms(1)] by (simp add: level_set_def l)
  ultimately have "hit f l0 = (\<not> hit f l1)" unfolding level_eq_def by metis
  with l show ?thesis unfolding two_levels_def by blast
qed

lemma at_baseline_zip:
  assumes "distinct (map fs_factor_id fs)" and "length vs = length fs" and "i < length fs"
  shows "at_baseline (zip (map fs_factor_id fs) vs) (fs ! i) \<longleftrightarrow> hit (fs ! i) (vs ! i)"
proof -
  have "map_of (zip (map fs_factor_id fs) vs) (fs_factor_id (fs ! i)) = Some (vs ! i)"
    using assms map_of_zip_nth [of "map fs_factor_id fs" vs i] by simp
  then show ?thesis by (simp add: at_baseline_def)
qed

lemma even_parity_hits:
  assumes "distinct (map fs_factor_id fs)" and "length vs = length fs"
  shows "even_parity fs (zip (map fs_factor_id fs) vs) \<longleftrightarrow> even (hits fs vs)"
proof -
  have "filter (at_baseline (zip (map fs_factor_id fs) vs)) fs =
      map fst (filter (\<lambda>(f, v). hit f v) (zip fs vs))"
  proof -
    have "filter (\<lambda>(f, v). hit f v) (zip fs vs) =
        filter (\<lambda>p. at_baseline (zip (map fs_factor_id fs) vs) (fst p)) (zip fs vs)"
      using at_baseline_zip [OF assms] assms(2) by (intro filter_cong) (auto simp: set_zip)
    then show ?thesis
      using assms(2) by (simp add: filter_map [symmetric, unfolded comp_def])
  qed
  then have "length (filter (at_baseline (zip (map fs_factor_id fs) vs)) fs) = hits fs vs"
    by (simp add: hits_def)
  then show ?thesis by (simp add: even_parity_def even_iff_mod_2_eq_zero)
qed

lemma count_zip:
  assumes "distinct (map fs_factor_id fs)"
    and "\<And>vs. length vs = length fs \<Longrightarrow> P (zip (map fs_factor_id fs) vs) = Q vs"
  shows "length (filter P (product_assignments fs)) = runs_where fs Q"
proof -
  have "length vs = length fs" if "vs \<in> set (product_lists (map fs_levels fs))" for vs
    using that by (auto simp: product_lists_set list_all2_conv_all_nth)
  then have "filter (P \<circ> zip (map fs_factor_id fs)) (product_lists (map fs_levels fs)) =
      filter Q (product_lists (map fs_levels fs))"
    using assms(2) by (intro filter_cong) auto
  then show ?thesis
    by (simp add: runs_where_def product_assignments_eq [OF assms(1)] filter_map)
qed

lemma compatible_without_constraints:
  assumes "\<And>f. f \<in> set fs \<Longrightarrow> fs_incompatible_with f = [] \<and> fs_incompatible_level_combinations f = []"
  shows "compatible fs a"
  using assms by (simp add: compatible_def)

text \<open>
  C36: The half fraction has the size and the balance its metadata and comments announce: a fractional
  design without incompatibilities expands into exactly \<open>runs\<close> treatments, which is half of all
  combinations, and every factor is at its baseline in exactly half of them.
\<close>

theorem fractional_design_balanced:
  assumes "valid_experiment spec" and "xs_design spec = Fractional"
    and "\<forall>f \<in> set (xs_factors spec). fs_incompatible_with f = [] \<and> fs_incompatible_level_combinations f = []"
    and "expand_design h spec = Inr ts"
  shows "\<exists>m. fractional_design_metadata spec = Inr m \<and> length ts = fm_runs m \<and>
    2 * length ts = length (product_assignments (sorted_factors spec)) \<and>
    (\<forall>f \<in> set (xs_factors spec). 2 * length (filter (\<lambda>a. at_baseline a f) ts) = fm_runs m)"
proof -
  let ?fs = "sorted_factors spec"
  note ids = valid_sorted_factors [OF assms(1)]
  obtain m where m: "fractional_design_metadata spec = Inr m"
    using assms(2,4) by (auto simp: expand_design_def Let_def bind_r_eq_Inr_iff)
  then have size: "2 \<le> length ?fs" "list_all (\<lambda>f. fs_kind f = Binary) ?fs" "fm_runs m = 2 ^ (length ?fs - 1)"
    by (auto simp: fractional_design_metadata_def Let_def list_ex_iff list_all_iff)
  have two: "list_all two_levels ?fs"
    using size(2) ids(2) binary_two_levels by (simp add: list_all_iff)
  have ts: "ts = filter (even_parity ?fs) (product_assignments ?fs)"
  proof -
    have "compatible ?fs a" for a using assms(3) by (intro compatible_without_constraints) simp
    then show ?thesis
      using assms(2,4) by (auto simp: expand_design_eq [OF assms(1)] m Let_def checked_arms_def design_candidates_def
        split: if_splits)
  qed
  have "length ts = fm_runs m"
  proof -
    have "?fs \<noteq> []" using size(1) by auto
    moreover have "length ts = runs_where ?fs (\<lambda>vs. even (hits ?fs vs))"
      unfolding ts by (rule count_zip [OF ids(1)]) (rule even_parity_hits [OF ids(1)])
    ultimately show ?thesis using runs_parity(1) [OF two] size(3) by simp
  qed
  moreover have "length (product_assignments ?fs) = 2 ^ length ?fs"
    using count_zip [OF ids(1), of "\<lambda>_. True" "\<lambda>_. True"] runs_all [OF two] by simp
  moreover have "2 * 2 ^ (length ?fs - 1) = (2 :: nat) ^ length ?fs"
    using size(1) by (cases "length ?fs") auto
  moreover have "2 * length (filter (\<lambda>a. at_baseline a f) ts) = fm_runs m" if "f \<in> set (xs_factors spec)" for f
  proof -
    have "f \<in> set ?fs" using that by simp
    then obtain i where i: "i < length ?fs" "f = ?fs ! i"
      by (auto simp only: in_set_conv_nth)
    have "length (filter (\<lambda>a. even_parity ?fs a \<and> at_baseline a f) (product_assignments ?fs)) =
        runs_where ?fs (\<lambda>vs. even (hits ?fs vs) \<and> hit (?fs ! i) (vs ! i))"
      using even_parity_hits [OF ids(1)] at_baseline_zip [OF ids(1)] i by (intro count_zip [OF ids(1)]) simp
    then show ?thesis
      using runs_balanced [OF two i(1) size(1)] size(3) by (simp add: ts conj_commute)
  qed
  ultimately show ?thesis using m size(3) by auto
qed

section \<open>Example\<close>

definition example_factor :: "string \<Rightarrow> factor_spec" where
  "example_factor i =
     \<lparr>fs_factor_id = i, fs_kind = Binary, fs_levels = [LBool False, LBool True], fs_baseline = None,
      fs_treatment_mutations = [\<lparr>tm_target = ''t'', tm_level = LBool True\<rparr>],
      fs_manipulation_checks = [\<lparr>mc_factor_id = i, mc_expected_value = LBool True\<rparr>],
      fs_sham_treatment = None, fs_no_op_levels = [], fs_incompatible_with = [],
      fs_incompatible_level_combinations = []\<rparr>"

definition example_experiment :: experiment_spec where
  "example_experiment =
     \<lparr>xs_experiment_id = ''xp1'', xs_study_pack_hash = Some ''sp'', xs_scenario_ids = [''s1''],
      xs_harness_ids = [''h1''], xs_model_endpoints = [],
      xs_sampling = \<lparr>sp_temperature = 0, sp_top_p = 1, sp_max_tokens = 10\<rparr>, xs_repetitions = 2,
      xs_randomization_blocks = [], xs_randomization_seed = 7, xs_stopping_rules = [],
      xs_budgets = Some \<lparr>bs_max_attempts = 3, bs_max_cost_usd = 1, bs_max_latency_seconds = 1,
        bs_max_tokens = 10, bs_max_tool_calls = 1, bs_max_context_tokens = 10\<rparr>,
      xs_aggregate_budget = None, xs_factors = [example_factor ''g'', example_factor ''f''], xs_design = Fractional,
      xs_custom_design = [], xs_manipulation_checks = [], xs_primary_outcomes = [], xs_interactions = [],
      xs_claim_bearing = False, xs_owner_approval = Approved, xs_predecessor_experiment_id = None,
      xs_frozen = True, xs_freeze_hash = Some ''fh'', xs_frozen_at = Some 0, xs_extensions = [], xs_dump = []\<rparr>"

text \<open>A digest function that tells the arms of the example apart.\<close>

fun example_arm_hash :: "json \<Rightarrow> string" where
  "example_arm_hash (JObj ps) = map (\<lambda>(_, v). if v = JBool True then CHR ''1'' else CHR ''0'') ps"
| "example_arm_hash _ = ''fh''"

lemma example_factor_valid: "validate_levels (example_factor i) = Inr (example_factor i)"
  by (simp add: validate_levels_def example_factor_def unique_levels_def level_set_def baseline_value_def)

lemma example_factor_simps [simp]:
  "fs_factor_id (example_factor i) = i" "fs_levels (example_factor i) = [LBool False, LBool True]"
  "fs_manipulation_checks (example_factor i) = [\<lparr>mc_factor_id = i, mc_expected_value = LBool True\<rparr>]"
  "fs_incompatible_with (example_factor i) = []" "fs_incompatible_level_combinations (example_factor i) = []"
  "baseline_value (example_factor i) = LBool False" "fs_kind (example_factor i) = Binary"
  by (simp_all add: example_factor_def baseline_value_def)

lemma example_experiment_valid: "valid_experiment example_experiment"
  by (simp add: valid_experiment_def validate_experiment_def Let_def check_ids_unique_def factor_ids_def
      check_combinations_def check_custom_design_def all_checks_def level_by_factor_def level_set_def
      example_factor_valid example_experiment_def)

lemma example_sorted_factors: "sorted_factors example_experiment = [example_factor ''f'', example_factor ''g'']"
  by (simp add: sorted_factors_def example_experiment_def)

lemma example_design: "xs_design example_experiment = Fractional"
  by (simp add: example_experiment_def)

definition example_arms :: "assignment list" where
  "example_arms = [[(''f'', LBool False), (''g'', LBool False)], [(''f'', LBool True), (''g'', LBool True)]]"

lemma example_expansion: "expand_design example_arm_hash example_experiment = Inr example_arms"
proof -
  note design = example_design
  have "fractional_design_metadata example_experiment =
      Inr \<lparr>fm_family = ''regular_two_level_half_fraction'', fm_generator = ''I=AB'', fm_resolution = 2, fm_runs = 2\<rparr>"
    by (simp add: fractional_design_metadata_def design example_sorted_factors letters_def Let_def)
  moreover have "filter (even_parity [example_factor ''f'', example_factor ''g''])
      (product_assignments [example_factor ''f'', example_factor ''g'']) = example_arms"
    by (simp add: product_assignments_def even_parity_def at_baseline_def level_eq_def example_arms_def)
  moreover have "compatible [example_factor ''f'', example_factor ''g''] a" for a
    by (simp add: compatible_def)
  moreover have "checked_arms example_arm_hash example_arms = Inr example_arms"
    by (simp add: checked_arms_def example_arms_def assignment_hash_def assignment_dump_def)
  ultimately show ?thesis
    by (simp add: expand_design_eq [OF example_experiment_valid] design_candidates_def example_sorted_factors design Let_def)
qed

theorem expand_design_exact_witness:
  "\<exists>arms. distinct arms \<and> [(''f'', LBool True), (''g'', LBool True)] \<in> set arms \<and>
     [(''f'', LBool True), (''g'', LBool False)] \<notin> set arms \<and>
     expand_design example_arm_hash example_experiment = Inr arms"
proof -
  obtain arms where arms: "distinct arms"
      "\<And>a. a \<in> set arms \<longleftrightarrow> declared_arm example_experiment a \<and> compatible (sorted_factors example_experiment) a"
      "expand_design example_arm_hash example_experiment = Inr arms"
    using expand_design_exact [OF example_experiment_valid, of example_arm_hash, unfolded example_expansion]
      example_expansion by (force split: if_splits)
  have "[(''f'', LBool True), (''g'', LBool True)] \<in> set arms"
    "[(''f'', LBool True), (''g'', LBool False)] \<notin> set arms"
    unfolding arms(2) by (simp_all add: declared_arm_def example_sorted_factors total_assignment_def even_parity_def
      at_baseline_def level_eq_def compatible_def example_design)
  then show ?thesis using arms(1,3) by blast
qed

theorem fractional_design_balanced_witness:
  "\<exists>m. fractional_design_metadata example_experiment = Inr m \<and> length example_arms = fm_runs m"
proof -
  have "\<forall>f \<in> set (xs_factors example_experiment). fs_incompatible_with f = [] \<and> fs_incompatible_level_combinations f = []"
    by (simp add: example_experiment_def)
  from fractional_design_balanced [OF example_experiment_valid example_design this example_expansion] show ?thesis by blast
qed

end
