(* ===== verification/Context_Schedule.thy ===== *)
theory Context_Schedule
  imports Experiment_Design
begin

text \<open>
  The units of an experiment's matrix, and the optional frozen schedule of a context-handoff study
  (\<open>src/backend/execution_v1/context_handoff_schedule.py\<close>): a predeclared order of the units that is
  accepted only when it is a bijection.

  A unit is a dictionary with fixed keys; the keys the controller adds later are options. The extension
  is a JSON document, frozen by the protocol models, so that its arrays are tuples: an array of
  hashable values is hashable, an object is not.
\<close>

section \<open>Units\<close>

record matrix_unit =
  un_scenario_id :: string
  un_harness_id :: string
  un_provider :: string
  un_provider_model :: string
  un_endpoint_id :: "string option"
  un_endpoint_digest :: "string option"
  un_treatment :: assignment
  un_treatment_id :: string
  un_repetition :: nat
  un_scenario_variant :: string
  un_scenario_pair_id :: string
  un_scenario_cluster_id :: string
  un_repetition_index :: nat
  un_analysis_pair_id :: string
  un_seed :: "int option"
  un_frozen_schedule_ordinal :: "nat option"
  un_declared_seed :: "nat option"
  un_blocks :: "(string \<times> string) list option"

definition opt_entry :: "string \<Rightarrow> ('a \<Rightarrow> json) \<Rightarrow> 'a option \<Rightarrow> dict" where
  "opt_entry key f v = (case v of None \<Rightarrow> [] | Some a \<Rightarrow> [(key, f a)])"

definition unit_dump :: "matrix_unit \<Rightarrow> dict" where
  "unit_dump u =
     [(''scenario_id'', JStr (un_scenario_id u)), (''harness_id'', JStr (un_harness_id u)),
      (''provider'', JStr (un_provider u)), (''provider_model'', JStr (un_provider_model u)),
      (''endpoint_id'', opt_json JStr (un_endpoint_id u)),
      (''endpoint_digest'', opt_json JStr (un_endpoint_digest u)),
      (''treatment'', JObj (assignment_dump (un_treatment u))), (''treatment_id'', JStr (un_treatment_id u)),
      (''repetition'', JInt (int (un_repetition u))), (''scenario_variant'', JStr (un_scenario_variant u)),
      (''scenario_pair_id'', JStr (un_scenario_pair_id u)),
      (''scenario_cluster_id'', JStr (un_scenario_cluster_id u)),
      (''repetition_index'', JInt (int (un_repetition_index u))),
      (''analysis_pair_id'', JStr (un_analysis_pair_id u))]
     @ opt_entry ''seed'' JInt (un_seed u)
     @ opt_entry ''frozen_schedule_ordinal'' (JInt \<circ> int) (un_frozen_schedule_ordinal u)
     @ opt_entry ''declared_seed'' (JInt \<circ> int) (un_declared_seed u)
     @ opt_entry ''blocks'' (\<lambda>bs. JObj (map (\<lambda>(i, v). (i, JStr v)) bs)) (un_blocks u)"

definition seed_of :: "string \<Rightarrow> int" where
  "seed_of digest = int_of_hex (take 16 digest) mod 2 ^ 31"

section \<open>The schedule\<close>

definition SCHEDULE_NAMESPACE :: string where
  "SCHEDULE_NAMESPACE = ''org.scaffold-arena.context-handoff-schedule-v1''"

definition POLICIES :: "string list" where
  "POLICIES = [''isolated'', ''full_inherited'', ''curated'']"

type_synonym cell_key = "string \<times> string \<times> int \<times> string option \<times> string"

definition unit_policy :: "matrix_unit \<Rightarrow> string option" where
  "unit_policy u = (case map_of (un_treatment u) ''context_policy'' of Some (LStr p) \<Rightarrow> Some p | _ \<Rightarrow> None)"

definition unit_key :: "string \<Rightarrow> matrix_unit \<Rightarrow> cell_key" where
  "unit_key policy u =
     (un_scenario_id u, policy, int (un_repetition_index u), un_endpoint_id u, un_provider_model u)"

definition expect_unit ::
  "matrix_unit \<Rightarrow> (cell_key \<times> matrix_unit) list \<Rightarrow> (cell_key \<times> matrix_unit) list result" where
  "expect_unit u expected =
     bind_r (raise_if (set (map fst (un_treatment u)) \<noteq> {''context_policy''})
       (ValueError ''context-handoff schedule permits no co-varied treatment factors'')) (\<lambda>_.
     case unit_policy u of
       None \<Rightarrow> Inl (ValueError ''context-handoff schedule requires exactly one policy factor per canonical cell'')
     | Some policy \<Rightarrow>
         bind_r (raise_if (policy \<notin> set POLICIES \<or> unit_key policy u \<in> set (map fst expected))
           (ValueError ''context-handoff schedule requires exactly one policy factor per canonical cell'')) (\<lambda>_.
         Inr (expected @ [(unit_key policy u, u)])))"

fun hashable :: "json \<Rightarrow> bool" where
  "hashable (JObj _) = False"
| "hashable (JArr js) = list_all hashable js"
| "hashable _ = True"

record schedule_cell =
  cl_scenario_id :: string
  cl_context_policy :: string
  cl_repetition_index :: nat
  cl_endpoint_id :: string
  cl_provider_model :: string
  cl_declared_seed :: nat
  cl_ordinal :: nat

definition CELL_FIELDS :: "string list" where
  "CELL_FIELDS = [''scenario_id'', ''context_policy'', ''repetition_index'', ''endpoint_id'', ''provider_model'',
     ''declared_seed'', ''ordinal'']"

fun json_str :: "json option \<Rightarrow> string option" where
  "json_str (Some (JStr s)) = Some s"
| "json_str _ = None"

fun json_nat :: "json option \<Rightarrow> nat option" where
  "json_nat (Some (JInt i)) = (if i < 0 then None else Some (nat i))"
| "json_nat _ = None"

text \<open>The fields of a cell after the checks of their types; a policy that is not hashable raises \<open>TypeError\<close>.\<close>

definition read_cell :: "json \<Rightarrow> schedule_cell result" where
  "read_cell j =
     (case j of
        JObj c \<Rightarrow>
          bind_r (raise_if (set (map fst c) \<noteq> set CELL_FIELDS)
            (ValueError ''context-handoff schedule cell has unknown or missing fields'')) (\<lambda>_.
          let invalid = ValueError ''context-handoff schedule cell has invalid scalar values'' in
          (case json_str (dict_get c ''scenario_id'') of None \<Rightarrow> Inl invalid | Some scenario \<Rightarrow>
          (case dict_get c ''context_policy'' of None \<Rightarrow> Inl invalid | Some raw \<Rightarrow>
          bind_r (raise_if (\<not> hashable raw) (TypeError ''unhashable type'')) (\<lambda>_.
          case (json_str (Some raw), json_nat (dict_get c ''repetition_index''), json_str (dict_get c ''endpoint_id''),
            json_str (dict_get c ''provider_model''), json_nat (dict_get c ''declared_seed''),
            json_nat (dict_get c ''ordinal'')) of
            (Some policy, Some repetition, Some endpoint, Some model, Some seed, Some ordinal) \<Rightarrow>
              if policy \<notin> set POLICIES then Inl invalid
              else Inr \<lparr>cl_scenario_id = scenario, cl_context_policy = policy, cl_repetition_index = repetition,
                        cl_endpoint_id = endpoint, cl_provider_model = model, cl_declared_seed = seed,
                        cl_ordinal = ordinal\<rparr>
          | _ \<Rightarrow> Inl invalid))))
      | _ \<Rightarrow> Inl (ValueError ''context-handoff schedule cell has unknown or missing fields''))"

definition cell_key_of :: "schedule_cell \<Rightarrow> cell_key" where
  "cell_key_of c = (cl_scenario_id c, cl_context_policy c, int (cl_repetition_index c), Some (cl_endpoint_id c),
     cl_provider_model c)"

definition cell_group :: "schedule_cell \<Rightarrow> string \<times> nat \<times> string \<times> string" where
  "cell_group c = (cl_scenario_id c, cl_repetition_index c, cl_endpoint_id c, cl_provider_model c)"

record schedule_state =
  ss_scheduled :: "(nat \<times> matrix_unit) list"
  ss_seen :: "cell_key list"
  ss_group_seeds :: "((string \<times> nat \<times> string \<times> string) \<times> nat) list"

definition schedule_unit :: "(json \<Rightarrow> string) \<Rightarrow> schedule_cell \<Rightarrow> matrix_unit \<Rightarrow> matrix_unit" where
  "schedule_unit h c u = u\<lparr>
     un_seed := Some (seed_of (h (JObj [(''scenario_id'', JStr (cl_scenario_id c)),
       (''repetition_index'', JInt (int (cl_repetition_index c))),
       (''declared_seed'', JInt (int (cl_declared_seed c)))]))),
     un_frozen_schedule_ordinal := Some (cl_ordinal c), un_declared_seed := Some (cl_declared_seed c)\<rparr>"

definition schedule_cell_step ::
  "(json \<Rightarrow> string) \<Rightarrow> (cell_key \<times> matrix_unit) list \<Rightarrow> json \<Rightarrow> schedule_state \<Rightarrow> schedule_state result" where
  "schedule_cell_step h expected j s =
     bind_r (read_cell j) (\<lambda>c.
     case map_of expected (cell_key_of c) of
       None \<Rightarrow> Inl (ValueError ''context-handoff schedule is not a canonical expansion bijection'')
     | Some u \<Rightarrow>
     bind_r (raise_if (cell_key_of c \<in> set (ss_seen s))
       (ValueError ''context-handoff schedule is not a canonical expansion bijection'')) (\<lambda>_.
     let prior_seed = (case map_of (ss_group_seeds s) (cell_group c) of None \<Rightarrow> cl_declared_seed c | Some p \<Rightarrow> p) in
     bind_r (raise_if (prior_seed \<noteq> cl_declared_seed c)
       (ValueError ''all context policies in a scenario/repetition group must share one declared seed'')) (\<lambda>_.
     Inr \<lparr>ss_scheduled = ss_scheduled s @ [(cl_ordinal c, schedule_unit h c u)],
          ss_seen = ss_seen s @ [cell_key_of c],
          ss_group_seeds = AList.update (cell_group c) prior_seed (ss_group_seeds s)\<rparr>)))"

definition three_in_a_row :: "string option list \<Rightarrow> bool" where
  "three_in_a_row policies =
     list_ex (\<lambda>i. take 3 (drop i policies) = replicate 3 (policies ! i)) [0..<length policies - 2]"

definition EXTENSION_FIELDS :: "string list" where
  "EXTENSION_FIELDS = [''version'', ''shuffle_algorithm'', ''randomization_seed'', ''cells'', ''schedule_digest'']"

definition field :: "dict \<Rightarrow> string \<Rightarrow> json" where
  "field d i = (case dict_get d i of None \<Rightarrow> JNull | Some j \<Rightarrow> j)"

text \<open>The part after the checks of the document (lines 31 to 70).\<close>

definition schedule_cells :: "(json \<Rightarrow> string) \<Rightarrow> matrix_unit list \<Rightarrow> json list \<Rightarrow> matrix_unit list result" where
  "schedule_cells h units cells =
     bind_r (for_each expect_unit units []) (\<lambda>expected.
     bind_r (for_each (schedule_cell_step h expected) cells
       \<lparr>ss_scheduled = [], ss_seen = [], ss_group_seeds = []\<rparr>) (\<lambda>s.
     bind_r (raise_if (set (ss_seen s) \<noteq> set (map fst expected) \<or>
         set (map fst (ss_scheduled s)) \<noteq> {0..<length expected})
       (ValueError ''context-handoff schedule omits, duplicates, or reorders canonical cells'')) (\<lambda>_.
     bind_r (raise_if (card (set (map (un_harness_id \<circ> snd) expected)) \<noteq> 1)
       (ValueError ''context-handoff schedule requires one fixed harness identity'')) (\<lambda>_.
     let scheduled = map snd (sort_key fst (ss_scheduled s)) in
     bind_r (raise_if (three_in_a_row (map unit_policy scheduled))
       (ValueError ''context-handoff schedule must interleave policies rather than block them'')) (\<lambda>_.
     Inr scheduled)))))"

definition apply_frozen_context_schedule ::
  "(json \<Rightarrow> string) \<Rightarrow> matrix_unit list \<Rightarrow> json \<Rightarrow> nat \<Rightarrow> matrix_unit list result" where
  "apply_frozen_context_schedule h units extension randomization_seed =
     (case extension of
        JObj ext \<Rightarrow>
          bind_r (raise_if (set (map fst ext) \<noteq> set EXTENSION_FIELDS)
            (ValueError ''context-handoff schedule extension has unknown or missing fields'')) (\<lambda>_.
          bind_r (raise_if (field ext ''version'' \<noteq> JStr ''1'' \<or>
              field ext ''shuffle_algorithm'' \<noteq> JStr ''predeclared-policy-interleaved-v1'' \<or>
              \<not> py_eq (field ext ''randomization_seed'') (JInt (int randomization_seed)))
            (ValueError ''context-handoff schedule extension version is unsupported'')) (\<lambda>_.
          case field ext ''cells'' of
            JArr cells \<Rightarrow>
              bind_r (raise_if (cells = []) (ValueError ''context-handoff schedule requires cells'')) (\<lambda>_.
              bind_r (raise_if (field ext ''schedule_digest'' \<noteq> JStr (h (JObj
                  [(''version'', field ext ''version''), (''shuffle_algorithm'', field ext ''shuffle_algorithm''),
                   (''randomization_seed'', field ext ''randomization_seed''), (''cells'', JArr cells)])))
                (ValueError ''context-handoff schedule digest mismatch'')) (\<lambda>_.
              schedule_cells h units cells))
          | _ \<Rightarrow> Inl (ValueError ''context-handoff schedule requires cells'')))
      | _ \<Rightarrow> Inl (ValueError ''context-handoff schedule extension has unknown or missing fields''))"

section \<open>An accepted schedule is a bijection\<close>

definition canonical_key :: "matrix_unit \<Rightarrow> cell_key" where
  "canonical_key u = unit_key (the (unit_policy u)) u"

text \<open>A unit without what the schedule adds to it.\<close>

definition unscheduled :: "matrix_unit \<Rightarrow> matrix_unit" where
  "unscheduled u = u\<lparr>un_seed := None, un_frozen_schedule_ordinal := None, un_declared_seed := None\<rparr>"

definition unit_group :: "matrix_unit \<Rightarrow> string \<times> nat \<times> string \<times> string" where
  "unit_group u = (un_scenario_id u, un_repetition_index u, the (un_endpoint_id u), un_provider_model u)"

lemma schedule_unit_frame [simp]:
  "unit_policy (schedule_unit h c u) = unit_policy u" "canonical_key (schedule_unit h c u) = canonical_key u"
  "unscheduled (schedule_unit h c u) = unscheduled u" "unit_group (schedule_unit h c u) = unit_group u"
  "un_harness_id (schedule_unit h c u) = un_harness_id u"
  by (simp_all add: schedule_unit_def unit_policy_def canonical_key_def unit_key_def unscheduled_def unit_group_def)

lemma expect_units:
  assumes "for_each expect_unit units acc = Inr expected" and "distinct (map fst acc)"
  shows "expected = acc @ map (\<lambda>u. (canonical_key u, u)) units \<and> distinct (map fst expected)"
  using assms
proof (induction units arbitrary: acc)
  case Nil
  then show ?case by simp
next
  case (Cons u units)
  from Cons.prems(1) obtain p where p: "unit_policy u = Some p" "unit_key p u \<notin> set (map fst acc)"
      "for_each expect_unit units (acc @ [(unit_key p u, u)]) = Inr expected"
    by (auto simp: expect_unit_def [of u] bind_r_eq_Inr_iff split: option.splits)
  have "canonical_key u = unit_key p u" by (simp add: canonical_key_def p(1))
  moreover have "distinct (map fst (acc @ [(unit_key p u, u)]))" using Cons.prems(2) p(2) by simp
  ultimately have IH: "expected = (acc @ [(canonical_key u, u)]) @ map (\<lambda>u. (canonical_key u, u)) units"
      "distinct (map fst expected)"
    using Cons.IH [OF p(3)] by metis+
  show ?case
    by (intro conjI IH(2)) (simp add: IH(1))
qed

definition seed_document :: "matrix_unit \<Rightarrow> json" where
  "seed_document u = JObj [(''scenario_id'', JStr (un_scenario_id u)),
     (''repetition_index'', JInt (int (un_repetition_index u))),
     (''declared_seed'', JInt (int (the (un_declared_seed u))))]"

definition cell_written :: "(json \<Rightarrow> string) \<Rightarrow> (cell_key \<times> matrix_unit) list \<Rightarrow> schedule_state \<Rightarrow> nat \<times> matrix_unit \<Rightarrow> bool" where
  "cell_written h expected s x \<longleftrightarrow>
     (\<exists>u. map_of expected (canonical_key (snd x)) = Some u \<and> unscheduled (snd x) = unscheduled u \<and>
        un_harness_id (snd x) = un_harness_id u) \<and>
     un_frozen_schedule_ordinal (snd x) = Some (fst x) \<and>
     un_seed (snd x) = Some (seed_of (h (seed_document (snd x)))) \<and>
     (\<exists>d. un_declared_seed (snd x) = Some d \<and> map_of (ss_group_seeds s) (unit_group (snd x)) = Some d)"

definition schedule_inv :: "(json \<Rightarrow> string) \<Rightarrow> (cell_key \<times> matrix_unit) list \<Rightarrow> schedule_state \<Rightarrow> bool" where
  "schedule_inv h expected s \<longleftrightarrow>
     ss_seen s = map (canonical_key \<circ> snd) (ss_scheduled s) \<and> distinct (ss_seen s) \<and>
     (\<forall>x \<in> set (ss_scheduled s). cell_written h expected s x)"

lemma schedule_cell_step_inv:
  assumes expected: "\<And>k u. (k, u) \<in> set expected \<Longrightarrow> k = canonical_key u"
    and "schedule_inv h expected s" and "schedule_cell_step h expected j s = Inr s'"
  shows "schedule_inv h expected s'"
proof -
  from assms(3) obtain c u where c: "map_of expected (cell_key_of c) = Some u" "cell_key_of c \<notin> set (ss_seen s)"
      "map_of (ss_group_seeds s) (cell_group c) \<in> {None, Some (cl_declared_seed c)}"
      "s' = \<lparr>ss_scheduled = ss_scheduled s @ [(cl_ordinal c, schedule_unit h c u)], ss_seen = ss_seen s @ [cell_key_of c],
        ss_group_seeds = AList.update (cell_group c) (cl_declared_seed c) (ss_group_seeds s)\<rparr>"
    by (auto simp: schedule_cell_step_def bind_r_eq_Inr_iff Let_def split: option.splits if_splits)
  have key: "cell_key_of c = canonical_key u" using map_of_SomeD [OF c(1)] by (rule expected)
  then have ids: "un_scenario_id u = cl_scenario_id c" "un_repetition_index u = cl_repetition_index c"
      "unit_group u = cell_group c"
    by (auto simp: cell_key_of_def canonical_key_def unit_key_def unit_group_def cell_group_def eq_commute [of "Some _"])
  have "cell_written h expected s' (cl_ordinal c, schedule_unit h c u)"
    using c(1) key ids
    by (simp add: cell_written_def c(4) update_conv') (simp add: schedule_unit_def seed_document_def)
  moreover have "cell_written h expected s' x" if "x \<in> set (ss_scheduled s)" for x
    using that assms(2) c(3)
    by (auto simp: schedule_inv_def cell_written_def c(4) update_conv')
  ultimately show ?thesis
    using assms(2) c(2) key by (auto simp: schedule_inv_def c(4))
qed

lemma schedule_loop_inv:
  assumes "\<And>k u. (k, u) \<in> set expected \<Longrightarrow> k = canonical_key u"
    and "for_each (schedule_cell_step h expected) cells \<lparr>ss_scheduled = [], ss_seen = [], ss_group_seeds = []\<rparr> = Inr s"
  shows "schedule_inv h expected s"
  using assms(2)
  by (rule for_each_invariant) (auto simp: schedule_inv_def [of _ _ "\<lparr>ss_scheduled = [], ss_seen = [], ss_group_seeds = []\<rparr>"]
    intro: schedule_cell_step_inv [OF assms(1)])

lemma sorted_ordinals:
  assumes "set (map fst xs) = {0..<n}" and "length xs = n"
  shows "map fst (sort_key fst xs) = [0..<n :: nat]"
proof -
  have "distinct (map fst (sort_key fst xs))"
    using assms by (intro card_distinct) (simp add: image_set [symmetric] del: image_set)
  moreover have "sorted (map fst (sort_key fst xs))" by simp
  ultimately show ?thesis
    using assms(1) by (intro sorted_distinct_set_unique) simp_all
qed

lemma scheduled_permutation:
  assumes "schedule_inv h expected s" and expected: "expected = map (\<lambda>u. (canonical_key u, u)) units"
    and "distinct (map fst expected)" and "set (ss_seen s) = set (map fst expected)"
  shows "mset (map (unscheduled \<circ> snd) (ss_scheduled s)) = mset (map unscheduled units)"
proof -
  let ?g = "\<lambda>k. unscheduled (the (map_of expected k))"
  have "map (unscheduled \<circ> snd) (ss_scheduled s) = map ?g (ss_seen s)"
    using assms(1) by (auto simp: schedule_inv_def cell_written_def)
  moreover have "mset (ss_seen s) = mset (map fst expected)"
    using assms(1,3,4) by (intro set_eq_iff_mset_eq_distinct [THEN iffD1]) (auto simp: schedule_inv_def)
  moreover have "map ?g (map fst expected) = map unscheduled units"
  proof -
    have "map_of expected (canonical_key u) = Some u" if "u \<in> set units" for u
      using assms(3) that by (intro map_of_is_SomeI) (auto simp: expected)
    then show ?thesis by (simp add: expected)
  qed
  ultimately show ?thesis by (metis mset_map)
qed

text \<open>What the code's comparison of slices says.\<close>

lemma three_in_a_row_iff:
  "three_in_a_row ps \<longleftrightarrow> (\<exists>i. i + 2 < length ps \<and> ps ! i = ps ! (i + 1) \<and> ps ! i = ps ! (i + 2))"
proof -
  have "take 3 (drop i ps) = replicate 3 (ps ! i) \<longleftrightarrow> ps ! i = ps ! (i + 1) \<and> ps ! i = ps ! (i + 2)"
    if "i + 2 < length ps" for i
  proof -
    have "take 3 (drop i ps) = [ps ! i, ps ! (i + 1), ps ! (i + 2)]"
      using that by (intro nth_equalityI) (auto simp: nth_Cons' numeral_eq_Suc less_Suc_eq)
    then show ?thesis by (auto simp: numeral_3_eq_3)
  qed
  then show ?thesis unfolding three_in_a_row_def list_ex_iff by (auto simp: less_diff_conv)
qed

lemma frozen_schedule_facts:
  assumes "apply_frozen_context_schedule h units extension randomization_seed = Inr us"
  shows "mset (map unscheduled us) = mset (map unscheduled units) \<and>
    map un_frozen_schedule_ordinal us = map Some [0..<length units] \<and>
    (\<forall>u \<in> set us. \<forall>v \<in> set us. un_harness_id u = un_harness_id v) \<and>
    (\<forall>i. i + 2 < length us \<longrightarrow>
       \<not> (unit_policy (us ! i) = unit_policy (us ! (i + 1)) \<and> unit_policy (us ! i) = unit_policy (us ! (i + 2)))) \<and>
    (\<forall>u \<in> set us. \<forall>v \<in> set us. unit_group u = unit_group v \<longrightarrow>
       un_declared_seed u = un_declared_seed v \<and> un_seed u = un_seed v) \<and>
    (\<forall>u \<in> set us. \<exists>n. un_seed u = Some n \<and> 0 \<le> n \<and> n < 2 ^ 31)"
proof -
  from assms obtain cells where "schedule_cells h units cells = Inr us"
    by (auto simp: apply_frozen_context_schedule_def split: json.splits)
  then obtain expected s where ok:
      "for_each expect_unit units [] = Inr expected"
      "for_each (schedule_cell_step h expected) cells \<lparr>ss_scheduled = [], ss_seen = [], ss_group_seeds = []\<rparr> = Inr s"
      "set (ss_seen s) = set (map fst expected)" "set (map fst (ss_scheduled s)) = {0..<length expected}"
      "card (set (map (un_harness_id \<circ> snd) expected)) = 1"
      "\<not> three_in_a_row (map unit_policy (map snd (sort_key fst (ss_scheduled s))))"
      "us = map snd (sort_key fst (ss_scheduled s))"
    by (auto simp: schedule_cells_def Let_def bind_r_eq_Inr_iff)
  have expected: "expected = map (\<lambda>u. (canonical_key u, u)) units" "distinct (map fst expected)"
    using expect_units [OF ok(1)] by (simp only: append_Nil list.map distinct.simps simp_thms)+
  have keys: "k = canonical_key u" if "(k, u) \<in> set expected" for k u using that expected(1) by auto
  have inv: "schedule_inv h expected s" by (rule schedule_loop_inv [OF keys ok(2)])
  have set_us: "set us = snd ` set (ss_scheduled s)" by (simp add: ok(7))
  have len: "length (ss_scheduled s) = length units"
    using arg_cong [OF scheduled_permutation [OF inv expected ok(3)], of size] by simp
  have "map un_frozen_schedule_ordinal us = map Some (map fst (sort_key fst (ss_scheduled s)))"
    using inv by (simp add: ok(7) schedule_inv_def cell_written_def)
  also have "\<dots> = map Some [0..<length units]"
    using sorted_ordinals [OF ok(4)] len by (simp add: expected(1))
  finally have ordinals: "map un_frozen_schedule_ordinal us = map Some [0..<length units]" .
  have perm: "mset (map unscheduled us) = mset (map unscheduled units)"
    using scheduled_permutation [OF inv expected ok(3)] by (simp add: ok(7) multiset.map_comp [symmetric])
  have harness: "un_harness_id u = un_harness_id v" if "u \<in> set us" "v \<in> set us" for u v
  proof -
    have "un_harness_id w \<in> set (map (un_harness_id \<circ> snd) expected)" if "w \<in> set us" for w
      using that inv set_us by (force simp: schedule_inv_def cell_written_def dest: map_of_SomeD)
    with that ok(5) show ?thesis by (metis card_1_singletonE singletonD)
  qed
  have "un_declared_seed w = map_of (ss_group_seeds s) (unit_group w)" if "w \<in> set us" for w
    using that inv unfolding set_us schedule_inv_def cell_written_def by force
  then have declared: "un_declared_seed u = un_declared_seed v"
    if "u \<in> set us" "v \<in> set us" "unit_group u = unit_group v" for u v
    using that by metis
  have seed: "un_seed u = Some (seed_of (h (seed_document u)))" if "u \<in> set us" for u
    using that inv unfolding set_us schedule_inv_def cell_written_def by fastforce
  have same_seed: "un_seed u = un_seed v" if "u \<in> set us" "v \<in> set us" "unit_group u = unit_group v" for u v
  proof -
    have "seed_document u = seed_document v"
      using declared [OF that] that(3) by (simp add: seed_document_def unit_group_def)
    then show ?thesis using seed [OF that(1)] seed [OF that(2)] by simp
  qed
  have range: "0 \<le> seed_of d \<and> seed_of d < 2 ^ 31" for d by (simp add: seed_of_def)
  have mixed: "\<not> three_in_a_row (map unit_policy us)" using ok(6,7) by simp
  show ?thesis
  proof (intro conjI allI ballI impI)
    fix i assume "i + 2 < length us"
    with mixed show "\<not> (unit_policy (us ! i) = unit_policy (us ! (i + 1)) \<and>
        unit_policy (us ! i) = unit_policy (us ! (i + 2)))"
      by (auto simp: three_in_a_row_iff)
  next
    fix u assume "u \<in> set us"
    then show "\<exists>n. un_seed u = Some n \<and> 0 \<le> n \<and> n < 2 ^ 31" using seed range by blast
  qed (rule perm | rule ordinals | (rule harness; assumption) | (rule declared; assumption) | (rule same_seed; assumption))+
qed

lemma scheduled_facts:
  assumes "apply_frozen_context_schedule h units extension randomization_seed = Inr us"
  shows "mset (map unscheduled us) = mset (map unscheduled units)"
    "\<And>u. u \<in> set us \<Longrightarrow> \<exists>n. un_seed u = Some n \<and> 0 \<le> n \<and> n < 2 ^ 31"
  using frozen_schedule_facts [OF assms] by blast+

text \<open>
  C37: The frozen schedule is accepted only when it is a bijection of the expanded matrix: the result
  is a permutation of the units, in the order of ordinals 0, 1, 2, ..., each unit once; one harness
  runs them all; no policy runs three times in a row; units that differ only in their policy get the
  same declared seed, and so the same seed, which is a 31-bit number.
\<close>

theorem frozen_schedule_bijection:
  assumes "apply_frozen_context_schedule h units extension randomization_seed = Inr us"
  shows "mset (map unscheduled us) = mset (map unscheduled units) \<and>
    map un_frozen_schedule_ordinal us = map Some [0..<length units] \<and>
    (\<forall>u \<in> set us. \<forall>v \<in> set us. un_harness_id u = un_harness_id v) \<and>
    (\<forall>i. i + 2 < length us \<longrightarrow>
       \<not> (unit_policy (us ! i) = unit_policy (us ! (i + 1)) \<and> unit_policy (us ! i) = unit_policy (us ! (i + 2)))) \<and>
    (\<forall>u \<in> set us. \<forall>v \<in> set us. unit_group u = unit_group v \<longrightarrow>
       un_declared_seed u = un_declared_seed v \<and> un_seed u = un_seed v) \<and>
    (\<forall>u \<in> set us. \<exists>n. un_seed u = Some n \<and> 0 \<le> n \<and> n < 2 ^ 31)"
  using assms by (rule frozen_schedule_facts)

section \<open>Example\<close>

definition example_unit :: "string \<Rightarrow> matrix_unit" where
  "example_unit policy =
     \<lparr>un_scenario_id = ''s1'', un_harness_id = ''h1'', un_provider = ''p'', un_provider_model = ''m'',
      un_endpoint_id = Some ''e1'', un_endpoint_digest = Some ''d'', un_treatment = [(''context_policy'', LStr policy)],
      un_treatment_id = ''t'', un_repetition = 0, un_scenario_variant = ''clean'', un_scenario_pair_id = ''s1'',
      un_scenario_cluster_id = ''s1'', un_repetition_index = 0, un_analysis_pair_id = ''d'', un_seed = None,
      un_frozen_schedule_ordinal = None, un_declared_seed = None, un_blocks = None\<rparr>"

definition example_cell :: "string \<Rightarrow> int \<Rightarrow> json" where
  "example_cell policy ordinal = JObj
     [(''scenario_id'', JStr ''s1''), (''context_policy'', JStr policy), (''repetition_index'', JInt 0),
      (''endpoint_id'', JStr ''e1''), (''provider_model'', JStr ''m''), (''declared_seed'', JInt 5),
      (''ordinal'', JInt ordinal)]"

definition example_schedule :: json where
  "example_schedule = JObj
     [(''version'', JStr ''1''), (''shuffle_algorithm'', JStr ''predeclared-policy-interleaved-v1''),
      (''randomization_seed'', JInt 7), (''cells'', JArr [example_cell ''isolated'' 1, example_cell ''curated'' 0]),
      (''schedule_digest'', JStr ''0a'')]"

lemma example_read_cell:
  "policy \<in> set POLICIES \<Longrightarrow> 0 \<le> ordinal \<Longrightarrow> read_cell (example_cell policy ordinal) =
     Inr \<lparr>cl_scenario_id = ''s1'', cl_context_policy = policy, cl_repetition_index = 0, cl_endpoint_id = ''e1'',
       cl_provider_model = ''m'', cl_declared_seed = 5, cl_ordinal = nat ordinal\<rparr>"
  by (simp add: read_cell_def example_cell_def CELL_FIELDS_def dict_get_def Let_def)

lemma example_unit_key: "unit_policy (example_unit p) = Some p" "un_treatment (example_unit p) = [(''context_policy'', LStr p)]"
    "unit_key q (example_unit p) = (''s1'', q, 0, Some ''e1'', ''m'')" "un_harness_id (example_unit p) = ''h1''"
  by (simp_all add: example_unit_def unit_policy_def unit_key_def)

lemma example_schedule_accepted:
  "\<exists>us. apply_frozen_context_schedule (\<lambda>_. ''0a'') [example_unit ''isolated'', example_unit ''curated'']
     example_schedule 7 = Inr us \<and> map unit_policy us = [Some ''curated'', Some ''isolated'']"
proof -
  have "apply_frozen_context_schedule (\<lambda>_. ''0a'') units example_schedule 7 =
      schedule_cells (\<lambda>_. ''0a'') units [example_cell ''isolated'' 1, example_cell ''curated'' 0]" for units
    by (simp add: apply_frozen_context_schedule_def example_schedule_def EXTENSION_FIELDS_def field_def dict_get_def
        py_eq_def)
  moreover have "\<exists>us. schedule_cells (\<lambda>_. ''0a'') [example_unit ''isolated'', example_unit ''curated'']
      [example_cell ''isolated'' 1, example_cell ''curated'' 0] = Inr us \<and>
      map unit_policy us = [Some ''curated'', Some ''isolated'']"
    by (simp add: schedule_cells_def expect_unit_def example_unit_key POLICIES_def schedule_cell_step_def example_read_cell
        cell_key_of_def cell_group_def Let_def three_in_a_row_def atLeastLessThanSuc insort_key.simps)
  ultimately show ?thesis by simp
qed

theorem frozen_schedule_bijection_witness:
  "\<exists>us. apply_frozen_context_schedule (\<lambda>_. ''0a'') [example_unit ''isolated'', example_unit ''curated'']
     example_schedule 7 = Inr us \<and> map un_frozen_schedule_ordinal us = [Some 0, Some 1]"
proof -
  obtain us where us: "apply_frozen_context_schedule (\<lambda>_. ''0a'') [example_unit ''isolated'', example_unit ''curated'']
      example_schedule 7 = Inr us"
    using example_schedule_accepted by blast
  have "map un_frozen_schedule_ordinal us = map Some [0..<length [example_unit ''isolated'', example_unit ''curated'']]"
    by (rule conjunct1 [OF conjunct2 [OF frozen_schedule_bijection [OF us]]])
  then have "map un_frozen_schedule_ordinal us = [Some 0, Some 1]" by simp
  with us show ?thesis by (intro exI conjI)
qed

end
