(* ===== verification/Controller.thy ===== *)
theory Controller
  imports Context_Schedule Arena_System
begin

text \<open>
  The experiment controller: \<open>ExperimentController\<close> of
  \<open>src/backend/execution_v1/controlled_controller.py\<close> over its base class in
  \<open>src/backend/execution_v1/_controller_kernel.py\<close>, and the idempotency records of
  \<open>src/backend/persistence_v1/repository.py\<close> it uses. The method \<open>create_execution\<close> of the base class is
  overridden, so that of the subclass is modelled.

  The controller adds two tables to the database of the execution core. Fresh identifiers, the clock
  and the draws of the seeded generator are the fields of \<open>dispatch_env\<close>; provenance and request
  payload are their JSON dumps. The loops that only build documents are \<open>map_r\<close>.
\<close>

section \<open>State and parameters\<close>

record idempotency_row =
  im_id :: string
  im_project_id :: string
  im_key :: string
  im_request_digest :: string
  im_response :: dict

record study_pack_row =
  sk_id :: string
  sk_content_digest :: string

record dispatch_db =
  dd_arena :: arena_db
  dd_study_packs :: "study_pack_row list"
  dd_idempotency :: "idempotency_row list"

record dispatch_env =
  de_codec :: codec
  de_parse_experiment :: "json \<Rightarrow> experiment_spec result"
  de_draw :: "nat \<Rightarrow> nat \<Rightarrow> nat"
  de_reservation_id :: string
  de_execution_id :: string
  de_unit_ids :: "nat \<Rightarrow> string \<times> string \<times> string"
  de_started_at :: datetime
  de_queued_at :: "nat \<Rightarrow> datetime"
  de_created_at :: "nat \<Rightarrow> datetime"

record controller =
  cn_harnesses :: "(string \<times> harness_spec) list"
  cn_scenario_specs :: "(string \<times> scenario_spec) list"
  cn_scenario_metadata :: "(string \<times> dict) list"

record execution_created =
  xc_execution_id :: string
  xc_episode_ids :: "string list"
  xc_job_ids :: "string list"
  xc_idempotent :: bool

definition lookup :: "(string \<times> 'a) list \<Rightarrow> string \<Rightarrow> 'a result" where
  "lookup d k = (case map_of d k of None \<Rightarrow> Inl (KeyError k) | Some v \<Rightarrow> Inr v)"

text \<open>Python's \<open>value or default\<close> for an optional string.\<close>

definition or_else :: "string option \<Rightarrow> string \<Rightarrow> string" where
  "or_else v d = (case v of None \<Rightarrow> d | Some s \<Rightarrow> if s = [] then d else s)"

section \<open>Idempotency records\<close>

definition insert_idempotency :: "idempotency_row \<Rightarrow> dispatch_db \<Rightarrow> (bool \<times> dispatch_db) result" where
  "insert_idempotency row d =
     (if length (im_request_digest row) \<noteq> 64 then Inl (IntegrityError ''idempotency_records'')
      else if list_ex (\<lambda>r. im_project_id r = im_project_id row \<and> im_key r = im_key row) (dd_idempotency d)
      then Inr (False, d)
      else if list_ex (\<lambda>r. im_id r = im_id row) (dd_idempotency d) then Inl (IntegrityError ''idempotency_records'')
      else Inr (True, d\<lparr>dd_idempotency := dd_idempotency d @ [row]\<rparr>))"

definition reserve_execution_idempotency ::
  "string \<Rightarrow> string \<Rightarrow> string \<Rightarrow> string \<Rightarrow> dispatch_db \<Rightarrow> (dict option \<times> dispatch_db) result" where
  "reserve_execution_idempotency project_id key request_digest reservation_id d =
     bind_r (insert_idempotency
       \<lparr>im_id = reservation_id, im_project_id = project_id, im_key = key, im_request_digest = request_digest,
        im_response = []\<rparr> d) (\<lambda>(inserted, d').
     if inserted then Inr (None, d')
     else
       (case filter (\<lambda>r. im_project_id r = project_id \<and> im_key r = key) (dd_idempotency d') of
          [] \<Rightarrow> Inl NoResultFound
        | [existing] \<Rightarrow>
            bind_r (raise_if (im_request_digest existing \<noteq> request_digest)
              (ValueError ''idempotency key was already used with a different request payload'')) (\<lambda>_.
            bind_r (raise_if (im_response existing = [])
              (RuntimeError ''idempotency reservation completed without a durable response'')) (\<lambda>_.
            Inr (Some (im_response existing), d')))
        | _ \<Rightarrow> Inl MultipleResultsFound))"

definition complete_execution_idempotency ::
  "string \<Rightarrow> string \<Rightarrow> string \<Rightarrow> dict \<Rightarrow> dispatch_db \<Rightarrow> dispatch_db result" where
  "complete_execution_idempotency project_id key request_digest response d =
     (let mine = (\<lambda>r. im_project_id r = project_id \<and> im_key r = key \<and> im_request_digest r = request_digest) in
     bind_r (raise_if (rowcount mine (dd_idempotency d) \<noteq> 1)
       (RuntimeError ''execution idempotency reservation was lost'')) (\<lambda>_.
     Inr (d\<lparr>dd_idempotency := update_where mine (\<lambda>r. r\<lparr>im_response := response\<rparr>) (dd_idempotency d)\<rparr>)))"

section \<open>Validation before the transaction\<close>

definition validate_experiment_json :: "dispatch_env \<Rightarrow> json \<Rightarrow> experiment_spec result" where
  "validate_experiment_json env j =
     bind_r (de_parse_experiment env j) (\<lambda>spec.
     bind_r (for_each (\<lambda>f _. bind_r (validate_levels f) (\<lambda>_. Inr ())) (xs_factors spec) ()) (\<lambda>_.
     validate_experiment spec))"

definition freeze_payload :: "experiment_spec \<Rightarrow> dict" where
  "freeze_payload spec = dict_set ''study_pack_hash'' (opt_json JStr (xs_study_pack_hash spec))
     (filter (\<lambda>(k, _). k \<notin> {''frozen'', ''freeze_hash'', ''frozen_at''}) (xs_dump spec))"

definition expected_freeze_hash :: "codec \<Rightarrow> experiment_spec \<Rightarrow> string" where
  "expected_freeze_hash k spec = sha256 k (JObj
     [(''protocol_version'', JStr ''1.0''), (''study_pack_hash'', opt_json JStr (xs_study_pack_hash spec)),
      (''experiment'', JObj (freeze_payload spec))])"

definition experiment_with_pack :: "dispatch_db \<Rightarrow> string \<Rightarrow> (experiment_row \<times> study_pack_row) option" where
  "experiment_with_pack d experiment_id =
     first (concat (map (\<lambda>x. map (\<lambda>s. (x, s)) (filter (\<lambda>s. sk_id s = xp_study_pack_id x) (dd_study_packs d)))
       (filter (\<lambda>x. xp_id x = experiment_id) (db_experiments (dd_arena d)))))"

definition falsy :: "string option \<Rightarrow> bool" where
  "falsy s \<longleftrightarrow> s = None \<or> s = Some []"

definition validate_frozen :: "dispatch_env \<Rightarrow> string \<Rightarrow> experiment_spec \<Rightarrow> dispatch_db \<Rightarrow> experiment_spec result" where
  "validate_frozen env project_id spec d =
     bind_r (raise_if (\<not> xs_frozen spec \<or> xs_owner_approval spec \<noteq> Approved \<or> falsy (xs_freeze_hash spec) \<or>
         falsy (xs_study_pack_hash spec))
       (FrozenExperimentError ''execution accepts only an approved frozen ExperimentSpec with bound hashes'')) (\<lambda>_.
     bind_r (case validate_experiment_json env (JObj (xs_dump spec)) of
         Inl (TypeError _) \<Rightarrow> Inl (FrozenExperimentError ''supplied frozen experiment is not canonical'')
       | Inl (ValueError _) \<Rightarrow> Inl (FrozenExperimentError ''supplied frozen experiment is not canonical'')
       | r \<Rightarrow> r) (\<lambda>canonical_spec.
     bind_r (raise_if (xs_freeze_hash canonical_spec \<noteq> Some (expected_freeze_hash (de_codec env) canonical_spec))
       (FrozenExperimentError ''supplied frozen experiment content does not match its freeze hash'')) (\<lambda>_.
     case experiment_with_pack d (xs_experiment_id spec) of
       None \<Rightarrow> Inl (FrozenExperimentError ''experiment is not an approved frozen project experiment'')
     | Some (row, pack) \<Rightarrow>
         bind_r (raise_if (xp_project_id row \<noteq> project_id \<or> xp_owner_approval row \<noteq> Approval_approved \<or>
             xp_frozen_at row = None)
           (FrozenExperimentError ''experiment is not an approved frozen project experiment'')) (\<lambda>_.
         bind_r (raise_if (xp_spec_hash row \<noteq> xs_freeze_hash canonical_spec \<or>
             xp_study_pack_hash row \<noteq> xs_study_pack_hash canonical_spec \<or>
             Some (sk_content_digest pack) \<noteq> xs_study_pack_hash canonical_spec)
           (FrozenExperimentError ''experiment frozen hashes do not match the supplied spec and study pack'')) (\<lambda>_.
         Inr canonical_spec)))))"

definition resolve_scenario :: "codec \<Rightarrow> controller \<Rightarrow> string \<Rightarrow> (string \<times> scenario_spec) result" where
  "resolve_scenario k ctrl scenario_id =
     bind_r (lookup (cn_scenario_specs ctrl) scenario_id) (\<lambda>scenario.
     bind_r (raise_if (sc_scenario_id scenario \<noteq> scenario_id)
       (ValueError ''scenario specification key does not match scenario_id'')) (\<lambda>_.
     bind_r (parse_scenario k (JObj (sc_dump scenario))) (\<lambda>snapshot. Inr (scenario_id, snapshot))))"

definition resolve_scenarios :: "codec \<Rightarrow> controller \<Rightarrow> experiment_spec \<Rightarrow> (string \<times> scenario_spec) list result" where
  "resolve_scenarios k ctrl spec =
     bind_r (raise_if (\<not> set (xs_scenario_ids spec) \<subseteq> set (map fst (cn_scenario_specs ctrl)))
       (ValueError ''scenario specifications are required for execution'')) (\<lambda>_.
     map_r (resolve_scenario k ctrl) (xs_scenario_ids spec))"

section \<open>The matrix\<close>

definition new_unit ::
  "(json \<Rightarrow> string) \<Rightarrow> experiment_spec \<Rightarrow> string \<times> scenario_spec \<Rightarrow> string \<Rightarrow> model_endpoint option \<Rightarrow> assignment
    \<Rightarrow> nat \<Rightarrow> matrix_unit" where
  "new_unit h spec entry harness_id endpoint treatment repetition =
     (let (scenario_id, scenario) = entry;
          comparison_key = or_else (sc_pair_id scenario) (sc_scenario_id scenario);
          cluster_id = or_else (sc_cluster_id scenario) (sc_scenario_id scenario);
          endpoint_id = map_option me_endpoint_id endpoint;
          endpoint_digest = Option.bind endpoint me_endpoint_digest;
          provider = (case endpoint of None \<Rightarrow> ''recorded'' | Some e \<Rightarrow> me_provider e);
          provider_model = (case endpoint of None \<Rightarrow> ''recorded'' | Some e \<Rightarrow> me_model e);
          analysis_pair_id = h (JObj
            [(''freeze_hash'', opt_json JStr (xs_freeze_hash spec)), (''scenario_comparison_key'', JStr comparison_key),
             (''harness_id'', JStr harness_id), (''endpoint_id'', opt_json JStr endpoint_id),
             (''endpoint_digest'', opt_json JStr endpoint_digest), (''provider'', JStr provider),
             (''provider_model'', JStr provider_model), (''repetition_index'', JInt (int repetition))])
      in \<lparr>un_scenario_id = scenario_id, un_harness_id = harness_id, un_provider = provider,
          un_provider_model = provider_model, un_endpoint_id = endpoint_id, un_endpoint_digest = endpoint_digest,
          un_treatment = treatment, un_treatment_id = treatment_id h treatment, un_repetition = repetition,
          un_scenario_variant = sc_variant scenario, un_scenario_pair_id = comparison_key,
          un_scenario_cluster_id = cluster_id, un_repetition_index = repetition,
          un_analysis_pair_id = analysis_pair_id, un_seed = None, un_frozen_schedule_ordinal = None,
          un_declared_seed = None, un_blocks = None\<rparr>)"

definition endpoint_values :: "experiment_spec \<Rightarrow> model_endpoint option list" where
  "endpoint_values spec = (if xs_model_endpoints spec = [] then [None] else map Some (xs_model_endpoints spec))"

definition scenario_units ::
  "(json \<Rightarrow> string) \<Rightarrow> experiment_spec \<Rightarrow> assignment list \<Rightarrow> string \<times> scenario_spec \<Rightarrow> matrix_unit list" where
  "scenario_units h spec treatments entry =
     concat (map (\<lambda>harness_id.
       concat (map (\<lambda>endpoint.
         concat (map (\<lambda>treatment.
           map (new_unit h spec entry harness_id endpoint treatment) [0..<xs_repetitions spec])
         treatments)) (endpoint_values spec))) (xs_harness_ids spec))"

definition expand_units ::
  "(json \<Rightarrow> string) \<Rightarrow> experiment_spec \<Rightarrow> assignment list \<Rightarrow> (string \<times> scenario_spec) list \<Rightarrow> matrix_unit list result" where
  "expand_units h spec treatments scenarios =
     bind_r (map_r (\<lambda>scenario_id. bind_r (lookup scenarios scenario_id) (\<lambda>scenario.
       Inr (scenario_units h spec treatments (scenario_id, scenario)))) (xs_scenario_ids spec)) (\<lambda>uss.
     Inr (concat uss))"

text \<open>
  \<open>random.Random(seed).shuffle\<close>: for each position from the last to the second, an exchange with an
  earlier position. \<open>draw i\<close> is the generator's number for position \<open>i\<close>, reduced below its bound.
\<close>

definition exchange :: "nat \<Rightarrow> nat \<Rightarrow> 'a list \<Rightarrow> 'a list" where
  "exchange i j xs = xs[j := xs ! i, i := xs ! j]"

definition shuffle_units :: "(nat \<Rightarrow> nat) \<Rightarrow> 'a list \<Rightarrow> 'a list" where
  "shuffle_units draw xs = fold (\<lambda>i. exchange i (draw i mod (i + 1))) (rev [1..<length xs]) xs"

definition block_value ::
  "controller \<Rightarrow> matrix_unit \<Rightarrow> randomization_block \<Rightarrow> (string \<times> string) list \<Rightarrow> (string \<times> string) list result" where
  "block_value ctrl u block values =
     (let field_value = (case rk_unit block of By_scenario \<Rightarrow> Some (un_scenario_id u)
         | By_harness \<Rightarrow> Some (un_harness_id u) | By_model \<Rightarrow> Some (un_provider_model u) | By_cluster \<Rightarrow> None)
      in case field_value of
           Some v \<Rightarrow> Inr (if v \<in> set (rk_values block) then AList.update (rk_block_id block) v values else values)
         | None \<Rightarrow>
             (case json_str (dict_get (case map_of (cn_scenario_metadata ctrl) (un_scenario_id u) of
                 None \<Rightarrow> [] | Some m \<Rightarrow> m) ''cluster_id'') of
                Some cluster_id \<Rightarrow>
                  if cluster_id \<notin> set (rk_values block)
                  then Inl (ValueError ''declared cluster randomization block cannot be resolved from scenario metadata'')
                  else Inr (AList.update (rk_block_id block) cluster_id values)
              | None \<Rightarrow>
                  Inl (ValueError ''declared cluster randomization block cannot be resolved from scenario metadata'')))"

definition block_values :: "controller \<Rightarrow> experiment_spec \<Rightarrow> matrix_unit \<Rightarrow> (string \<times> string) list result" where
  "block_values ctrl spec u = for_each (block_value ctrl u) (xs_randomization_blocks spec) []"

definition with_blocks :: "controller \<Rightarrow> experiment_spec \<Rightarrow> matrix_unit \<Rightarrow> matrix_unit result" where
  "with_blocks ctrl spec u = bind_r (block_values ctrl spec u) (\<lambda>b. Inr (u\<lparr>un_blocks := Some b\<rparr>))"

definition with_seed :: "(json \<Rightarrow> string) \<Rightarrow> experiment_spec \<Rightarrow> nat \<Rightarrow> matrix_unit \<Rightarrow> matrix_unit" where
  "with_seed h spec index u = u\<lparr>un_seed := Some (seed_of (h (JObj
     [(''seed'', JInt (int (xs_randomization_seed spec))), (''ordinal'', JInt (int index)),
      (''unit'', JObj (unit_dump u))])))\<rparr>"

definition schedule_extension :: "experiment_spec \<Rightarrow> json option" where
  "schedule_extension spec =
     (case dict_get (xs_extensions spec) SCHEDULE_NAMESPACE of Some JNull \<Rightarrow> None | v \<Rightarrow> v)"

definition matrix ::
  "dispatch_env \<Rightarrow> controller \<Rightarrow> experiment_spec \<Rightarrow> (string \<times> scenario_spec) list \<Rightarrow> matrix_unit list result" where
  "matrix env ctrl spec scenarios =
     (let h = sha256 (de_codec env) in
     bind_r (expand_design h spec) (\<lambda>treatments.
     bind_r (expand_units h spec treatments scenarios) (\<lambda>expanded.
     let units = sort_key (\<lambda>u. h (JObj (unit_dump u))) expanded in
     case schedule_extension spec of
       Some schedule \<Rightarrow>
         bind_r (apply_frozen_context_schedule h units schedule (xs_randomization_seed spec)) (\<lambda>scheduled.
         map_r (with_blocks ctrl spec) scheduled)
     | None \<Rightarrow>
         map_r (\<lambda>(index, u). with_blocks ctrl spec (with_seed h spec index u))
           (enumerate 0 (shuffle_units (de_draw env (xs_randomization_seed spec)) units)))))"

section \<open>Dispatch\<close>

definition from_experiment :: "experiment_spec \<Rightarrow> int \<Rightarrow> harness_spec \<Rightarrow> execution_controls result" where
  "from_experiment spec seed harness =
     (case xs_budgets spec of
        None \<Rightarrow> Inl (ValueError ''executable controls require declared attempt budgets'')
      | Some budget \<Rightarrow> new_controls
          \<lparr>ec_temperature = sp_temperature (xs_sampling spec), ec_top_p = sp_top_p (xs_sampling spec),
           ec_max_output_tokens = sp_max_tokens (xs_sampling spec), ec_seed = seed,
           ec_timeout_seconds = min (of_int (hs_timeout_seconds harness)) (bs_max_latency_seconds budget),
           ec_max_tool_calls = bs_max_tool_calls budget, ec_max_context_tokens = bs_max_context_tokens budget,
           ec_max_attempts = int (bs_max_attempts budget), ec_source = Frozen_experiment\<rparr>)"

definition new_envelope ::
  "codec \<Rightarrow> experiment_spec \<Rightarrow> budget_spec \<Rightarrow> matrix_unit \<Rightarrow> string \<Rightarrow> string \<Rightarrow> dict \<Rightarrow> datetime
    \<Rightarrow> attempt_envelope result" where
  "new_envelope k spec budget u episode_id attempt_id provenance queued_at =
     validate_lifecycle
       \<lparr>av_attempt_id = attempt_id, av_episode_id = episode_id, av_ordinal = 1,
        av_provider_model = un_provider_model u, av_provider = un_provider u, av_endpoint_id = un_endpoint_id u,
        av_pinned_endpoint_digest = un_endpoint_digest u, av_observed_provider_version = None,
        av_observed_endpoint_digest = None, av_harness_id = un_harness_id u,
        av_factor_assignments = assignment_dump (un_treatment u), av_budget = budget, av_provenance = provenance,
        av_request_hash = sha256 k (JObj
          [(''freeze_hash'', opt_json JStr (xs_freeze_hash spec)), (''episode_id'', JStr episode_id),
           (''attempt_id'', JStr attempt_id), (''unit'', JObj (unit_dump u)), (''provenance'', JObj provenance)]),
        av_response_hash = None, av_status = Env_queued, av_queued_at = queued_at, av_started_at = None,
        av_completed_at = None\<rparr>"

definition aggregate_dump :: "aggregate_budget_spec \<Rightarrow> dict" where
  "aggregate_dump b =
     [(''max_total_cost_usd'', JNum (ag_max_total_cost_usd b)), (''max_total_tokens'', JInt (ag_max_total_tokens b)),
      (''max_total_tool_calls'', JInt (ag_max_total_tool_calls b)),
      (''max_wall_time_seconds'', JNum (ag_max_wall_time_seconds b)), (''max_attempts'', JInt (ag_max_attempts b))]"

definition aggregate_deadline_at :: "datetime \<Rightarrow> experiment_spec \<Rightarrow> datetime option" where
  "aggregate_deadline_at started spec =
     map_option (\<lambda>b. started + td_seconds (ag_max_wall_time_seconds b)) (xs_aggregate_budget spec)"

definition aggregate_payload :: "datetime \<Rightarrow> experiment_spec \<Rightarrow> json" where
  "aggregate_payload started spec =
     (case (xs_aggregate_budget spec, aggregate_deadline_at started spec) of
        (Some b, Some t) \<Rightarrow> JObj (aggregate_dump b @ [(''deadline_at'', JTime t)])
      | _ \<Rightarrow> JNull)"

text \<open>The documents of one unit (lines 131 to 165 of the controller).\<close>

definition bind_unit ::
  "dispatch_env \<Rightarrow> experiment_spec \<Rightarrow> budget_spec \<Rightarrow> dict \<Rightarrow> (string \<times> scenario_spec) list \<Rightarrow> (string \<times> harness_spec) list
    \<Rightarrow> nat \<Rightarrow> matrix_unit \<Rightarrow> (harness_spec \<times> execution_controls \<times> attempt_input) result" where
  "bind_unit env spec budget provenance scenarios harnesses ordinal u =
     (let k = de_codec env; (episode_id, attempt_id, job_id) = de_unit_ids env ordinal in
     bind_r (lookup harnesses (un_harness_id u)) (\<lambda>harness.
     bind_r (case un_seed u of None \<Rightarrow> Inl (KeyError ''seed'') | Some seed \<Rightarrow> from_experiment spec seed harness) (\<lambda>controls.
     bind_r (new_envelope k spec budget u episode_id attempt_id provenance (de_queued_at env ordinal)) (\<lambda>envelope.
     bind_r (validate_envelope k (envelope_dump (envelope\<lparr>av_request_hash := sha256 k (JObj
         [(''base_request_hash'', JStr (av_request_hash envelope)),
          (''execution_controls_digest'', JStr (controls_digest k controls))])\<rparr>))) (\<lambda>canonical_envelope.
     bind_r (lookup scenarios (un_scenario_id u)) (\<lambda>scenario.
     bind_r (bind_input k scenario canonical_envelope (Some controls)) (\<lambda>bound.
     Inr (harness, controls, bound))))))))"

definition unit_metadata :: "matrix_unit \<Rightarrow> dict" where
  "unit_metadata u = filter (\<lambda>(k, _). k \<noteq> ''scenario_id'') (unit_dump u)"

definition unit_episode :: "string \<Rightarrow> string \<Rightarrow> nat \<Rightarrow> matrix_unit \<Rightarrow> episode_row" where
  "unit_episode execution_id episode_id ordinal u =
     \<lparr>ep_id = episode_id, ep_execution_id = execution_id, ep_ordinal = ordinal,
      ep_scenario_id = Some (un_scenario_id u), ep_metadata_json = unit_metadata u\<rparr>"

definition unit_attempt :: "codec \<Rightarrow> string \<Rightarrow> string \<Rightarrow> matrix_unit \<Rightarrow> execution_controls \<Rightarrow> attempt_envelope \<Rightarrow> attempt_row" where
  "unit_attempt k episode_id attempt_id u controls envelope =
     \<lparr>at_id = attempt_id, at_episode_id = episode_id, at_ordinal = 0, at_status = ''queued'',
      at_request_metadata =
        [(''envelope'', envelope_dump envelope), (''treatment_id'', JStr (un_treatment_id u)),
         (''execution_controls_digest'', JStr (controls_digest k controls))],
      at_result_metadata = []\<rparr>"

definition job_created_at :: "dispatch_env \<Rightarrow> experiment_spec \<Rightarrow> nat \<Rightarrow> datetime" where
  "job_created_at env spec ordinal =
     (if SCHEDULE_NAMESPACE \<in> set (map fst (xs_extensions spec)) then de_started_at env + int ordinal
      else de_created_at env ordinal)"

definition unit_job ::
  "dispatch_env \<Rightarrow> experiment_spec \<Rightarrow> string \<Rightarrow> string \<Rightarrow> string \<Rightarrow> nat \<Rightarrow> harness_spec \<Rightarrow> attempt_input \<Rightarrow> job_row" where
  "unit_job env spec execution_id attempt_id job_id ordinal harness bound =
     queued_job job_id execution_id (Some attempt_id) ''attempt'' (de_started_at env)
       [(''attempt_input'', attempt_input_dump bound), (''harness'', JObj (hs_dump harness)),
        (''aggregate_budget'', aggregate_payload (de_started_at env) spec)]
       (job_created_at env spec ordinal)"

text \<open>The body of the loop over the matrix; its state is the two lists of identifiers and the database.\<close>

definition dispatch_unit ::
  "dispatch_env \<Rightarrow> experiment_spec \<Rightarrow> budget_spec \<Rightarrow> dict \<Rightarrow> (string \<times> scenario_spec) list \<Rightarrow> (string \<times> harness_spec) list
    \<Rightarrow> string \<Rightarrow> nat \<times> matrix_unit \<Rightarrow> string list \<times> string list \<times> arena_db
    \<Rightarrow> (string list \<times> string list \<times> arena_db) result" where
  "dispatch_unit env spec budget provenance scenarios harnesses execution_id entry state =
     (let (ordinal, u) = entry; (episode_ids, job_ids, db) = state;
          (episode_id, attempt_id, job_id) = de_unit_ids env ordinal in
     bind_r (bind_unit env spec budget provenance scenarios harnesses ordinal u) (\<lambda>(harness, controls, bound).
     bind_r (insert_episode (unit_episode execution_id episode_id ordinal u) db) (\<lambda>db1.
     bind_r (insert_attempt (unit_attempt (de_codec env) episode_id attempt_id u controls (ai_attempt bound)) db1) (\<lambda>db2.
     bind_r (insert_job (unit_job env spec execution_id attempt_id job_id ordinal harness bound) db2) (\<lambda>db3.
     Inr (episode_ids @ [episode_id], job_ids @ [job_id], db3))))))"

definition new_execution ::
  "dispatch_env \<Rightarrow> experiment_spec \<Rightarrow> budget_spec \<Rightarrow> dict \<Rightarrow> dict \<Rightarrow> dict \<Rightarrow> execution_row" where
  "new_execution env spec budget payload provenance harness_bindings =
     \<lparr>ex_id = de_execution_id env, ex_experiment_id = xs_experiment_id spec, ex_status = Ex_queued,
      ex_parameters =
        [(''freeze_hash'', opt_json JStr (xs_freeze_hash spec)), (''request_payload'', JObj payload),
         (''provenance'', JObj provenance),
         (''budget_envelope'', JObj [(''attempt'', budget_dump budget),
            (''aggregate'', opt_json (JObj \<circ> aggregate_dump) (xs_aggregate_budget spec))]),
         (''harness_bindings_hash'', JStr (sha256 (de_codec env) (JObj harness_bindings))),
         (''aggregate_started_at'', JTime (de_started_at env)),
         (''aggregate_deadline_at'', opt_json JTime (aggregate_deadline_at (de_started_at env) spec))],
      ex_started_at = None, ex_completed_at = None\<rparr>"

definition created_response :: "string \<Rightarrow> string list \<Rightarrow> string list \<Rightarrow> dict" where
  "created_response execution_id episode_ids job_ids =
     [(''execution_id'', JStr execution_id), (''episode_ids'', JArr (map JStr episode_ids)),
      (''job_ids'', JArr (map JStr job_ids))]"

definition string_items :: "json \<Rightarrow> string list result" where
  "string_items j =
     (case j of
        JArr js \<Rightarrow> map_r (\<lambda>i. case i of JStr s \<Rightarrow> Inr s | _ \<Rightarrow> Inl (TypeError ''response'')) js
      | _ \<Rightarrow> Inl (TypeError ''response''))"

text \<open>Reading a stored response back; the column only ever holds what \<open>created_response\<close> builds.\<close>

definition replay :: "dict \<Rightarrow> execution_created result" where
  "replay response =
     bind_r (lookup response ''execution_id'') (\<lambda>x.
     bind_r (bind_r (lookup response ''episode_ids'') string_items) (\<lambda>episode_ids.
     bind_r (bind_r (lookup response ''job_ids'') string_items) (\<lambda>job_ids.
     case x of
       JStr execution_id \<Rightarrow> Inr \<lparr>xc_execution_id = execution_id, xc_episode_ids = episode_ids,
         xc_job_ids = job_ids, xc_idempotent = True\<rparr>
     | _ \<Rightarrow> Inl (TypeError ''response''))))"

text \<open>The request, as the caller states it.\<close>

record dispatch_request =
  rq_project_id :: string
  rq_spec :: experiment_spec
  rq_key :: string
  rq_provenance :: dict
  rq_payload :: dict
  rq_harnesses :: "(string \<times> harness_spec) list"

definition resolved_harnesses :: "controller \<Rightarrow> dispatch_request \<Rightarrow> (string \<times> harness_spec) list" where
  "resolved_harnesses ctrl rq = fold (\<lambda>(i, x). AList.update i x) (rq_harnesses rq) (cn_harnesses ctrl)"

definition harness_bindings :: "(string \<times> harness_spec) list \<Rightarrow> experiment_spec \<Rightarrow> dict result" where
  "harness_bindings harnesses spec =
     map_r (\<lambda>i. bind_r (lookup harnesses i) (\<lambda>x. Inr (i, JObj (hs_dump x)))) (sort (xs_harness_ids spec))"

definition request_digest :: "codec \<Rightarrow> experiment_spec \<Rightarrow> dispatch_request \<Rightarrow> dict \<Rightarrow> string" where
  "request_digest k spec rq bound_harnesses = sha256 k (JObj
     [(''freeze_hash'', opt_json JStr (xs_freeze_hash spec)), (''payload'', JObj (rq_payload rq)),
      (''provenance'', JObj (rq_provenance rq)), (''harness_bindings'', JObj bound_harnesses)])"

text \<open>What precedes the transaction (lines 46 to 75).\<close>

record prepared =
  pp_spec :: experiment_spec
  pp_budget :: budget_spec
  pp_harnesses :: "(string \<times> harness_spec) list"
  pp_scenarios :: "(string \<times> scenario_spec) list"
  pp_bindings :: dict
  pp_digest :: string

definition prepare_execution :: "dispatch_env \<Rightarrow> controller \<Rightarrow> dispatch_request \<Rightarrow> dispatch_db \<Rightarrow> prepared result" where
  "prepare_execution env ctrl rq d =
     bind_r (raise_if (rq_key rq = []) (ValueError ''request_key is required'')) (\<lambda>_.
     bind_r (validate_frozen env (rq_project_id rq) (rq_spec rq) d) (\<lambda>spec.
     case xs_budgets spec of
       None \<Rightarrow> Inl (ValueError ''a durable execution requires declared attempt budgets'')
     | Some budget \<Rightarrow>
         let harnesses = resolved_harnesses ctrl rq in
         bind_r (raise_if (\<not> set (xs_harness_ids spec) \<subseteq> set (map fst harnesses))
           (ValueError ''harness specifications are required for execution'')) (\<lambda>_.
         bind_r (resolve_scenarios (de_codec env) ctrl spec) (\<lambda>scenarios.
         bind_r (harness_bindings harnesses spec) (\<lambda>bound_harnesses.
         Inr \<lparr>pp_spec = spec, pp_budget = budget, pp_harnesses = harnesses, pp_scenarios = scenarios,
              pp_bindings = bound_harnesses, pp_digest = request_digest (de_codec env) spec rq bound_harnesses\<rparr>)))))"

definition dispatch_body ::
  "dispatch_env \<Rightarrow> controller \<Rightarrow> dispatch_request \<Rightarrow> prepared \<Rightarrow> dispatch_db \<Rightarrow> (execution_created \<times> dispatch_db) result" where
  "dispatch_body env ctrl rq p d =
     bind_r (reserve_execution_idempotency (rq_project_id rq) (rq_key rq) (pp_digest p) (de_reservation_id env) d)
       (\<lambda>(response, d1).
     case response of
       Some r \<Rightarrow> bind_r (replay r) (\<lambda>created. Inr (created, d1))
     | None \<Rightarrow>
         bind_r (insert_execution (new_execution env (pp_spec p) (pp_budget p) (rq_payload rq) (rq_provenance rq)
           (pp_bindings p)) (dd_arena d1)) (\<lambda>db1.
         bind_r (matrix env ctrl (pp_spec p) (pp_scenarios p)) (\<lambda>units.
         bind_r (for_each (dispatch_unit env (pp_spec p) (pp_budget p) (rq_provenance rq) (pp_scenarios p)
             (pp_harnesses p) (de_execution_id env)) (enumerate 0 units) ([], [], db1))
           (\<lambda>(episode_ids, job_ids, db2).
         bind_r (complete_execution_idempotency (rq_project_id rq) (rq_key rq) (pp_digest p)
             (created_response (de_execution_id env) episode_ids job_ids) (d1\<lparr>dd_arena := db2\<rparr>)) (\<lambda>d2.
         Inr (\<lparr>xc_execution_id = de_execution_id env, xc_episode_ids = episode_ids, xc_job_ids = job_ids,
               xc_idempotent = False\<rparr>, d2))))))"

definition create_execution ::
  "dispatch_env \<Rightarrow> controller \<Rightarrow> dispatch_request \<Rightarrow> dispatch_db \<Rightarrow> execution_created result \<times> dispatch_db" where
  "create_execution env ctrl rq d =
     (case prepare_execution env ctrl rq d of
        Inl e \<Rightarrow> (Inl e, d)
      | Inr p \<Rightarrow> transaction (dispatch_body env ctrl rq p) d)"

end
