(* ===== verification/Controller_Invariants.thy ===== *)
theory Controller_Invariants
  imports Controller
begin

text \<open>
  What the controller guarantees: the matrix is the full crossing of what the experiment declares, an
  execution is created with all its rows or not at all, the invariants of the execution core hold
  afterwards, and a request is executed at most once however often it is repeated.
\<close>

section \<open>The shuffle is a permutation\<close>

lemma length_exchange [simp]: "length (exchange i j xs) = length xs"
  by (simp add: exchange_def)

lemma mset_exchange: "i < length xs \<Longrightarrow> j < length xs \<Longrightarrow> mset (exchange i j xs) = mset xs"
  by (simp add: exchange_def mset_swap)

lemma mset_shuffle_units [simp]: "mset (shuffle_units draw xs) = mset xs"
proof -
  have perm: "mset (fold (\<lambda>i. exchange i (draw i mod (i + 1))) is ys) = mset ys" if "\<forall>i \<in> set is. i < length ys" for "is" ys
    using that
  proof (induction "is" arbitrary: ys)
    case Nil
    then show ?case by simp
  next
    case (Cons i "is")
    have "draw i mod (i + 1) < i + 1" by (rule mod_less_divisor) simp
    moreover have "i < length ys" using Cons.prems by simp
    ultimately have "draw i mod (i + 1) < length ys" by linarith
    with Cons show ?case by (simp add: mset_exchange)
  qed
  show ?thesis unfolding shuffle_units_def by (rule perm) simp
qed

section \<open>The matrix is the full crossing\<close>

definition unit_cell :: "matrix_unit \<Rightarrow> string \<times> string \<times> string option \<times> assignment \<times> nat" where
  "unit_cell u = (un_scenario_id u, un_harness_id u, un_endpoint_id u, un_treatment u, un_repetition_index u)"

definition full_crossing :: "experiment_spec \<Rightarrow> assignment list \<Rightarrow> (string \<times> string \<times> string option \<times> assignment \<times> nat) list" where
  "full_crossing spec treatments =
     List.product (xs_scenario_ids spec) (List.product (xs_harness_ids spec)
       (List.product (map (map_option me_endpoint_id) (endpoint_values spec))
         (List.product treatments [0..<xs_repetitions spec])))"

lemma product_concat: "List.product xs ys = concat (map (\<lambda>x. map (Pair x) ys) xs)"
  by (induction xs) auto

lemma unit_cell_new [simp]:
  "unit_cell (new_unit h spec entry x e t r) = (fst entry, x, map_option me_endpoint_id e, t, r)"
  by (cases entry) (simp add: unit_cell_def new_unit_def Let_def)

lemma unit_cell_unscheduled [simp]: "unit_cell (unscheduled u) = unit_cell u"
  by (simp add: unit_cell_def unscheduled_def)

lemma unit_cell_seed [simp]: "unit_cell (with_seed h spec i u) = unit_cell u"
  by (simp add: unit_cell_def with_seed_def)

lemma with_blocks_frame:
  "with_blocks ctrl spec u = Inr v \<Longrightarrow> unit_cell v = unit_cell u \<and> un_seed v = un_seed u \<and> un_blocks v \<noteq> None"
  by (auto simp: with_blocks_def bind_r_eq_Inr_iff unit_cell_def)

lemma map_cell_scenario_units:
  "map unit_cell (scenario_units h spec ts (i, s)) =
     map (Pair i) (List.product (xs_harness_ids spec) (List.product (map (map_option me_endpoint_id) (endpoint_values spec))
       (List.product ts [0..<xs_repetitions spec])))"
  by (simp add: scenario_units_def product_concat map_concat comp_def)

lemma map_cell_expand_units:
  assumes "expand_units h spec ts scenarios = Inr us"
  shows "map unit_cell us = full_crossing spec ts"
proof -
  obtain uss where uss: "us = concat uss" "map_r (\<lambda>i. bind_r (lookup scenarios i) (\<lambda>s.
      Inr (scenario_units h spec ts (i, s)))) (xs_scenario_ids spec) = Inr uss"
    using assms by (auto simp: expand_units_def bind_r_eq_Inr_iff)
  let ?rest = "List.product (xs_harness_ids spec) (List.product (map (map_option me_endpoint_id) (endpoint_values spec))
    (List.product ts [0..<xs_repetitions spec]))"
  have "map (map unit_cell) uss = map (\<lambda>i. map (Pair i) ?rest) (xs_scenario_ids spec)"
    using uss(2) by (rule map_r_map) (auto simp: bind_r_eq_Inr_iff map_cell_scenario_units)
  then show ?thesis
    by (simp add: uss(1) map_concat full_crossing_def product_concat [of "xs_scenario_ids spec"])
qed

lemma unit_cell_perm:
  assumes "mset (map unscheduled us) = mset (map unscheduled vs)"
  shows "mset (map unit_cell us) = mset (map unit_cell vs)"
proof -
  have "map unit_cell ws = map unit_cell (map unscheduled ws)" for ws by simp
  with assms show ?thesis by (metis mset_map)
qed

lemma expand_design_distinct: "expand_design h spec = Inr ts \<Longrightarrow> distinct ts"
  by (auto simp: expand_design_def Let_def bind_r_eq_Inr_iff simp: distinct_map)

lemma matrix_units:
  assumes "matrix env ctrl spec scenarios = Inr us"
  shows "\<exists>ts. expand_design (sha256 (de_codec env)) spec = Inr ts \<and>
    mset (map unit_cell us) = mset (full_crossing spec ts) \<and>
    (\<forall>u \<in> set us. un_blocks u \<noteq> None \<and> (\<exists>n. un_seed u = Some n \<and> 0 \<le> n \<and> n < 2 ^ 31))"
proof -
  let ?h = "sha256 (de_codec env)"
  obtain ts expanded where ts: "expand_design ?h spec = Inr ts" "expand_units ?h spec ts scenarios = Inr expanded"
    using assms by (auto simp: matrix_def Let_def bind_r_eq_Inr_iff)
  define units where "units = sort_key (\<lambda>u. ?h (JObj (unit_dump u))) expanded"
  have cells: "mset (map unit_cell units) = mset (full_crossing spec ts)"
    using map_cell_expand_units [OF ts(2)] by (simp add: units_def) (metis mset_map)
  have "mset (map unit_cell us) = mset (map unit_cell units) \<and>
    (\<forall>u \<in> set us. un_blocks u \<noteq> None \<and> (\<exists>n. un_seed u = Some n \<and> 0 \<le> n \<and> n < 2 ^ 31))"
  proof (cases "schedule_extension spec")
    case None
    let ?sh = "shuffle_units (de_draw env (xs_randomization_seed spec)) units"
    have us: "map_r (\<lambda>(i, u). with_blocks ctrl spec (with_seed ?h spec i u)) (enumerate 0 ?sh) = Inr us"
      using assms None by (simp add: matrix_def Let_def ts units_def)
    have "map unit_cell us = map (unit_cell \<circ> snd) (enumerate 0 ?sh)"
      using us by (rule map_r_map) (auto dest: with_blocks_frame)
    also have "\<dots> = map unit_cell ?sh" by (simp flip: map_map)
    finally have "mset (map unit_cell us) = mset (map unit_cell units)" by simp
    moreover have "un_blocks u \<noteq> None \<and> (\<exists>n. un_seed u = Some n \<and> 0 \<le> n \<and> n < 2 ^ 31)" if "u \<in> set us" for u
      using map_r_set [OF us that] with_blocks_frame by (fastforce simp: with_seed_def seed_of_def)
    ultimately show ?thesis by blast
  next
    case (Some schedule)
    then obtain scheduled where sch:
        "apply_frozen_context_schedule ?h units schedule (xs_randomization_seed spec) = Inr scheduled"
        "map_r (with_blocks ctrl spec) scheduled = Inr us"
      using assms by (auto simp: matrix_def Let_def ts units_def bind_r_eq_Inr_iff)
    note facts = scheduled_facts [OF sch(1)]
    have "map unit_cell us = map unit_cell scheduled"
      using sch(2) by (rule map_r_map) (auto dest: with_blocks_frame)
    with unit_cell_perm [OF facts(1)] have "mset (map unit_cell us) = mset (map unit_cell units)" by simp
    moreover have "un_blocks u \<noteq> None \<and> (\<exists>n. un_seed u = Some n \<and> 0 \<le> n \<and> n < 2 ^ 31)" if "u \<in> set us" for u
      using map_r_set [OF sch(2) that] with_blocks_frame facts(2) by metis
    ultimately show ?thesis by blast
  qed
  with ts(1) cells show ?thesis by auto
qed

text \<open>
  C7: The matrix of an execution is the full crossing of the experiment: every scenario, harness, model
  endpoint, treatment arm and repetition occurs in exactly one unit, whatever the draws of the generator
  and whatever the digest function, with a frozen schedule or without one; every unit has its block values and
  a seed of 31 bits.
\<close>

theorem matrix_full_crossing:
  assumes "valid_experiment spec" and "matrix env ctrl spec scenarios = Inr us"
  shows "\<exists>ts. expand_design (sha256 (de_codec env)) spec = Inr ts \<and>
    mset (map unit_cell us) = mset (full_crossing spec ts) \<and> distinct (map unit_cell us) \<and>
    (\<forall>u \<in> set us. un_blocks u \<noteq> None \<and> (\<exists>n. un_seed u = Some n \<and> 0 \<le> n \<and> n < 2 ^ 31))"
proof -
  obtain ts where ts: "expand_design (sha256 (de_codec env)) spec = Inr ts"
      "mset (map unit_cell us) = mset (full_crossing spec ts)"
      "\<forall>u \<in> set us. un_blocks u \<noteq> None \<and> (\<exists>n. un_seed u = Some n \<and> 0 \<le> n \<and> n < 2 ^ 31)"
    using matrix_units [OF assms(2)] by (elim exE conjE) (rule that)
  have "distinct (map (map_option me_endpoint_id) (endpoint_values spec))"
    using valid_experimentD(5) [OF assms(1)]
    by (auto simp: endpoint_values_def distinct_map inj_on_def comp_def)
  then have "distinct (full_crossing spec ts)"
    unfolding full_crossing_def
    using valid_experimentD(3,4) [OF assms(1)] expand_design_distinct [OF ts(1)] by (intro distinct_product) simp_all
  then have "distinct (map unit_cell us)" using ts(2) by (metis mset_eq_imp_distinct_iff)
  with ts show ?thesis by (intro exI conjI)
qed

section \<open>Rows that stay\<close>

definition keeps_rows :: "arena_db \<Rightarrow> arena_db \<Rightarrow> bool" where
  "keeps_rows db db' \<longleftrightarrow>
     db_experiments db' = db_experiments db \<and>
     set (map ex_id (db_executions db)) \<subseteq> set (map ex_id (db_executions db')) \<and>
     set (map ep_id (db_episodes db)) \<subseteq> set (map ep_id (db_episodes db')) \<and>
     set (map jb_id (db_jobs db)) \<subseteq> set (map jb_id (db_jobs db'))"

lemma keeps_rows_refl [simp]: "keeps_rows db db"
  by (simp add: keeps_rows_def)

lemma keeps_rows_trans: "keeps_rows a b \<Longrightarrow> keeps_rows b c \<Longrightarrow> keeps_rows a c"
  unfolding keeps_rows_def by (metis subset_trans)

lemma db_move_keeps: "db_move db db' \<Longrightarrow> keeps_rows db db'"
proof (induction rule: db_move.induct)
  case (dm_jobs db P f)
  then have "map jb_id (update_where P f (db_jobs db)) = map jb_id (db_jobs db)"
    by (auto simp: update_where_def dest: row_move_id)
  then show ?case unfolding keeps_rows_def by simp
next
  case (dm_event a ty pl db n db')
  then show ?case by (drule_tac log.append_core) (simp add: same_core_def keeps_rows_def)
next
  case (dm_executions f db R)
  then have "map ex_id (update_where R f (db_executions db)) = map ex_id (db_executions db)"
    by (intro map_key_update_where) blast
  then show ?case unfolding keeps_rows_def by simp
qed (auto simp: keeps_rows_def insert_job_Inr_iff insert_attempt_Inr_iff)

lemma db_moves_keep: "db_move\<^sup>*\<^sup>* db db' \<Longrightarrow> keeps_rows db db'"
  by (induction rule: rtranclp_induct) (auto intro: keeps_rows_trans db_move_keeps)

lemma arena_step_keeps:
  assumes "arena_inv db" and "arena_step db db'"
  shows "keeps_rows db db'"
  using assms(2)
proof (cases rule: arena_step.cases)
  case as_job
  then have "db_move\<^sup>*\<^sup>* db db'"
    using assms(1) job_step_moves [of db db'] jobs_keys [of db] by (simp add: arena_inv_def)
  then show ?thesis by (rule db_moves_keep)
next
  case as_invocation
  then have "iv_refines db db'" using assms(1) invocation_step_refines by (auto simp: arena_inv_def)
  then show ?thesis by (auto simp: iv_refines_def only_invocations_def keeps_rows_def)
next
  case as_reservation
  then have "res_move\<^sup>*\<^sup>* db db'" using assms(1) by (intro reservation_step_moves) (simp_all add: arena_inv_def)
  from res_moves_tables [OF this] show ?thesis by (auto simp: keeps_rows_def)
next
  case (as_start a x now r)
  then show ?thesis by (auto simp: transaction_def split: sum.splits dest: mark_started_moves intro: db_moves_keep)
next
  case (as_synchronize i now r)
  then show ?thesis
    by (auto simp: transaction_def split: sum.splits elim!: synchronize_cases simp: update_invocation_def keeps_rows_def)
qed

section \<open>The inserts keep the invariants of the core\<close>

lemma insert_execution_arena:
  assumes "arena_inv db" and "insert_execution row db = Inr db'"
  shows "arena_inv db'"
proof -
  have db': "db' = db\<lparr>db_executions := db_executions db @ [row]\<rparr>" "\<forall>r \<in> set (db_executions db). ex_id r \<noteq> ex_id row"
    using assms(2) by (auto simp: insert_execution_Inr_iff)
  have jobs: "db_keys db" "db_refs db" "\<forall>j \<in> set (db_jobs db). job_ok j" "events_inv db"
    using assms(1) by (simp_all add: arena_inv_def jobs_inv_def)
  have "db_keys db'" using jobs(1) db'(2) by (auto simp: db_keys_def db'(1))
  moreover have "db_refs db'" using jobs(2) unfolding db_refs_def db'(1) by simp
  moreover have "\<forall>j \<in> set (db_jobs db'). job_ok j" using jobs(3) by (simp add: db'(1))
  moreover have "events_inv db'" by (rule events_inv_same_attempts [OF jobs(4)]) (simp_all add: db'(1))
  ultimately show ?thesis
    using assms(1) reservations_inv_cong [of db' db] dispatch_kept_charged_cong [of db' db]
    by (simp add: arena_inv_def jobs_inv_def db'(1))
qed

lemma insert_episode_events:
  assumes inv: "events_inv db" and refs: "db_refs db" and ins: "insert_episode row db = Inr db'"
  shows "events_inv db'"
proof (rule events_inv_frame [OF inv])
  have db': "db' = db\<lparr>db_episodes := db_episodes db @ [row]\<rparr>" "\<forall>r \<in> set (db_episodes db). ep_id r \<noteq> ep_id row"
    using ins by (auto simp: insert_episode_Inr_iff)
  fix v
  have "ep_id row \<noteq> at_episode_id t" if "t \<in> set (db_attempts db)" for t
    using that refs db'(2) by (force simp: db_refs_def)
  then show "attempt_execution_ids db' (ev_attempt_id v) = attempt_execution_ids db (ev_attempt_id v)"
    unfolding attempt_execution_ids_def db'(1) by (auto intro!: arg_cong [where f = concat] map_cong)
qed (use ins in \<open>auto simp: insert_episode_Inr_iff\<close>)

lemma insert_episode_arena:
  assumes "arena_inv db" and "insert_episode row db = Inr db'"
  shows "arena_inv db'"
proof -
  have db': "db' = db\<lparr>db_episodes := db_episodes db @ [row]\<rparr>" "\<forall>r \<in> set (db_episodes db). ep_id r \<noteq> ep_id row"
      "\<exists>x \<in> set (db_executions db). ex_id x = ep_execution_id row"
    using assms(2) by (auto simp: insert_episode_Inr_iff)
  have jobs: "db_keys db" "db_refs db" "\<forall>j \<in> set (db_jobs db). job_ok j" "events_inv db"
    using assms(1) by (simp_all add: arena_inv_def jobs_inv_def)
  have "db_keys db'" using jobs(1) db'(2) by (auto simp: db_keys_def db'(1))
  moreover have "db_refs db'" using jobs(2) db'(3) unfolding db_refs_def db'(1) by simp
  moreover have "\<forall>j \<in> set (db_jobs db'). job_ok j" using jobs(3) by (simp add: db'(1))
  moreover have "events_inv db'" by (rule insert_episode_events [OF jobs(4,2) assms(2)])
  ultimately show ?thesis
    using assms(1) reservations_inv_cong [of db' db] dispatch_kept_charged_cong [of db' db]
    by (simp add: arena_inv_def jobs_inv_def db'(1))
qed

lemma insert_attempt_arena: "arena_inv db \<Longrightarrow> insert_attempt row db = Inr db' \<Longrightarrow> arena_inv db'"
  by (blast intro: db_moves_arena dm_insert_attempt)

lemma insert_unit_job_arena:
  "arena_inv db \<Longrightarrow> insert_job (unit_job env spec x a j n hs b) db = Inr db' \<Longrightarrow> arena_inv db'"
  unfolding unit_job_def by (blast intro: db_moves_arena dm_insert_job)

section \<open>What one unit writes\<close>

definition unit_rows ::
  "dispatch_env \<Rightarrow> experiment_spec \<Rightarrow> budget_spec \<Rightarrow> dict \<Rightarrow> (string \<times> scenario_spec) list \<Rightarrow> (string \<times> harness_spec) list
    \<Rightarrow> string \<Rightarrow> nat \<times> matrix_unit \<Rightarrow> episode_row \<times> attempt_row \<times> job_row \<Rightarrow> bool" where
  "unit_rows env spec budget provenance scenarios harnesses x entry rows \<longleftrightarrow>
     (\<exists>n u episode_id attempt_id job_id harness controls bound. entry = (n, u) \<and>
        de_unit_ids env n = (episode_id, attempt_id, job_id) \<and>
        bind_unit env spec budget provenance scenarios harnesses n u = Inr (harness, controls, bound) \<and>
        rows = (unit_episode x episode_id n u,
                unit_attempt (de_codec env) episode_id attempt_id u controls (ai_attempt bound),
                unit_job env spec x attempt_id job_id n harness bound))"

definition add_rows :: "(episode_row \<times> attempt_row \<times> job_row) list \<Rightarrow> arena_db \<Rightarrow> arena_db" where
  "add_rows rows db = db\<lparr>db_episodes := db_episodes db @ map fst rows,
     db_attempts := db_attempts db @ map (fst \<circ> snd) rows, db_jobs := db_jobs db @ map (snd \<circ> snd) rows\<rparr>"

lemma add_rows_Nil [simp]: "add_rows [] db = db"
  by (simp add: add_rows_def)

lemma add_rows_append: "add_rows ss (add_rows rs db) = add_rows (rs @ ss) db"
  by (simp add: add_rows_def)

lemma dispatch_unit_Inr:
  assumes "dispatch_unit env spec b pv sc hs x entry (es, js, db) = Inr (es', js', db')"
  obtains row where "unit_rows env spec b pv sc hs x entry row" "db' = add_rows [row] db"
    "es' = es @ [ep_id (fst row)]" "js' = js @ [jb_id (snd (snd row))]" "arena_inv db \<Longrightarrow> arena_inv db'"
proof -
  obtain n u where entry: "entry = (n, u)" by fastforce
  obtain episode_id attempt_id job_id where ids: "de_unit_ids env n = (episode_id, attempt_id, job_id)"
    by (cases "de_unit_ids env n") auto
  let ?a = "\<lambda>controls bound. unit_attempt (de_codec env) episode_id attempt_id u controls (ai_attempt bound)"
  from assms obtain harness controls bound db1 db2 where b:
      "bind_unit env spec b pv sc hs n u = Inr (harness, controls, bound)"
      "insert_episode (unit_episode x episode_id n u) db = Inr db1"
      "insert_attempt (?a controls bound) db1 = Inr db2"
      "insert_job (unit_job env spec x attempt_id job_id n harness bound) db2 = Inr db'"
      "es' = es @ [episode_id]" "js' = js @ [job_id]"
    by (auto simp: dispatch_unit_def entry ids Let_def bind_r_eq_Inr_iff)
  let ?row = "(unit_episode x episode_id n u, ?a controls bound, unit_job env spec x attempt_id job_id n harness bound)"
  have "unit_rows env spec b pv sc hs x entry ?row"
    unfolding unit_rows_def using entry ids b(1) by blast
  moreover have "db' = add_rows [?row] db"
    using b(2-4) by (auto simp: insert_episode_Inr_iff insert_attempt_Inr_iff insert_job_Inr_iff add_rows_def)
  moreover have "ep_id (fst ?row) = episode_id" "jb_id (snd (snd ?row)) = job_id"
    by (simp_all add: unit_episode_def unit_job_def queued_job_def)
  moreover have "arena_inv db'" if "arena_inv db"
    using that b(2-4) by (blast intro: insert_episode_arena insert_attempt_arena insert_unit_job_arena)
  ultimately show ?thesis using b(5,6) that by metis
qed

lemma dispatch_units_Inr:
  assumes "for_each (dispatch_unit env spec b pv sc hs x) entries (es, js, db) = Inr (es', js', db')"
  shows "\<exists>rows. list_all2 (unit_rows env spec b pv sc hs x) entries rows \<and> db' = add_rows rows db \<and>
    es' = es @ map (ep_id \<circ> fst) rows \<and> js' = js @ map (jb_id \<circ> snd \<circ> snd) rows \<and>
    (arena_inv db \<longrightarrow> arena_inv db')"
  using assms
proof (induction entries arbitrary: es js db)
  case Nil
  then show ?case by (intro exI [of _ "[]"]) simp
next
  case (Cons entry entries)
  from Cons.prems obtain es1 js1 db1 where step: "dispatch_unit env spec b pv sc hs x entry (es, js, db) = Inr (es1, js1, db1)"
      "for_each (dispatch_unit env spec b pv sc hs x) entries (es1, js1, db1) = Inr (es', js', db')"
    by (auto simp: bind_r_eq_Inr_iff)
  obtain row where row: "unit_rows env spec b pv sc hs x entry row" "db1 = add_rows [row] db"
      "es1 = es @ [ep_id (fst row)]" "js1 = js @ [jb_id (snd (snd row))]" "arena_inv db \<Longrightarrow> arena_inv db1"
    using dispatch_unit_Inr [OF step(1)] by metis
  from Cons.IH [OF step(2)] obtain rows where "list_all2 (unit_rows env spec b pv sc hs x) entries rows"
      "db' = add_rows rows db1" "es' = es1 @ map (ep_id \<circ> fst) rows" "js' = js1 @ map (jb_id \<circ> snd \<circ> snd) rows"
      "arena_inv db1 \<longrightarrow> arena_inv db'"
    by (elim exE conjE) (rule that)
  with row show ?case by (intro exI [of _ "row # rows"]) (simp add: add_rows_append)
qed

lemma unit_rows_facts:
  assumes "unit_rows env spec b pv sc hs x (n, u) row"
  shows "case row of (e, t, j) \<Rightarrow>
    ep_execution_id e = x \<and> ep_ordinal e = n \<and> ep_scenario_id e = Some (un_scenario_id u) \<and>
    at_episode_id t = ep_id e \<and> at_ordinal t = 0 \<and> at_status t = ''queued'' \<and>
    jb_execution_id j = x \<and> jb_attempt_id j = Some (at_id t) \<and> jb_status j = Job_queued \<and>
    (\<exists>bound. dict_get (jb_payload j) ''attempt_input'' = Some (attempt_input_dump bound) \<and>
       check_input (de_codec env) bound = Inr bound)"
proof -
  obtain e t j harness controls bound where row:
      "bind_unit env spec b pv sc hs n u = Inr (harness, controls, bound)"
      "row = (unit_episode x e n u, unit_attempt (de_codec env) e t u controls (ai_attempt bound),
        unit_job env spec x t j n harness bound)"
    using assms by (auto simp: unit_rows_def)
  from row(1) have "check_input (de_codec env) bound = Inr bound"
    by (auto simp: bind_unit_def Let_def bind_r_eq_Inr_iff split: prod.splits dest: bind_input_binds)
  then show ?thesis
    by (simp add: row(2) unit_episode_def unit_attempt_def unit_job_def queued_job_def dict_get_def) blast
qed

section \<open>Responses are read back\<close>

lemma string_items_JStr [simp]: "string_items (JArr (map JStr ss)) = Inr ss"
  by (induction ss) (simp_all add: string_items_def)

lemma replay_created [simp]:
  "replay (created_response x es js) =
     Inr \<lparr>xc_execution_id = x, xc_episode_ids = es, xc_job_ids = js, xc_idempotent = True\<rparr>"
  by (simp add: replay_def created_response_def lookup_def)

lemma created_response_nonempty [simp]: "created_response x es js \<noteq> []"
  by (simp add: created_response_def)

section \<open>The invariant of dispatch\<close>

definition idempotency_key :: "idempotency_row \<Rightarrow> string \<times> string" where
  "idempotency_key r = (im_project_id r, im_key r)"

text \<open>A stored response reads back as an execution that is in the tables.\<close>

definition response_stored :: "arena_db \<Rightarrow> idempotency_row \<Rightarrow> bool" where
  "response_stored db r \<longleftrightarrow> im_response r \<noteq> [] \<and>
     (\<exists>c. replay (im_response r) = Inr c \<and> xc_idempotent c \<and>
        xc_execution_id c \<in> set (map ex_id (db_executions db)) \<and>
        set (xc_episode_ids c) \<subseteq> set (map ep_id (db_episodes db)) \<and>
        set (xc_job_ids c) \<subseteq> set (map jb_id (db_jobs db)))"

definition dispatch_inv :: "dispatch_db \<Rightarrow> bool" where
  "dispatch_inv d \<longleftrightarrow>
     arena_inv (dd_arena d) \<and> distinct (map idempotency_key (dd_idempotency d)) \<and>
     (\<forall>r \<in> set (dd_idempotency d). response_stored (dd_arena d) r \<and> length (im_request_digest r) = 64)"

lemma response_stored_keeps: "response_stored db r \<Longrightarrow> keeps_rows db db' \<Longrightarrow> response_stored db' r"
  unfolding response_stored_def keeps_rows_def by blast

section \<open>The two outcomes of a request\<close>

lemma reserve_idempotency_Inr:
  assumes "reserve_execution_idempotency p key dg rid d = Inr (resp, d1)"
  obtains (fresh) "resp = None" "length dg = 64" "(p, key) \<notin> set (map idempotency_key (dd_idempotency d))"
      "d1 = d\<lparr>dd_idempotency := dd_idempotency d @
        [\<lparr>im_id = rid, im_project_id = p, im_key = key, im_request_digest = dg, im_response = []\<rparr>]\<rparr>"
    | (known) r where "r \<in> set (dd_idempotency d)" "idempotency_key r = (p, key)" "im_request_digest r = dg"
      "resp = Some (im_response r)" "d1 = d"
proof -
  let ?same = "\<lambda>r. im_project_id r = p \<and> im_key r = key"
  have len: "length dg = 64"
    using assms by (auto simp: reserve_execution_idempotency_def insert_idempotency_def split: if_splits)
  show ?thesis
  proof (cases "\<exists>r \<in> set (dd_idempotency d). ?same r")
    case True
    then have "reserve_execution_idempotency p key dg rid d =
        (case filter ?same (dd_idempotency d) of
          [] \<Rightarrow> Inl NoResultFound
        | [existing] \<Rightarrow>
            bind_r (raise_if (im_request_digest existing \<noteq> dg)
              (ValueError ''idempotency key was already used with a different request payload'')) (\<lambda>_.
            bind_r (raise_if (im_response existing = [])
              (RuntimeError ''idempotency reservation completed without a durable response'')) (\<lambda>_.
            Inr (Some (im_response existing), d)))
        | _ \<Rightarrow> Inl MultipleResultsFound)"
      by (simp add: reserve_execution_idempotency_def insert_idempotency_def len list_ex_iff)
    with assms obtain r where r: "filter ?same (dd_idempotency d) = [r]" "im_request_digest r = dg"
        "resp = Some (im_response r)" "d1 = d"
      by (auto split: list.splits)
    have "r \<in> set (filter ?same (dd_idempotency d))" by (simp add: r(1))
    then have "r \<in> set (dd_idempotency d)" "idempotency_key r = (p, key)" by (simp_all add: idempotency_key_def)
    then show ?thesis using r(2-4) by (rule known)
  next
    case False
    then have "(p, key) \<notin> set (map idempotency_key (dd_idempotency d))" by (force simp: idempotency_key_def)
    with False fresh len assms show ?thesis
      by (auto simp: reserve_execution_idempotency_def insert_idempotency_def list_ex_iff split: if_splits)
  qed
qed

lemma complete_idempotency_new:
  assumes "(p, key) \<notin> set (map idempotency_key rows)"
    and "dd_idempotency d = rows @ [n]" and "im_project_id n = p" "im_key n = key" "im_request_digest n = dg"
  shows "complete_execution_idempotency p key dg resp d =
    Inr (d\<lparr>dd_idempotency := rows @ [n\<lparr>im_response := resp\<rparr>]\<rparr>)"
proof -
  let ?mine = "\<lambda>r. im_project_id r = p \<and> im_key r = key \<and> im_request_digest r = dg"
  have "\<not> ?mine r" if "r \<in> set rows" for r using that assms(1) by (force simp: idempotency_key_def)
  then have none: "filter ?mine rows = []" by (auto simp: filter_empty_conv)
  then have "update_where ?mine (\<lambda>r. r\<lparr>im_response := resp\<rparr>) rows = rows"
    by (intro update_where_none) (simp add: rowcount_def)
  note unchanged = none this [unfolded update_where_def]
  show ?thesis
    using unchanged assms(2-5) by (simp add: complete_execution_idempotency_def rowcount_def update_where_def)
qed

lemma dispatch_body_Inr:
  assumes "dispatch_body env ctrl rq p d = Inr (c, d')"
  obtains (replayed) r where "r \<in> set (dd_idempotency d)" "idempotency_key r = (rq_project_id rq, rq_key rq)"
      "im_request_digest r = pp_digest p" "replay (im_response r) = Inr c" "d' = d"
    | (created) units rows db1 where
      "(rq_project_id rq, rq_key rq) \<notin> set (map idempotency_key (dd_idempotency d))" "length (pp_digest p) = 64"
      "insert_execution (new_execution env (pp_spec p) (pp_budget p) (rq_payload rq) (rq_provenance rq) (pp_bindings p))
         (dd_arena d) = Inr db1"
      "matrix env ctrl (pp_spec p) (pp_scenarios p) = Inr units"
      "list_all2 (unit_rows env (pp_spec p) (pp_budget p) (rq_provenance rq) (pp_scenarios p) (pp_harnesses p)
         (de_execution_id env)) (enumerate 0 units) rows"
      "c = \<lparr>xc_execution_id = de_execution_id env, xc_episode_ids = map (ep_id \<circ> fst) rows,
         xc_job_ids = map (jb_id \<circ> snd \<circ> snd) rows, xc_idempotent = False\<rparr>"
      "d' = d\<lparr>dd_arena := add_rows rows db1, dd_idempotency := dd_idempotency d @
         [\<lparr>im_id = de_reservation_id env, im_project_id = rq_project_id rq, im_key = rq_key rq,
           im_request_digest = pp_digest p,
           im_response = created_response (de_execution_id env) (xc_episode_ids c) (xc_job_ids c)\<rparr>]\<rparr>"
      "arena_inv (dd_arena d) \<Longrightarrow> arena_inv (dd_arena d')"
proof -
  from assms obtain resp d1 where res:
      "reserve_execution_idempotency (rq_project_id rq) (rq_key rq) (pp_digest p) (de_reservation_id env) d = Inr (resp, d1)"
    by (auto simp: dispatch_body_def bind_r_eq_Inr_iff)
  from res show ?thesis
  proof (cases rule: reserve_idempotency_Inr)
    case (known r)
    with assms res show ?thesis by (auto simp: dispatch_body_def bind_r_eq_Inr_iff intro: replayed)
  next
    case fresh
    have arena: "dd_arena d1 = dd_arena d" by (simp add: fresh(4))
    obtain db1 units es js db2 where body:
        "insert_execution (new_execution env (pp_spec p) (pp_budget p) (rq_payload rq) (rq_provenance rq) (pp_bindings p))
           (dd_arena d) = Inr db1"
        "matrix env ctrl (pp_spec p) (pp_scenarios p) = Inr units"
        "for_each (dispatch_unit env (pp_spec p) (pp_budget p) (rq_provenance rq) (pp_scenarios p) (pp_harnesses p)
           (de_execution_id env)) (enumerate 0 units) ([], [], db1) = Inr (es, js, db2)"
        "complete_execution_idempotency (rq_project_id rq) (rq_key rq) (pp_digest p)
           (created_response (de_execution_id env) es js) (d1\<lparr>dd_arena := db2\<rparr>) = Inr d'"
        "c = \<lparr>xc_execution_id = de_execution_id env, xc_episode_ids = es, xc_job_ids = js, xc_idempotent = False\<rparr>"
      using assms res fresh(1) by (auto simp: dispatch_body_def bind_r_eq_Inr_iff arena)
    obtain rows where rows:
        "list_all2 (unit_rows env (pp_spec p) (pp_budget p) (rq_provenance rq) (pp_scenarios p) (pp_harnesses p)
           (de_execution_id env)) (enumerate 0 units) rows"
        "db2 = add_rows rows db1" "es = map (ep_id \<circ> fst) rows" "js = map (jb_id \<circ> snd \<circ> snd) rows"
        "arena_inv db1 \<longrightarrow> arena_inv db2"
      using dispatch_units_Inr [OF body(3)] by auto
    have d': "d' = d\<lparr>dd_arena := db2, dd_idempotency := dd_idempotency d @
         [\<lparr>im_id = de_reservation_id env, im_project_id = rq_project_id rq, im_key = rq_key rq,
           im_request_digest = pp_digest p, im_response = created_response (de_execution_id env) es js\<rparr>]\<rparr>"
      using body(4) complete_idempotency_new [OF fresh(3)] by (simp add: fresh(4))
    show ?thesis
      by (rule created [OF fresh(3,2) body(1,2) rows(1)])
        (use body(5) rows d' insert_execution_arena [OF _ body(1)] in auto)
  qed
qed

lemma create_execution_cases:
  assumes "create_execution env ctrl rq d = (r, d')"
  obtains (failed) e where "r = Inl e" "d' = d"
    | (finished) p c where "prepare_execution env ctrl rq d = Inr p" "r = Inr c" "dispatch_body env ctrl rq p d = Inr (c, d')"
  using assms by (auto simp: create_execution_def transaction_def split: sum.splits)

section \<open>Steps of dispatch\<close>

inductive dispatch_step :: "dispatch_db \<Rightarrow> dispatch_db \<Rightarrow> bool" where
  ds_arena: "arena_step (dd_arena d) db' \<Longrightarrow> dispatch_step d (d\<lparr>dd_arena := db'\<rparr>)"
| ds_create: "create_execution env ctrl rq d = (r, d') \<Longrightarrow> dispatch_step d d'"

inductive_cases dispatch_stepE: "dispatch_step d d'"

definition dispatch_init :: "dispatch_db \<Rightarrow> bool" where
  "dispatch_init d \<longleftrightarrow> arena_init (dd_arena d) \<and> dd_idempotency d = []"

lemma add_rows_keeps: "keeps_rows db (add_rows rows db)"
  by (auto simp: keeps_rows_def add_rows_def)

lemma insert_execution_keeps: "insert_execution row db = Inr db' \<Longrightarrow> keeps_rows db db'"
  by (auto simp: keeps_rows_def insert_execution_Inr_iff)

lemma created_keeps:
  assumes "insert_execution row db = Inr db1"
  shows "keeps_rows db (add_rows rows db1)" "ex_id row \<in> set (map ex_id (db_executions (add_rows rows db1)))"
    "set (map (ep_id \<circ> fst) rows) \<subseteq> set (map ep_id (db_episodes (add_rows rows db1)))"
    "set (map (jb_id \<circ> snd \<circ> snd) rows) \<subseteq> set (map jb_id (db_jobs (add_rows rows db1)))"
proof -
  show "keeps_rows db (add_rows rows db1)"
    by (rule keeps_rows_trans [OF insert_execution_keeps [OF assms] add_rows_keeps])
  show "ex_id row \<in> set (map ex_id (db_executions (add_rows rows db1)))"
    using assms by (auto simp: insert_execution_Inr_iff add_rows_def)
qed (auto simp: add_rows_def)

lemma create_execution_inv:
  assumes inv: "dispatch_inv d" and c: "create_execution env ctrl rq d = (r, d')"
  shows "dispatch_inv d' \<and> keeps_rows (dd_arena d) (dd_arena d') \<and> dd_study_packs d' = dd_study_packs d \<and>
    set (dd_idempotency d) \<subseteq> set (dd_idempotency d')"
  using c
proof (cases rule: create_execution_cases)
  case (failed e)
  with inv show ?thesis by simp
next
  case (finished p c)
  from finished(3) show ?thesis
  proof (cases rule: dispatch_body_Inr)
    case (replayed row)
    with inv show ?thesis by simp
  next
    case (created units rows db1)
    note keep = created_keeps [OF created(3), of rows]
    have x: "ex_id (new_execution env (pp_spec p) (pp_budget p) (rq_payload rq) (rq_provenance rq) (pp_bindings p)) =
        de_execution_id env"
      by (simp add: new_execution_def)
    have "response_stored (dd_arena d') row" if "row \<in> set (dd_idempotency d')" for row
    proof (cases "row \<in> set (dd_idempotency d)")
      case True
      then have "response_stored (dd_arena d) row" using inv by (simp add: dispatch_inv_def)
      then show ?thesis using keep(1) by (simp add: created(7) response_stored_keeps)
    next
      case False
      with that have "im_response row = created_response (de_execution_id env) (xc_episode_ids c) (xc_job_ids c)"
        by (auto simp: created(7))
      then show ?thesis using keep(2-4) unfolding response_stored_def x by (simp add: created(6,7))
    qed
    moreover have "distinct (map idempotency_key (dd_idempotency d'))"
      using inv created(1) by (simp add: dispatch_inv_def created(7)) (simp add: idempotency_key_def)
    moreover have "\<forall>row \<in> set (dd_idempotency d'). length (im_request_digest row) = 64"
      using inv created(2) by (simp add: dispatch_inv_def created(7))
    ultimately show ?thesis
      using inv created(8) keep(1) by (simp add: dispatch_inv_def created(7) subset_insertI)
  qed
qed

lemma dispatch_step_inv:
  assumes "dispatch_inv d" and "dispatch_step d d'"
  shows "dispatch_inv d' \<and> keeps_rows (dd_arena d) (dd_arena d') \<and> dd_study_packs d' = dd_study_packs d \<and>
    set (dd_idempotency d) \<subseteq> set (dd_idempotency d')"
  using assms(2)
proof (cases rule: dispatch_step.cases)
  case (ds_arena db')
  have inv: "arena_inv (dd_arena d)" using assms(1) by (simp add: dispatch_inv_def)
  note keep = arena_step_keeps [OF inv ds_arena(2)]
  show ?thesis
    using assms(1) arena_step_inv [OF inv ds_arena(2)] keep response_stored_keeps [OF _ keep]
    by (simp add: dispatch_inv_def ds_arena(1))
next
  case (ds_create env ctrl rq r)
  with assms(1) show ?thesis by (intro create_execution_inv)
qed

interpretation dispatch: invariant_system dispatch_init dispatch_step dispatch_inv
proof
  show "dispatch_inv d" if "dispatch_init d" for d
    using that arena.inv_start by (simp add: dispatch_init_def dispatch_inv_def)
  show "dispatch_inv d'" if "dispatch_inv d" "dispatch_step d d'" for d d'
    using dispatch_step_inv [OF that] by blast
qed

lemma dispatch_steps:
  assumes "dispatch_step\<^sup>*\<^sup>* d d'" and "dispatch_inv d"
  shows "dispatch_inv d' \<and> keeps_rows (dd_arena d) (dd_arena d') \<and> dd_study_packs d' = dd_study_packs d \<and>
    set (dd_idempotency d) \<subseteq> set (dd_idempotency d')"
  using assms
proof (induction rule: rtranclp_induct)
  case base
  then show ?case by simp
next
  case (step u v)
  then have "dispatch_inv u" by blast
  from dispatch_step_inv [OF this step(2)] step.IH [OF step.prems] show ?case
    by (auto intro: keeps_rows_trans)
qed

section \<open>At most one execution per request\<close>

text \<open>The checks before the transaction read nothing that a step changes.\<close>

lemma prepare_execution_cong:
  assumes "db_experiments (dd_arena d') = db_experiments (dd_arena d)" and "dd_study_packs d' = dd_study_packs d"
    and "de_codec env' = de_codec env" and "de_parse_experiment env' = de_parse_experiment env"
  shows "prepare_execution env' ctrl rq d' = prepare_execution env ctrl rq d"
proof -
  have "experiment_with_pack d' i = experiment_with_pack d i" for i by (simp add: experiment_with_pack_def assms)
  moreover have "validate_experiment_json env' = validate_experiment_json env"
    by (intro ext) (simp add: validate_experiment_json_def assms)
  ultimately have "validate_frozen env' p s d' = validate_frozen env p s d" for p s
    by (simp add: validate_frozen_def assms(3))
  then show ?thesis unfolding prepare_execution_def assms(3) by simp
qed

lemma dispatch_body_known:
  assumes inv: "dispatch_inv d" and r: "r \<in> set (dd_idempotency d)" "idempotency_key r = (rq_project_id rq, rq_key rq)"
    and len: "length (pp_digest p) = 64"
  shows "dispatch_body env ctrl rq p d =
    (if im_request_digest r = pp_digest p then bind_r (replay (im_response r)) (\<lambda>c. Inr (c, d))
     else Inl (ValueError ''idempotency key was already used with a different request payload''))"
proof -
  let ?same = "\<lambda>x. im_project_id x = rq_project_id rq \<and> im_key x = rq_key rq"
  have "filter (\<lambda>x. idempotency_key x = idempotency_key r) (dd_idempotency d) = [r]"
    using inv r(1) by (intro filter_key_unique) (simp_all add: dispatch_inv_def)
  then have only: "filter ?same (dd_idempotency d) = [r]"
    using r(2) by (simp add: idempotency_key_def)
  have "list_ex ?same (dd_idempotency d)" using r by (auto simp: list_ex_iff idempotency_key_def)
  moreover have "im_response r \<noteq> []" using inv r(1) by (auto simp: dispatch_inv_def response_stored_def)
  ultimately show ?thesis
    by (simp add: dispatch_body_def reserve_execution_idempotency_def insert_idempotency_def len only)
qed

lemma recorded_row:
  assumes "dispatch_inv d" and "create_execution env ctrl rq d = (Inr c, d')"
  obtains p r where "prepare_execution env ctrl rq d = Inr p" "r \<in> set (dd_idempotency d')" "length (pp_digest p) = 64"
    "idempotency_key r = (rq_project_id rq, rq_key rq)" "im_request_digest r = pp_digest p"
    "replay (im_response r) = Inr (c\<lparr>xc_idempotent := True\<rparr>)"
  using assms(2)
proof (cases rule: create_execution_cases)
  case (finished p c')
  then have c': "c' = c" by simp
  from finished(3) show ?thesis
  proof (cases rule: dispatch_body_Inr)
    case (replayed row)
    have stored: "response_stored (dd_arena d) row" "length (im_request_digest row) = 64"
      using assms(1) replayed(1) unfolding dispatch_inv_def by blast+
    then have "replay (im_response row) = Inr (c\<lparr>xc_idempotent := True\<rparr>)"
      using replayed(4) by (auto simp: response_stored_def c')
    with replayed(1-3,5) stored(2) finished(1) show ?thesis by (intro that) simp_all
  next
    case (created units rows db1)
    show ?thesis
      by (rule that [where p = p and r = "\<lparr>im_id = de_reservation_id env, im_project_id = rq_project_id rq,
            im_key = rq_key rq, im_request_digest = pp_digest p,
            im_response = created_response (de_execution_id env) (xc_episode_ids c) (xc_job_ids c)\<rparr>"])
        (use created(2,6,7) finished(1) in \<open>simp_all add: idempotency_key_def flip: c'\<close>)
  qed
qed simp

text \<open>
  C5: A request is executed at most once. After a request has been answered, and after any later steps of
  the services and other requests, repeating it returns the same execution, episodes and jobs, marked as
  idempotent, and writes nothing; another request under the same project and key, with a different
  digest, is refused and writes nothing.
\<close>

theorem create_execution_once:
  assumes "reachable dispatch_init dispatch_step d" and "create_execution env ctrl rq d = (Inr c, d1)"
    and "dispatch_step\<^sup>*\<^sup>* d1 d2"
    and "de_codec env' = de_codec env" and "de_parse_experiment env' = de_parse_experiment env"
  shows "create_execution env' ctrl rq d2 = (Inr (c\<lparr>xc_idempotent := True\<rparr>), d2) \<and>
    (\<exists>p. prepare_execution env ctrl rq d = Inr p \<and>
      (\<forall>env2 ctrl2 rq2 p2. rq_project_id rq2 = rq_project_id rq \<longrightarrow> rq_key rq2 = rq_key rq \<longrightarrow>
         prepare_execution env2 ctrl2 rq2 d2 = Inr p2 \<longrightarrow> length (pp_digest p2) = 64 \<longrightarrow>
         pp_digest p2 \<noteq> pp_digest p \<longrightarrow>
         create_execution env2 ctrl2 rq2 d2 =
           (Inl (ValueError ''idempotency key was already used with a different request payload''), d2)))"
proof -
  have inv: "dispatch_inv d" using assms(1) by (rule dispatch.inv_reachable)
  obtain p r where p: "prepare_execution env ctrl rq d = Inr p" "r \<in> set (dd_idempotency d1)" "length (pp_digest p) = 64"
      "idempotency_key r = (rq_project_id rq, rq_key rq)" "im_request_digest r = pp_digest p"
      "replay (im_response r) = Inr (c\<lparr>xc_idempotent := True\<rparr>)"
    by (rule recorded_row [OF inv assms(2)])
  note one = create_execution_inv [OF inv assms(2)]
  note later = dispatch_steps [OF assms(3) conjunct1 [OF one]]
  have inv2: "dispatch_inv d2" and r2: "r \<in> set (dd_idempotency d2)" using later p(2) by auto
  have "prepare_execution env' ctrl rq d2 = Inr p"
    using p(1) one later assms(4,5) by (subst prepare_execution_cong [of d2 d env' env]) (auto simp: keeps_rows_def)
  then have "create_execution env' ctrl rq d2 = (Inr (c\<lparr>xc_idempotent := True\<rparr>), d2)"
    using dispatch_body_known [OF inv2 r2 p(4,3)] p(5,6) by (simp add: create_execution_def transaction_def)
  moreover have "create_execution env2 ctrl2 rq2 d2 =
      (Inl (ValueError ''idempotency key was already used with a different request payload''), d2)"
    if "rq_project_id rq2 = rq_project_id rq" "rq_key rq2 = rq_key rq" "prepare_execution env2 ctrl2 rq2 d2 = Inr p2"
      "length (pp_digest p2) = 64" "pp_digest p2 \<noteq> pp_digest p" for env2 ctrl2 rq2 p2
    using dispatch_body_known [OF inv2 r2, of rq2 p2] that p(4,5)
    by (simp add: create_execution_def transaction_def)
  ultimately show ?thesis using p(1) by blast
qed

text \<open>
  C6: An execution is created whole or not at all. A request that fails leaves the database as it was. One
  that is not a replay adds one queued execution, and for each unit of the matrix, in order, one
  episode, one queued attempt and one queued job whose input has passed the binding and budget checks;
  it changes nothing else but its idempotency record, and every invariant of the core holds after it.
\<close>

theorem create_execution_atomic:
  assumes "reachable dispatch_init dispatch_step d"
  shows "case create_execution env ctrl rq d of
      (Inl e, d') \<Rightarrow> d' = d
    | (Inr c, d') \<Rightarrow> dispatch_inv d' \<and> (if xc_idempotent c then d' = d else
        (\<exists>p x units rows. prepare_execution env ctrl rq d = Inr p \<and>
           matrix env ctrl (pp_spec p) (pp_scenarios p) = Inr units \<and> length rows = length units \<and>
           ex_id x = xc_execution_id c \<and> ex_status x = Ex_queued \<and>
           dd_arena d' = add_rows rows ((dd_arena d)\<lparr>db_executions := db_executions (dd_arena d) @ [x]\<rparr>) \<and>
           xc_episode_ids c = map (ep_id \<circ> fst) rows \<and> xc_job_ids c = map (jb_id \<circ> snd \<circ> snd) rows \<and>
           (\<forall>i < length units. case rows ! i of (e, t, j) \<Rightarrow>
              ep_execution_id e = ex_id x \<and> ep_ordinal e = i \<and> ep_scenario_id e = Some (un_scenario_id (units ! i)) \<and>
              at_episode_id t = ep_id e \<and> at_ordinal t = 0 \<and> at_status t = ''queued'' \<and>
              jb_execution_id j = ex_id x \<and> jb_attempt_id j = Some (at_id t) \<and> jb_status j = Job_queued \<and>
              (\<exists>bound. dict_get (jb_payload j) ''attempt_input'' = Some (attempt_input_dump bound) \<and>
                 check_input (de_codec env) bound = Inr bound))))"
proof -
  have inv: "dispatch_inv d" using assms by (rule dispatch.inv_reachable)
  obtain r d' where c: "create_execution env ctrl rq d = (r, d')" by fastforce
  from c show ?thesis
  proof (cases rule: create_execution_cases)
    case (failed e)
    with c show ?thesis by simp
  next
    case (finished p cr)
    have inv': "dispatch_inv d'" using create_execution_inv [OF inv c] by blast
    from finished(3) show ?thesis
    proof (cases rule: dispatch_body_Inr)
      case (replayed row)
      then have "response_stored (dd_arena d) row" using inv by (simp add: dispatch_inv_def)
      with replayed have "xc_idempotent cr" by (auto simp: response_stored_def)
      with replayed(5) c finished(2) inv' show ?thesis by simp
    next
      case (created units rows db1)
      let ?x = "new_execution env (pp_spec p) (pp_budget p) (rq_payload rq) (rq_provenance rq) (pp_bindings p)"
      have db1: "db1 = (dd_arena d)\<lparr>db_executions := db_executions (dd_arena d) @ [?x]\<rparr>"
        using created(3) by (simp add: insert_execution_Inr_iff)
      have len: "length rows = length units" using list_all2_lengthD [OF created(5)] by simp
      have each: "case rows ! i of (e, t, j) \<Rightarrow>
          ep_execution_id e = ex_id ?x \<and> ep_ordinal e = i \<and> ep_scenario_id e = Some (un_scenario_id (units ! i)) \<and>
          at_episode_id t = ep_id e \<and> at_ordinal t = 0 \<and> at_status t = ''queued'' \<and>
          jb_execution_id j = ex_id ?x \<and> jb_attempt_id j = Some (at_id t) \<and> jb_status j = Job_queued \<and>
          (\<exists>bound. dict_get (jb_payload j) ''attempt_input'' = Some (attempt_input_dump bound) \<and>
             check_input (de_codec env) bound = Inr bound)" if "i < length units" for i
      proof -
        have "unit_rows env (pp_spec p) (pp_budget p) (rq_provenance rq) (pp_scenarios p) (pp_harnesses p)
            (de_execution_id env) (i, units ! i) (rows ! i)"
          using list_all2_nthD [OF created(5), of i] that by (simp add: nth_enumerate_eq)
        from unit_rows_facts [OF this] show ?thesis by (simp add: new_execution_def)
      qed
      show ?thesis
        using c finished(1,2) inv' created(4) len each
        by (simp add: created(6,7) db1)
          (intro exI [of _ ?x] exI [of _ units] exI [of _ rows], simp add: new_execution_def)
    qed
  qed
qed

section \<open>Example\<close>

definition example_plan :: experiment_spec where
  "example_plan = example_experiment\<lparr>xs_factors := [], xs_design := Full, xs_repetitions := 1,
     xs_freeze_hash := Some example_digest, xs_study_pack_hash := Some example_digest\<rparr>"

definition example_controls :: execution_controls where
  "example_controls = \<lparr>ec_temperature = 0, ec_top_p = 1, ec_max_output_tokens = 10, ec_seed = 0, ec_timeout_seconds = 1,
     ec_max_tool_calls = 1, ec_max_context_tokens = 10, ec_max_attempts = 3, ec_source = Frozen_experiment\<rparr>"

definition example_dispatch_env :: dispatch_env where
  "example_dispatch_env =
     \<lparr>de_codec = example_codec\<lparr>sha256 := \<lambda>_. example_digest, parse_controls := \<lambda>_. Inr example_controls\<rparr>,
      de_parse_experiment = (\<lambda>_. Inr example_plan), de_draw = (\<lambda>_ _. 0), de_reservation_id = ''r1'',
      de_execution_id = ''x1'', de_unit_ids = (\<lambda>_. (''e1'', ''a1'', ''j1'')), de_started_at = 0,
      de_queued_at = (\<lambda>_. 0), de_created_at = (\<lambda>_. 0)\<rparr>"

definition example_controller :: controller where
  "example_controller =
     \<lparr>cn_harnesses = [(''h1'', \<lparr>hs_adapter_identity = None, hs_adapter_digest = None, hs_timeout_seconds = 5,
        hs_configuration = [], hs_effective_configuration_hash = None, hs_checkpoint = False,
        hs_claim_eligibility = Fixture_only, hs_dump = []\<rparr>)],
      cn_scenario_specs = [(''s1'', example_scenario)], cn_scenario_metadata = []\<rparr>"

definition example_request :: dispatch_request where
  "example_request = \<lparr>rq_project_id = ''pr'', rq_spec = example_plan, rq_key = ''k'', rq_provenance = [],
     rq_payload = [], rq_harnesses = []\<rparr>"

definition example_dispatch_db :: dispatch_db where
  "example_dispatch_db =
     \<lparr>dd_arena = \<lparr>db_experiments = [\<lparr>xp_id = ''xp1'', xp_project_id = ''pr'', xp_study_pack_id = ''sp'',
          xp_spec_hash = Some example_digest, xp_study_pack_hash = Some example_digest,
          xp_owner_approval = Approval_approved, xp_definition = [], xp_frozen_at = Some 0\<rparr>],
        db_executions = [], db_episodes = [], db_attempts = [], db_jobs = [], db_attempt_events = [],
        db_event_cursors = [], db_invocations = [], db_reservations = [], db_ledger = []\<rparr>,
      dd_study_packs = [\<lparr>sk_id = ''sp'', sk_content_digest = example_digest\<rparr>], dd_idempotency = []\<rparr>"

lemma example_dispatch_reachable: "reachable dispatch_init dispatch_step example_dispatch_db"
  by (rule reachable.start)
    (simp add: dispatch_init_def arena_init_def jobs_init_def db_keys_def db_refs_def example_dispatch_db_def)

lemma example_plan_simps [simp]:
  "xs_frozen example_plan" "xs_owner_approval example_plan = Approved" "xs_freeze_hash example_plan = Some example_digest"
  "xs_study_pack_hash example_plan = Some example_digest" "xs_experiment_id example_plan = ''xp1''"
  "xs_budgets example_plan = Some (av_budget example_envelope)" "xs_harness_ids example_plan = [''h1'']"
  "xs_scenario_ids example_plan = [''s1'']" "xs_model_endpoints example_plan = []" "xs_factors example_plan = []"
  "xs_repetitions example_plan = 1" "xs_randomization_blocks example_plan = []" "xs_extensions example_plan = []"
  "xs_aggregate_budget example_plan = None" "xs_design example_plan = Full" "xs_dump example_plan = []"
  "xs_sampling example_plan = \<lparr>sp_temperature = 0, sp_top_p = 1, sp_max_tokens = 10\<rparr>"
  by (simp_all add: example_plan_def example_experiment_def example_envelope_def)

lemma example_env_simps [simp]:
  "sha256 (de_codec example_dispatch_env) = (\<lambda>_. example_digest)"
  "parse_scenario (de_codec example_dispatch_env) = (\<lambda>_. Inr example_scenario)"
  "parse_envelope (de_codec example_dispatch_env) = (\<lambda>_. Inr (example_envelope\<lparr>av_attempt_id := ''a3'', av_ordinal := 3,
     av_request_hash := ''d'', av_queued_at := 9\<rparr>))"
  "parse_controls (de_codec example_dispatch_env) = (\<lambda>_. Inr example_controls)"
  "de_parse_experiment example_dispatch_env = (\<lambda>_. Inr example_plan)"
  "de_unit_ids example_dispatch_env = (\<lambda>_. (''e1'', ''a1'', ''j1''))" "de_execution_id example_dispatch_env = ''x1''"
  "de_reservation_id example_dispatch_env = ''r1''"
  by (simp_all add: example_dispatch_env_def example_codec_def)

lemma example_controller_simps [simp]:
  "map_of (cn_scenario_specs example_controller) ''s1'' = Some example_scenario"
  "fst ` set (cn_scenario_specs example_controller) = {''s1''}" "fst ` set (cn_harnesses example_controller) = {''h1''}"
  "\<exists>x. map_of (cn_harnesses example_controller) ''h1'' = Some x" "sc_scenario_id example_scenario = ''s1''"
  "sc_extensions example_scenario = []"
  "rq_project_id example_request = ''pr''" "rq_spec example_request = example_plan" "rq_key example_request = ''k''"
  "rq_harnesses example_request = []"
  by (simp_all add: example_controller_def example_request_def example_scenario_def)

lemma example_digest_length [simp]: "length example_digest = 64" "example_digest \<noteq> []"
  by (simp_all add: example_digest_def)

lemma example_plan_valid: "valid_experiment example_plan"
  by (simp add: valid_experiment_def validate_experiment_def Let_def check_ids_unique_def factor_ids_def
      check_combinations_def check_custom_design_def all_checks_def example_plan_def example_experiment_def)

lemma example_treatments: "expand_design h example_plan = Inr [[]]"
  by (simp add: expand_design_eq [OF example_plan_valid] checked_arms_def Let_def design_candidates_def
      product_assignments_def sorted_factors_def compatible_def)

lemma example_prepared:
  obtains p where "prepare_execution example_dispatch_env example_controller example_request example_dispatch_db = Inr p"
    "pp_spec p = example_plan" "pp_scenarios p = [(''s1'', example_scenario)]" "pp_digest p = example_digest"
    "pp_harnesses p = cn_harnesses example_controller" "pp_budget p = av_budget example_envelope"
proof -
  have "validate_experiment example_plan = Inr example_plan"
    using example_plan_valid by (simp add: valid_experiment_def)
  then have "validate_frozen example_dispatch_env ''pr'' example_plan example_dispatch_db = Inr example_plan"
    by (simp add: validate_frozen_def validate_experiment_json_def experiment_with_pack_def expected_freeze_hash_def
        example_dispatch_db_def falsy_def)
  moreover obtain x where "map_of (cn_harnesses example_controller) ''h1'' = Some x"
    using example_controller_simps(4) by blast
  ultimately have "prepare_execution example_dispatch_env example_controller example_request example_dispatch_db =
      Inr \<lparr>pp_spec = example_plan, pp_budget = av_budget example_envelope,
        pp_harnesses = cn_harnesses example_controller, pp_scenarios = [(''s1'', example_scenario)],
        pp_bindings = [(''h1'', JObj (hs_dump x))], pp_digest = example_digest\<rparr>"
    by (simp add: prepare_execution_def resolved_harnesses_def resolve_scenarios_def resolve_scenario_def
        lookup_def harness_bindings_def Let_def request_digest_def)
  then show ?thesis by (rule that) simp_all
qed

lemma example_matrix:
  obtains u where "matrix example_dispatch_env example_controller example_plan [(''s1'', example_scenario)] = Inr [u]"
    "un_scenario_id u = ''s1''" "un_harness_id u = ''h1''" "un_seed u = Some (seed_of example_digest)"
    "un_endpoint_id u = None" "un_endpoint_digest u = None"
proof -
  let ?u = "new_unit (\<lambda>_. example_digest) example_plan (''s1'', example_scenario) ''h1'' None [] 0"
  have "expand_units (\<lambda>_. example_digest) example_plan [[]] [(''s1'', example_scenario)] = Inr [?u]"
    by (simp add: expand_units_def lookup_def scenario_units_def endpoint_values_def)
  then have "matrix example_dispatch_env example_controller example_plan [(''s1'', example_scenario)] =
      Inr [(with_seed (\<lambda>_. example_digest) example_plan 0 ?u)\<lparr>un_blocks := Some []\<rparr>]"
    by (simp add: matrix_def Let_def example_treatments schedule_extension_def dict_get_def shuffle_units_def
        with_blocks_def block_values_def)
  then show ?thesis
    by (rule that) (simp_all add: with_seed_def new_unit_def Let_def)
qed

lemma example_bound:
  assumes "un_scenario_id u = ''s1''" "un_harness_id u = ''h1''" "un_seed u = Some (seed_of example_digest)"
    "un_endpoint_id u = None" "un_endpoint_digest u = None"
  shows "\<exists>harness controls bound. bind_unit example_dispatch_env example_plan (av_budget example_envelope) []
    [(''s1'', example_scenario)] (cn_harnesses example_controller) 0 u = Inr (harness, controls, bound)"
proof -
  let ?k = "de_codec example_dispatch_env"
  let ?e = "example_envelope\<lparr>av_attempt_id := ''a3'', av_ordinal := 3, av_request_hash := ''d'', av_queued_at := 9\<rparr>"
  obtain x where x: "map_of (cn_harnesses example_controller) ''h1'' = Some x" "hs_timeout_seconds x = 5"
    by (simp add: example_controller_def)
  have seed: "0 \<le> seed_of example_digest" "seed_of example_digest \<le> 2 ^ 31 - 1"
    using pos_mod_bound [of "2 ^ 31" "int_of_hex (take 16 example_digest)"] by (simp_all add: seed_of_def)
  have controls: "\<exists>c. from_experiment example_plan (seed_of example_digest) x = Inr c"
    using seed x(2) by (simp add: from_experiment_def new_controls_def example_envelope_def)
  have envelope: "validate_envelope ?k j = Inr ?e" for j
    by (simp add: validate_envelope_def validate_lifecycle_def example_envelope_def terminal_envelope_def)
  have "check_input ?k (bound_input ?k example_scenario ?e) = Inr (bound_input ?k example_scenario ?e)"
    by (simp add: check_input_def validate_control_budget_binding_def execution_controls_for_def compatibility_def
        new_controls_def Let_def dict_get_def example_envelope_def)
  then have bound: "\<exists>b. bind_input ?k example_scenario ?e (Some c) = Inr b" for c
    using envelope by (simp add: bind_input_def scenario_with_execution_controls_def Let_def dict_get_def)
  obtain c where c: "from_experiment example_plan (seed_of example_digest) x = Inr c" using controls by blast
  obtain e where e: "new_envelope ?k example_plan (av_budget example_envelope) u ''e1'' ''a1'' []
      (de_queued_at example_dispatch_env 0) = Inr e"
    using assms by (simp add: new_envelope_def validate_lifecycle_def terminal_envelope_def)
  obtain b where "bind_input ?k example_scenario ?e (Some c) = Inr b" using bound by blast
  then show ?thesis
    using envelope x(1) assms(1-3) by (simp add: bind_unit_def Let_def lookup_def c e)
qed

lemma example_created:
  obtains c d' where "create_execution example_dispatch_env example_controller example_request example_dispatch_db =
    (Inr c, d')" "xc_job_ids c = [''j1'']" "xc_idempotent c = False"
proof -
  obtain p where p: "prepare_execution example_dispatch_env example_controller example_request example_dispatch_db = Inr p"
      "pp_spec p = example_plan" "pp_scenarios p = [(''s1'', example_scenario)]" "pp_digest p = example_digest"
      "pp_harnesses p = cn_harnesses example_controller" "pp_budget p = av_budget example_envelope"
    by (rule example_prepared)
  obtain u where u: "matrix example_dispatch_env example_controller example_plan [(''s1'', example_scenario)] = Inr [u]"
      "un_scenario_id u = ''s1''" "un_harness_id u = ''h1''" "un_seed u = Some (seed_of example_digest)"
      "un_endpoint_id u = None" "un_endpoint_digest u = None"
    by (rule example_matrix)
  obtain harness controls bound where b: "bind_unit example_dispatch_env example_plan (av_budget example_envelope) []
      [(''s1'', example_scenario)] (cn_harnesses example_controller) 0 u = Inr (harness, controls, bound)"
    using example_bound [OF u(2-6)] by blast
  have "\<exists>c d'. dispatch_body example_dispatch_env example_controller example_request p example_dispatch_db = Inr (c, d') \<and>
      xc_job_ids c = [''j1''] \<and> xc_idempotent c = False"
    using u(1) b
    by (simp add: dispatch_body_def reserve_execution_idempotency_def insert_idempotency_def p(2-6) insert_execution_def
        dispatch_unit_def insert_episode_def insert_attempt_def insert_job_def unit_episode_def unit_attempt_def
        unit_job_def queued_job_def new_execution_def complete_execution_idempotency_def rowcount_def Let_def
        example_dispatch_db_def) (simp add: example_request_def)
  then show ?thesis
    using p(1) that by (auto simp: create_execution_def transaction_def)
qed

theorem matrix_full_crossing_witness:
  "\<exists>us. matrix example_dispatch_env example_controller example_plan [(''s1'', example_scenario)] = Inr us \<and>
     map unit_cell us = [(''s1'', ''h1'', None, [], 0)] \<and> distinct (map unit_cell us)"
proof -
  obtain u where u: "matrix example_dispatch_env example_controller example_plan [(''s1'', example_scenario)] = Inr [u]"
    by (rule example_matrix)
  obtain ts where ts: "expand_design (sha256 (de_codec example_dispatch_env)) example_plan = Inr ts"
      "mset (map unit_cell [u]) = mset (full_crossing example_plan ts)" "distinct (map unit_cell [u])"
    using matrix_full_crossing [OF example_plan_valid u] by (elim exE conjE) (rule that)
  have "ts = [[]]" using ts(1) by (simp add: example_treatments)
  then have "map unit_cell [u] = [(''s1'', ''h1'', None, [], 0)]"
    using ts(2) by (simp add: full_crossing_def endpoint_values_def)
  with u show ?thesis by (intro exI [of _ "[u]"]) simp
qed

theorem create_execution_once_witness:
  "\<exists>c d1. create_execution example_dispatch_env example_controller example_request example_dispatch_db = (Inr c, d1) \<and>
     create_execution example_dispatch_env example_controller example_request d1 = (Inr (c\<lparr>xc_idempotent := True\<rparr>), d1)"
proof -
  obtain c d1 where c: "create_execution example_dispatch_env example_controller example_request example_dispatch_db =
      (Inr c, d1)"
    by (rule example_created)
  have "create_execution example_dispatch_env example_controller example_request d1 = (Inr (c\<lparr>xc_idempotent := True\<rparr>), d1)"
    by (rule conjunct1 [OF create_execution_once [OF example_dispatch_reachable c rtranclp.rtrancl_refl refl refl]])
  with c show ?thesis by blast
qed

theorem create_execution_atomic_witness:
  "\<exists>c d1. create_execution example_dispatch_env example_controller example_request example_dispatch_db = (Inr c, d1) \<and>
     xc_idempotent c = False \<and> dispatch_inv d1 \<and> length (db_jobs (dd_arena d1)) = 1"
proof -
  obtain c d1 where c: "create_execution example_dispatch_env example_controller example_request example_dispatch_db =
      (Inr c, d1)" "xc_job_ids c = [''j1'']" "xc_idempotent c = False"
    by (rule example_created)
  obtain x rows where "dispatch_inv d1" "xc_job_ids c = map (jb_id \<circ> snd \<circ> snd) rows"
      "dd_arena d1 = add_rows rows ((dd_arena example_dispatch_db)\<lparr>db_executions :=
        db_executions (dd_arena example_dispatch_db) @ [x]\<rparr>)"
    using create_execution_atomic [OF example_dispatch_reachable, of example_dispatch_env example_controller example_request]
    unfolding c(1) prod.case sum.case c(3) if_False by (elim exE conjE) (rule that)
  moreover from this(2) c(2) have "length rows = 1" by (metis length_map length_Cons list.size(3) One_nat_def)
  ultimately have "length (db_jobs (dd_arena d1)) = 1" by (simp add: add_rows_def example_dispatch_db_def)
  with c \<open>dispatch_inv d1\<close> show ?thesis by blast
qed

end
