(* ===== verification/Py_Float.thy ===== *)
theory Py_Float
  imports Arena_Prelude "HOL-Library.Log_Nat"
begin

text \<open>
  Python's floats, the IEEE doubles, as the rational numbers they are.

  \<open>fl q\<close> is the double nearest to \<open>q\<close>, ties to even, with the grid of the subnormal numbers below
  the normal ones; the sizes that occur here stay far from overflow, which is left out. A number \<open>x\<close> is
  a double when \<open>fl x = x\<close>. The operators round the exact result, as the standard requires.

  The built-in \<open>sum\<close> adds from left to right up to CPython 3.11; from 3.12 on it keeps a compensation
  term (Neumaier's algorithm) and adds it at the end, so it may differ from a loop over \<open>+=\<close>.
\<close>

section \<open>Rounding to a double\<close>

text \<open>The exponent of a number: the power of two it is at least as large as, but not twice.\<close>

definition binade :: "rat \<Rightarrow> int" where
  "binade q = (case quotient_of \<bar>q\<bar> of (a, b) \<Rightarrow>
     (let d = int (floorlog 2 (nat a)) - int (floorlog 2 (nat b)) in
      if 2 powi d \<le> \<bar>q\<bar> then d else d - 1))"

definition ulp_exponent :: "rat \<Rightarrow> int" where
  "ulp_exponent q = max (binade q - 52) (- 1074)"

definition fl :: "rat \<Rightarrow> rat" where
  "fl q = (if q = 0 then 0
     else of_int (round_half_even (q / 2 powi ulp_exponent q)) * 2 powi ulp_exponent q)"

definition fadd :: "rat \<Rightarrow> rat \<Rightarrow> rat" where
  "fadd x y = fl (x + y)"

definition fsub :: "rat \<Rightarrow> rat \<Rightarrow> rat" where
  "fsub x y = fl (x - y)"

definition fmul :: "rat \<Rightarrow> rat \<Rightarrow> rat" where
  "fmul x y = fl (x * y)"

definition fdiv :: "rat \<Rightarrow> rat \<Rightarrow> rat" where
  "fdiv x y = fl (x / y)"

text \<open>A positive integer lies between the powers of two its length in bits names.\<close>

lemma bit_length_bounds:
  assumes "0 < a"
  shows "(2::rat) powi (int (floorlog 2 (nat a)) - 1) \<le> of_int a"
    and "of_int a < (2::rat) powi int (floorlog 2 (nat a))"
proof -
  define l where "l = floorlog 2 (nat a)"
  have "0 < l" using assms by (simp add: l_def floorlog_def)
  have bounds: "2 ^ (l - 1) \<le> nat a" "nat a < 2 ^ l"
    using floorlog_bounds [of "nat a" 2] assms by (simp_all add: l_def)
  have "of_nat (2 ^ (l - 1)) \<le> (of_nat (nat a) :: rat)" "(of_nat (nat a) :: rat) < of_nat (2 ^ l)"
    using bounds by (simp_all only: of_nat_le_iff of_nat_less_iff)
  then have real: "2 ^ (l - 1) \<le> (of_int a :: rat)" "(of_int a :: rat) < 2 ^ l"
    using assms by simp_all
  have "(2::rat) powi (int l - 1) = 2 ^ (l - 1)"
    using \<open>0 < l\<close> by (cases l) simp_all
  with real show "(2::rat) powi (int (floorlog 2 (nat a)) - 1) \<le> of_int a"
      and "of_int a < (2::rat) powi int (floorlog 2 (nat a))"
    by (simp_all only: l_def [symmetric] power_int_of_nat)
qed

lemma powi_two_less_iff [simp]: "(2::rat) powi m < 2 powi n \<longleftrightarrow> m < n"
proof
  assume "(2::rat) powi m < 2 powi n"
  then show "m < n"
    using power_int_increasing [of n m "2::rat"] by (meson linorder_not_less one_le_numeral)
qed (rule power_int_strict_increasing, simp_all)

lemma powi_two_le_iff [simp]: "(2::rat) powi m \<le> 2 powi n \<longleftrightarrow> m \<le> n"
  by (simp flip: not_less)

lemma powi_two_pos [simp]: "0 < (2::rat) powi n"
  by simp

lemma binade_bounds:
  assumes "q \<noteq> 0"
  shows "2 powi binade q \<le> \<bar>q\<bar>" and "\<bar>q\<bar> < 2 powi (binade q + 1)"
proof -
  obtain a b where ab: "quotient_of \<bar>q\<bar> = (a, b)" by fastforce
  then have b: "0 < b" by (rule quotient_of_denom_pos)
  have q: "\<bar>q\<bar> = of_int a / of_int b" using ab by (rule quotient_of_div)
  have "0 < \<bar>q\<bar>" using assms by simp
  with q b have a: "0 < a" by (simp add: zero_less_divide_iff)
  define la lb where "la = int (floorlog 2 (nat a))" and "lb = int (floorlog 2 (nat b))"
  note A = bit_length_bounds [OF a, folded la_def] and B = bit_length_bounds [OF b, folded lb_def]
  have bpos: "(0::rat) < of_int b" using b by simp
  have low: "2 powi (la - lb - 1) < \<bar>q\<bar>"
  proof -
    have "(2::rat) powi (la - lb - 1) * of_int b < 2 powi (la - lb - 1) * 2 powi lb"
      using B(2) by simp
    also have "\<dots> = 2 powi (la - 1)" by (simp flip: power_int_add)
    also have "\<dots> \<le> of_int a" by (rule A(1))
    finally show ?thesis by (simp add: q pos_less_divide_eq [OF bpos])
  qed
  have high: "\<bar>q\<bar> < 2 powi (la - lb + 1)"
  proof -
    have "of_int a < (2::rat) powi la" by (rule A(2))
    also have "\<dots> = 2 powi (la - lb + 1) * 2 powi (lb - 1)" by (simp flip: power_int_add)
    also have "\<dots> \<le> 2 powi (la - lb + 1) * of_int b" using B(1) by simp
    finally show ?thesis by (simp add: q pos_divide_less_eq [OF bpos])
  qed
  have d: "binade q = (if 2 powi (la - lb) \<le> \<bar>q\<bar> then la - lb else la - lb - 1)"
    by (simp add: binade_def ab la_def lb_def Let_def)
  show "2 powi binade q \<le> \<bar>q\<bar>"
    using low by (simp add: d)
  show "\<bar>q\<bar> < 2 powi (binade q + 1)"
    using high by (simp add: d)
qed

lemma binade_unique:
  assumes "2 powi e \<le> \<bar>q\<bar>" and "\<bar>q\<bar> < 2 powi (e + 1)"
  shows "binade q = e"
proof -
  have "q \<noteq> 0" using assms(1) powi_two_pos [of e] by (metis abs_zero not_less)
  note b = binade_bounds [OF this]
  have "(2::rat) powi e < 2 powi (binade q + 1)" "(2::rat) powi binade q < 2 powi (e + 1)"
    using assms b by linarith+
  then show ?thesis by simp
qed

lemma binade_mono:
  assumes "0 < p" and "p \<le> q"
  shows "binade p \<le> binade q"
proof -
  have "2 powi binade p \<le> p" "q < 2 powi (binade q + 1)"
    using binade_bounds [of p] binade_bounds [of q] assms by simp_all
  with assms have "(2::rat) powi binade p < 2 powi (binade q + 1)" by linarith
  then show ?thesis by simp
qed

lemma binade_minus [simp]: "binade (- q) = binade q"
  by (simp add: binade_def)

text \<open>Evaluation: the grid of a number in a known binade.\<close>

lemma fl_eq:
  assumes "2 powi e \<le> \<bar>q\<bar>" and "\<bar>q\<bar> < 2 powi (e + 1)" and "- 1022 \<le> e"
  shows "fl q = of_int (round_half_even (q / 2 powi (e - 52))) * 2 powi (e - 52)"
proof -
  have "q \<noteq> 0" using assms(1) powi_two_pos [of e] by (metis abs_zero not_less)
  with assms show ?thesis
    by (simp add: fl_def ulp_exponent_def binade_unique)
qed

lemma fl_zero [simp]: "fl 0 = 0"
  by (simp add: fl_def)

lemma fl_one [simp]: "fl 1 = 1"
proof -
  have "fl 1 = of_int (round_half_even (1 / 2 powi (0 - 52))) * 2 powi (0 - 52)"
    by (rule fl_eq) simp_all
  also have "1 / 2 powi (0 - 52) = (of_int (2 ^ 52) :: rat)"
    by (simp add: power_int_minus)
  finally show ?thesis
    by (simp add: power_int_minus del: of_int_power of_int_numeral)
qed

section \<open>Rounding is monotone\<close>

lemma round_half_even_minus: "round_half_even (- q) = - round_half_even q"
proof (cases "q = of_int \<lfloor>q\<rfloor>")
  case True
  then obtain n where n: "q = of_int n" by blast
  have "round_half_even (- q) = round_half_even (of_int (- n))" by (simp add: n)
  then show ?thesis by (simp only: n round_half_even_of_int)
next
  case False
  have "of_int \<lfloor>q\<rfloor> \<le> q" "q < of_int \<lfloor>q\<rfloor> + 1" by (simp, linarith)
  with False have q: "of_int \<lfloor>q\<rfloor> < q" "q < of_int \<lfloor>q\<rfloor> + 1" by linarith+
  have "\<lfloor>- q\<rfloor> = - \<lfloor>q\<rfloor> - 1"
    by (rule floor_unique) (use q in simp_all)
  then show ?thesis
    by (auto simp: round_half_even_def Let_def)
qed

lemma fl_minus [simp]: "fl (- q) = - fl q"
  by (simp add: fl_def ulp_exponent_def round_half_even_minus)

lemma fl_nonneg: "0 \<le> q \<Longrightarrow> 0 \<le> fl q"
  by (simp add: fl_def round_half_even_nonneg)

lemma powi_two_multiple:
  assumes "m \<le> n"
  obtains k where "(2::rat) powi n / 2 powi m = of_int k"
proof -
  have "(2::rat) powi n / 2 powi m = 2 powi (n - m)"
    by (simp add: power_int_diff)
  also have "\<dots> = of_int (2 ^ nat (n - m))"
    using assms by (simp add: power_int_def)
  finally show ?thesis by (rule that)
qed

lemma fl_mono_pos:
  assumes "0 < p" and "p \<le> q"
  shows "fl p \<le> fl q"
proof (cases "ulp_exponent p = ulp_exponent q")
  case True
  have "p / 2 powi ulp_exponent q \<le> q / 2 powi ulp_exponent q"
    using assms(2) by (simp add: divide_right_mono)
  then show ?thesis
    using assms by (simp add: fl_def True round_half_even_mono)
next
  case False
  have "binade p \<le> binade q" by (rule binade_mono [OF assms])
  with False have less: "binade p < binade q" and e: "ulp_exponent q = binade q - 52" "ulp_exponent p < binade q"
    by (auto simp: ulp_exponent_def max_def split: if_splits)
  have "p < 2 powi (binade p + 1)" using binade_bounds(2) [of p] assms by simp
  also have "\<dots> \<le> 2 powi binade q" using less by simp
  finally have p: "p / 2 powi ulp_exponent p \<le> 2 powi binade q / 2 powi ulp_exponent p"
    by (simp add: divide_right_mono)
  have "2 powi binade q \<le> q" using binade_bounds(1) [of q] assms by simp
  then have q: "2 powi binade q / 2 powi ulp_exponent q \<le> q / 2 powi ulp_exponent q"
    by (simp add: divide_right_mono)
  obtain k where k: "(2::rat) powi binade q / 2 powi ulp_exponent p = of_int k"
    using powi_two_multiple e(2) by (metis less_imp_le)
  obtain l where l: "(2::rat) powi binade q / 2 powi ulp_exponent q = of_int l"
    using powi_two_multiple [of "ulp_exponent q" "binade q"] e(1) by auto
  have "fl p \<le> of_int k * 2 powi ulp_exponent p"
    using round_half_even_mono [OF p] assms(1) by (simp add: fl_def k)
  also have "\<dots> = 2 powi binade q" by (simp flip: k)
  also have "\<dots> = of_int l * 2 powi ulp_exponent q" by (simp flip: l)
  also have "\<dots> \<le> fl q"
    using round_half_even_mono [OF q] assms by (simp add: fl_def l)
  finally show ?thesis .
qed

lemma fl_mono: "p \<le> q \<Longrightarrow> fl p \<le> fl q"
proof -
  assume le: "p \<le> q"
  consider "0 < p" | "p \<le> 0" "0 \<le> q" | "q < 0" by linarith
  then show ?thesis
  proof cases
    case 1
    then show ?thesis using le by (rule fl_mono_pos)
  next
    case 2
    have "0 \<le> fl (- p)" "0 \<le> fl q"
      using 2 by (simp_all add: fl_nonneg del: fl_minus)
    then show ?thesis by simp
  next
    case 3
    have "fl (- q) \<le> fl (- p)" using 3 le by (intro fl_mono_pos) simp_all
    then show ?thesis by simp
  qed
qed

lemma fl_unit: "0 \<le> q \<Longrightarrow> q \<le> 1 \<Longrightarrow> 0 \<le> fl q \<and> fl q \<le> 1"
  using fl_mono [of q 1] by (simp add: fl_nonneg)

section \<open>Evaluation\<close>

lemma round_half_even_unique:
  assumes "\<bar>q - of_int n\<bar> < 1 / 2"
  shows "round_half_even q = n"
proof -
  have "\<bar>of_int (round_half_even q) - of_int n\<bar> < (1 :: rat)"
    using round_half_even_error [of q] assms by linarith
  then have "of_int \<bar>round_half_even q - n\<bar> < (1 :: rat)" by simp
  then show ?thesis by simp
qed

lemma round_half_even_tie:
  assumes "\<bar>q - of_int n\<bar> \<le> 1 / 2" and "even n"
  shows "round_half_even q = n"
proof (cases "\<bar>q - of_int n\<bar> < 1 / 2")
  case True
  then show ?thesis by (rule round_half_even_unique)
next
  case False
  with assms(1) consider "q = of_int n + 1 / 2" | "q = of_int n - 1 / 2" by linarith
  then show ?thesis
  proof cases
    case 1
    then have "\<lfloor>q\<rfloor> = n" by linarith
    with 1 assms(2) show ?thesis by (simp add: round_half_even_def Let_def)
  next
    case 2
    then have "\<lfloor>q\<rfloor> = n - 1" by linarith
    with 2 assms(2) show ?thesis by (simp add: round_half_even_def Let_def)
  qed
qed

text \<open>The double nearest to a number, given the grid \<open>1 / 2 ^ k\<close> of its binade.\<close>

lemma fl_grid:
  assumes "k \<le> 1074" and "2 ^ 52 \<le> q * 2 ^ k" and "q * 2 ^ k < 2 ^ 53"
  shows "fl q = of_int (round_half_even (q * 2 ^ k)) / 2 ^ k"
proof -
  have p: "(2::rat) powi (52 - int k) = 2 ^ 52 / 2 ^ k" "(2::rat) powi (53 - int k) = 2 ^ 53 / 2 ^ k"
    by (simp_all add: power_int_diff)
  have ulp: "(2::rat) powi (- int k) = 1 / 2 ^ k"
    by (simp add: power_int_minus divide_inverse)
  have "0 < q * 2 ^ k" by (rule less_le_trans [OF _ assms(2)]) simp
  then have "0 \<le> q" by (simp add: zero_less_mult_iff)
  then have "fl q = of_int (round_half_even (q / 2 powi (52 - int k - 52))) * 2 powi (52 - int k - 52)"
    by (intro fl_eq) (use assms in \<open>simp_all add: p field_simps\<close>)
  then show ?thesis by (simp add: ulp del: power_int_minus)
qed

lemma fl_nearest:
  assumes "k \<le> 1074" and "2 ^ 52 \<le> q * 2 ^ k" and "q * 2 ^ k < 2 ^ 53" and "\<bar>q * 2 ^ k - of_int n\<bar> < 1 / 2"
  shows "fl q = of_int n / 2 ^ k"
  using fl_grid [OF assms(1-3)] by (simp add: round_half_even_unique [OF assms(4)])

lemma fl_nearest_even:
  assumes "k \<le> 1074" and "2 ^ 52 \<le> q * 2 ^ k" and "q * 2 ^ k < 2 ^ 53" and "\<bar>q * 2 ^ k - of_int n\<bar> \<le> 1 / 2"
    and "even n"
  shows "fl q = of_int n / 2 ^ k"
  using fl_grid [OF assms(1-3)] by (simp add: round_half_even_tie [OF assms(4,5)])

text \<open>A number on a grid of doubles is a double.\<close>

lemma fl_exact:
  assumes "k \<le> 1074" and "\<bar>n\<bar> < 2 ^ 53"
  shows "fl (of_int n / 2 ^ k) = of_int n / 2 ^ k"
proof (cases "n = 0")
  case True
  then show ?thesis by simp
next
  case False
  define q :: rat where "q = of_int n / 2 ^ k"
  have "q \<noteq> 0" using False by (simp add: q_def)
  have "\<bar>of_int n\<bar> < (2 ^ 53 :: rat)"
    using assms(2) by (metis of_int_abs of_int_less_iff of_int_numeral of_int_power)
  then have "\<bar>q\<bar> < 2 powi (53 - int k)"
    by (simp add: q_def power_int_diff divide_strict_right_mono)
  with binade_bounds(1) [OF \<open>q \<noteq> 0\<close>] have "(2::rat) powi binade q < 2 powi (53 - int k)" by linarith
  then have e: "ulp_exponent q \<le> - int k" using assms(1) by (simp add: ulp_exponent_def)
  obtain m where m: "(2::rat) powi (- int k) / 2 powi ulp_exponent q = of_int m"
    using powi_two_multiple [OF e] .
  have "q / 2 powi ulp_exponent q = of_int (n * m)"
    by (simp add: q_def m [symmetric] power_int_minus divide_inverse)
  then have "of_int (round_half_even (q / 2 powi ulp_exponent q)) * 2 powi ulp_exponent q = q"
    by (metis nonzero_eq_divide_eq powi_two_pos less_irrefl round_half_even_of_int)
  with \<open>q \<noteq> 0\<close> show ?thesis by (simp add: fl_def flip: q_def)
qed

text \<open>Rounding a double changes nothing.\<close>

lemma fl_idem [simp]: "fl (fl q) = fl q"
proof (cases "q = 0 \<or> fl q = 0")
  case False
  define e r where "e = ulp_exponent q" and "r = round_half_even (q / 2 powi ulp_exponent q)"
  have x: "fl q = of_int r * 2 powi e" using False by (simp add: fl_def e_def r_def)
  have "\<bar>q\<bar> < 2 powi (binade q + 1)" using binade_bounds(2) [of q] False by simp
  also have "\<dots> \<le> 2 powi (53 + e)" by (simp add: e_def ulp_exponent_def)
  finally have q: "\<bar>q\<bar> \<le> 2 powi 53 * 2 powi e" by (simp add: power_int_add)
  then have "\<bar>q / 2 powi e\<bar> \<le> 2 powi 53" by (simp add: abs_divide pos_divide_le_eq)
  then have "\<bar>q / 2 powi e\<bar> \<le> of_int (2 ^ 53)" by simp
  then have "- of_int (2 ^ 53) \<le> q / 2 powi e" "q / 2 powi e \<le> of_int (2 ^ 53)" by linarith+
  then have "round_half_even (of_int (- (2 ^ 53)) :: rat) \<le> r" "r \<le> round_half_even (of_int (2 ^ 53) :: rat)"
    unfolding r_def e_def [symmetric] by (intro round_half_even_mono; simp)+
  then have r: "\<bar>r\<bar> \<le> 2 ^ 53" unfolding round_half_even_of_int by linarith
  have "\<exists>m. fl q / 2 powi ulp_exponent (fl q) = of_int m"
  proof (cases "\<bar>r\<bar> = 2 ^ 53")
    case True
    then have "\<bar>of_int r\<bar> = (2 ^ 53 :: rat)" by (metis of_int_abs of_int_numeral of_int_power)
    then have abs: "\<bar>fl q\<bar> = 2 powi (53 + e)" by (simp add: x abs_mult power_int_add)
    then have "binade (fl q) = 53 + e" by (intro binade_unique) simp_all
    then have u: "ulp_exponent (fl q) = e + 1" by (simp add: e_def ulp_exponent_def)
    have "fl q / 2 powi (e + 1) = of_int r / 2" by (simp add: x power_int_add)
    also have "\<dots> = of_int (r div 2)"
    proof -
      have "r = 2 ^ 53 \<or> r = - (2 ^ 53)" using True by linarith
      then show ?thesis by auto
    qed
    finally show ?thesis unfolding u by blast
  next
    case neq: False
    with r have "\<bar>r\<bar> < 2 ^ 53" by simp
    then have "\<bar>of_int r\<bar> < (2 ^ 53 :: rat)" by (metis of_int_abs of_int_less_iff of_int_numeral of_int_power)
    then have "\<bar>fl q\<bar> < 2 powi (53 + e)" by (simp add: x abs_mult power_int_add)
    moreover have "2 powi binade (fl q) \<le> \<bar>fl q\<bar>" using binade_bounds(1) [of "fl q"] False by simp
    ultimately have "(2::rat) powi binade (fl q) < 2 powi (53 + e)" by linarith
    then have "ulp_exponent (fl q) \<le> e" by (simp add: e_def ulp_exponent_def)
    then obtain m where m: "(2::rat) powi e / 2 powi ulp_exponent (fl q) = of_int m" by (rule powi_two_multiple)
    have "fl q / 2 powi ulp_exponent (fl q) = of_int r * 2 powi e / 2 powi ulp_exponent (fl q)" by (simp only: x)
    also have "\<dots> = of_int (r * m)" by (simp add: m flip: times_divide_eq_right)
    finally have "fl q / 2 powi ulp_exponent (fl q) = of_int (r * m)" .
    then show ?thesis ..
  qed
  then obtain m where m: "fl q / 2 powi ulp_exponent (fl q) = of_int m" ..
  then have "fl (fl q) = of_int m * 2 powi ulp_exponent (fl q)" using False by (simp add: fl_def [of "fl q"])
  also have "\<dots> = fl q" by (simp flip: m)
  finally show ?thesis .
qed auto

section \<open>Sums\<close>

datatype python_version = Py311 | Py312

definition fold_sum :: "rat list \<Rightarrow> rat" where
  "fold_sum xs = foldl fadd 0 xs"

definition compensate :: "rat \<times> rat \<Rightarrow> rat \<Rightarrow> rat \<times> rat" where
  "compensate s x =
     (let (f, c) = s; t = fadd f x in
      (t, fadd c (if \<bar>x\<bar> \<le> \<bar>f\<bar> then fadd (fsub f t) x else fadd (fsub x t) f)))"

definition compensated_sum :: "rat list \<Rightarrow> rat" where
  "compensated_sum xs = (let (f, c) = foldl compensate (0, 0) xs in if c = 0 then f else fadd f c)"

definition py_sum :: "python_version \<Rightarrow> rat list \<Rightarrow> rat" where
  "py_sum v = (case v of Py311 \<Rightarrow> fold_sum | Py312 \<Rightarrow> compensated_sum)"

text \<open>A weighted sum of scores, accumulated in a loop, never exceeds the left-to-right sum of the weights.\<close>

lemma weighted_loop_le:
  assumes "\<forall>(s, w) \<in> set xs. 0 \<le> s \<and> s \<le> 1 \<and> 0 \<le> w \<and> fl w = w" and "a \<le> b"
  shows "foldl (\<lambda>t (s, w). fadd t (fmul s w)) a xs \<le> foldl fadd b (map snd xs)"
  using assms
proof (induction xs arbitrary: a b)
  case Nil
  then show ?case by simp
next
  case (Cons x xs)
  obtain s w where x: "x = (s, w)" by fastforce
  from Cons.prems(1) have sw: "0 \<le> s" "s \<le> 1" "0 \<le> w" "fl w = w" by (auto simp: x)
  have "fmul s w \<le> fl w"
    unfolding fmul_def using sw by (intro fl_mono) (simp add: mult_left_le_one_le)
  then have "fadd a (fmul s w) \<le> fadd b w"
    unfolding fadd_def using Cons.prems(2) sw(4) by (intro fl_mono) linarith
  then have "foldl (\<lambda>t (s, w). fadd t (fmul s w)) (fadd a (fmul s w)) xs \<le> foldl fadd (fadd b w) (map snd xs)"
    using Cons.prems(1) by (intro Cons.IH) auto
  then show ?case by (simp add: x)
qed

lemma weighted_loop_nonneg:
  assumes "\<forall>(s, w) \<in> set xs. 0 \<le> s \<and> 0 \<le> w" and "0 \<le> a"
  shows "0 \<le> foldl (\<lambda>t (s, w). fadd t (fmul s w)) a xs"
  using assms
proof (induction xs arbitrary: a)
  case Nil
  then show ?case by simp
next
  case (Cons x xs)
  obtain s w where x: "x = (s, w)" by fastforce
  have "0 \<le> fadd a (fmul s w)"
    using Cons.prems by (auto simp: x fadd_def fmul_def intro!: fl_nonneg add_nonneg_nonneg)
  then show ?case
    using Cons.IH [of "fadd a (fmul s w)"] Cons.prems(1) by (auto simp: x)
qed

lemma fdiv_unit: "0 \<le> x \<Longrightarrow> x \<le> y \<Longrightarrow> 0 < y \<Longrightarrow> 0 \<le> fdiv x y \<and> fdiv x y \<le> 1"
  unfolding fdiv_def by (rule fl_unit) simp_all

text \<open>A fraction of counts is rounded to one only when it is one.\<close>

lemma fdiv_count_one:
  assumes "k \<le> n" and "0 < n" and "n \<le> 2 ^ 53"
  shows "fdiv (of_nat k) (of_nat n) = 1 \<longleftrightarrow> k = n"
proof
  assume one: "fdiv (of_nat k) (of_nat n) = 1"
  show "k = n"
  proof (rule ccontr)
    assume "k \<noteq> n"
    with assms have "k + 1 \<le> n" by simp
    then have "(of_nat k :: rat) + 1 \<le> of_nat n" by (metis of_nat_1 of_nat_add of_nat_le_iff)
    moreover have n: "(0::rat) < of_nat n" "(of_nat n :: rat) \<le> 2 ^ 53"
      using assms by simp_all
    ultimately have "(of_nat k :: rat) / of_nat n \<le> 1 - 1 / of_nat n"
      by (simp add: field_simps)
    also have "\<dots> \<le> 1 - 1 / 2 ^ 53"
      using n by (simp add: field_simps)
    finally have "fdiv (of_nat k) (of_nat n) \<le> fl (1 - 1 / 2 ^ 53)"
      unfolding fdiv_def by (rule fl_mono)
    also have "fl (1 - 1 / 2 ^ 53) = of_int (round_half_even ((1 - 1 / 2 ^ 53) / 2 powi (- 1 - 52))) * 2 powi (- 1 - 52)"
      by (rule fl_eq) (simp_all add: power_int_minus)
    also have "(1 - 1 / 2 ^ 53) / 2 powi (- 1 - 52) = (of_int (2 ^ 53 - 1) :: rat)"
      by (simp add: power_int_minus)
    also have "of_int (round_half_even (of_int (2 ^ 53 - 1))) * 2 powi (- 1 - 52) < (1::rat)"
      by (simp only: round_half_even_of_int) (simp add: power_int_minus)
    finally show False using one by simp
  qed
qed (use assms in \<open>simp add: fdiv_def\<close>)

end
