(* ===== verification/Grader_Models.thy ===== *)
theory Grader_Models
  imports Experiment_Spec Py_Float
begin

text \<open>
  The documents of the evaluation: grader declarations (\<open>GraderSpec\<close> of \<open>src/backend/protocol_v1/models.py\<close>
  with the validation of the built-in configurations), grader plans and results
  (\<open>src/backend/evaluation_v1/models.py\<close>), and the outcome and evaluation record of the protocol.

  Weights and scores are doubles, the rational numbers they are. A configuration is a JSON document
  whose arrays have become tuples and whose objects are sealed: \<open>freeze_grader_value\<close> checks it and leaves
  the values as they are. Patterns and ranges of single fields are checked where the code constructs
  the model itself; where a parser does, they are the parser's.
\<close>

section \<open>Patterns\<close>

definition lower_letter :: "char \<Rightarrow> bool" where
  "lower_letter c \<longleftrightarrow> (let n = of_char c :: nat in 97 \<le> n \<and> n \<le> 122)"

definition digit_char :: "char \<Rightarrow> bool" where
  "digit_char c \<longleftrightarrow> (let n = of_char c :: nat in 48 \<le> n \<and> n \<le> 57)"

definition is_identifier :: "string \<Rightarrow> bool" where
  "is_identifier s =
     (case s of
        [] \<Rightarrow> False
      | c # cs \<Rightarrow> lower_letter c \<and> 1 \<le> length cs \<and> length cs \<le> 127 \<and>
          list_all (\<lambda>d. lower_letter d \<or> digit_char d \<or> d = CHR ''_'' \<or> d = CHR ''-'') cs)"

text \<open>A JSON pointer that is not empty: it starts with a slash, and a tilde is followed by 0 or 1.\<close>

fun tildes_ok :: "string \<Rightarrow> bool" where
  "tildes_ok [] = True"
| "tildes_ok (c # cs) =
     (if c = CHR ''~'' then (case cs of [] \<Rightarrow> False | d # ds \<Rightarrow> d \<in> set ''01'' \<and> tildes_ok ds) else tildes_ok cs)"

definition is_json_pointer :: "string \<Rightarrow> bool" where
  "is_json_pointer s \<longleftrightarrow> s \<noteq> [] \<and> hd s = CHR ''/'' \<and> tildes_ok s"

section \<open>Grader declarations\<close>

datatype grader_kind = Deterministic | Qualitative

datatype grader_implementation =
    Impl_schema | Impl_exact_field | Impl_source_provenance | Impl_forbidden_token | Impl_state_oracle
  | Impl_manipulation_fidelity | Impl_context_handoff_delivery | Impl_installed_plugin

fun implementation_name :: "grader_implementation \<Rightarrow> string" where
  "implementation_name Impl_schema = ''schema''"
| "implementation_name Impl_exact_field = ''exact_field''"
| "implementation_name Impl_source_provenance = ''source_provenance''"
| "implementation_name Impl_forbidden_token = ''forbidden_token''"
| "implementation_name Impl_state_oracle = ''state_oracle''"
| "implementation_name Impl_manipulation_fidelity = ''manipulation_fidelity''"
| "implementation_name Impl_context_handoff_delivery = ''context_handoff_delivery''"
| "implementation_name Impl_installed_plugin = ''installed_plugin''"

definition kind_name :: "grader_kind \<Rightarrow> string" where
  "kind_name k = (case k of Deterministic \<Rightarrow> ''deterministic'' | Qualitative \<Rightarrow> ''qualitative'')"

record grader_spec =
  gs_grader_id :: string
  gs_version :: string
  gs_implementation :: grader_implementation
  gs_kind :: grader_kind
  gs_config :: dict
  gs_digest :: string
  gs_metric_id :: "string option"
  gs_weight :: "rat option"

definition digest_for :: "(json \<Rightarrow> string) \<Rightarrow> grader_spec \<Rightarrow> string" where
  "digest_for h g = h (JObj
     [(''grader_id'', JStr (gs_grader_id g)), (''version'', JStr (gs_version g)),
      (''implementation'', JStr (implementation_name (gs_implementation g))),
      (''kind'', JStr (kind_name (gs_kind g))), (''config'', JObj (gs_config g))])"

definition EXECUTABLE_CONFIG_TOKENS :: "string list" where
  "EXECUTABLE_CONFIG_TOKENS =
     [''code'', ''exec'', ''eval'', ''import'', ''script'', ''command'', ''shell'', ''module'', ''path'']"

fun freeze_grader_value :: "json \<Rightarrow> json result"
  and freeze_grader_items :: "json list \<Rightarrow> json list result"
  and freeze_grader_fields :: "dict \<Rightarrow> dict result" where
  "freeze_grader_value (JArr xs) = bind_r (freeze_grader_items xs) (\<lambda>ys. Inr (JArr ys))"
| "freeze_grader_value (JObj d) = bind_r (freeze_grader_fields d) (\<lambda>e. Inr (JObj e))"
| "freeze_grader_value v = Inr v"
| "freeze_grader_items [] = Inr []"
| "freeze_grader_items (x # xs) =
     bind_r (freeze_grader_value x) (\<lambda>y. bind_r (freeze_grader_items xs) (\<lambda>ys. Inr (y # ys)))"
| "freeze_grader_fields [] = Inr []"
| "freeze_grader_fields ((key, item) # d) =
     bind_r (raise_if (list_ex (contains (casefold key)) EXECUTABLE_CONFIG_TOKENS)
       (ValueError ''grader config must not contain executable-looking keys'')) (\<lambda>_.
     bind_r (freeze_grader_value item) (\<lambda>v.
     bind_r (freeze_grader_fields d) (\<lambda>e. Inr ((key, v) # e))))"

definition require_exact_config_keys :: "string \<Rightarrow> dict \<Rightarrow> string list \<Rightarrow> string list \<Rightarrow> unit result" where
  "require_exact_config_keys implementation config required optional =
     (let keys = set (map fst config) in
     bind_r (raise_if (set required - keys \<noteq> {})
       (ValueError (implementation @ '' grader config is missing keys''))) (\<lambda>_.
     raise_if (keys - set required - set optional \<noteq> {})
       (ValueError (implementation @ '' grader config has unknown keys''))))"

fun is_obj :: "json \<Rightarrow> bool" where
  "is_obj (JObj _) = True"
| "is_obj _ = False"

fun is_str :: "json \<Rightarrow> bool" where
  "is_str (JStr _) = True"
| "is_str _ = False"

fun str_where :: "(string \<Rightarrow> bool) \<Rightarrow> json \<Rightarrow> bool" where
  "str_where P (JStr s) = P s"
| "str_where P _ = False"

fun obj_where :: "(dict \<Rightarrow> bool) \<Rightarrow> json \<Rightarrow> bool" where
  "obj_where P (JObj d) = P d"
| "obj_where P _ = False"

fun arr_where :: "(json list \<Rightarrow> bool) \<Rightarrow> json \<Rightarrow> bool" where
  "arr_where P (JArr xs) = P xs"
| "arr_where P _ = False"

fun is_scalar_level :: "json \<Rightarrow> bool" where
  "is_scalar_level (JStr _) = True"
| "is_scalar_level (JInt _) = True"
| "is_scalar_level (JBool _) = True"
| "is_scalar_level _ = False"

text \<open>\<open>config[key]\<close>, and \<open>config.get(key, default)\<close>.\<close>

definition item :: "dict \<Rightarrow> string \<Rightarrow> json result" where
  "item d k = (case dict_get d k of None \<Rightarrow> Inl (KeyError k) | Some v \<Rightarrow> Inr v)"

definition get_or :: "dict \<Rightarrow> string \<Rightarrow> json \<Rightarrow> json" where
  "get_or d k other = (case dict_get d k of None \<Rightarrow> other | Some v \<Rightarrow> v)"

definition expect :: "bool \<Rightarrow> string \<Rightarrow> unit result" where
  "expect ok message = raise_if (\<not> ok) (ValueError message)"

text \<open>An optional key, when present, holds a value of the given form.\<close>

definition optional_where :: "dict \<Rightarrow> string \<Rightarrow> (json \<Rightarrow> bool) \<Rightarrow> bool" where
  "optional_where d k P \<longleftrightarrow> (case dict_get d k of None \<Rightarrow> True | Some v \<Rightarrow> P v)"

definition validate_source_config :: "dict \<Rightarrow> unit result" where
  "validate_source_config config =
     bind_r (require_exact_config_keys ''source_provenance'' config [''claims_pointer'', ''required_sources'']
       [''required_claim_sources'', ''unsupported_evidence_severe_rule_id'']) (\<lambda>_.
     bind_r (item config ''claims_pointer'') (\<lambda>pointer.
     bind_r (expect (str_where is_json_pointer pointer)
       ''source_provenance grader config.claims_pointer must be a non-empty RFC 6901 JSON Pointer'') (\<lambda>_.
     bind_r (item config ''required_sources'') (\<lambda>required_sources.
     bind_r (expect (obj_where (\<lambda>d. d \<noteq> [] \<and>
         list_all (\<lambda>(source_id, content_hash). is_identifier source_id \<and> str_where is_sha256 content_hash) d) required_sources)
       ''source_provenance grader config.required_sources must be a non-empty source-id to SHA-256 mapping'') (\<lambda>_.
     bind_r (expect (obj_where (list_all (\<lambda>(claim_id, source_ids). is_identifier claim_id \<and>
         arr_where (\<lambda>xs. xs \<noteq> [] \<and>
           list_all (str_where (\<lambda>s. obj_where (\<lambda>d. s \<in> set (map fst d)) required_sources)) xs) source_ids))
           (get_or config ''required_claim_sources'' (JObj [])))
       ''source_provenance grader config.required_claim_sources must map claim ids to non-empty declared source-id lists'') (\<lambda>_.
     expect (optional_where config ''unsupported_evidence_severe_rule_id''
         (\<lambda>v. v = JNull \<or> str_where is_identifier v))
       ''source_provenance grader config.unsupported_evidence_severe_rule_id must be an identifier''))))))"

definition validate_builtin_grader_config :: "grader_implementation \<Rightarrow> dict \<Rightarrow> unit result" where
  "validate_builtin_grader_config implementation config =
     (case implementation of
        Impl_schema \<Rightarrow>
          bind_r (require_exact_config_keys ''schema'' config [''schema''] []) (\<lambda>_.
          bind_r (item config ''schema'') (\<lambda>v.
          expect (is_obj v) ''schema grader config.schema must be a mapping''))
      | Impl_exact_field \<Rightarrow>
          bind_r (require_exact_config_keys ''exact_field'' config [''expected''] []) (\<lambda>_.
          bind_r (item config ''expected'') (\<lambda>v.
          expect (is_obj v) ''exact_field grader config.expected must be a mapping''))
      | Impl_source_provenance \<Rightarrow> validate_source_config config
      | Impl_forbidden_token \<Rightarrow>
          bind_r (require_exact_config_keys ''forbidden_token'' config [''forbidden_tokens''] [''severe_rule_id'']) (\<lambda>_.
          bind_r (item config ''forbidden_tokens'') (\<lambda>v.
          bind_r (expect (arr_where (list_all (str_where (\<lambda>s. s \<noteq> []))) v)
            ''forbidden_token grader config.forbidden_tokens must be a non-empty string tuple'') (\<lambda>_.
          expect (optional_where config ''severe_rule_id'' is_str)
            ''forbidden_token grader config.severe_rule_id must be a string'')))
      | Impl_state_oracle \<Rightarrow>
          bind_r (require_exact_config_keys ''state_oracle'' config [''state_key'', ''expected''] [''failure_rule_id'']) (\<lambda>_.
          bind_r (item config ''state_key'') (\<lambda>v.
          bind_r (expect (str_where (\<lambda>s. s \<noteq> []) v)
            ''state_oracle grader config.state_key must be a non-empty string'') (\<lambda>_.
          expect (optional_where config ''failure_rule_id'' is_str)
            ''state_oracle grader config.failure_rule_id must be a string'')))
      | Impl_manipulation_fidelity \<Rightarrow>
          bind_r (require_exact_config_keys ''manipulation_fidelity'' config [''expected_assignments''] [''failure_rule_id'']) (\<lambda>_.
          bind_r (item config ''expected_assignments'') (\<lambda>v.
          bind_r (expect (obj_where (list_all (\<lambda>(_, x). is_scalar_level x)) v)
            ''manipulation_fidelity grader config.expected_assignments must be a scalar mapping'') (\<lambda>_.
          expect (optional_where config ''failure_rule_id'' is_str)
            ''manipulation_fidelity grader config.failure_rule_id must be a string'')))
      | Impl_context_handoff_delivery \<Rightarrow>
          bind_r (require_exact_config_keys ''context_handoff_delivery'' config [''task'', ''packet'', ''renderer_digest'']
            [''failure_rule_id'']) (\<lambda>_.
          bind_r (item config ''task'') (\<lambda>task.
          bind_r (item config ''packet'') (\<lambda>packet.
          bind_r (item config ''renderer_digest'') (\<lambda>renderer_digest.
          bind_r (expect (is_str task \<and> is_obj packet \<and> str_where is_sha256 renderer_digest)
            ''context_handoff_delivery grader requires a task, packet mapping, and renderer digest'') (\<lambda>_.
          expect (optional_where config ''failure_rule_id'' (str_where is_identifier))
            ''context_handoff_delivery grader failure_rule_id must be an identifier'')))))
      | Impl_installed_plugin \<Rightarrow> Inr ())"

definition validate_declaration :: "(json \<Rightarrow> string) \<Rightarrow> grader_spec \<Rightarrow> grader_spec result" where
  "validate_declaration h g =
     bind_r (if gs_implementation g = Impl_installed_plugin
       then raise_if (gs_config g \<noteq> []) (ValueError ''installed plugin grader configs must be empty references'')
       else
         bind_r (raise_if (gs_kind g \<noteq> Deterministic) (ValueError ''built-in graders are deterministic'')) (\<lambda>_.
         bind_r (validate_builtin_grader_config (gs_implementation g) (gs_config g)) (\<lambda>_.
         raise_if (gs_digest g \<noteq> digest_for h g)
           (ValueError ''built-in grader digest does not bind canonical identity, implementation, and configuration'')))) (\<lambda>_.
     bind_r (if gs_kind g = Qualitative
       then raise_if (gs_metric_id g = None \<or> gs_weight g = None)
         (ValueError ''qualitative graders require metric_id and weight'')
       else raise_if (gs_metric_id g \<noteq> None \<or> gs_weight g \<noteq> None)
         (ValueError ''deterministic grader weights and metric ids belong to ScenarioSpec'')) (\<lambda>_.
     Inr g))"

definition validate_grader_spec :: "(json \<Rightarrow> string) \<Rightarrow> grader_spec \<Rightarrow> grader_spec result" where
  "validate_grader_spec h g =
     bind_r (freeze_grader_fields (gs_config g)) (\<lambda>config. validate_declaration h (g\<lparr>gs_config := config\<rparr>))"

section \<open>Plans, results and outcomes\<close>

record grader_installation =
  gi_grader_id :: string
  gi_version :: string
  gi_digest :: string

type_synonym grader_identity = "string \<times> string \<times> string"

definition identity_of :: "grader_installation \<Rightarrow> grader_identity" where
  "identity_of i = (gi_grader_id i, gi_version i, gi_digest i)"

record grader_binding =
  gb_metric_id :: string
  gb_weight :: rat
  gb_kind :: grader_kind
  gb_installation :: grader_installation

record human_calibration_receipt =
  hr_receipt_id :: string
  hr_batch_hash :: string
  hr_protocol_hash :: string
  hr_review_completion_digest :: string
  hr_annotator_count :: nat
  hr_authority_id :: string
  hr_attestation_ref :: string

record qualitative_result =
  qr_metric_id :: string
  qr_score :: rat
  qr_evaluator_id :: string
  qr_evaluator_version :: string
  qr_evaluator_digest :: string
  qr_input_evidence_ref :: string
  qr_output_evidence_ref :: string
  qr_calibration_receipt_id :: string
  qr_calibration_batch_hash :: string

record evaluation_context =
  ev_artifact_refs :: "(string \<times> string) list"
  ev_state_refs :: dict
  ev_factor_assignments :: assignment
  ev_severe_failure_rules :: "(string \<times> dict) list"

record grader_result =
  gr_metric_id :: string
  gr_score :: rat
  gr_passed :: bool
  gr_notes :: "string list"
  gr_severe_failures :: "string list"

definition new_result :: "string \<Rightarrow> rat \<Rightarrow> bool \<Rightarrow> string list \<Rightarrow> string list \<Rightarrow> grader_result result" where
  "new_result metric_id score passed notes severe =
     bind_r (raise_if (metric_id = [] \<or> \<not> (0 \<le> score \<and> score \<le> 1))
       (ValueError ''grader result requires a metric_id and score in [0, 1]'')) (\<lambda>_.
     Inr \<lparr>gr_metric_id = metric_id, gr_score = score, gr_passed = passed, gr_notes = notes,
          gr_severe_failures = severe\<rparr>)"

definition deterministic_weights :: "grader_binding list \<Rightarrow> rat list" where
  "deterministic_weights bindings = map gb_weight (filter (\<lambda>b. gb_kind b = Deterministic) bindings)"

definition deterministic_weight :: "python_version \<Rightarrow> grader_binding list \<Rightarrow> rat" where
  "deterministic_weight v bindings = py_sum v (deterministic_weights bindings)"

text \<open>The constants \<open>1e-9\<close> and \<open>0.70\<close> are the doubles nearest to them.\<close>

definition validate_plan :: "python_version \<Rightarrow> grader_binding list \<Rightarrow> unit result" where
  "validate_plan v bindings =
     bind_r (raise_if (bindings = []) (ValueError ''a grader plan needs at least one grader'')) (\<lambda>_.
     bind_r (raise_if (\<not> distinct (map gb_metric_id bindings))
       (ValueError ''grader metric_id values must be unique'')) (\<lambda>_.
     bind_r (raise_if (\<bar>fsub (py_sum v (map gb_weight bindings)) 1\<bar> > fl (1 / 10 ^ 9))
       (ValueError ''grader weights must allocate exactly 1.0'')) (\<lambda>_.
     raise_if (deterministic_weight v bindings < fsub (fl (7 / 10)) (fl (1 / 10 ^ 9)))
       (ValueError ''deterministic grader weight must be at least 0.70''))))"

datatype cost_outcome_status = Within_budget | Over_budget | Unknown_cost

definition reconciled_cost_status :: "rat option \<Rightarrow> rat option \<Rightarrow> cost_outcome_status" where
  "reconciled_cost_status cost limit =
     (case (cost, limit) of
        (Some c, Some l) \<Rightarrow>
          if c < 0 \<or> l < 0 then Unknown_cost else if c \<le> l then Within_budget else Over_budget
      | _ \<Rightarrow> Unknown_cost)"

record outcome_vector =
  ov_episode_id :: string
  ov_mission_success :: rat
  ov_severe_failures :: "string list"
  ov_consistency :: rat
  ov_cost_status :: cost_outcome_status
  ov_cost_usd :: "rat option"
  ov_latency_seconds :: "rat option"
  ov_tool_calls :: int
  ov_auditability :: rat
  ov_deterministic :: "(string \<times> rat) list"
  ov_model_judged :: "(string \<times> rat) list"

definition unit_score :: "rat \<Rightarrow> bool" where
  "unit_score q \<longleftrightarrow> 0 \<le> q \<and> q \<le> 1"

definition nonneg_option :: "rat option \<Rightarrow> bool" where
  "nonneg_option q \<longleftrightarrow> (case q of None \<Rightarrow> True | Some x \<Rightarrow> 0 \<le> x)"

definition score_map :: "(string \<times> rat) list \<Rightarrow> bool" where
  "score_map m \<longleftrightarrow> list_all (\<lambda>(k, q). is_identifier k \<and> unit_score q) m"

definition outcome_ok :: "outcome_vector \<Rightarrow> bool" where
  "outcome_ok ov \<longleftrightarrow> is_identifier (ov_episode_id ov) \<and> unit_score (ov_mission_success ov) \<and>
     list_all is_identifier (ov_severe_failures ov) \<and> unit_score (ov_consistency ov) \<and>
     nonneg_option (ov_cost_usd ov) \<and> nonneg_option (ov_latency_seconds ov) \<and> 0 \<le> ov_tool_calls ov \<and>
     unit_score (ov_auditability ov) \<and> score_map (ov_deterministic ov) \<and> score_map (ov_model_judged ov)"

definition new_outcome :: "outcome_vector \<Rightarrow> outcome_vector result" where
  "new_outcome ov = bind_r (raise_if (\<not> outcome_ok ov) (ValueError ''OutcomeVector'')) (\<lambda>_. Inr ov)"

record evaluation_record =
  er_evaluation_id :: string
  er_episode_id :: string
  er_outcome :: outcome_vector
  er_deterministic_weight :: rat
  er_evaluator_version :: string
  er_trace_hash :: string

definition record_ok :: "evaluation_record \<Rightarrow> bool" where
  "record_ok r \<longleftrightarrow> is_identifier (er_evaluation_id r) \<and> is_identifier (er_episode_id r) \<and>
     fl (7 / 10) \<le> er_deterministic_weight r \<and> er_deterministic_weight r \<le> 1 \<and> er_evaluator_version r \<noteq> [] \<and>
     is_sha256 (er_trace_hash r)"

definition new_record :: "evaluation_record \<Rightarrow> evaluation_record result" where
  "new_record r = bind_r (raise_if (\<not> record_ok r) (ValueError ''EvaluationRecord'')) (\<lambda>_. Inr r)"

end
