(* ===== verification/Context_Handoff.thy ===== *)
theory Context_Handoff
  imports Grader_Models
begin

text \<open>
  Packets of frozen context and their rendering into a prompt
  (\<open>src/backend/adapters_v1/context_handoff/models.py\<close> and \<open>render.py\<close>).

  What a policy leaves out of the prompt is shown to have no influence on it: the treatment of the
  context-handoff study is the choice of segments and nothing else.
\<close>

datatype context_policy = Isolated | Full_inherited | Curated

definition policy_name :: "context_policy \<Rightarrow> string" where
  "policy_name p = (case p of Isolated \<Rightarrow> ''isolated'' | Full_inherited \<Rightarrow> ''full_inherited'' | Curated \<Rightarrow> ''curated'')"

record packet_segment =
  ps_segment_id :: string
  ps_text :: string
  ps_content_hash :: string
  ps_source_id :: string

record context_packet =
  cp_baseline :: string
  cp_segments :: "packet_segment list"
  cp_curated_segment_ids :: "string list"

record renderer_receipt =
  rr_renderer_digest :: string
  rr_context_policy :: context_policy
  rr_included_segment_ids :: "string list"
  rr_excluded_segment_ids :: "string list"
  rr_segment_hashes :: "(string \<times> string) list"
  rr_prompt_hash :: string
  rr_prompt_bytes :: nat

definition check_hash :: "(json \<Rightarrow> string) \<Rightarrow> packet_segment \<Rightarrow> unit result" where
  "check_hash h s = raise_if (ps_content_hash s \<noteq> h (JObj
       [(''segment_id'', JStr (ps_segment_id s)), (''text'', JStr (ps_text s)), (''source_id'', JStr (ps_source_id s))]))
     (ValueError ''packet segment content_hash does not bind its immutable content'')"

definition segment_ids :: "context_packet \<Rightarrow> string list" where
  "segment_ids p = map ps_segment_id (cp_segments p)"

definition validate_packet :: "(json \<Rightarrow> string) \<Rightarrow> context_packet \<Rightarrow> context_packet result" where
  "validate_packet h p =
     bind_r (for_each (\<lambda>s _. check_hash h s) (cp_segments p) ()) (\<lambda>_.
     bind_r (raise_if (\<not> distinct (segment_ids p) \<or> cp_segments p = [])
       (ValueError ''context packet segments must be non-empty and unique'')) (\<lambda>_.
     bind_r (raise_if (\<not> distinct (cp_curated_segment_ids p) \<or> \<not> set (cp_curated_segment_ids p) \<subseteq> set (segment_ids p))
       (ValueError ''curated segment ids must be a unique declared packet subset'')) (\<lambda>_.
     Inr p)))"

definition RENDERER_DIGEST :: "(json \<Rightarrow> string) \<Rightarrow> string" where
  "RENDERER_DIGEST h = h (JObj
     [(''renderer'', JStr ''context-handoff''), (''semantic_version'', JStr ''1''),
      (''format'', JStr ''baseline-segments-task-v1'')])"

definition included_ids :: "context_packet \<Rightarrow> context_policy \<Rightarrow> string list" where
  "included_ids p policy =
     (case policy of Isolated \<Rightarrow> [] | Full_inherited \<Rightarrow> segment_ids p | Curated \<Rightarrow> cp_curated_segment_ids p)"

definition segment_by_id :: "context_packet \<Rightarrow> string \<Rightarrow> packet_segment result" where
  "segment_by_id p segment_id =
     (case map_of (rev (map (\<lambda>s. (ps_segment_id s, s)) (cp_segments p))) segment_id of
        None \<Rightarrow> Inl (KeyError segment_id)
      | Some s \<Rightarrow> Inr s)"

definition segment_lines :: "packet_segment \<Rightarrow> string list" where
  "segment_lines s =
     [''FROZEN PACKET SEGMENT '' @ ps_segment_id s @ '' ('' @ ps_source_id s @ ''):'', ps_text s]"

text \<open>\<open>join sep lines\<close> is \<open>sep.join(lines)\<close>; a character above 127 takes two bytes in UTF-8.\<close>

fun join :: "string \<Rightarrow> string list \<Rightarrow> string" where
  "join sep [] = []"
| "join sep [l] = l"
| "join sep (l # ls) = l @ sep @ join sep ls"

definition utf8_length :: "string \<Rightarrow> nat" where
  "utf8_length s = sum_list (map (\<lambda>c. if (of_char c :: nat) < 128 then 1 else 2) s)"

definition prompt_lines :: "context_packet \<Rightarrow> packet_segment list \<Rightarrow> string \<Rightarrow> string list" where
  "prompt_lines p segments task =
     [''CURRENT BASELINE FACTS:'', cp_baseline p] @ concat (map segment_lines segments) @
     [''TASK:'', task, ''Return only the declared JSON output contract.'']"

definition render_context ::
  "(json \<Rightarrow> string) \<Rightarrow> (string \<Rightarrow> string) \<Rightarrow> string \<Rightarrow> context_packet \<Rightarrow> context_policy \<Rightarrow> (string \<times> renderer_receipt) result" where
  "render_context h hash_bytes task p policy =
     (let included = included_ids p policy;
          excluded = filter (\<lambda>i. i \<notin> set included) (segment_ids p) in
     bind_r (map_r (segment_by_id p) included) (\<lambda>segments.
     let prompt = join [CHR 0x0A, CHR 0x0A] (prompt_lines p segments task) in
     Inr (prompt,
       \<lparr>rr_renderer_digest = RENDERER_DIGEST h, rr_context_policy = policy, rr_included_segment_ids = included,
        rr_excluded_segment_ids = excluded,
        rr_segment_hashes = zip included (map ps_content_hash segments),
        rr_prompt_hash = hash_bytes prompt, rr_prompt_bytes = utf8_length prompt\<rparr>)))"

section \<open>What a policy leaves out has no influence\<close>

lemma segment_by_id_unique:
  assumes "distinct (segment_ids p)" and "s \<in> set (cp_segments p)"
  shows "segment_by_id p (ps_segment_id s) = Inr s"
proof -
  have "distinct (map fst (rev (map (\<lambda>s. (ps_segment_id s, s)) (cp_segments p))))"
    using assms(1) by (simp add: segment_ids_def comp_def flip: rev_map)
  then have "map_of (rev (map (\<lambda>s. (ps_segment_id s, s)) (cp_segments p))) (ps_segment_id s) = Some s"
    using assms(2) by (intro map_of_is_SomeI) auto
  then show ?thesis by (simp add: segment_by_id_def)
qed

lemma validate_packet_Inr_iff:
  "validate_packet h p = Inr q \<longleftrightarrow> q = p \<and> (\<forall>s \<in> set (cp_segments p). check_hash h s = Inr ()) \<and>
     distinct (segment_ids p) \<and> cp_segments p \<noteq> [] \<and> distinct (cp_curated_segment_ids p) \<and>
     set (cp_curated_segment_ids p) \<subseteq> set (segment_ids p)"
proof -
  have "for_each (\<lambda>s _. check_hash h s) ss () = Inr () \<longleftrightarrow> (\<forall>s \<in> set ss. check_hash h s = Inr ())" for ss
    by (induction ss) (auto simp: tx_simps)
  then show ?thesis
    by (auto simp: validate_packet_def tx_simps)
qed

lemma included_declared:
  assumes "validate_packet h p = Inr p"
  shows "set (included_ids p policy) \<subseteq> set (segment_ids p)"
  using assms by (cases policy) (auto simp: included_ids_def validate_packet_Inr_iff)

lemma render_context_valid:
  assumes "validate_packet h p = Inr p"
  obtains segments where "list_all2 (\<lambda>i s. s \<in> set (cp_segments p) \<and> ps_segment_id s = i) (included_ids p policy) segments"
    and "render_context h hash_bytes task p policy =
      (let prompt = join [CHR 0x0A, CHR 0x0A] (prompt_lines p segments task) in
       Inr (prompt,
       \<lparr>rr_renderer_digest = RENDERER_DIGEST h, rr_context_policy = policy,
        rr_included_segment_ids = included_ids p policy,
        rr_excluded_segment_ids = filter (\<lambda>i. i \<notin> set (included_ids p policy)) (segment_ids p),
        rr_segment_hashes = zip (included_ids p policy) (map ps_content_hash segments),
        rr_prompt_hash = hash_bytes prompt, rr_prompt_bytes = utf8_length prompt\<rparr>))"
proof -
  have "distinct (segment_ids p)" using assms by (simp add: validate_packet_Inr_iff)
  have "\<exists>s. s \<in> set (cp_segments p) \<and> ps_segment_id s = i" if "i \<in> set (included_ids p policy)" for i
    using included_declared [OF assms] that by (auto simp: segment_ids_def)
  then obtain f where f: "\<forall>i \<in> set (included_ids p policy). f i \<in> set (cp_segments p) \<and> ps_segment_id (f i) = i"
    by metis
  define segments where "segments = map f (included_ids p policy)"
  have segments: "list_all2 (\<lambda>i s. s \<in> set (cp_segments p) \<and> ps_segment_id s = i) (included_ids p policy) segments"
    using f by (simp add: segments_def list_all2_conv_all_nth)
  then have "map_r (segment_by_id p) (included_ids p policy) = Inr segments"
    unfolding map_r_all2
    by (rule list_all2_mono) (auto simp: segment_by_id_unique [OF \<open>distinct (segment_ids p)\<close>])
  then show thesis
    by (intro that [OF segments]) (simp add: render_context_def Let_def)
qed

lemma render_context_returns:
  assumes "validate_packet h p = Inr p"
  shows "\<exists>x. render_context h hash_bytes task p policy = Inr x"
  by (rule render_context_valid [OF assms, of policy hash_bytes task]) (simp add: Let_def)

text \<open>
  C39: For a valid packet rendering never fails; the receipt divides the segments of the packet into the
  included and the excluded ones, each exactly once; and what a policy leaves out has no influence: a
  packet with the same baseline, the same declared identifiers and the same included segments gives the
  same prompt and the same receipt, so under the isolated policy the prompt depends on the baseline and
  the task alone.
\<close>

theorem excluded_context_has_no_influence:
  assumes "validate_packet h p = Inr p" and "validate_packet h q = Inr q"
    and "cp_baseline p = cp_baseline q" and "segment_ids p = segment_ids q"
    and "cp_curated_segment_ids p = cp_curated_segment_ids q"
    and "\<forall>s \<in> set (cp_segments p). ps_segment_id s \<in> set (included_ids p policy) \<longrightarrow> s \<in> set (cp_segments q)"
  shows "render_context h hash_bytes task p policy = render_context h hash_bytes task q policy \<and>
    (\<exists>prompt receipt. render_context h hash_bytes task p policy = Inr (prompt, receipt) \<and>
       mset (rr_included_segment_ids receipt) + mset (rr_excluded_segment_ids receipt) = mset (segment_ids p) \<and>
       rr_prompt_hash receipt = hash_bytes prompt)"
proof -
  have inc: "included_ids q policy = included_ids p policy"
    using assms(4,5) by (simp add: included_ids_def split: context_policy.split)
  have q: "distinct (segment_ids q)" using assms(2) by (simp add: validate_packet_Inr_iff)
  obtain ps where ps: "list_all2 (\<lambda>i s. s \<in> set (cp_segments p) \<and> ps_segment_id s = i) (included_ids p policy) ps"
    and rp: "render_context h hash_bytes task p policy =
      (let prompt = join [CHR 0x0A, CHR 0x0A] (prompt_lines p ps task) in
       Inr (prompt,
       \<lparr>rr_renderer_digest = RENDERER_DIGEST h, rr_context_policy = policy,
        rr_included_segment_ids = included_ids p policy,
        rr_excluded_segment_ids = filter (\<lambda>i. i \<notin> set (included_ids p policy)) (segment_ids p),
        rr_segment_hashes = zip (included_ids p policy) (map ps_content_hash ps),
        rr_prompt_hash = hash_bytes prompt, rr_prompt_bytes = utf8_length prompt\<rparr>))"
    using render_context_valid [OF assms(1)] .
  have "list_all2 (\<lambda>i s. s \<in> set (cp_segments q) \<and> ps_segment_id s = i) (included_ids p policy) ps"
    using ps assms(6) by (auto simp: list_all2_conv_all_nth in_set_conv_nth) (metis nth_mem)
  then have "map_r (segment_by_id q) (included_ids q policy) = Inr ps"
    unfolding map_r_all2 inc by (rule list_all2_mono) (auto simp: segment_by_id_unique [OF q])
  moreover have "prompt_lines q ps task = prompt_lines p ps task"
    by (simp add: prompt_lines_def assms(3))
  ultimately have rq: "render_context h hash_bytes task q policy = render_context h hash_bytes task p policy"
    unfolding rp by (simp add: render_context_def inc assms(4) Let_def)
  have "distinct (included_ids p policy)" "set (included_ids p policy) \<subseteq> set (segment_ids p)"
    using assms(1) included_declared [OF assms(1)]
    by (auto simp: included_ids_def validate_packet_Inr_iff split: context_policy.split)
  then have "mset (filter (\<lambda>i. i \<in> set (included_ids p policy)) (segment_ids p)) = mset (included_ids p policy)"
    using q assms(4) by (intro set_eq_iff_mset_eq_distinct [THEN iffD1]) auto
  then have "mset (included_ids p policy) + mset (filter (\<lambda>i. i \<notin> set (included_ids p policy)) (segment_ids p)) =
      mset (segment_ids p)"
    by (metis multiset_partition mset_filter)
  then show ?thesis
    by (simp add: rq rp Let_def)
qed

definition example_segment :: "string \<Rightarrow> packet_segment" where
  "example_segment txt = \<lparr>ps_segment_id = ''seg-a'', ps_text = txt, ps_content_hash = ''d'', ps_source_id = ''src''\<rparr>"

definition example_packet :: "string \<Rightarrow> context_packet" where
  "example_packet txt = \<lparr>cp_baseline = ''facts'',
     cp_segments = [example_segment txt, \<lparr>ps_segment_id = ''seg-b'', ps_text = ''b'', ps_content_hash = ''d'', ps_source_id = ''src''\<rparr>],
     cp_curated_segment_ids = [''seg-b'']\<rparr>"

lemma example_packet_valid: "validate_packet (\<lambda>_. ''d'') (example_packet txt) = Inr (example_packet txt)"
  by (simp add: validate_packet_Inr_iff example_packet_def example_segment_def segment_ids_def check_hash_def)

theorem excluded_context_has_no_influence_witness:
  "render_context (\<lambda>_. ''d'') (\<lambda>_. ''p'') ''task'' (example_packet ''x'') Curated =
     render_context (\<lambda>_. ''d'') (\<lambda>_. ''p'') ''task'' (example_packet ''y'') Curated \<and>
   example_packet ''x'' \<noteq> example_packet ''y''"
  using excluded_context_has_no_influence [OF example_packet_valid [of "''x''"] example_packet_valid [of "''y''"],
      of Curated "\<lambda>_. ''p''" "''task''"]
  by (simp add: example_packet_def example_segment_def segment_ids_def included_ids_def)

end
