(* ===== verification/Json_Extract.thy ===== *)
theory Json_Extract
  imports Arena_Prelude
begin

text \<open>
  Finding a JSON object in the output of a model: \<open>src/backend/utils/json_extract.py\<close>.

  \<open>json.loads\<close> is the argument \<open>loads\<close>. Only a \<open>JSONDecodeError\<close> is caught; any other exception of it, such as the
  plain \<open>ValueError\<close> for an integer literal of more than 4300 digits, leaves the function. The brace scan is
  a machine over the characters with the nesting depth and two flags; it is shown to return exactly the
  first balanced object, where balanced is a grammar of braces and string literals that mentions neither.
\<close>

record parse_result =
  pr_ok :: bool
  pr_data :: "dict option"
  pr_extracted_json :: "string option"
  pr_error :: "string option"
  pr_notes :: "string list"

definition fence :: string where
  "fence = ''```''"

definition strip_code_fences :: "string \<Rightarrow> string" where
  "strip_code_fences txt =
     (case find_from txt fence 0 of
        None \<Rightarrow> strip txt
      | Some opening \<Rightarrow>
     (case find_from txt [CHR 0x0A] (opening + 3) of
        None \<Rightarrow> strip txt
      | Some header_end \<Rightarrow>
     if lower (strip (drop (opening + 3) (take header_end txt))) \<notin> {'''', ''json''} then strip txt
     else
     (case find_from txt fence (header_end + 1) of
        Some closing \<Rightarrow> strip (drop (header_end + 1) (take closing txt))
      | None \<Rightarrow> strip txt)))"

record scan_state =
  sn_depth :: int
  sn_in_string :: bool
  sn_escape_next :: bool

definition scan_char :: "char \<Rightarrow> scan_state \<Rightarrow> scan_state" where
  "scan_char ch s =
     (if sn_escape_next s then s\<lparr>sn_escape_next := False\<rparr>
      else if ch = CHR 0x5C then (if sn_in_string s then s\<lparr>sn_escape_next := True\<rparr> else s)
      else if ch = CHR 0x22 then s\<lparr>sn_in_string := \<not> sn_in_string s\<rparr>
      else if sn_in_string s then s
      else if ch = CHR ''{'' then s\<lparr>sn_depth := sn_depth s + 1\<rparr>
      else if ch = CHR ''}'' then s\<lparr>sn_depth := sn_depth s - 1\<rparr>
      else s)"

text \<open>The loop returns the characters up to the brace that takes the depth to zero.\<close>

definition closes :: "char \<Rightarrow> scan_state \<Rightarrow> bool" where
  "closes ch s \<longleftrightarrow> \<not> sn_escape_next s \<and> \<not> sn_in_string s \<and> ch = CHR ''}'' \<and> sn_depth s = 1"

fun scan_object :: "string \<Rightarrow> scan_state \<Rightarrow> string option" where
  "scan_object [] s = None"
| "scan_object (ch # rest) s =
     (if closes ch s then Some [ch] else map_option (Cons ch) (scan_object rest (scan_char ch s)))"

definition scan_init :: scan_state where
  "scan_init = \<lparr>sn_depth = 0, sn_in_string = False, sn_escape_next = False\<rparr>"

definition extract_first_json_object :: "string \<Rightarrow> string option" where
  "extract_first_json_object txt =
     (case find_from txt ''{'' 0 of
        None \<Rightarrow> None
      | Some start \<Rightarrow> scan_object (drop start txt) scan_init)"

definition parsed :: "dict \<Rightarrow> string \<Rightarrow> string list \<Rightarrow> parse_result" where
  "parsed data extracted notes =
     \<lparr>pr_ok = True, pr_data = Some data, pr_extracted_json = Some extracted, pr_error = None, pr_notes = notes\<rparr>"

definition not_parsed :: "string \<Rightarrow> string list \<Rightarrow> parse_result" where
  "not_parsed error notes =
     \<lparr>pr_ok = False, pr_data = None, pr_extracted_json = None, pr_error = Some error, pr_notes = notes\<rparr>"

text \<open>
  The outcome of one strategy: an object, a document that is not an object, or text that does not
  parse. An extraction that finds nothing, or the empty string, is not tried.
\<close>

datatype try_parse = Parsed_dict dict | Parsed_other | Decode_error | Not_tried

definition try_loads :: "(string \<Rightarrow> json result) \<Rightarrow> string \<Rightarrow> try_parse result" where
  "try_loads loads txt =
     (case loads txt of
        Inl (JSONDecodeError _) \<Rightarrow> Inr Decode_error
      | Inl e \<Rightarrow> Inl e
      | Inr (JObj d) \<Rightarrow> Inr (Parsed_dict d)
      | Inr _ \<Rightarrow> Inr Parsed_other)"

definition try_extracted :: "(string \<Rightarrow> json result) \<Rightarrow> string option \<Rightarrow> try_parse result" where
  "try_extracted loads extracted =
     (case extracted of None \<Rightarrow> Inr Not_tried | Some s \<Rightarrow> if s = [] then Inr Not_tried else try_loads loads s)"

definition noted :: "try_parse \<Rightarrow> string \<Rightarrow> string list \<Rightarrow> string list" where
  "noted t note notes = (if t = Decode_error then notes @ [note] else notes)"

definition parse_json_lenient :: "(string \<Rightarrow> json result) \<Rightarrow> string \<Rightarrow> parse_result result" where
  "parse_json_lenient loads txt =
     (if strip txt = [] then Inr (not_parsed ''Empty input'' [''Input was empty''])
      else
     (let stripped = strip txt in bind_r (try_loads loads stripped) (\<lambda>direct.
      case direct of Parsed_dict data \<Rightarrow> Inr (parsed data stripped [])
      | _ \<Rightarrow>
     (let notes1 = noted direct ''Direct parse failed'' [];
          defenced = strip_code_fences txt in bind_r (try_loads loads defenced) (\<lambda>fenced.
      case fenced of Parsed_dict data \<Rightarrow> Inr (parsed data defenced (notes1 @ [''Parsed after stripping code fences'']))
      | _ \<Rightarrow>
     (let notes2 = noted fenced ''Fence-stripped parse failed'' notes1;
          extracted = extract_first_json_object txt in bind_r (try_extracted loads extracted) (\<lambda>scanned.
      case scanned of Parsed_dict data \<Rightarrow>
          Inr (parsed data (the extracted) (notes2 @ [''Extracted via balanced brace scan'']))
      | _ \<Rightarrow>
     (let notes3 = noted scanned ''Brace-scan extraction found JSON but it was invalid'' notes2;
          extracted = extract_first_json_object defenced in bind_r (try_extracted loads extracted) (\<lambda>last_try.
      case last_try of Parsed_dict data \<Rightarrow>
          Inr (parsed data (the extracted) (notes3 @ [''Extracted via brace scan on defenced text'']))
      | _ \<Rightarrow> Inr (not_parsed ''Could not extract valid JSON'' (notes3 @ [''All parse strategies failed''])))))))))))"

text \<open>\<open>json.loads\<close> raises nothing but \<open>JSONDecodeError\<close>.\<close>

definition only_decode_errors :: "(string \<Rightarrow> json result) \<Rightarrow> bool" where
  "only_decode_errors loads \<longleftrightarrow> (\<forall>txt e. loads txt = Inl e \<longrightarrow> (\<exists>m. e = JSONDecodeError m))"

lemma try_loads_total:
  assumes "only_decode_errors loads"
  shows "\<exists>t. try_loads loads txt = Inr t" "\<exists>t. try_extracted loads x = Inr t"
proof -
  show total: "\<exists>t. try_loads loads s = Inr t" for s
  proof (cases "loads s")
    case (Inl e)
    with assms obtain m where "e = JSONDecodeError m" by (auto simp: only_decode_errors_def)
    with Inl show ?thesis by (simp add: try_loads_def)
  next
    case (Inr v)
    then show ?thesis by (cases v) (simp_all add: try_loads_def)
  qed
  show "\<exists>t. try_extracted loads x = Inr t" using total by (simp add: try_extracted_def split: option.split)
qed

lemma strategy_total:
  assumes "\<And>data. \<exists>p. found data = Inr p" and "\<exists>p. otherwise = Inr p"
  shows "\<exists>p. (case t of Parsed_dict data \<Rightarrow> found data | Parsed_other \<Rightarrow> otherwise | Decode_error \<Rightarrow> otherwise
    | Not_tried \<Rightarrow> otherwise) = Inr p"
  using assms by (cases t) simp_all

lemma parse_json_lenient_total:
  assumes "only_decode_errors loads"
  shows "\<exists>p. parse_json_lenient loads txt = Inr p"
proof (cases "strip txt = []")
  case False
  obtain d f s r where "try_loads loads (strip txt) = Inr d" "try_loads loads (strip_code_fences txt) = Inr f"
      "try_extracted loads (extract_first_json_object txt) = Inr s"
      "try_extracted loads (extract_first_json_object (strip_code_fences txt)) = Inr r"
    using try_loads_total [OF assms] by metis
  note steps = this
  show ?thesis
    unfolding parse_json_lenient_def Let_def steps bind_r_Inr if_not_P [OF False] by (intro strategy_total) simp_all
qed (simp add: parse_json_lenient_def)

section \<open>The first balanced object\<close>

text \<open>
  The grammar. The text between the quotes of a string literal has every quote and backslash escaped by a
  backslash. A balanced text is made of characters that are neither quote nor brace, string literals, and
  balanced texts in braces.
\<close>

inductive literal_text :: "string \<Rightarrow> bool" where
  lit_end: "literal_text []"
| lit_char: "c \<noteq> CHR 0x22 \<Longrightarrow> c \<noteq> CHR 0x5C \<Longrightarrow> literal_text q \<Longrightarrow> literal_text (c # q)"
| lit_escape: "literal_text q \<Longrightarrow> literal_text (CHR 0x5C # c # q)"

inductive balanced :: "string \<Rightarrow> bool" where
  bal_end: "balanced []"
| bal_char: "c \<notin> {CHR 0x22, CHR ''{'', CHR ''}''} \<Longrightarrow> balanced b \<Longrightarrow> balanced (c # b)"
| bal_string: "literal_text q \<Longrightarrow> balanced b \<Longrightarrow> balanced (CHR 0x22 # q @ CHR 0x22 # b)"
| bal_braces: "balanced a \<Longrightarrow> balanced b \<Longrightarrow> balanced (CHR ''{'' # a @ CHR ''}'' # b)"

definition balanced_object :: "string \<Rightarrow> bool" where
  "balanced_object obj \<longleftrightarrow> (\<exists>b. obj = CHR ''{'' # b @ ''}'' \<and> balanced b)"

abbreviation outside :: "int \<Rightarrow> scan_state" where
  "outside d \<equiv> \<lparr>sn_depth = d, sn_in_string = False, sn_escape_next = False\<rparr>"

abbreviation inside :: "int \<Rightarrow> scan_state" where
  "inside d \<equiv> \<lparr>sn_depth = d, sn_in_string = True, sn_escape_next = False\<rparr>"

abbreviation escaped :: "int \<Rightarrow> scan_state" where
  "escaped d \<equiv> \<lparr>sn_depth = d, sn_in_string = True, sn_escape_next = True\<rparr>"

lemmas scan_defs = scan_char_def closes_def

lemma append_fun: "append [] = (\<lambda>x. x)" "append (c # cs) = (\<lambda>x. c # cs @ x)"
  by auto

text \<open>The scan passes over a string literal and over a balanced text without a change of its state.\<close>

lemma scan_literal: "literal_text q \<Longrightarrow> scan_object (q @ rest) (inside d) = map_option (\<lambda>x. q @ x) (scan_object rest (inside d))"
  by (induction rule: literal_text.induct) (simp_all add: scan_defs option.map_comp comp_def option.map_ident append_fun)

lemma scan_balanced:
  "balanced b \<Longrightarrow> 1 \<le> d \<Longrightarrow> scan_object (b @ rest) (outside d) = map_option (\<lambda>x. b @ x) (scan_object rest (outside d))"
proof (induction arbitrary: d rest rule: balanced.induct)
  case (bal_string q b)
  then show ?case by (simp add: scan_defs scan_literal option.map_comp comp_def append_fun)
qed (simp_all add: scan_defs option.map_comp comp_def option.map_ident append_fun)

text \<open>The rest of a text in which \<open>d\<close> braces are open: \<open>d\<close> balanced texts, each with its closing brace.\<close>

fun unwinds :: "nat \<Rightarrow> string \<Rightarrow> bool" where
  "unwinds 0 s \<longleftrightarrow> s = []"
| "unwinds (Suc d) s \<longleftrightarrow> (\<exists>b r. s = b @ CHR ''}'' # r \<and> balanced b \<and> unwinds d r)"

lemma unwinds_more:
  assumes "unwinds (Suc d) s" and "\<And>b. balanced b \<Longrightarrow> balanced (x @ b)"
  shows "unwinds (Suc d) (x @ s)"
  using assms by (metis append.assoc unwinds.simps(2))

lemma scan_unwinds:
  "(scan_object cs (outside (int (Suc d))) = Some obj \<longrightarrow> unwinds (Suc d) obj) \<and>
   (scan_object cs (inside (int (Suc d))) = Some obj \<longrightarrow> (\<exists>q s. obj = q @ CHR 0x22 # s \<and> literal_text q \<and> unwinds (Suc d) s)) \<and>
   (scan_object cs (escaped (int (Suc d))) = Some obj \<longrightarrow>
      (\<exists>c q s. obj = c # q @ CHR 0x22 # s \<and> literal_text q \<and> unwinds (Suc d) s))"
proof (induction cs arbitrary: d obj)
  case (Cons c cs)
  have out: "unwinds (Suc d) obj" if scan: "scan_object (c # cs) (outside (int (Suc d))) = Some obj"
  proof -
    consider "c = CHR ''}''" "d = 0" | e where "c = CHR ''}''" "d = Suc e" | "c = CHR ''{''" | "c = CHR 0x22"
      | "c \<notin> {CHR 0x22, CHR ''{'', CHR ''}''}" by (cases d) auto
    then show ?thesis
    proof cases
      case 1
      with scan show ?thesis by (auto simp: scan_defs intro: bal_end)
    next
      case 2
      with scan obtain rest where "obj = c # rest" "scan_object cs (outside (int (Suc e))) = Some rest"
        by (auto simp: scan_defs)
      with Cons [of e rest] 2 show ?thesis using bal_end by fastforce
    next
      case 3
      with scan obtain rest where rest: "obj = c # rest" "scan_object cs (outside (int (Suc (Suc d)))) = Some rest"
        by (auto simp: scan_defs add.commute)
      with Cons [of "Suc d" rest] obtain a b r where "rest = a @ CHR ''}'' # b @ CHR ''}'' # r" "balanced a" "balanced b" "unwinds d r"
        by auto
      then have "obj = (CHR ''{'' # a @ CHR ''}'' # b) @ CHR ''}'' # r" "balanced (CHR ''{'' # a @ CHR ''}'' # b)" "unwinds d r"
        using rest(1) 3 bal_braces [of a b] by simp_all
      then show ?thesis unfolding unwinds.simps by blast
    next
      case 4
      with scan obtain rest where rest: "obj = c # rest" "scan_object cs (inside (int (Suc d))) = Some rest"
        by (auto simp: scan_defs)
      with Cons [of d rest] obtain q s where "rest = q @ CHR 0x22 # s" "literal_text q" "unwinds (Suc d) s" by blast
      then show ?thesis using rest(1) 4 unwinds_more [of d s "CHR 0x22 # q @ [CHR 0x22]"] bal_string by simp
    next
      case 5
      with scan obtain rest where rest: "obj = c # rest" "scan_object cs (outside (int (Suc d))) = Some rest"
        by (auto simp: scan_defs split: if_splits)
      then show ?thesis using Cons [of d rest] unwinds_more [of d rest "[c]"] bal_char [OF 5] by simp
    qed
  qed
  have ins: "\<exists>q s. obj = q @ CHR 0x22 # s \<and> literal_text q \<and> unwinds (Suc d) s"
    if scan: "scan_object (c # cs) (inside (int (Suc d))) = Some obj"
  proof -
    consider "c = CHR 0x22" | "c = CHR 0x5C" | "c \<noteq> CHR 0x22" "c \<noteq> CHR 0x5C" by blast
    then show ?thesis
    proof cases
      case 1
      with scan obtain rest where "obj = c # rest" "scan_object cs (outside (int (Suc d))) = Some rest" by (auto simp: scan_defs)
      then show ?thesis using Cons [of d rest] 1 lit_end by fastforce
    next
      case 2
      with scan obtain rest where "obj = c # rest" "scan_object cs (escaped (int (Suc d))) = Some rest" by (auto simp: scan_defs)
      then show ?thesis using Cons [of d rest] 2 lit_escape by (metis append_Cons)
    next
      case 3
      with scan obtain rest where "obj = c # rest" "scan_object cs (inside (int (Suc d))) = Some rest" by (auto simp: scan_defs)
      then show ?thesis using Cons [of d rest] lit_char [OF 3] by (metis append_Cons)
    qed
  qed
  have esc: "\<exists>c q s. obj = c # q @ CHR 0x22 # s \<and> literal_text q \<and> unwinds (Suc d) s"
    if scan: "scan_object (c # cs) (escaped (int (Suc d))) = Some obj"
  proof -
    from scan obtain rest where "obj = c # rest" "scan_object cs (inside (int (Suc d))) = Some rest" by (auto simp: scan_defs)
    then show ?thesis using Cons [of d rest] by blast
  qed
  from out ins esc show ?case by blast
qed simp

lemma scan_object_exact:
  "scan_object (CHR ''{'' # cs) scan_init = Some obj \<longleftrightarrow> (\<exists>rest. CHR ''{'' # cs = obj @ rest \<and> balanced_object obj)"
proof
  have prefix: "scan_object xs s = Some ys \<Longrightarrow> \<exists>rest. xs = ys @ rest" for xs s ys
    by (induction xs arbitrary: s ys) (auto split: if_splits)
  assume scan: "scan_object (CHR ''{'' # cs) scan_init = Some obj"
  then obtain tail where "obj = CHR ''{'' # tail" "scan_object cs (outside (int (Suc 0))) = Some tail"
    by (auto simp: scan_defs scan_init_def)
  then have "balanced_object obj" using scan_unwinds [of cs 0 tail] by (auto simp: balanced_object_def)
  with prefix [OF scan] show "\<exists>rest. CHR ''{'' # cs = obj @ rest \<and> balanced_object obj" by blast
next
  assume "\<exists>rest. CHR ''{'' # cs = obj @ rest \<and> balanced_object obj"
  then show "scan_object (CHR ''{'' # cs) scan_init = Some obj"
    by (auto simp: balanced_object_def scan_init_def scan_defs scan_balanced)
qed

lemma find_sub_char: "find_sub [c] t = Some i \<longleftrightarrow> (\<exists>pre rest. t = pre @ c # rest \<and> c \<notin> set pre \<and> i = length pre)"
proof (induction t arbitrary: i)
  case (Cons d t)
  show ?case
  proof (cases "c = d")
    case True
    then show ?thesis by (auto simp: Cons_eq_append_conv)
  next
    case False
    have "find_sub [c] (d # t) = Some i \<longleftrightarrow> (\<exists>pre rest. t = pre @ c # rest \<and> c \<notin> set pre \<and> i = Suc (length pre))"
      using False by (cases i) (auto simp: Cons.IH)
    also have "\<dots> \<longleftrightarrow> (\<exists>pre rest. d # t = pre @ c # rest \<and> c \<notin> set pre \<and> i = length pre)"
      using False by (auto simp: Cons_eq_append_conv) (metis length_Cons set_ConsD)
    finally show ?thesis .
  qed
qed simp

text \<open>
  C20: The brace scan returns exactly the first balanced object: it answers with a text if and only if the
  input is some text without an opening brace, followed by this text, which is a balanced text in braces by the
  grammar of string literals and braces, followed by anything. Braces and quotes inside string literals do not
  count, escaped quotes do not end a literal, and a backslash outside of a literal is an ordinary character.
\<close>

theorem extract_first_json_object_exact:
  "extract_first_json_object txt = Some obj \<longleftrightarrow>
     (\<exists>pre rest. txt = pre @ obj @ rest \<and> CHR ''{'' \<notin> set pre \<and> balanced_object obj)"
proof
  assume "extract_first_json_object txt = Some obj"
  then obtain start where start: "find_sub ''{'' txt = Some start" and scan: "scan_object (drop start txt) scan_init = Some obj"
    by (auto simp: extract_first_json_object_def find_from_def split: option.splits)
  from start obtain pre cs where parts: "txt = pre @ CHR ''{'' # cs" "CHR ''{'' \<notin> set pre" "start = length pre"
    by (auto simp: find_sub_char)
  with scan have "scan_object (CHR ''{'' # cs) scan_init = Some obj" by simp
  then obtain rest where "CHR ''{'' # cs = obj @ rest" "balanced_object obj" unfolding scan_object_exact by blast
  with parts show "\<exists>pre rest. txt = pre @ obj @ rest \<and> CHR ''{'' \<notin> set pre \<and> balanced_object obj" by auto
next
  assume "\<exists>pre rest. txt = pre @ obj @ rest \<and> CHR ''{'' \<notin> set pre \<and> balanced_object obj"
  then obtain pre rest where parts: "txt = pre @ obj @ rest" "CHR ''{'' \<notin> set pre" "balanced_object obj" by blast
  then obtain cs where cs: "obj @ rest = CHR ''{'' # cs" by (auto simp: balanced_object_def)
  with parts(1,2) have "find_sub ''{'' txt = Some (length pre)" by (auto simp: find_sub_char)
  moreover have "scan_object (CHR ''{'' # cs) scan_init = Some obj"
    unfolding scan_object_exact using cs parts(3) by metis
  ultimately show "extract_first_json_object txt = Some obj"
    using parts(1) cs by (simp add: extract_first_json_object_def find_from_def)
qed

end
