(* ===== verification/Graders.thy ===== *)
theory Graders
  imports Context_Handoff Json_Extract
begin

text \<open>
  The trusted graders and their registry: \<open>src/backend/evaluation_v1/graders.py\<close>.

  A grader is one of the built-in classes with its fields, an installed plugin (code from outside, an
  arbitrary function), or a qualitative grader, which is an identity only. What comes from other
  packages is in \<open>eval_env\<close>: the digests, \<open>json.loads\<close>, \<open>jsonschema.validate\<close>, the pydantic parsers
  of packets and receipts (the sources' validators run after them), and the version of Python.

  Python tells lists from tuples: an output parsed from JSON holds lists, a frozen configuration and a
  frozen context hold tuples, and a list never equals a tuple. \<open>py_same\<close> is told which case it is in.
\<close>

section \<open>Values\<close>

fun py_same :: "bool \<Rightarrow> json \<Rightarrow> json \<Rightarrow> bool"
  and py_same_items :: "bool \<Rightarrow> json list \<Rightarrow> json list \<Rightarrow> bool"
  and py_same_fields :: "bool \<Rightarrow> dict \<Rightarrow> dict \<Rightarrow> bool" where
  "py_same same_arrays (JArr xs) y =
     (case y of JArr ys \<Rightarrow> same_arrays \<and> py_same_items same_arrays xs ys | _ \<Rightarrow> False)"
| "py_same same_arrays (JObj d) y =
     (case y of JObj e \<Rightarrow> set (map fst d) = set (map fst e) \<and> py_same_fields same_arrays d e | _ \<Rightarrow> False)"
| "py_same same_arrays x y = py_eq x y"
| "py_same_items same_arrays [] ys = (ys = [])"
| "py_same_items same_arrays (x # xs) ys =
     (case ys of [] \<Rightarrow> False | y # ys' \<Rightarrow> py_same same_arrays x y \<and> py_same_items same_arrays xs ys')"
| "py_same_fields same_arrays [] e = True"
| "py_same_fields same_arrays ((k, v) # d) e =
     ((case dict_get e k of None \<Rightarrow> False | Some w \<Rightarrow> py_same same_arrays v w) \<and> py_same_fields same_arrays d e)"

text \<open>The value at a dotted path; a path that is not there gives \<open>None\<close>, the null document.\<close>

fun at_parts :: "json \<Rightarrow> string list \<Rightarrow> json" where
  "at_parts current [] = current"
| "at_parts current (part # parts) =
     (case current of
        JObj d \<Rightarrow> (case dict_get d part of None \<Rightarrow> JNull | Some v \<Rightarrow> at_parts v parts)
      | _ \<Rightarrow> JNull)"

definition at_path :: "json \<Rightarrow> string \<Rightarrow> json" where
  "at_path v dotted_path = at_parts v (split_on CHR ''.'' dotted_path)"

fun replace_pair :: "char \<Rightarrow> char \<Rightarrow> char \<Rightarrow> string \<Rightarrow> string" where
  "replace_pair a b r (x # y # rest) =
     (if x = a \<and> y = b then r # replace_pair a b r rest else x # replace_pair a b r (y # rest))"
| "replace_pair a b r s = s"

definition unescape :: "string \<Rightarrow> string" where
  "unescape token = replace_pair CHR ''~'' CHR ''0'' CHR ''~'' (replace_pair CHR ''~'' CHR ''1'' CHR ''/'' token)"

text \<open>
  \<open>str.isdigit\<close> holds for the superscript digits of Latin-1 too, which \<open>int\<close> does not accept.
\<close>

definition superscript :: "char \<Rightarrow> bool" where
  "superscript c \<longleftrightarrow> c \<in> set [CHR 0xB2, CHR 0xB3, CHR 0xB9]"

definition isdigit :: "string \<Rightarrow> bool" where
  "isdigit s \<longleftrightarrow> s \<noteq> [] \<and> list_all (\<lambda>c. digit_char c \<or> superscript c) s"

definition int_of_string :: "string \<Rightarrow> nat result" where
  "int_of_string s =
     (if s \<noteq> [] \<and> list_all digit_char s then Inr (foldl (\<lambda>n c. 10 * n + (of_char c - 48)) 0 s)
      else Inl (ValueError ''invalid literal for int()''))"

fun at_tokens :: "json \<Rightarrow> string list \<Rightarrow> json result" where
  "at_tokens current [] = Inr current"
| "at_tokens current (token # tokens) =
     (let part = unescape token in
      case current of
        JObj d \<Rightarrow> (case dict_get d part of None \<Rightarrow> Inr JNull | Some v \<Rightarrow> at_tokens v tokens)
      | JArr xs \<Rightarrow>
          if isdigit part then
            bind_r (int_of_string part) (\<lambda>i. if i < length xs then at_tokens (xs ! i) tokens else Inr JNull)
          else Inr JNull
      | _ \<Rightarrow> Inr JNull)"

definition at_json_pointer :: "json \<Rightarrow> string \<Rightarrow> json result" where
  "at_json_pointer v pointer = at_tokens v (split_on CHR ''/'' (drop 1 pointer))"

text \<open>An entry of a dictionary that must be an object, a string or an array to be used.\<close>

definition obj_at :: "dict \<Rightarrow> string \<Rightarrow> dict option" where
  "obj_at d k = (case dict_get d k of Some (JObj e) \<Rightarrow> Some e | _ \<Rightarrow> None)"

definition str_at :: "dict \<Rightarrow> string \<Rightarrow> string option" where
  "str_at d k = (case dict_get d k of Some (JStr s) \<Rightarrow> Some s | _ \<Rightarrow> None)"

definition arr_at :: "dict \<Rightarrow> string \<Rightarrow> json list option" where
  "arr_at d k = (case dict_get d k of Some (JArr xs) \<Rightarrow> Some xs | _ \<Rightarrow> None)"

section \<open>Graders and the registry\<close>

text \<open>
  What \<open>jsonschema.validate\<close> does: it returns, raises \<open>ValidationError\<close> or \<open>SchemaError\<close> with a message, or raises
  anything else, for instance for a reference it cannot resolve, which the grader does not catch.
\<close>

datatype schema_check = Schema_valid | Schema_mismatch string | Schema_invalid string | Schema_raised py_error

record eval_env =
  en_sha256 :: "json \<Rightarrow> string"
  en_sha256_bytes :: "string \<Rightarrow> string"
  en_loads :: "string \<Rightarrow> json result"
  en_schema :: "json \<Rightarrow> json \<Rightarrow> schema_check"
  en_parse_packet :: "json \<Rightarrow> context_packet result"
  en_parse_receipt :: "json \<Rightarrow> renderer_receipt result"
  en_python :: python_version

record source_grader =
  sg_claims_pointer :: string
  sg_frozen_sources :: "(string \<times> string) list"
  sg_required_sources :: "(string \<times> string) list"
  sg_required_claim_sources :: "(string \<times> string list) list"
  sg_metric_id :: string
  sg_unsupported_rule :: "string option"

record delivery_grader =
  dg_task :: string
  dg_packet :: context_packet
  dg_renderer_digest :: string
  dg_metric_id :: string
  dg_failure_rule_id :: string

datatype grader =
    Schema_grader json string
  | Exact_field_grader dict string
  | Delivery_grader delivery_grader
  | Source_grader source_grader
  | Forbidden_grader "string list" string "string option"
  | State_grader string json string string
  | Fidelity_grader assignment string string
  | Plugin_grader "string \<Rightarrow> evaluation_context \<Rightarrow> grader_result result"
  | Qualitative_grader

record trusted_grader =
  tg_identity :: grader_identity
  tg_grader :: grader

fun is_deterministic :: "grader \<Rightarrow> bool" where
  "is_deterministic Qualitative_grader = False"
| "is_deterministic _ = True"

type_synonym grader_registry = "(grader_identity \<times> trusted_grader) list"

definition install :: "trusted_grader \<Rightarrow> grader_installation \<Rightarrow> grader_registry \<Rightarrow> grader_registry result" where
  "install g installation registry =
     bind_r (raise_if (tg_identity g \<noteq> identity_of installation)
       (ValueError ''trusted installation id, version, and digest must match the grader'')) (\<lambda>_.
     bind_r (raise_if (map_of registry (identity_of installation) \<noteq> None)
       (ValueError (''grader already installed: '' @ gi_grader_id installation))) (\<lambda>_.
     Inr (registry @ [(identity_of installation, g)])))"

text \<open>The object in the registry may have been changed after its installation, so \<open>resolve\<close> looks again.\<close>

definition resolve :: "grader_registry \<Rightarrow> grader_installation \<Rightarrow> trusted_grader result" where
  "resolve registry installation =
     (case map_of registry (identity_of installation) of
        None \<Rightarrow> Inl (LookupError ''trusted grader is not installed at exact identity'')
      | Some g \<Rightarrow>
          bind_r (raise_if (snd (tg_identity g) \<noteq> snd (identity_of installation))
            (ValueError ''installed grader no longer matches its trusted installation'')) (\<lambda>_.
          Inr g))"

section \<open>The evaluations\<close>

definition parse_output :: "eval_env \<Rightarrow> string \<Rightarrow> json option result" where
  "parse_output env output =
     bind_r (parse_json_lenient (en_loads env) output) (\<lambda>p.
     Inr (if pr_ok p then map_option JObj (pr_data p) else None))"

definition not_json :: "string \<Rightarrow> grader_result result" where
  "not_json metric_id = new_result metric_id 0 False [''output is not valid JSON''] []"

definition evaluate_schema :: "eval_env \<Rightarrow> json \<Rightarrow> string \<Rightarrow> string \<Rightarrow> grader_result result" where
  "evaluate_schema env schema metric_id output =
     bind_r (parse_output env output) (\<lambda>parsed_value.
     case parsed_value of
        None \<Rightarrow> not_json metric_id
      | Some v \<Rightarrow>
          (case en_schema env v schema of
             Schema_mismatch m \<Rightarrow> new_result metric_id 0 False [''schema validation failed: '' @ m] []
           | Schema_invalid m \<Rightarrow> new_result metric_id 0 False [''invalid trusted schema: '' @ m] []
           | Schema_raised e \<Rightarrow> Inl e
           | Schema_valid \<Rightarrow> new_result metric_id 1 True [] []))"

definition field_hit :: "json \<Rightarrow> string \<times> json \<Rightarrow> bool" where
  "field_hit v entry = (case entry of (path, expected) \<Rightarrow> py_same False (at_path v path) expected)"

definition evaluate_exact_field :: "eval_env \<Rightarrow> dict \<Rightarrow> string \<Rightarrow> string \<Rightarrow> grader_result result" where
  "evaluate_exact_field env expected metric_id output =
     bind_r (parse_output env output) (\<lambda>parsed_value.
     case parsed_value of
        None \<Rightarrow> not_json metric_id
      | Some v \<Rightarrow>
          (let hits = length (filter (field_hit v) expected);
               score = (if expected = [] then 1 else fdiv (of_nat hits) (of_nat (length expected))) in
           new_result metric_id score (score = 1) (map fst (filter (\<lambda>e. \<not> field_hit v e) expected)) []))"

definition receipt_same :: "renderer_receipt \<Rightarrow> renderer_receipt \<Rightarrow> bool" where
  "receipt_same a b \<longleftrightarrow> a\<lparr>rr_segment_hashes := []\<rparr> = b\<lparr>rr_segment_hashes := []\<rparr> \<and>
     map_of (rr_segment_hashes a) = map_of (rr_segment_hashes b)"

definition policy_of :: "level option \<Rightarrow> context_policy option" where
  "policy_of v =
     (if v = Some (LStr ''isolated'') then Some Isolated
      else if v = Some (LStr ''full_inherited'') then Some Full_inherited
      else if v = Some (LStr ''curated'') then Some Curated else None)"

definition delivery_request :: "string \<Rightarrow> string \<Rightarrow> dict \<Rightarrow> json" where
  "delivery_request model prompt options = JObj
     [(''model'', JStr model),
      (''messages'', JArr [JObj [(''role'', JStr ''user''), (''content'', JStr prompt)]]),
      (''stream'', JBool False), (''think'', JBool False), (''options'', JObj options)]"

fun caught :: "py_error \<Rightarrow> bool" where
  "caught (ValueError _) = True"
| "caught (TypeError _) = True"
| "caught _ = False"

definition evaluate_delivery :: "eval_env \<Rightarrow> delivery_grader \<Rightarrow> evaluation_context \<Rightarrow> grader_result result" where
  "evaluate_delivery env g context =
     (let fails = (\<lambda>note. new_result (dg_metric_id g) 0 False [note] [dg_failure_rule_id g]) in
      case (policy_of (map_of (ev_factor_assignments context) ''context_policy''),
            obj_at (ev_state_refs context) ''context_renderer_receipt'',
            obj_at (ev_state_refs context) ''frozen_request_binding'',
            str_at (ev_state_refs context) ''observed_request_digest'') of
        (Some policy, Some receipt_raw, Some frozen_request, Some observed) \<Rightarrow>
          (case bind_r (en_parse_receipt env (JObj receipt_raw)) (\<lambda>receipt.
                bind_r (render_context (en_sha256 env) (en_sha256_bytes env) (dg_task g) (dg_packet g) policy) (\<lambda>rendered.
                Inr (receipt, rendered))) of
             Inl e \<Rightarrow> if caught e then fails ''invalid delivery receipt'' else Inl e
           | Inr (receipt, prompt, expected) \<Rightarrow>
               (case (obj_at frozen_request ''options'', str_at frozen_request ''model'') of
                  (Some options, Some model) \<Rightarrow>
                    (if dg_renderer_digest g = RENDERER_DIGEST (en_sha256 env) \<and>
                        rr_renderer_digest receipt = dg_renderer_digest g \<and> receipt_same receipt expected \<and>
                        observed = en_sha256 env (delivery_request model prompt options)
                     then new_result (dg_metric_id g) 1 True [] []
                     else fails ''independent context delivery reconstruction mismatch'')
                | _ \<Rightarrow> fails ''missing controller-bound request controls''))
      | _ \<Rightarrow> fails ''missing frozen factor-delivery evidence'')"

subsection \<open>Source provenance\<close>

record source_state =
  so_diagnostics :: "string list"
  so_cited :: "(string \<times> string list) list"
  so_unsupported :: bool

definition diagnose :: "string \<Rightarrow> source_state \<Rightarrow> source_state" where
  "diagnose d s = s\<lparr>so_diagnostics := so_diagnostics s @ [d]\<rparr>"

text \<open>A set of cited sources is kept as a list in which a source may occur more than once.\<close>

definition cite :: "source_grader \<Rightarrow> string \<Rightarrow> json \<Rightarrow> source_state \<Rightarrow> source_state" where
  "cite g claim_id citation s =
     (case citation of
        JObj c \<Rightarrow>
          (case (str_at c ''source_id'', str_at c ''content_hash'') of
             (Some source_id, Some content_hash) \<Rightarrow>
               (case map_of (sg_frozen_sources g) source_id of
                  None \<Rightarrow> (diagnose (''claim '' @ claim_id @ '' references unknown evidence source: '' @ source_id) s)
                    \<lparr>so_unsupported := True\<rparr>
                | Some frozen_hash \<Rightarrow>
                    if content_hash \<noteq> frozen_hash
                    then (diagnose (''claim '' @ claim_id @ '' evidence hash mismatch: '' @ source_id) s)\<lparr>so_unsupported := True\<rparr>
                    else s\<lparr>so_cited := AList.map_default claim_id [source_id] (\<lambda>cs. cs @ [source_id]) (so_cited s)\<rparr>)
           | _ \<Rightarrow> diagnose (''claim '' @ claim_id @ '' has a malformed evidence citation'') s)
      | _ \<Rightarrow> diagnose (''claim '' @ claim_id @ '' has a malformed evidence citation'') s)"

definition read_claim :: "source_grader \<Rightarrow> json \<Rightarrow> source_state \<Rightarrow> source_state" where
  "read_claim g entry s =
     (case entry of
        JObj e \<Rightarrow>
          (case str_at e ''claim_id'' of
             Some claim_id \<Rightarrow>
               if claim_id = [] then diagnose ''claim evidence entry has an invalid claim_id'' s
               else if map_of (so_cited s) claim_id \<noteq> None
               then diagnose (''duplicate claim evidence entry: '' @ claim_id) s
               else
                 (let s' = s\<lparr>so_cited := so_cited s @ [(claim_id, [])]\<rparr> in
                  case arr_at e ''evidence'' of
                    Some citations \<Rightarrow>
                      if citations = [] then diagnose (''claim '' @ claim_id @ '' has no evidence citations'') s'
                      else fold (cite g claim_id) citations s'
                  | _ \<Rightarrow> diagnose (''claim '' @ claim_id @ '' has no evidence citations'') s')
           | _ \<Rightarrow> diagnose ''claim evidence entry has an invalid claim_id'' s)
      | _ \<Rightarrow> diagnose ''claim evidence entry must be an object'' s)"

definition cited_by :: "source_state \<Rightarrow> string \<Rightarrow> string list" where
  "cited_by s claim_id = (case map_of (so_cited s) claim_id of None \<Rightarrow> [] | Some xs \<Rightarrow> xs)"

definition source_diagnostics :: "source_grader \<Rightarrow> source_state \<Rightarrow> string list" where
  "source_diagnostics g s =
     so_diagnostics s @
     map (\<lambda>source_id. ''required evidence source is not cited: '' @ source_id)
       (filter (\<lambda>source_id. source_id \<notin> set (concat (map snd (so_cited s)))) (map fst (sg_required_sources g))) @
     concat (map (\<lambda>(claim_id, source_ids).
       map (\<lambda>source_id. ''required claim/source pair is missing: '' @ claim_id @ ''/'' @ source_id)
         (filter (\<lambda>source_id. source_id \<notin> set (cited_by s claim_id)) source_ids))
       (sg_required_claim_sources g))"

definition evaluate_source :: "eval_env \<Rightarrow> source_grader \<Rightarrow> string \<Rightarrow> grader_result result" where
  "evaluate_source env g output =
     bind_r (parse_output env output) (\<lambda>parsed_value.
     case parsed_value of
        None \<Rightarrow> not_json (sg_metric_id g)
      | Some v \<Rightarrow>
          bind_r (at_json_pointer v (sg_claims_pointer g)) (\<lambda>claims.
          case claims of
            JArr entries \<Rightarrow>
              (let s = fold (read_claim g) entries \<lparr>so_diagnostics = [], so_cited = [], so_unsupported = False\<rparr>;
                   diagnostics = source_diagnostics g s;
                   severe = (case sg_unsupported_rule g of
                     Some r \<Rightarrow> if so_unsupported s \<and> r \<noteq> [] then [r] else [] | None \<Rightarrow> []) in
               new_result (sg_metric_id g) (if diagnostics = [] then 1 else 0) (diagnostics = []) diagnostics severe)
          | _ \<Rightarrow> new_result (sg_metric_id g) 0 False
              [''claim evidence mapping must be an array at '' @ sg_claims_pointer g] []))"

subsection \<open>Tokens, state and fidelity\<close>

definition evaluate_forbidden :: "string list \<Rightarrow> string \<Rightarrow> string option \<Rightarrow> string \<Rightarrow> grader_result result" where
  "evaluate_forbidden tokens metric_id rule output =
     (let found = filter (\<lambda>token. contains (casefold output) (casefold token)) tokens;
          severe = (case rule of Some r \<Rightarrow> if found \<noteq> [] \<and> r \<noteq> [] then [r] else [] | None \<Rightarrow> []) in
      new_result metric_id (if found = [] then 1 else 0) (found = []) found severe)"

definition evaluate_state :: "string \<Rightarrow> json \<Rightarrow> string \<Rightarrow> string \<Rightarrow> evaluation_context \<Rightarrow> grader_result result" where
  "evaluate_state state_key expected metric_id rule context =
     (if py_same True (get_or (ev_state_refs context) state_key JNull) expected
      then new_result metric_id 1 True [] []
      else new_result metric_id 0 False [''authoritative state does not match expected value''] [rule])"

definition mismatched_factors :: "assignment \<Rightarrow> evaluation_context \<Rightarrow> string list" where
  "mismatched_factors expected context =
     map fst (filter (\<lambda>(key, v). case map_of (ev_factor_assignments context) key of
       None \<Rightarrow> True | Some w \<Rightarrow> \<not> level_eq w v) expected)"

definition evaluate_fidelity :: "assignment \<Rightarrow> string \<Rightarrow> string \<Rightarrow> evaluation_context \<Rightarrow> grader_result result" where
  "evaluate_fidelity expected metric_id rule context =
     (let mismatches = mismatched_factors expected context in
      if mismatches = [] then new_result metric_id 1 True [] []
      else new_result metric_id 0 False mismatches [rule])"

fun evaluate :: "eval_env \<Rightarrow> grader \<Rightarrow> string \<Rightarrow> evaluation_context \<Rightarrow> grader_result result" where
  "evaluate env (Schema_grader schema metric_id) output context = evaluate_schema env schema metric_id output"
| "evaluate env (Exact_field_grader expected metric_id) output context = evaluate_exact_field env expected metric_id output"
| "evaluate env (Delivery_grader g) output context = evaluate_delivery env g context"
| "evaluate env (Source_grader g) output context = evaluate_source env g output"
| "evaluate env (Forbidden_grader tokens metric_id rule) output context = evaluate_forbidden tokens metric_id rule output"
| "evaluate env (State_grader key expected metric_id rule) output context = evaluate_state key expected metric_id rule context"
| "evaluate env (Fidelity_grader expected metric_id rule) output context = evaluate_fidelity expected metric_id rule context"
| "evaluate env (Plugin_grader f) output context = f output context"
| "evaluate env Qualitative_grader output context = Inl (AttributeError ''evaluate'')"

end
