(* ===== verification/Evaluation_Engine.thy ===== *)
theory Evaluation_Engine
  imports Graders
begin

text \<open>
  Compiling the graders a study pack declares into a plan (\<open>src/backend/evaluation_v1/compiler.py\<close>) and
  evaluating an attempt with it (\<open>engine.py\<close>).

  A scenario has the fields the compiler reads beside those of \<open>scenario_spec\<close>; a study pack its
  scenarios and graders. The values of a configuration are read with \<open>as_str\<close>, \<open>as_dict\<close> and so on, which
  fail on a value of another form; on validated declarations they never do.
\<close>

section \<open>The compiler\<close>

record deterministic_metric =
  dm_metric_id :: string
  dm_weight :: rat
  dm_oracle :: string

record evidence_source =
  es_source_id :: string
  es_content_hash :: string

record scored_scenario = scenario_spec +
  sc_evidence_sources :: "evidence_source list"
  sc_deterministic_metrics :: "deterministic_metric list"

record study_pack =
  sp_scenarios :: "scored_scenario list"
  sp_graders :: "grader_spec list"

record grader_plan =
  gp_bindings :: "grader_binding list"
  gp_receipt :: "human_calibration_receipt option"
  gp_builtins :: "(grader_identity \<times> grader) list"

definition installation :: "grader_spec \<Rightarrow> grader_installation" where
  "installation g = \<lparr>gi_grader_id = gs_grader_id g, gi_version = gs_version g, gi_digest = gs_digest g\<rparr>"

fun as_str :: "json \<Rightarrow> string result" where
  "as_str (JStr s) = Inr s"
| "as_str _ = Inl (TypeError ''grader config'')"

fun as_dict :: "json \<Rightarrow> dict result" where
  "as_dict (JObj d) = Inr d"
| "as_dict _ = Inl (TypeError ''grader config'')"

fun as_strings :: "json \<Rightarrow> string list result" where
  "as_strings (JArr xs) = map_r as_str xs"
| "as_strings _ = Inl (TypeError ''grader config'')"

fun as_level :: "json \<Rightarrow> level result" where
  "as_level (JStr s) = Inr (LStr s)"
| "as_level (JInt i) = Inr (LInt i)"
| "as_level (JBool b) = Inr (LBool b)"
| "as_level _ = Inl (TypeError ''grader config'')"

definition as_optional_str :: "dict \<Rightarrow> string \<Rightarrow> string option result" where
  "as_optional_str d k =
     (case get_or d k JNull of JNull \<Rightarrow> Inr None | v \<Rightarrow> bind_r (as_str v) (\<lambda>s. Inr (Some s)))"

definition as_mapping :: "(json \<Rightarrow> 'a result) \<Rightarrow> json \<Rightarrow> (string \<times> 'a) list result" where
  "as_mapping f v = bind_r (as_dict v) (map_r (\<lambda>(k, x). bind_r (f x) (\<lambda>y. Inr (k, y))))"

definition source_grader_of :: "dict \<Rightarrow> string \<Rightarrow> scored_scenario \<Rightarrow> grader result" where
  "source_grader_of config metric_id scenario =
     (let frozen_sources = map (\<lambda>s. (es_source_id s, es_content_hash s)) (sc_evidence_sources scenario) in
     bind_r (bind_r (item config ''required_sources'') (as_mapping as_str)) (\<lambda>required_sources.
     bind_r (raise_if (list_ex (\<lambda>(source_id, content_hash). map_of (rev frozen_sources) source_id \<noteq> Some content_hash) required_sources)
       (ValueError ''source_provenance grader required_sources do not match frozen ScenarioSpec evidence_sources'')) (\<lambda>_.
     bind_r (bind_r (item config ''claims_pointer'') as_str) (\<lambda>pointer.
     bind_r (as_mapping as_strings (get_or config ''required_claim_sources'' (JObj []))) (\<lambda>claims.
     bind_r (as_optional_str config ''unsupported_evidence_severe_rule_id'') (\<lambda>rule.
     Inr (Source_grader \<lparr>sg_claims_pointer = pointer, sg_frozen_sources = rev frozen_sources,
       sg_required_sources = required_sources, sg_required_claim_sources = claims, sg_metric_id = metric_id,
       sg_unsupported_rule = rule\<rparr>)))))))"

definition builtin_grader :: "eval_env \<Rightarrow> grader_spec \<Rightarrow> string \<Rightarrow> scored_scenario \<Rightarrow> grader result" where
  "builtin_grader env spec metric_id scenario =
     (let config = gs_config spec;
          failure_rule = (\<lambda>rule. as_str (get_or config ''failure_rule_id'' (JStr rule))) in
      case gs_implementation spec of
        Impl_schema \<Rightarrow> bind_r (item config ''schema'') (\<lambda>schema. Inr (Schema_grader schema metric_id))
      | Impl_exact_field \<Rightarrow>
          bind_r (bind_r (item config ''expected'') as_dict) (\<lambda>expected. Inr (Exact_field_grader expected metric_id))
      | Impl_source_provenance \<Rightarrow> source_grader_of config metric_id scenario
      | Impl_forbidden_token \<Rightarrow>
          bind_r (bind_r (item config ''forbidden_tokens'') as_strings) (\<lambda>tokens.
          bind_r (as_optional_str config ''severe_rule_id'') (\<lambda>rule.
          Inr (Forbidden_grader tokens metric_id rule)))
      | Impl_state_oracle \<Rightarrow>
          bind_r (bind_r (item config ''state_key'') as_str) (\<lambda>key.
          bind_r (item config ''expected'') (\<lambda>expected.
          bind_r (failure_rule ''state-oracle-failed'') (\<lambda>rule.
          Inr (State_grader key expected metric_id rule))))
      | Impl_manipulation_fidelity \<Rightarrow>
          bind_r (bind_r (item config ''expected_assignments'') (as_mapping as_level)) (\<lambda>expected.
          bind_r (failure_rule ''manipulation-fidelity-failed'') (\<lambda>rule.
          Inr (Fidelity_grader expected metric_id rule)))
      | Impl_context_handoff_delivery \<Rightarrow>
          bind_r (bind_r (item config ''task'') as_str) (\<lambda>task.
          bind_r (item config ''packet'') (\<lambda>packet_json.
          bind_r (bind_r (item config ''renderer_digest'') as_str) (\<lambda>renderer_digest.
          bind_r (failure_rule ''context-policy-delivery-mismatch'') (\<lambda>rule.
          bind_r (bind_r (en_parse_packet env packet_json) (validate_packet (en_sha256 env))) (\<lambda>packet.
          Inr (Delivery_grader \<lparr>dg_task = task, dg_packet = packet, dg_renderer_digest = renderer_digest,
            dg_metric_id = metric_id, dg_failure_rule_id = rule\<rparr>))))))
      | Impl_installed_plugin \<Rightarrow> Inl (ValueError ''unsupported built-in grader implementation: installed_plugin''))"

definition resolve_scenario_of :: "study_pack \<Rightarrow> string + scored_scenario \<Rightarrow> scored_scenario result" where
  "resolve_scenario_of pack scenario =
     (let scenario_id = (case scenario of Inl i \<Rightarrow> i | Inr s \<Rightarrow> sc_scenario_id s) in
      case List.find (\<lambda>s. sc_scenario_id s = scenario_id) (sp_scenarios pack) of
        None \<Rightarrow> Inl (LookupError (''scenario is not declared by study pack: '' @ scenario_id))
      | Some candidate \<Rightarrow>
          bind_r (raise_if (case scenario of Inl _ \<Rightarrow> False | Inr s \<Rightarrow> candidate \<noteq> s)
            (ValueError ''provided ScenarioSpec does not match the frozen study pack scenario'')) (\<lambda>_.
          Inr candidate))"

type_synonym compile_state = "grader_binding list \<times> (grader_identity \<times> grader) list"

definition compile_metric ::
  "eval_env \<Rightarrow> study_pack \<Rightarrow> grader_registry \<Rightarrow> scored_scenario \<Rightarrow> deterministic_metric \<Rightarrow> compile_state \<Rightarrow> compile_state result" where
  "compile_metric env pack registry selected metric state =
     (case state of (bindings, builtins) \<Rightarrow>
      case map_of (rev (map (\<lambda>g. (gs_grader_id g, g)) (sp_graders pack))) (dm_oracle metric) of
        None \<Rightarrow>
          bind_r (raise_if (dm_weight metric \<le> 0)
            (ValueError (''deterministic metric '' @ dm_metric_id metric @ '' must have positive weight''))) (\<lambda>_.
          Inl (LookupError (''deterministic metric '' @ dm_metric_id metric @ '' references undeclared grader '' @ dm_oracle metric)))
      | Some spec \<Rightarrow>
          bind_r (raise_if (dm_weight metric \<le> 0 \<and> gs_implementation spec \<noteq> Impl_context_handoff_delivery)
            (ValueError (''deterministic metric '' @ dm_metric_id metric @ '' must have positive weight''))) (\<lambda>_.
          bind_r (raise_if (gs_kind spec \<noteq> Deterministic)
            (ValueError (''deterministic metric '' @ dm_metric_id metric @ '' references non-deterministic grader '' @ dm_oracle metric))) (\<lambda>_.
          bind_r (if gs_implementation spec = Impl_installed_plugin
            then bind_r (resolve registry (installation spec)) (\<lambda>g.
                 bind_r (raise_if (\<not> is_deterministic (tg_grader g))
                   (TypeError (''deterministic metric '' @ dm_metric_id metric @
                     '' does not resolve to a deterministic trusted grader''))) (\<lambda>_.
                 Inr builtins))
            else bind_r (builtin_grader env spec (dm_metric_id metric) selected) (\<lambda>g.
                 Inr (AList.update (identity_of (installation spec)) g builtins))) (\<lambda>builtins'.
          Inr (bindings @ [\<lparr>gb_metric_id = dm_metric_id metric, gb_weight = dm_weight metric, gb_kind = Deterministic,
            gb_installation = installation spec\<rparr>], builtins')))))"

definition compile_qualitative ::
  "grader_registry \<Rightarrow> grader_spec \<Rightarrow> grader_binding list \<Rightarrow> grader_binding list result" where
  "compile_qualitative registry spec bindings =
     (if gs_kind spec \<noteq> Qualitative then Inr bindings
      else
        bind_r (resolve registry (installation spec)) (\<lambda>_.
        case (gs_metric_id spec, gs_weight spec) of
          (Some metric_id, Some weight) \<Rightarrow>
            Inr (bindings @ [\<lparr>gb_metric_id = metric_id, gb_weight = weight, gb_kind = Qualitative,
              gb_installation = installation spec\<rparr>])
        | _ \<Rightarrow> Inl (ValueError ''GraderBinding'')))"

definition compile_grader_plan ::
  "eval_env \<Rightarrow> study_pack \<Rightarrow> string + scored_scenario \<Rightarrow> grader_registry \<Rightarrow> human_calibration_receipt option
    \<Rightarrow> grader_plan result" where
  "compile_grader_plan env pack scenario registry receipt =
     bind_r (resolve_scenario_of pack scenario) (\<lambda>selected.
     bind_r (for_each (compile_metric env pack registry selected) (sc_deterministic_metrics selected) ([], [])) (\<lambda>(bindings, builtins).
     bind_r (for_each (compile_qualitative registry) (sp_graders pack) bindings) (\<lambda>bindings'.
     bind_r (validate_plan (en_python env) bindings') (\<lambda>_.
     Inr \<lparr>gp_bindings = bindings', gp_receipt = receipt, gp_builtins = builtins\<rparr>))))"

section \<open>The engine\<close>

record evaluation_result =
  el_record :: evaluation_record
  el_results :: "grader_result list"
  el_hard_gate_passed :: bool
  el_qualitative_eligible :: bool
  el_exclusions :: "string list"

record engine_state =
  eg_results :: "grader_result list"
  eg_deterministic :: "(string \<times> rat) list"
  eg_passed :: "(string \<times> bool) list"
  eg_weighted :: rat
  eg_state_score :: "rat option"
  eg_severe :: "string list"
  eg_qualitative :: "(string \<times> rat) list"
  eg_exclusions :: "string list"
  eg_qualitative_complete :: bool

record attempt_evaluation =
  ae_episode_id :: string
  ae_output :: string
  ae_context :: evaluation_context
  ae_trace_hash :: string
  ae_evaluation_id :: string
  ae_cost_usd :: "rat option"
  ae_budget_limit_usd :: "rat option"
  ae_latency_seconds :: "rat option"
  ae_tool_calls :: int
  ae_qualitative_results :: "qualitative_result list"

definition qualitative_bound :: "human_calibration_receipt \<Rightarrow> grader_binding \<Rightarrow> qualitative_result \<Rightarrow> bool" where
  "qualitative_bound calibration binding observed \<longleftrightarrow>
     qr_evaluator_id observed = gi_grader_id (gb_installation binding) \<and>
     qr_evaluator_version observed = gi_version (gb_installation binding) \<and>
     qr_evaluator_digest observed = gi_digest (gb_installation binding) \<and>
     qr_calibration_receipt_id observed = hr_receipt_id calibration \<and>
     qr_calibration_batch_hash observed = hr_batch_hash calibration"

definition exclude :: "string \<Rightarrow> engine_state \<Rightarrow> engine_state" where
  "exclude reason s = s\<lparr>eg_qualitative_complete := False, eg_exclusions := eg_exclusions s @ [reason]\<rparr>"

definition qualitative_by_metric :: "attempt_evaluation \<Rightarrow> string \<Rightarrow> qualitative_result option" where
  "qualitative_by_metric a = map_of (map (\<lambda>r. (qr_metric_id r, r)) (ae_qualitative_results a))"

definition observe_qualitative :: "grader_plan \<Rightarrow> attempt_evaluation \<Rightarrow> grader_binding \<Rightarrow> engine_state \<Rightarrow> engine_state" where
  "observe_qualitative plan a binding s =
     (case qualitative_by_metric a (gb_metric_id binding) of
        None \<Rightarrow> exclude (''qualitative metric '' @ gb_metric_id binding @ '' has no explicit observed result'') s
      | Some observed \<Rightarrow>
          (case gp_receipt plan of
             None \<Rightarrow> exclude (''qualitative metric '' @ gb_metric_id binding @ '' has no bound HumanCalibrationReceipt'') s
           | Some calibration \<Rightarrow>
               if \<not> qualitative_bound calibration binding observed
               then exclude (''qualitative metric '' @ gb_metric_id binding @
                 '' does not bind to its plan installation and calibration receipt'') s
               else s\<lparr>eg_qualitative := AList.update (gb_metric_id binding) (qr_score observed) (eg_qualitative s)\<rparr>))"

definition plan_grader :: "grader_plan \<Rightarrow> grader_registry \<Rightarrow> grader_installation \<Rightarrow> grader result" where
  "plan_grader plan registry i =
     (case map_of (gp_builtins plan) (identity_of i) of
        Some g \<Rightarrow> Inr g
      | None \<Rightarrow> bind_r (resolve registry i) (\<lambda>g. Inr (tg_grader g)))"

definition missing_observed :: "grader \<Rightarrow> evaluation_context \<Rightarrow> bool" where
  "missing_observed g context =
     (case g of
        Fidelity_grader expected _ _ \<Rightarrow> \<not> set (map fst expected) \<subseteq> set (map fst (ev_factor_assignments context))
      | _ \<Rightarrow> False)"

definition grade ::
  "eval_env \<Rightarrow> grader_plan \<Rightarrow> grader_registry \<Rightarrow> attempt_evaluation \<Rightarrow> grader_binding \<Rightarrow> engine_state \<Rightarrow> engine_state result" where
  "grade env plan registry a binding s =
     bind_r (plan_grader plan registry (gb_installation binding)) (\<lambda>g.
     bind_r (raise_if (\<not> is_deterministic g)
       (TypeError ''HOLD: deterministic binding does not resolve to a deterministic trusted grader'')) (\<lambda>_.
     bind_r (raise_if (missing_observed g (ae_context a))
       (ValueError ''HOLD: manipulation fidelity requires trace-derived observed assignments'')) (\<lambda>_.
     bind_r (evaluate env g (ae_output a) (ae_context a)) (\<lambda>r.
     Inr (s\<lparr>eg_results := eg_results s @ [r],
            eg_deterministic := AList.update (gb_metric_id binding) (gr_score r) (eg_deterministic s),
            eg_passed := AList.update (gb_metric_id binding) (gr_passed r) (eg_passed s),
            eg_weighted := fadd (eg_weighted s) (fmul (gr_score r) (gb_weight binding)),
            eg_severe := eg_severe s @ gr_severe_failures r,
            eg_state_score := (case g of State_grader _ _ _ _ \<Rightarrow> Some (gr_score r) | _ \<Rightarrow> eg_state_score s)\<rparr>)))))"

definition evaluate_binding ::
  "eval_env \<Rightarrow> grader_plan \<Rightarrow> grader_registry \<Rightarrow> attempt_evaluation \<Rightarrow> grader_binding \<Rightarrow> engine_state \<Rightarrow> engine_state result" where
  "evaluate_binding env plan registry a binding s =
     (case gb_kind binding of
        Qualitative \<Rightarrow> Inr (observe_qualitative plan a binding s)
      | Deterministic \<Rightarrow> grade env plan registry a binding s)"

text \<open>Looking a value up in a dictionary hashes it; an object, or an array with one, has no hash.\<close>

fun unhashable :: "json \<Rightarrow> bool" where
  "unhashable (JObj _) = True"
| "unhashable (JArr xs) = list_ex unhashable xs"
| "unhashable _ = False"

definition severe_rule :: "string \<times> dict \<Rightarrow> engine_state \<Rightarrow> engine_state result" where
  "severe_rule entry s =
     (case entry of (rule_id, rule) \<Rightarrow>
      let metric_id = get_or rule ''metric_id'' JNull in
      if get_or rule ''when'' JNull \<noteq> JStr ''failed'' then Inr s
      else if unhashable metric_id then Inl (TypeError ''unhashable type'')
      else
        (case metric_id of
           JStr m \<Rightarrow>
             (case map_of (eg_passed s) m of
                Some False \<Rightarrow> Inr (s\<lparr>eg_severe := eg_severe s @ [rule_id]\<rparr>)
              | _ \<Rightarrow> Inr s)
         | _ \<Rightarrow> Inr s))"

definition qualitative_bindings :: "grader_plan \<Rightarrow> grader_binding list" where
  "qualitative_bindings plan = filter (\<lambda>b. gb_kind b = Qualitative) (gp_bindings plan)"

definition engine_init :: "grader_plan \<Rightarrow> engine_state" where
  "engine_init plan =
     \<lparr>eg_results = [], eg_deterministic = [], eg_passed = [], eg_weighted = 0, eg_state_score = None, eg_severe = [],
      eg_qualitative = [], eg_exclusions = [],
      eg_qualitative_complete = (qualitative_bindings plan \<noteq> [] \<and> gp_receipt plan \<noteq> None)\<rparr>"

definition mission_score :: "python_version \<Rightarrow> grader_plan \<Rightarrow> engine_state \<Rightarrow> rat" where
  "mission_score v plan s =
     (case eg_state_score s of
        Some score \<Rightarrow> score
      | None \<Rightarrow> fdiv (eg_weighted s) (deterministic_weight v (gp_bindings plan)))"

definition finish_evaluation ::
  "eval_env \<Rightarrow> grader_plan \<Rightarrow> attempt_evaluation \<Rightarrow> engine_state \<Rightarrow> evaluation_result result" where
  "finish_evaluation env plan a s =
     (let severe = sort (remdups (eg_severe s));
          hard_gate_passed = (severe = []);
          exclusions = (if qualitative_bindings plan \<noteq> [] \<and> \<not> eg_qualitative_complete s
            then eg_exclusions s @ [''qualitative judge metrics are ineligible until every metric has a bound observed result and HumanCalibrationReceipt'']
            else eg_exclusions s) in
     bind_r (new_outcome
       \<lparr>ov_episode_id = ae_episode_id a,
        ov_mission_success = (if hard_gate_passed then mission_score (en_python env) plan s else 0),
        ov_severe_failures = severe,
        ov_consistency = (if hard_gate_passed then 1 else 0),
        ov_cost_status = reconciled_cost_status (ae_cost_usd a) (ae_budget_limit_usd a),
        ov_cost_usd = ae_cost_usd a, ov_latency_seconds = ae_latency_seconds a, ov_tool_calls = ae_tool_calls a,
        ov_auditability = (if ae_trace_hash a = [] then 0 else 1),
        ov_deterministic = eg_deterministic s,
        ov_model_judged = (if eg_qualitative_complete s then eg_qualitative s else [])\<rparr>) (\<lambda>outcome.
     bind_r (new_record
       \<lparr>er_evaluation_id = ae_evaluation_id a, er_episode_id = ae_episode_id a, er_outcome = outcome,
        er_deterministic_weight = deterministic_weight (en_python env) (gp_bindings plan),
        er_evaluator_version = ''evaluation-v1'', er_trace_hash = ae_trace_hash a\<rparr>) (\<lambda>rec.
     Inr \<lparr>el_record = rec, el_results = eg_results s, el_hard_gate_passed = hard_gate_passed,
          el_qualitative_eligible = eg_qualitative_complete s, el_exclusions = exclusions\<rparr>)))"

definition evaluate_attempt ::
  "eval_env \<Rightarrow> grader_plan \<Rightarrow> grader_registry \<Rightarrow> attempt_evaluation \<Rightarrow> evaluation_result result" where
  "evaluate_attempt env plan registry a =
     bind_r (raise_if (\<not> distinct (map qr_metric_id (ae_qualitative_results a)))
       (ValueError ''qualitative results may contain each metric only once'')) (\<lambda>_.
     bind_r (raise_if (\<not> set (map qr_metric_id (ae_qualitative_results a)) \<subseteq> set (map gb_metric_id (qualitative_bindings plan)))
       (ValueError ''qualitative results are not declared in the plan'')) (\<lambda>_.
     bind_r (for_each (evaluate_binding env plan registry a) (gp_bindings plan) (engine_init plan)) (\<lambda>s.
     bind_r (for_each severe_rule (ev_severe_failure_rules (ae_context a)) s) (\<lambda>s'.
     finish_evaluation env plan a s'))))"

end
