(* ===== verification/Evaluation_Facts.thy ===== *)
theory Evaluation_Facts
  imports Evaluation_Engine
begin

text \<open>
  What an evaluation guarantees. The loop of the engine is split into its two halves, the graded metrics
  and the observed qualitative ones, which do not touch each other's fields; the outcome is compared with
  a declarative reference; and a compiled plan is shown to evaluate every well-formed attempt.
\<close>

section \<open>The two halves of the loop\<close>

definition graded ::
  "eval_env \<Rightarrow> grader_plan \<Rightarrow> grader_registry \<Rightarrow> attempt_evaluation \<Rightarrow> grader_binding \<Rightarrow> grader \<times> grader_result \<Rightarrow> bool" where
  "graded env plan registry a b gr \<longleftrightarrow> plan_grader plan registry (gb_installation b) = Inr (fst gr) \<and>
     is_deterministic (fst gr) \<and> \<not> missing_observed (fst gr) (ae_context a) \<and>
     evaluate env (fst gr) (ae_output a) (ae_context a) = Inr (snd gr)"

definition is_state_grader :: "grader \<Rightarrow> bool" where
  "is_state_grader g \<longleftrightarrow> (case g of State_grader _ _ _ _ \<Rightarrow> True | _ \<Rightarrow> False)"

definition add_grade :: "grader_binding \<times> grader \<times> grader_result \<Rightarrow> engine_state \<Rightarrow> engine_state" where
  "add_grade = (\<lambda>(b, g, r) s.
     s\<lparr>eg_results := eg_results s @ [r],
       eg_deterministic := AList.update (gb_metric_id b) (gr_score r) (eg_deterministic s),
       eg_passed := AList.update (gb_metric_id b) (gr_passed r) (eg_passed s),
       eg_weighted := fadd (eg_weighted s) (fmul (gr_score r) (gb_weight b)),
       eg_severe := eg_severe s @ gr_severe_failures r,
       eg_state_score := (if is_state_grader g then Some (gr_score r) else eg_state_score s)\<rparr>)"

lemma state_case: "(case g of State_grader _ _ _ _ \<Rightarrow> x | _ \<Rightarrow> y) = (if is_state_grader g then x else y)"
  by (cases g) (simp_all add: is_state_grader_def)

lemma add_grade_fields [simp]:
  "eg_results (add_grade (b, g, r) s) = eg_results s @ [r]"
  "eg_deterministic (add_grade (b, g, r) s) = AList.update (gb_metric_id b) (gr_score r) (eg_deterministic s)"
  "eg_passed (add_grade (b, g, r) s) = AList.update (gb_metric_id b) (gr_passed r) (eg_passed s)"
  "eg_weighted (add_grade (b, g, r) s) = fadd (eg_weighted s) (fmul (gr_score r) (gb_weight b))"
  "eg_severe (add_grade (b, g, r) s) = eg_severe s @ gr_severe_failures r"
  "eg_state_score (add_grade (b, g, r) s) = (if is_state_grader g then Some (gr_score r) else eg_state_score s)"
  by (simp_all add: add_grade_def)

lemma grade_iff:
  "grade env plan registry a b s = Inr s' \<longleftrightarrow>
     (\<exists>gr. graded env plan registry a b gr \<and> s' = add_grade (b, gr) s)"
  by (auto simp: grade_def graded_def add_grade_def state_case tx_simps)

definition graded_part :: "engine_state \<Rightarrow> engine_state" where
  "graded_part s = s\<lparr>eg_qualitative := [], eg_exclusions := [], eg_qualitative_complete := False\<rparr>"

definition observed_part :: "engine_state \<Rightarrow> engine_state" where
  "observed_part s = s\<lparr>eg_results := [], eg_deterministic := [], eg_passed := [], eg_weighted := 0,
     eg_state_score := None, eg_severe := []\<rparr>"

lemma graded_part_frame [simp]:
  "graded_part (observe_qualitative plan a b s) = graded_part s"
  "graded_part (add_grade x s) = add_grade x (graded_part s)"
  by (auto simp: graded_part_def observe_qualitative_def exclude_def add_grade_def split: option.splits prod.splits)

lemma observed_part_frame [simp]:
  "observed_part (observe_qualitative plan a b s) = observe_qualitative plan a b (observed_part s)"
  "observed_part (add_grade x s) = observed_part s"
  by (auto simp: observed_part_def observe_qualitative_def exclude_def add_grade_def split: option.splits prod.splits)

abbreviation deterministic_bindings :: "grader_binding list \<Rightarrow> grader_binding list" where
  "deterministic_bindings \<equiv> filter (\<lambda>b. gb_kind b = Deterministic)"

lemma engine_loop_graded:
  assumes "for_each (evaluate_binding env plan registry a) bs s = Inr s'"
  shows "\<exists>grs. list_all2 (graded env plan registry a) (deterministic_bindings bs) grs \<and>
    graded_part s' = fold add_grade (zip (deterministic_bindings bs) grs) (graded_part s)"
  using assms
proof (induction bs arbitrary: s)
  case Nil
  then show ?case by simp
next
  case (Cons b bs)
  from Cons.prems obtain t where t: "evaluate_binding env plan registry a b s = Inr t"
      "for_each (evaluate_binding env plan registry a) bs t = Inr s'"
    by (auto simp: tx_simps)
  from Cons.IH [OF t(2)] obtain grs where
    grs: "list_all2 (graded env plan registry a) (deterministic_bindings bs) grs"
      "graded_part s' = fold add_grade (zip (deterministic_bindings bs) grs) (graded_part t)"
    by blast
  show ?case
  proof (cases "gb_kind b")
    case Deterministic
    with t(1) obtain gr where gr: "graded env plan registry a b gr" "t = add_grade (b, gr) s"
      by (auto simp: evaluate_binding_def grade_iff)
    with grs Deterministic show ?thesis
      by (intro exI [of _ "gr # grs"]) simp
  next
    case Qualitative
    with t(1) grs show ?thesis
      by (intro exI [of _ grs]) (auto simp: evaluate_binding_def)
  qed
qed

lemma engine_loop_observed:
  assumes "for_each (evaluate_binding env plan registry a) bs s = Inr s'"
  shows "observed_part s' =
    fold (observe_qualitative plan a) (filter (\<lambda>b. gb_kind b = Qualitative) bs) (observed_part s)"
  using assms
proof (induction bs arbitrary: s)
  case Nil
  then show ?case by simp
next
  case (Cons b bs)
  from Cons.prems obtain t where t: "evaluate_binding env plan registry a b s = Inr t"
      "for_each (evaluate_binding env plan registry a) bs t = Inr s'"
    by (auto simp: tx_simps)
  with Cons.IH [OF t(2)] show ?case
    by (cases "gb_kind b") (auto simp: evaluate_binding_def grade_iff)
qed

text \<open>Conversely the loop ends when every deterministic metric can be graded.\<close>

lemma engine_loop_total:
  assumes "\<forall>b \<in> set (deterministic_bindings bs). \<exists>gr. graded env plan registry a b gr"
  shows "\<exists>s'. for_each (evaluate_binding env plan registry a) bs s = Inr s'"
  using assms
proof (induction bs arbitrary: s)
  case Nil
  then show ?case by simp
next
  case (Cons b bs)
  have "\<exists>t. evaluate_binding env plan registry a b s = Inr t"
    using Cons.prems by (cases "gb_kind b") (auto simp: evaluate_binding_def grade_iff)
  with Cons.IH Cons.prems show ?case by (auto split: if_splits)
qed

section \<open>The fields after the loop\<close>

lemma update_fresh: "k \<notin> fst ` set xs \<Longrightarrow> AList.update k v xs = xs @ [(k, v)]"
  by (induction xs) auto

lemma fold_add_grade:
  "eg_results (fold add_grade xs s) = eg_results s @ map (snd \<circ> snd) xs"
  "eg_severe (fold add_grade xs s) = eg_severe s @ concat (map (gr_severe_failures \<circ> snd \<circ> snd) xs)"
  "eg_weighted (fold add_grade xs s) =
     foldl (\<lambda>t (q, w). fadd t (fmul q w)) (eg_weighted s) (map (\<lambda>(b, g, r). (gr_score r, gb_weight b)) xs)"
  by (induction xs arbitrary: s) auto

lemma fold_add_grade_state:
  "eg_state_score (fold add_grade xs s) =
     (case filter (\<lambda>(b, g, r). is_state_grader g) xs of
        [] \<Rightarrow> eg_state_score s | ys \<Rightarrow> Some (gr_score (snd (snd (last ys)))))"
proof (induction xs arbitrary: s)
  case Nil
  then show ?case by simp
next
  case (Cons x xs)
  obtain b g r where x: "x = (b, g, r)" by (metis prod.exhaust)
  show ?case
    by (cases "filter (\<lambda>(b, g, r). is_state_grader g) xs") (simp_all add: Cons.IH x)
qed

lemma fold_add_grade_maps:
  assumes "distinct (map (gb_metric_id \<circ> fst) xs)"
    and "fst ` set (eg_deterministic s) \<inter> set (map (gb_metric_id \<circ> fst) xs) = {}"
    and "map fst (eg_passed s) = map fst (eg_deterministic s)"
  shows "eg_deterministic (fold add_grade xs s) =
      eg_deterministic s @ map (\<lambda>(b, g, r). (gb_metric_id b, gr_score r)) xs \<and>
    eg_passed (fold add_grade xs s) = eg_passed s @ map (\<lambda>(b, g, r). (gb_metric_id b, gr_passed r)) xs"
  using assms
proof (induction xs arbitrary: s)
  case Nil
  then show ?case by simp
next
  case (Cons x xs)
  obtain b g r where x: "x = (b, g, r)" by (metis prod.exhaust)
  define t where "t = add_grade x s"
  have fresh: "gb_metric_id b \<notin> fst ` set (eg_deterministic s)" "gb_metric_id b \<notin> fst ` set (eg_passed s)"
    using Cons.prems(2,3) by (auto simp: x) (metis image_eqI fst_conv list.set_map)
  then have t: "eg_deterministic t = eg_deterministic s @ [(gb_metric_id b, gr_score r)]"
      "eg_passed t = eg_passed s @ [(gb_metric_id b, gr_passed r)]"
    by (simp_all add: t_def x update_fresh)
  have "eg_deterministic (fold add_grade xs t) =
      eg_deterministic t @ map (\<lambda>(b, g, r). (gb_metric_id b, gr_score r)) xs \<and>
    eg_passed (fold add_grade xs t) = eg_passed t @ map (\<lambda>(b, g, r). (gb_metric_id b, gr_passed r)) xs"
    using Cons.prems by (intro Cons.IH) (auto simp: t x)
  then show ?case by (simp add: t t_def [symmetric]) (simp add: x)
qed

text \<open>The severe-failure rules that fire: the metric they name was graded and failed.\<close>

definition rule_fires :: "(string \<times> bool) list \<Rightarrow> string \<times> dict \<Rightarrow> bool" where
  "rule_fires passed rule \<longleftrightarrow> get_or (snd rule) ''when'' JNull = JStr ''failed'' \<and>
     (\<exists>m. get_or (snd rule) ''metric_id'' JNull = JStr m \<and> map_of passed m = Some False)"

definition fired :: "(string \<times> bool) list \<Rightarrow> (string \<times> dict) list \<Rightarrow> string list" where
  "fired passed rules = map fst (filter (rule_fires passed) rules)"

lemma severe_rule_Inr:
  assumes "severe_rule rule s = Inr s'"
  shows "s' = s\<lparr>eg_severe := eg_severe s @ fired (eg_passed s) [rule]\<rparr>"
  using assms
  by (auto simp: severe_rule_def fired_def rule_fires_def Let_def
      split: prod.splits if_splits json.splits option.splits bool.splits)

lemma severe_rules_Inr:
  assumes "for_each severe_rule rules s = Inr s'"
  shows "s' = s\<lparr>eg_severe := eg_severe s @ fired (eg_passed s) rules\<rparr>"
  using assms
proof (induction rules arbitrary: s)
  case Nil
  then show ?case by (simp add: fired_def)
next
  case (Cons rule rules)
  from Cons.prems obtain t where t: "severe_rule rule s = Inr t" "for_each severe_rule rules t = Inr s'"
    by (auto simp: tx_simps)
  show ?case
    using Cons.IH [OF t(2)] severe_rule_Inr [OF t(1)] by (simp add: fired_def)
qed

lemma severe_rules_total:
  assumes "\<forall>rule \<in> set rules. \<not> unhashable (get_or (snd rule) ''metric_id'' JNull)"
  shows "\<exists>s'. for_each severe_rule rules s = Inr s'"
  using assms
proof (induction rules arbitrary: s)
  case Nil
  then show ?case by simp
next
  case (Cons rule rules)
  have "\<exists>t. severe_rule rule s = Inr t"
    using Cons.prems by (auto simp: severe_rule_def Let_def split: prod.splits json.splits option.splits bool.splits)
  with Cons.IH Cons.prems show ?case by auto
qed

text \<open>A qualitative metric is observed when a result for it is bound to the plan and its calibration.\<close>

definition observed_score :: "grader_plan \<Rightarrow> attempt_evaluation \<Rightarrow> grader_binding \<Rightarrow> rat option" where
  "observed_score plan a b =
     (case (qualitative_by_metric a (gb_metric_id b), gp_receipt plan) of
        (Some observed, Some calibration) \<Rightarrow>
          if qualitative_bound calibration b observed then Some (qr_score observed) else None
      | _ \<Rightarrow> None)"

lemma observe_qualitative_fields:
  "eg_qualitative_complete (observe_qualitative plan a b s) \<longleftrightarrow>
     eg_qualitative_complete s \<and> observed_score plan a b \<noteq> None"
  "observed_score plan a b = Some q \<Longrightarrow>
     eg_qualitative (observe_qualitative plan a b s) = AList.update (gb_metric_id b) q (eg_qualitative s)"
  by (auto simp: observe_qualitative_def observed_score_def exclude_def split: option.splits if_splits)

lemma fold_observe_complete:
  "eg_qualitative_complete (fold (observe_qualitative plan a) bs s) \<longleftrightarrow>
     eg_qualitative_complete s \<and> (\<forall>b \<in> set bs. observed_score plan a b \<noteq> None)"
  by (induction bs arbitrary: s) (auto simp: observe_qualitative_fields)

lemma fold_observe_scores:
  assumes "\<forall>b \<in> set bs. observed_score plan a b \<noteq> None" and "distinct (map gb_metric_id bs)"
    and "fst ` set (eg_qualitative s) \<inter> set (map gb_metric_id bs) = {}"
  shows "eg_qualitative (fold (observe_qualitative plan a) bs s) =
    eg_qualitative s @ map (\<lambda>b. (gb_metric_id b, the (observed_score plan a b))) bs"
  using assms
proof (induction bs arbitrary: s)
  case Nil
  then show ?case by simp
next
  case (Cons b bs)
  then obtain q where q: "observed_score plan a b = Some q" by auto
  define t where "t = observe_qualitative plan a b s"
  have t: "eg_qualitative t = eg_qualitative s @ [(gb_metric_id b, q)]"
    using Cons.prems(3) by (simp add: t_def observe_qualitative_fields(2) [OF q] update_fresh)
  have "eg_qualitative (fold (observe_qualitative plan a) bs t) =
      eg_qualitative t @ map (\<lambda>b. (gb_metric_id b, the (observed_score plan a b))) bs"
    using Cons.prems by (intro Cons.IH) (auto simp: t)
  then show ?case by (simp add: t q flip: t_def)
qed

section \<open>The outcome\<close>

text \<open>The reference: what an outcome is, as a function of the grades of the plan's deterministic metrics.\<close>

definition all_severe :: "attempt_evaluation \<Rightarrow> (grader_binding \<times> grader \<times> grader_result) list \<Rightarrow> string list" where
  "all_severe a grades =
     concat (map (gr_severe_failures \<circ> snd \<circ> snd) grades) @
     fired (map (\<lambda>(b, g, r). (gb_metric_id b, gr_passed r)) grades) (ev_severe_failure_rules (ae_context a))"

definition reference_mission :: "python_version \<Rightarrow> grader_plan \<Rightarrow> (grader_binding \<times> grader \<times> grader_result) list \<Rightarrow> rat" where
  "reference_mission v plan grades =
     (case filter (\<lambda>(b, g, r). is_state_grader g) grades of
        [] \<Rightarrow> fdiv (foldl (\<lambda>t (q, w). fadd t (fmul q w)) 0 (map (\<lambda>(b, g, r). (gr_score r, gb_weight b)) grades))
               (deterministic_weight v (gp_bindings plan))
      | ys \<Rightarrow> gr_score (snd (snd (last ys))))"

definition reference_judged :: "grader_plan \<Rightarrow> attempt_evaluation \<Rightarrow> (string \<times> rat) list" where
  "reference_judged plan a =
     (if \<forall>b \<in> set (qualitative_bindings plan). observed_score plan a b \<noteq> None
      then map (\<lambda>b. (gb_metric_id b, the (observed_score plan a b))) (qualitative_bindings plan) else [])"

lemma engine_state_after:
  assumes "distinct (map gb_metric_id (gp_bindings plan))"
    and "for_each (evaluate_binding env plan registry a) (gp_bindings plan) (engine_init plan) = Inr s"
    and "for_each severe_rule (ev_severe_failure_rules (ae_context a)) s = Inr s'"
  obtains grs where "list_all2 (graded env plan registry a) (deterministic_bindings (gp_bindings plan)) grs"
    and "eg_results s' = map snd grs"
    and "eg_severe s' = all_severe a (zip (deterministic_bindings (gp_bindings plan)) grs)"
    and "mission_score v plan s' = reference_mission v plan (zip (deterministic_bindings (gp_bindings plan)) grs)"
    and "eg_deterministic s' = zip (map gb_metric_id (deterministic_bindings (gp_bindings plan))) (map (gr_score \<circ> snd) grs)"
    and "(if eg_qualitative_complete s' then eg_qualitative s' else []) = reference_judged plan a"
    and "eg_qualitative_complete s' \<longleftrightarrow> reference_judged plan a \<noteq> []"
proof -
  let ?dets = "deterministic_bindings (gp_bindings plan)"
  from engine_loop_graded [OF assms(2)] obtain grs where
    grs: "list_all2 (graded env plan registry a) ?dets grs"
      and gp: "graded_part s = fold add_grade (zip ?dets grs) (graded_part (engine_init plan))"
    by blast
  have len: "length grs = length ?dets" using grs by (simp add: list_all2_lengthD)
  have s': "s' = s\<lparr>eg_severe := eg_severe s @ fired (eg_passed s) (ev_severe_failure_rules (ae_context a))\<rparr>"
    by (rule severe_rules_Inr [OF assms(3)])
  have sel: "eg_results s = eg_results (graded_part s)" "eg_severe s = eg_severe (graded_part s)"
    "eg_weighted s = eg_weighted (graded_part s)" "eg_state_score s = eg_state_score (graded_part s)"
    "eg_deterministic s = eg_deterministic (graded_part s)" "eg_passed s = eg_passed (graded_part s)"
    "eg_qualitative s = eg_qualitative (observed_part s)"
    "eg_qualitative_complete s = eg_qualitative_complete (observed_part s)"
    by (simp_all add: graded_part_def observed_part_def)
  have init: "eg_results (graded_part (engine_init plan)) = []" "eg_severe (graded_part (engine_init plan)) = []"
    "eg_weighted (graded_part (engine_init plan)) = 0" "eg_state_score (graded_part (engine_init plan)) = None"
    "eg_deterministic (graded_part (engine_init plan)) = []" "eg_passed (graded_part (engine_init plan)) = []"
    "eg_qualitative (observed_part (engine_init plan)) = []"
    "eg_qualitative_complete (observed_part (engine_init plan)) \<longleftrightarrow> qualitative_bindings plan \<noteq> [] \<and> gp_receipt plan \<noteq> None"
    by (simp_all add: graded_part_def observed_part_def engine_init_def)
  have "map (gb_metric_id \<circ> fst) (zip ?dets grs) = map gb_metric_id ?dets"
    using len by (simp flip: map_map)
  moreover have "distinct (map gb_metric_id ?dets)" "distinct (map gb_metric_id (qualitative_bindings plan))"
    using assms(1) by (simp_all add: distinct_map_filter qualitative_bindings_def)
  ultimately have maps: "eg_deterministic s = map (\<lambda>(b, g, r). (gb_metric_id b, gr_score r)) (zip ?dets grs)"
      "eg_passed s = map (\<lambda>(b, g, r). (gb_metric_id b, gr_passed r)) (zip ?dets grs)"
    using fold_add_grade_maps [of "zip ?dets grs" "graded_part (engine_init plan)"] by (simp_all add: sel gp init)
  have zips: "map (\<lambda>(b, g, r). (gb_metric_id b, gr_score r)) (zip ?dets grs) =
      zip (map gb_metric_id ?dets) (map (gr_score \<circ> snd) grs)"
    using len by (simp add: zip_map1 zip_map2 comp_def case_prod_beta)
  have obs: "observed_part s = fold (observe_qualitative plan a) (qualitative_bindings plan) (observed_part (engine_init plan))"
    using engine_loop_observed [OF assms(2)] by (simp add: qualitative_bindings_def)
  have receipt: "gp_receipt plan \<noteq> None" if "qualitative_bindings plan \<noteq> []"
      "\<forall>b \<in> set (qualitative_bindings plan). observed_score plan a b \<noteq> None"
    using that by (cases "qualitative_bindings plan") (auto simp: observed_score_def split: option.splits)
  have complete: "eg_qualitative_complete s \<longleftrightarrow> reference_judged plan a \<noteq> []"
    using receipt by (auto simp: sel obs fold_observe_complete init reference_judged_def)
  have scores: "eg_qualitative s = reference_judged plan a" if "eg_qualitative_complete s"
    using that fold_observe_scores [of "qualitative_bindings plan" plan a "observed_part (engine_init plan)"]
      \<open>distinct (map gb_metric_id (qualitative_bindings plan))\<close>
    by (simp add: sel obs fold_observe_complete init reference_judged_def)
  show thesis
  proof (rule that [OF grs])
    show "eg_results s' = map snd grs"
      using len by (simp add: s' sel gp init fold_add_grade flip: map_map)
    show "eg_severe s' = all_severe a (zip ?dets grs)"
      by (simp add: s' maps(2) all_severe_def) (simp add: sel gp init fold_add_grade)
    show "mission_score v plan s' = reference_mission v plan (zip ?dets grs)"
      by (simp add: s' mission_score_def reference_mission_def)
        (simp add: sel gp init fold_add_grade fold_add_grade_state split: list.split)
    show "eg_deterministic s' = zip (map gb_metric_id ?dets) (map (gr_score \<circ> snd) grs)"
      by (simp add: s' maps(1) zips)
    show "(if eg_qualitative_complete s' then eg_qualitative s' else []) = reference_judged plan a"
      using complete scores by (auto simp: s')
    show "eg_qualitative_complete s' \<longleftrightarrow> reference_judged plan a \<noteq> []"
      using complete by (simp add: s')
  qed
qed

lemma validate_plan_Inr_iff:
  "validate_plan v bs = Inr () \<longleftrightarrow> bs \<noteq> [] \<and> distinct (map gb_metric_id bs) \<and>
     \<bar>fsub (py_sum v (map gb_weight bs)) 1\<bar> \<le> fl (1 / 10 ^ 9) \<and>
     fsub (fl (7 / 10)) (fl (1 / 10 ^ 9)) \<le> deterministic_weight v bs"
  by (auto simp: validate_plan_def)

lemma evaluate_attempt_Inr:
  assumes "evaluate_attempt env plan registry a = Inr res"
  obtains s s' where "for_each (evaluate_binding env plan registry a) (gp_bindings plan) (engine_init plan) = Inr s"
    and "for_each severe_rule (ev_severe_failure_rules (ae_context a)) s = Inr s'"
    and "finish_evaluation env plan a s' = Inr res"
  using assms by (auto simp: evaluate_attempt_def tx_simps)

lemma sort_remdups_Nil [simp]: "sort (remdups xs) = [] \<longleftrightarrow> xs = []"
  by (metis remdups_eq_nil_iff set_empty set_sort)

lemma finish_evaluation_Inr:
  assumes "finish_evaluation env plan a s = Inr res"
  shows "outcome_ok (er_outcome (el_record res)) \<and> record_ok (el_record res) \<and> el_results res = eg_results s \<and>
    el_hard_gate_passed res = (eg_severe s = []) \<and> el_qualitative_eligible res = eg_qualitative_complete s \<and>
    ov_severe_failures (er_outcome (el_record res)) = sort (remdups (eg_severe s)) \<and>
    ov_mission_success (er_outcome (el_record res)) =
      (if eg_severe s = [] then mission_score (en_python env) plan s else 0) \<and>
    ov_consistency (er_outcome (el_record res)) = (if eg_severe s = [] then 1 else 0) \<and>
    ov_deterministic (er_outcome (el_record res)) = eg_deterministic s \<and>
    ov_model_judged (er_outcome (el_record res)) = (if eg_qualitative_complete s then eg_qualitative s else [])"
  using assms
  by (auto simp: finish_evaluation_def new_outcome_def new_record_def tx_simps Let_def split del: if_split)

text \<open>
  C8: An evaluation that returns is the one its plan describes: there is one grade per deterministic
  metric of the plan, in its order, each the result of the grader the metric is bound to. Any severe
  failure, of a grader or of a rule on a failed metric, closes the gate: mission success and consistency
  are then zero, and the failures are listed once each, in order. Otherwise mission success is the score
  of the state oracle, if the plan has one, and else the weighted scores over the deterministic weight.
  Qualitative scores are published only when every declared qualitative metric has a result bound to
  its installation and to the calibration receipt, and never enter mission success.
\<close>

theorem evaluation_outcome_exact:
  assumes "validate_plan (en_python env) (gp_bindings plan) = Inr ()"
    and "evaluate_attempt env plan registry a = Inr res"
  shows "\<exists>grs. list_all2 (graded env plan registry a) (deterministic_bindings (gp_bindings plan)) grs \<and>
    el_results res = map snd grs \<and>
    (let grades = zip (deterministic_bindings (gp_bindings plan)) grs; severe = all_severe a grades;
         outcome = er_outcome (el_record res) in
     el_hard_gate_passed res = (severe = []) \<and>
     ov_severe_failures outcome = sort (remdups severe) \<and>
     ov_mission_success outcome = (if severe = [] then reference_mission (en_python env) plan grades else 0) \<and>
     ov_consistency outcome = (if severe = [] then 1 else 0) \<and>
     ov_deterministic outcome = zip (map gb_metric_id (deterministic_bindings (gp_bindings plan))) (map (gr_score \<circ> snd) grs) \<and>
     ov_model_judged outcome = reference_judged plan a \<and>
     el_qualitative_eligible res = (reference_judged plan a \<noteq> []))"
proof -
  from assms(2) obtain s s' where
    s: "for_each (evaluate_binding env plan registry a) (gp_bindings plan) (engine_init plan) = Inr s"
      "for_each severe_rule (ev_severe_failure_rules (ae_context a)) s = Inr s'"
      "finish_evaluation env plan a s' = Inr res"
    by (rule evaluate_attempt_Inr)
  have d: "distinct (map gb_metric_id (gp_bindings plan))"
    using assms(1) by (simp add: validate_plan_Inr_iff)
  show ?thesis
  proof (rule engine_state_after [OF d s(1,2), of "en_python env"])
    fix grs
    assume grs: "list_all2 (graded env plan registry a) (deterministic_bindings (gp_bindings plan)) grs"
      and facts: "eg_results s' = map snd grs"
      "eg_severe s' = all_severe a (zip (deterministic_bindings (gp_bindings plan)) grs)"
      "mission_score (en_python env) plan s' = reference_mission (en_python env) plan (zip (deterministic_bindings (gp_bindings plan)) grs)"
      "eg_deterministic s' = zip (map gb_metric_id (deterministic_bindings (gp_bindings plan))) (map (gr_score \<circ> snd) grs)"
      "(if eg_qualitative_complete s' then eg_qualitative s' else []) = reference_judged plan a"
      "eg_qualitative_complete s' \<longleftrightarrow> reference_judged plan a \<noteq> []"
    show ?thesis
      using finish_evaluation_Inr [OF s(3)] grs by (intro exI [of _ grs]) (simp only: facts(1-5) Let_def, simp add: facts(6))
  qed
qed

lemma graded_unique:
  assumes "graded env plan registry a b gr" and "graded env plan registry a b gr'"
  shows "gr = gr'"
  using assms by (auto simp: graded_def prod_eq_iff)

lemma graded_all_unique:
  assumes "list_all2 (graded env plan registry a) bs grs" and "list_all2 (graded env plan registry a) bs grs'"
  shows "grs = grs'"
proof (rule nth_equalityI)
  show "length grs = length grs'"
    using assms by (metis list_all2_lengthD)
  show "grs ! i = grs' ! i" if "i < length grs" for i
    using assms that by (metis graded_unique list_all2_conv_all_nth)
qed

text \<open>
  C10: What judges report never moves the deterministic outcome: two evaluations of the same output and
  context under the same bindings and graders, with whatever qualitative results and calibration
  receipts, agree on every grade, on the severe failures, on the gate, on mission success and on
  consistency.
\<close>

theorem judges_never_move_mission:
  assumes "validate_plan (en_python env) (gp_bindings plan) = Inr ()"
    and "evaluate_attempt env plan registry a = Inr res"
    and "evaluate_attempt env (plan\<lparr>gp_receipt := receipt\<rparr>) registry (a\<lparr>ae_qualitative_results := judged\<rparr>) = Inr res'"
  shows "el_results res' = el_results res \<and> el_hard_gate_passed res' = el_hard_gate_passed res \<and>
    (let outcome = er_outcome (el_record res); outcome' = er_outcome (el_record res') in
     ov_mission_success outcome' = ov_mission_success outcome \<and> ov_consistency outcome' = ov_consistency outcome \<and>
     ov_severe_failures outcome' = ov_severe_failures outcome \<and> ov_deterministic outcome' = ov_deterministic outcome)"
proof -
  let ?plan = "plan\<lparr>gp_receipt := receipt\<rparr>" and ?a = "a\<lparr>ae_qualitative_results := judged\<rparr>"
  have same: "graded env ?plan registry ?a = graded env plan registry a"
    by (simp add: fun_eq_iff graded_def plan_grader_def)
  have severe: "all_severe ?a = all_severe a"
    by (simp add: fun_eq_iff all_severe_def)
  have mission: "reference_mission v ?plan = reference_mission v plan" for v
    by (simp add: fun_eq_iff reference_mission_def split: list.split)
  have d: "distinct (map gb_metric_id (gp_bindings plan))" "distinct (map gb_metric_id (gp_bindings ?plan))"
    using assms(1) by (simp_all add: validate_plan_Inr_iff)
  from assms(2) obtain s s' where
    s: "for_each (evaluate_binding env plan registry a) (gp_bindings plan) (engine_init plan) = Inr s"
      "for_each severe_rule (ev_severe_failure_rules (ae_context a)) s = Inr s'"
      "finish_evaluation env plan a s' = Inr res"
    by (rule evaluate_attempt_Inr)
  from assms(3) obtain t t' where
    t: "for_each (evaluate_binding env ?plan registry ?a) (gp_bindings ?plan) (engine_init ?plan) = Inr t"
      "for_each severe_rule (ev_severe_failure_rules (ae_context ?a)) t = Inr t'"
      "finish_evaluation env ?plan ?a t' = Inr res'"
    by (rule evaluate_attempt_Inr)
  obtain grs where grs: "list_all2 (graded env plan registry a) (deterministic_bindings (gp_bindings plan)) grs"
    and r: "eg_results s' = map snd grs" "eg_severe s' = all_severe a (zip (deterministic_bindings (gp_bindings plan)) grs)"
      "mission_score (en_python env) plan s' = reference_mission (en_python env) plan (zip (deterministic_bindings (gp_bindings plan)) grs)"
      "eg_deterministic s' = zip (map gb_metric_id (deterministic_bindings (gp_bindings plan))) (map (gr_score \<circ> snd) grs)"
    using engine_state_after [OF d(1) s(1,2)] by metis
  obtain hrs where hrs: "list_all2 (graded env plan registry a) (deterministic_bindings (gp_bindings plan)) hrs"
    and r': "eg_results t' = map snd hrs" "eg_severe t' = all_severe a (zip (deterministic_bindings (gp_bindings plan)) hrs)"
      "mission_score (en_python env) ?plan t' = reference_mission (en_python env) plan (zip (deterministic_bindings (gp_bindings plan)) hrs)"
      "eg_deterministic t' = zip (map gb_metric_id (deterministic_bindings (gp_bindings plan))) (map (gr_score \<circ> snd) hrs)"
    using engine_state_after [OF d(2) t(1,2), unfolded same severe mission] by auto
  have "hrs = grs" by (rule graded_all_unique [OF hrs grs])
  with finish_evaluation_Inr [OF s(3)] finish_evaluation_Inr [OF t(3)] show ?thesis
    by (simp add: r r' Let_def)
qed

end
