(* ===== verification/Evaluation_Progress.thy ===== *)
theory Evaluation_Progress
  imports Evaluation_Facts
begin

text \<open>
  Evaluations that return: a validated declaration always becomes a grader, a compiled plan finds a
  deterministic grader for every deterministic metric, and a well-formed attempt is evaluated, unless
  rounding takes the score or the weight out of its range. The last section shows that it can.
\<close>

section \<open>Graders never raise\<close>

definition rules_of :: "grader \<Rightarrow> string list" where
  "rules_of g =
     (case g of
        Delivery_grader d \<Rightarrow> [dg_failure_rule_id d]
      | Source_grader d \<Rightarrow> (case sg_unsupported_rule d of None \<Rightarrow> [] | Some r \<Rightarrow> [r])
      | Forbidden_grader _ _ rule \<Rightarrow> (case rule of None \<Rightarrow> [] | Some r \<Rightarrow> [r])
      | State_grader _ _ _ rule \<Rightarrow> [rule]
      | Fidelity_grader _ _ rule \<Rightarrow> [rule]
      | _ \<Rightarrow> [])"

text \<open>
  What a grader needs to return a result: a metric, rules that are identifiers, a schema on which
  \<open>jsonschema.validate\<close> raises only its two documented errors, a packet that passed validation, a pointer
  without the superscript digits that \<open>int\<close> refuses; a plugin is expected to return a result of its own.
\<close>

definition plugin_returns :: "(string \<Rightarrow> evaluation_context \<Rightarrow> grader_result result) \<Rightarrow> bool" where
  "plugin_returns f \<longleftrightarrow> (\<forall>output context. \<exists>r. f output context = Inr r \<and> unit_score (gr_score r) \<and>
     list_all is_identifier (gr_severe_failures r))"

definition grader_ready :: "eval_env \<Rightarrow> grader \<Rightarrow> bool" where
  "grader_ready env g \<longleftrightarrow> list_all is_identifier (rules_of g) \<and>
     (case g of
        Schema_grader schema m \<Rightarrow> m \<noteq> [] \<and> (\<forall>v e. en_schema env v schema \<noteq> Schema_raised e)
      | Exact_field_grader _ m \<Rightarrow> m \<noteq> []
      | Delivery_grader d \<Rightarrow> dg_metric_id d \<noteq> [] \<and> validate_packet (en_sha256 env) (dg_packet d) = Inr (dg_packet d)
      | Source_grader d \<Rightarrow> sg_metric_id d \<noteq> [] \<and> \<not> list_ex superscript (sg_claims_pointer d)
      | Forbidden_grader _ m _ \<Rightarrow> m \<noteq> []
      | State_grader _ _ m _ \<Rightarrow> m \<noteq> []
      | Fidelity_grader _ m _ \<Rightarrow> m \<noteq> []
      | Plugin_grader f \<Rightarrow> plugin_returns f
      | Qualitative_grader \<Rightarrow> False)"

text \<open>
  What the engine relies on of the parsers: a receipt is refused with an error that the grader catches, and
  \<open>json.loads\<close> raises nothing but \<open>JSONDecodeError\<close>.
\<close>

definition receipts_parse :: "eval_env \<Rightarrow> bool" where
  "receipts_parse env \<longleftrightarrow> (\<forall>j e. en_parse_receipt env j = Inl e \<longrightarrow> caught e)"

definition parsers_ok :: "eval_env \<Rightarrow> bool" where
  "parsers_ok env \<longleftrightarrow> receipts_parse env \<and> only_decode_errors (en_loads env)"

lemma parse_output_total: "parsers_ok env \<Longrightarrow> \<exists>v. parse_output env out = Inr v"
  using parse_json_lenient_total [of "en_loads env" out]
  by (auto simp: parse_output_def parsers_ok_def bind_r_eq_Inr_iff)

definition good_result :: "grader_result \<Rightarrow> bool" where
  "good_result r \<longleftrightarrow> unit_score (gr_score r) \<and> list_all is_identifier (gr_severe_failures r)"

lemma new_result_good:
  assumes "m \<noteq> []" and "unit_score q" and "list_all is_identifier severe"
  shows "\<exists>r. new_result m q p notes severe = Inr r \<and> good_result r"
  using assms by (auto simp: new_result_def unit_score_def good_result_def)

lemma split_on_chars: "t \<in> set (split_on c s) \<Longrightarrow> set t \<subseteq> set s"
proof (induction s arbitrary: t)
  case Nil
  then show ?case by simp
next
  case (Cons d s)
  show ?case
  proof (cases "split_on c s")
    case Nil
    then show ?thesis using Cons.prems by (auto split: if_splits)
  next
    case (Cons p ps)
    then have "set p \<subseteq> set s" "q \<in> set ps \<Longrightarrow> set q \<subseteq> set s" for q
      using Cons.IH by simp_all
    then show ?thesis using Cons Cons.prems by (auto split: if_splits)
  qed
qed

lemma replace_pair_chars: "set (replace_pair a b r s) \<subseteq> insert r (set s)"
  by (induction a b r s rule: replace_pair.induct) auto

lemma unescape_plain:
  assumes "\<not> list_ex superscript t"
  shows "\<not> list_ex superscript (unescape t)"
proof -
  have "set (unescape t) \<subseteq> insert CHR ''~'' (insert CHR ''/'' (set t))"
    unfolding unescape_def by (rule subset_trans [OF replace_pair_chars]) (rule insert_mono [OF replace_pair_chars])
  then show ?thesis
    using assms by (auto simp: list_ex_iff superscript_def)
qed

lemma at_tokens_total:
  assumes "\<forall>t \<in> set tokens. \<not> list_ex superscript t"
  shows "\<exists>v. at_tokens current tokens = Inr v"
  using assms
proof (induction tokens arbitrary: current)
  case Nil
  then show ?case by simp
next
  case (Cons t tokens)
  have plain: "\<not> list_ex superscript (unescape t)"
    using Cons.prems by (intro unescape_plain) simp
  have "\<exists>i. int_of_string (unescape t) = Inr i" if "isdigit (unescape t)"
    using that plain by (auto simp: isdigit_def int_of_string_def list_all_iff list_ex_iff)
  then show ?case
    using Cons by (auto simp: Let_def split: json.splits option.splits)
qed

lemma evaluate_ready:
  assumes "grader_ready env g" and "parsers_ok env"
  shows "\<exists>r. evaluate env g output context = Inr r \<and> good_result r"
proof -
  obtain parsed_value where parsed: "parse_output env output = Inr parsed_value" using parse_output_total [OF assms(2)] by blast
  show ?thesis
  proof (cases g)
    case (Schema_grader schema m)
    then show ?thesis
      using assms(1) by (auto simp: grader_ready_def evaluate_schema_def parsed not_json_def unit_score_def
          intro!: new_result_good split: option.split schema_check.split)
  next
    case (Exact_field_grader expected m)
    have "unit_score (fdiv (of_nat (length (filter P expected))) (of_nat (length expected)))" if "expected \<noteq> []" for P
      unfolding unit_score_def using that by (intro fdiv_unit) simp_all
    then show ?thesis
      using assms(1) Exact_field_grader
      by (auto simp: grader_ready_def evaluate_exact_field_def parsed not_json_def unit_score_def Let_def
          intro!: new_result_good split: option.split)
  next
    case (Delivery_grader d)
    have "validate_packet (en_sha256 env) (dg_packet d) = Inr (dg_packet d)"
      using assms(1) Delivery_grader by (simp add: grader_ready_def)
    then have "render_context (en_sha256 env) (en_sha256_bytes env) (dg_task d) (dg_packet d) policy \<noteq> Inl e" for policy e
      using render_context_returns by (metis sum.distinct(1))
    moreover have fails: "\<exists>r. new_result (dg_metric_id d) 0 False [n] [dg_failure_rule_id d] = Inr r \<and> good_result r"
      and passes: "\<exists>r. new_result (dg_metric_id d) 1 True [] [] = Inr r \<and> good_result r" for n
      using assms(1) Delivery_grader by (auto simp: grader_ready_def rules_of_def unit_score_def intro!: new_result_good)
    ultimately show ?thesis
      using assms(2)
      by (auto simp: Delivery_grader evaluate_delivery_def parsers_ok_def receipts_parse_def Let_def bind_r_def
          split: option.split sum.split)
  next
    case (Source_grader d)
    have "\<forall>t \<in> set (split_on CHR ''/'' (drop 1 (sg_claims_pointer d))). \<not> list_ex superscript t"
      using assms(1) split_on_chars set_drop_subset
      by (fastforce simp: Source_grader grader_ready_def list_ex_iff)
    then have "at_json_pointer j (sg_claims_pointer d) \<noteq> Inl e" for j e
      unfolding at_json_pointer_def using at_tokens_total by (metis sum.distinct(1))
    then show ?thesis
      using assms(1)
      by (auto simp: Source_grader grader_ready_def rules_of_def evaluate_source_def parsed not_json_def unit_score_def Let_def
          bind_r_def intro!: new_result_good split: option.splits sum.split json.split)
  next
    case (Forbidden_grader tokens m rule)
    then show ?thesis
      using assms(1) by (auto simp: grader_ready_def rules_of_def evaluate_forbidden_def unit_score_def Let_def
          intro!: new_result_good split: option.splits)
  next
    case (State_grader key expected m rule)
    then show ?thesis
      using assms(1) by (auto simp: grader_ready_def rules_of_def evaluate_state_def unit_score_def intro!: new_result_good)
  next
    case (Fidelity_grader expected m rule)
    then show ?thesis
      using assms(1) by (auto simp: grader_ready_def rules_of_def evaluate_fidelity_def unit_score_def Let_def
          intro!: new_result_good)
  next
    case (Plugin_grader f)
    then show ?thesis
      using assms(1) by (auto simp: grader_ready_def plugin_returns_def good_result_def)
  next
    case Qualitative_grader
    then show ?thesis
      using assms(1) by (simp add: grader_ready_def)
  qed
qed

section \<open>Validated declarations become graders\<close>

lemma item_where: "item d k = Inr v \<longleftrightarrow> dict_get d k = Some v"
  by (auto simp: item_def split: option.splits)

lemma expect_iff [simp]: "expect b m = Inr u \<longleftrightarrow> b" "bind_r (expect b m) f = Inr x \<longleftrightarrow> b \<and> f () = Inr x"
  by (auto simp: expect_def)

lemma as_where:
  "is_obj v \<Longrightarrow> \<exists>d. as_dict v = Inr d"
  "is_str v \<Longrightarrow> \<exists>s. as_str v = Inr s"
  "str_where P v \<Longrightarrow> \<exists>s. as_str v = Inr s \<and> P s"
  "is_scalar_level v \<Longrightarrow> \<exists>l. as_level v = Inr l"
  by (cases v; auto)+

lemma str_where_is_str: "str_where P v \<Longrightarrow> is_str v"
  by (cases v) auto

lemma as_strings_where: "arr_where (\<lambda>xs. Q xs \<and> list_all (str_where P) xs) v \<Longrightarrow> \<exists>ss. as_strings v = Inr ss"
  by (cases v) (auto simp: list_all_iff intro!: map_r_total dest: as_where(3))

lemma as_mapping_where:
  assumes "obj_where (\<lambda>d. Q d \<and> list_all (\<lambda>(k, x). P k \<and> R x) d) v" and "\<And>x. R x \<Longrightarrow> \<exists>y. f x = Inr y"
  shows "\<exists>m. as_mapping f v = Inr m"
proof -
  obtain d where d: "v = JObj d" "list_all (\<lambda>(k, x). P k \<and> R x) d" using assms(1) by (cases v) auto
  have "\<exists>m. map_r (\<lambda>(k, x). bind_r (f x) (\<lambda>y. Inr (k, y))) d = Inr m"
    using d(2) assms(2) by (intro map_r_total) (fastforce simp: list_all_iff)
  then show ?thesis by (simp add: as_mapping_def d(1))
qed

lemma as_optional_where:
  "optional_where d k (\<lambda>v. v = JNull \<or> is_str v) \<Longrightarrow> \<exists>r. as_optional_str d k = Inr r"
  by (auto simp: optional_where_def as_optional_str_def get_or_def split: option.splits json.splits)

lemma failure_rule_where:
  "optional_where d k is_str \<Longrightarrow> \<exists>s. as_str (get_or d k (JStr r)) = Inr s"
  by (auto simp: optional_where_def get_or_def dest: as_where(2) split: option.splits)

lemma builtin_source:
  assumes "validate_source_config config = Inr ()"
  shows "(\<exists>g. source_grader_of config m sc = Inr g \<and> is_deterministic g) \<or>
    source_grader_of config m sc =
      Inl (ValueError ''source_provenance grader required_sources do not match frozen ScenarioSpec evidence_sources'')"
proof -
  from assms obtain pointer sources where
    p: "dict_get config ''claims_pointer'' = Some pointer" "str_where is_json_pointer pointer"
    and s: "dict_get config ''required_sources'' = Some sources"
      "obj_where (\<lambda>d. d \<noteq> [] \<and> list_all (\<lambda>(k, x). is_identifier k \<and> str_where is_sha256 x) d) sources"
    and c: "obj_where (list_all (\<lambda>(claim_id, source_ids). is_identifier claim_id \<and>
         arr_where (\<lambda>xs. xs \<noteq> [] \<and>
           list_all (str_where (\<lambda>s. obj_where (\<lambda>d. s \<in> set (map fst d)) sources)) xs) source_ids))
           (get_or config ''required_claim_sources'' (JObj []))"
    and r: "optional_where config ''unsupported_evidence_severe_rule_id'' (\<lambda>v. v = JNull \<or> str_where is_identifier v)"
    by (auto simp: validate_source_config_def item_where tx_simps)
  obtain ptr where ptr: "as_str pointer = Inr ptr" using as_where(3) [OF p(2)] by blast
  have "\<exists>y. as_str x = Inr y" if "str_where is_sha256 x" for x
    using as_where(3) [OF that] by blast
  then have "\<exists>m. as_mapping as_str sources = Inr m"
    by (rule as_mapping_where [OF s(2)])
  then obtain src where src: "as_mapping as_str sources = Inr src" ..
  define declared where "declared = (\<lambda>s. obj_where (\<lambda>d. s \<in> set (map fst d)) sources)"
  have "obj_where (\<lambda>d. True \<and> list_all (\<lambda>(k, x). is_identifier k \<and>
      arr_where (\<lambda>xs. xs \<noteq> [] \<and> list_all (str_where declared) xs) x) d)
      (get_or config ''required_claim_sources'' (JObj []))"
    using c by (simp add: declared_def)
  then have "\<exists>m. as_mapping as_strings (get_or config ''required_claim_sources'' (JObj [])) = Inr m"
    by (rule as_mapping_where) (rule as_strings_where)
  then obtain claims where claims: "as_mapping as_strings (get_or config ''required_claim_sources'' (JObj [])) = Inr claims" ..
  have "optional_where config ''unsupported_evidence_severe_rule_id'' (\<lambda>v. v = JNull \<or> is_str v)"
    using r by (auto simp: optional_where_def dest: str_where_is_str split: option.splits)
  then obtain rule where rule: "as_optional_str config ''unsupported_evidence_severe_rule_id'' = Inr rule"
    using as_optional_where by blast
  show ?thesis
    by (simp add: source_grader_of_def item_def p(1) s(1) ptr src claims rule raise_if_def Let_def)
qed

text \<open>
  C11: A grader declaration that passed validation never fails on the form of its configuration: the
  compiler turns every built-in declaration into a deterministic grader, with two exceptions, each with
  the error of its own check: required sources that do not match the scenario's frozen evidence, and a
  context packet that its own model refuses.
\<close>

theorem validated_declaration_compiles:
  assumes "validate_declaration h spec = Inr spec'" and "gs_implementation spec \<noteq> Impl_installed_plugin"
  shows "(\<exists>g. builtin_grader env spec m sc = Inr g \<and> is_deterministic g) \<or>
    (gs_implementation spec = Impl_source_provenance \<and> builtin_grader env spec m sc =
       Inl (ValueError ''source_provenance grader required_sources do not match frozen ScenarioSpec evidence_sources'')) \<or>
    (gs_implementation spec = Impl_context_handoff_delivery \<and>
       (\<exists>packet e. dict_get (gs_config spec) ''packet'' = Some packet \<and>
          bind_r (en_parse_packet env packet) (validate_packet (en_sha256 env)) = Inl e \<and>
          builtin_grader env spec m sc = Inl e))"
proof -
  have valid: "validate_builtin_grader_config (gs_implementation spec) (gs_config spec) = Inr ()"
    using assms by (auto simp: validate_declaration_def tx_simps split: if_splits)
  show ?thesis
  proof (cases "gs_implementation spec")
    case Impl_source_provenance
    then show ?thesis
      using valid builtin_source by (auto simp: builtin_grader_def validate_builtin_grader_config_def)
  next
    case Impl_context_handoff_delivery
    from valid obtain task packet digest where
      c: "dict_get (gs_config spec) ''task'' = Some task" "is_str task"
        "dict_get (gs_config spec) ''packet'' = Some packet"
        "dict_get (gs_config spec) ''renderer_digest'' = Some digest" "str_where is_sha256 digest"
        "optional_where (gs_config spec) ''failure_rule_id'' (str_where is_identifier)"
      by (auto simp: Impl_context_handoff_delivery validate_builtin_grader_config_def item_where tx_simps)
    obtain t where t: "as_str task = Inr t" using as_where(2) [OF c(2)] by blast
    obtain d where d: "as_str digest = Inr d" using as_where(3) [OF c(5)] by blast
    have "optional_where (gs_config spec) ''failure_rule_id'' is_str"
      using c(6) by (auto simp: optional_where_def dest: str_where_is_str split: option.splits)
    then obtain r where r: "as_str (get_or (gs_config spec) ''failure_rule_id'' (JStr ''context-policy-delivery-mismatch'')) = Inr r"
      using failure_rule_where by blast
    show ?thesis
      by (cases "bind_r (en_parse_packet env packet) (validate_packet (en_sha256 env))")
        (simp_all add: Impl_context_handoff_delivery builtin_grader_def item_def c(1,3,4) t d r Let_def)
  next
    case Impl_forbidden_token
    from valid obtain tokens where
      c: "dict_get (gs_config spec) ''forbidden_tokens'' = Some tokens" "arr_where (list_all (str_where (\<lambda>s. s \<noteq> []))) tokens"
        "optional_where (gs_config spec) ''severe_rule_id'' is_str"
      by (auto simp: Impl_forbidden_token validate_builtin_grader_config_def item_where tx_simps)
    obtain ts where ts: "as_strings tokens = Inr ts"
      using as_strings_where [of "\<lambda>_. True", simplified, OF c(2)] by blast
    have "optional_where (gs_config spec) ''severe_rule_id'' (\<lambda>v. v = JNull \<or> is_str v)"
      using c(3) by (auto simp: optional_where_def split: option.splits)
    then obtain r where "as_optional_str (gs_config spec) ''severe_rule_id'' = Inr r"
      using as_optional_where by blast
    then show ?thesis
      by (simp add: Impl_forbidden_token builtin_grader_def item_def c(1) ts Let_def)
  next
    case Impl_state_oracle
    from valid have "require_exact_config_keys ''state_oracle'' (gs_config spec) [''state_key'', ''expected''] [''failure_rule_id''] = Inr ()"
      by (auto simp: Impl_state_oracle validate_builtin_grader_config_def tx_simps)
    then have "''expected'' \<in> set (map fst (gs_config spec))"
      by (auto simp: require_exact_config_keys_def Let_def)
    then obtain x where x: "dict_get (gs_config spec) ''expected'' = Some x"
      unfolding dict_get_def by (metis list.set_map not_Some_eq map_of_eq_None_iff)
    from valid obtain key where
      c: "dict_get (gs_config spec) ''state_key'' = Some key" "str_where (\<lambda>s. s \<noteq> []) key"
        "optional_where (gs_config spec) ''failure_rule_id'' is_str"
      by (auto simp: Impl_state_oracle validate_builtin_grader_config_def item_where tx_simps)
    obtain k where k: "as_str key = Inr k" using as_where(3) [OF c(2)] by blast
    obtain r where "as_str (get_or (gs_config spec) ''failure_rule_id'' (JStr ''state-oracle-failed'')) = Inr r"
      using failure_rule_where [OF c(3)] by blast
    then show ?thesis
      by (simp add: Impl_state_oracle builtin_grader_def item_def c(1) x k Let_def)
  next
    case Impl_manipulation_fidelity
    from valid obtain assignments where
      c: "dict_get (gs_config spec) ''expected_assignments'' = Some assignments"
        "obj_where (list_all (\<lambda>(_, x). is_scalar_level x)) assignments"
        "optional_where (gs_config spec) ''failure_rule_id'' is_str"
      by (auto simp: Impl_manipulation_fidelity validate_builtin_grader_config_def item_where tx_simps)
    have "obj_where (\<lambda>d. True \<and> list_all (\<lambda>(k, x). True \<and> is_scalar_level x) d) assignments"
      using c(2) by simp
    then have "\<exists>m. as_mapping as_level assignments = Inr m"
      by (rule as_mapping_where) (rule as_where(4))
    then obtain m where m: "as_mapping as_level assignments = Inr m" ..
    obtain r where "as_str (get_or (gs_config spec) ''failure_rule_id'' (JStr ''manipulation-fidelity-failed'')) = Inr r"
      using failure_rule_where [OF c(3)] by blast
    then show ?thesis
      by (simp add: Impl_manipulation_fidelity builtin_grader_def item_def c(1) m Let_def)
  qed (use valid assms(2) in \<open>auto simp: builtin_grader_def validate_builtin_grader_config_def item_where item_def Let_def tx_simps
      dest: as_where(1) split: option.splits\<close>)
qed

section \<open>A compiled plan evaluates\<close>

definition compiled_ok :: "grader_registry \<Rightarrow> compile_state \<Rightarrow> bool" where
  "compiled_ok registry state \<longleftrightarrow>
     (\<forall>b \<in> set (fst state). gb_kind b = Deterministic \<longrightarrow>
        map_of (snd state) (identity_of (gb_installation b)) \<noteq> None \<or>
        (\<exists>g. resolve registry (gb_installation b) = Inr g \<and> is_deterministic (tg_grader g))) \<and>
     (\<forall>i g. map_of (snd state) i = Some g \<longrightarrow> is_deterministic g)"

lemma builtin_grader_deterministic: "builtin_grader env spec m sc = Inr g \<Longrightarrow> is_deterministic g"
  by (auto simp: builtin_grader_def source_grader_of_def Let_def tx_simps split: grader_implementation.splits)

lemma compile_metric_ok:
  assumes "compile_metric env pack registry selected metric state = Inr state'" and "compiled_ok registry state"
  shows "compiled_ok registry state'"
proof -
  obtain bindings builtins where state: "state = (bindings, builtins)" by fastforce
  from assms(1) obtain spec where
    spec: "map_of (rev (map (\<lambda>g. (gs_grader_id g, g)) (sp_graders pack))) (dm_oracle metric) = Some spec"
    by (auto simp: compile_metric_def state tx_simps split: option.splits)
  show ?thesis
  proof (cases "gs_implementation spec = Impl_installed_plugin")
    case True
    then show ?thesis
      using assms by (auto simp: compile_metric_def state spec compiled_ok_def tx_simps)
  next
    case False
    then obtain g where g: "builtin_grader env spec (dm_metric_id metric) selected = Inr g"
      and s': "state' = (bindings @ [\<lparr>gb_metric_id = dm_metric_id metric, gb_weight = dm_weight metric, gb_kind = Deterministic,
            gb_installation = installation spec\<rparr>], AList.update (identity_of (installation spec)) g builtins)"
      using assms(1) by (auto simp: compile_metric_def state spec tx_simps)
    show ?thesis
      using assms(2) builtin_grader_deterministic [OF g]
      by (auto simp: s' state compiled_ok_def update_conv')
  qed
qed

lemma compile_qualitative_frame:
  assumes "for_each (compile_qualitative registry) specs bindings = Inr bindings'"
  shows "\<exists>qs. bindings' = bindings @ qs \<and> (\<forall>b \<in> set qs. gb_kind b = Qualitative)"
proof (rule for_each_invariant [OF assms])
  show "\<exists>qs. bindings = bindings @ qs \<and> (\<forall>b \<in> set qs. gb_kind b = Qualitative)" by simp
  fix spec bs bs'
  assume "\<exists>qs. bs = bindings @ qs \<and> (\<forall>b \<in> set qs. gb_kind b = Qualitative)"
    and "compile_qualitative registry spec bs = Inr bs'"
  then show "\<exists>qs. bs' = bindings @ qs \<and> (\<forall>b \<in> set qs. gb_kind b = Qualitative)"
    by (auto simp: compile_qualitative_def tx_simps split: if_splits option.splits)
qed

lemma compiled_plan_resolves:
  assumes "compile_grader_plan env pack scenario registry receipt = Inr plan"
  shows "validate_plan (en_python env) (gp_bindings plan) = Inr () \<and>
    (\<forall>b \<in> set (deterministic_bindings (gp_bindings plan)).
       \<exists>g. plan_grader plan registry (gb_installation b) = Inr g \<and> is_deterministic g)"
proof -
  from assms obtain selected bindings builtins bindings' where
    c: "for_each (compile_metric env pack registry selected) (sc_deterministic_metrics selected) ([], []) = Inr (bindings, builtins)"
      "for_each (compile_qualitative registry) (sp_graders pack) bindings = Inr bindings'"
      "validate_plan (en_python env) bindings' = Inr ()"
      "plan = \<lparr>gp_bindings = bindings', gp_receipt = receipt, gp_builtins = builtins\<rparr>"
    by (auto simp: compile_grader_plan_def tx_simps)
  have ok: "compiled_ok registry (bindings, builtins)"
    using c(1) by (rule for_each_invariant) (simp add: compiled_ok_def, rule compile_metric_ok)
  obtain qs where qs: "bindings' = bindings @ qs" "\<forall>b \<in> set qs. gb_kind b = Qualitative"
    using compile_qualitative_frame [OF c(2)] by blast
  have "\<exists>g. plan_grader plan registry (gb_installation b) = Inr g \<and> is_deterministic g"
    if "b \<in> set bindings" "gb_kind b = Deterministic" for b
  proof (cases "map_of builtins (identity_of (gb_installation b))")
    case None
    then show ?thesis
      using ok that by (auto simp: compiled_ok_def plan_grader_def c(4))
  next
    case (Some g)
    then have "is_deterministic g"
      using ok unfolding compiled_ok_def snd_conv by blast
    with Some show ?thesis
      by (simp add: plan_grader_def c(4))
  qed
  then show ?thesis
    using c(3) qs by (auto simp: c(4))
qed

text \<open>An attempt whose evidence is well formed, and a plan whose bindings passed their own validation.\<close>

definition attempt_ready :: "grader_plan \<Rightarrow> attempt_evaluation \<Rightarrow> bool" where
  "attempt_ready plan a \<longleftrightarrow> is_identifier (ae_episode_id a) \<and> is_identifier (ae_evaluation_id a) \<and>
     is_sha256 (ae_trace_hash a) \<and> nonneg_option (ae_cost_usd a) \<and> nonneg_option (ae_latency_seconds a) \<and>
     0 \<le> ae_tool_calls a \<and>
     distinct (map qr_metric_id (ae_qualitative_results a)) \<and>
     set (map qr_metric_id (ae_qualitative_results a)) \<subseteq> set (map gb_metric_id (qualitative_bindings plan)) \<and>
     list_all (\<lambda>r. unit_score (qr_score r)) (ae_qualitative_results a) \<and>
     list_all (\<lambda>(rule_id, rule). is_identifier rule_id \<and> \<not> unhashable (get_or rule ''metric_id'' JNull))
       (ev_severe_failure_rules (ae_context a))"

definition binding_ok :: "grader_binding \<Rightarrow> bool" where
  "binding_ok b \<longleftrightarrow> is_identifier (gb_metric_id b) \<and> 0 \<le> gb_weight b \<and> gb_weight b \<le> 1 \<and> fl (gb_weight b) = gb_weight b"

lemma observed_score_unit:
  assumes "attempt_ready plan a" and "observed_score plan a b = Some q"
  shows "unit_score q"
  using assms
  by (auto simp: attempt_ready_def observed_score_def qualitative_by_metric_def list_all_iff
      split: option.splits if_splits dest!: map_of_SomeD)

lemma reference_mission_unit:
  assumes "\<forall>(b, g, r) \<in> set grades. binding_ok b \<and> good_result r"
    and "map gb_weight (deterministic_bindings (gp_bindings plan)) = map (gb_weight \<circ> fst) grades"
    and "fold_sum (deterministic_weights (gp_bindings plan)) \<le> deterministic_weight v (gp_bindings plan)"
    and "0 < deterministic_weight v (gp_bindings plan)"
  shows "unit_score (reference_mission v plan grades)"
proof (cases "filter (\<lambda>(b, g, r). is_state_grader g) grades")
  case Nil
  define ws where "ws = map (\<lambda>(b, g, r). (gr_score r, gb_weight b)) grades"
  have ws: "\<forall>(q, w) \<in> set ws. 0 \<le> q \<and> q \<le> 1 \<and> 0 \<le> w \<and> fl w = w"
    using assms(1) by (fastforce simp: ws_def binding_ok_def good_result_def unit_score_def)
  have "map snd ws = deterministic_weights (gp_bindings plan)"
    using assms(2) by (simp add: ws_def deterministic_weights_def comp_def case_prod_beta)
  then have "foldl (\<lambda>t (q, w). fadd t (fmul q w)) 0 ws \<le> fold_sum (deterministic_weights (gp_bindings plan))"
    using weighted_loop_le [OF ws, of 0 0] by (simp add: fold_sum_def)
  moreover have "0 \<le> foldl (\<lambda>t (q, w). fadd t (fmul q w)) 0 ws"
    using ws by (intro weighted_loop_nonneg) auto
  ultimately show ?thesis
    using assms(3,4) unfolding reference_mission_def Nil ws_def [symmetric] unit_score_def
    by (simp add: fdiv_unit)
next
  case (Cons y ys)
  then have "last (y # ys) \<in> set grades"
    by (metis filter_is_subset last_in_set list.distinct(1) subsetD)
  then show ?thesis
    using assms(1) by (auto simp: reference_mission_def Cons good_result_def case_prod_beta)
qed

lemma finish_evaluation_returns:
  assumes "attempt_ready plan a" and "list_all is_identifier (eg_severe s)"
    and "unit_score (mission_score (en_python env) plan s)" and "score_map (eg_deterministic s)"
    and "score_map (if eg_qualitative_complete s then eg_qualitative s else [])"
    and "fl (7 / 10) \<le> deterministic_weight (en_python env) (gp_bindings plan)"
    and "deterministic_weight (en_python env) (gp_bindings plan) \<le> 1"
  shows "\<exists>res. finish_evaluation env plan a s = Inr res"
  using assms
  by (auto simp: finish_evaluation_def new_outcome_def new_record_def outcome_ok_def record_ok_def attempt_ready_def
      unit_score_def list_all_iff Let_def split del: if_split) (auto simp: unit_score_def)

lemma evaluation_returns:
  assumes plan: "validate_plan (en_python env) (gp_bindings plan) = Inr ()"
    and resolves: "\<forall>b \<in> set (deterministic_bindings (gp_bindings plan)).
      \<exists>g. plan_grader plan registry (gb_installation b) = Inr g \<and> is_deterministic g"
    and "attempt_ready plan a" and "parsers_ok env"
    and "list_all binding_ok (gp_bindings plan)"
    and "\<forall>b \<in> set (deterministic_bindings (gp_bindings plan)). \<forall>g. plan_grader plan registry (gb_installation b) = Inr g \<longrightarrow>
      grader_ready env g \<and> \<not> missing_observed g (ae_context a)"
    and "fl (7 / 10) \<le> deterministic_weight (en_python env) (gp_bindings plan)"
    and "deterministic_weight (en_python env) (gp_bindings plan) \<le> 1"
    and "fold_sum (deterministic_weights (gp_bindings plan)) \<le> deterministic_weight (en_python env) (gp_bindings plan)"
  shows "\<exists>res. evaluate_attempt env plan registry a = Inr res \<and> outcome_ok (er_outcome (el_record res)) \<and>
    record_ok (el_record res)"
proof -
  let ?dets = "deterministic_bindings (gp_bindings plan)"
  have good: "good_result (snd gr)" if "graded env plan registry a b gr" "b \<in> set ?dets" for b gr
    using that assms(6) evaluate_ready [OF _ assms(4), of "fst gr" "ae_output a" "ae_context a"] by (auto simp: graded_def)
  have "\<exists>gr. graded env plan registry a b gr" if "b \<in> set ?dets" for b
    using resolves assms(6) that evaluate_ready [OF _ assms(4)] by (fastforce simp: graded_def)
  then obtain s where s: "for_each (evaluate_binding env plan registry a) (gp_bindings plan) (engine_init plan) = Inr s"
    using engine_loop_total by blast
  obtain s' where s': "for_each severe_rule (ev_severe_failure_rules (ae_context a)) s = Inr s'"
    using severe_rules_total [of "ev_severe_failure_rules (ae_context a)" s] assms(3)
    by (force simp: attempt_ready_def list_all_iff)
  have d: "distinct (map gb_metric_id (gp_bindings plan))"
    using plan by (simp add: validate_plan_Inr_iff)
  obtain grs where grs: "list_all2 (graded env plan registry a) ?dets grs"
    and f: "eg_severe s' = all_severe a (zip ?dets grs)"
      "mission_score (en_python env) plan s' = reference_mission (en_python env) plan (zip ?dets grs)"
      "eg_deterministic s' = zip (map gb_metric_id ?dets) (map (gr_score \<circ> snd) grs)"
      "(if eg_qualitative_complete s' then eg_qualitative s' else []) = reference_judged plan a"
    using engine_state_after [OF d s s'] by metis
  have zips: "\<forall>(b, g, r) \<in> set (zip ?dets grs). binding_ok b \<and> good_result r"
  proof (rule ballI)
    fix x
    assume "x \<in> set (zip ?dets grs)"
    then obtain i where "i < length ?dets" "x = (?dets ! i, grs ! i)"
      by (auto simp: set_zip)
    moreover from this have "?dets ! i \<in> set ?dets" "graded env plan registry a (?dets ! i) (grs ! i)"
      using grs by (auto simp: list_all2_conv_all_nth simp del: set_filter)
    ultimately show "case x of (b, g, r) \<Rightarrow> binding_ok b \<and> good_result r"
      using good assms(5) by (auto simp: list_all_iff case_prod_beta)
  qed
  have len: "length grs = length ?dets" using grs by (simp add: list_all2_lengthD)
  have "map gb_weight ?dets = map (gb_weight \<circ> fst) (zip ?dets grs)"
    using len by (simp flip: map_map)
  moreover have "0 < fl (7 / 10)"
    using fl_nearest [of 53 "7 / 10" 6305039478318694] by simp
  ultimately have mission: "unit_score (reference_mission (en_python env) plan (zip ?dets grs))"
    using assms(7,9) by (intro reference_mission_unit [OF zips]) simp_all
  have severe: "list_all is_identifier (all_severe a (zip ?dets grs))"
    using zips assms(3) by (fastforce simp: all_severe_def fired_def good_result_def attempt_ready_def list_all_iff)
  have det: "score_map (zip (map gb_metric_id ?dets) (map (gr_score \<circ> snd) grs))"
    using zips by (fastforce simp: score_map_def list_all_iff zip_map1 zip_map2 good_result_def binding_ok_def)
  have judged: "score_map (reference_judged plan a)"
    using assms(5) observed_score_unit [OF assms(3)]
    by (auto simp: score_map_def reference_judged_def list_all_iff qualitative_bindings_def binding_ok_def)
  obtain res where res: "finish_evaluation env plan a s' = Inr res"
    using finish_evaluation_returns [OF assms(3), of s' env] assms(7,8) mission severe det judged by (auto simp: f)
  have "evaluate_attempt env plan registry a = Inr res"
    using assms(3) s s' res by (simp add: evaluate_attempt_def attempt_ready_def)
  with finish_evaluation_Inr [OF res] show ?thesis by blast
qed


end
