(* ===== verification/Evaluation_Examples.thy ===== *)
theory Evaluation_Examples
  imports Evaluation_Progress
begin

text \<open>
  A study pack with three metrics of weights 0.70, 0.29 and 0.01, and an attempt that passes all of them.
  The loop adds the weighted scores to exactly 1. CPython 3.11 sums the weights to 1 too, and the attempt
  scores 1. CPython 3.12 compensates the rounding of the sum and gets the double below 1; the quotient is
  the double above 1, which the outcome refuses.
\<close>

section \<open>The arithmetic\<close>

definition w70 :: rat where "w70 = fl (7 / 10)"
definition w29 :: rat where "w29 = fl (29 / 100)"
definition w01 :: rat where "w01 = fl (1 / 100)"

lemma weights_value:
  "w70 = 6305039478318694 / 2 ^ 53" "w29 = 5224175567749775 / 2 ^ 54" "w01 = 5764607523034235 / 2 ^ 59"
  unfolding w70_def w29_def w01_def
  using fl_nearest [of 53 "7 / 10" 6305039478318694] fl_nearest [of 54 "29 / 100" 5224175567749775]
    fl_nearest [of 59 "1 / 100" 5764607523034235]
  by simp_all

lemma weights_double [simp]: "fl w70 = w70" "fl w29 = w29" "fl w01 = w01"
  using fl_exact [of 53 6305039478318694] fl_exact [of 54 5224175567749775] fl_exact [of 59 5764607523034235]
  by (simp_all add: weights_value)

definition w99 :: rat where "w99 = 8917127262193582 / 2 ^ 53"
definition below_one :: rat where "below_one = 9007199254740991 / 2 ^ 53"
definition above_one :: rat where "above_one = 4503599627370497 / 2 ^ 52"

lemma loop_steps: "fl (w70 + w29) = w99" "fl (w99 + w01) = 1"
  using fl_nearest_even [of 53 "w70 + w29" 8917127262193582]
    fl_nearest [of 53 "w99 + w01" 9007199254740992]
  by (simp_all add: weights_value w99_def)

lemma fold_sum_weights: "fold_sum [w70, w29, w01] = 1"
  by (simp add: fold_sum_def fadd_def loop_steps)

text \<open>The compensation terms, on the grid of \<open>1 / 2 ^ 59\<close>.\<close>

definition grid :: "int \<Rightarrow> rat" where "grid n = of_int n / 2 ^ 59"

lemma fl_grid_exact: "\<bar>n\<bar> < 2 ^ 53 \<Longrightarrow> fl (grid n) = grid n"
  unfolding grid_def by (rule fl_exact) simp_all

lemma compensation_steps:
  "w70 - w99 = grid (- 167173618167992832)" "fl (grid (- 167173618167992832)) = grid (- 167173618167992832)"
  "grid (- 167173618167992832) + w29 = grid (- 32)"
  "w99 - 1 = grid (- 5764607523034240)" "grid (- 5764607523034240) + w01 = grid (- 5)"
  "grid (- 32) + grid (- 5) = grid (- 37)" "fl (1 + grid (- 37)) = below_one"
  using fl_exact [of 53 "- 2612087783874888"] fl_nearest [of 53 "1 + grid (- 37)" 9007199254740991]
  by (simp_all add: weights_value w99_def grid_def below_one_def)

lemma weights_order: "\<not> \<bar>w70\<bar> \<le> \<bar>0\<bar>" "\<bar>w29\<bar> \<le> \<bar>w70\<bar>" "\<bar>w01\<bar> \<le> \<bar>w99\<bar>"
  by (simp_all add: weights_value w99_def)

lemma compensated_sum_weights: "compensated_sum [w70, w29, w01] = below_one"
proof -
  have 1: "compensate (0, 0) w70 = (w70, 0)"
    using weights_order(1) by (simp add: compensate_def fadd_def fsub_def)
  have 2: "compensate (w70, 0) w29 = (w99, grid (- 32))"
    using weights_order(2) by (simp add: compensate_def fadd_def fsub_def loop_steps compensation_steps fl_grid_exact)
  have 3: "compensate (w99, grid (- 32)) w01 = (1, grid (- 37))"
    using weights_order(3)
    by (simp add: compensate_def fadd_def fsub_def loop_steps compensation_steps(4-6) fl_grid_exact)
  have "grid (- 37) \<noteq> 0" by (simp add: grid_def)
  then show ?thesis
    by (simp add: compensated_sum_def 1 2 3 fadd_def compensation_steps(7))
qed

lemma quotient_above_one: "fl (1 / below_one) = above_one" "1 < above_one"
  using fl_nearest [of 52 "1 / below_one" 4503599627370497] by (simp_all add: below_one_def above_one_def)

section \<open>The study pack\<close>

definition a64 :: string where "a64 = replicate 64 CHR ''a''"

definition grading_env :: "python_version \<Rightarrow> eval_env" where
  "grading_env v = \<lparr>en_sha256 = \<lambda>_. a64, en_sha256_bytes = \<lambda>_. a64, en_loads = \<lambda>_. Inl (JSONDecodeError ''json''),
     en_schema = \<lambda>_ _. Schema_valid, en_parse_packet = \<lambda>_. Inl (ValueError ''packet''),
     en_parse_receipt = \<lambda>_. Inl (ValueError ''receipt''), en_python = v\<rparr>"

lemma example_env_python [simp]: "en_python (grading_env v) = v"
  by (simp add: grading_env_def)

definition example_guard :: grader_spec where
  "example_guard = \<lparr>gs_grader_id = ''guard'', gs_version = ''1'', gs_implementation = Impl_forbidden_token,
     gs_kind = Deterministic, gs_config = [(''forbidden_tokens'', JArr [JStr ''leak''])], gs_digest = a64,
     gs_metric_id = None, gs_weight = None\<rparr>"

definition example_metric :: "string \<Rightarrow> rat \<Rightarrow> deterministic_metric" where
  "example_metric m w = \<lparr>dm_metric_id = m, dm_weight = w, dm_oracle = ''guard''\<rparr>"

definition grading_scenario :: scored_scenario where
  "grading_scenario = \<lparr>sc_scenario_id = ''scenario'', sc_variant = ''clean'', sc_pair_id = None, sc_cluster_id = None,
     sc_extensions = [], sc_dump = [], sc_evidence_sources = [],
     sc_deterministic_metrics = [example_metric ''m-a'' w70, example_metric ''m-b'' w29, example_metric ''m-c'' w01]\<rparr>"

definition example_pack :: study_pack where
  "example_pack = \<lparr>sp_scenarios = [grading_scenario], sp_graders = [example_guard]\<rparr>"

definition example_binding :: "string \<Rightarrow> rat \<Rightarrow> grader_binding" where
  "example_binding m w = \<lparr>gb_metric_id = m, gb_weight = w, gb_kind = Deterministic, gb_installation = installation example_guard\<rparr>"

definition grading_plan :: grader_plan where
  "grading_plan = \<lparr>gp_bindings = [example_binding ''m-a'' w70, example_binding ''m-b'' w29, example_binding ''m-c'' w01],
     gp_receipt = None, gp_builtins = [(identity_of (installation example_guard), Forbidden_grader [''leak''] ''m-c'' None)]\<rparr>"

definition example_attempt :: attempt_evaluation where
  "example_attempt = \<lparr>ae_episode_id = ''episode'', ae_output = ''ok'',
     ae_context = \<lparr>ev_artifact_refs = [], ev_state_refs = [], ev_factor_assignments = [], ev_severe_failure_rules = []\<rparr>,
     ae_trace_hash = a64, ae_evaluation_id = ''evaluation'', ae_cost_usd = None, ae_budget_limit_usd = None,
     ae_latency_seconds = None, ae_tool_calls = 0, ae_qualitative_results = []\<rparr>"

lemma example_guard_valid: "validate_grader_spec (\<lambda>_. a64) example_guard = Inr example_guard"
  by (simp add: example_guard_def validate_grader_spec_def validate_declaration_def validate_builtin_grader_config_def
      digest_for_def require_exact_config_keys_def item_def dict_get_def expect_def optional_where_def
      EXECUTABLE_CONFIG_TOKENS_def contains_def casefold_def lower_char_def upper_char_def)

lemma weights_positive: "0 < w70" "0 < w29" "0 < w01" "w70 \<le> 1" "w29 \<le> 1" "w01 \<le> 1"
  by (simp_all add: weights_value)

lemma example_weights: "deterministic_weights (gp_bindings grading_plan) = [w70, w29, w01]"
    "map gb_weight (gp_bindings grading_plan) = [w70, w29, w01]"
  by (simp_all add: grading_plan_def example_binding_def deterministic_weights_def)

lemma example_sum: "py_sum v [w70, w29, w01] = (case v of Py311 \<Rightarrow> 1 | Py312 \<Rightarrow> below_one)"
  by (simp add: py_sum_def fold_sum_weights compensated_sum_weights split: python_version.split)

lemma threshold: "fsub (fl (7 / 10)) (fl (1 / 10 ^ 9)) \<le> w70"
proof -
  have "fl (7 / 10) - fl (1 / 10 ^ 9) \<le> w70" by (simp add: fl_nonneg w70_def)
  from fl_mono [OF this] show ?thesis by (simp add: fsub_def)
qed

lemma grading_plan_valid: "validate_plan v (gp_bindings grading_plan) = Inr ()"
proof -
  have "\<bar>fsub (py_sum v [w70, w29, w01]) 1\<bar> \<le> fl (1 / 10 ^ 9)"
  proof (cases v)
    case Py311
    then show ?thesis by (simp add: example_sum fsub_def fl_nonneg)
  next
    case Py312
    have "0 \<le> fl (1 / 2 ^ 53)" "fl (1 / 2 ^ 53) \<le> fl (1 / 10 ^ 9)"
      by (rule fl_nonneg, simp) (rule fl_mono, simp)
    moreover have "below_one - 1 = - (1 / 2 ^ 53)" by (simp add: below_one_def)
    ultimately show ?thesis by (simp add: Py312 example_sum fsub_def)
  qed
  moreover have "w70 \<le> py_sum v [w70, w29, w01]"
    unfolding example_sum by (cases v) (simp_all add: weights_value(1) below_one_def)
  ultimately show ?thesis
    unfolding validate_plan_Inr_iff deterministic_weight_def example_weights
    using threshold by (simp add: grading_plan_def example_binding_def)
qed

lemma example_compiles: "compile_grader_plan (grading_env v) example_pack (Inl ''scenario'') [] None = Inr grading_plan"
proof -
  have "for_each (compile_metric (grading_env v) example_pack [] grading_scenario)
      (sc_deterministic_metrics grading_scenario) ([], []) = Inr (gp_bindings grading_plan, gp_builtins grading_plan)"
    using weights_positive
    by (simp add: grading_scenario_def example_metric_def compile_metric_def example_pack_def example_guard_def
      builtin_grader_def item_def dict_get_def as_optional_str_def get_or_def grading_plan_def example_binding_def
      installation_def Let_def raise_if_def not_le)
  then show ?thesis
    using grading_plan_valid [of v]
    by (simp add: compile_grader_plan_def resolve_scenario_of_def example_pack_def grading_scenario_def
      compile_qualitative_def example_guard_def grading_env_def grading_plan_def raise_if_def)
qed

lemma example_grade:
  "evaluate (grading_env v) (Forbidden_grader [''leak''] ''m-c'' None) ''ok'' context =
     Inr \<lparr>gr_metric_id = ''m-c'', gr_score = 1, gr_passed = True, gr_notes = [], gr_severe_failures = []\<rparr>"
  by (simp add: evaluate_forbidden_def new_result_def contains_def casefold_def lower_char_def upper_char_def)

lemma add_grade_complete [simp]: "eg_qualitative_complete (add_grade x s) = eg_qualitative_complete s"
  by (simp add: add_grade_def case_prod_beta)

lemma example_loop:
  "\<exists>s. for_each (evaluate_binding (grading_env v) grading_plan [] example_attempt) (gp_bindings grading_plan) (engine_init grading_plan) = Inr s \<and>
    eg_weighted s = 1 \<and> eg_severe s = [] \<and> eg_state_score s = None \<and> \<not> eg_qualitative_complete s \<and>
    eg_deterministic s = [(''m-a'', 1), (''m-b'', 1), (''m-c'', 1)]"
proof -
  have "grade (grading_env v) grading_plan [] example_attempt (example_binding m w) s =
      Inr (add_grade (example_binding m w, Forbidden_grader [''leak''] ''m-c'' None,
        \<lparr>gr_metric_id = ''m-c'', gr_score = 1, gr_passed = True, gr_notes = [], gr_severe_failures = []\<rparr>) s)" for m w s
    by (simp add: grade_def grading_plan_def example_binding_def plan_grader_def missing_observed_def example_attempt_def
        example_grade add_grade_def is_state_grader_def raise_if_def del: evaluate.simps)
  moreover have "gb_kind (example_binding m w) = Deterministic" "gb_weight (example_binding m w) = w"
      "gb_metric_id (example_binding m w) = m" for m w
    by (simp_all add: example_binding_def)
  moreover have "gp_bindings grading_plan = [example_binding ''m-a'' w70, example_binding ''m-b'' w29, example_binding ''m-c'' w01]"
    by (simp add: grading_plan_def)
  ultimately show ?thesis
    by (simp add: evaluate_binding_def engine_init_def fadd_def fmul_def loop_steps is_state_grader_def
        add_grade_complete qualitative_bindings_def)
qed

lemma example_names:
  "is_identifier ''episode''" "is_identifier ''evaluation''" "is_identifier ''m-a''" "is_identifier ''m-b''"
  "is_identifier ''m-c''" "is_identifier ''m-q''"
  by (simp_all add: is_identifier_def lower_letter_def digit_char_def)

lemma example_digest_ok: "is_sha256 a64"
  by (simp add: is_sha256_def a64_def hex_digits_def list_all_length)

lemma example_evaluation:
  "\<exists>s. evaluate_attempt (grading_env v) grading_plan [] example_attempt = finish_evaluation (grading_env v) grading_plan example_attempt s \<and>
    eg_severe s = [] \<and> mission_score v grading_plan s = (case v of Py311 \<Rightarrow> 1 | Py312 \<Rightarrow> above_one) \<and>
    \<not> eg_qualitative_complete s \<and> eg_deterministic s = [(''m-a'', 1), (''m-b'', 1), (''m-c'', 1)]"
proof -
  obtain s where s: "for_each (evaluate_binding (grading_env v) grading_plan [] example_attempt) (gp_bindings grading_plan)
      (engine_init grading_plan) = Inr s" "eg_weighted s = 1" "eg_severe s = []" "eg_state_score s = None"
      "\<not> eg_qualitative_complete s" "eg_deterministic s = [(''m-a'', 1), (''m-b'', 1), (''m-c'', 1)]"
    using example_loop by blast
  have "mission_score v grading_plan s = (case v of Py311 \<Rightarrow> 1 | Py312 \<Rightarrow> above_one)"
    by (cases v) (simp_all add: mission_score_def s(2,4) deterministic_weight_def example_weights example_sum fdiv_def
      quotient_above_one)
  moreover have "evaluate_attempt (grading_env v) grading_plan [] example_attempt =
      finish_evaluation (grading_env v) grading_plan example_attempt s"
    using s(1) by (simp add: evaluate_attempt_def example_attempt_def)
  ultimately show ?thesis using s by blast
qed

lemma example_ready: "attempt_ready plan example_attempt"
  using example_names example_digest_ok by (simp add: attempt_ready_def example_attempt_def nonneg_option_def)

lemma example_weight_bounds:
  "fl (7 / 10) \<le> deterministic_weight Py311 (gp_bindings grading_plan)"
  "deterministic_weight Py311 (gp_bindings grading_plan) \<le> 1"
  unfolding deterministic_weight_def example_weights example_sum using weights_positive(4) by (simp_all add: w70_def)

text \<open>
  C38: Rounding can refuse a perfect attempt. On this study pack, whose plan both versions of Python
  accept, an attempt that passes every metric is evaluated with mission success 1 under CPython 3.11, and
  raises under CPython 3.12: there the weights are summed with compensation, to less than the loop over
  the weighted scores, so mission success is the double above 1, which the outcome does not admit.
\<close>

theorem perfect_attempt_refused:
  "compile_grader_plan (grading_env v) example_pack (Inl ''scenario'') [] None = Inr grading_plan \<and>
   (\<exists>res. evaluate_attempt (grading_env Py311) grading_plan [] example_attempt = Inr res \<and>
      ov_mission_success (er_outcome (el_record res)) = 1) \<and>
   evaluate_attempt (grading_env Py312) grading_plan [] example_attempt = Inl (ValueError ''OutcomeVector'')"
proof -
  obtain s where s: "evaluate_attempt (grading_env Py311) grading_plan [] example_attempt =
      finish_evaluation (grading_env Py311) grading_plan example_attempt s" "eg_severe s = []"
      "mission_score Py311 grading_plan s = 1" "\<not> eg_qualitative_complete s"
      "eg_deterministic s = [(''m-a'', 1), (''m-b'', 1), (''m-c'', 1)]"
    using example_evaluation [of Py311] by auto
  have "fl (7 / 10) \<le> 1" using weights_positive(4) by (simp add: w70_def)
  then have "\<exists>res. finish_evaluation (grading_env Py311) grading_plan example_attempt s = Inr res \<and>
      ov_mission_success (er_outcome (el_record res)) = 1"
    using s(2-5) example_names example_digest_ok
    by (simp add: finish_evaluation_def new_outcome_def new_record_def outcome_ok_def record_ok_def unit_score_def
      score_map_def nonneg_option_def raise_if_def deterministic_weight_def example_weights example_sum
      grading_env_def example_attempt_def Let_def)
  moreover obtain t where t: "evaluate_attempt (grading_env Py312) grading_plan [] example_attempt =
      finish_evaluation (grading_env Py312) grading_plan example_attempt t" "eg_severe t = []"
      "mission_score Py312 grading_plan t = above_one"
    using example_evaluation [of Py312] by auto
  moreover have "finish_evaluation (grading_env Py312) grading_plan example_attempt t = Inl (ValueError ''OutcomeVector'')"
    using t(2,3) quotient_above_one(2)
    by (simp add: finish_evaluation_def new_outcome_def outcome_ok_def unit_score_def raise_if_def grading_env_def Let_def)
  ultimately show ?thesis
    using example_compiles s(1) by simp
qed

section \<open>Witnesses\<close>

lemma example_returns: "\<exists>res. evaluate_attempt (grading_env Py311) grading_plan [] example_attempt = Inr res"
proof -
  obtain s where s: "evaluate_attempt (grading_env Py311) grading_plan [] example_attempt =
      finish_evaluation (grading_env Py311) grading_plan example_attempt s" "eg_severe s = []"
      "mission_score Py311 grading_plan s = 1" "\<not> eg_qualitative_complete s"
      "eg_deterministic s = [(''m-a'', 1), (''m-b'', 1), (''m-c'', 1)]"
    using example_evaluation [of Py311] by auto
  show ?thesis
    unfolding s(1)
    by (rule finish_evaluation_returns [OF example_ready])
      (use s example_names example_weight_bounds in \<open>simp_all add: unit_score_def score_map_def\<close>)
qed

theorem evaluation_outcome_exact_witness:
  "\<exists>res grs. evaluate_attempt (grading_env Py311) grading_plan [] example_attempt = Inr res \<and> length grs = 3 \<and>
     list_all2 (graded (grading_env Py311) grading_plan [] example_attempt)
       (deterministic_bindings (gp_bindings grading_plan)) grs \<and> el_results res = map snd grs"
proof -
  obtain res where res: "evaluate_attempt (grading_env Py311) grading_plan [] example_attempt = Inr res"
    using example_returns by blast
  have "validate_plan (en_python (grading_env Py311)) (gp_bindings grading_plan) = Inr ()"
    by (simp add: grading_plan_valid)
  from evaluation_outcome_exact [OF this res] obtain grs where
    grs: "list_all2 (graded (grading_env Py311) grading_plan [] example_attempt) (deterministic_bindings (gp_bindings grading_plan)) grs"
    "el_results res = map snd grs" by blast
  moreover have "length (deterministic_bindings (gp_bindings grading_plan)) = 3"
    by (simp add: grading_plan_def example_binding_def)
  ultimately have "length grs = 3"
    using list_all2_lengthD [OF grs(1)] by simp
  then show ?thesis using res grs by blast
qed

subsection \<open>A judged plan\<close>

definition w30 :: rat where "w30 = fl (3 / 10)"

definition example_judge :: grader_binding where
  "example_judge = \<lparr>gb_metric_id = ''m-q'', gb_weight = w30, gb_kind = Qualitative,
     gb_installation = \<lparr>gi_grader_id = ''judge'', gi_version = ''1'', gi_digest = a64\<rparr>\<rparr>"

definition example_receipt :: human_calibration_receipt where
  "example_receipt = \<lparr>hr_receipt_id = ''receipt'', hr_batch_hash = a64, hr_protocol_hash = a64,
     hr_review_completion_digest = a64, hr_annotator_count = 3, hr_authority_id = ''lab'', hr_attestation_ref = ''ref''\<rparr>"

definition example_opinion :: qualitative_result where
  "example_opinion = \<lparr>qr_metric_id = ''m-q'', qr_score = 1 / 2, qr_evaluator_id = ''judge'', qr_evaluator_version = ''1'',
     qr_evaluator_digest = a64, qr_input_evidence_ref = ''in'', qr_output_evidence_ref = ''out'',
     qr_calibration_receipt_id = ''receipt'', qr_calibration_batch_hash = a64\<rparr>"

definition judged_plan :: grader_plan where
  "judged_plan = \<lparr>gp_bindings = [example_binding ''m-a'' w70, example_judge], gp_receipt = None,
     gp_builtins = gp_builtins grading_plan\<rparr>"

lemma w30_value: "w30 = 5404319552844595 / 2 ^ 54"
  unfolding w30_def using fl_nearest [of 54 "3 / 10" 5404319552844595] by simp

lemma w30_unit: "0 < w30" "w30 \<le> 1" "fl w30 = w30"
proof -
  have "fl (of_int 5404319552844595 / 2 ^ 54) = of_int 5404319552844595 / 2 ^ 54"
    by (rule fl_exact) simp_all
  then show "fl w30 = w30" by (simp add: w30_value)
qed (simp_all add: w30_value)

lemma judged_sum: "fold_sum [w70, w30] = 1"
proof -
  have "fl (w70 + w30) = 1"
    using fl_nearest_even [of 53 "w70 + w30" 9007199254740992] by (simp add: weights_value w30_value)
  then show ?thesis by (simp add: fold_sum_def fadd_def)
qed

lemma judged_weight: "deterministic_weight Py311 (gp_bindings judged_plan) = w70"
  by (simp add: deterministic_weight_def deterministic_weights_def judged_plan_def example_binding_def example_judge_def
      py_sum_def fold_sum_def fadd_def)

lemma judged_plan_valid: "validate_plan Py311 (gp_bindings judged_plan) = Inr ()"
  unfolding validate_plan_Inr_iff judged_weight
  using threshold judged_sum
  by (simp add: judged_plan_def example_binding_def example_judge_def py_sum_def fsub_def fl_nonneg)

lemma judged_returns:
  assumes "judged = [] \<or> judged = [example_opinion]"
  shows "\<exists>res. evaluate_attempt (grading_env Py311) (judged_plan\<lparr>gp_receipt := receipt\<rparr>) []
    (example_attempt\<lparr>ae_qualitative_results := judged\<rparr>) = Inr res"
proof -
  let ?plan = "judged_plan\<lparr>gp_receipt := receipt\<rparr>" and ?a = "example_attempt\<lparr>ae_qualitative_results := judged\<rparr>"
  have bindings: "gp_bindings ?plan = [example_binding ''m-a'' w70, example_judge]"
    and weights: "deterministic_weights (gp_bindings judged_plan) = [w70]"
    by (simp_all add: judged_plan_def deterministic_weights_def example_binding_def example_judge_def)
  have resolved: "plan_grader ?plan [] (gb_installation b) = Inr (Forbidden_grader [''leak''] ''m-c'' None)"
    if "b \<in> set (deterministic_bindings (gp_bindings ?plan))" for b
    using that by (auto simp: judged_plan_def grading_plan_def example_binding_def example_judge_def plan_grader_def)
  have "\<exists>res. evaluate_attempt (grading_env Py311) ?plan [] ?a = Inr res \<and> outcome_ok (er_outcome (el_record res)) \<and>
      record_ok (el_record res)"
  proof (rule evaluation_returns)
    show "validate_plan (en_python (grading_env Py311)) (gp_bindings ?plan) = Inr ()"
      using judged_plan_valid by simp
    show "attempt_ready ?plan ?a"
      using assms example_names example_digest_ok
      by (auto simp: attempt_ready_def example_attempt_def example_opinion_def nonneg_option_def unit_score_def
          qualitative_bindings_def judged_plan_def example_binding_def example_judge_def)
    show "parsers_ok (grading_env Py311)"
      by (simp add: parsers_ok_def receipts_parse_def only_decode_errors_def grading_env_def)
    show "list_all binding_ok (gp_bindings ?plan)"
      using weights_positive(1,4) example_names
      by (simp add: bindings example_binding_def example_judge_def binding_ok_def w30_unit less_imp_le)
    show "\<forall>b \<in> set (deterministic_bindings (gp_bindings ?plan)).
      \<exists>g. plan_grader ?plan [] (gb_installation b) = Inr g \<and> is_deterministic g"
      using resolved by auto
    show "\<forall>b \<in> set (deterministic_bindings (gp_bindings ?plan)). \<forall>g. plan_grader ?plan [] (gb_installation b) = Inr g \<longrightarrow>
      grader_ready (grading_env Py311) g \<and> \<not> missing_observed g (ae_context ?a)"
      using resolved by (auto simp: grader_ready_def rules_of_def missing_observed_def)
  qed (use weights_positive(4) in \<open>simp_all add: judged_weight weights w70_def [symmetric] fold_sum_def fadd_def\<close>)
  then show ?thesis by blast
qed

theorem judges_never_move_mission_witness:
  "\<exists>res res'. evaluate_attempt (grading_env Py311) judged_plan [] example_attempt = Inr res \<and>
     evaluate_attempt (grading_env Py311) (judged_plan\<lparr>gp_receipt := Some example_receipt\<rparr>) []
       (example_attempt\<lparr>ae_qualitative_results := [example_opinion]\<rparr>) = Inr res' \<and>
     ov_mission_success (er_outcome (el_record res')) = ov_mission_success (er_outcome (el_record res))"
proof -
  have same: "judged_plan\<lparr>gp_receipt := None\<rparr> = judged_plan" "example_attempt\<lparr>ae_qualitative_results := []\<rparr> = example_attempt"
    by (simp_all add: judged_plan_def example_attempt_def)
  obtain res where res: "evaluate_attempt (grading_env Py311) judged_plan [] example_attempt = Inr res"
    using judged_returns [of "[]" None] by (auto simp: same)
  obtain res' where res': "evaluate_attempt (grading_env Py311) (judged_plan\<lparr>gp_receipt := Some example_receipt\<rparr>) []
       (example_attempt\<lparr>ae_qualitative_results := [example_opinion]\<rparr>) = Inr res'"
    using judged_returns [of "[example_opinion]" "Some example_receipt"] by auto
  have "validate_plan (en_python (grading_env Py311)) (gp_bindings judged_plan) = Inr ()"
    by (simp add: judged_plan_valid)
  from judges_never_move_mission [OF this res res'] show ?thesis
    using res res' by (auto simp: Let_def)
qed

theorem validated_declaration_compiles_witness:
  "\<exists>g. builtin_grader (grading_env Py311) example_guard ''m-a'' grading_scenario = Inr g \<and> is_deterministic g"
proof -
  have "validate_declaration (\<lambda>_. a64) example_guard = Inr example_guard"
    using example_guard_valid by (simp add: example_guard_def validate_grader_spec_def EXECUTABLE_CONFIG_TOKENS_def
      contains_def casefold_def lower_char_def upper_char_def)
  from validated_declaration_compiles [OF this, of "grading_env Py311" "''m-a''" grading_scenario]
  show ?thesis by (simp add: example_guard_def)
qed


end
