(* ===== verification/Factor_Mechanisms.thy ===== *)
theory Factor_Mechanisms
  imports Grader_Models
begin

text \<open>
  The mechanisms of the factor runtime: plans, verification before finalization, checkpoint recovery
  and treatment fidelity (\<open>src/backend/factors_v1\<close>: \<open>models.py\<close>, \<open>planning.py\<close>, \<open>verification.py\<close>,
  \<open>recovery.py\<close> and \<open>fidelity.py\<close>).

  A model that the code constructs itself is checked by its validator here; values that arrive as
  models have passed theirs. A plan is a state machine per step, and a history of plans is shown to be
  a run of it.
\<close>

record evidence_pointer =
  ep_source_id :: string
  ep_uri :: string
  ep_content_hash :: string

record treatment_budget =
  tb_compute_units :: int
  tb_context_bytes :: int

section \<open>Plans\<close>

datatype plan_step_state = Step_pending | Step_in_progress | Step_completed | Step_failed

record plan_step =
  pl_step_id :: string
  pl_description :: string
  pl_state :: plan_step_state
  pl_terminal_evidence :: "evidence_pointer option"

record plan_artifact =
  pa_episode_id :: string
  pa_plan_id :: string
  pa_steps :: "plan_step list"

definition terminal_state :: "plan_step_state \<Rightarrow> bool" where
  "terminal_state s \<longleftrightarrow> s \<in> {Step_completed, Step_failed}"

definition new_plan_step :: "plan_step \<Rightarrow> plan_step result" where
  "new_plan_step s =
     bind_r (raise_if (\<not> is_identifier (pl_step_id s) \<or> pl_description s = []) (ValueError ''PlanStep'')) (\<lambda>_.
     bind_r (raise_if (terminal_state (pl_state s) \<and> pl_terminal_evidence s = None)
       (ValueError ''terminal plan steps require terminal evidence'')) (\<lambda>_.
     bind_r (raise_if (\<not> terminal_state (pl_state s) \<and> pl_terminal_evidence s \<noteq> None)
       (ValueError ''only terminal plan steps may carry terminal evidence'')) (\<lambda>_.
     Inr s)))"

definition new_plan_artifact :: "plan_artifact \<Rightarrow> plan_artifact result" where
  "new_plan_artifact p =
     bind_r (raise_if (\<not> is_identifier (pa_episode_id p) \<or> \<not> is_identifier (pa_plan_id p) \<or> pa_steps p = [])
       (ValueError ''PlanArtifact'')) (\<lambda>_.
     bind_r (raise_if (\<not> distinct (map pl_step_id (pa_steps p)))
       (ValueError ''plan step ids must be unique and immutable'')) (\<lambda>_.
     Inr p))"

definition create_plan :: "string \<Rightarrow> string \<Rightarrow> (string \<times> string) list \<Rightarrow> plan_artifact result" where
  "create_plan episode_id plan_id steps =
     bind_r (map_r (\<lambda>(step_id, description). new_plan_step
       \<lparr>pl_step_id = step_id, pl_description = description, pl_state = Step_pending, pl_terminal_evidence = None\<rparr>) steps) (\<lambda>ss.
     new_plan_artifact \<lparr>pa_episode_id = episode_id, pa_plan_id = plan_id, pa_steps = ss\<rparr>)"

fun TRANSITIONS :: "plan_step_state \<Rightarrow> plan_step_state list" where
  "TRANSITIONS Step_pending = [Step_in_progress]"
| "TRANSITIONS Step_in_progress = [Step_completed, Step_failed]"
| "TRANSITIONS Step_completed = []"
| "TRANSITIONS Step_failed = []"

text \<open>
  The code takes the new state as a string; one that names no state is in no entry of the table and is
  refused like any other illegal transition.
\<close>

definition transition_plan_step ::
  "plan_artifact \<Rightarrow> string \<Rightarrow> plan_step_state \<Rightarrow> evidence_pointer option \<Rightarrow> plan_artifact result" where
  "transition_plan_step plan step_id state evidence =
     (case List.find (\<lambda>s. pl_step_id s = step_id) (pa_steps plan) of
        None \<Rightarrow> Inl (ValueError ''unknown plan step'')
      | Some current \<Rightarrow>
          bind_r (raise_if (state \<notin> set (TRANSITIONS (pl_state current)))
            (ValueError ''invalid plan transition'')) (\<lambda>_.
          bind_r (raise_if (terminal_state state \<and> evidence = None)
            (ValueError ''terminal plan steps require terminal evidence'')) (\<lambda>_.
          bind_r (raise_if (\<not> terminal_state state \<and> evidence \<noteq> None)
            (ValueError ''terminal evidence is only valid for terminal steps'')) (\<lambda>_.
          bind_r (new_plan_step \<lparr>pl_step_id = pl_step_id current, pl_description = pl_description current,
            pl_state = state, pl_terminal_evidence = evidence\<rparr>) (\<lambda>replacement.
          Inr (plan\<lparr>pa_steps := map (\<lambda>s. if pl_step_id s = step_id then replacement else s) (pa_steps plan)\<rparr>))))))"

section \<open>Verification before finalization\<close>

record verification_check =
  vc_check_id :: string
  vc_passed :: bool
  vc_detail :: string
  vc_evidence :: "evidence_pointer list"

record finalization_candidate =
  fc_episode_id :: string
  fc_response_hash :: string

record repair_attempt =
  ra_repair_id :: string
  ra_episode_id :: string
  ra_original_candidate_response_hash :: string
  ra_response_hash :: string
  ra_checks :: "verification_check list"
  ra_evidence :: "evidence_pointer list"

record verification_artifact =
  va_episode_id :: string
  va_candidate_response_hash :: string
  va_final_response_hash :: "string option"
  va_checks :: "verification_check list"
  va_repair_evidence :: "evidence_pointer list"
  va_repairs_used :: int
  va_finalization_allowed :: bool
  va_failure_reason :: "string option"

definition all_pass :: "verification_check list \<Rightarrow> bool" where
  "all_pass checks \<longleftrightarrow> checks \<noteq> [] \<and> list_all (\<lambda>c. vc_passed c \<and> vc_evidence c \<noteq> []) checks"

definition check_ids :: "verification_check list \<Rightarrow> string set result" where
  "check_ids checks =
     bind_r (raise_if (\<not> distinct (map vc_check_id checks)) (ValueError ''verification check ids must be unique'')) (\<lambda>_.
     Inr (set (map vc_check_id checks)))"

definition verification_held ::
  "finalization_candidate \<Rightarrow> verification_check list \<Rightarrow> evidence_pointer list \<Rightarrow> int \<Rightarrow> string \<Rightarrow> verification_artifact" where
  "verification_held candidate checks evidence repairs reason =
     \<lparr>va_episode_id = fc_episode_id candidate, va_candidate_response_hash = fc_response_hash candidate,
      va_final_response_hash = None, va_checks = checks, va_repair_evidence = evidence, va_repairs_used = repairs,
      va_finalization_allowed = False, va_failure_reason = Some reason\<rparr>"

definition verification_allowed ::
  "finalization_candidate \<Rightarrow> string \<Rightarrow> verification_check list \<Rightarrow> evidence_pointer list \<Rightarrow> int \<Rightarrow> verification_artifact" where
  "verification_allowed candidate final checks evidence repairs =
     \<lparr>va_episode_id = fc_episode_id candidate, va_candidate_response_hash = fc_response_hash candidate,
      va_final_response_hash = Some final, va_checks = checks, va_repair_evidence = evidence, va_repairs_used = repairs,
      va_finalization_allowed = True, va_failure_reason = None\<rparr>"

definition verify_before_finalization ::
  "finalization_candidate \<Rightarrow> verification_check list \<Rightarrow> repair_attempt option \<Rightarrow> int \<Rightarrow> verification_artifact result" where
  "verify_before_finalization candidate checks repair repair_budget =
     bind_r (raise_if (repair_budget \<noteq> 1) (ValueError ''the verification repair budget is exactly one'')) (\<lambda>_.
     bind_r (check_ids checks) (\<lambda>initial_check_ids.
     if checks = [] then Inr (verification_held candidate [] [] 0 ''verification evidence is missing'')
     else if all_pass checks then
       bind_r (raise_if (repair \<noteq> None) (ValueError ''repair is not permitted after successful verification'')) (\<lambda>_.
       Inr (verification_allowed candidate (fc_response_hash candidate) checks [] 0))
     else
     (case repair of
        None \<Rightarrow> Inr (verification_held candidate checks [] 0
          ''verification failed and no bounded repair evidence was supplied'')
      | Some r \<Rightarrow>
          bind_r (raise_if (ra_episode_id r \<noteq> fc_episode_id candidate)
            (ValueError ''repair episode_id does not bind the candidate'')) (\<lambda>_.
          bind_r (raise_if (ra_original_candidate_response_hash r \<noteq> fc_response_hash candidate)
            (ValueError ''repair original candidate hash does not bind the candidate'')) (\<lambda>_.
          bind_r (raise_if (ra_response_hash r = ra_original_candidate_response_hash r)
            (ValueError ''repair response_hash must differ from the original candidate'')) (\<lambda>_.
          bind_r (check_ids (ra_checks r)) (\<lambda>repair_check_ids.
          bind_r (raise_if (repair_check_ids \<noteq> initial_check_ids)
            (ValueError ''repair checks must cover exactly the original check ids'')) (\<lambda>_.
          if ra_evidence r = [] \<or> \<not> all_pass (ra_checks r)
          then Inr (verification_held candidate (ra_checks r) (ra_evidence r) 1
            ''the single repair did not produce evidence-linked passing checks'')
          else Inr (verification_allowed candidate (ra_response_hash r) (ra_checks r) (ra_evidence r) 1)))))))))"

section \<open>Recovery\<close>

datatype failure_class = Transient | Undeclared | Permanent | Safety

record failure_event =
  fe_episode_id :: string
  fe_attempt_id :: string
  fe_failure_id :: string
  fe_failure_class :: failure_class

record checkpoint_artifact =
  ck_checkpoint_id :: string
  ck_episode_id :: string
  ck_attempt_id :: string
  ck_sequence :: int
  ck_state_hash :: string
  ck_provenance :: evidence_pointer

record recovery_policy =
  rp_max_retries :: int
  rp_declared_transient_failures :: "string list"

record recovery_decision =
  rd_allowed :: bool
  rd_reason :: string
  rd_retry_number :: "int option"
  rd_idempotency_key :: string
  rd_checkpoint_id :: "string option"

definition refuse_recovery :: "string \<Rightarrow> string \<Rightarrow> recovery_decision" where
  "refuse_recovery key reason = \<lparr>rd_allowed = False, rd_reason = reason, rd_retry_number = None,
     rd_idempotency_key = key, rd_checkpoint_id = None\<rparr>"

definition authorize_recovery ::
  "failure_event \<Rightarrow> checkpoint_artifact option \<Rightarrow> recovery_policy \<Rightarrow> int \<Rightarrow> string \<Rightarrow> int list \<Rightarrow> string list
    \<Rightarrow> recovery_decision result" where
  "authorize_recovery failure checkpoint policy retries_used key observed_sequences used_keys =
     (let refuse = (\<lambda>reason. Inr (refuse_recovery key reason)) in
     bind_r (raise_if (key = []) (ValueError ''recovery requires an idempotency key'')) (\<lambda>_.
     if key \<in> set used_keys then refuse ''idempotency key was already used''
     else
     bind_r (raise_if (retries_used < 0) (ValueError ''retries_used cannot be negative'')) (\<lambda>_.
     if fe_failure_class failure \<noteq> Transient then refuse ''only declared transient failures may recover''
     else if fe_failure_id failure \<notin> set (rp_declared_transient_failures policy)
     then refuse ''transient failure is not declared by policy''
     else if retries_used \<ge> rp_max_retries policy then refuse ''recovery retry budget exhausted''
     else
     (case checkpoint of
        None \<Rightarrow> refuse ''recovery requires checkpoint provenance''
      | Some c \<Rightarrow>
          if ep_content_hash (ck_provenance c) \<noteq> ck_state_hash c
          then refuse ''checkpoint provenance does not bind its state hash''
          else if ck_episode_id c \<noteq> fe_episode_id failure \<or> ck_attempt_id c \<noteq> fe_attempt_id failure
          then refuse ''checkpoint provenance does not belong to the failed attempt''
          else if ck_sequence c \<notin> set observed_sequences
          then refuse ''checkpoint sequence was not observed for the failed attempt''
          else Inr \<lparr>rd_allowed = True, rd_reason = ''declared transient failure may recover'',
            rd_retry_number = Some (retries_used + 1), rd_idempotency_key = key,
            rd_checkpoint_id = Some (ck_checkpoint_id c)\<rparr>))))"

section \<open>Treatment fidelity\<close>

datatype mechanism_mode = Active | Sham

record compiled_mechanism =
  me_factor_id :: string
  me_selected_level :: bool
  me_mode :: mechanism_mode
  me_configuration :: assignment
  me_configuration_hash :: string
  me_treatment_budget :: treatment_budget
  me_required_capabilities :: "string list"
  me_fidelity_oracles :: "string list"

record compiled_recipe =
  re_recipe_id :: string
  re_assignment :: "(string \<times> bool) list"
  re_mechanisms :: "compiled_mechanism list"
  re_configuration_hash :: string
  re_profile_id :: string

record manipulation_fidelity =
  mf_factor_id :: string
  mf_expected_level :: bool
  mf_observed_level :: bool
  mf_mode :: mechanism_mode
  mf_compute_context_matched :: bool
  mf_delivered :: bool
  mf_evidence :: "evidence_pointer list"

definition key_of :: "(string \<times> 'a) list \<Rightarrow> string \<Rightarrow> 'a result" where
  "key_of d k = (case map_of d k of None \<Rightarrow> Inl (KeyError k) | Some v \<Rightarrow> Inr v)"

fun bool_of_level :: "level \<Rightarrow> bool" where
  "bool_of_level (LBool b) = b"
| "bool_of_level (LInt i) = (i \<noteq> 0)"
| "bool_of_level (LStr s) = (s \<noteq> [])"

definition mechanism_fidelity ::
  "assignment \<Rightarrow> (string \<times> treatment_budget) list \<Rightarrow> evidence_pointer list \<Rightarrow> compiled_mechanism \<Rightarrow> manipulation_fidelity result" where
  "mechanism_fidelity observed_assignment observed_budgets evidence mechanism =
     bind_r (key_of observed_assignment (me_factor_id mechanism)) (\<lambda>level.
     bind_r (key_of observed_budgets (me_factor_id mechanism)) (\<lambda>budget.
     let observed = bool_of_level level; matched = (budget = me_treatment_budget mechanism) in
     Inr \<lparr>mf_factor_id = me_factor_id mechanism, mf_expected_level = me_selected_level mechanism,
          mf_observed_level = observed, mf_mode = me_mode mechanism, mf_compute_context_matched = matched,
          mf_delivered = (observed = me_selected_level mechanism \<and> matched), mf_evidence = evidence\<rparr>))"

definition check_manipulation_fidelity ::
  "compiled_recipe \<Rightarrow> assignment \<Rightarrow> (string \<times> treatment_budget) list \<Rightarrow> evidence_pointer list
    \<Rightarrow> manipulation_fidelity list result" where
  "check_manipulation_fidelity recipe observed_assignment observed_budgets evidence =
     bind_r (raise_if (evidence = []) (ValueError ''manipulation fidelity requires delivery evidence'')) (\<lambda>_.
     bind_r (raise_if (set (map fst observed_assignment) \<noteq> set (map fst (re_assignment recipe)) \<or>
         \<not> list_all (is_LBool \<circ> snd) observed_assignment)
       (ValueError ''observed assignment must strictly cover the compiled recipe'')) (\<lambda>_.
     bind_r (raise_if (set (map fst observed_budgets) \<noteq> set (map fst (re_assignment recipe)))
       (ValueError ''observed treatment budgets must strictly cover the compiled recipe'')) (\<lambda>_.
     map_r (mechanism_fidelity observed_assignment observed_budgets evidence) (re_mechanisms recipe))))"

section \<open>Plans are a state machine\<close>

definition step_ok :: "plan_step \<Rightarrow> bool" where
  "step_ok s \<longleftrightarrow> is_identifier (pl_step_id s) \<and> pl_description s \<noteq> [] \<and>
     (terminal_state (pl_state s) \<longleftrightarrow> pl_terminal_evidence s \<noteq> None)"

definition plan_ok :: "plan_artifact \<Rightarrow> bool" where
  "plan_ok p \<longleftrightarrow> is_identifier (pa_episode_id p) \<and> is_identifier (pa_plan_id p) \<and> pa_steps p \<noteq> [] \<and>
     distinct (map pl_step_id (pa_steps p)) \<and> list_all step_ok (pa_steps p)"

lemma new_plan_step_Inr_iff: "new_plan_step s = Inr t \<longleftrightarrow> t = s \<and> step_ok s"
  by (auto simp: new_plan_step_def step_ok_def)

lemma create_plan_ok:
  assumes "create_plan e i steps = Inr p"
  shows "plan_ok p \<and> list_all (\<lambda>s. pl_state s = Step_pending) (pa_steps p) \<and>
    map (\<lambda>s. (pl_step_id s, pl_description s)) (pa_steps p) = steps"
proof -
  from assms obtain ss where ss: "map_r (\<lambda>(step_id, description). new_plan_step
      \<lparr>pl_step_id = step_id, pl_description = description, pl_state = Step_pending, pl_terminal_evidence = None\<rparr>) steps = Inr ss"
      and p: "new_plan_artifact \<lparr>pa_episode_id = e, pa_plan_id = i, pa_steps = ss\<rparr> = Inr p"
    by (auto simp: create_plan_def tx_simps)
  have "step_ok s \<and> pl_state s = Step_pending" if "s \<in> set ss" for s
    using map_r_set [OF ss that] by (auto simp: new_plan_step_Inr_iff)
  then have "list_all step_ok ss" "list_all (\<lambda>s. pl_state s = Step_pending) ss"
    by (simp_all add: list_all_iff)
  moreover have "map (\<lambda>s. (pl_step_id s, pl_description s)) ss = map id steps"
    by (rule map_r_map [OF ss]) (auto simp: new_plan_step_Inr_iff)
  ultimately show ?thesis
    using p by (auto simp: new_plan_artifact_def plan_ok_def)
qed

text \<open>One transition changes the one step it names, along the table, and keeps everything else.\<close>

inductive plan_move :: "plan_artifact \<Rightarrow> plan_artifact \<Rightarrow> bool" where
  move: "plan_move p (p\<lparr>pa_steps := (pa_steps p)[i := s']\<rparr>)"
  if "i < length (pa_steps p)" and "s = pa_steps p ! i" and "s' = s\<lparr>pl_state := st, pl_terminal_evidence := ev\<rparr>"
    and "st \<in> set (TRANSITIONS (pl_state s))" and "terminal_state st \<longleftrightarrow> ev \<noteq> None"

lemma plan_moveE:
  assumes "plan_move p q"
  obtains i s s' st ev where "i < length (pa_steps p)" "s = pa_steps p ! i" "s' = s\<lparr>pl_state := st, pl_terminal_evidence := ev\<rparr>"
    "st \<in> set (TRANSITIONS (pl_state s))" "terminal_state st \<longleftrightarrow> ev \<noteq> None" "q = p\<lparr>pa_steps := (pa_steps p)[i := s']\<rparr>"
  using assms by (rule plan_move.cases) blast

lemma find_nth_distinct:
  assumes "distinct (map key xs)" and "i < length xs"
  shows "List.find (\<lambda>x. key x = key (xs ! i)) xs = Some (xs ! i)"
  using assms
proof (induction xs arbitrary: i)
  case (Cons x xs)
  then show ?case by (cases i) (auto simp: nth_mem image_iff)
qed simp

lemma map_replace_distinct:
  assumes "distinct (map key xs)" and "i < length xs"
  shows "map (\<lambda>x. if key x = key (xs ! i) then y else x) xs = xs[i := y]"
proof (rule nth_equalityI)
  have "key (xs ! j) = key (xs ! i) \<longleftrightarrow> j = i" if "j < length xs" for j
    using nth_eq_iff_index_eq [OF assms(1), of j i] assms(2) that by simp
  then show "map (\<lambda>x. if key x = key (xs ! i) then y else x) xs ! j = xs[i := y] ! j"
    if "j < length (map (\<lambda>x. if key x = key (xs ! i) then y else x) xs)" for j
    using that by (auto simp: nth_list_update)
qed simp

lemma find_Some_nth: "List.find P xs = Some x \<Longrightarrow> \<exists>i < length xs. x = xs ! i \<and> P x"
  by (induction xs) (auto split: if_splits simp: less_Suc_eq_0_disj)

lemma replacement_step:
  "\<lparr>pl_step_id = pl_step_id s, pl_description = pl_description s, pl_state = st, pl_terminal_evidence = ev\<rparr> =
     s\<lparr>pl_state := st, pl_terminal_evidence := ev\<rparr>"
  by (cases s) simp

lemma transition_plan_step_iff:
  assumes "plan_ok p"
  shows "(\<exists>step_id st ev. transition_plan_step p step_id st ev = Inr q) \<longleftrightarrow> plan_move p q"
proof
  assume "\<exists>step_id st ev. transition_plan_step p step_id st ev = Inr q"
  then obtain step_id st ev where t: "transition_plan_step p step_id st ev = Inr q" by blast
  then obtain s where s: "List.find (\<lambda>s. pl_step_id s = step_id) (pa_steps p) = Some s"
    by (auto simp: transition_plan_step_def split: option.splits)
  from find_Some_nth [OF s] obtain i where i: "i < length (pa_steps p)" "s = pa_steps p ! i" "pl_step_id s = step_id"
    by blast
  have d: "distinct (map pl_step_id (pa_steps p))" using assms by (simp add: plan_ok_def)
  have "q = p\<lparr>pa_steps := (pa_steps p)[i := s\<lparr>pl_state := st, pl_terminal_evidence := ev\<rparr>]\<rparr>"
    and "st \<in> set (TRANSITIONS (pl_state s))" and "terminal_state st \<longleftrightarrow> ev \<noteq> None"
    using t s i(3) map_replace_distinct [OF d i(1), folded i(2), unfolded i(3)]
    by (auto simp: transition_plan_step_def new_plan_step_Inr_iff replacement_step tx_simps)
  then show "plan_move p q" using i(1,2) by (auto intro: plan_move.intros)
next
  assume "plan_move p q"
  then obtain i s s' st ev where m: "i < length (pa_steps p)" "s = pa_steps p ! i"
      "s' = s\<lparr>pl_state := st, pl_terminal_evidence := ev\<rparr>" "st \<in> set (TRANSITIONS (pl_state s))" "terminal_state st \<longleftrightarrow> ev \<noteq> None"
      "q = p\<lparr>pa_steps := (pa_steps p)[i := s']\<rparr>"
    by (rule plan_moveE)
  have d: "distinct (map pl_step_id (pa_steps p))" and "step_ok s"
    using assms m by (auto simp: plan_ok_def list_all_iff)
  have "transition_plan_step p (pl_step_id s) st ev = Inr q"
    using m d \<open>step_ok s\<close> find_nth_distinct [OF d m(1)] map_replace_distinct [OF d m(1)]
    by (cases ev) (simp_all add: transition_plan_step_def new_plan_step_def step_ok_def replacement_step)
  then show "\<exists>step_id st ev. transition_plan_step p step_id st ev = Inr q" by blast
qed

lemma plan_move_ok:
  assumes "plan_ok p" and "plan_move p q"
  shows "plan_ok q"
proof -
  from assms(2) obtain i s s' st ev where 1: "i < length (pa_steps p)" "s = pa_steps p ! i"
      "s' = s\<lparr>pl_state := st, pl_terminal_evidence := ev\<rparr>" "st \<in> set (TRANSITIONS (pl_state s))" "terminal_state st \<longleftrightarrow> ev \<noteq> None"
      "q = p\<lparr>pa_steps := (pa_steps p)[i := s']\<rparr>"
    by (rule plan_moveE)
  have "map pl_step_id ((pa_steps p)[i := s']) = map pl_step_id (pa_steps p)"
    using 1 by (simp add: map_update list_update_same_conv)
  moreover have "step_ok s'"
    using assms(1) 1 by (auto simp: plan_ok_def list_all_iff step_ok_def)
  ultimately show ?thesis
    using assms(1) 1 by (auto simp: plan_ok_def list_all_iff dest!: set_update_subset_insert [THEN subsetD])
qed

text \<open>A terminal step never changes again, and a step never goes back.\<close>

definition step_evolves :: "plan_step \<Rightarrow> plan_step \<Rightarrow> bool" where
  "step_evolves s t \<longleftrightarrow> pl_step_id t = pl_step_id s \<and> pl_description t = pl_description s \<and>
     (t = s \<or> pl_state s = Step_pending \<and> pl_state t \<noteq> Step_pending \<or> pl_state s = Step_in_progress \<and> terminal_state (pl_state t))"

lemma step_evolves_refl [simp]: "step_evolves s s"
  by (simp add: step_evolves_def)

lemma step_evolves_trans: "step_evolves s t \<Longrightarrow> step_evolves t u \<Longrightarrow> step_evolves s u"
  by (auto simp: step_evolves_def terminal_state_def)

lemma plan_move_evolves:
  assumes "plan_move p q"
  shows "pa_episode_id q = pa_episode_id p \<and> pa_plan_id q = pa_plan_id p \<and>
    list_all2 step_evolves (pa_steps p) (pa_steps q)"
proof -
  from assms obtain i s s' st ev where 1: "i < length (pa_steps p)" "s = pa_steps p ! i"
      "s' = s\<lparr>pl_state := st, pl_terminal_evidence := ev\<rparr>" "st \<in> set (TRANSITIONS (pl_state s))" "terminal_state st \<longleftrightarrow> ev \<noteq> None"
      "q = p\<lparr>pa_steps := (pa_steps p)[i := s']\<rparr>"
    by (rule plan_moveE)
  have "step_evolves s s'"
    using 1 by (cases "pl_state s") (auto simp: step_evolves_def terminal_state_def)
  then show ?thesis
    using 1 by (auto simp: list_all2_conv_all_nth nth_list_update)
qed

lemma plan_run_evolves:
  assumes "plan_move\<^sup>*\<^sup>* p q"
  shows "pa_episode_id q = pa_episode_id p \<and> pa_plan_id q = pa_plan_id p \<and>
    list_all2 step_evolves (pa_steps p) (pa_steps q)"
  using assms
proof induction
  case base
  then show ?case by (simp add: list_all2_refl)
next
  case (step q r)
  then show ?case
    using plan_move_evolves [OF step.hyps(2)] by (auto intro: list_all2_trans [OF step_evolves_trans])
qed

end
