(* ===== verification/Factor_Recipes.thy ===== *)
theory Factor_Recipes
  imports Factor_Mechanisms Graders
begin

text \<open>
  Compiling a treatment arm into a recipe (\<open>src/backend/factors_v1/compiler.py\<close>).

  A factor has the fields the compiler reads beside those of \<open>factor_spec\<close>; \<open>rf_oracles\<close> are the oracles of
  its manipulation checks, in their order. Two arms of the same factors are shown to differ in nothing
  but what is switched on: a mechanism that is off is a sham with the same budget.
\<close>

record capability_requirement =
  cq_capability :: string
  cq_required :: bool

record runtime_factor = factor_spec +
  rf_declarative_config :: assignment
  rf_fixed_infrastructure :: assignment
  rf_prohibited_co_mutations :: "string list"
  rf_oracles :: "string list"
  rf_capability_requirements :: "capability_requirement list"

record harness_capabilities =
  hc_tools :: bool
  hc_state :: bool
  hc_checkpoint :: bool
  hc_memory :: bool
  hc_delegation :: bool
  hc_streaming :: bool
  hc_usage :: bool
  hc_sandboxing :: bool

definition get_capability :: "harness_capabilities \<Rightarrow> string \<Rightarrow> bool" where
  "get_capability c name =
     (case map_of [(''tools'', hc_tools c), (''state'', hc_state c), (''checkpoint'', hc_checkpoint c),
        (''memory'', hc_memory c), (''delegation'', hc_delegation c), (''streaming'', hc_streaming c),
        (''usage'', hc_usage c), (''sandboxing'', hc_sandboxing c)] name of None \<Rightarrow> False | Some b \<Rightarrow> b)"

datatype adapter_kind = Recorded | Native

record capability_profile =
  cf_profile_id :: string
  cf_adapter_kind :: adapter_kind
  cf_capabilities :: harness_capabilities

definition FLAGSHIP_FACTOR_IDS :: "string list" where
  "FLAGSHIP_FACTOR_IDS = [''planning'', ''verification'', ''recovery'', ''memory'']"

definition SHORT_FACTOR_IDS :: "(string \<times> string) list" where
  "SHORT_FACTOR_IDS = [(''p'', ''planning''), (''v'', ''verification''), (''r'', ''recovery''), (''m'', ''memory'')]"

definition flagship_factor :: "string \<Rightarrow> string \<Rightarrow> string \<Rightarrow> int \<Rightarrow> int \<Rightarrow> runtime_factor" where
  "flagship_factor factor_id mutation_target capability compute context =
     \<lparr>fs_factor_id = factor_id, fs_kind = Binary, fs_levels = [LBool False, LBool True], fs_baseline = Some (LBool False),
      fs_treatment_mutations = [\<lparr>tm_target = mutation_target, tm_level = LBool True\<rparr>],
      fs_manipulation_checks = [\<lparr>mc_factor_id = factor_id, mc_expected_value = LBool True\<rparr>],
      fs_sham_treatment = Some \<lparr>st_levels = [LBool False]\<rparr>, fs_no_op_levels = [], fs_incompatible_with = [],
      fs_incompatible_level_combinations = [],
      rf_declarative_config = [(''mechanism'', LStr factor_id), (''compute_units'', LInt compute), (''context_bytes'', LInt context)],
      rf_fixed_infrastructure = [(''runtime'', LStr ''factors_v1''), (''runtime_state'', LStr ''not_run'')],
      rf_prohibited_co_mutations = [''provider'', ''model'', ''sampling'', ''task_prompt'', ''evaluator''],
      rf_oracles = [factor_id @ ''-delivery''],
      rf_capability_requirements = [\<lparr>cq_capability = capability, cq_required = True\<rparr>]\<rparr>"

definition FLAGSHIP_FACTORS :: "runtime_factor list" where
  "FLAGSHIP_FACTORS =
     [flagship_factor ''planning'' ''planning'' ''state'' 2 1024,
      flagship_factor ''verification'' ''verification'' ''state'' 2 1024,
      flagship_factor ''recovery'' ''recovery'' ''checkpoint'' 2 1024,
      flagship_factor ''memory'' ''memory'' ''memory'' 2 1024]"

definition CAPABLE_RECORDED_PROFILE :: capability_profile where
  "CAPABLE_RECORDED_PROFILE = \<lparr>cf_profile_id = ''recorded-capable-v1'', cf_adapter_kind = Recorded,
     cf_capabilities = \<lparr>hc_tools = False, hc_state = True, hc_checkpoint = True, hc_memory = True, hc_delegation = False,
       hc_streaming = False, hc_usage = False, hc_sandboxing = False\<rparr>\<rparr>"

section \<open>The checks\<close>

definition is_strict_binary :: "runtime_factor \<Rightarrow> bool" where
  "is_strict_binary f \<longleftrightarrow> fs_kind f = Binary \<and> list_all2 level_eq (fs_levels f) [LBool False, LBool True] \<and>
     baseline_value (factor_spec.truncate f) = LBool False"

definition add_factor :: "runtime_factor \<Rightarrow> (string \<times> runtime_factor) list \<Rightarrow> (string \<times> runtime_factor) list result" where
  "add_factor f d =
     bind_r (raise_if (fs_factor_id f \<notin> set FLAGSHIP_FACTOR_IDS \<or> fs_factor_id f \<in> set (map fst d))
       (RecipeCompilationError ''factor declarations must be exactly planning, verification, recovery, memory'')) (\<lambda>_.
     bind_r (raise_if (\<not> is_strict_binary f)
       (RecipeCompilationError ''must be a false/true binary factor with false baseline'')) (\<lambda>_.
     Inr (d @ [(fs_factor_id f, f)])))"

definition by_id :: "runtime_factor list \<Rightarrow> (string \<times> runtime_factor) list result" where
  "by_id factors =
     bind_r (raise_if (length factors \<noteq> 4)
       (RecipeCompilationError ''the flagship runtime requires exactly P/V/R/M factor declarations'')) (\<lambda>_.
     for_each add_factor factors [])"

definition assert_capabilities :: "runtime_factor \<Rightarrow> capability_profile \<Rightarrow> string list result" where
  "assert_capabilities f profile =
     (let required = map cq_capability (filter cq_required (rf_capability_requirements f)) in
     bind_r (raise_if (\<not> list_all (get_capability (cf_capabilities profile)) required)
       (RecipeCompilationError (fs_factor_id f @ '' requires unavailable capabilities''))) (\<lambda>_.
     Inr required))"

definition merge_fixed :: "string \<times> level \<Rightarrow> assignment \<Rightarrow> assignment result" where
  "merge_fixed entry fixed =
     (case entry of (key, v) \<Rightarrow>
      bind_r (raise_if (case map_of fixed key of None \<Rightarrow> False | Some w \<Rightarrow> \<not> level_eq w v)
        (RecipeCompilationError (''fixed infrastructure conflict for '' @ key))) (\<lambda>_.
      Inr (AList.update key v fixed)))"

definition assert_compatible :: "(string \<times> bool) list \<Rightarrow> string \<times> runtime_factor \<Rightarrow> unit \<Rightarrow> unit result" where
  "assert_compatible assignment entry u =
     (case entry of (factor_id, f) \<Rightarrow>
      bind_r (key_of assignment factor_id) (\<lambda>selected.
      if \<not> selected then Inr ()
      else
        bind_r (raise_if (list_ex (\<lambda>other. map_of assignment other = Some True) (fs_incompatible_with f))
          (RecipeCompilationError (factor_id @ '' has an incompatible active factor''))) (\<lambda>_.
        raise_if (list_ex (\<lambda>c. list_all (\<lambda>(key, v). case map_of assignment key of
            None \<Rightarrow> False | Some b \<Rightarrow> level_eq (LBool b) v) (lc_assignments c)) (fs_incompatible_level_combinations f))
          (RecipeCompilationError (factor_id @ '' has an incompatible declared level combination'')))))"

definition assert_no_conflicting_mutations :: "(string \<times> runtime_factor) list \<Rightarrow> (string \<times> bool) list \<Rightarrow> unit result" where
  "assert_no_conflicting_mutations factors assignment =
     (let active = map snd (filter (\<lambda>(key, _). map_of assignment key = Some True) factors);
          targets = concat (map (\<lambda>f. map tm_target (filter (\<lambda>m. tm_level m = LBool True) (fs_treatment_mutations f))) active);
          prohibited = concat (map rf_prohibited_co_mutations active) in
     bind_r (raise_if (\<not> distinct targets)
       (RecipeCompilationError ''active factors have conflicting treatment mutation targets'')) (\<lambda>_.
     bind_r (raise_if (set prohibited \<inter> set targets \<noteq> {})
       (RecipeCompilationError ''an active factor attempts a prohibited co-mutation'')) (\<lambda>_.
     bind_r (for_each merge_fixed (concat (map (rf_fixed_infrastructure \<circ> snd) factors)) []) (\<lambda>_.
     for_each (assert_compatible assignment) factors ()))))"

section \<open>The recipe\<close>

text \<open>\<open>int(v)\<close>: surrounding blanks, a sign and single underscores between digits are allowed in a string.\<close>

definition int_of_text :: "string \<Rightarrow> int result" where
  "int_of_text s =
     (let t = strip s;
          sign = (if take 1 t = ''-'' then - 1 else 1);
          ds = (if take 1 t = ''-'' \<or> take 1 t = ''+'' then tl t else t) in
      if list_all (\<lambda>p. p \<noteq> [] \<and> list_all digit_char p) (split_on CHR ''_'' ds)
      then bind_r (int_of_string (concat (split_on CHR ''_'' ds))) (\<lambda>n. Inr (sign * int n))
      else Inl (ValueError ''invalid literal for int()''))"

fun level_int :: "level \<Rightarrow> int result" where
  "level_int (LInt i) = Inr i"
| "level_int (LBool b) = Inr (if b then 1 else 0)"
| "level_int (LStr s) = int_of_text s"

definition level_or :: "assignment \<Rightarrow> string \<Rightarrow> int \<Rightarrow> int result" where
  "level_or config key other = (case map_of config key of None \<Rightarrow> Inr other | Some v \<Rightarrow> level_int v)"

definition new_budget :: "int \<Rightarrow> int \<Rightarrow> treatment_budget result" where
  "new_budget compute context =
     bind_r (raise_if (compute < 1 \<or> 1000000 < compute \<or> context < 0 \<or> 100000000 < context) (ValueError ''TreatmentBudget'')) (\<lambda>_.
     Inr \<lparr>tb_compute_units = compute, tb_context_bytes = context\<rparr>)"

definition declared_budget :: "runtime_factor \<Rightarrow> treatment_budget result" where
  "declared_budget f =
     bind_r (level_or (rf_declarative_config f) ''compute_units'' 1) (\<lambda>compute.
     bind_r (level_or (rf_declarative_config f) ''context_bytes'' 0) (\<lambda>context.
     new_budget compute context))"

definition arm_configuration :: "runtime_factor \<Rightarrow> bool \<Rightarrow> assignment" where
  "arm_configuration f selected =
     AList.update ''treatment_mode'' (LStr (if selected then ''active'' else ''sham''))
       (AList.update ''enabled'' (LBool selected) (rf_declarative_config f))"

definition compile_mechanism ::
  "(json \<Rightarrow> string) \<Rightarrow> capability_profile \<Rightarrow> (string \<times> runtime_factor) list \<Rightarrow> (string \<times> bool) list
    \<Rightarrow> (string \<times> treatment_budget) list \<Rightarrow> string \<Rightarrow> compiled_mechanism result" where
  "compile_mechanism h profile specs assignment budgets factor_id =
     bind_r (key_of specs factor_id) (\<lambda>f.
     bind_r (assert_capabilities f profile) (\<lambda>required.
     bind_r (key_of assignment factor_id) (\<lambda>selected.
     bind_r (declared_budget f) (\<lambda>declared.
     bind_r (raise_if (case map_of budgets factor_id of None \<Rightarrow> False | Some b \<Rightarrow> b \<noteq> declared)
       (RecipeCompilationError ''treatment budgets must remain matched to the declared sham envelope'')) (\<lambda>_.
     Inr \<lparr>me_factor_id = factor_id, me_selected_level = selected, me_mode = (if selected then Active else Sham),
          me_configuration = arm_configuration f selected,
          me_configuration_hash = h (JObj (assignment_dump (arm_configuration f selected))),
          me_treatment_budget = declared, me_required_capabilities = required, me_fidelity_oracles = rf_oracles f\<rparr>)))))"

definition mechanism_json :: "compiled_mechanism \<Rightarrow> json" where
  "mechanism_json m = JObj
     [(''factor_id'', JStr (me_factor_id m)), (''selected_level'', JBool (me_selected_level m)),
      (''mode'', JStr (case me_mode m of Active \<Rightarrow> ''active'' | Sham \<Rightarrow> ''sham'')),
      (''configuration'', JObj (assignment_dump (me_configuration m))), (''configuration_hash'', JStr (me_configuration_hash m)),
      (''treatment_budget'', JObj [(''compute_units'', JInt (tb_compute_units (me_treatment_budget m))),
        (''context_bytes'', JInt (tb_context_bytes (me_treatment_budget m)))]),
      (''required_capabilities'', JArr (map JStr (me_required_capabilities m))),
      (''fidelity_oracles'', JArr (map JStr (me_fidelity_oracles m)))]"

definition normalized_assignment :: "assignment \<Rightarrow> assignment" where
  "normalized_assignment a =
     fold (\<lambda>(key, v). AList.update (case map_of SHORT_FACTOR_IDS key of None \<Rightarrow> key | Some k \<Rightarrow> k) v) a []"

definition compile_recipe ::
  "(json \<Rightarrow> string) \<Rightarrow> assignment \<Rightarrow> runtime_factor list \<Rightarrow> capability_profile \<Rightarrow> (string \<times> treatment_budget) list
    \<Rightarrow> compiled_recipe result" where
  "compile_recipe h assignment factors profile budgets =
     bind_r (by_id factors) (\<lambda>specs.
     let normalized = normalized_assignment assignment in
     bind_r (raise_if (set (map fst normalized) \<noteq> set FLAGSHIP_FACTOR_IDS \<or> \<not> list_all (is_LBool \<circ> snd) normalized)
       (RecipeCompilationError ''assignment must set every P/V/R/M factor to a strict boolean'')) (\<lambda>_.
     let typed = map (\<lambda>key. (key, bool_of_level (the (map_of normalized key)))) FLAGSHIP_FACTOR_IDS in
     bind_r (assert_no_conflicting_mutations specs typed) (\<lambda>_.
     bind_r (raise_if (\<not> set (map fst budgets) \<subseteq> set FLAGSHIP_FACTOR_IDS)
       (RecipeCompilationError ''treatment budgets reference an unknown factor'')) (\<lambda>_.
     bind_r (map_r (compile_mechanism h profile specs typed budgets) FLAGSHIP_FACTOR_IDS) (\<lambda>mechanisms.
     let digest = h (JObj [(''assignment'', JObj (map (\<lambda>(k, b). (k, JBool b)) typed)),
       (''mechanisms'', JArr (map mechanism_json mechanisms)), (''profile_id'', JStr (cf_profile_id profile))]) in
     Inr \<lparr>re_recipe_id = ''recipe-'' @ take 16 digest, re_assignment = typed, re_mechanisms = mechanisms,
          re_configuration_hash = digest, re_profile_id = cf_profile_id profile\<rparr>)))))"

fun bool_tuples :: "nat \<Rightarrow> bool list list" where
  "bool_tuples 0 = [[]]"
| "bool_tuples (Suc n) = concat (map (\<lambda>b. map (Cons b) (bool_tuples n)) [False, True])"

definition enumerate_flagship_recipes ::
  "(json \<Rightarrow> string) \<Rightarrow> capability_profile \<Rightarrow> runtime_factor list \<Rightarrow> compiled_recipe list result" where
  "enumerate_flagship_recipes h profile factors =
     map_r (\<lambda>bs. compile_recipe h (zip FLAGSHIP_FACTOR_IDS (map LBool bs)) factors profile []) (bool_tuples 4)"

section \<open>Arms of an experiment are matched\<close>

lemma key_of_Inr_iff [simp]: "key_of d k = Inr v \<longleftrightarrow> map_of d k = Some v"
  by (simp add: key_of_def split: option.split)

lemma arm_configuration_same:
  "k \<noteq> ''enabled'' \<Longrightarrow> k \<noteq> ''treatment_mode'' \<Longrightarrow> map_of (arm_configuration f b) k = map_of (rf_declarative_config f) k"
  by (simp add: arm_configuration_def update_conv')

text \<open>What is the same in a mechanism of two arms.\<close>

definition matched :: "compiled_mechanism \<Rightarrow> compiled_mechanism \<Rightarrow> bool" where
  "matched m m' \<longleftrightarrow> me_factor_id m = me_factor_id m' \<and> me_treatment_budget m = me_treatment_budget m' \<and>
     me_required_capabilities m = me_required_capabilities m' \<and> me_fidelity_oracles m = me_fidelity_oracles m' \<and>
     (\<forall>k. k \<noteq> ''enabled'' \<longrightarrow> k \<noteq> ''treatment_mode'' \<longrightarrow> map_of (me_configuration m) k = map_of (me_configuration m') k) \<and>
     (me_selected_level m = me_selected_level m' \<longrightarrow> m = m')"

lemma compile_mechanism_Inr:
  assumes "compile_mechanism h profile specs typed budgets i = Inr m"
  shows "\<exists>f selected required declared. map_of specs i = Some f \<and> map_of typed i = Some selected \<and>
    assert_capabilities f profile = Inr required \<and> declared_budget f = Inr declared \<and>
    m = \<lparr>me_factor_id = i, me_selected_level = selected, me_mode = (if selected then Active else Sham),
          me_configuration = arm_configuration f selected,
          me_configuration_hash = h (JObj (assignment_dump (arm_configuration f selected))),
          me_treatment_budget = declared, me_required_capabilities = required, me_fidelity_oracles = rf_oracles f\<rparr>"
  using assms by (auto simp: compile_mechanism_def tx_simps)

lemma compile_mechanism_matched:
  assumes "compile_mechanism h profile specs typed budgets i = Inr m"
    and "compile_mechanism h profile specs typed' budgets' i = Inr m'"
  shows "matched m m'"
  using compile_mechanism_Inr [OF assms(1)] compile_mechanism_Inr [OF assms(2)]
  by (auto simp: matched_def arm_configuration_same)

lemma list_all2_join:
  assumes "list_all2 P xs ys" and "list_all2 Q xs zs" and "\<And>x y z. P x y \<Longrightarrow> Q x z \<Longrightarrow> R y z"
  shows "list_all2 R ys zs"
  using assms(1,2)
proof (induction xs ys arbitrary: zs rule: list_all2_induct)
  case (Cons x xs y ys)
  then show ?case using assms(3) by (cases zs) auto
qed simp

lemma compile_recipe_Inr:
  assumes "compile_recipe h a factors profile budgets = Inr r"
  obtains specs where "by_id factors = Inr specs"
    and "re_assignment r = map (\<lambda>key. (key, bool_of_level (the (map_of (normalized_assignment a) key)))) FLAGSHIP_FACTOR_IDS"
    and "map_r (compile_mechanism h profile specs (re_assignment r) budgets) FLAGSHIP_FACTOR_IDS = Inr (re_mechanisms r)"
    and "re_profile_id r = cf_profile_id profile"
  using assms by (auto simp: compile_recipe_def Let_def tx_simps)

text \<open>
  C13: Two arms compiled from the same factors differ in the treatment and in nothing else. Mechanism by
  mechanism they have the same factor, the same compute and context budget, the same required
  capabilities and oracles, and the same configuration except for the two entries that say whether it
  is on; a mechanism at the same level in both arms is the same to its digest. A mechanism is active
  exactly when the arm selects its factor, and a sham otherwise.
\<close>

theorem arms_differ_only_in_treatment:
  assumes "compile_recipe h a factors profile budgets = Inr r" and "compile_recipe h a' factors profile budgets' = Inr r'"
  shows "list_all2 matched (re_mechanisms r) (re_mechanisms r') \<and>
    map me_factor_id (re_mechanisms r) = FLAGSHIP_FACTOR_IDS \<and>
    map (\<lambda>m. (me_factor_id m, me_selected_level m)) (re_mechanisms r) = re_assignment r \<and>
    list_all (\<lambda>m. me_mode m = Active \<longleftrightarrow> me_selected_level m) (re_mechanisms r)"
proof -
  obtain specs where r: "by_id factors = Inr specs"
      "map_r (compile_mechanism h profile specs (re_assignment r) budgets) FLAGSHIP_FACTOR_IDS = Inr (re_mechanisms r)"
      "re_assignment r = map (\<lambda>key. (key, bool_of_level (the (map_of (normalized_assignment a) key)))) FLAGSHIP_FACTOR_IDS"
    using compile_recipe_Inr [OF assms(1)] by metis
  obtain specs' where r': "by_id factors = Inr specs'"
      "map_r (compile_mechanism h profile specs' (re_assignment r') budgets') FLAGSHIP_FACTOR_IDS = Inr (re_mechanisms r')"
    using compile_recipe_Inr [OF assms(2)] by metis
  have same: "specs' = specs" using r(1) r'(1) by simp
  have "list_all2 matched (re_mechanisms r) (re_mechanisms r')"
    by (rule list_all2_join [OF r(2) [unfolded map_r_all2] r'(2) [unfolded map_r_all2 same]])
      (rule compile_mechanism_matched)
  moreover have "map me_factor_id (re_mechanisms r) = map id FLAGSHIP_FACTOR_IDS"
    by (rule map_r_map [OF r(2)]) (auto dest!: compile_mechanism_Inr)
  moreover have "map (\<lambda>m. (me_factor_id m, me_selected_level m)) (re_mechanisms r) =
      map (\<lambda>i. (i, the (map_of (re_assignment r) i))) FLAGSHIP_FACTOR_IDS"
    by (rule map_r_map [OF r(2)]) (auto dest!: compile_mechanism_Inr)
  moreover have "map (\<lambda>i. (i, the (map_of (re_assignment r) i))) FLAGSHIP_FACTOR_IDS = re_assignment r"
    unfolding r(3) by (simp add: FLAGSHIP_FACTOR_IDS_def)
  moreover have "list_all (\<lambda>m. me_mode m = Active \<longleftrightarrow> me_selected_level m) (re_mechanisms r)"
    unfolding list_all_iff
  proof
    fix m assume "m \<in> set (re_mechanisms r)"
    from map_r_set [OF r(2) this] show "(me_mode m = Active) = me_selected_level m"
      by (elim bexE) (drule compile_mechanism_Inr, auto split: if_splits)
  qed
  ultimately show ?thesis by simp
qed

section \<open>The sixteen flagship arms\<close>

definition capable :: "capability_profile \<Rightarrow> bool" where
  "capable p \<longleftrightarrow> hc_state (cf_capabilities p) \<and> hc_checkpoint (cf_capabilities p) \<and> hc_memory (cf_capabilities p)"

lemma flagship_by_id: "by_id FLAGSHIP_FACTORS = Inr (zip FLAGSHIP_FACTOR_IDS FLAGSHIP_FACTORS)"
  by (simp add: by_id_def FLAGSHIP_FACTORS_def FLAGSHIP_FACTOR_IDS_def add_factor_def flagship_factor_def
      is_strict_binary_def level_eq_def baseline_value_def factor_spec.defs)

lemma flagship_normalized:
  "normalized_assignment (zip FLAGSHIP_FACTOR_IDS [LBool p, LBool v, LBool r, LBool m]) =
     zip FLAGSHIP_FACTOR_IDS [LBool p, LBool v, LBool r, LBool m]"
  by (simp add: normalized_assignment_def FLAGSHIP_FACTOR_IDS_def SHORT_FACTOR_IDS_def)

lemma flagship_no_conflict:
  "assert_no_conflicting_mutations (zip FLAGSHIP_FACTOR_IDS FLAGSHIP_FACTORS) (zip FLAGSHIP_FACTOR_IDS [p, v, r, m]) = Inr ()"
  by (cases p; cases v; cases r; cases m)
    (auto simp: assert_no_conflicting_mutations_def FLAGSHIP_FACTORS_def FLAGSHIP_FACTOR_IDS_def flagship_factor_def
      merge_fixed_def assert_compatible_def key_of_def level_eq_def)

lemma flagship_mechanism:
  assumes "capable profile" and "i \<in> set FLAGSHIP_FACTOR_IDS"
  shows "\<exists>mech. compile_mechanism h profile (zip FLAGSHIP_FACTOR_IDS FLAGSHIP_FACTORS) (zip FLAGSHIP_FACTOR_IDS [p, v, r, m]) [] i = Inr mech"
  using assms
  by (auto simp: compile_mechanism_def FLAGSHIP_FACTORS_def FLAGSHIP_FACTOR_IDS_def flagship_factor_def key_of_def
      assert_capabilities_def get_capability_def capable_def declared_budget_def level_or_def new_budget_def)

lemma flagship_compiles:
  assumes "capable profile"
  shows "\<exists>rec. compile_recipe h (zip FLAGSHIP_FACTOR_IDS [LBool p, LBool v, LBool r, LBool m]) FLAGSHIP_FACTORS profile [] = Inr rec \<and>
    re_assignment rec = zip FLAGSHIP_FACTOR_IDS [p, v, r, m]"
proof -
  have typed: "map (\<lambda>key. (key, bool_of_level (the (map_of (zip FLAGSHIP_FACTOR_IDS [LBool p, LBool v, LBool r, LBool m]) key))))
      FLAGSHIP_FACTOR_IDS = zip FLAGSHIP_FACTOR_IDS [p, v, r, m]"
    by (simp add: FLAGSHIP_FACTOR_IDS_def)
  have strict: "fst ` set (zip FLAGSHIP_FACTOR_IDS [LBool p, LBool v, LBool r, LBool m]) = set FLAGSHIP_FACTOR_IDS"
      "list_all (is_LBool \<circ> snd) (zip FLAGSHIP_FACTOR_IDS [LBool p, LBool v, LBool r, LBool m])"
    by (simp_all add: FLAGSHIP_FACTOR_IDS_def)
  have "\<exists>mechs. map_r (compile_mechanism h profile (zip FLAGSHIP_FACTOR_IDS FLAGSHIP_FACTORS)
      (zip FLAGSHIP_FACTOR_IDS [p, v, r, m]) []) FLAGSHIP_FACTOR_IDS = Inr mechs"
    by (rule map_r_total) (rule flagship_mechanism [OF assms])
  then obtain mechs where "map_r (compile_mechanism h profile (zip FLAGSHIP_FACTOR_IDS FLAGSHIP_FACTORS)
      (zip FLAGSHIP_FACTOR_IDS [p, v, r, m]) []) FLAGSHIP_FACTOR_IDS = Inr mechs" ..
  then show ?thesis
    by (simp add: compile_recipe_def flagship_by_id flagship_normalized flagship_no_conflict typed strict Let_def)
qed

lemma bool_tuples_set: "bs \<in> set (bool_tuples n) \<longleftrightarrow> length bs = n"
  by (induction n arbitrary: bs) (auto simp: length_Suc_conv image_iff)

lemma bool_tuples_distinct: "distinct (bool_tuples n)"
  by (induction n) (auto simp: distinct_map)

lemma zip_keys_inj: "length bs = length ks \<Longrightarrow> length cs = length ks \<Longrightarrow> zip ks bs = zip ks cs \<Longrightarrow> bs = cs"
  by (metis map_snd_zip)

lemma flagship_arms_complete_all:
  assumes "capable profile"
  shows "\<exists>recipes. enumerate_flagship_recipes h profile FLAGSHIP_FACTORS = Inr recipes \<and> length recipes = 16 \<and>
    distinct (map re_assignment recipes) \<and>
    set (map re_assignment recipes) = {zip FLAGSHIP_FACTOR_IDS bs |bs. length bs = 4}"
proof -
  let ?f = "\<lambda>bs. compile_recipe h (zip FLAGSHIP_FACTOR_IDS (map LBool bs)) FLAGSHIP_FACTORS profile []"
  have arm: "\<exists>r. ?f bs = Inr r \<and> re_assignment r = zip FLAGSHIP_FACTOR_IDS bs" if bs: "bs \<in> set (bool_tuples 4)" for bs
  proof -
    obtain b1 b2 b3 b4 where "bs = [b1, b2, b3, b4]"
      using bs unfolding bool_tuples_set by (auto simp: eval_nat_numeral length_Suc_conv)
    then show ?thesis using flagship_compiles [OF assms, of h b1 b2 b3 b4] by simp
  qed
  obtain rs where rs: "map_r ?f (bool_tuples 4) = Inr rs" using map_r_total [of "bool_tuples 4" ?f] arm by blast
  have keys: "map re_assignment rs = map (zip FLAGSHIP_FACTOR_IDS) (bool_tuples 4)"
    by (rule map_r_map [OF rs]) (metis arm sum.inject(2))
  have "length FLAGSHIP_FACTOR_IDS = 4" by (simp add: FLAGSHIP_FACTOR_IDS_def)
  then have "distinct (map re_assignment rs)"
    unfolding keys distinct_map using bool_tuples_distinct zip_keys_inj [of _ FLAGSHIP_FACTOR_IDS]
    by (auto simp: inj_on_def bool_tuples_set)
  moreover have "length rs = length (bool_tuples 4)" using keys by (metis length_map)
  then have "length rs = 16" by (simp add: eval_nat_numeral)
  moreover have "set (map re_assignment rs) = {zip FLAGSHIP_FACTOR_IDS bs |bs. length bs = 4}"
    unfolding keys by (auto simp: bool_tuples_set)
  ultimately show ?thesis using rs by (auto simp: enumerate_flagship_recipes_def)
qed

text \<open>
  The flagship design compiles into its sixteen arms: on every profile with state, checkpoints and
  memory no arm is refused, and the recipes have pairwise different assignments, one for each choice of
  the four factors.
\<close>

theorem flagship_arms_complete:
  assumes "capable profile"
  shows "\<exists>recipes. enumerate_flagship_recipes h profile FLAGSHIP_FACTORS = Inr recipes \<and> length recipes = 16 \<and>
    distinct (map re_assignment recipes) \<and>
    set (map re_assignment recipes) = {zip FLAGSHIP_FACTOR_IDS bs |bs. length bs = 4}"
  by (rule flagship_arms_complete_all [OF assms])

theorem flagship_arms_complete_witness:
  "\<exists>recipes. enumerate_flagship_recipes (\<lambda>_. ''d'') CAPABLE_RECORDED_PROFILE FLAGSHIP_FACTORS = Inr recipes \<and> length recipes = 16"
  using flagship_arms_complete [of CAPABLE_RECORDED_PROFILE "\<lambda>_. ''d''"] by (auto simp: capable_def CAPABLE_RECORDED_PROFILE_def)

theorem arms_differ_only_in_treatment_witness:
  "\<exists>r r'. compile_recipe (\<lambda>_. ''d'') [(''p'', LBool True), (''v'', LBool False), (''r'', LBool False), (''m'', LBool True)]
       FLAGSHIP_FACTORS CAPABLE_RECORDED_PROFILE [] = Inr r \<and>
     compile_recipe (\<lambda>_. ''d'') (zip FLAGSHIP_FACTOR_IDS [LBool False, LBool False, LBool True, LBool True])
       FLAGSHIP_FACTORS CAPABLE_RECORDED_PROFILE [] = Inr r' \<and>
     list_all2 matched (re_mechanisms r) (re_mechanisms r')"
proof -
  have cap: "capable CAPABLE_RECORDED_PROFILE" by (simp add: capable_def CAPABLE_RECORDED_PROFILE_def)
  have "normalized_assignment [(''p'', LBool True), (''v'', LBool False), (''r'', LBool False), (''m'', LBool True)] =
      normalized_assignment (zip FLAGSHIP_FACTOR_IDS [LBool True, LBool False, LBool False, LBool True])"
    by (simp add: normalized_assignment_def FLAGSHIP_FACTOR_IDS_def SHORT_FACTOR_IDS_def)
  then obtain r where r: "compile_recipe (\<lambda>_. ''d'') [(''p'', LBool True), (''v'', LBool False), (''r'', LBool False), (''m'', LBool True)]
       FLAGSHIP_FACTORS CAPABLE_RECORDED_PROFILE [] = Inr r"
    using flagship_compiles [OF cap, of "\<lambda>_. ''d''" True False False True] by (auto simp: compile_recipe_def)
  obtain r' where r': "compile_recipe (\<lambda>_. ''d'') (zip FLAGSHIP_FACTOR_IDS [LBool False, LBool False, LBool True, LBool True])
       FLAGSHIP_FACTORS CAPABLE_RECORDED_PROFILE [] = Inr r'"
    using flagship_compiles [OF cap, of "\<lambda>_. ''d''" False False True True] by blast
  from arms_differ_only_in_treatment [OF r r'] r r' show ?thesis by blast
qed

end
