(* ===== verification/Episode_Memory.thy ===== *)
theory Episode_Memory
  imports Factor_Mechanisms Graders
begin

text \<open>
  The bounded memory of an episode (\<open>src/backend/factors_v1/memory.py\<close> and the two models it uses).

  Appending an item may compact the two oldest items into one, which keeps a prefix of each, names the
  items it came from and counts the bytes it leaves out. The loop that settles the width of that count
  is shown to be at its fixed point when it stops, so the count is exact.
\<close>

record memory_item =
  mi_item_id :: string
  mi_episode_id :: string
  mi_content :: string
  mi_source_pointers :: "evidence_pointer list"
  mi_lineage :: "string list"

record episode_memory =
  em_episode_id :: string
  em_max_items :: nat
  em_max_bytes :: nat
  em_items :: "memory_item list"
  em_total_bytes :: nat

definition item_bytes :: "memory_item \<Rightarrow> nat" where
  "item_bytes i = utf8_length (mi_content i)"

definition new_memory_item :: "memory_item \<Rightarrow> memory_item result" where
  "new_memory_item i =
     bind_r (raise_if (\<not> is_identifier (mi_item_id i) \<or> \<not> is_identifier (mi_episode_id i) \<or> mi_content i = [] \<or>
       mi_source_pointers i = []) (ValueError ''MemoryItem'')) (\<lambda>_. Inr i)"

definition new_memory :: "episode_memory \<Rightarrow> episode_memory result" where
  "new_memory m =
     bind_r (raise_if (\<not> is_identifier (em_episode_id m) \<or> em_max_items m < 1 \<or> 10000 < em_max_items m \<or>
       em_max_bytes m < 1 \<or> 100000000 < em_max_bytes m) (ValueError ''EpisodeMemory'')) (\<lambda>_.
     bind_r (raise_if (list_ex (\<lambda>i. mi_episode_id i \<noteq> em_episode_id m) (em_items m))
       (ValueError ''episode memory cannot contain cross-episode items'')) (\<lambda>_.
     bind_r (raise_if (\<not> distinct (map mi_item_id (em_items m))) (ValueError ''memory item ids must be unique'')) (\<lambda>_.
     bind_r (raise_if (sum_list (map item_bytes (em_items m)) \<noteq> em_total_bytes m)
       (ValueError ''memory total_bytes must match UTF-8 content'')) (\<lambda>_.
     bind_r (raise_if (length (em_items m) > em_max_items m \<or> em_total_bytes m > em_max_bytes m)
       (ValueError ''episode memory exceeds its declared bounds'')) (\<lambda>_.
     Inr m)))))"

definition new_episode_memory :: "string \<Rightarrow> nat \<Rightarrow> nat \<Rightarrow> episode_memory result" where
  "new_episode_memory episode_id max_items max_bytes = new_memory
     \<lparr>em_episode_id = episode_id, em_max_items = max_items, em_max_bytes = max_bytes, em_items = [], em_total_bytes = 0\<rparr>"

section \<open>The marker of a compacted item\<close>

definition MARKER_START :: string where "MARKER_START = ''[extractive-compaction; omitted_bytes=''"
definition MARKER_MIDDLE :: string where "MARKER_MIDDLE = ''; source_lineage=''"

definition compaction_marker :: "nat \<Rightarrow> string list \<Rightarrow> string" where
  "compaction_marker omitted lineage =
     MARKER_START @ show_nat omitted @ MARKER_MIDDLE @ join '','' lineage @ '']''"

definition starts_with :: "string \<Rightarrow> string \<Rightarrow> bool" where
  "starts_with p s \<longleftrightarrow> take (length p) s = p"

text \<open>\<open>_COMPACTION_MARKER.fullmatch\<close>, with the number and the lineage of the match.\<close>

definition parse_marker :: "string \<Rightarrow> (string \<times> string list) option" where
  "parse_marker m =
     (if \<not> starts_with MARKER_START m then None
      else
     (let rest = drop (length MARKER_START) m;
          number = takeWhile digit_char rest; tail = dropWhile digit_char rest in
      if number = [] \<or> \<not> starts_with MARKER_MIDDLE tail then None
      else
     (let body = drop (length MARKER_MIDDLE) tail in
      if body = [] \<or> last body \<noteq> CHR '']'' then None
      else
     (let ids = split_on CHR '','' (butlast body) in
      if list_all is_identifier ids then Some (number, ids) else None))))"

definition newline :: char where "newline = CHR 0x0A"

definition source_text :: "memory_item \<Rightarrow> (string \<times> nat) result" where
  "source_text i =
     (if mi_lineage i = [] then Inr (mi_content i, 0)
      else
     (let marker = takeWhile (\<lambda>c. c \<noteq> newline) (mi_content i) in
      case (if newline \<in> set (mi_content i) then parse_marker marker else None) of
        None \<Rightarrow> Inl (ValueError ''malformed internal extractive compaction marker'')
      | Some (number, ids) \<Rightarrow>
          bind_r (raise_if (ids \<noteq> mi_lineage i)
            (ValueError ''internal compaction marker does not bind source lineage'')) (\<lambda>_.
          bind_r (int_of_string number) (\<lambda>omitted.
          Inr (drop (Suc (length marker)) (mi_content i), omitted)))))"

section \<open>Compaction\<close>

fun utf8_prefix :: "string \<Rightarrow> nat \<Rightarrow> string" where
  "utf8_prefix [] n = []"
| "utf8_prefix (c # cs) n = (if utf8_length [c] \<le> n then c # utf8_prefix cs (n - utf8_length [c]) else [])"

text \<open>\<open>dict.fromkeys\<close> keeps the first of equal elements.\<close>

definition from_keys :: "'a list \<Rightarrow> 'a list" where
  "from_keys xs = rev (remdups (rev xs))"

definition SEPARATOR :: string where "SEPARATOR = [newline] @ ''---'' @ [newline]"

definition compact_round ::
  "string list \<Rightarrow> string \<Rightarrow> string \<Rightarrow> nat \<Rightarrow> int \<Rightarrow> nat \<Rightarrow> (string \<times> string \<times> nat) result" where
  "compact_round lineage left_source right_source original_bytes max_bytes omitted =
     (let available = max_bytes - int (utf8_length (compaction_marker omitted lineage @ [newline])) - int (utf8_length SEPARATOR) in
     bind_r (raise_if (available < 2) (ValueError ''episode memory bound is too small for extractive compaction'')) (\<lambda>_.
     let left_limit = nat available div 2;
         right_limit = nat available - left_limit;
         left_extract = utf8_prefix left_source left_limit;
         right_extract = utf8_prefix right_source right_limit in
     bind_r (raise_if (left_extract = [] \<or> right_extract = [])
       (ValueError ''episode memory bound cannot retain readable extractive content'')) (\<lambda>_.
     Inr (left_extract, right_extract, original_bytes - utf8_length left_extract - utf8_length right_extract))))"

text \<open>The loop of at most eight rounds; a round that confirms the count it started with ends it.\<close>

fun compact_loop :: "nat \<Rightarrow> (nat \<Rightarrow> (string \<times> string \<times> nat) result) \<Rightarrow> nat \<Rightarrow> (string \<times> string \<times> nat) result" where
  "compact_loop 0 turn omitted = turn omitted"
| "compact_loop (Suc k) turn omitted =
     bind_r (turn omitted) (\<lambda>(l, r, new_omitted).
       if new_omitted = omitted then Inr (l, r, new_omitted) else compact_loop k turn new_omitted)"

definition pointer_json :: "evidence_pointer \<Rightarrow> json" where
  "pointer_json p = JObj [(''source_id'', JStr (ep_source_id p)), (''uri'', JStr (ep_uri p)),
     (''content_hash'', JStr (ep_content_hash p))]"

definition compact_pair :: "(json \<Rightarrow> string) \<Rightarrow> memory_item \<Rightarrow> memory_item \<Rightarrow> int \<Rightarrow> memory_item result" where
  "compact_pair h left right max_bytes =
     (let lineage = from_keys (mi_lineage left @ [mi_item_id left] @ mi_lineage right @ [mi_item_id right]);
          pointers = from_keys (mi_source_pointers left @ mi_source_pointers right) in
     bind_r (source_text left) (\<lambda>(left_source, left_omitted).
     bind_r (source_text right) (\<lambda>(right_source, right_omitted).
     let original_bytes = utf8_length left_source + utf8_length right_source + left_omitted + right_omitted in
     bind_r (compact_loop 7 (compact_round lineage left_source right_source original_bytes max_bytes)
       (left_omitted + right_omitted)) (\<lambda>(left_extract, right_extract, omitted).
     let content = compaction_marker omitted lineage @ [newline] @ left_extract @ SEPARATOR @ right_extract in
     bind_r (raise_if (int (utf8_length content) > max_bytes)
       (ValueError ''extractive compaction cannot meet the episode byte bound'')) (\<lambda>_.
     let digest = h (JObj [(''lineage'', JArr (map JStr lineage)), (''content'', JStr content),
       (''sources'', JArr (map pointer_json pointers))]) in
     new_memory_item \<lparr>mi_item_id = ''compact-'' @ take 16 digest, mi_episode_id = mi_episode_id left,
       mi_content = content, mi_source_pointers = pointers, mi_lineage = lineage\<rparr>)))))"

function compact_items :: "(json \<Rightarrow> string) \<Rightarrow> nat \<Rightarrow> nat \<Rightarrow> memory_item list \<Rightarrow> memory_item list result" where
  "compact_items h max_items max_bytes items =
     (if length items > max_items \<or> sum_list (map item_bytes items) > max_bytes then
        (case items of
           a # b # rest \<Rightarrow>
             let remainder_bytes = sum_list (map item_bytes rest);
                 capacity = min (int (item_bytes a + item_bytes b) - 1) (int max_bytes - int remainder_bytes) in
             bind_r (raise_if (capacity < 1) (ValueError ''episode memory cannot compact within declared bounds'')) (\<lambda>_.
             bind_r (compact_pair h a b capacity) (\<lambda>compacted.
             bind_r (raise_if (item_bytes compacted \<ge> item_bytes a + item_bytes b)
               (ValueError ''deterministic compaction would not reduce memory'')) (\<lambda>_.
             compact_items h max_items max_bytes (compacted # rest))))
         | _ \<Rightarrow> Inl (ValueError ''episode memory cannot compact within declared bounds''))
      else Inr items)"
  by pat_completeness auto
termination
  by (relation "measure (\<lambda>(_, _, _, items). length items)") auto

declare compact_items.simps [simp del]

definition append_memory :: "(json \<Rightarrow> string) \<Rightarrow> episode_memory \<Rightarrow> memory_item \<Rightarrow> episode_memory result" where
  "append_memory h m i =
     bind_r (raise_if (mi_episode_id i \<noteq> em_episode_id m) (ValueError ''cross-episode memory persistence is prohibited'')) (\<lambda>_.
     bind_r (raise_if (mi_item_id i \<in> set (map mi_item_id (em_items m))) (ValueError ''memory item id already exists'')) (\<lambda>_.
     bind_r (raise_if (item_bytes i > em_max_bytes m) (ValueError ''memory item exceeds the episode byte bound'')) (\<lambda>_.
     bind_r (compact_items h (em_max_items m) (em_max_bytes m) (em_items m @ [i])) (\<lambda>items.
     new_memory (m\<lparr>em_items := items, em_total_bytes := sum_list (map item_bytes items)\<rparr>)))))"

section \<open>Decimal numbers\<close>

lemma show_nat_digits: "list_all digit_char (show_nat n)"
proof (induction n rule: show_nat.induct)
  case (1 n)
  have "digit_char (char_of (48 + m))" if "m < 10" for m :: nat
    using that by (simp add: digit_char_def of_char_of take_bit_eq_mod)
  then show ?case using 1 by (subst show_nat.simps) auto
qed

lemma show_nat_Cons: "show_nat n \<noteq> []"
  by (subst show_nat.simps) simp

lemma show_nat_value: "foldl (\<lambda>n c. 10 * n + (of_char c - 48)) 0 (show_nat n) = n"
proof (induction n rule: show_nat.induct)
  case (1 n)
  then show ?case
    by (subst show_nat.simps) (auto simp: of_char_of take_bit_eq_mod)
qed

lemma int_of_string_show_nat [simp]: "int_of_string (show_nat n) = Inr n"
  using show_nat_digits [of n] show_nat_value [of n] show_nat_Cons [of n] by (simp add: int_of_string_def)

lemma length_show_nat_le:
  assumes "0 < k"
  shows "length (show_nat n) \<le> k \<longleftrightarrow> n < 10 ^ k"
  using assms
proof (induction n arbitrary: k rule: show_nat.induct)
  case (1 n)
  show ?case
  proof (cases "n < 10")
    case True
    then have "n < 10 ^ k"
      using 1(2) by (metis One_nat_def Suc_leI less_le_trans one_le_numeral power_increasing power_one_right)
    then show ?thesis using True 1(2) by (subst show_nat.simps) simp
  next
    case False
    then show ?thesis
    proof (cases "k = 1")
      case True
      then show ?thesis using False show_nat_Cons [of "n div 10"] by (subst show_nat.simps) simp
    next
      case k: False
      then obtain j where j: "k = Suc j" "0 < j" using 1(2) by (cases k) auto
      have "length (show_nat n) = Suc (length (show_nat (n div 10)))"
        using False by (subst show_nat.simps) simp
      moreover have "n div 10 < 10 ^ j \<longleftrightarrow> n < 10 ^ k"
        using j by (simp add: div_less_iff_less_mult mult.commute)
      ultimately show ?thesis using 1(1) [OF False j(2)] j by simp
    qed
  qed
qed

lemma length_show_nat_pos: "0 < length (show_nat n)"
  using show_nat_Cons by simp

lemma length_show_nat_mono: "m \<le> n \<Longrightarrow> length (show_nat m) \<le> length (show_nat n)"
  using length_show_nat_le [OF length_show_nat_pos [of n], where n = n]
    length_show_nat_le [OF length_show_nat_pos [of n], where n = m] by simp

section \<open>The count of omitted bytes is exact\<close>

lemma utf8_length_simps [simp]:
  "utf8_length [] = 0" "utf8_length (xs @ ys) = utf8_length xs + utf8_length ys"
  "utf8_length (c # cs) = (if (of_char c :: nat) < 128 then 1 else 2) + utf8_length cs"
  by (simp_all add: utf8_length_def)

lemma utf8_prefix_append: "\<exists>rest. s = utf8_prefix s n @ rest"
proof (induction s arbitrary: n)
  case (Cons c cs)
  then obtain rest where "cs = utf8_prefix cs (n - utf8_length [c]) @ rest" by blast
  then show ?case by (auto intro: exI [of _ rest])
qed simp

lemma utf8_prefix_le: "utf8_length (utf8_prefix s n) \<le> n"
proof (induction s arbitrary: n)
  case (Cons c cs)
  show ?case using Cons [of "n - Suc 0"] Cons [of "n - 2"] by (cases "n < 2") auto
qed simp

lemma utf8_prefix_le_whole: "utf8_length (utf8_prefix s n) \<le> utf8_length s"
proof -
  obtain rest where "s = utf8_prefix s n @ rest" using utf8_prefix_append by blast
  then have "utf8_length s = utf8_length (utf8_prefix s n) + utf8_length rest" by (metis utf8_length_simps(2))
  then show ?thesis by simp
qed

text \<open>A character takes two bytes at most, so a prefix misses its limit by one byte at most.\<close>

lemma utf8_prefix_ge: "min n (utf8_length s) \<le> Suc (utf8_length (utf8_prefix s n))"
proof (induction s arbitrary: n)
  case (Cons c cs)
  show ?case using Cons [of "n - Suc 0"] Cons [of "n - 2"] by (cases "n < 2") auto
qed simp

lemma utf8_prefix_mono: "m \<le> n \<Longrightarrow> utf8_length (utf8_prefix s m) \<le> utf8_length (utf8_prefix s n)"
proof (induction s arbitrary: m n)
  case (Cons c cs)
  then show ?case using Cons.IH [of "m - 1" "n - 1"] Cons.IH [of "m - 2" "n - 2"] by auto
qed simp

lemma utf8_prefix_slack: "utf8_length (utf8_prefix s (n + k)) \<le> utf8_length (utf8_prefix s n) + k + 1"
  using utf8_prefix_ge [of n s] utf8_prefix_le [of s "n + k"] utf8_prefix_le_whole [of s "n + k"] by linarith

text \<open>
  The new cnt depends on the old one through its number of digits only, grows with it, and by no more
  than two bytes beyond the digits gained. So the digits settle in the second or third round and the
  fourth confirms the count.
\<close>

lemma compact_loop_fixpoint:
  assumes turn: "\<And>n l r n'. turn n = Inr (l, r, n') \<Longrightarrow> n' = cnt (length (show_nat n))"
    and mono: "\<And>d d'. d \<le> d' \<Longrightarrow> cnt d \<le> cnt d'"
    and slack: "\<And>d k. cnt (d + k) \<le> cnt d + k + 2"
    and start: "start \<le> cnt (length (show_nat start))"
    and loop: "compact_loop (Suc (Suc (Suc k))) turn start = Inr (l, r, n)"
  shows "turn n = Inr (l, r, n)"
proof -
  define d where "d m = length (show_nat m)" for m
  have d_mono: "a \<le> b \<Longrightarrow> d a \<le> d b" for a b by (simp add: d_def length_show_nat_mono)
  have d_pos: "0 < d a" for a unfolding d_def by (rule length_show_nat_pos)
  have d_le: "0 < j \<Longrightarrow> d a \<le> j \<longleftrightarrow> a < 10 ^ j" for a j by (simp add: d_def length_show_nat_le)
  define o1 o2 o3 where "o1 = cnt (d start)" and "o2 = cnt (d o1)" and "o3 = cnt (d o2)"
  have le: "start \<le> o1" "o1 \<le> o2" "o2 \<le> o3"
  proof -
    show "start \<le> o1" using start by (simp add: o1_def d_def)
    then show "o1 \<le> o2" unfolding o1_def o2_def by (intro mono d_mono) (simp add: o1_def)
    then show "o2 \<le> o3" unfolding o2_def o3_def by (intro mono d_mono) (simp add: o2_def)
  qed
  let ?D = "d o1"
  have big: "?D + 4 < 9 * 10 ^ ?D"
  proof -
    have "j + 4 < 9 * 10 ^ j" if "0 < j" for j :: nat using that
    proof (induction j)
      case (Suc j)
      then show ?case by (cases "j = 0") auto
    qed simp
    then show ?thesis using d_pos by blast
  qed
  have o1_lt: "o1 < 10 ^ ?D" using d_le [OF d_pos, of o1 o1] by simp
  have start_D: "d start \<le> ?D" using le(1) by (rule d_mono)
  have near: "cnt (?D + j) \<le> o1 + ?D + j + 2" for j
    using slack [of "d start" "?D - d start + j"] start_D by (simp add: o1_def)
  have "o2 < 10 ^ Suc ?D"
    using near [of 0] o1_lt big by (simp add: o2_def)
  then have d2: "d o2 \<le> Suc ?D" using d_le [of "Suc ?D" o2] by simp
  have d2': "?D \<le> d o2" using le(2) by (rule d_mono)
  have "o3 < 10 ^ Suc ?D"
  proof -
    have "cnt (d o2) \<le> cnt (Suc ?D)" using d2 by (rule mono)
    then show ?thesis using near [of 1] o1_lt big by (simp add: o3_def)
  qed
  then have d3: "d o3 \<le> Suc ?D" using d_le [of "Suc ?D" o3] by simp
  have settled: "cnt (d o3) = o3"
  proof (cases "d o2 = ?D")
    case True
    then have "o3 = o2" by (simp add: o2_def o3_def)
    then show ?thesis using True by (simp add: o2_def)
  next
    case False
    then have "d o2 = Suc ?D" using d2 d2' by simp
    moreover have "d o2 \<le> d o3" using le(3) by (rule d_mono)
    ultimately have "d o3 = d o2" using d3 by simp
    then show ?thesis by (simp add: o3_def)
  qed
  have next_count: "n' = cnt (d m)" if "turn m = Inr (l', r', n')" for m l' r' n'
    using turn [OF that] by (simp add: d_def)
  have last: "turn n = Inr (l, r, n)" if "compact_loop j turn o3 = Inr (l, r, n)" for j
  proof -
    from that obtain l' r' n' where t: "turn o3 = Inr (l', r', n')"
      by (cases j) (auto simp: tx_simps)
    then have "n' = o3" using next_count settled by simp
    with t that show ?thesis by (cases j) simp_all
  qed
  have round: "turn n = Inr (l, r, n) \<or> compact_loop j turn (cnt (d m)) = Inr (l, r, n)"
    if "compact_loop (Suc j) turn m = Inr (l, r, n)" for j m
  proof -
    from that obtain l' r' n' where t: "turn m = Inr (l', r', n')" by (auto simp: tx_simps)
    with that next_count [OF t] show ?thesis by (auto split: if_splits)
  qed
  show ?thesis
    using round [OF loop] round [of "Suc k" o1] round [of k o2] last [of k] by (auto simp: o1_def o2_def o3_def)
qed

definition room :: "string list \<Rightarrow> int \<Rightarrow> nat \<Rightarrow> nat" where
  "room lineage max_bytes d = nat (max_bytes - int (utf8_length (MARKER_START @ MARKER_MIDDLE @ join '','' lineage @ '']'' @ [newline] @ SEPARATOR) + d))"

definition omitted_for :: "string list \<Rightarrow> string \<Rightarrow> string \<Rightarrow> nat \<Rightarrow> int \<Rightarrow> nat \<Rightarrow> nat" where
  "omitted_for lineage ls rs original max_bytes d =
     (let a = room lineage max_bytes d in
      original - utf8_length (utf8_prefix ls (a div 2)) - utf8_length (utf8_prefix rs (a - a div 2)))"

lemma utf8_length_digits: "list_all digit_char s \<Longrightarrow> utf8_length s = length s"
  by (induction s) (auto simp: digit_char_def Let_def)

lemma compact_round_Inr:
  assumes "compact_round lineage ls rs original max_bytes n = Inr (l, r, n')"
  shows "n' = omitted_for lineage ls rs original max_bytes (length (show_nat n)) \<and> l \<noteq> [] \<and> r \<noteq> [] \<and>
    (\<exists>i. l = utf8_prefix ls i) \<and> (\<exists>j. r = utf8_prefix rs j) \<and> n' = original - utf8_length l - utf8_length r"
proof -
  have "room lineage max_bytes (length (show_nat n)) =
      nat (max_bytes - int (utf8_length (compaction_marker n lineage @ [newline])) - int (utf8_length SEPARATOR))"
    using utf8_length_digits [OF show_nat_digits, of n]
    by (simp add: room_def compaction_marker_def algebra_simps)
  then show ?thesis
    using assms by (auto simp: compact_round_def omitted_for_def Let_def)
qed

lemma split_room:
  assumes "a \<le> a' + k"
  shows "utf8_length (utf8_prefix ls (a div 2)) + utf8_length (utf8_prefix rs (a - a div 2))
    \<le> utf8_length (utf8_prefix ls (a' div 2)) + utf8_length (utf8_prefix rs (a' - a' div 2)) + k + 2"
proof -
  let ?b = "a' + k"
  define i j where "i = ?b div 2 - a' div 2" and "j = (?b - ?b div 2) - (a' - a' div 2)"
  have ij: "?b div 2 = a' div 2 + i" "?b - ?b div 2 = (a' - a' div 2) + j" "i + j = k"
    by (auto simp: i_def j_def)
  have "utf8_length (utf8_prefix ls (a div 2)) \<le> utf8_length (utf8_prefix ls (?b div 2))"
    "utf8_length (utf8_prefix rs (a - a div 2)) \<le> utf8_length (utf8_prefix rs (?b - ?b div 2))"
    using assms by (auto intro!: utf8_prefix_mono)
  then show ?thesis
    using utf8_prefix_slack [of ls "a' div 2" i] utf8_prefix_slack [of rs "a' - a' div 2" j] ij(3)
    unfolding ij(1) [symmetric] ij(2) [symmetric] by linarith
qed

lemma compact_loop_exact:
  assumes "compact_loop 7 (compact_round lineage ls rs (utf8_length ls + utf8_length rs + lo + ro) max_bytes) (lo + ro) = Inr (l, r, n)"
  shows "l \<noteq> [] \<and> r \<noteq> [] \<and> (\<exists>i. l = utf8_prefix ls i) \<and> (\<exists>j. r = utf8_prefix rs j) \<and>
    n = lo + ro + (utf8_length ls - utf8_length l) + (utf8_length rs - utf8_length r)"
proof -
  let ?orig = "utf8_length ls + utf8_length rs + lo + ro"
  let ?turn = "compact_round lineage ls rs ?orig max_bytes" and ?cnt = "omitted_for lineage ls rs ?orig max_bytes"
  have "?turn n = Inr (l, r, n)"
  proof (rule compact_loop_fixpoint [where cnt = ?cnt and start = "lo + ro"])
    show "n' = ?cnt (length (show_nat n))" if "?turn n = Inr (l, r, n')" for n l r n'
      using compact_round_Inr [OF that] by blast
    show "?cnt d \<le> ?cnt d'" if "d \<le> d'" for d d'
    proof -
      have "room lineage max_bytes d' \<le> room lineage max_bytes d" using that by (simp add: room_def)
      then have "utf8_length (utf8_prefix ls (room lineage max_bytes d' div 2)) \<le> utf8_length (utf8_prefix ls (room lineage max_bytes d div 2))"
        "utf8_length (utf8_prefix rs (room lineage max_bytes d' - room lineage max_bytes d' div 2))
          \<le> utf8_length (utf8_prefix rs (room lineage max_bytes d - room lineage max_bytes d div 2))"
        by (auto intro!: utf8_prefix_mono)
      then show ?thesis unfolding omitted_for_def Let_def by linarith
    qed
    show "?cnt (d + k) \<le> ?cnt d + k + 2" for d k
    proof -
      have "room lineage max_bytes d \<le> room lineage max_bytes (d + k) + k" by (simp add: room_def)
      from split_room [OF this, of ls rs] show ?thesis unfolding omitted_for_def Let_def by linarith
    qed
    show "lo + ro \<le> ?cnt (length (show_nat (lo + ro)))"
    proof -
      define a where "a = room lineage max_bytes (length (show_nat (lo + ro)))"
      show ?thesis
        using utf8_prefix_le_whole [of ls "a div 2"] utf8_prefix_le_whole [of rs "a - a div 2"]
        unfolding omitted_for_def Let_def a_def [symmetric] by linarith
    qed
    show "compact_loop (Suc (Suc (Suc 4))) ?turn (lo + ro) = Inr (l, r, n)"
      using assms by (simp add: eval_nat_numeral)
  qed
  from compact_round_Inr [OF this] obtain i j where x: "l \<noteq> []" "r \<noteq> []" "l = utf8_prefix ls i" "r = utf8_prefix rs j"
      "n = ?orig - utf8_length l - utf8_length r" by blast
  have "utf8_length l \<le> utf8_length ls" "utf8_length r \<le> utf8_length rs"
    by (simp_all only: x(3,4) utf8_prefix_le_whole)
  then have "n = lo + ro + (utf8_length ls - utf8_length l) + (utf8_length rs - utf8_length r)"
    unfolding x(5) by linarith
  then show ?thesis using x(1-4) by blast
qed

section \<open>A compacted item reads back\<close>

lemma identifier_chars:
  assumes "is_identifier s" and "c \<in> set s"
  shows "c \<noteq> CHR '','' \<and> c \<noteq> newline"
  using assms
  by (auto simp: is_identifier_def lower_letter_def digit_char_def newline_def Let_def list_all_iff split: list.splits)

lemma split_on_append:
  assumes "sep \<notin> set p"
  shows "split_on sep (p @ sep # s) = p # split_on sep s"
  using assms by (induction p) auto

lemma split_on_join:
  assumes "ps \<noteq> []" and "\<forall>p \<in> set ps. sep \<notin> set p"
  shows "split_on sep (join [sep] ps) = ps"
  using assms
proof (induction "[sep]" ps rule: join.induct)
  case (2 l)
  then have "sep \<notin> set l" by simp
  then show ?case by (induction l) auto
next
  case (3 l l' ls)
  then show ?case by (simp add: split_on_append)
qed simp

lemma parse_compaction_marker:
  assumes "lineage \<noteq> []" and "list_all is_identifier lineage"
  shows "parse_marker (compaction_marker n lineage) = Some (show_nat n, lineage)"
proof -
  let ?tail = "MARKER_MIDDLE @ join '','' lineage @ '']''"
  have digits: "\<forall>c \<in> set (show_nat n). digit_char c"
    using show_nat_digits [of n] by (simp add: list_all_iff)
  have semicolon: "\<not> digit_char CHR '';''" by (simp add: digit_char_def)
  then have tail: "takeWhile digit_char ?tail = []" "dropWhile digit_char ?tail = ?tail"
    by (simp_all add: MARKER_MIDDLE_def)
  have "takeWhile digit_char (show_nat n @ ?tail) = show_nat n" "dropWhile digit_char (show_nat n @ ?tail) = ?tail"
    using digits tail by (simp_all add: takeWhile_append2 dropWhile_append2)
  moreover have "split_on CHR '','' (join '','' lineage) = lineage"
    using assms identifier_chars by (intro split_on_join) (auto simp: list_all_iff)
  ultimately show ?thesis
    using assms(2) by (simp add: parse_marker_def compaction_marker_def starts_with_def show_nat_Cons Let_def butlast_append)
qed

lemma join_chars: "c \<in> set (join sep ps) \<Longrightarrow> c \<in> set sep \<or> (\<exists>p \<in> set ps. c \<in> set p)"
  by (induction sep ps rule: join.induct) auto

lemma marker_no_newline:
  assumes "list_all is_identifier lineage"
  shows "newline \<notin> set (compaction_marker n lineage)"
proof
  assume "newline \<in> set (compaction_marker n lineage)"
  then have "newline \<in> set (show_nat n) \<or> newline \<in> set (join '','' lineage)"
    by (auto simp: compaction_marker_def MARKER_START_def MARKER_MIDDLE_def newline_def)
  then show False
  proof
    assume "newline \<in> set (show_nat n)"
    then show False using show_nat_digits [of n] by (auto simp: list_all_iff digit_char_def newline_def)
  next
    assume "newline \<in> set (join '','' lineage)"
    then show False
      using join_chars [of newline "'',''" lineage] assms identifier_chars by (auto simp: list_all_iff newline_def)
  qed
qed

lemma source_text_lineage:
  assumes "source_text i = Inr x"
  shows "list_all is_identifier (mi_lineage i)"
  using assms
  by (auto simp: source_text_def parse_marker_def Let_def tx_simps split: if_splits option.splits)

lemma source_text_compacted:
  assumes "lineage \<noteq> []" and "list_all is_identifier lineage"
    and "mi_content i = compaction_marker n lineage @ [newline] @ body" and "mi_lineage i = lineage"
  shows "source_text i = Inr (body, n)"
proof -
  have "takeWhile (\<lambda>c. c \<noteq> newline) (compaction_marker n lineage @ newline # body) = compaction_marker n lineage"
    using marker_no_newline [OF assms(2), of n] by (subst takeWhile_append2) auto
  then show ?thesis
    using assms parse_compaction_marker [OF assms(1,2), of n] by (simp add: source_text_def Let_def)
qed

lemma set_from_keys [simp]: "set (from_keys xs) = set xs"
  by (simp add: from_keys_def)

lemma distinct_from_keys [simp]: "distinct (from_keys xs)"
  by (simp add: from_keys_def)

definition item_ok :: "memory_item \<Rightarrow> bool" where
  "item_ok i \<longleftrightarrow> is_identifier (mi_item_id i) \<and> is_identifier (mi_episode_id i) \<and> mi_content i \<noteq> [] \<and>
     mi_source_pointers i \<noteq> []"

lemma new_memory_item_Inr_iff [simp]: "new_memory_item i = Inr j \<longleftrightarrow> j = i \<and> item_ok i"
  by (auto simp: new_memory_item_def item_ok_def)

text \<open>
  C14: Compaction loses text but not its account of it. When two items are compacted into one, the new
  item reads back, as the code itself reads it the next time, to a prefix of each source around a
  separator; the count in its marker is exactly the number of source bytes that are gone, those lost
  earlier included, although the count is part of the text that has to fit; the item is within its
  bound, and it names every item and every source pointer of the two it replaces.
\<close>

theorem compaction_accounts_for_every_byte:
  assumes "item_ok left" and "item_ok right" and "compact_pair h left right max_bytes = Inr c"
  shows "\<exists>ls lo rs ro lx lrest rx rrest.
    source_text left = Inr (ls, lo) \<and> source_text right = Inr (rs, ro) \<and>
    ls = lx @ lrest \<and> rs = rx @ rrest \<and> lx \<noteq> [] \<and> rx \<noteq> [] \<and>
    source_text c = Inr (lx @ SEPARATOR @ rx, lo + ro + utf8_length lrest + utf8_length rrest) \<and>
    int (item_bytes c) \<le> max_bytes \<and>
    set (mi_lineage c) = set (mi_lineage left @ [mi_item_id left] @ mi_lineage right @ [mi_item_id right]) \<and>
    set (mi_source_pointers c) = set (mi_source_pointers left @ mi_source_pointers right)"
proof -
  let ?lineage = "from_keys (mi_lineage left @ [mi_item_id left] @ mi_lineage right @ [mi_item_id right])"
  from assms(3) obtain ls lo rs ro lx rx n where
      src: "source_text left = Inr (ls, lo)" "source_text right = Inr (rs, ro)"
      and loop: "compact_loop 7 (compact_round ?lineage ls rs (utf8_length ls + utf8_length rs + lo + ro) max_bytes) (lo + ro)
        = Inr (lx, rx, n)"
      and c: "mi_content c = compaction_marker n ?lineage @ [newline] @ lx @ SEPARATOR @ rx"
        "mi_lineage c = ?lineage" "mi_source_pointers c = from_keys (mi_source_pointers left @ mi_source_pointers right)"
        "int (utf8_length (mi_content c)) \<le> max_bytes"
    by (auto simp: compact_pair_def Let_def tx_simps)
  from compact_loop_exact [OF loop] obtain i j where x: "lx \<noteq> []" "rx \<noteq> []" "lx = utf8_prefix ls i" "rx = utf8_prefix rs j"
      "n = lo + ro + (utf8_length ls - utf8_length lx) + (utf8_length rs - utf8_length rx)"
    by blast
  obtain lrest rrest where rest: "ls = lx @ lrest" "rs = rx @ rrest"
    using utf8_prefix_append x(3,4) by metis
  have "?lineage \<noteq> []" using set_from_keys [of "mi_lineage left @ [mi_item_id left] @ mi_lineage right @ [mi_item_id right]"]
    by (metis append_is_Nil_conv list.set(1) not_Cons_self2 set_empty)
  moreover have "list_all is_identifier ?lineage"
    using source_text_lineage [OF src(1)] source_text_lineage [OF src(2)] assms(1,2)
    by (auto simp: list_all_iff item_ok_def)
  ultimately have "source_text c = Inr (lx @ SEPARATOR @ rx, n)"
    using source_text_compacted c(1,2) by blast
  moreover have "n = lo + ro + utf8_length lrest + utf8_length rrest"
    using x(5) rest by simp
  ultimately show ?thesis
    using src rest x(1,2) c(2-4) by (intro exI conjI) (auto simp: item_bytes_def)
qed

section \<open>The memory of an episode\<close>

definition memory_ok :: "episode_memory \<Rightarrow> bool" where
  "memory_ok m \<longleftrightarrow> new_memory m = Inr m \<and> list_all item_ok (em_items m)"

definition pointers_of :: "memory_item list \<Rightarrow> evidence_pointer set" where
  "pointers_of items = (\<Union>i \<in> set items. set (mi_source_pointers i))"

definition accounted :: "memory_item list \<Rightarrow> string set" where
  "accounted items = (\<Union>i \<in> set items. insert (mi_item_id i) (set (mi_lineage i)))"

lemma compact_pair_Inr:
  assumes "compact_pair h a b n = Inr c"
  shows "item_ok c \<and> mi_episode_id c = mi_episode_id a \<and>
    set (mi_lineage c) = set (mi_lineage a @ [mi_item_id a] @ mi_lineage b @ [mi_item_id b]) \<and>
    set (mi_source_pointers c) = set (mi_source_pointers a @ mi_source_pointers b)"
  using assms by (auto simp: compact_pair_def Let_def tx_simps)

lemma compact_items_keeps:
  assumes "compact_items h max_items max_bytes items = Inr items'" and "list_all item_ok items"
    and "list_all (\<lambda>i. mi_episode_id i = e) items"
  shows "list_all item_ok items' \<and> list_all (\<lambda>i. mi_episode_id i = e) items' \<and>
    pointers_of items' = pointers_of items \<and> accounted items \<subseteq> accounted items' \<and>
    length items' \<le> max_items \<and> sum_list (map item_bytes items') \<le> max_bytes"
  using assms
proof (induction h max_items max_bytes items rule: compact_items.induct)
  case (1 h max_items max_bytes items)
  show ?case
  proof (cases "length items > max_items \<or> sum_list (map item_bytes items) > max_bytes")
    case False
    then show ?thesis using 1(2-4) by (auto simp: compact_items.simps [of h max_items max_bytes items])
  next
    case over: True
    then obtain a b rest c where items: "items = a # b # rest"
        and c: "compact_pair h a b (min (int (item_bytes a + item_bytes b) - 1) (int max_bytes - int (sum_list (map item_bytes rest)))) = Inr c"
        and rec: "compact_items h max_items max_bytes (c # rest) = Inr items'"
        and cap: "\<not> min (int (item_bytes a + item_bytes b) - 1) (int max_bytes - int (sum_list (map item_bytes rest))) < 1"
        and less: "\<not> item_bytes a + item_bytes b \<le> item_bytes c"
      using 1(2) by (auto simp: compact_items.simps [of h max_items max_bytes items] Let_def tx_simps split: list.splits)
    have ih: "list_all item_ok (c # rest) \<Longrightarrow> list_all (\<lambda>i. mi_episode_id i = e) (c # rest) \<Longrightarrow>
        list_all item_ok items' \<and> list_all (\<lambda>i. mi_episode_id i = e) items' \<and>
        pointers_of items' = pointers_of (c # rest) \<and> accounted (c # rest) \<subseteq> accounted items' \<and>
        length items' \<le> max_items \<and> sum_list (map item_bytes items') \<le> max_bytes"
      using 1(1) [OF over items refl refl refl] cap c less rec by simp
    have "pointers_of (c # rest) = pointers_of items" "accounted items \<subseteq> accounted (c # rest)"
      using compact_pair_Inr [OF c] by (auto simp: pointers_of_def accounted_def items)
    moreover have "list_all item_ok (c # rest)" "list_all (\<lambda>i. mi_episode_id i = e) (c # rest)"
      using compact_pair_Inr [OF c] 1(3,4) by (simp_all add: items)
    ultimately show ?thesis using ih by auto
  qed
qed

text \<open>
  The memory of an episode stays within its bounds and keeps its provenance. A successful append
  leaves a valid memory: as many items and bytes as declared at most, the total exact, identifiers unique,
  one episode. Compaction may have merged items, but the source pointers are exactly those of the old
  memory and of the new item, and every item ever appended is still there or named by the lineage of
  one that is. When the new item fits, nothing is compacted.
\<close>

theorem memory_bounded_and_sourced:
  assumes "memory_ok m" and "item_ok i" and "append_memory h m i = Inr m'"
  shows "memory_ok m' \<and> em_episode_id m' = em_episode_id m \<and> em_max_items m' = em_max_items m \<and>
    em_max_bytes m' = em_max_bytes m \<and> length (em_items m') \<le> em_max_items m \<and> em_total_bytes m' \<le> em_max_bytes m \<and>
    pointers_of (em_items m') = pointers_of (em_items m) \<union> set (mi_source_pointers i) \<and>
    accounted (em_items m) \<union> insert (mi_item_id i) (set (mi_lineage i)) \<subseteq> accounted (em_items m') \<and>
    (length (em_items m) < em_max_items m \<and> em_total_bytes m + item_bytes i \<le> em_max_bytes m \<longrightarrow>
       em_items m' = em_items m @ [i])"
proof -
  from assms(3) obtain items where items: "compact_items h (em_max_items m) (em_max_bytes m) (em_items m @ [i]) = Inr items"
      and m': "m' = m\<lparr>em_items := items, em_total_bytes := sum_list (map item_bytes items)\<rparr>" "new_memory m' = Inr m'"
      and i: "mi_episode_id i = em_episode_id m"
    by (auto simp: append_memory_def new_memory_def tx_simps)
  have "list_all item_ok (em_items m @ [i])" "list_all (\<lambda>j. mi_episode_id j = em_episode_id m) (em_items m @ [i])"
    "sum_list (map item_bytes (em_items m)) = em_total_bytes m"
    using assms(1,2) i by (auto simp: memory_ok_def new_memory_def list_ex_iff list_all_iff)
  note keeps = compact_items_keeps [OF items this(1,2)] and total = this(3)
  have "items = em_items m @ [i]" if "length (em_items m) < em_max_items m" "em_total_bytes m + item_bytes i \<le> em_max_bytes m"
    using items that total by (simp add: compact_items.simps [of h])
  then show ?thesis
    using keeps m' by (auto simp: memory_ok_def pointers_of_def accounted_def)
qed

section \<open>Witnesses\<close>

lemma utf8_replicate:
  assumes "(of_char c :: nat) < 128"
  shows "utf8_length (replicate n c) = n" "utf8_prefix (replicate n c) k = replicate (min n k) c"
proof -
  show "utf8_length (replicate n c) = n" using assms by (induction n) auto
  show "utf8_prefix (replicate n c) k = replicate (min n k) c"
  proof (induction n arbitrary: k)
    case (Suc n)
    then show ?case using assms by (cases k) auto
  qed simp
qed

definition example_item :: "string \<Rightarrow> char \<Rightarrow> memory_item" where
  "example_item i c = \<lparr>mi_item_id = i, mi_episode_id = ''e1'', mi_content = replicate 300 c,
     mi_source_pointers = [\<lparr>ep_source_id = ''source'', ep_uri = i, ep_content_hash = replicate 64 (CHR ''a'')\<rparr>], mi_lineage = []\<rparr>"

definition example_hash16 :: "json \<Rightarrow> string" where
  "example_hash16 j = replicate 64 (CHR ''a'')"

lemma example_items_ok: "item_ok (example_item ''i1'' CHR ''a'')" "item_ok (example_item ''i2'' CHR ''b'')"
  by (simp_all add: item_ok_def example_item_def is_identifier_def lower_letter_def digit_char_def)

lemma example_compaction: "\<exists>c. compact_pair example_hash16 (example_item ''i1'' CHR ''a'') (example_item ''i2'' CHR ''b'') 400 = Inr c"
proof -
  have ascii: "(of_char CHR ''a'' :: nat) < 128" "(of_char CHR ''b'' :: nat) < 128" by simp_all
  have lineage: "from_keys [''i1'', ''i2''] = [''i1'', ''i2'']" by (simp add: from_keys_def)
  have turn: "compact_round [''i1'', ''i2''] (replicate 300 CHR ''a'') (replicate 300 CHR ''b'') 600 400 n =
      (let a = 333 - length (show_nat n) in
       Inr (replicate (a div 2) CHR ''a'', replicate (a - a div 2) CHR ''b'', 600 - a))" if "length (show_nat n) \<le> 3" for n
    using that utf8_length_digits [OF show_nat_digits, of n] nat_diff_distrib' [of 333 "int (length (show_nat n))"]
    by (auto simp: compact_round_def compaction_marker_def MARKER_START_def MARKER_MIDDLE_def SEPARATOR_def newline_def
        utf8_replicate [OF ascii(1)] utf8_replicate [OF ascii(2)] Let_def)
  have widths: "length (show_nat 0) = 1" "length (show_nat 268) = 3" "length (show_nat 270) = 3"
    by (simp_all add: show_nat.simps)
  show ?thesis
  proof -
    let ?turn = "compact_round [''i1'', ''i2''] (replicate 300 CHR ''a'') (replicate 300 CHR ''b'') 600 400"
    have "compact_loop (Suc (Suc (Suc k))) ?turn 0 = Inr (replicate 165 CHR ''a'', replicate 165 CHR ''b'', 270)" for k
      by (simp add: turn widths Let_def)
    from this [of 4] have "compact_loop 7 ?turn 0 = Inr (replicate 165 CHR ''a'', replicate 165 CHR ''b'', 270)"
      by simp
    then show ?thesis
      using widths(3) utf8_length_digits [OF show_nat_digits, of 270]
      by (simp add: compact_pair_def example_item_def source_text_def lineage utf8_replicate [OF ascii(1)]
          utf8_replicate [OF ascii(2)] compaction_marker_def MARKER_START_def MARKER_MIDDLE_def SEPARATOR_def newline_def
          example_hash16_def item_ok_def is_identifier_def lower_letter_def digit_char_def new_memory_item_def from_keys_def
          Let_def list_all_iff)
  qed
qed

theorem compaction_accounts_for_every_byte_witness:
  "\<exists>c. compact_pair example_hash16 (example_item ''i1'' CHR ''a'') (example_item ''i2'' CHR ''b'') 400 = Inr c \<and>
     item_bytes c \<le> 400 \<and> set (mi_lineage c) = {''i1'', ''i2''}"
proof -
  obtain c where c: "compact_pair example_hash16 (example_item ''i1'' CHR ''a'') (example_item ''i2'' CHR ''b'') 400 = Inr c"
    using example_compaction by blast
  from compaction_accounts_for_every_byte [OF example_items_ok c]
  have "int (item_bytes c) \<le> 400" "set (mi_lineage c) = {''i1'', ''i2''}"
    by (auto simp: example_item_def)
  then show ?thesis using c by auto
qed

definition example_memory :: episode_memory where
  "example_memory = \<lparr>em_episode_id = ''e1'', em_max_items = 1, em_max_bytes = 400, em_items = [example_item ''i1'' CHR ''a''],
     em_total_bytes = 300\<rparr>"

theorem memory_bounded_and_sourced_witness:
  "\<exists>m'. memory_ok example_memory \<and> append_memory example_hash16 example_memory (example_item ''i2'' CHR ''b'') = Inr m' \<and>
     em_total_bytes m' \<le> 400 \<and> {''i1'', ''i2''} \<subseteq> accounted (em_items m')"
proof -
  let ?a = "example_item ''i1'' CHR ''a''" and ?b = "example_item ''i2'' CHR ''b''"
  have bytes: "item_bytes ?a = 300" "item_bytes ?b = 300"
    by (simp_all add: item_bytes_def example_item_def utf8_replicate)
  obtain c where c: "compact_pair example_hash16 ?a ?b 400 = Inr c"
    using example_compaction by blast
  from compaction_accounts_for_every_byte [OF example_items_ok c] have size: "item_bytes c \<le> 400"
    by auto
  have ok: "memory_ok example_memory"
    using example_items_ok bytes
    by (simp add: memory_ok_def new_memory_def example_memory_def item_ok_def is_identifier_def lower_letter_def digit_char_def)
      (simp add: example_item_def)
  have "compact_items example_hash16 1 400 [?a, ?b] = compact_items example_hash16 1 400 [c]"
    using bytes c size by (subst compact_items.simps) simp
  also have "compact_items example_hash16 1 400 [c] = Inr [c]"
    using size by (subst compact_items.simps) simp
  finally have items: "compact_items example_hash16 1 400 [?a, ?b] = Inr [c]" .
  have "mi_episode_id c = ''e1''" using compact_pair_Inr [OF c] by (simp add: example_item_def)
  then obtain m' where m': "append_memory example_hash16 example_memory ?b = Inr m'"
    using items size bytes
    by (simp add: append_memory_def example_memory_def new_memory_def is_identifier_def lower_letter_def digit_char_def)
      (simp add: example_item_def)
  from memory_bounded_and_sourced [OF ok example_items_ok(2) m'] ok m' show ?thesis
    by (auto simp: example_memory_def accounted_def example_item_def)
qed

end
