(* ===== verification/Factor_Adapter.thy ===== *)
theory Factor_Adapter
  imports Factor_Recipes Episode_Memory Worker
begin

text \<open>
  The adapter that runs an attempt under a compiled recipe and the router over the sixteen recipes
  (\<open>src/backend/factors_v1/adapter.py\<close>).

  The wrapped adapter and the factor runtime are code from outside: what each call of them returns or
  raises is an argument of the operation that makes it. Python passes the bound input to both by
  reference, so an answer also says what the input is afterwards, and the code compares. The recipe is
  kept as canonical JSON and parsed for every use, which gives the same recipe each time. Calls of
  \<open>execute_attempt\<close> for one attempt exclude each other by a lock, so one is one step here.
\<close>

section \<open>Evidence\<close>

record recovery_observation =
  ro_failure :: failure_event
  ro_checkpoint :: "checkpoint_artifact option"
  ro_policy :: recovery_policy
  ro_retries_used :: int
  ro_idempotency_key :: string
  ro_observed_checkpoint_sequences :: "int list"
  ro_used_idempotency_keys :: "string list"
  ro_decision :: "recovery_decision option"

record factor_report =
  fr_observed_assignment :: assignment
  fr_observed_budgets :: "(string \<times> treatment_budget) list"
  fr_evidence :: "evidence_pointer list"
  fr_plan_history :: "plan_artifact list"
  fr_verification :: "verification_artifact option"
  fr_recovery :: "recovery_observation list"
  fr_memory :: "episode_memory option"

definition check_plan_pair :: "plan_artifact \<times> plan_artifact \<Rightarrow> unit \<Rightarrow> unit result" where
  "check_plan_pair pair u =
     (case pair of (before, after) \<Rightarrow>
      bind_r (raise_if (pa_plan_id before \<noteq> pa_plan_id after \<or> length (pa_steps before) \<noteq> length (pa_steps after))
        (FactorAdapterError ''plan history must preserve one immutable plan artifact'')) (\<lambda>_.
      case filter (\<lambda>(old, new). old \<noteq> new) (zip (pa_steps before) (pa_steps after)) of
        [(old, new)] \<Rightarrow>
          bind_r (transition_plan_step before (pl_step_id old) (pl_state new) (pl_terminal_evidence new)) (\<lambda>expected.
          raise_if (expected \<noteq> after) (FactorAdapterError ''plan history contains an invalid state transition''))
      | _ \<Rightarrow> Inl (FactorAdapterError ''each plan transition must update exactly one step'')))"

definition validate_plan_history :: "plan_artifact list \<Rightarrow> string \<Rightarrow> unit result" where
  "validate_plan_history history episode_id =
     bind_r (raise_if (length history < 3 \<or> list_ex (\<lambda>p. pa_episode_id p \<noteq> episode_id) history)
       (FactorAdapterError ''active planning requires an episode-bound plan and evidenced state transitions'')) (\<lambda>_.
     bind_r (for_each check_plan_pair (zip history (tl history)) ()) (\<lambda>_.
     raise_if (\<not> list_all (\<lambda>s. terminal_state (pl_state s)) (pa_steps (last history)))
       (FactorAdapterError ''active plan must reach evidenced terminal step states before finalization'')))"

definition check_recovery :: "attempt_envelope \<Rightarrow> recovery_observation \<Rightarrow> unit \<Rightarrow> unit result" where
  "check_recovery attempt observed u =
     bind_r (raise_if (fe_episode_id (ro_failure observed) \<noteq> av_episode_id attempt \<or>
         fe_attempt_id (ro_failure observed) \<noteq> av_attempt_id attempt)
       (FactorAdapterError ''recovery observation does not bind this attempt'')) (\<lambda>_.
     bind_r (authorize_recovery (ro_failure observed) (ro_checkpoint observed) (ro_policy observed) (ro_retries_used observed)
       (ro_idempotency_key observed) (ro_observed_checkpoint_sequences observed) (ro_used_idempotency_keys observed)) (\<lambda>expected.
     raise_if (ro_decision observed \<noteq> Some expected)
       (FactorAdapterError ''recovery decision was not authorized by the declared-transient checkpoint gate'')))"

text \<open>
  The scope and the independence flag of an artifact are constants of its model, so the check of them
  never fails.
\<close>

definition validate_verification ::
  "verification_artifact option \<Rightarrow> attempt_envelope \<Rightarrow> result_bundle option \<Rightarrow> unit result" where
  "validate_verification verification attempt outcome =
     (case outcome of
        None \<Rightarrow> Inr ()
      | Some r \<Rightarrow>
          (case rb_response_hash r of
             None \<Rightarrow> Inr ()
           | Some response_hash \<Rightarrow>
               if rb_terminal_outcome r \<noteq> Out_completed then Inr ()
               else
               (case verification of
                  None \<Rightarrow> Inl (FactorAdapterError ''active verification requires agent-side pre-finalization evidence'')
                | Some v \<Rightarrow>
                    bind_r (raise_if (va_episode_id v \<noteq> av_episode_id attempt \<or> va_candidate_response_hash v \<noteq> response_hash)
                      (FactorAdapterError ''verification artifact does not bind the candidate response'')) (\<lambda>_.
                    raise_if (va_repairs_used v > 1 \<or> \<not> va_finalization_allowed v \<or> va_final_response_hash v \<noteq> Some response_hash)
                      (FactorAdapterError ''agent verification did not permit this final response within its one-repair budget'')))))"

definition validate_delivery ::
  "compiled_recipe \<Rightarrow> factor_report \<Rightarrow> attempt_envelope \<Rightarrow> bool \<Rightarrow> result_bundle option \<Rightarrow> unit result" where
  "validate_delivery recipe report attempt final outcome =
     bind_r (check_manipulation_fidelity recipe (fr_observed_assignment report) (fr_observed_budgets report) (fr_evidence report)) (\<lambda>fidelity.
     bind_r (raise_if (\<not> list_all (\<lambda>m. mf_delivered m \<and> mf_compute_context_matched m) fidelity)
       (FactorAdapterError ''every active and sham factor requires explicit compute/context-matched delivery evidence'')) (\<lambda>_.
     bind_r (key_of (re_assignment recipe) ''planning'') (\<lambda>planning.
     bind_r (if planning then validate_plan_history (fr_plan_history report) (av_episode_id attempt) else Inr ()) (\<lambda>_.
     bind_r (key_of (re_assignment recipe) ''memory'') (\<lambda>memory.
     bind_r (raise_if (memory \<and> (case fr_memory report of None \<Rightarrow> True
         | Some m \<Rightarrow> em_episode_id m \<noteq> av_episode_id attempt \<or> em_items m = []))
       (FactorAdapterError ''active memory requires bounded, sourced within-episode memory evidence'')) (\<lambda>_.
     bind_r (key_of (re_assignment recipe) ''recovery'') (\<lambda>recovery.
     bind_r (if recovery then for_each (check_recovery attempt) (fr_recovery report) () else Inr ()) (\<lambda>_.
     if final then
       bind_r (key_of (re_assignment recipe) ''verification'') (\<lambda>verification.
       if verification then validate_verification (fr_verification report) attempt outcome else Inr ())
     else Inr ()))))))))"

section \<open>The adapter\<close>

record prepared_attempt =
  pd_attempt_id :: string
  pd_adapter_id :: string
  pd_prepared_at :: datetime
  pd_timeout_seconds :: int
  pd_opaque_handle :: string
  pd_input_digest :: string

record factor_session =
  fn_token :: string
  fn_initial_report :: factor_report

record stored_attempt =
  sd_raw_input :: json
  sd_input :: attempt_input
  sd_harness :: harness_spec
  sd_prepared :: prepared_attempt
  sd_session :: factor_session

record factor_adapter =
  fx_recipe :: compiled_recipe
  fx_attempts :: "(string \<times> stored_attempt) list"
  fx_results :: "(string \<times> result_bundle) list"
  fx_reports :: "(string \<times> factor_report) list"
  fx_completed :: "string list"
  fx_cancelled :: "string list"
  fx_cleaned :: "string list"

definition new_factor_adapter :: "compiled_recipe \<Rightarrow> factor_adapter" where
  "new_factor_adapter recipe = \<lparr>fx_recipe = recipe, fx_attempts = [], fx_results = [], fx_reports = [], fx_completed = [],
     fx_cancelled = [], fx_cleaned = []\<rparr>"

text \<open>What a call outside answers, and the bound input after it.\<close>

type_synonym 'a answer = "'a result \<times> attempt_input"

definition assert_assignment :: "compiled_recipe \<Rightarrow> attempt_input \<Rightarrow> unit result" where
  "assert_assignment recipe i =
     (let observed = av_factor_assignments (ai_attempt i) in
     bind_r (raise_if (set (map fst observed) \<noteq> set (map fst (re_assignment recipe)) \<or>
         \<not> list_all (\<lambda>(_, v). v \<in> {JBool False, JBool True}) observed)
       (FactorAdapterError ''AttemptInput must bind exactly the compiled strict-boolean P/V/R/M assignment'')) (\<lambda>_.
     raise_if (\<exists>k \<in> set (map fst observed). dict_get observed k \<noteq> map_option JBool (map_of (re_assignment recipe) k))
       (FactorAdapterError ''AttemptInput factor assignment does not match the immutable compiled recipe'')))"

definition assert_adapter_capabilities :: "compiled_recipe \<Rightarrow> harness_capabilities \<Rightarrow> unit result" where
  "assert_adapter_capabilities recipe c =
     raise_if (\<not> list_all (get_capability c) (concat (map me_required_capabilities (re_mechanisms recipe))))
       (FactorAdapterError ''HOLD: wrapped adapter lacks required factor capabilities'')"

definition assert_unchanged :: "json \<Rightarrow> attempt_input \<Rightarrow> unit result" where
  "assert_unchanged raw i = raise_if (attempt_input_dump i \<noteq> raw)
     (FactorAdapterError ''factor runtime mutated the canonical AttemptInput binding'')"

definition answered :: "json \<Rightarrow> 'a answer \<Rightarrow> 'a result" where
  "answered raw ans = bind_r (fst ans) (\<lambda>x. bind_r (assert_unchanged raw (snd ans)) (\<lambda>_. Inr x))"

fun held :: "py_error \<Rightarrow> py_error" where
  "held (FactorAdapterError m) = FactorAdapterError m"
| "held CancelledError = CancelledError"
| "held e = FactorAdapterError (''HOLD: factor runtime preparation failed: '' @ class_name e)"

definition catch :: "'a result \<Rightarrow> (py_error \<Rightarrow> py_error) \<Rightarrow> 'a result" where
  "catch r f = (case r of Inl e \<Rightarrow> Inl (f e) | Inr x \<Rightarrow> Inr x)"

definition prepare_attempt ::
  "codec \<Rightarrow> harness_spec \<Rightarrow> attempt_input \<Rightarrow> harness_capabilities result \<Rightarrow> factor_session answer \<Rightarrow> prepared_attempt answer
    \<Rightarrow> factor_adapter \<Rightarrow> (prepared_attempt \<times> factor_adapter) result" where
  "prepare_attempt cd harness i capabilities session_answer prepared_answer st =
     bind_r (parse_attempt_input cd (attempt_input_dump i)) (\<lambda>bound.
     let raw = attempt_input_dump bound; recipe = fx_recipe st in
     bind_r (assert_assignment recipe bound) (\<lambda>_.
     bind_r capabilities (\<lambda>c.
     bind_r (assert_adapter_capabilities recipe c) (\<lambda>_.
     bind_r (catch (
       bind_r (answered raw session_answer) (\<lambda>session.
       bind_r (validate_delivery recipe (fn_initial_report session) (ai_attempt bound) False None) (\<lambda>_.
       bind_r (answered raw prepared_answer) (\<lambda>prepared.
       Inr (session, prepared))))) held) (\<lambda>(session, prepared).
     bind_r (raise_if (pd_input_digest prepared \<noteq> sha256 cd raw)
       (FactorAdapterError ''wrapped adapter did not preserve canonical AttemptInput binding'')) (\<lambda>_.
     let k = pd_attempt_id prepared in
     Inr (prepared, st\<lparr>fx_attempts := AList.update k \<lparr>sd_raw_input = raw, sd_input = bound, sd_harness = harness,
         sd_prepared = prepared, sd_session = session\<rparr> (fx_attempts st),
       fx_results := AList.delete k (fx_results st), fx_reports := AList.delete k (fx_reports st),
       fx_completed := removeAll k (fx_completed st), fx_cancelled := removeAll k (fx_cancelled st),
       fx_cleaned := removeAll k (fx_cleaned st)\<rparr>)))))))"

definition owned_attempt :: "codec \<Rightarrow> prepared_attempt \<Rightarrow> factor_adapter \<Rightarrow> (stored_attempt \<times> attempt_input) result" where
  "owned_attempt cd prepared st =
     (case map_of (fx_attempts st) (pd_attempt_id prepared) of
        None \<Rightarrow> Inl (FactorAdapterError ''prepared attempt is not owned by this factor adapter'')
      | Some stored \<Rightarrow>
          bind_r (raise_if (sd_prepared stored \<noteq> prepared)
            (FactorAdapterError ''prepared attempt is not owned by this factor adapter'')) (\<lambda>_.
          bind_r (parse_attempt_input cd (sd_raw_input stored)) (\<lambda>bound.
          bind_r (raise_if (pd_input_digest prepared \<noteq> sha256 cd (attempt_input_dump bound))
            (FactorAdapterError ''prepared attempt input binding mismatch'')) (\<lambda>_.
          Inr (stored, bound)))))"

definition held_result :: "prepared_attempt \<Rightarrow> datetime \<Rightarrow> py_error \<Rightarrow> result_bundle" where
  "held_result prepared now e =
     \<lparr>rb_attempt_id = pd_attempt_id prepared, rb_terminal_outcome = Out_incomplete, rb_completed_at = now,
      rb_response_hash = None, rb_response_artifact_id = None, rb_usage = None, rb_artifacts = [],
      rb_detail = Some (''HOLD: factor manipulation fidelity or semantics unavailable: '' @ class_name e),
      rb_failure_classification = Some Permanent_protocol\<rparr>"

definition deliver ::
  "compiled_recipe \<Rightarrow> stored_attempt \<Rightarrow> attempt_input \<Rightarrow> result_bundle answer \<Rightarrow> factor_report answer \<Rightarrow> (result_bundle \<times> factor_report) result" where
  "deliver recipe stored bound result_answer report_answer =
     bind_r (answered (sd_raw_input stored) result_answer) (\<lambda>r.
     bind_r (validate_result_for_attempt r (ai_attempt bound)) (\<lambda>r.
     bind_r (answered (sd_raw_input stored) report_answer) (\<lambda>report.
     bind_r (validate_delivery recipe report (ai_attempt bound) True (Some r)) (\<lambda>_.
     Inr (r, report)))))"

text \<open>
  The handler catches every \<open>Exception\<close>. A cancellation of the task is not one: the \<open>finally\<close> block then
  reads the local variable \<open>final\<close> before any assignment to it, and the \<open>UnboundLocalError\<close> takes the place
  of the cancellation before a result is stored or the completion event set.
\<close>

definition execute_attempt ::
  "codec \<Rightarrow> prepared_attempt \<Rightarrow> result_bundle answer \<Rightarrow> factor_report answer \<Rightarrow> datetime \<Rightarrow> factor_adapter
    \<Rightarrow> result_bundle result \<times> factor_adapter" where
  "execute_attempt cd prepared result_answer report_answer now st =
     (case owned_attempt cd prepared st of
        Inl e \<Rightarrow> (Inl e, st)
      | Inr (stored, bound) \<Rightarrow>
          let k = pd_attempt_id prepared; completed = List.insert k (fx_completed st) in
          case map_of (fx_results st) k of
            Some r \<Rightarrow> (Inr r, st\<lparr>fx_completed := completed\<rparr>)
          | None \<Rightarrow>
              (case deliver (fx_recipe st) stored bound result_answer report_answer of
                 Inr (r, report) \<Rightarrow>
                   (Inr r, st\<lparr>fx_reports := AList.update k report (fx_reports st),
                     fx_results := AList.update k r (fx_results st), fx_completed := completed\<rparr>)
               | Inl CancelledError \<Rightarrow> (Inl (AdapterError ''UnboundLocalError''), st)
               | Inl e \<Rightarrow>
                   (let final = held_result prepared now e in
                    (Inr final, st\<lparr>fx_results := AList.update k final (fx_results st), fx_completed := completed\<rparr>))))"

section \<open>Events\<close>

datatype stream_end = Stream_done | Stream_waits | Stream_raised py_error

definition factor_event ::
  "codec \<Rightarrow> prepared_attempt \<Rightarrow> attempt_input \<Rightarrow> datetime \<Rightarrow> rat \<Rightarrow> dict \<Rightarrow> int \<Rightarrow> trace_event" where
  "factor_event cd prepared i now monotonic payload sequence =
     \<lparr>te_trace_id = ''factor-'' @ take 16 (pd_input_digest prepared), te_episode_id = av_episode_id (ai_attempt i),
      te_attempt_id = av_attempt_id (ai_attempt i), te_sequence = sequence, te_actor = Actor_system, te_event_type = Ev_state,
      te_timestamp = now, te_monotonic_time = monotonic, te_payload = payload, te_payload_hash = sha256 cd (JObj payload)\<rparr>"

definition recipe_binding_payload :: "compiled_recipe \<Rightarrow> prepared_attempt \<Rightarrow> dict" where
  "recipe_binding_payload recipe prepared =
     [(''event'', JStr ''factor_recipe_bound''), (''recipe_id'', JStr (re_recipe_id recipe)),
      (''configuration_hash'', JStr (re_configuration_hash recipe)), (''input_digest'', JStr (pd_input_digest prepared)),
      (''claim'', JStr ''delivery_evidence_only'')]"

definition mode_name :: "mechanism_mode \<Rightarrow> string" where
  "mode_name m = (case m of Active \<Rightarrow> ''active'' | Sham \<Rightarrow> ''sham'')"

definition fidelity_payload :: "manipulation_fidelity \<Rightarrow> dict" where
  "fidelity_payload m =
     [(''event'', JStr ''factor_fidelity''), (''factor_id'', JStr (mf_factor_id m)), (''mode'', JStr (mode_name (mf_mode m))),
      (''passed'', JBool (mf_delivered m)), (''compute_context_matched'', JBool (mf_compute_context_matched m)),
      (''claim'', JStr ''treatment_delivery_only'')]"

definition missing_payload :: "compiled_mechanism \<Rightarrow> dict" where
  "missing_payload m =
     [(''event'', JStr ''factor_fidelity''), (''factor_id'', JStr (me_factor_id m)), (''mode'', JStr (mode_name (me_mode m))),
      (''passed'', JBool False), (''compute_context_matched'', JBool False),
      (''reason'', JStr ''no finalized fidelity report''), (''claim'', JStr ''delivery_evidence_only'')]"

fun outcome_name :: "terminal_outcome \<Rightarrow> string" where
  "outcome_name Out_completed = ''completed''"
| "outcome_name Out_failed = ''failed''"
| "outcome_name Out_timed_out = ''timed_out''"
| "outcome_name Out_cancelled = ''cancelled''"
| "outcome_name Out_incomplete = ''incomplete''"

definition final_factor_payloads :: "factor_adapter \<Rightarrow> prepared_attempt \<Rightarrow> dict list result" where
  "final_factor_payloads st prepared =
     (let report = map_of (fx_reports st) (pd_attempt_id prepared) in
     bind_r (case report of
         Some rep \<Rightarrow> bind_r (check_manipulation_fidelity (fx_recipe st) (fr_observed_assignment rep) (fr_observed_budgets rep)
           (fr_evidence rep)) (\<lambda>ms. Inr (map fidelity_payload ms))
       | None \<Rightarrow> Inr (map missing_payload (re_mechanisms (fx_recipe st)))) (\<lambda>entries.
     case map_of (fx_results st) (pd_attempt_id prepared) of
       None \<Rightarrow> Inl (FactorAdapterError ''stream observed completion without a terminal factor result'')
     | Some terminal \<Rightarrow>
         Inr (entries @ [[(''event'', JStr ''factor_terminal''), (''outcome'', JStr (outcome_name (rb_terminal_outcome terminal))),
           (''fidelity_observed'', JBool (report \<noteq> None))]])))"

definition wrapped_event :: "codec \<Rightarrow> prepared_attempt \<Rightarrow> trace_event \<Rightarrow> nat \<Rightarrow> trace_event" where
  "wrapped_event cd prepared e index =
     (let payload = [(''wrapped_event'', JObj (te_payload e)), (''wrapped_sequence'', JInt (te_sequence e))] in
      e\<lparr>te_trace_id := ''factor-'' @ take 16 (pd_input_digest prepared), te_sequence := int index, te_payload := payload,
        te_payload_hash := sha256 cd (JObj payload)\<rparr>)"

text \<open>
  \<open>stream_events\<close> gives the events a consumer receives and how the stream ends, given what the stream of
  the wrapped adapter gives and the state when it has been read. The clocks are read for the first
  event and again for the final ones.
\<close>

definition stream_events ::
  "codec \<Rightarrow> prepared_attempt \<Rightarrow> trace_event list result \<Rightarrow> datetime \<Rightarrow> rat \<Rightarrow> datetime \<Rightarrow> rat \<Rightarrow> factor_adapter
    \<Rightarrow> trace_event list \<times> stream_end" where
  "stream_events cd prepared adapter_events opened_at opened now start st =
     (case owned_attempt cd prepared st of
        Inl e \<Rightarrow> ([], Stream_raised e)
      | Inr (stored, bound) \<Rightarrow>
          let opening = factor_event cd prepared bound opened_at opened (recipe_binding_payload (fx_recipe st) prepared) 0 in
          case bind_r adapter_events (\<lambda>base. validate_events_for_attempt base (ai_attempt bound)) of
            Inl e \<Rightarrow> ([opening], Stream_raised e)
          | Inr base \<Rightarrow>
              let wrapped = map2 (wrapped_event cd prepared) base [1..<length base + 1] in
              if pd_attempt_id prepared \<notin> set (fx_completed st) then (opening # wrapped, Stream_waits)
              else
              (case final_factor_payloads st prepared of
                 Inl e \<Rightarrow> (opening # wrapped, Stream_raised e)
               | Inr payloads \<Rightarrow>
                   (opening # wrapped @ map2 (\<lambda>payload index.
                      factor_event cd prepared bound now (start + of_nat index / 1000000) payload (int (length base + 1 + index)))
                      payloads [0..<length payloads], Stream_done)))"

section \<open>Artifacts, cancellation and cleanup\<close>

definition collect_artifacts ::
  "codec \<Rightarrow> prepared_attempt \<Rightarrow> artifact_ref list result \<Rightarrow> factor_adapter \<Rightarrow> artifact_ref list result" where
  "collect_artifacts cd prepared adapter_answer st =
     bind_r (owned_attempt cd prepared st) (\<lambda>_.
     case map_of (fx_results st) (pd_attempt_id prepared) of
       Some r \<Rightarrow> Inr (rb_artifacts r)
     | None \<Rightarrow> adapter_answer)"

definition cancel_attempt ::
  "codec \<Rightarrow> prepared_attempt \<Rightarrow> unit result \<Rightarrow> unit result \<Rightarrow> factor_adapter \<Rightarrow> factor_adapter result" where
  "cancel_attempt cd prepared runtime_answer adapter_answer st =
     bind_r (owned_attempt cd prepared st) (\<lambda>_.
     if pd_attempt_id prepared \<in> set (fx_cancelled st) then Inr st
     else
       bind_r runtime_answer (\<lambda>_.
       bind_r adapter_answer (\<lambda>_.
       Inr (st\<lparr>fx_cancelled := List.insert (pd_attempt_id prepared) (fx_cancelled st)\<rparr>))))"

text \<open>The second component is the state in which cleanup stops, also when it raises.\<close>

definition cleanup_attempt ::
  "codec \<Rightarrow> prepared_attempt \<Rightarrow> unit result \<Rightarrow> unit result \<Rightarrow> unit result \<Rightarrow> unit result \<Rightarrow> factor_adapter
    \<Rightarrow> unit result \<times> factor_adapter" where
  "cleanup_attempt cd prepared runtime_cancel adapter_cancel runtime_cleanup adapter_cleanup st =
     (case owned_attempt cd prepared st of
        Inl e \<Rightarrow> (Inl e, st)
      | Inr _ \<Rightarrow>
          if pd_attempt_id prepared \<in> set (fx_cleaned st) then (Inr (), st)
          else
          (case cancel_attempt cd prepared runtime_cancel adapter_cancel st of
             Inl e \<Rightarrow> (Inl e, st)
           | Inr st' \<Rightarrow>
               (case bind_r runtime_cleanup (\<lambda>_. adapter_cleanup) of
                  Inl e \<Rightarrow> (Inl e, st')
                | Inr _ \<Rightarrow> (Inr (), st'\<lparr>fx_cleaned := List.insert (pd_attempt_id prepared) (fx_cleaned st')\<rparr>))))"

section \<open>The router\<close>

type_synonym arm_key = "(string \<times> bool) list"

record factor_router =
  rt_by_assignment :: "(arm_key \<times> factor_adapter) list"
  rt_prepared :: "(string \<times> arm_key) list"

text \<open>\<open>sorted(value.items())\<close> of a dictionary with exactly the four keys.\<close>

definition arm_key_of :: "dict \<Rightarrow> arm_key result" where
  "arm_key_of d =
     bind_r (raise_if (set (map fst d) \<noteq> set FLAGSHIP_FACTOR_IDS) (ValueError ''P/V/R/M assignment required'')) (\<lambda>_.
     bind_r (raise_if (\<not> list_all (\<lambda>(_, v). v \<in> {JBool False, JBool True}) d)
       (TypeError ''P/V/R/M assignment values must be booleans'')) (\<lambda>_.
     Inr (map (\<lambda>k. (k, dict_get d k = Some (JBool True))) [''memory'', ''planning'', ''recovery'', ''verification''])))"

definition recipe_key :: "compiled_recipe \<Rightarrow> arm_key result" where
  "recipe_key r = arm_key_of (map (\<lambda>(k, b). (k, JBool b)) (re_assignment r))"

definition new_factor_router :: "(json \<Rightarrow> string) \<Rightarrow> factor_router result" where
  "new_factor_router h =
     bind_r (enumerate_flagship_recipes h CAPABLE_RECORDED_PROFILE FLAGSHIP_FACTORS) (\<lambda>recipes.
     bind_r (map_r (\<lambda>r. bind_r (recipe_key r) (\<lambda>k. Inr (k, new_factor_adapter r))) recipes) (\<lambda>entries.
     Inr \<lparr>rt_by_assignment = fold (\<lambda>(k, a). AList.update k a) entries [], rt_prepared = []\<rparr>))"

definition router_prepare ::
  "codec \<Rightarrow> harness_spec \<Rightarrow> attempt_input \<Rightarrow> harness_capabilities result \<Rightarrow> factor_session answer \<Rightarrow> prepared_attempt answer
    \<Rightarrow> factor_router \<Rightarrow> (prepared_attempt \<times> factor_router) result" where
  "router_prepare cd harness i capabilities session_answer prepared_answer rt =
     (case arm_key_of (av_factor_assignments (ai_attempt i)) of
        Inl _ \<Rightarrow> Inl (FactorAdapterError ''AttemptInput must bind one of the sixteen strict P/V/R/M recipes'')
      | Inr key \<Rightarrow>
          (case map_of (rt_by_assignment rt) key of
             None \<Rightarrow> Inl (FactorAdapterError ''AttemptInput must bind one of the sixteen strict P/V/R/M recipes'')
           | Some child \<Rightarrow>
               bind_r (prepare_attempt cd harness i capabilities session_answer prepared_answer child) (\<lambda>(prepared, child').
               Inr (prepared, rt\<lparr>rt_by_assignment := AList.update key child' (rt_by_assignment rt),
                 rt_prepared := AList.update (pd_attempt_id prepared) key (rt_prepared rt)\<rparr>))))"

definition router_child :: "factor_router \<Rightarrow> prepared_attempt \<Rightarrow> (arm_key \<times> factor_adapter) result" where
  "router_child rt prepared =
     (case map_of (rt_prepared rt) (pd_attempt_id prepared) of
        None \<Rightarrow> Inl (FactorAdapterError ''prepared attempt is not owned by this factor router'')
      | Some key \<Rightarrow>
          (case map_of (rt_by_assignment rt) key of
             None \<Rightarrow> Inl (FactorAdapterError ''prepared attempt is not owned by this factor router'')
           | Some child \<Rightarrow> Inr (key, child)))"

definition router_execute ::
  "codec \<Rightarrow> prepared_attempt \<Rightarrow> result_bundle answer \<Rightarrow> factor_report answer \<Rightarrow> datetime \<Rightarrow> factor_router
    \<Rightarrow> result_bundle result \<times> factor_router" where
  "router_execute cd prepared result_answer report_answer now rt =
     (case router_child rt prepared of
        Inl e \<Rightarrow> (Inl e, rt)
      | Inr (key, child) \<Rightarrow>
          (case execute_attempt cd prepared result_answer report_answer now child of (r, child') \<Rightarrow>
           (r, rt\<lparr>rt_by_assignment := AList.update key child' (rt_by_assignment rt)\<rparr>)))"

definition router_stream ::
  "codec \<Rightarrow> prepared_attempt \<Rightarrow> trace_event list result \<Rightarrow> datetime \<Rightarrow> rat \<Rightarrow> datetime \<Rightarrow> rat \<Rightarrow> factor_router
    \<Rightarrow> trace_event list \<times> stream_end" where
  "router_stream cd prepared adapter_events opened_at opened now start rt =
     (case router_child rt prepared of
        Inl e \<Rightarrow> ([], Stream_raised e)
      | Inr (_, child) \<Rightarrow> stream_events cd prepared adapter_events opened_at opened now start child)"

definition router_collect ::
  "codec \<Rightarrow> prepared_attempt \<Rightarrow> artifact_ref list result \<Rightarrow> factor_router \<Rightarrow> artifact_ref list result" where
  "router_collect cd prepared adapter_answer rt =
     bind_r (router_child rt prepared) (\<lambda>(_, child). collect_artifacts cd prepared adapter_answer child)"

definition router_cancel ::
  "codec \<Rightarrow> prepared_attempt \<Rightarrow> unit result \<Rightarrow> unit result \<Rightarrow> factor_router \<Rightarrow> factor_router result" where
  "router_cancel cd prepared runtime_answer adapter_answer rt =
     bind_r (router_child rt prepared) (\<lambda>(key, child).
     bind_r (cancel_attempt cd prepared runtime_answer adapter_answer child) (\<lambda>child'.
     Inr (rt\<lparr>rt_by_assignment := AList.update key child' (rt_by_assignment rt)\<rparr>)))"

definition router_cleanup ::
  "codec \<Rightarrow> prepared_attempt \<Rightarrow> unit result \<Rightarrow> unit result \<Rightarrow> unit result \<Rightarrow> unit result \<Rightarrow> factor_router
    \<Rightarrow> unit result \<times> factor_router" where
  "router_cleanup cd prepared runtime_cancel adapter_cancel runtime_cleanup adapter_cleanup rt =
     (case router_child rt prepared of
        Inl e \<Rightarrow> (Inl e, rt)
      | Inr (key, child) \<Rightarrow>
          (case cleanup_attempt cd prepared runtime_cancel adapter_cancel runtime_cleanup adapter_cleanup child of (r, child') \<Rightarrow>
           (r, rt\<lparr>rt_by_assignment := AList.update key child' (rt_by_assignment rt)\<rparr>)))"

end
