(* ===== verification/Factor_Facts.thy ===== *)
theory Factor_Facts
  imports Factor_Adapter
begin

text \<open>
  What the factor adapter guarantees. A history of plans is accepted exactly when it is a run of the
  plan machine; a result is delivered only with evidence for every mechanism of the recipe, and once;
  every arm finds its recipe. Two ways in which the code falls short are shown as well.
\<close>

section \<open>Plan histories\<close>

lemma for_each_pairs:
  "for_each f (zip xs (tl xs)) () = Inr () \<longleftrightarrow> successively (\<lambda>a b. f (a, b) () = Inr ()) xs"
proof (induction xs rule: induct_list012)
  case (3 x y zs)
  then show ?case by (auto simp: tx_simps)
qed auto

lemma filter_zip_update:
  assumes "i < length xs" and "y \<noteq> xs ! i"
  shows "filter (\<lambda>(a, b). a \<noteq> b) (zip xs (xs[i := y])) = [(xs ! i, y)]"
  using assms
proof (induction xs arbitrary: i)
  case (Cons x xs)
  have "filter (\<lambda>(a, b). a \<noteq> b) (zip zs zs) = []" for zs :: "'a list"
    by (induction zs) auto
  then show ?case using Cons by (cases i) auto
qed simp

lemma check_plan_pair_iff:
  assumes "plan_ok p"
  shows "check_plan_pair (p, q) () = Inr () \<longleftrightarrow> plan_move p q"
proof
  assume "check_plan_pair (p, q) () = Inr ()"
  then show "plan_move p q"
    using transition_plan_step_iff [OF assms, of q]
    by (auto simp: check_plan_pair_def tx_simps split: list.splits)
next
  assume "plan_move p q"
  then obtain i s s' st ev where m: "i < length (pa_steps p)" "s = pa_steps p ! i"
      "s' = s\<lparr>pl_state := st, pl_terminal_evidence := ev\<rparr>" "st \<in> set (TRANSITIONS (pl_state s))" "terminal_state st \<longleftrightarrow> ev \<noteq> None"
      "q = p\<lparr>pa_steps := (pa_steps p)[i := s']\<rparr>"
    by (rule plan_moveE)
  have "pl_state s' \<noteq> pl_state s" using m(3,4) by (cases "pl_state s") auto
  then have "s' \<noteq> pa_steps p ! i" using m(2) by auto
  then have changed: "filter (\<lambda>(a, b). a \<noteq> b) (zip (pa_steps p) (pa_steps q)) = [(s, s')]"
    using filter_zip_update [OF m(1)] m(2,6) by simp
  have d: "distinct (map pl_step_id (pa_steps p))" and "step_ok s"
    using assms m by (auto simp: plan_ok_def list_all_iff)
  have "transition_plan_step p (pl_step_id s) st ev = Inr q"
    using m d \<open>step_ok s\<close> find_nth_distinct [OF d m(1)] map_replace_distinct [OF d m(1)]
    by (cases ev) (simp_all add: transition_plan_step_def new_plan_step_def step_ok_def replacement_step)
  then show "check_plan_pair (p, q) () = Inr ()"
    using changed m(1,3,6) by (simp add: check_plan_pair_def)
qed

lemma successively_cong_all:
  "list_all P xs \<Longrightarrow> (\<And>x y. P x \<Longrightarrow> R x y = S x y) \<Longrightarrow> successively R xs = successively S xs"
  by (induction xs rule: induct_list012) auto

text \<open>
  A history of plans is accepted as evidence exactly when it is a complete run of the plan machine:
  three plans at least, all of the episode, each reached from the one before by one legal transition of
  one step with the evidence it needs, and the last with every step completed or failed.
\<close>

theorem plan_history_is_run:
  assumes "list_all plan_ok history"
  shows "validate_plan_history history episode_id = Inr () \<longleftrightarrow>
    3 \<le> length history \<and> (\<forall>p \<in> set history. pa_episode_id p = episode_id) \<and> successively plan_move history \<and>
    (\<forall>s \<in> set (pa_steps (last history)). terminal_state (pl_state s))"
proof -
  have "successively (\<lambda>a b. check_plan_pair (a, b) () = Inr ()) history \<longleftrightarrow> successively plan_move history"
    by (rule successively_cong_all [OF assms]) (rule check_plan_pair_iff)
  then show ?thesis
    by (auto simp: validate_plan_history_def for_each_pairs list_ex_iff list_all_iff tx_simps not_less)
qed

section \<open>Delivery\<close>

definition delivered :: "compiled_recipe \<Rightarrow> factor_report \<Rightarrow> bool" where
  "delivered recipe report \<longleftrightarrow> fr_evidence report \<noteq> [] \<and>
     (\<forall>m \<in> set (re_mechanisms recipe).
        map_of (fr_observed_assignment report) (me_factor_id m) = Some (LBool (me_selected_level m)) \<and>
        map_of (fr_observed_budgets report) (me_factor_id m) = Some (me_treatment_budget m))"

definition evidenced :: "compiled_recipe \<Rightarrow> factor_report \<Rightarrow> attempt_envelope \<Rightarrow> result_bundle \<Rightarrow> bool" where
  "evidenced recipe report attempt r \<longleftrightarrow>
     (map_of (re_assignment recipe) ''planning'' = Some True \<longrightarrow>
        validate_plan_history (fr_plan_history report) (av_episode_id attempt) = Inr ()) \<and>
     (map_of (re_assignment recipe) ''memory'' = Some True \<longrightarrow>
        (\<exists>m. fr_memory report = Some m \<and> em_episode_id m = av_episode_id attempt \<and> em_items m \<noteq> [])) \<and>
     (map_of (re_assignment recipe) ''recovery'' = Some True \<longrightarrow>
        (\<forall>ob \<in> set (fr_recovery report). fe_attempt_id (ro_failure ob) = av_attempt_id attempt \<and>
           (\<exists>d. ro_decision ob = Some d \<and> authorize_recovery (ro_failure ob) (ro_checkpoint ob) (ro_policy ob) (ro_retries_used ob)
              (ro_idempotency_key ob) (ro_observed_checkpoint_sequences ob) (ro_used_idempotency_keys ob) = Inr d))) \<and>
     (map_of (re_assignment recipe) ''verification'' = Some True \<longrightarrow> rb_terminal_outcome r = Out_completed \<longrightarrow>
        rb_response_hash r \<noteq> None \<longrightarrow>
        (\<exists>v. fr_verification report = Some v \<and> va_finalization_allowed v \<and> va_final_response_hash v = rb_response_hash r))"

lemma list_all2_member: "list_all2 P xs ys \<Longrightarrow> x \<in> set xs \<Longrightarrow> \<exists>y \<in> set ys. P x y"
  by (induction rule: list_all2_induct) auto

lemma fidelity_delivered:
  assumes "check_manipulation_fidelity recipe observed budgets evidence = Inr ms"
    and "list_all (\<lambda>m. mf_delivered m \<and> mf_compute_context_matched m) ms" and "m \<in> set (re_mechanisms recipe)"
  shows "evidence \<noteq> [] \<and> map_of observed (me_factor_id m) = Some (LBool (me_selected_level m)) \<and>
    map_of budgets (me_factor_id m) = Some (me_treatment_budget m)"
proof -
  from assms(1) have c: "evidence \<noteq> []" "list_all (is_LBool \<circ> snd) observed"
      "list_all2 (\<lambda>m f. mechanism_fidelity observed budgets evidence m = Inr f) (re_mechanisms recipe) ms"
    by (auto simp: check_manipulation_fidelity_def map_r_all2 tx_simps)
  from list_all2_member [OF c(3) assms(3)] obtain f where f: "f \<in> set ms" "mechanism_fidelity observed budgets evidence m = Inr f"
    by blast
  then obtain level budget where l: "map_of observed (me_factor_id m) = Some level" "map_of budgets (me_factor_id m) = Some budget"
      "f = \<lparr>mf_factor_id = me_factor_id m, mf_expected_level = me_selected_level m, mf_observed_level = bool_of_level level,
        mf_mode = me_mode m, mf_compute_context_matched = (budget = me_treatment_budget m),
        mf_delivered = (bool_of_level level = me_selected_level m \<and> budget = me_treatment_budget m), mf_evidence = evidence\<rparr>"
    by (auto simp: mechanism_fidelity_def Let_def tx_simps)
  have "is_LBool level" using c(2) map_of_SomeD [OF l(1)] by (auto simp: list_all_iff)
  then obtain b where "level = LBool b" by (cases level) auto
  then show ?thesis using assms(2) f(1) l c(1) by (auto simp: list_all_iff)
qed

lemma validate_delivery_Inr:
  assumes "validate_delivery recipe report attempt True (Some r) = Inr ()"
  shows "(re_mechanisms recipe \<noteq> [] \<longrightarrow> delivered recipe report) \<and> evidenced recipe report attempt r"
proof -
  from assms obtain ms where ms: "check_manipulation_fidelity recipe (fr_observed_assignment report) (fr_observed_budgets report)
      (fr_evidence report) = Inr ms" "list_all (\<lambda>m. mf_delivered m \<and> mf_compute_context_matched m) ms"
    by (auto simp: validate_delivery_def tx_simps)
  have "delivered recipe report" if "re_mechanisms recipe \<noteq> []"
    using fidelity_delivered [OF ms] that unfolding delivered_def by (meson list.set_sel(1))
  moreover have "evidenced recipe report attempt r"
  proof -
    from assms obtain p m q v where keys: "map_of (re_assignment recipe) ''planning'' = Some p" "map_of (re_assignment recipe) ''memory'' = Some m"
        "map_of (re_assignment recipe) ''recovery'' = Some q" "map_of (re_assignment recipe) ''verification'' = Some v"
      and parts: "p \<Longrightarrow> validate_plan_history (fr_plan_history report) (av_episode_id attempt) = Inr ()"
        "m \<Longrightarrow> \<exists>mem. fr_memory report = Some mem \<and> em_episode_id mem = av_episode_id attempt \<and> em_items mem \<noteq> []"
        "q \<Longrightarrow> for_each (check_recovery attempt) (fr_recovery report) () = Inr ()"
        "v \<Longrightarrow> validate_verification (fr_verification report) attempt (Some r) = Inr ()"
      by (simp add: validate_delivery_def tx_simps) (elim exE conjE, simp split: if_splits option.splits)
    have "fe_attempt_id (ro_failure ob) = av_attempt_id attempt \<and>
        (\<exists>d. ro_decision ob = Some d \<and> authorize_recovery (ro_failure ob) (ro_checkpoint ob) (ro_policy ob) (ro_retries_used ob)
          (ro_idempotency_key ob) (ro_observed_checkpoint_sequences ob) (ro_used_idempotency_keys ob) = Inr d)"
      if "q" "ob \<in> set (fr_recovery report)" for ob
    proof -
      have "check_recovery attempt ob () = Inr ()" using parts(3) that by (simp add: for_each_unit_iff)
      then show ?thesis by (auto simp: check_recovery_def tx_simps)
    qed
    moreover have "\<exists>a. fr_verification report = Some a \<and> va_finalization_allowed a \<and> va_final_response_hash a = rb_response_hash r"
      if "v" "rb_terminal_outcome r = Out_completed" "rb_response_hash r \<noteq> None"
      using parts(4) that by (auto simp: validate_verification_def split: option.splits)
    ultimately show ?thesis using keys parts(1,2) unfolding evidenced_def by simp
  qed
  ultimately show ?thesis by blast
qed

lemma answered_Inr:
  assumes "answered raw a = Inr x"
  shows "a = (Inr x, snd a)" "attempt_input_dump (snd a) = raw"
  using assms by (cases a; auto simp: answered_def assert_unchanged_def tx_simps split: sum.splits)+

lemma deliver_Inr:
  assumes "deliver recipe stored bound result_answer report_answer = Inr (r, report)"
  shows "answered (sd_raw_input stored) result_answer = Inr r" "answered (sd_raw_input stored) report_answer = Inr report"
    "validate_delivery recipe report (ai_attempt bound) True (Some r) = Inr ()"
  using assms by (auto simp: deliver_def validate_result_for_attempt_def bind_r_eq_Inr_iff)

text \<open>
  C12: Execution under a recipe fails closed and happens once. A result comes back only in two forms:
  the one the wrapped adapter gave, and then the runtime's report shows every mechanism of the recipe
  delivered at its level with its budget, with a complete plan, memory, authorized recoveries and a
  passed verification for the factors that are on, and neither call changed the input; or an
  incomplete result that says why. Executing again returns the same result and changes nothing,
  whatever adapter and runtime would answer.
\<close>

theorem factor_execution_fails_closed:
  assumes "execute_attempt cd prepared result_answer report_answer now st = (Inr r, st')"
    and "map_of (fx_results st) (pd_attempt_id prepared) = None" and "re_mechanisms (fx_recipe st) \<noteq> []"
  shows "((\<exists>stored bound report. owned_attempt cd prepared st = Inr (stored, bound) \<and> result_answer = (Inr r, snd result_answer) \<and>
       report_answer = (Inr report, snd report_answer) \<and> attempt_input_dump (snd result_answer) = sd_raw_input stored \<and>
       attempt_input_dump (snd report_answer) = sd_raw_input stored \<and> delivered (fx_recipe st) report \<and>
       evidenced (fx_recipe st) report (ai_attempt bound) r \<and> map_of (fx_reports st') (pd_attempt_id prepared) = Some report) \<or>
     (\<exists>e. r = held_result prepared now e \<and> fx_reports st' = fx_reports st)) \<and>
    execute_attempt cd prepared result_answer' report_answer' now' st' = (Inr r, st')"
proof -
  let ?k = "pd_attempt_id prepared"
  from assms(1) obtain stored bound where own: "owned_attempt cd prepared st = Inr (stored, bound)"
    by (auto simp: execute_attempt_def split: sum.splits)
  have again: "execute_attempt cd prepared result_answer' report_answer' now' t = (Inr r, t)"
    if "fx_attempts t = fx_attempts st" "map_of (fx_results t) ?k = Some r" "?k \<in> set (fx_completed t)" for t
  proof -
    have "owned_attempt cd prepared t = Inr (stored, bound)" using own that(1) by (simp add: owned_attempt_def)
    then show ?thesis using that(2,3) by (simp add: execute_attempt_def Let_def)
  qed
  show ?thesis
  proof (cases "deliver (fx_recipe st) stored bound result_answer report_answer")
    case (Inr x)
    then obtain r' report where x: "deliver (fx_recipe st) stored bound result_answer report_answer = Inr (r', report)"
      by (cases x) auto
    then have st': "r' = r" "st' = st\<lparr>fx_reports := AList.update ?k report (fx_reports st),
        fx_results := AList.update ?k r (fx_results st), fx_completed := List.insert ?k (fx_completed st)\<rparr>"
      using assms(1,2) own by (auto simp: execute_attempt_def Let_def)
    note parts = deliver_Inr [OF x [unfolded st'(1)]]
    then have "result_answer = (Inr r, snd result_answer)" "attempt_input_dump (snd result_answer) = sd_raw_input stored"
        "report_answer = (Inr report, snd report_answer)" "attempt_input_dump (snd report_answer) = sd_raw_input stored"
        "validate_delivery (fx_recipe st) report (ai_attempt bound) True (Some r) = Inr ()"
      by (auto dest: answered_Inr)
    then show ?thesis
      using own st' validate_delivery_Inr [of "fx_recipe st" report "ai_attempt bound" r] assms(3) again [of st']
      by (auto simp: update_conv')
  next
    case (Inl e)
    then have "e \<noteq> CancelledError" using assms(1,2) own by (auto simp: execute_attempt_def Let_def)
    then have "r = held_result prepared now e" "st' = st\<lparr>fx_results := AList.update ?k r (fx_results st),
        fx_completed := List.insert ?k (fx_completed st)\<rparr>"
      using assms(1,2) own Inl by (cases e; auto simp: execute_attempt_def Let_def)+
    then show ?thesis using again [of st'] by (auto simp: update_conv')
  qed
qed

section \<open>Where the code falls short\<close>

text \<open>
  C40: A repaired response is never admitted. Whenever verification before finalization used its one
  repair, its artifact names a final response other than the candidate, or does not allow
  finalization; the adapter asks for one response hash in both places, so it refuses every completed
  result for such an artifact.
\<close>

theorem repaired_response_never_admitted:
  assumes "verify_before_finalization candidate checks (Some repair) budget = Inr v" and "va_repairs_used v = 1"
    and "rb_terminal_outcome r = Out_completed" and "rb_response_hash r = Some response_hash"
  shows "\<exists>m. validate_verification (Some v) attempt (Some r) = Inl (FactorAdapterError m)"
proof -
  have "\<not> va_finalization_allowed v \<or> va_final_response_hash v \<noteq> Some (va_candidate_response_hash v)"
    using assms(1,2)
    by (auto simp: verify_before_finalization_def verification_held_def verification_allowed_def tx_simps split: if_splits)
  then show ?thesis
    using assms(3,4) by (auto simp: validate_verification_def raise_if_def)
qed

text \<open>
  A cancelled execution strands its readers. When the task that executes an attempt is cancelled
  during the call of the wrapped adapter, the cancellation is replaced by an \<open>UnboundLocalError\<close>, no result
  is stored and the completion is not announced: the adapter is as if nothing had been executed, and
  a consumer of the event stream waits after the last wrapped event.
\<close>

theorem cancelled_execution_strands_readers:
  assumes "owned_attempt cd prepared st = Inr (stored, bound)" and "map_of (fx_results st) (pd_attempt_id prepared) = None"
    and "pd_attempt_id prepared \<notin> set (fx_completed st)"
    and "validate_events_for_attempt base (ai_attempt bound) = Inr base"
  shows "execute_attempt cd prepared (Inl CancelledError, i) report_answer now st = (Inl (AdapterError ''UnboundLocalError''), st) \<and>
    snd (stream_events cd prepared (Inr base) opened_at opened now' start
      (snd (execute_attempt cd prepared (Inl CancelledError, i) report_answer now st))) = Stream_waits"
proof -
  have "deliver (fx_recipe st) stored bound (Inl CancelledError, i) report_answer = Inl CancelledError"
    by (simp add: deliver_def answered_def)
  then show ?thesis using assms by (simp add: execute_attempt_def stream_events_def Let_def)
qed

section \<open>The router\<close>

lemma fold_update_mem:
  "map_of (fold (\<lambda>(k, a). AList.update k a) es acc) key = Some c \<Longrightarrow> (key, c) \<in> set es \<or> map_of acc key = Some c"
  by (induction es arbitrary: acc) (fastforce simp: update_conv' split: if_splits)+

lemma fold_update_dom:
  "key \<in> fst ` set es \<or> map_of acc key \<noteq> None \<Longrightarrow> map_of (fold (\<lambda>(k, a). AList.update k a) es acc) key \<noteq> None"
proof (induction es arbitrary: acc)
  case (Cons e es)
  then show ?case by (cases e) (auto simp: update_conv' split: if_splits)
qed simp

lemma recipe_key_zip:
  assumes "re_assignment r = zip FLAGSHIP_FACTOR_IDS bs" and "length bs = 4"
  shows "recipe_key r = Inr [(''memory'', bs ! 3), (''planning'', bs ! 0), (''recovery'', bs ! 2), (''verification'', bs ! 1)]"
proof -
  obtain p v q m where "bs = [p, v, q, m]" using assms(2) by (auto simp: eval_nat_numeral length_Suc_conv)
  then show ?thesis
    using assms(1)
    by (auto simp: recipe_key_def arm_key_of_def FLAGSHIP_FACTOR_IDS_def dict_get_def)
qed

text \<open>
  The router sends every arm to its recipe: it can always be built, and for each assignment of
  strict booleans to the four factors it has an adapter whose recipe carries exactly that assignment.
\<close>

theorem router_finds_every_arm:
  assumes "arm_key_of d = Inr key"
  shows "\<exists>rt child. new_factor_router h = Inr rt \<and> map_of (rt_by_assignment rt) key = Some child \<and>
    child = new_factor_adapter (fx_recipe child) \<and>
    (\<forall>k \<in> set FLAGSHIP_FACTOR_IDS. dict_get d k = map_option JBool (map_of (re_assignment (fx_recipe child)) k))"
proof -
  have "capable CAPABLE_RECORDED_PROFILE" by (simp add: capable_def CAPABLE_RECORDED_PROFILE_def)
  from flagship_arms_complete_all [OF this] obtain recipes where
      rs: "enumerate_flagship_recipes h CAPABLE_RECORDED_PROFILE FLAGSHIP_FACTORS = Inr recipes"
      "set (map re_assignment recipes) = {zip FLAGSHIP_FACTOR_IDS bs |bs. length bs = 4}" by blast
  let ?entry = "\<lambda>r. bind_r (recipe_key r) (\<lambda>k. Inr (k, new_factor_adapter r))"
  have arm: "\<exists>bs. length bs = 4 \<and> re_assignment r = zip FLAGSHIP_FACTOR_IDS bs" if "r \<in> set recipes" for r
  proof -
    have "re_assignment r \<in> set (map re_assignment recipes)" using that by simp
    then show ?thesis unfolding rs(2) by blast
  qed
  have "\<exists>es. map_r ?entry recipes = Inr es"
    by (rule map_r_total) (use arm recipe_key_zip in fastforce)
  then obtain es where es: "map_r ?entry recipes = Inr es" ..
  define rt where "rt = \<lparr>rt_by_assignment = fold (\<lambda>(k, a). AList.update k a) es [], rt_prepared = []\<rparr>"
  have new: "new_factor_router h = Inr rt" using rs(1) es by (simp add: new_factor_router_def rt_def)
  define bs where "bs = map (\<lambda>k. dict_get d k = Some (JBool True)) FLAGSHIP_FACTOR_IDS"
  have key: "key = [(''memory'', bs ! 3), (''planning'', bs ! 0), (''recovery'', bs ! 2), (''verification'', bs ! 1)]"
      and keys: "set (map fst d) = set FLAGSHIP_FACTOR_IDS" "list_all (\<lambda>(_, v). v \<in> {JBool False, JBool True}) d"
    using assms by (auto simp: arm_key_of_def bs_def FLAGSHIP_FACTOR_IDS_def)
  have len: "length bs = 4" by (simp add: bs_def FLAGSHIP_FACTOR_IDS_def)
  then have "zip FLAGSHIP_FACTOR_IDS bs \<in> set (map re_assignment recipes)" unfolding rs(2) by blast
  then obtain r where r: "r \<in> set recipes" "re_assignment r = zip FLAGSHIP_FACTOR_IDS bs" by auto
  from es r(1) have "(key, new_factor_adapter r) \<in> set es"
    using list_all2_member [OF es [unfolded map_r_all2] r(1)] recipe_key_zip [OF r(2) len] key by auto
  then have "map_of (rt_by_assignment rt) key \<noteq> None"
    unfolding rt_def factor_router.simps by (intro fold_update_dom) force
  then obtain child where child: "map_of (rt_by_assignment rt) key = Some child" by blast
  then have "(key, child) \<in> set es" using fold_update_mem [of es "[]"] by (auto simp: rt_def)
  then obtain r' where r': "r' \<in> set recipes" "recipe_key r' = Inr key" "child = new_factor_adapter r'"
    using map_r_set [OF es] by (auto simp: tx_simps)
  obtain bs' where bs': "length bs' = 4" "re_assignment r' = zip FLAGSHIP_FACTOR_IDS bs'" using arm [OF r'(1)] by blast
  have "bs' = bs"
    using recipe_key_zip [OF bs'(2,1)] r'(2) key len bs'(1)
    by (intro nth_equalityI) (auto simp: eval_nat_numeral less_Suc_eq)
  moreover have "dict_get d k = Some (JBool (dict_get d k = Some (JBool True)))" if "k \<in> set FLAGSHIP_FACTOR_IDS" for k
  proof -
    have "k \<in> set (map fst d)" using that keys(1) by simp
    then have "map_of d k \<noteq> None" by (simp add: map_of_eq_None_iff)
    then obtain v where v: "map_of d k = Some v" by blast
    then have "v \<in> {JBool False, JBool True}" using keys(2) map_of_SomeD [OF v] by (auto simp: list_all_iff)
    then show ?thesis using v by (auto simp: dict_get_def)
  qed
  then have "\<forall>k \<in> set FLAGSHIP_FACTOR_IDS. dict_get d k = map_option JBool (map_of (zip FLAGSHIP_FACTOR_IDS bs) k)"
    by (auto simp: FLAGSHIP_FACTOR_IDS_def bs_def)
  ultimately show ?thesis
    using new child bs'(2) r'(3) by (auto simp: new_factor_adapter_def)
qed

section \<open>Witnesses\<close>

definition example_pointer :: evidence_pointer where
  "example_pointer = \<lparr>ep_source_id = ''source'', ep_uri = ''uri'', ep_content_hash = replicate 64 (CHR ''a'')\<rparr>"

definition example_plan_at :: "plan_step_state \<Rightarrow> evidence_pointer option \<Rightarrow> plan_artifact" where
  "example_plan_at st ev = \<lparr>pa_episode_id = ''e1'', pa_plan_id = ''p1'',
     pa_steps = [\<lparr>pl_step_id = ''s1'', pl_description = ''step'', pl_state = st, pl_terminal_evidence = ev\<rparr>]\<rparr>"

definition example_history :: "plan_artifact list" where
  "example_history = [example_plan_at Step_pending None, example_plan_at Step_in_progress None,
     example_plan_at Step_completed (Some example_pointer)]"

lemma example_history_ok: "list_all plan_ok example_history"
  by (simp add: example_history_def example_plan_at_def plan_ok_def step_ok_def terminal_state_def is_identifier_def
      lower_letter_def digit_char_def)

theorem plan_history_is_run_witness:
  "list_all plan_ok example_history \<and> validate_plan_history example_history ''e1'' = Inr () \<and> successively plan_move example_history"
proof -
  have "validate_plan_history example_history ''e1'' = Inr ()"
    by (simp add: validate_plan_history_def example_history_def example_plan_at_def check_plan_pair_def transition_plan_step_def
        new_plan_step_def terminal_state_def is_identifier_def lower_letter_def digit_char_def)
  with plan_history_is_run [OF example_history_ok, of "''e1''"] example_history_ok show ?thesis by blast
qed

definition example_budget :: treatment_budget where
  "example_budget = \<lparr>tb_compute_units = 2, tb_context_bytes = 1024\<rparr>"

definition example_recipe :: compiled_recipe where
  "example_recipe = \<lparr>re_recipe_id = ''recipe'', re_assignment = zip FLAGSHIP_FACTOR_IDS [False, False, False, False],
     re_mechanisms = map (\<lambda>i. \<lparr>me_factor_id = i, me_selected_level = False, me_mode = Sham, me_configuration = [],
       me_configuration_hash = ''d'', me_treatment_budget = example_budget, me_required_capabilities = [],
       me_fidelity_oracles = []\<rparr>) FLAGSHIP_FACTOR_IDS,
     re_configuration_hash = ''d'', re_profile_id = ''profile''\<rparr>"

definition example_delivery :: factor_report where
  "example_delivery = \<lparr>fr_observed_assignment = map (\<lambda>i. (i, LBool False)) FLAGSHIP_FACTOR_IDS,
     fr_observed_budgets = map (\<lambda>i. (i, example_budget)) FLAGSHIP_FACTOR_IDS, fr_evidence = [example_pointer],
     fr_plan_history = [], fr_verification = None, fr_recovery = [], fr_memory = None\<rparr>"

definition example_prepared :: prepared_attempt where
  "example_prepared = \<lparr>pd_attempt_id = ''a1'', pd_adapter_id = ''x'', pd_prepared_at = 0, pd_timeout_seconds = 60,
     pd_opaque_handle = ''o'', pd_input_digest = ''d''\<rparr>"

definition example_harness_spec :: harness_spec where
  "example_harness_spec = \<lparr>hs_adapter_identity = Some ''adapter'', hs_adapter_digest = Some ''d'', hs_timeout_seconds = 60,
     hs_configuration = [], hs_effective_configuration_hash = None, hs_checkpoint = True,
     hs_claim_eligibility = Fixture_only, hs_dump = []\<rparr>"

definition example_stored :: stored_attempt where
  "example_stored = \<lparr>sd_raw_input = attempt_input_dump example_input, sd_input = example_input,
     sd_harness = example_harness_spec, sd_prepared = example_prepared,
     sd_session = \<lparr>fn_token = ''t'', fn_initial_report = example_delivery\<rparr>\<rparr>"

definition example_adapter :: factor_adapter where
  "example_adapter = (new_factor_adapter example_recipe)\<lparr>fx_attempts := [(''a1'', example_stored)]\<rparr>"

definition example_bundle :: result_bundle where
  "example_bundle = \<lparr>rb_attempt_id = ''a1'', rb_terminal_outcome = Out_failed, rb_completed_at = 1, rb_response_hash = None,
     rb_response_artifact_id = None, rb_usage = None, rb_artifacts = [], rb_detail = None, rb_failure_classification = None\<rparr>"

lemma example_owned: "owned_attempt example_codec example_prepared example_adapter = Inr (example_stored, example_input)"
  by (simp add: owned_attempt_def example_adapter_def example_stored_def example_prepared_def example_codec_def)

theorem factor_execution_fails_closed_witness:
  "\<exists>st'. execute_attempt example_codec example_prepared (Inr example_bundle, example_input) (Inr example_delivery, example_input) 2
       example_adapter = (Inr example_bundle, st') \<and>
     execute_attempt example_codec example_prepared (Inl TimeoutError, example_input) (Inl TimeoutError, example_input) 3 st' =
       (Inr example_bundle, st')"
proof -
  let ?st = "example_adapter"
  have "deliver example_recipe example_stored example_input (Inr example_bundle, example_input) (Inr example_delivery, example_input)
      = Inr (example_bundle, example_delivery)"
    by (simp add: deliver_def answered_def assert_unchanged_def example_stored_def validate_result_for_attempt_def
        validate_response_artifact_contract_def example_bundle_def example_input_def example_envelope_def validate_delivery_def
        check_manipulation_fidelity_def mechanism_fidelity_def example_delivery_def example_recipe_def FLAGSHIP_FACTOR_IDS_def
        key_of_def)
  then obtain st' where run: "execute_attempt example_codec example_prepared (Inr example_bundle, example_input)
      (Inr example_delivery, example_input) 2 ?st = (Inr example_bundle, st')"
    using example_owned by (simp add: execute_attempt_def Let_def example_adapter_def new_factor_adapter_def)
  have "map_of (fx_results ?st) (pd_attempt_id example_prepared) = None" "re_mechanisms (fx_recipe ?st) \<noteq> []"
    by (simp_all add: example_adapter_def new_factor_adapter_def example_recipe_def FLAGSHIP_FACTOR_IDS_def)
  from factor_execution_fails_closed [OF run this] run show ?thesis by blast
qed

theorem cancelled_execution_strands_readers_witness:
  "execute_attempt example_codec example_prepared (Inl CancelledError, example_input) (Inl TimeoutError, example_input) 2
     example_adapter = (Inl (AdapterError ''UnboundLocalError''), example_adapter)"
  using cancelled_execution_strands_readers [OF example_owned, where base = "[]" and i = example_input and
      report_answer = "(Inl TimeoutError, example_input)" and now = 2]
  by (simp add: example_adapter_def new_factor_adapter_def validate_events_for_attempt_def)

definition example_check :: "bool \<Rightarrow> verification_check" where
  "example_check b = \<lparr>vc_check_id = ''c1'', vc_passed = b, vc_detail = ''detail'', vc_evidence = [example_pointer]\<rparr>"

definition example_repair :: repair_attempt where
  "example_repair = \<lparr>ra_repair_id = ''r1'', ra_episode_id = ''e1'', ra_original_candidate_response_hash = ''x'',
     ra_response_hash = ''y'', ra_checks = [example_check True], ra_evidence = [example_pointer]\<rparr>"

theorem repaired_response_never_admitted_witness:
  "\<exists>v m. verify_before_finalization \<lparr>fc_episode_id = ''e1'', fc_response_hash = ''x''\<rparr> [example_check False] (Some example_repair) 1 = Inr v \<and>
     va_finalization_allowed v \<and> va_final_response_hash v = Some ''y'' \<and>
     validate_verification (Some v) example_envelope
       (Some (example_bundle\<lparr>rb_terminal_outcome := Out_completed, rb_response_hash := Some ''y''\<rparr>)) = Inl (FactorAdapterError m)"
proof -
  obtain v where v: "verify_before_finalization \<lparr>fc_episode_id = ''e1'', fc_response_hash = ''x''\<rparr> [example_check False]
      (Some example_repair) 1 = Inr v" "va_repairs_used v = 1" "va_finalization_allowed v" "va_final_response_hash v = Some ''y''"
    by (simp add: verify_before_finalization_def check_ids_def all_pass_def example_check_def example_repair_def verification_allowed_def)
  from repaired_response_never_admitted [OF v(1,2), of "example_bundle\<lparr>rb_terminal_outcome := Out_completed, rb_response_hash := Some ''y''\<rparr>" "''y''"]
  show ?thesis using v by auto
qed

theorem router_finds_every_arm_witness:
  "\<exists>rt child. new_factor_router (\<lambda>_. ''d'') = Inr rt \<and>
     map_of (rt_by_assignment rt) [(''memory'', True), (''planning'', True), (''recovery'', False), (''verification'', False)] = Some child"
proof -
  have "arm_key_of [(''planning'', JBool True), (''verification'', JBool False), (''recovery'', JBool False), (''memory'', JBool True)] =
      Inr [(''memory'', True), (''planning'', True), (''recovery'', False), (''verification'', False)]"
    by (auto simp: arm_key_of_def FLAGSHIP_FACTOR_IDS_def dict_get_def)
  from router_finds_every_arm [OF this, of "\<lambda>_. ''d''"] show ?thesis by blast
qed

end
