(* ===== verification/Trace_Alignment.thy ===== *)
theory Trace_Alignment
  imports Arena_Prelude Py_Float
begin

text \<open>
  Comparing the traces of two attempts: \<open>src/backend/analysis_v1/trace.py\<close>.

  \<open>normalize_trace\<close> orders the events of a trace; \<open>align_traces\<close> aligns two traces by dynamic programming
  over two rows of scores and a table of directions, one byte per pair of prefixes, laid out row after row;
  \<open>first_meaningful_divergence\<close> reports the first row of the alignment that shows a difference. The alignment
  is compared with its specification, every way of pairing the two traces in order: it has the largest
  score of them all, and the table never leads the walk back into the two \<open>RuntimeError\<close> branches.

  Instants are aware ones, as everywhere in the development, so the test of the time zone has nothing to
  refuse; \<open>monotonic_ms\<close> is a finite double.
\<close>

section \<open>Events\<close>

datatype semantic_anchor =
    Anchor_start | Anchor_request | Anchor_model_response | Anchor_tool_call | Anchor_tool_result
  | Anchor_state_change | Anchor_checkpoint | Anchor_retry | Anchor_final | Anchor_error

definition anchor_value :: "semantic_anchor \<Rightarrow> string" where
  "anchor_value a = (case a of
      Anchor_start \<Rightarrow> ''start'' | Anchor_request \<Rightarrow> ''request'' | Anchor_model_response \<Rightarrow> ''model_response''
    | Anchor_tool_call \<Rightarrow> ''tool_call'' | Anchor_tool_result \<Rightarrow> ''tool_result''
    | Anchor_state_change \<Rightarrow> ''state_change'' | Anchor_checkpoint \<Rightarrow> ''checkpoint'' | Anchor_retry \<Rightarrow> ''retry''
    | Anchor_final \<Rightarrow> ''final'' | Anchor_error \<Rightarrow> ''error'')"

record semantic_event =
  sv_event_id :: string
  sv_anchor :: semantic_anchor
  sv_sequence :: int
  sv_timestamp :: "datetime option"
  sv_monotonic_ms :: "rat option"
  sv_evidence_ref :: "string option"
  sv_observation_digest :: "string option"

definition validate_semantic_event :: "semantic_event \<Rightarrow> semantic_event result" where
  "validate_semantic_event e =
     bind_r (raise_if (sv_event_id e = []) (ValueError ''event_id is required'')) (\<lambda>_.
     bind_r (raise_if (sv_sequence e < 0) (ValueError ''sequence must be a non-negative integer'')) (\<lambda>_.
     bind_r (raise_if (case sv_monotonic_ms e of None \<Rightarrow> False | Some ms \<Rightarrow> ms < 0)
       (ValueError ''monotonic_ms cannot be negative'')) (\<lambda>_.
     bind_r (raise_if (sv_evidence_ref e = Some []) (ValueError ''evidence_ref must be non-empty when supplied'')) (\<lambda>_.
     bind_r (raise_if (case sv_observation_digest e of None \<Rightarrow> False | Some d \<Rightarrow> \<not> is_sha256 d)
       (ValueError ''observation_digest must be a lowercase SHA-256 digest'')) (\<lambda>_.
     Inr e)))))"

record normalized_event =
  ne_event_id :: string
  ne_anchor :: semantic_anchor
  ne_ordinal :: nat
  ne_relative_ms :: "rat option"
  ne_evidence_ref :: "string option"
  ne_observation_digest :: "string option"

type_synonym trace = "normalized_event list"

section \<open>Normalization\<close>

text \<open>\<open>next(generator, None)\<close>: the first value there is.\<close>

fun first_some :: "'a option list \<Rightarrow> 'a option" where
  "first_some [] = None"
| "first_some (Some x # xs) = Some x"
| "first_some (None # xs) = first_some xs"

definition relative_ms :: "rat option \<Rightarrow> datetime option \<Rightarrow> semantic_event \<Rightarrow> rat option" where
  "relative_ms monotonic_origin wall_origin e =
     (case (sv_monotonic_ms e, monotonic_origin) of
        (Some ms, Some origin) \<Rightarrow> Some (fsub ms origin)
      | _ \<Rightarrow>
     (case (sv_timestamp e, wall_origin) of
        (Some t, Some origin) \<Rightarrow> Some (fmul (fdiv (of_int (t - origin)) 1000000) 1000)
      | _ \<Rightarrow> None))"

definition normalized :: "rat option \<Rightarrow> datetime option \<Rightarrow> nat \<Rightarrow> semantic_event \<Rightarrow> normalized_event" where
  "normalized monotonic_origin wall_origin ordinal e =
     \<lparr>ne_event_id = sv_event_id e, ne_anchor = sv_anchor e, ne_ordinal = ordinal,
      ne_relative_ms = relative_ms monotonic_origin wall_origin e, ne_evidence_ref = sv_evidence_ref e,
      ne_observation_digest = sv_observation_digest e\<rparr>"

definition event_order :: "semantic_event \<Rightarrow> int \<times> string" where
  "event_order e = (sv_sequence e, sv_event_id e)"

definition normalize_trace :: "semantic_event list \<Rightarrow> trace result" where
  "normalize_trace events =
     (if events = [] then Inr []
      else
     bind_r (raise_if (\<not> distinct (map sv_event_id events))
       (ValueError ''event_id values must be unique within a trace'')) (\<lambda>_.
     let ordered = sort_key event_order events in
     bind_r (raise_if (\<not> distinct (map sv_sequence ordered)) (ValueError ''trace sequence values must be unique'')) (\<lambda>_.
     let monotonic_origin = first_some (map sv_monotonic_ms ordered);
         wall_origin = first_some (map sv_timestamp ordered) in
     Inr (map (\<lambda>(ordinal, e). normalized monotonic_origin wall_origin ordinal e) (enumerate 0 ordered)))))"

section \<open>Alignment\<close>

definition GAP_SCORE :: int where "GAP_SCORE = - 2"
definition EXACT_OBSERVATION_SCORE :: int where "EXACT_OBSERVATION_SCORE = 8"
definition ANCHOR_ONLY_SCORE :: int where "ANCHOR_ONLY_SCORE = 4"
definition CONTENT_DIFFERENCE_SCORE :: int where "CONTENT_DIFFERENCE_SCORE = 1"
definition NEGATIVE_INFINITY :: int where "NEGATIVE_INFINITY = - (10 ^ 9)"
definition DIAGONAL :: nat where "DIAGONAL = 1"
definition UP :: nat where "UP = 2"
definition LEFT :: nat where "LEFT = 3"

definition diagonal_score :: "normalized_event \<Rightarrow> normalized_event \<Rightarrow> int" where
  "diagonal_score left right =
     (if ne_anchor left \<noteq> ne_anchor right then NEGATIVE_INFINITY
      else if ne_observation_digest left = None \<or> ne_observation_digest right = None then ANCHOR_ONLY_SCORE
      else if ne_observation_digest left = ne_observation_digest right then EXACT_OBSERVATION_SCORE
      else CONTENT_DIFFERENCE_SCORE)"

datatype alignment_status = Aligned_match | Content_difference | Left_only | Right_only

definition aligned_status :: "normalized_event \<Rightarrow> normalized_event \<Rightarrow> alignment_status" where
  "aligned_status left right =
     (if ne_observation_digest left \<noteq> None \<and> ne_observation_digest right \<noteq> None \<and>
         ne_observation_digest left \<noteq> ne_observation_digest right
      then Content_difference else Aligned_match)"

record anchor_alignment =
  aa_left_ordinal :: "nat option"
  aa_right_ordinal :: "nat option"
  aa_anchor :: semantic_anchor
  aa_status :: alignment_status

record alignment_result =
  al_alignments :: "anchor_alignment list"
  al_matched_anchors :: nat
  al_left_only :: nat
  al_right_only :: nat
  al_clock_skew_tolerant :: bool
  al_content_differences :: nat
  al_exact_observation_matches :: nat

text \<open>
  One cell of the table: the score and the direction, from the scores above left, above and before it in
  its row.
\<close>

definition alignment_cell :: "normalized_event \<Rightarrow> normalized_event \<Rightarrow> int \<Rightarrow> int \<Rightarrow> int \<Rightarrow> int \<times> nat" where
  "alignment_cell left_event right_event upper_left upper before =
     (let diagonal_component = diagonal_score left_event right_event;
          diagonal = (if diagonal_component \<noteq> NEGATIVE_INFINITY then upper_left + diagonal_component else NEGATIVE_INFINITY);
          up = upper + GAP_SCORE;
          across = before + GAP_SCORE;
          best = max diagonal (max up across)
      in (best, if diagonal = best then DIAGONAL else if up = best then UP else LEFT))"

text \<open>The inner loop reads \<open>previous[column - 1]\<close> and \<open>previous[column]\<close> from a list it walks along.\<close>

fun fill_cells :: "normalized_event \<Rightarrow> trace \<Rightarrow> int list \<Rightarrow> int \<Rightarrow> (int \<times> nat) list" where
  "fill_cells left_event (right_event # right) (upper_left # upper # previous) before =
     (let cell = alignment_cell left_event right_event upper_left upper before
      in cell # fill_cells left_event right (upper # previous) (fst cell))"
| "fill_cells left_event _ _ before = []"

fun fill_rows :: "trace \<Rightarrow> trace \<Rightarrow> nat \<Rightarrow> int list \<Rightarrow> nat list" where
  "fill_rows [] right row previous = []"
| "fill_rows (left_event # left) right row previous =
     (let cells = fill_cells left_event right previous (int row * GAP_SCORE)
      in (UP # map snd cells) @ fill_rows left right (row + 1) (int row * GAP_SCORE # map fst cells))"

definition traceback_table :: "trace \<Rightarrow> trace \<Rightarrow> nat list" where
  "traceback_table left right =
     (0 # replicate (length right) LEFT) @
     fill_rows left right 1 (map (\<lambda>index. int index * GAP_SCORE) [0..<length right + 1])"

definition both_row :: "trace \<Rightarrow> trace \<Rightarrow> nat \<Rightarrow> nat \<Rightarrow> anchor_alignment" where
  "both_row left right i j =
     \<lparr>aa_left_ordinal = Some i, aa_right_ordinal = Some j, aa_anchor = ne_anchor (left ! i),
      aa_status = aligned_status (left ! i) (right ! j)\<rparr>"

definition left_row :: "trace \<Rightarrow> nat \<Rightarrow> anchor_alignment" where
  "left_row left i =
     \<lparr>aa_left_ordinal = Some i, aa_right_ordinal = None, aa_anchor = ne_anchor (left ! i), aa_status = Left_only\<rparr>"

definition right_row :: "trace \<Rightarrow> nat \<Rightarrow> anchor_alignment" where
  "right_row right j =
     \<lparr>aa_left_ordinal = None, aa_right_ordinal = Some j, aa_anchor = ne_anchor (right ! j), aa_status = Right_only\<rparr>"

text \<open>The walk back appends its rows and reverses them at the end; here each is put in front.\<close>

function walk_back :: "trace \<Rightarrow> trace \<Rightarrow> nat list \<Rightarrow> nat \<Rightarrow> nat \<Rightarrow> anchor_alignment list \<Rightarrow> anchor_alignment list result" where
  "walk_back left right traceback row column rows =
     (if row = 0 \<and> column = 0 then Inr rows
      else
     (let direction = traceback ! (row * (length right + 1) + column) in
      if row \<noteq> 0 \<and> column \<noteq> 0 \<and> direction = DIAGONAL then
        (if ne_anchor (left ! (row - 1)) \<noteq> ne_anchor (right ! (column - 1))
         then Inl (RuntimeError ''traceback attempted an invalid cross-anchor diagonal'')
         else walk_back left right traceback (row - 1) (column - 1) (both_row left right (row - 1) (column - 1) # rows))
      else if row \<noteq> 0 \<and> (direction = UP \<or> column = 0) then
        walk_back left right traceback (row - 1) column (left_row left (row - 1) # rows)
      else if column \<noteq> 0 \<and> (direction = LEFT \<or> row = 0) then
        walk_back left right traceback row (column - 1) (right_row right (column - 1) # rows)
      else Inl (RuntimeError ''traceback contains an invalid alignment direction'')))"
  by pat_completeness auto
termination
  by (relation "measure (\<lambda>(_, _, _, row, column, _). row + column)") auto

declare walk_back.simps [simp del]

definition exact_match :: "trace \<Rightarrow> trace \<Rightarrow> anchor_alignment \<Rightarrow> bool" where
  "exact_match left right a \<longleftrightarrow> aa_status a = Aligned_match \<and>
     (case (aa_left_ordinal a, aa_right_ordinal a) of
        (Some i, Some j) \<Rightarrow> ne_observation_digest (left ! i) \<noteq> None \<and>
          ne_observation_digest (left ! i) = ne_observation_digest (right ! j)
      | _ \<Rightarrow> False)"

definition summarized :: "trace \<Rightarrow> trace \<Rightarrow> anchor_alignment list \<Rightarrow> alignment_result" where
  "summarized left right alignments =
     \<lparr>al_alignments = alignments,
      al_matched_anchors = length (filter (\<lambda>a. aa_status a \<in> {Aligned_match, Content_difference}) alignments),
      al_left_only = length (filter (\<lambda>a. aa_status a = Left_only) alignments),
      al_right_only = length (filter (\<lambda>a. aa_status a = Right_only) alignments),
      al_clock_skew_tolerant = True,
      al_content_differences = length (filter (\<lambda>a. aa_status a = Content_difference) alignments),
      al_exact_observation_matches = length (filter (exact_match left right) alignments)\<rparr>"

definition align_traces :: "trace \<Rightarrow> trace \<Rightarrow> alignment_result result" where
  "align_traces left right =
     bind_r (walk_back left right (traceback_table left right) (length left) (length right) []) (\<lambda>alignments.
     Inr (summarized left right alignments))"

section \<open>Divergence\<close>

record divergence_result =
  dv_found :: bool
  dv_left_ordinal :: "nat option"
  dv_right_ordinal :: "nat option"
  dv_confidence :: "rat option"
  dv_reason :: string
  dv_evidence_refs :: "string list"
  dv_diagnostic_only :: bool
  dv_causal_label :: string

definition NON_MEANINGFUL :: "semantic_anchor set" where
  "NON_MEANINGFUL = {Anchor_start, Anchor_request}"

definition row_events :: "anchor_alignment \<Rightarrow> trace \<Rightarrow> trace \<Rightarrow> normalized_event option \<times> normalized_event option" where
  "row_events row left right =
     (map_option (\<lambda>i. left ! i) (aa_left_ordinal row), map_option (\<lambda>j. right ! j) (aa_right_ordinal row))"

definition referenced_at :: "anchor_alignment list \<Rightarrow> (anchor_alignment \<Rightarrow> nat option) \<Rightarrow> trace \<Rightarrow> int \<Rightarrow> string option" where
  "referenced_at alignments side events candidate =
     (if candidate < 0 \<or> int (length alignments) \<le> candidate then None
      else case side (alignments ! nat candidate) of None \<Rightarrow> None | Some ordinal \<Rightarrow> ne_evidence_ref (events ! ordinal))"

definition nearest_evidence_ref ::
  "anchor_alignment list \<Rightarrow> nat \<Rightarrow> (anchor_alignment \<Rightarrow> nat option) \<Rightarrow> trace \<Rightarrow> string option" where
  "nearest_evidence_ref alignments position side events =
     first_some (map (referenced_at alignments side events)
       (concat (map (\<lambda>distance. [int position + int distance, int position - int distance]) [1..<length alignments + 1])))"

definition contextual_evidence_refs ::
  "anchor_alignment list \<Rightarrow> nat \<Rightarrow> trace \<Rightarrow> trace \<Rightarrow> normalized_event option \<Rightarrow> normalized_event option \<Rightarrow> string list" where
  "contextual_evidence_refs alignments position left right left_event right_event =
     (let left_ref = (case Option.bind left_event ne_evidence_ref of
            Some ref \<Rightarrow> Some ref | None \<Rightarrow> nearest_evidence_ref alignments position aa_left_ordinal left);
          right_ref = (case Option.bind right_event ne_evidence_ref of
            Some ref \<Rightarrow> Some ref | None \<Rightarrow> nearest_evidence_ref alignments position aa_right_ordinal right)
      in fold (\<lambda>value ordered. case value of None \<Rightarrow> ordered
           | Some ref \<Rightarrow> if ref \<in> set ordered then ordered else ordered @ [ref]) [left_ref, right_ref] [])"

definition divergence_reason :: "anchor_alignment \<Rightarrow> string \<times> rat" where
  "divergence_reason row =
     (if aa_status row = Content_difference
      then (anchor_value (aa_anchor row) @ '' observation digests differ at the same semantic anchor'', fl (95 / 100))
      else ((if aa_status row = Left_only then ''left'' else ''right'') @ '' trace contains an unmatched '' @
            anchor_value (aa_anchor row) @ '' anchor'', fl (85 / 100)))"

definition skipped_row :: "anchor_alignment \<Rightarrow> bool" where
  "skipped_row row \<longleftrightarrow>
     aa_status row = Aligned_match \<or> aa_status row \<noteq> Content_difference \<and> aa_anchor row \<in> NON_MEANINGFUL"

definition divergence_at ::
  "trace \<Rightarrow> trace \<Rightarrow> bool list \<Rightarrow> anchor_alignment list \<Rightarrow> nat \<Rightarrow> anchor_alignment \<Rightarrow> divergence_result" where
  "divergence_at left right gates alignments position row =
     (case row_events row left right of (left_event, right_event) \<Rightarrow>
      case divergence_reason row of (reason, confidence) \<Rightarrow>
      let refs = contextual_evidence_refs alignments position left right left_event right_event;
          derived_comparison_invariants_available = False;
          causal_candidate = list_all id (gates @ [derived_comparison_invariants_available, refs \<noteq> []])
      in \<lparr>dv_found = True, dv_left_ordinal = aa_left_ordinal row, dv_right_ordinal = aa_right_ordinal row,
          dv_confidence = Some confidence, dv_reason = reason, dv_evidence_refs = refs,
          dv_diagnostic_only = (\<not> causal_candidate),
          dv_causal_label = (if causal_candidate then ''COUNTERFACTUAL_SUPPORTED_CANDIDATE'' else ''DIAGNOSTIC_ONLY'')\<rparr>)"

definition no_divergence :: divergence_result where
  "no_divergence =
     \<lparr>dv_found = False, dv_left_ordinal = None, dv_right_ordinal = None, dv_confidence = None,
      dv_reason = ''no meaningful aligned divergence observed'', dv_evidence_refs = [], dv_diagnostic_only = True,
      dv_causal_label = ''DIAGNOSTIC_ONLY''\<rparr>"

text \<open>
  \<open>gates\<close> are the three flags \<open>preregistered_intervention\<close>, \<open>counterfactual_replication\<close> and
  \<open>manipulation_fidelity_pass\<close>; the function reads no fourth one.
\<close>

definition first_meaningful_divergence :: "trace \<Rightarrow> trace \<Rightarrow> bool \<Rightarrow> bool \<Rightarrow> bool \<Rightarrow> bool \<Rightarrow> divergence_result result" where
  "first_meaningful_divergence left right preregistered_intervention counterfactual_replication
     manipulation_fidelity_pass comparison_invariants_pass =
     bind_r (align_traces left right) (\<lambda>alignment.
     Inr (case find (\<lambda>(position, row). \<not> skipped_row row) (enumerate 0 (al_alignments alignment)) of
            None \<Rightarrow> no_divergence
          | Some (position, row) \<Rightarrow>
              divergence_at left right [preregistered_intervention, counterfactual_replication, manipulation_fidelity_pass]
                (al_alignments alignment) position row))"

section \<open>What the table holds\<close>

lemmas score_defs = GAP_SCORE_def EXACT_OBSERVATION_SCORE_def ANCHOR_ONLY_SCORE_def CONTENT_DIFFERENCE_SCORE_def
  NEGATIVE_INFINITY_def

lemma directions_distinct [simp]:
  "DIAGONAL \<noteq> UP" "UP \<noteq> DIAGONAL" "DIAGONAL \<noteq> LEFT" "LEFT \<noteq> DIAGONAL" "UP \<noteq> LEFT" "LEFT \<noteq> UP"
  by (simp_all add: DIAGONAL_def UP_def LEFT_def)

lemma diagonal_score_finite: "diagonal_score l r \<noteq> NEGATIVE_INFINITY \<longleftrightarrow> ne_anchor l = ne_anchor r"
  by (simp add: diagonal_score_def score_defs)

text \<open>The score of the best alignment of the first \<open>i\<close> events of one trace with the first \<open>j\<close> of the other.\<close>

fun best_score :: "trace \<Rightarrow> trace \<Rightarrow> nat \<Rightarrow> nat \<Rightarrow> int" where
  "best_score left right 0 j = int j * GAP_SCORE"
| "best_score left right (Suc i) 0 = int (Suc i) * GAP_SCORE"
| "best_score left right (Suc i) (Suc j) =
     fst (alignment_cell (left ! i) (right ! j) (best_score left right i j) (best_score left right i (Suc j))
       (best_score left right (Suc i) j))"

lemma best_score_edge: "best_score left right 0 = (\<lambda>j. int j * GAP_SCORE)" "best_score left right i 0 = int i * GAP_SCORE"
  by (rule ext, simp) (cases i, simp_all)

definition cell_at :: "trace \<Rightarrow> trace \<Rightarrow> nat \<Rightarrow> nat \<Rightarrow> int \<times> nat" where
  "cell_at left right i j =
     alignment_cell (left ! i) (right ! j) (best_score left right i j) (best_score left right i (Suc j))
       (best_score left right (Suc i) j)"

fun direction_at :: "trace \<Rightarrow> trace \<Rightarrow> nat \<Rightarrow> nat \<Rightarrow> nat" where
  "direction_at left right 0 0 = 0"
| "direction_at left right 0 (Suc j) = LEFT"
| "direction_at left right (Suc i) 0 = UP"
| "direction_at left right (Suc i) (Suc j) = snd (cell_at left right i j)"

lemma fst_cell_at: "fst (cell_at left right i j) = best_score left right (Suc i) (Suc j)"
  by (simp add: cell_at_def)

lemma fill_cells_eq:
  "j \<le> length right \<Longrightarrow>
   fill_cells (left ! i) (drop j right) (map (best_score left right i) [j..<Suc (length right)]) (best_score left right (Suc i) j)
     = map (cell_at left right i) [j..<length right]"
proof (induction "length right - j" arbitrary: j)
  case 0
  then show ?case by simp
next
  case (Suc d)
  then have j: "j < length right" by simp
  then have split: "drop j right = right ! j # drop (Suc j) right"
      "[j..<Suc (length right)] = j # Suc j # [Suc (Suc j)..<Suc (length right)]"
      "[Suc j..<Suc (length right)] = Suc j # [Suc (Suc j)..<Suc (length right)]"
      "[j..<length right] = j # [Suc j..<length right]"
    by (simp_all add: Cons_nth_drop_Suc upt_conv_Cons del: upt_Suc)
  have "d = length right - Suc j" "Suc j \<le> length right" using Suc(2) j by simp_all
  from Suc(1) [OF this] show ?case
    by (simp add: split Let_def fst_cell_at cell_at_def [symmetric] del: best_score.simps upt_Suc)
qed

lemma direction_row: "map (direction_at left right (Suc i)) [0..<Suc m] = UP # map (snd \<circ> cell_at left right i) [0..<m]"
  by (simp add: map_upt_Suc comp_def del: upt_Suc)

lemma score_row:
  "map (best_score left right (Suc i)) [0..<Suc m] = int (Suc i) * GAP_SCORE # map (fst \<circ> cell_at left right i) [0..<m]"
  by (simp add: map_upt_Suc comp_def fst_cell_at del: upt_Suc)

lemma fill_rows_eq:
  "i \<le> length left \<Longrightarrow>
   fill_rows (drop i left) right (Suc i) (map (best_score left right i) [0..<Suc (length right)])
     = concat (map (\<lambda>k. map (direction_at left right k) [0..<Suc (length right)]) [Suc i..<Suc (length left)])"
proof (induction "length left - i" arbitrary: i)
  case 0
  then show ?case by simp
next
  case (Suc d)
  then have i: "i < length left" by simp
  then have split: "drop i left = left ! i # drop (Suc i) left" "[Suc i..<Suc (length left)] = Suc i # [Suc (Suc i)..<Suc (length left)]"
    by (simp_all add: Cons_nth_drop_Suc upt_conv_Cons del: upt_Suc)
  have cells: "fill_cells (left ! i) right (map (best_score left right i) [0..<Suc (length right)]) (int (Suc i) * GAP_SCORE)
      = map (cell_at left right i) [0..<length right]"
    using fill_cells_eq [of 0 right left i] by (simp add: best_score_edge del: upt_Suc)
  have "d = length left - Suc i" "Suc i \<le> length left" using Suc(2) i by simp_all
  from Suc(1) [OF this] show ?case
    using cells by (simp add: split Let_def direction_row score_row del: upt_Suc)
qed

lemma nth_concat_rows:
  assumes "\<And>k. length (f k) = w" and "i < n" and "j < w"
  shows "concat (map f [0..<n]) ! (i * w + j) = f i ! j"
  using assms(2)
proof (induction n)
  case (Suc n)
  have len: "length (concat (map f [0..<n])) = n * w" by (simp add: length_concat comp_def assms(1) sum_list_triv)
  show ?case
  proof (cases "i < n")
    case True
    then have "i * w + j < n * w" using assms(3) by (metis add.commute add_less_mono1 less_le_trans mult_Suc mult_le_mono1 Suc_leI)
    with True Suc.IH len show ?thesis by (simp add: nth_append)
  next
    case False
    with Suc.prems have "i = n" by simp
    with len show ?thesis by (simp add: nth_append)
  qed
qed simp

lemma traceback_table_nth:
  assumes "i \<le> length left" and "j \<le> length right"
  shows "traceback_table left right ! (i * (length right + 1) + j) = direction_at left right i j"
proof -
  let ?w = "Suc (length right)" and ?row = "\<lambda>k. map (direction_at left right k) [0..<Suc (length right)]"
  have first: "0 # replicate (length right) LEFT = ?row 0"
    by (simp add: map_upt_Suc comp_def map_replicate_const del: upt_Suc)
  have "traceback_table left right = ?row 0 @ concat (map ?row [Suc 0..<Suc (length left)])"
    using fill_rows_eq [of 0 left right] by (simp add: traceback_table_def first best_score_edge del: upt_Suc)
  also have "\<dots> = concat (map ?row [0..<Suc (length left)])"
    by (simp add: upt_conv_Cons del: upt_Suc)
  finally show ?thesis
    using nth_concat_rows [of ?row ?w i "Suc (length left)" j] assms by (simp del: upt_Suc)
qed

section \<open>The alignment is the best one\<close>

text \<open>
  The specification of an alignment of the first \<open>i\<close> and \<open>j\<close> events: each event of either trace is in one
  row, in order, alone or paired with an event of the other trace at the same anchor.
\<close>

inductive aligns :: "trace \<Rightarrow> trace \<Rightarrow> nat \<Rightarrow> nat \<Rightarrow> anchor_alignment list \<Rightarrow> bool" for left right where
  aligns_none: "aligns left right 0 0 []"
| aligns_both: "aligns left right i j rows \<Longrightarrow> ne_anchor (left ! i) = ne_anchor (right ! j) \<Longrightarrow>
    aligns left right (Suc i) (Suc j) (rows @ [both_row left right i j])"
| aligns_left: "aligns left right i j rows \<Longrightarrow> aligns left right (Suc i) j (rows @ [left_row left i])"
| aligns_right: "aligns left right i j rows \<Longrightarrow> aligns left right i (Suc j) (rows @ [right_row right j])"

definition row_score :: "trace \<Rightarrow> trace \<Rightarrow> anchor_alignment \<Rightarrow> int" where
  "row_score left right row =
     (case (aa_left_ordinal row, aa_right_ordinal row) of
        (Some i, Some j) \<Rightarrow> diagonal_score (left ! i) (right ! j)
      | _ \<Rightarrow> GAP_SCORE)"

definition alignment_score :: "trace \<Rightarrow> trace \<Rightarrow> anchor_alignment list \<Rightarrow> int" where
  "alignment_score left right rows = sum_list (map (row_score left right) rows)"

lemma row_scores [simp]:
  "row_score left right (both_row left right i j) = diagonal_score (left ! i) (right ! j)"
  "row_score left right (left_row left i) = GAP_SCORE"
  "row_score left right (right_row right j) = GAP_SCORE"
  by (simp_all add: row_score_def both_row_def left_row_def right_row_def)

lemma aligns_ordinals:
  "aligns left right i j rows \<Longrightarrow> List.map_filter aa_left_ordinal rows = [0..<i] \<and> List.map_filter aa_right_ordinal rows = [0..<j]"
  by (induction rule: aligns.induct)
    (auto simp: List.map_filter_def both_row_def left_row_def right_row_def)

text \<open>The recurrence of the scores, one inequality per direction and the attained case.\<close>

lemma best_score_bounds:
  "ne_anchor (left ! i) = ne_anchor (right ! j) \<Longrightarrow>
    best_score left right i j + diagonal_score (left ! i) (right ! j) \<le> best_score left right (Suc i) (Suc j)"
  "best_score left right i j + GAP_SCORE \<le> best_score left right (Suc i) j"
  "best_score left right i j + GAP_SCORE \<le> best_score left right i (Suc j)"
proof -
  show "ne_anchor (left ! i) = ne_anchor (right ! j) \<Longrightarrow>
      best_score left right i j + diagonal_score (left ! i) (right ! j) \<le> best_score left right (Suc i) (Suc j)"
    by (simp add: alignment_cell_def Let_def diagonal_score_finite)
  show "best_score left right i j + GAP_SCORE \<le> best_score left right (Suc i) j"
    by (cases j) (simp_all add: best_score_edge alignment_cell_def Let_def algebra_simps)
  show "best_score left right i j + GAP_SCORE \<le> best_score left right i (Suc j)"
    by (cases i) (simp_all add: alignment_cell_def Let_def algebra_simps)
qed

lemma best_score_direction:
  "snd (cell_at left right i j) = DIAGONAL \<Longrightarrow> ne_anchor (left ! i) = ne_anchor (right ! j) \<Longrightarrow>
    best_score left right (Suc i) (Suc j) = best_score left right i j + diagonal_score (left ! i) (right ! j)"
  "snd (cell_at left right i j) = UP \<Longrightarrow> best_score left right (Suc i) (Suc j) = best_score left right i (Suc j) + GAP_SCORE"
  "snd (cell_at left right i j) = LEFT \<Longrightarrow> best_score left right (Suc i) (Suc j) = best_score left right (Suc i) j + GAP_SCORE"
  "snd (cell_at left right i j) \<in> {DIAGONAL, UP, LEFT}"
  by (auto simp: cell_at_def alignment_cell_def Let_def diagonal_score_finite max_def split: if_splits)

lemma best_score_lower: "int (i + j) * GAP_SCORE \<le> best_score left right i j"
proof (induction i arbitrary: j)
  case (Suc i)
  then show ?case
    using best_score_bounds(2) [of left right i j] Suc [of j] by (simp add: algebra_simps)
qed simp

text \<open>
  A table cell points diagonally across two anchors only when a score has fallen to the stand-in for
  minus infinity.
\<close>

lemma diagonal_same_anchor:
  assumes "snd (cell_at left right i j) = DIAGONAL" and "i + j + 2 < 500000000"
  shows "ne_anchor (left ! i) = ne_anchor (right ! j)"
proof (rule ccontr)
  assume "ne_anchor (left ! i) \<noteq> ne_anchor (right ! j)"
  with assms(1) have "best_score left right (Suc i) (Suc j) = NEGATIVE_INFINITY"
    by (auto simp: cell_at_def alignment_cell_def Let_def diagonal_score_def split: if_splits)
  with best_score_lower [of "Suc i" "Suc j" left right] assms(2) show False
    by (simp add: score_defs del: best_score.simps)
qed

lemma aligns_score_le: "aligns left right i j rows \<Longrightarrow> alignment_score left right rows \<le> best_score left right i j"
proof (induction rule: aligns.induct)
  case (aligns_both i j rows)
  then show ?case using best_score_bounds(1) [of left i right j] by (simp add: alignment_score_def del: best_score.simps)
next
  case (aligns_left i j rows)
  then show ?case using best_score_bounds(2) [of left right i j] by (simp add: alignment_score_def del: best_score.simps)
next
  case (aligns_right i j rows)
  then show ?case using best_score_bounds(3) [of left right i j] by (simp add: alignment_score_def del: best_score.simps)
qed (simp add: alignment_score_def)

text \<open>The walk back, one step at a time, over the table the loop has filled.\<close>

lemma walk_back_steps:
  assumes "i \<le> length left" and "j \<le> length right"
  defines "walk \<equiv> walk_back left right (traceback_table left right)"
  shows "walk 0 0 rows = Inr rows"
    "i = Suc i' \<Longrightarrow> j = Suc j' \<Longrightarrow> snd (cell_at left right i' j') = DIAGONAL \<Longrightarrow> ne_anchor (left ! i') = ne_anchor (right ! j') \<Longrightarrow>
      walk i j rows = walk i' j' (both_row left right i' j' # rows)"
    "i = Suc i' \<Longrightarrow> j = 0 \<or> direction_at left right i j = UP \<Longrightarrow> walk i j rows = walk i' j (left_row left i' # rows)"
    "j = Suc j' \<Longrightarrow> i = 0 \<or> direction_at left right i j = LEFT \<Longrightarrow> walk i j rows = walk i j' (right_row right j' # rows)"
proof -
  show "walk 0 0 rows = Inr rows" by (simp add: walk_def walk_back.simps)
  have eq: "walk i j rows = (if i = 0 \<and> j = 0 then Inr rows
      else if i \<noteq> 0 \<and> j \<noteq> 0 \<and> direction_at left right i j = DIAGONAL then
        (if ne_anchor (left ! (i - 1)) \<noteq> ne_anchor (right ! (j - 1))
         then Inl (RuntimeError ''traceback attempted an invalid cross-anchor diagonal'')
         else walk (i - 1) (j - 1) (both_row left right (i - 1) (j - 1) # rows))
      else if i \<noteq> 0 \<and> (direction_at left right i j = UP \<or> j = 0) then walk (i - 1) j (left_row left (i - 1) # rows)
      else if j \<noteq> 0 \<and> (direction_at left right i j = LEFT \<or> i = 0) then walk i (j - 1) (right_row right (j - 1) # rows)
      else Inl (RuntimeError ''traceback contains an invalid alignment direction''))"
    unfolding walk_def by (subst walk_back.simps) (simp only: Let_def traceback_table_nth [OF assms(1,2)])
  show "i = Suc i' \<Longrightarrow> j = Suc j' \<Longrightarrow> snd (cell_at left right i' j') = DIAGONAL \<Longrightarrow> ne_anchor (left ! i') = ne_anchor (right ! j') \<Longrightarrow>
      walk i j rows = walk i' j' (both_row left right i' j' # rows)"
    using eq by simp
  show "i = Suc i' \<Longrightarrow> j = 0 \<or> direction_at left right i j = UP \<Longrightarrow> walk i j rows = walk i' j (left_row left i' # rows)"
    using eq by auto
  show "j = Suc j' \<Longrightarrow> i = 0 \<or> direction_at left right i j = LEFT \<Longrightarrow> walk i j rows = walk i j' (right_row right j' # rows)"
    using eq by auto
qed

lemma walk_back_best:
  "i \<le> length left \<Longrightarrow> j \<le> length right \<Longrightarrow> i + j < 500000000 \<Longrightarrow>
   \<exists>rows. walk_back left right (traceback_table left right) i j acc = Inr (rows @ acc) \<and> aligns left right i j rows \<and>
     alignment_score left right rows = best_score left right i j"
proof (induction "i + j" arbitrary: i j acc rule: less_induct)
  case less
  note IH = less.hyps and step = walk_back_steps [OF less.prems(1,2)]
  have left: ?case if "i = Suc i'" "j = 0 \<or> direction_at left right i j = UP"
      "best_score left right i j = best_score left right i' j + GAP_SCORE" for i'
    using IH [of i' j "left_row left i' # acc"] step(3) [OF that(1,2), of acc] less.prems that
    by (fastforce simp: alignment_score_def simp del: best_score.simps intro: aligns_left)
  have right: ?case if "j = Suc j'" "i = 0 \<or> direction_at left right i j = LEFT"
      "best_score left right i j = best_score left right i j' + GAP_SCORE" for j'
    using IH [of i j' "right_row right j' # acc"] step(4) [OF that(1,2), of acc] less.prems that
    by (fastforce simp: alignment_score_def simp del: best_score.simps intro: aligns_right)
  show ?case
  proof (cases i)
    case 0
    then show ?thesis
      using right step(1) by (cases j) (auto simp: alignment_score_def algebra_simps intro: aligns_none)
  next
    case i: (Suc i')
    show ?thesis
    proof (cases j)
      case 0
      with i left show ?thesis by (auto simp: best_score_edge algebra_simps)
    next
      case j: (Suc j')
      consider "snd (cell_at left right i' j') = DIAGONAL" | "snd (cell_at left right i' j') = UP"
        | "snd (cell_at left right i' j') = LEFT"
        using best_score_direction(4) by blast
      then show ?thesis
      proof cases
        case 1
        with less.prems have "ne_anchor (left ! i') = ne_anchor (right ! j')"
          by (simp add: i j diagonal_same_anchor)
        with 1 show ?thesis
          using IH [of i' j' "both_row left right i' j' # acc"] step(2) [OF i j] less.prems best_score_direction(1) [of left right i' j']
          by (fastforce simp: i j alignment_score_def simp del: best_score.simps intro: aligns_both)
      next
        case 2
        with left [OF i] show ?thesis by (simp add: i j best_score_direction(2) del: best_score.simps)
      next
        case 3
        with right [OF j] show ?thesis by (simp add: i j best_score_direction(3) del: best_score.simps)
      qed
    qed
  qed
qed

lemma align_traces_total:
  assumes "length left + length right < 500000000"
  shows "\<exists>al. align_traces left right = Inr al"
  using walk_back_best [of "length left" left "length right" right "[]"] assms by (auto simp: align_traces_def)

text \<open>
  C15: Two traces of fewer than five hundred million events together are always aligned, with none of the
  internal errors: the rows hold every event of both traces once and in order, pair events only at the
  same anchor, and no other such alignment has a larger score.
\<close>

theorem align_traces_optimal:
  assumes "length left + length right < 500000000"
  shows "\<exists>rows. align_traces left right = Inr (summarized left right rows) \<and>
    aligns left right (length left) (length right) rows \<and>
    List.map_filter aa_left_ordinal rows = [0..<length left] \<and> List.map_filter aa_right_ordinal rows = [0..<length right] \<and>
    (\<forall>others. aligns left right (length left) (length right) others \<longrightarrow>
      alignment_score left right others \<le> alignment_score left right rows)"
proof -
  obtain rows where rows: "walk_back left right (traceback_table left right) (length left) (length right) [] = Inr rows"
      "aligns left right (length left) (length right) rows"
      "alignment_score left right rows = best_score left right (length left) (length right)"
    using walk_back_best [of "length left" left "length right" right "[]"] assms by auto
  then show ?thesis
    using aligns_ordinals [OF rows(2)] aligns_score_le by (auto simp: align_traces_def)
qed

section \<open>Equal observations never diverge\<close>

definition observed :: "normalized_event \<Rightarrow> semantic_anchor \<times> string option" where
  "observed e = (ne_anchor e, ne_observation_digest e)"

lemma diagonal_score_self:
  "diagonal_score l r \<le> diagonal_score l l" "0 < diagonal_score l l"
  "observed l = observed r \<Longrightarrow> diagonal_score l r = diagonal_score l l"
  by (simp_all add: diagonal_score_def observed_def score_defs)

lemma best_score_upper: "best_score left right i j \<le> (\<Sum>k<i. diagonal_score (left ! k) (left ! k))"
proof (induction i arbitrary: j)
  case 0
  then show ?case by (simp add: score_defs)
next
  case (Suc i)
  let ?self = "\<lambda>k. diagonal_score (left ! k) (left ! k)"
  have sum: "0 \<le> sum ?self {..<i}" by (rule sum_nonneg) (simp add: diagonal_score_self(2) order_less_imp_le)
  show ?case
  proof (induction j)
    case 0
    then show ?case using sum diagonal_score_self(2) [of "left ! i"] by (simp add: GAP_SCORE_def)
  next
    case (Suc j)
    then show ?case
      using Suc.IH \<open>\<And>j. best_score left right i j \<le> sum ?self {..<i}\<close> [of j]
        \<open>\<And>j. best_score left right i j \<le> sum ?self {..<i}\<close> [of "Suc j"]
        diagonal_score_self(1) [of "left ! i" "right ! j"] diagonal_score_self(2) [of "left ! i"] sum
      by (simp add: alignment_cell_def Let_def GAP_SCORE_def NEGATIVE_INFINITY_def del: best_score.simps(1,2))
  qed
qed

lemma equal_observations_diagonal:
  assumes "map observed left = map observed right"
  shows "i \<le> length left \<Longrightarrow> best_score left right i i = (\<Sum>k<i. diagonal_score (left ! k) (left ! k))"
    and "i < length left \<Longrightarrow> snd (cell_at left right i i) = DIAGONAL \<and> ne_anchor (left ! i) = ne_anchor (right ! i)"
proof -
  have same: "observed (left ! k) = observed (right ! k)" if "k < length left" for k
    using assms that by (metis length_map nth_map)
  show score: "i \<le> length left \<Longrightarrow> best_score left right i i = (\<Sum>k<i. diagonal_score (left ! k) (left ! k))" for i
  proof (induction i)
    case (Suc i)
    then have "observed (left ! i) = observed (right ! i)" by (simp add: same)
    then show ?case
      using Suc best_score_bounds(1) [of left i right i] best_score_upper [of left right "Suc i" "Suc i"]
        diagonal_score_self(3) [of "left ! i" "right ! i"]
      by (simp add: observed_def del: best_score.simps)
  qed simp
  show "i < length left \<Longrightarrow> snd (cell_at left right i i) = DIAGONAL \<and> ne_anchor (left ! i) = ne_anchor (right ! i)"
    using score [of i] score [of "Suc i"] same [of i] diagonal_score_self(3) [of "left ! i" "right ! i"]
      fst_cell_at [of left right i i]
    by (auto simp: cell_at_def alignment_cell_def Let_def observed_def diagonal_score_finite simp del: best_score.simps)
qed

lemma equal_observations_walk:
  assumes "map observed left = map observed right"
  shows "i \<le> length left \<Longrightarrow> walk_back left right (traceback_table left right) i i acc =
    Inr (map (\<lambda>k. both_row left right k k) [0..<i] @ acc)"
proof (induction i arbitrary: acc)
  case 0
  then show ?case by (simp add: walk_back.simps)
next
  case (Suc i)
  have "length right = length left" using assms by (metis length_map)
  with Suc show ?case
    using walk_back_steps(2) [of "Suc i" left "Suc i" right i i acc] equal_observations_diagonal(2) [OF assms, of i] by simp
qed

text \<open>
  C16: Clocks, event identifiers and evidence references cannot manufacture a divergence. Two traces of any
  length with the same anchors and the same observation digests in the same order are aligned event by
  event with nothing but matches, and no divergence is reported.
\<close>

theorem equal_observations_never_diverge:
  assumes "map observed left = map observed right"
  shows "align_traces left right = Inr (summarized left right (map (\<lambda>k. both_row left right k k) [0..<length left])) \<and>
    (\<forall>k < length left. aa_status (both_row left right k k) = Aligned_match) \<and>
    first_meaningful_divergence left right p c m i = Inr no_divergence"
proof -
  have len: "length right = length left" using assms by (metis length_map)
  have align: "align_traces left right = Inr (summarized left right (map (\<lambda>k. both_row left right k k) [0..<length left]))"
    using equal_observations_walk [OF assms, of "length left" "[]"] by (simp add: align_traces_def len)
  have "observed (left ! k) = observed (right ! k)" if "k < length left" for k
    using assms that by (metis length_map nth_map)
  then have match: "aa_status (both_row left right k k) = Aligned_match" if "k < length left" for k
    using that by (simp add: both_row_def aligned_status_def observed_def)
  have "find (\<lambda>(position, row). \<not> skipped_row row) (enumerate 0 (map (\<lambda>k. both_row left right k k) [0..<length left])) = None"
    using match by (auto simp: find_None_iff in_set_enumerate_eq skipped_row_def)
  then show ?thesis using align match by (simp add: first_meaningful_divergence_def summarized_def)
qed

section \<open>A divergence is the first and only diagnostic\<close>

lemma find_enumerate:
  "map_option snd (find (\<lambda>(position, x). \<not> P x) (enumerate n xs)) = (case dropWhile P xs of [] \<Rightarrow> None | x # _ \<Rightarrow> Some x)"
  by (induction xs arbitrary: n) auto

text \<open>
  Every comparison of traces of fewer than five hundred million events together returns a result. It
  is never promoted beyond a diagnostic, whatever the caller asserts; it reports a divergence exactly
  when the alignment has a row that is not skipped, and then the ordinals of the first such row.
\<close>

theorem divergence_first_and_diagnostic:
  assumes "length left + length right < 500000000"
  shows "\<exists>al d. align_traces left right = Inr al \<and> first_meaningful_divergence left right p c m i = Inr d \<and>
    dv_diagnostic_only d \<and> dv_causal_label d = ''DIAGNOSTIC_ONLY'' \<and>
    (case dropWhile skipped_row (al_alignments al) of
       [] \<Rightarrow> d = no_divergence
     | row # _ \<Rightarrow> dv_found d \<and> dv_left_ordinal d = aa_left_ordinal row \<and> dv_right_ordinal d = aa_right_ordinal row)"
proof -
  obtain al where al: "align_traces left right = Inr al" using align_traces_total [OF assms] by blast
  note first = find_enumerate [of skipped_row 0 "al_alignments al"]
  show ?thesis
  proof (cases "dropWhile skipped_row (al_alignments al)")
    case Nil
    with first have "find (\<lambda>(position, row). \<not> skipped_row row) (enumerate 0 (al_alignments al)) = None"
      by (simp del: dropWhile_eq_Nil_conv)
    with Nil show ?thesis
      by (simp add: al first_meaningful_divergence_def del: dropWhile_eq_Nil_conv) (simp add: no_divergence_def)
  next
    case (Cons row rows)
    with first obtain position where
      "find (\<lambda>(position, row). \<not> skipped_row row) (enumerate 0 (al_alignments al)) = Some (position, row)" by auto
    with Cons show ?thesis
      by (simp add: al first_meaningful_divergence_def divergence_at_def Let_def split: prod.split)
  qed
qed

section \<open>Normalization\<close>

text \<open>
  The normalized trace does not depend on the order in which the events were read: any reordering of
  the events is normalized to the same trace, or refused with the same error.
\<close>

theorem normalize_trace_order_independent:
  assumes "mset events = mset others"
  shows "normalize_trace events = normalize_trace others"
proof -
  have ids: "distinct (map sv_event_id events) \<longleftrightarrow> distinct (map sv_event_id others)"
    using assms by (intro mset_eq_imp_distinct_iff) simp
  have "sort_key event_order events = sort_key event_order others" if "distinct (map sv_event_id events)"
  proof (rule sort_key_inj_key_eq)
    show "mset events = mset (sort_key event_order others)" using assms by simp
    show "inj_on event_order (set events)" using that by (auto simp: distinct_map inj_on_def event_order_def)
    show "sorted (map event_order (sort_key event_order others))" by simp
  qed
  moreover have "events = [] \<longleftrightarrow> others = []" using assms by (metis mset_zero_iff_right)
  ultimately show ?thesis
    by (auto simp: normalize_trace_def ids raise_if_def)
qed

section \<open>Examples\<close>

definition trace_step :: "nat \<Rightarrow> semantic_anchor \<Rightarrow> char \<Rightarrow> normalized_event" where
  "trace_step n a c = \<lparr>ne_event_id = [c], ne_anchor = a, ne_ordinal = n, ne_relative_ms = None, ne_evidence_ref = Some [c],
     ne_observation_digest = Some (replicate 64 c)\<rparr>"

definition plain_trace :: trace where
  "plain_trace = [trace_step 0 Anchor_start (CHR ''a''), trace_step 1 Anchor_tool_call (CHR ''b''), trace_step 2 Anchor_final (CHR ''c'')]"

definition retried_trace :: trace where
  "retried_trace = [trace_step 0 Anchor_start (CHR ''a''), trace_step 1 Anchor_tool_call (CHR ''d''), trace_step 2 Anchor_retry (CHR ''e''),
     trace_step 3 Anchor_tool_call (CHR ''b''), trace_step 4 Anchor_final (CHR ''c'')]"

lemma trace_lengths: "length plain_trace = 3" "length retried_trace = 5"
  by (simp_all add: plain_trace_def retried_trace_def)

text \<open>The repeated tool call is paired with the one that observed the same content, not with the first.\<close>

lemma retried_trace_aligned:
  "map_sum id al_alignments (align_traces plain_trace retried_trace) =
     Inr [both_row plain_trace retried_trace 0 0, right_row retried_trace 1, right_row retried_trace 2,
       both_row plain_trace retried_trace 1 3, both_row plain_trace retried_trace 2 4]"
  by code_simp

theorem align_traces_optimal_witness:
  "\<exists>rows. align_traces plain_trace retried_trace = Inr (summarized plain_trace retried_trace rows) \<and>
     aligns plain_trace retried_trace 3 5 rows"
  using align_traces_optimal [of plain_trace retried_trace] by (auto simp: trace_lengths)

theorem equal_observations_never_diverge_witness:
  "first_meaningful_divergence plain_trace (map (\<lambda>e. e\<lparr>ne_relative_ms := Some 7, ne_event_id := ''x''\<rparr>) plain_trace)
     True True True True = Inr no_divergence"
  by (rule equal_observations_never_diverge [THEN conjunct2, THEN conjunct2]) (simp add: plain_trace_def observed_def trace_step_def)

theorem divergence_first_and_diagnostic_witness:
  "map_sum id dv_right_ordinal (first_meaningful_divergence plain_trace retried_trace True True True True) = Inr (Some 1) \<and>
   map_sum id dv_diagnostic_only (first_meaningful_divergence plain_trace retried_trace True True True True) = Inr True"
proof -
  have "length plain_trace + length retried_trace < 500000000" by (simp add: trace_lengths)
  from divergence_first_and_diagnostic [OF this, of True True True True] show ?thesis
    using retried_trace_aligned
    by (auto simp: skipped_row_def both_row_def right_row_def aligned_status_def plain_trace_def retried_trace_def trace_step_def
        NON_MEANINGFUL_def)
qed

definition observed_step :: "int \<Rightarrow> string \<Rightarrow> semantic_event" where
  "observed_step n i = \<lparr>sv_event_id = i, sv_anchor = Anchor_request, sv_sequence = n, sv_timestamp = Some (n * 2000),
     sv_monotonic_ms = None, sv_evidence_ref = None, sv_observation_digest = None\<rparr>"

theorem normalize_trace_order_independent_witness:
  "normalize_trace [observed_step 2 ''b'', observed_step 1 ''a''] = normalize_trace [observed_step 1 ''a'', observed_step 2 ''b'']"
  by (rule normalize_trace_order_independent) simp

end
