(* ===== verification/Analysis_Decision.thy ===== *)
theory Analysis_Decision
  imports Arena_Prelude Py_Float
begin

text \<open>
  Selection rules of the analysis: \<open>src/backend/analysis_v1/decision.py\<close> and \<open>adequacy.py\<close>.

  A float argument is a \<open>float_value\<close>, a finite double or one of the values that \<open>isfinite\<close> rejects; the
  validators of the dataclasses reject those, so the fields of a constructed object are the rational
  numbers that finite doubles are. The checks of the Python types of arguments have nothing to refuse here.
  It is shown that the Pareto frontier is complete and free of domination, exactly when the profile
  that is selected as the minimum sufficient one may be dominated, and that no analysis is ever called
  eligible for a confirmatory claim.
\<close>

datatype float_value = Finite rat | Nonfinite

definition in_unit :: "float_value \<Rightarrow> bool" where
  "in_unit v = (case v of Finite q \<Rightarrow> 0 \<le> q \<and> q \<le> 1 | Nonfinite \<Rightarrow> False)"

definition nonnegative :: "float_value \<Rightarrow> bool" where
  "nonnegative v = (case v of Finite q \<Rightarrow> 0 \<le> q | Nonfinite \<Rightarrow> False)"

definition number_of :: "float_value \<Rightarrow> rat" where
  "number_of v = (case v of Finite q \<Rightarrow> q | Nonfinite \<Rightarrow> 0)"

section \<open>Outcomes\<close>

datatype analysis_cost_status = Reconciled | Unknown_cost

record outcome_measurement =
  om_outcome_id :: string
  om_success :: bool
  om_severe_failures :: "string list"
  om_auditability :: rat
  om_cost_status :: analysis_cost_status
  om_cost_usd :: "rat option"
  om_latency_seconds :: "rat option"
  om_provider_usage_ref :: "string option"
  om_price_reference :: "string option"

text \<open>The checks of the cost fields that outcomes and profiles share; \<open>noun\<close> is the text of the first one.\<close>

definition check_cost :: "analysis_cost_status \<Rightarrow> float_value option \<Rightarrow> string option \<Rightarrow> string option \<Rightarrow> string \<Rightarrow> unit result" where
  "check_cost status cost usage_ref price_ref noun =
     bind_r (raise_if (status = Reconciled \<and> (case cost of None \<Rightarrow> True | Some c \<Rightarrow> \<not> nonnegative c))
       (ValueError (''reconciled cost requires '' @ noun))) (\<lambda>_.
     bind_r (raise_if (status = Reconciled \<and> (usage_ref \<in> {None, Some []} \<or> price_ref \<in> {None, Some []}))
       (ValueError ''reconciled cost requires provider usage and price references'')) (\<lambda>_.
     raise_if (status \<noteq> Reconciled \<and> (cost \<noteq> None \<or> usage_ref \<noteq> None \<or> price_ref \<noteq> None))
       (ValueError ''UNKNOWN cost must not carry estimated cost or reconciliation references'')))"

definition OutcomeMeasurement ::
  "string \<Rightarrow> bool \<Rightarrow> string list \<Rightarrow> float_value \<Rightarrow> analysis_cost_status \<Rightarrow> float_value option \<Rightarrow> float_value option \<Rightarrow> string option
    \<Rightarrow> string option \<Rightarrow> outcome_measurement result" where
  "OutcomeMeasurement outcome_id success severe_failures auditability status cost latency usage_ref price_ref =
     bind_r (raise_if (outcome_id = []) (ValueError ''outcome_id and bool success are required'')) (\<lambda>_.
     bind_r (raise_if (\<not> in_unit auditability) (ValueError ''auditability must be finite and in [0, 1]'')) (\<lambda>_.
     bind_r (check_cost status cost usage_ref price_ref ''a non-negative finite cost_usd'') (\<lambda>_.
     bind_r (raise_if (case latency of None \<Rightarrow> False | Some s \<Rightarrow> \<not> nonnegative s)
       (ValueError ''latency_seconds must be non-negative when present'')) (\<lambda>_.
     Inr \<lparr>om_outcome_id = outcome_id, om_success = success, om_severe_failures = severe_failures,
       om_auditability = number_of auditability, om_cost_status = status, om_cost_usd = map_option number_of cost,
       om_latency_seconds = map_option number_of latency, om_provider_usage_ref = usage_ref, om_price_reference = price_ref\<rparr>))))"

record severe_failure_summary =
  sf_outcomes :: nat
  sf_affected_outcomes :: nat
  sf_affected_rate :: rat
  sf_total_events :: nat
  sf_by_rule :: "(string \<times> nat) list"

definition count_failure :: "string \<Rightarrow> (string \<times> nat) list \<Rightarrow> (string \<times> nat) list result" where
  "count_failure failure counts =
     bind_r (raise_if (failure = []) (ValueError ''severe failure labels must be non-empty'')) (\<lambda>_.
     Inr (AList.update failure ((case map_of counts failure of None \<Rightarrow> 0 | Some n \<Rightarrow> n) + 1) counts))"

definition summarize_severe_failures :: "outcome_measurement list \<Rightarrow> severe_failure_summary result" where
  "summarize_severe_failures outcomes =
     bind_r (raise_if (outcomes = []) (ValueError ''at least one outcome is required'')) (\<lambda>_.
     bind_r (for_each (\<lambda>outcome. for_each count_failure (om_severe_failures outcome)) outcomes []) (\<lambda>counts.
     let affected = length (filter (\<lambda>outcome. om_severe_failures outcome \<noteq> []) outcomes) in
     Inr \<lparr>sf_outcomes = length outcomes, sf_affected_outcomes = affected,
       sf_affected_rate = fdiv (of_nat affected) (of_nat (length outcomes)), sf_total_events = sum_list (map snd counts),
       sf_by_rule = sort counts\<rparr>))"

record eligibility_decision =
  ed_composite_score :: "rat option"
  ed_configured_gates :: "(string \<times> bool) list"
  ed_failed_gates :: "string list"
  ed_eligible :: bool
  ed_reason :: string

text \<open>\<open>hard_gates\<close> is a dictionary, an association list with distinct keys.\<close>

definition evaluate_eligibility :: "float_value option \<Rightarrow> (string \<times> bool) list \<Rightarrow> eligibility_decision result" where
  "evaluate_eligibility composite_score hard_gates =
     bind_r (raise_if (case composite_score of None \<Rightarrow> False | Some s \<Rightarrow> \<not> in_unit s)
       (ValueError ''composite_score must be in [0, 1] when supplied'')) (\<lambda>_.
     bind_r (raise_if (list_ex (\<lambda>(name, _). name = []) hard_gates)
       (ValueError ''hard gates require non-empty names and bool values'')) (\<lambda>_.
     let gates = sort hard_gates;
         failed = map fst (filter (\<lambda>(_, passed). \<not> passed) gates);
         score = map_option number_of composite_score in
     Inr (if failed \<noteq> [] then
         \<lparr>ed_composite_score = score, ed_configured_gates = gates, ed_failed_gates = failed, ed_eligible = False,
          ed_reason = ''ineligible: configured hard gate failed''\<rparr>
       else
         \<lparr>ed_composite_score = score, ed_configured_gates = gates, ed_failed_gates = [], ed_eligible = True,
          ed_reason = ''eligible: all configured hard gates passed''\<rparr>)))"

section \<open>Profiles\<close>

record pareto_profile =
  pf_profile_id :: string
  pf_success_rate :: rat
  pf_auditability :: rat
  pf_severe_failure_rate :: rat
  pf_cost_status :: analysis_cost_status
  pf_cost_usd :: "rat option"
  pf_latency_seconds :: rat
  pf_provider_usage_ref :: "string option"
  pf_price_reference :: "string option"

definition ParetoProfile ::
  "string \<Rightarrow> float_value \<Rightarrow> float_value \<Rightarrow> float_value \<Rightarrow> analysis_cost_status \<Rightarrow> float_value option \<Rightarrow> float_value option
    \<Rightarrow> string option \<Rightarrow> string option \<Rightarrow> pareto_profile result" where
  "ParetoProfile profile_id success_rate auditability severe_failure_rate status cost latency usage_ref price_ref =
     bind_r (raise_if (profile_id = []) (ValueError ''profile_id is required'')) (\<lambda>_.
     bind_r (raise_if (\<not> in_unit success_rate) (ValueError ''success_rate must be finite and in [0, 1]'')) (\<lambda>_.
     bind_r (raise_if (\<not> in_unit auditability) (ValueError ''auditability must be finite and in [0, 1]'')) (\<lambda>_.
     bind_r (raise_if (\<not> in_unit severe_failure_rate) (ValueError ''severe_failure_rate must be finite and in [0, 1]'')) (\<lambda>_.
     bind_r (check_cost status cost usage_ref price_ref ''cost_usd'') (\<lambda>_.
     bind_r (raise_if (case latency of None \<Rightarrow> True | Some s \<Rightarrow> \<not> nonnegative s)
       (ValueError ''latency_seconds must be a non-negative finite value'')) (\<lambda>_.
     Inr \<lparr>pf_profile_id = profile_id, pf_success_rate = number_of success_rate, pf_auditability = number_of auditability,
       pf_severe_failure_rate = number_of severe_failure_rate, pf_cost_status = status, pf_cost_usd = map_option number_of cost,
       pf_latency_seconds = number_of (the latency), pf_provider_usage_ref = usage_ref, pf_price_reference = price_ref\<rparr>))))))"

record pareto_result =
  pt_frontier :: "pareto_profile list"
  pt_excluded :: "(string \<times> string) list"

definition no_worse :: "pareto_profile \<Rightarrow> pareto_profile \<Rightarrow> rat \<Rightarrow> rat \<Rightarrow> bool" where
  "no_worse left right left_cost right_cost \<longleftrightarrow>
     pf_success_rate left \<ge> pf_success_rate right \<and> pf_auditability left \<ge> pf_auditability right \<and>
     pf_severe_failure_rate left \<le> pf_severe_failure_rate right \<and> left_cost \<le> right_cost \<and>
     pf_latency_seconds left \<le> pf_latency_seconds right"

definition strictly_better :: "pareto_profile \<Rightarrow> pareto_profile \<Rightarrow> rat \<Rightarrow> rat \<Rightarrow> bool" where
  "strictly_better left right left_cost right_cost \<longleftrightarrow>
     pf_success_rate left > pf_success_rate right \<or> pf_auditability left > pf_auditability right \<or>
     pf_severe_failure_rate left < pf_severe_failure_rate right \<or> left_cost < right_cost \<or>
     pf_latency_seconds left < pf_latency_seconds right"

definition dominates :: "pareto_profile \<Rightarrow> pareto_profile \<Rightarrow> bool result" where
  "dominates left right =
     (case (pf_cost_usd left, pf_cost_usd right) of
        (Some left_cost, Some right_cost) \<Rightarrow>
          Inr (no_worse left right left_cost right_cost \<and> strictly_better left right left_cost right_cost)
      | _ \<Rightarrow> Inl AssertionError)"

definition pareto_frontier :: "pareto_profile list \<Rightarrow> pareto_result result" where
  "pareto_frontier profiles =
     bind_r (raise_if (profiles = []) (ValueError ''at least one profile is required'')) (\<lambda>_.
     bind_r (raise_if (\<not> distinct (map pf_profile_id profiles)) (ValueError ''profile_id values must be unique'')) (\<lambda>_.
     let reconciled = filter (\<lambda>p. pf_cost_status p = Reconciled) profiles;
         excluded = map (\<lambda>p. (pf_profile_id p, ''excluded: cost is UNKNOWN or not reconciled from provider usage and price''))
           (filter (\<lambda>p. pf_cost_status p = Unknown_cost) profiles) in
     bind_r (filter_r (\<lambda>p.
         bind_r (any_r (\<lambda>other. if pf_profile_id other \<noteq> pf_profile_id p then dominates other p else Inr False) reconciled)
           (\<lambda>dominated. Inr (\<not> dominated))) reconciled) (\<lambda>frontier.
     Inr \<lparr>pt_frontier = frontier, pt_excluded = excluded\<rparr>)))"

record profile_constraints =
  pk_max_severe_failure_rate :: rat
  pk_max_cost_usd :: rat
  pk_max_latency_seconds :: rat
  pk_min_success_rate :: rat
  pk_min_auditability :: rat

definition ProfileConstraints ::
  "float_value \<Rightarrow> float_value \<Rightarrow> float_value \<Rightarrow> float_value \<Rightarrow> float_value \<Rightarrow> profile_constraints result" where
  "ProfileConstraints max_severe max_cost max_latency min_success min_audit =
     bind_r (raise_if (\<not> in_unit max_severe) (ValueError ''max_severe_failure_rate must be finite and in [0, 1]'')) (\<lambda>_.
     bind_r (raise_if (\<not> in_unit min_success) (ValueError ''min_success_rate must be finite and in [0, 1]'')) (\<lambda>_.
     bind_r (raise_if (\<not> in_unit min_audit) (ValueError ''min_auditability must be finite and in [0, 1]'')) (\<lambda>_.
     bind_r (raise_if (\<not> nonnegative max_cost) (ValueError ''max_cost_usd must be non-negative and finite'')) (\<lambda>_.
     bind_r (raise_if (\<not> nonnegative max_latency) (ValueError ''max_latency_seconds must be non-negative and finite'')) (\<lambda>_.
     Inr \<lparr>pk_max_severe_failure_rate = number_of max_severe, pk_max_cost_usd = number_of max_cost,
       pk_max_latency_seconds = number_of max_latency, pk_min_success_rate = number_of min_success,
       pk_min_auditability = number_of min_audit\<rparr>)))))"

datatype profile_status = Profile_match | Profile_hold

record minimum_sufficient_result =
  mr_status :: profile_status
  mr_profile :: "pareto_profile option"
  mr_reason :: string

definition sufficient :: "profile_constraints \<Rightarrow> pareto_profile \<Rightarrow> bool" where
  "sufficient constraints p \<longleftrightarrow> pf_cost_status p = Reconciled \<and>
     (case pf_cost_usd p of None \<Rightarrow> False | Some cost \<Rightarrow>
        pf_severe_failure_rate p \<le> pk_max_severe_failure_rate constraints \<and> cost \<le> pk_max_cost_usd constraints \<and>
        pf_latency_seconds p \<le> pk_max_latency_seconds constraints \<and>
        pf_success_rate p \<ge> pk_min_success_rate constraints \<and> pf_auditability p \<ge> pk_min_auditability constraints)"

definition selection_key :: "pareto_profile \<Rightarrow> rat \<times> rat \<times> rat \<times> rat \<times> string" where
  "selection_key p = (the (pf_cost_usd p), pf_latency_seconds p, - pf_success_rate p, - pf_auditability p, pf_profile_id p)"

text \<open>\<open>min\<close> with a key: the first of the elements with the least key.\<close>

fun min_key :: "('a \<Rightarrow> 'k :: linorder) \<Rightarrow> 'a \<Rightarrow> 'a list \<Rightarrow> 'a" where
  "min_key key best [] = best"
| "min_key key best (x # xs) = min_key key (if key x < key best then x else best) xs"

definition minimum_sufficient_profile :: "pareto_profile list \<Rightarrow> profile_constraints \<Rightarrow> minimum_sufficient_result" where
  "minimum_sufficient_profile profiles constraints =
     (case filter (sufficient constraints) profiles of
        [] \<Rightarrow> \<lparr>mr_status = Profile_hold, mr_profile = None,
          mr_reason = ''HOLD: no profile satisfies every risk, cost, latency, reliability, and auditability constraint''\<rparr>
      | p # candidates \<Rightarrow> \<lparr>mr_status = Profile_match, mr_profile = Some (min_key selection_key p candidates),
          mr_reason = ''MATCH: selected lowest-cost profile satisfying every constraint''\<rparr>)"

section \<open>Adequacy\<close>

datatype analysis_claim_level = Descriptive_only | Confirmatory_analysis_eligible

datatype mixed_effect_status = Mixed_not_run

record adequacy_requirements =
  aq_minimum_completed_attempts :: int
  aq_minimum_clusters :: int
  aq_minimum_per_arm :: int
  aq_minimum_balance_ratio :: rat
  aq_minimum_manipulation_fidelity :: rat
  aq_minimum_trace_completeness :: rat

definition AdequacyRequirements ::
  "int \<Rightarrow> int \<Rightarrow> int \<Rightarrow> float_value \<Rightarrow> float_value \<Rightarrow> float_value \<Rightarrow> adequacy_requirements result" where
  "AdequacyRequirements attempts clusters per_arm balance fidelity completeness =
     bind_r (raise_if (attempts < 1 \<or> clusters < 1 \<or> per_arm < 1)
       (ValueError ''attempt, cluster, and per-arm requirements must be positive integers'')) (\<lambda>_.
     bind_r (raise_if (\<not> in_unit balance \<or> \<not> in_unit fidelity \<or> \<not> in_unit completeness)
       (ValueError ''fractional requirements must be finite values in [0, 1]'')) (\<lambda>_.
     Inr \<lparr>aq_minimum_completed_attempts = attempts, aq_minimum_clusters = clusters, aq_minimum_per_arm = per_arm,
       aq_minimum_balance_ratio = number_of balance, aq_minimum_manipulation_fidelity = number_of fidelity,
       aq_minimum_trace_completeness = number_of completeness\<rparr>))"

definition DEFAULT_REQUIREMENTS :: adequacy_requirements where
  "DEFAULT_REQUIREMENTS =
     \<lparr>aq_minimum_completed_attempts = 20, aq_minimum_clusters = 8, aq_minimum_per_arm = 5,
      aq_minimum_balance_ratio = fl (8 / 10), aq_minimum_manipulation_fidelity = fl (95 / 100),
      aq_minimum_trace_completeness = fl (95 / 100)\<rparr>"

record adequacy_input =
  ai_completed_attempts :: int
  ai_cluster_count :: int
  ai_control_attempts :: int
  ai_treatment_attempts :: int
  ai_manipulation_fidelity :: rat
  ai_trace_completeness :: rat
  ai_preregistered_design :: bool
  ai_treatment_manipulation_fidelity_pass :: bool
  ai_comparison_invariants_pass :: bool
  ai_evaluator_independence_pass :: bool
  ai_sealed_or_held_out_tasks_pass :: bool
  ai_external_fitted_model_result :: "string option"

definition AdequacyInput ::
  "int \<Rightarrow> int \<Rightarrow> int \<Rightarrow> int \<Rightarrow> float_value \<Rightarrow> float_value \<Rightarrow> bool \<Rightarrow> bool \<Rightarrow> bool \<Rightarrow> bool \<Rightarrow> bool \<Rightarrow> string option
    \<Rightarrow> adequacy_input result" where
  "AdequacyInput completed clusters control treatment fidelity completeness preregistered manipulation invariants
       independence sealed fitted =
     bind_r (raise_if (completed < 0 \<or> clusters < 0 \<or> control < 0 \<or> treatment < 0)
       (ValueError ''count fields must be non-negative integers'')) (\<lambda>_.
     bind_r (raise_if (\<not> in_unit fidelity \<or> \<not> in_unit completeness)
       (ValueError ''fidelity and completeness must be finite values in [0, 1]'')) (\<lambda>_.
     bind_r (raise_if (case fitted of None \<Rightarrow> False | Some t \<Rightarrow> strip t = [])
       (ValueError ''external fitted-model result must be non-empty when supplied'')) (\<lambda>_.
     Inr \<lparr>ai_completed_attempts = completed, ai_cluster_count = clusters, ai_control_attempts = control,
       ai_treatment_attempts = treatment, ai_manipulation_fidelity = number_of fidelity,
       ai_trace_completeness = number_of completeness, ai_preregistered_design = preregistered,
       ai_treatment_manipulation_fidelity_pass = manipulation, ai_comparison_invariants_pass = invariants,
       ai_evaluator_independence_pass = independence, ai_sealed_or_held_out_tasks_pass = sealed,
       ai_external_fitted_model_result = fitted\<rparr>)))"

record adequacy_result =
  ar_claim_level :: analysis_claim_level
  ar_reasons :: "string list"
  ar_balance_ratio :: rat
  ar_mixed_effect_status :: mixed_effect_status
  ar_external_fitted_model_result :: "string option"

definition balance_ratio :: "adequacy_input \<Rightarrow> rat" where
  "balance_ratio i =
     (if max (ai_control_attempts i) (ai_treatment_attempts i) = 0 then 0
      else fdiv (of_int (min (ai_control_attempts i) (ai_treatment_attempts i)))
        (of_int (max (ai_control_attempts i) (ai_treatment_attempts i))))"

definition adequacy_reasons :: "adequacy_input \<Rightarrow> adequacy_requirements \<Rightarrow> string list" where
  "adequacy_reasons i r =
     [reason. (failed, reason) \<leftarrow>
       [(ai_completed_attempts i < aq_minimum_completed_attempts r, ''insufficient completed attempts''),
        (ai_cluster_count i < aq_minimum_clusters r, ''insufficient task-cluster diversity''),
        (min (ai_control_attempts i) (ai_treatment_attempts i) < aq_minimum_per_arm r,
           ''insufficient attempts in one or both arms''),
        (balance_ratio i < aq_minimum_balance_ratio r, ''insufficient arm balance''),
        (ai_manipulation_fidelity i < aq_minimum_manipulation_fidelity r, ''insufficient manipulation fidelity''),
        (ai_trace_completeness i < aq_minimum_trace_completeness r, ''insufficient trace completeness''),
        (\<not> ai_preregistered_design i, ''design was not preregistered''),
        (\<not> ai_treatment_manipulation_fidelity_pass i, ''treatment/manipulation fidelity gate failed''),
        (\<not> ai_evaluator_independence_pass i, ''evaluator independence gate failed''),
        (\<not> ai_sealed_or_held_out_tasks_pass i, ''sealed or held-out task gate failed''),
        (True, ''derived persisted comparison-invariant evidence is unavailable; caller-supplied comparison_invariants_pass cannot establish eligibility'')],
       failed]"

definition assess_analysis_adequacy :: "adequacy_input \<Rightarrow> adequacy_requirements \<Rightarrow> adequacy_result" where
  "assess_analysis_adequacy i r =
     (let reasons = adequacy_reasons i r;
          level = (if reasons \<noteq> [] then Descriptive_only else Confirmatory_analysis_eligible);
          fitted = ai_external_fitted_model_result i \<noteq> None
      in \<lparr>ar_claim_level = (if fitted then Descriptive_only else level),
          ar_reasons = (if fitted then reasons @ [''caller-supplied mixed-effect results are legacy descriptive evidence and never claim-eligible''] else reasons),
          ar_balance_ratio = balance_ratio i, ar_mixed_effect_status = Mixed_not_run, ar_external_fitted_model_result = None\<rparr>)"

text \<open>No input and no requirements make an analysis eligible for a confirmatory claim; the first reason is a measured one if there is any.\<close>

lemma adequacy_descriptive: "ar_claim_level (assess_analysis_adequacy i r) = Descriptive_only" "ar_reasons (assess_analysis_adequacy i r) \<noteq> []"
  by (simp_all add: assess_analysis_adequacy_def adequacy_reasons_def Let_def)

section \<open>The Pareto frontier\<close>

text \<open>A constructed profile has a cost exactly when its cost is reconciled.\<close>

definition costed :: "pareto_profile \<Rightarrow> bool" where
  "costed p \<longleftrightarrow> (pf_cost_status p = Reconciled \<longleftrightarrow> pf_cost_usd p \<noteq> None)"

lemma ParetoProfile_costed: "ParetoProfile i s a f st c l u q = Inr p \<Longrightarrow> costed p"
  by (cases st; cases c) (auto simp: ParetoProfile_def check_cost_def costed_def bind_r_eq_Inr_iff raise_if_eq_Inr_iff)

definition better :: "pareto_profile \<Rightarrow> pareto_profile \<Rightarrow> bool" where
  "better p q \<longleftrightarrow> no_worse p q (the (pf_cost_usd p)) (the (pf_cost_usd q)) \<and>
     strictly_better p q (the (pf_cost_usd p)) (the (pf_cost_usd q))"

lemma dominates_eq: "pf_cost_usd p \<noteq> None \<Longrightarrow> pf_cost_usd q \<noteq> None \<Longrightarrow> dominates p q = Inr (better p q)"
  by (auto simp: dominates_def better_def)

lemma better_trans: "better p q \<Longrightarrow> better q r \<Longrightarrow> better p r"
  by (auto simp: better_def no_worse_def strictly_better_def)

lemma better_irrefl: "\<not> better p p"
  by (simp add: better_def strictly_better_def)

definition burden :: "pareto_profile \<Rightarrow> rat" where
  "burden p = the (pf_cost_usd p) + pf_latency_seconds p + pf_severe_failure_rate p - pf_success_rate p - pf_auditability p"

lemma better_burden: "better p q \<Longrightarrow> burden p < burden q"
  unfolding better_def no_worse_def strictly_better_def burden_def by linarith

lemma unbeaten_exists:
  assumes "finite S" and "p \<in> S"
  shows "\<exists>q \<in> S. (q = p \<or> better q p) \<and> (\<forall>r \<in> S. \<not> better r q)"
proof -
  let ?T = "{q \<in> S. q = p \<or> better q p}"
  have T: "finite ?T" "?T \<noteq> {}" using assms by auto
  define q where "q = arg_min_on burden ?T"
  note least = arg_min_if_finite [OF T, of burden, folded q_def]
  have "\<not> better r q" if "r \<in> S" for r
    using least that better_trans [of r q p] better_burden [of r q] by auto
  with least show ?thesis by auto
qed

definition reconciled_of :: "pareto_profile list \<Rightarrow> pareto_profile list" where
  "reconciled_of profiles = filter (\<lambda>p. pf_cost_status p = Reconciled) profiles"

lemma pareto_frontier_eq:
  assumes "profiles \<noteq> []" and "distinct (map pf_profile_id profiles)" and "list_all costed profiles"
  shows "pareto_frontier profiles =
    Inr \<lparr>pt_frontier = filter (\<lambda>p. \<not> list_ex (\<lambda>q. better q p) (reconciled_of profiles)) (reconciled_of profiles),
      pt_excluded = map (\<lambda>p. (pf_profile_id p, ''excluded: cost is UNKNOWN or not reconciled from provider usage and price''))
           (filter (\<lambda>p. pf_cost_status p = Unknown_cost) profiles)\<rparr>"
proof -
  let ?rec = "reconciled_of profiles"
  have cost: "pf_cost_usd p \<noteq> None" if "p \<in> set ?rec" for p
    using that assms(3) by (auto simp: reconciled_of_def list_all_iff costed_def)
  have ids: "pf_profile_id p = pf_profile_id q \<Longrightarrow> p = q" if "p \<in> set ?rec" "q \<in> set ?rec" for p q
    using that assms(2) by (auto simp: reconciled_of_def distinct_map inj_on_def)
  have any: "any_r (\<lambda>other. if pf_profile_id other \<noteq> pf_profile_id p then dominates other p else Inr False) ?rec =
      Inr (list_ex (\<lambda>q. better q p) ?rec)" if "p \<in> set ?rec" for p
    by (rule any_r_pure) (use that cost ids better_irrefl in \<open>auto simp: dominates_eq\<close>)
  have "filter_r (\<lambda>p. bind_r (any_r (\<lambda>other. if pf_profile_id other \<noteq> pf_profile_id p then dominates other p else Inr False) ?rec)
      (\<lambda>dominated. Inr (\<not> dominated))) ?rec = Inr (filter (\<lambda>p. \<not> list_ex (\<lambda>q. better q p) ?rec) ?rec)"
    by (rule filter_r_pure) (simp add: any)
  then show ?thesis using assms(1,2) by (simp add: pareto_frontier_def Let_def reconciled_of_def)
qed

text \<open>
  C17: The frontier of distinct constructed profiles is always computed and is exactly the undominated part:
  no profile on it is dominated by any reconciled profile, every reconciled profile that is not on it is
  dominated by one that is, and the profiles whose cost is unknown are the ones listed as excluded.
\<close>

theorem pareto_frontier_exact:
  assumes "profiles \<noteq> []" and "distinct (map pf_profile_id profiles)" and "list_all costed profiles"
  shows "\<exists>res. pareto_frontier profiles = Inr res \<and>
    (\<forall>p \<in> set profiles. p \<in> set (pt_frontier res) \<longleftrightarrow>
       pf_cost_status p = Reconciled \<and> (\<forall>q \<in> set profiles. dominates q p \<noteq> Inr True)) \<and>
    (\<forall>p \<in> set profiles. pf_cost_status p = Reconciled \<longrightarrow>
       p \<in> set (pt_frontier res) \<or> (\<exists>q \<in> set (pt_frontier res). dominates q p = Inr True)) \<and>
    map fst (pt_excluded res) = map pf_profile_id (filter (\<lambda>p. pf_cost_status p = Unknown_cost) profiles)"
proof -
  let ?rec = "reconciled_of profiles"
  have cost: "pf_cost_usd p \<noteq> None \<longleftrightarrow> p \<in> set ?rec" if "p \<in> set profiles" for p
    using that assms(3) by (auto simp: reconciled_of_def list_all_iff costed_def)
  have sub: "p \<in> set profiles" if "p \<in> set ?rec" for p using that by (simp add: reconciled_of_def)
  have status: "p \<in> set ?rec \<longleftrightarrow> p \<in> set profiles \<and> pf_cost_status p = Reconciled" for p by (auto simp: reconciled_of_def)
  have dom: "dominates q p = Inr True \<longleftrightarrow> q \<in> set ?rec \<and> better q p" if "q \<in> set profiles" "p \<in> set ?rec" for p q
    using cost [OF that(1)] cost [OF sub [OF that(2)]] that(2) by (auto simp: dominates_def better_def split: option.splits)
  have complete: "\<exists>q \<in> set ?rec. (q = p \<or> better q p) \<and> \<not> list_ex (\<lambda>r. better r q) ?rec" if "p \<in> set ?rec" for p
    using unbeaten_exists [of "set ?rec" p] that by (auto simp: list_ex_iff)
  have member: "p \<in> set ?rec \<and> \<not> list_ex (\<lambda>q. better q p) ?rec \<longleftrightarrow>
      pf_cost_status p = Reconciled \<and> (\<forall>q \<in> set profiles. dominates q p \<noteq> Inr True)" if "p \<in> set profiles" for p
  proof (cases "p \<in> set ?rec")
    case True
    then have "list_ex (\<lambda>q. better q p) ?rec \<longleftrightarrow> (\<exists>q \<in> set profiles. dominates q p = Inr True)"
      using dom [OF _ True] sub by (auto simp only: list_ex_iff)
    with True show ?thesis by (simp add: status)
  qed (simp add: status that)
  have beaten: "p \<in> set ?rec \<and> \<not> list_ex (\<lambda>q. better q p) ?rec \<or>
      (\<exists>q \<in> set ?rec. \<not> list_ex (\<lambda>r. better r q) ?rec \<and> dominates q p = Inr True)" if "p \<in> set ?rec" for p
    using complete [OF that] dom [OF sub that] that by blast
  obtain res where res: "pareto_frontier profiles = Inr res"
      "set (pt_frontier res) = {p \<in> set ?rec. \<not> list_ex (\<lambda>q. better q p) ?rec}"
      "map fst (pt_excluded res) = map pf_profile_id (filter (\<lambda>p. pf_cost_status p = Unknown_cost) profiles)"
    using pareto_frontier_eq [OF assms] by (simp add: comp_def)
  have "\<forall>p \<in> set profiles. p \<in> set (pt_frontier res) \<longleftrightarrow>
      pf_cost_status p = Reconciled \<and> (\<forall>q \<in> set profiles. dominates q p \<noteq> Inr True)"
    unfolding res(2) using member by simp
  moreover have "\<forall>p \<in> set profiles. pf_cost_status p = Reconciled \<longrightarrow>
      p \<in> set (pt_frontier res) \<or> (\<exists>q \<in> set (pt_frontier res). dominates q p = Inr True)"
    unfolding res(2) using beaten status by blast
  ultimately show ?thesis using res(1,3) by blast
qed

section \<open>The minimum sufficient profile\<close>

lemma min_key_least: "min_key key b xs \<in> set (b # xs) \<and> (\<forall>x \<in> set (b # xs). key (min_key key b xs) \<le> key x)"
proof (induction xs arbitrary: b)
  case (Cons x xs)
  show ?case
    using Cons.IH [of "if key x < key b then x else b"] by (auto split: if_splits)
qed simp

lemma better_sufficient:
  assumes "sufficient k p" and "better q p" and "costed q" and "pf_cost_usd q \<noteq> None"
  shows "sufficient k q"
  using assms by (auto simp: sufficient_def better_def no_worse_def costed_def split: option.splits)

text \<open>
  C18: The selection holds exactly when no profile satisfies every constraint. Otherwise it answers with a
  sufficient profile that comes first by cost, latency, success, auditability and identifier; a profile
  that dominates it can only be one that ties with it in all four measures and has fewer severe failures,
  which the order of selection does not look at.
\<close>

theorem minimum_sufficient_exact:
  assumes "list_all costed profiles"
  shows "case mr_profile (minimum_sufficient_profile profiles k) of
      None \<Rightarrow> mr_status (minimum_sufficient_profile profiles k) = Profile_hold \<and> \<not> list_ex (sufficient k) profiles
    | Some p \<Rightarrow> mr_status (minimum_sufficient_profile profiles k) = Profile_match \<and> p \<in> set profiles \<and> sufficient k p \<and>
        (\<forall>q \<in> set profiles. sufficient k q \<longrightarrow> selection_key p \<le> selection_key q) \<and>
        (\<forall>q \<in> set profiles. dominates q p = Inr True \<longrightarrow>
           pf_cost_usd q = pf_cost_usd p \<and> pf_latency_seconds q = pf_latency_seconds p \<and> pf_success_rate q = pf_success_rate p \<and>
           pf_auditability q = pf_auditability p \<and> pf_severe_failure_rate q < pf_severe_failure_rate p)"
proof (cases "filter (sufficient k) profiles")
  case Nil
  then show ?thesis by (auto simp: minimum_sufficient_profile_def list_ex_iff filter_empty_conv)
next
  case (Cons c cs)
  define p where "p = min_key selection_key c cs"
  have least: "p \<in> set (filter (sufficient k) profiles)"
      "\<forall>x \<in> set (filter (sufficient k) profiles). selection_key p \<le> selection_key x"
    unfolding Cons p_def using min_key_least [of selection_key c cs] by blast+
  have tie: "pf_cost_usd q = pf_cost_usd p \<and> pf_latency_seconds q = pf_latency_seconds p \<and> pf_success_rate q = pf_success_rate p \<and>
      pf_auditability q = pf_auditability p \<and> pf_severe_failure_rate q < pf_severe_failure_rate p"
    if q: "q \<in> set profiles" "dominates q p = Inr True" for q
  proof -
    from q(2) obtain a b where cost: "pf_cost_usd q = Some a" "pf_cost_usd p = Some b" and better: "better q p"
      by (auto simp: dominates_def better_def split: option.splits)
    have "sufficient k q"
      using better_sufficient [of k p q] least(1) better cost q(1) assms by (auto simp: list_all_iff)
    then have "selection_key p \<le> selection_key q" using least(2) q(1) by simp
    with better cost show ?thesis
      by (auto simp: selection_key_def better_def no_worse_def strictly_better_def less_eq_prod_simp less_prod_simp)
  qed
  have "minimum_sufficient_profile profiles k = \<lparr>mr_status = Profile_match, mr_profile = Some p,
      mr_reason = ''MATCH: selected lowest-cost profile satisfying every constraint''\<rparr>"
    by (simp add: minimum_sufficient_profile_def Cons p_def)
  then show ?thesis using least tie by auto
qed

section \<open>Examples\<close>

definition priced_profile :: "string \<Rightarrow> rat \<Rightarrow> pareto_profile" where
  "priced_profile i severe =
     \<lparr>pf_profile_id = i, pf_success_rate = 1 / 2, pf_auditability = 1, pf_severe_failure_rate = severe, pf_cost_status = Reconciled,
      pf_cost_usd = Some 1, pf_latency_seconds = 2, pf_provider_usage_ref = Some ''usage'', pf_price_reference = Some ''price''\<rparr>"

definition lenient_constraints :: profile_constraints where
  "lenient_constraints =
     \<lparr>pk_max_severe_failure_rate = 1, pk_max_cost_usd = 10, pk_max_latency_seconds = 10, pk_min_success_rate = 0,
      pk_min_auditability = 0\<rparr>"

lemma priced_profile_constructed:
  "ParetoProfile ''a'' (Finite (1 / 2)) (Finite 1) (Finite (1 / 4)) Reconciled (Some (Finite 1)) (Some (Finite 2)) (Some ''usage'')
     (Some ''price'') = Inr (priced_profile ''a'' (1 / 4))"
  by (simp add: ParetoProfile_def check_cost_def in_unit_def nonnegative_def number_of_def priced_profile_def raise_if_def)

text \<open>
  A dominated profile can be selected as the minimum sufficient one: of two valid profiles that agree
  but for a severe failure rate of one quarter and of zero, the one that fails more often is selected,
  because its identifier comes first, and it is not on the Pareto frontier.
\<close>

theorem dominated_profile_selected:
  "map_option pf_profile_id (mr_profile (minimum_sufficient_profile [priced_profile ''a'' (1 / 4), priced_profile ''b'' 0]
     lenient_constraints)) = Some ''a'' \<and>
   map_sum id (map pf_profile_id \<circ> pt_frontier) (pareto_frontier [priced_profile ''a'' (1 / 4), priced_profile ''b'' 0]) = Inr [''b'']"
  by code_simp

theorem pareto_frontier_exact_witness:
  "\<exists>res. pareto_frontier [priced_profile ''a'' (1 / 4), priced_profile ''b'' 0] = Inr res \<and> pt_excluded res = []"
  using pareto_frontier_exact [of "[priced_profile ''a'' (1 / 4), priced_profile ''b'' 0]"]
  by (auto simp: priced_profile_def costed_def)

theorem minimum_sufficient_exact_witness:
  "\<exists>p. mr_profile (minimum_sufficient_profile [priced_profile ''a'' (1 / 4), priced_profile ''b'' 0] lenient_constraints) = Some p \<and>
     sufficient lenient_constraints p"
  using minimum_sufficient_exact [of "[priced_profile ''a'' (1 / 4), priced_profile ''b'' 0]" lenient_constraints]
  by (auto simp: priced_profile_def costed_def sufficient_def lenient_constraints_def split: option.splits)

end
