(* ===== verification/Analysis_Statistics.thy ===== *)
theory Analysis_Statistics
  imports Analysis_Decision
begin

text \<open>
  Estimators and tests: \<open>src/backend/analysis_v1/statistics.py\<close>, without the bootstrap interval.

  Numbers are doubles: \<open>fmul\<close>, \<open>fdiv\<close> and \<open>fadd\<close> round, \<open>statistics.mean\<close> adds exactly and rounds once, and a
  finite argument is a rational number. \<open>randrange\<close> is the generator the test with many clusters draws
  from: the value of the draw of a given number, below a bound, for a seed.
\<close>

section \<open>Rates\<close>

record rate_estimate =
  rt_successes :: nat
  rt_trials :: nat
  rt_estimate :: rat
  rt_definition :: string

definition validate_groups :: "bool list list \<Rightarrow> int \<Rightarrow> unit result" where
  "validate_groups attempt_groups k =
     bind_r (raise_if (k < 1) (ValueError ''k must be a positive integer'')) (\<lambda>_.
     bind_r (raise_if (attempt_groups = []) (ValueError ''at least one attempt group is required'')) (\<lambda>_.
     for_each (\<lambda>group _. raise_if (int (length group) < k) (ValueError ''each attempt group must contain at least k attempts''))
       attempt_groups ()))"

definition rate :: "bool list \<Rightarrow> string \<Rightarrow> rate_estimate" where
  "rate indicators definition_text =
     (let successes = length (filter id indicators)
      in \<lparr>rt_successes = successes, rt_trials = length indicators,
          rt_estimate = fdiv (of_nat successes) (of_nat (length indicators)), rt_definition = definition_text\<rparr>)"

definition pass_at_1 :: "bool list list \<Rightarrow> rate_estimate result" where
  "pass_at_1 attempt_groups =
     bind_r (validate_groups attempt_groups 1) (\<lambda>_.
     Inr (rate (map hd attempt_groups) ''mean(first attempt succeeds) across supplied groups''))"

definition pass_at_k :: "bool list list \<Rightarrow> int \<Rightarrow> rate_estimate result" where
  "pass_at_k attempt_groups k =
     bind_r (validate_groups attempt_groups k) (\<lambda>_.
     Inr (rate (map (\<lambda>group. list_ex id (take (nat k) group)) attempt_groups)
       (''mean(any of first '' @ show_nat (nat k) @ '' attempts succeeds) across supplied groups'')))"

definition pass_power_k :: "bool list list \<Rightarrow> int \<Rightarrow> rate_estimate result" where
  "pass_power_k attempt_groups k =
     bind_r (validate_groups attempt_groups k) (\<lambda>_.
     Inr (rate (map (\<lambda>group. list_all id (take (nat k) group)) attempt_groups)
       (''mean(all first '' @ show_nat (nat k) @ '' attempts succeed) across supplied groups'')))"

section \<open>Paired effects\<close>

text \<open>\<open>statistics.mean\<close>: the exact mean, rounded once.\<close>

definition mean :: "rat list \<Rightarrow> rat" where
  "mean xs = fl (sum_list xs / of_nat (length xs))"

record paired_binary_observation =
  pb_pair_id :: string
  pb_cluster_id :: string
  pb_control_success :: bool
  pb_treatment_success :: bool

definition PairedBinaryObservation :: "string \<Rightarrow> string \<Rightarrow> bool \<Rightarrow> bool \<Rightarrow> paired_binary_observation result" where
  "PairedBinaryObservation pair_id cluster_id control treatment =
     bind_r (raise_if (pair_id = [] \<or> cluster_id = []) (ValueError ''pair_id and cluster_id are required'')) (\<lambda>_.
     Inr \<lparr>pb_pair_id = pair_id, pb_cluster_id = cluster_id, pb_control_success = control, pb_treatment_success = treatment\<rparr>)"

record paired_binary_effect =
  be_pairs :: nat
  be_treatment_success_rate :: rat
  be_control_success_rate :: rat
  be_risk_difference :: rat
  be_discordant_treatment_only :: nat
  be_discordant_control_only :: nat

definition float_of_bool :: "bool \<Rightarrow> rat" where
  "float_of_bool b = (if b then 1 else 0)"

definition paired_binary_risk_difference :: "paired_binary_observation list \<Rightarrow> paired_binary_effect result" where
  "paired_binary_risk_difference observations =
     bind_r (raise_if (observations = []) (ValueError ''at least one paired observation is required'')) (\<lambda>_.
     bind_r (raise_if (\<not> distinct (map pb_pair_id observations)) (ValueError ''pair_id values must be unique'')) (\<lambda>_.
     let treatment = map pb_treatment_success observations; control = map pb_control_success observations;
         pairs = zip treatment control in
     Inr \<lparr>be_pairs = length observations, be_treatment_success_rate = mean (map float_of_bool treatment),
       be_control_success_rate = mean (map float_of_bool control),
       be_risk_difference = mean (map (\<lambda>(t, c). fsub (float_of_bool t) (float_of_bool c)) pairs),
       be_discordant_treatment_only = length (filter (\<lambda>(t, c). t \<and> \<not> c) pairs),
       be_discordant_control_only = length (filter (\<lambda>(t, c). c \<and> \<not> t) pairs)\<rparr>))"

record paired_continuous_observation =
  pc_pair_id :: string
  pc_cluster_id :: string
  pc_control_value :: rat
  pc_treatment_value :: rat

definition PairedContinuousObservation ::
  "string \<Rightarrow> string \<Rightarrow> float_value \<Rightarrow> float_value \<Rightarrow> paired_continuous_observation result" where
  "PairedContinuousObservation pair_id cluster_id control treatment =
     bind_r (raise_if (pair_id = [] \<or> cluster_id = []) (ValueError ''pair_id and cluster_id are required'')) (\<lambda>_.
     bind_r (raise_if (control = Nonfinite \<or> treatment = Nonfinite) (ValueError ''continuous values must be finite numbers'')) (\<lambda>_.
     Inr \<lparr>pc_pair_id = pair_id, pc_cluster_id = cluster_id, pc_control_value = number_of control,
       pc_treatment_value = number_of treatment\<rparr>))"

record paired_continuous_effect =
  ce_pairs :: nat
  ce_treatment_mean :: rat
  ce_control_mean :: rat
  ce_mean_difference :: rat

definition paired_continuous_effect_of :: "paired_continuous_observation list \<Rightarrow> paired_continuous_effect result" where
  "paired_continuous_effect_of observations =
     bind_r (raise_if (observations = []) (ValueError ''at least one paired observation is required'')) (\<lambda>_.
     bind_r (raise_if (\<not> distinct (map pc_pair_id observations)) (ValueError ''pair_id values must be unique'')) (\<lambda>_.
     let treatment = map pc_treatment_value observations; control = map pc_control_value observations in
     Inr \<lparr>ce_pairs = length observations, ce_treatment_mean = mean treatment, ce_control_mean = mean control,
       ce_mean_difference = mean (map (\<lambda>(t, c). fsub t c) (zip treatment control))\<rparr>))"

section \<open>The sign-flip test\<close>

record cluster_sign_flip_result =
  fp_observed_mean :: rat
  fp_p_value :: rat
  fp_cluster_count :: nat
  fp_draws :: nat
  fp_method :: string
  fp_seed :: int

text \<open>\<open>setdefault(cluster, []).append(value)\<close>, with the checks of a clustered value.\<close>

definition add_clustered :: "string \<times> float_value \<Rightarrow> (string \<times> rat list) list \<Rightarrow> (string \<times> rat list) list result" where
  "add_clustered entry clusters =
     (case entry of (cluster, v) \<Rightarrow>
      bind_r (raise_if (cluster = [] \<or> v = Nonfinite) (ValueError ''cluster identifiers and finite numeric values are required'')) (\<lambda>_.
      Inr (AList.update cluster ((case map_of clusters cluster of None \<Rightarrow> [] | Some vs \<Rightarrow> vs) @ [number_of v]) clusters)))"

text \<open>\<open>product((-1, 1), repeat=n)\<close>.\<close>

fun sign_tuples :: "nat \<Rightarrow> int list list" where
  "sign_tuples 0 = [[]]"
| "sign_tuples (Suc n) = map (Cons (- 1)) (sign_tuples n) @ map (Cons 1) (sign_tuples n)"

definition flip_statistic :: "rat list list \<Rightarrow> int list \<Rightarrow> rat" where
  "flip_statistic groups signs = \<bar>mean (concat (map (\<lambda>(sign, vs). map (\<lambda>v. of_int sign * v) vs) (zip signs groups)))\<bar>"

definition tolerance :: rat where
  "tolerance = fl (1 / 10 ^ 15)"

definition extreme :: "rat list list \<Rightarrow> int list \<Rightarrow> bool" where
  "extreme groups signs \<longleftrightarrow> fadd (flip_statistic groups signs) tolerance \<ge> \<bar>mean (concat groups)\<bar>"

definition drawn_signs :: "(int \<Rightarrow> nat \<Rightarrow> nat \<Rightarrow> nat) \<Rightarrow> int \<Rightarrow> nat \<Rightarrow> nat \<Rightarrow> int list" where
  "drawn_signs randrange seed n draw = map (\<lambda>j. if randrange seed (draw * n + j) 2 \<noteq> 0 then 1 else - 1) [0..<n]"

definition cluster_sign_flip_p_value ::
  "(int \<Rightarrow> nat \<Rightarrow> nat \<Rightarrow> nat) \<Rightarrow> (string \<times> float_value) list \<Rightarrow> int \<Rightarrow> int \<Rightarrow> cluster_sign_flip_result result" where
  "cluster_sign_flip_p_value randrange values permutations seed =
     bind_r (raise_if (values = []) (ValueError ''at least one clustered value is required'')) (\<lambda>_.
     bind_r (raise_if (permutations < 1) (ValueError ''permutations must be a positive integer'')) (\<lambda>_.
     bind_r (for_each add_clustered values []) (\<lambda>clusters.
     let groups = map snd (sort_key fst clusters); n = length groups in
     Inr (if n \<le> 16 then
         (let tested = length (sign_tuples n); extremes = length (filter (extreme groups) (sign_tuples n))
          in \<lparr>fp_observed_mean = mean (concat groups), fp_p_value = fdiv (of_nat extremes) (of_nat tested), fp_cluster_count = n,
              fp_draws = tested, fp_method = ''exact-cluster-sign-flip'', fp_seed = seed\<rparr>)
       else
         (let extremes = length (filter (\<lambda>draw. extreme groups (drawn_signs randrange seed n draw)) [0..<nat permutations])
          in \<lparr>fp_observed_mean = mean (concat groups), fp_p_value = fdiv (of_nat (extremes + 1)) (of_int (permutations + 1)),
              fp_cluster_count = n, fp_draws = nat permutations, fp_method = ''monte-carlo-cluster-sign-flip'', fp_seed = seed\<rparr>)))))"

section \<open>Multiple comparisons\<close>

record correction_result =
  cr_adjusted_p_values :: "rat list"
  cr_reject :: "bool list"
  cr_method :: string
  cr_alpha :: rat

definition validate_p_values :: "float_value list \<Rightarrow> float_value \<Rightarrow> unit result" where
  "validate_p_values p_values alpha =
     bind_r (raise_if (p_values = []) (ValueError ''at least one p-value is required'')) (\<lambda>_.
     bind_r (raise_if (case alpha of Nonfinite \<Rightarrow> True | Finite a \<Rightarrow> \<not> (0 < a \<and> a < 1))
       (ValueError ''alpha must be between zero and one'')) (\<lambda>_.
     raise_if (\<not> list_all in_unit p_values) (ValueError ''p-values must be finite numbers in [0, 1]'')))"

text \<open>
  The p-values in increasing order, ties in the order given, each as its position in that order, its
  original index and its value; the loops store the running bound at the original index.
\<close>

definition indexed_p_values :: "float_value list \<Rightarrow> (nat \<times> nat \<times> rat) list" where
  "indexed_p_values p_values = enumerate 0 (sort_key snd (enumerate 0 (map number_of p_values)))"

definition store_running :: "(rat \<Rightarrow> nat \<Rightarrow> rat \<Rightarrow> rat) \<Rightarrow> nat \<times> nat \<times> rat \<Rightarrow> rat \<times> rat list \<Rightarrow> rat \<times> rat list" where
  "store_running next_bound entry state =
     (case entry of (position, original, p) \<Rightarrow> case state of (running, adjusted) \<Rightarrow>
      let running = next_bound running position p in (running, adjusted[original := running]))"

definition correction :: "rat list \<Rightarrow> string \<Rightarrow> float_value \<Rightarrow> correction_result" where
  "correction adjusted method_name alpha =
     \<lparr>cr_adjusted_p_values = adjusted, cr_reject = map (\<lambda>p. p \<le> number_of alpha) adjusted, cr_method = method_name,
      cr_alpha = number_of alpha\<rparr>"

definition bh_bound :: "nat \<Rightarrow> rat \<Rightarrow> nat \<Rightarrow> rat \<Rightarrow> rat" where
  "bh_bound m running position p = min running (fdiv (fmul p (of_nat m)) (of_nat (position + 1)))"

definition benjamini_hochberg :: "float_value list \<Rightarrow> float_value \<Rightarrow> correction_result result" where
  "benjamini_hochberg p_values alpha =
     bind_r (validate_p_values p_values alpha) (\<lambda>_.
     let m = length p_values;
         adjusted = snd (fold (store_running (bh_bound m)) (rev (indexed_p_values p_values)) (1, replicate m 0)) in
     Inr (correction adjusted ''benjamini-hochberg'' alpha))"

definition holm_bound :: "nat \<Rightarrow> rat \<Rightarrow> nat \<Rightarrow> rat \<Rightarrow> rat" where
  "holm_bound m running position p = max running (min 1 (fmul p (of_nat (m - position))))"

definition holm :: "float_value list \<Rightarrow> float_value \<Rightarrow> correction_result result" where
  "holm p_values alpha =
     bind_r (validate_p_values p_values alpha) (\<lambda>_.
     let m = length p_values;
         adjusted = snd (fold (store_running (holm_bound m)) (indexed_p_values p_values) (0, replicate m 0)) in
     Inr (correction adjusted ''holm'' alpha))"

section \<open>Rates are ordered\<close>

lemma validate_groups_Inr:
  "validate_groups groups k = Inr () \<longleftrightarrow> 1 \<le> k \<and> groups \<noteq> [] \<and> (\<forall>g \<in> set groups. k \<le> int (length g))"
  by (auto simp: validate_groups_def bind_r_eq_Inr_iff raise_if_eq_Inr_iff for_each_unit_iff not_less)

lemma rate_mono:
  assumes "\<And>g. g \<in> set groups \<Longrightarrow> p g \<Longrightarrow> q g" and "groups \<noteq> []"
  shows "rt_estimate (rate (map p groups) d) \<le> rt_estimate (rate (map q groups) d')"
proof -
  have "length (filter id (map p groups)) \<le> length (filter id (map q groups))"
    using assms(1) by (induction groups) auto
  then have "(of_nat (length (filter id (map p groups))) :: rat) / of_nat (length groups) \<le>
      of_nat (length (filter id (map q groups))) / of_nat (length groups)"
    by (intro divide_right_mono) simp_all
  then show ?thesis by (simp add: rate_def Let_def fdiv_def fl_mono)
qed

lemma rate_unit: "0 \<le> rt_estimate (rate bs d) \<and> rt_estimate (rate bs d) \<le> 1"
proof (cases "bs = []")
  case True
  then show ?thesis by (simp add: rate_def fdiv_def)
next
  case False
  then show ?thesis unfolding rate_def Let_def by (simp add: fdiv_unit)
qed

text \<open>
  On groups of at least \<open>k\<close> attempts the three rates are all defined and ordered: all of the first \<open>k\<close>
  attempts succeed at most as often as the first one, and the first one at most as often as any of them;
  all three lie between zero and one.
\<close>

theorem pass_rates_ordered:
  assumes "validate_groups groups k = Inr ()"
  shows "\<exists>power first anyk. pass_power_k groups k = Inr power \<and> pass_at_1 groups = Inr first \<and> pass_at_k groups k = Inr anyk \<and>
    0 \<le> rt_estimate power \<and> rt_estimate power \<le> rt_estimate first \<and> rt_estimate first \<le> rt_estimate anyk \<and>
    rt_estimate anyk \<le> 1"
proof -
  from assms have k: "1 \<le> k" "groups \<noteq> []" "\<And>g. g \<in> set groups \<Longrightarrow> k \<le> int (length g)"
    by (auto simp: validate_groups_Inr)
  then have "\<forall>g \<in> set groups. 1 \<le> int (length g)" by force
  then have one: "validate_groups groups 1 = Inr ()" using k by (simp add: validate_groups_Inr)
  have heads: "list_all id (take (nat k) g) \<longrightarrow> hd g" "hd g \<longrightarrow> list_ex id (take (nat k) g)" if "g \<in> set groups" for g
    using k(1) k(3) [OF that] by (cases g; cases "nat k"; simp)+
  show ?thesis
    using assms one k(2) rate_unit heads
    by (simp add: pass_power_k_def pass_at_1_def pass_at_k_def) (intro conjI rate_mono; blast)
qed

section \<open>The risk difference counts the discordant pairs\<close>

lemma discordant_sum:
  "sum_list (map (\<lambda>(t, c). fsub (float_of_bool t) (float_of_bool c)) pairs) =
     of_nat (length (filter (\<lambda>(t, c). t \<and> \<not> c) pairs)) - of_nat (length (filter (\<lambda>(t, c). c \<and> \<not> t) pairs))"
  by (induction pairs) (auto simp: fsub_def float_of_bool_def split: if_splits)

text \<open>
  The estimated risk difference is exactly the double nearest to the difference of the two discordant
  counts divided by the number of pairs, so concordant pairs do not move it, and it lies between minus one and one.
\<close>

theorem risk_difference_counts_discordant:
  assumes "paired_binary_risk_difference observations = Inr e"
  shows "be_risk_difference e =
      fl ((of_nat (be_discordant_treatment_only e) - of_nat (be_discordant_control_only e)) / of_nat (be_pairs e)) \<and>
    - 1 \<le> be_risk_difference e \<and> be_risk_difference e \<le> 1"
proof -
  let ?pairs = "zip (map pb_treatment_success observations) (map pb_control_success observations)"
  let ?t = "length (filter (\<lambda>(t, c). t \<and> \<not> c) ?pairs)" and ?c = "length (filter (\<lambda>(t, c). c \<and> \<not> t) ?pairs)"
  from assms have e: "observations \<noteq> []" "be_risk_difference e = mean (map (\<lambda>(t, c). fsub (float_of_bool t) (float_of_bool c)) ?pairs)"
      "be_discordant_treatment_only e = ?t" "be_discordant_control_only e = ?c" "be_pairs e = length observations"
    by (auto simp: paired_binary_risk_difference_def bind_r_eq_Inr_iff raise_if_eq_Inr_iff Let_def)
  have exact: "be_risk_difference e = fl ((of_nat ?t - of_nat ?c) / of_nat (length observations))"
    using discordant_sum [of ?pairs] by (simp add: e mean_def)
  have n: "(0::rat) < of_nat (length observations)" using e(1) by simp
  have le: "(of_nat ?t :: rat) \<le> of_nat (length observations)" "(of_nat ?c :: rat) \<le> of_nat (length observations)"
    using length_filter_le [of _ ?pairs] by (simp_all only: of_nat_le_iff) (metis length_map length_zip min.idem)+
  have "(of_nat ?t - of_nat ?c :: rat) / of_nat (length observations) \<le> 1"
      "- 1 \<le> (of_nat ?t - of_nat ?c :: rat) / of_nat (length observations)"
    using le n by (simp_all add: pos_divide_le_eq pos_le_divide_eq)
  then have "- 1 \<le> be_risk_difference e \<and> be_risk_difference e \<le> 1"
    unfolding exact using fl_mono [of _ 1] fl_mono [of "- 1"] by fastforce
  then show ?thesis using exact e by simp
qed

section \<open>The p-value of the sign-flip test\<close>

lemma sign_tuples_props:
  "length (sign_tuples n) = 2 ^ n" "replicate n 1 \<in> set (sign_tuples n)" "replicate n (- 1) \<in> set (sign_tuples n)"
  by (induction n) auto

lemma flip_statistic_uniform:
  "flip_statistic groups (replicate (length groups) 1) = \<bar>mean (concat groups)\<bar>"
  "flip_statistic groups (replicate (length groups) (- 1)) = \<bar>mean (concat groups)\<bar>"
proof -
  have "concat (map (\<lambda>(sign, vs). map (\<lambda>v. of_int sign * v) vs) (zip (replicate (length groups) s) groups)) =
      map (\<lambda>v. of_int s * v) (concat groups)" for s
    by (induction groups) auto
  moreover have "sum_list (map uminus xs) = - sum_list xs" for xs :: "rat list"
    by (induction xs) auto
  ultimately show "flip_statistic groups (replicate (length groups) 1) = \<bar>mean (concat groups)\<bar>"
      "flip_statistic groups (replicate (length groups) (- 1)) = \<bar>mean (concat groups)\<bar>"
    by (simp_all add: flip_statistic_def mean_def)
qed

lemma extreme_uniform: "extreme groups (replicate (length groups) 1)" "extreme groups (replicate (length groups) (- 1))"
proof -
  have "fl \<bar>mean (concat groups)\<bar> = \<bar>mean (concat groups)\<bar>"
    by (cases "0 \<le> mean (concat groups)") (simp_all add: mean_def)
  moreover have "fl \<bar>mean (concat groups)\<bar> \<le> fadd \<bar>mean (concat groups)\<bar> tolerance"
    unfolding fadd_def tolerance_def by (rule fl_mono) (simp add: fl_nonneg)
  ultimately show "extreme groups (replicate (length groups) 1)" "extreme groups (replicate (length groups) (- 1))"
    by (simp_all add: extreme_def flip_statistic_uniform)
qed

lemma two_extremes:
  assumes "groups \<noteq> []"
  shows "2 \<le> length (filter (extreme groups) (sign_tuples (length groups)))"
proof -
  let ?n = "length groups"
  have "card {replicate ?n (1::int), replicate ?n (- 1)} \<le> card (set (filter (extreme groups) (sign_tuples ?n)))"
    by (rule card_mono) (use sign_tuples_props(2,3) [of ?n] extreme_uniform [of groups] in auto)
  moreover have "replicate ?n (1::int) \<noteq> replicate ?n (- 1)" using assms by (cases groups) auto
  ultimately show ?thesis using card_length [of "filter (extreme groups) (sign_tuples ?n)"] by simp
qed

lemma add_clustered_nonempty: "add_clustered entry clusters = Inr clusters' \<Longrightarrow> clusters' \<noteq> []"
  by (cases entry; cases clusters) (auto simp: add_clustered_def bind_r_eq_Inr_iff split: if_splits)

lemma clusters_nonempty:
  "for_each add_clustered vs acc = Inr clusters \<Longrightarrow> vs \<noteq> [] \<or> acc \<noteq> [] \<Longrightarrow> clusters \<noteq> []"
  by (induction vs arbitrary: acc) (auto simp: bind_r_eq_Inr_iff dest: add_clustered_nonempty)

lemma exact_p_value_bounds:
  assumes "groups \<noteq> []" and "length groups \<le> 16"
  defines "p \<equiv> fdiv (of_nat (length (filter (extreme groups) (sign_tuples (length groups))))) (2 ^ length groups)"
  shows "p \<le> 1" "2 / 2 ^ length groups \<le> p"
proof -
  let ?k = "length (filter (extreme groups) (sign_tuples (length groups)))"
  have "?k \<le> 2 ^ length groups" using length_filter_le sign_tuples_props(1) by metis
  then have "(of_nat ?k :: rat) \<le> of_nat (2 ^ length groups)" by (simp only: of_nat_le_iff)
  then show "p \<le> 1" using fdiv_unit [of "of_nat ?k" "2 ^ length groups"] by (simp add: p_def)
  have "(2 :: rat) \<le> of_nat ?k" using two_extremes [OF assms(1)] by (metis of_nat_le_iff of_nat_numeral)
  then have "fl (2 / 2 ^ length groups) \<le> p"
    unfolding p_def fdiv_def by (intro fl_mono divide_right_mono) simp_all
  then show "2 / 2 ^ length groups \<le> p" using fl_exact [of "length groups" 2] assms(2) by simp
qed

lemma drawn_p_value_bounds:
  assumes "k \<le> n"
  shows "fdiv (of_nat (k + 1)) (of_nat (n + 1)) \<le> 1" "fdiv 1 (of_nat (n + 1)) \<le> fdiv (of_nat (k + 1)) (of_nat (n + 1))"
  using fdiv_unit [of "of_nat (k + 1)" "of_nat (n + 1)"] assms
  by (simp_all add: fdiv_def fl_mono divide_right_mono)

text \<open>
  The p-value of the sign-flip test is never too small for the number of arrangements it looked at. Up to
  sixteen clusters it is at least two of the \<open>2 ^ n\<close> arrangements, the observed one and its mirror image,
  whose statistics survive rounding; beyond that it is at least one over the number of permutations plus
  one, whatever the generator draws. It is never above one.
\<close>

theorem sign_flip_p_value_bounds:
  assumes "cluster_sign_flip_p_value randrange observations permutations seed = Inr r"
  shows "fp_p_value r \<le> 1 \<and> 0 < fp_cluster_count r \<and>
    (if fp_cluster_count r \<le> 16 then fp_draws r = 2 ^ fp_cluster_count r \<and> 2 / 2 ^ fp_cluster_count r \<le> fp_p_value r
     else int (fp_draws r) = permutations \<and> fdiv 1 (of_int permutations + 1) \<le> fp_p_value r)"
proof -
  from assms obtain clusters where observations: "observations \<noteq> []" "\<not> permutations < 1"
      and clusters: "for_each add_clustered observations [] = Inr clusters"
    by (auto simp: cluster_sign_flip_p_value_def bind_r_eq_Inr_iff raise_if_eq_Inr_iff)
  define groups where "groups = map snd (sort_key fst clusters)"
  have "length groups = length clusters" by (simp add: groups_def)
  then have n: "groups \<noteq> []" using clusters_nonempty [OF clusters] observations(1) by auto
  have r: "r = (if length groups \<le> 16 then
      (let tested = length (sign_tuples (length groups)); extremes = length (filter (extreme groups) (sign_tuples (length groups)))
       in \<lparr>fp_observed_mean = mean (concat groups), fp_p_value = fdiv (of_nat extremes) (of_nat tested), fp_cluster_count = length groups,
           fp_draws = tested, fp_method = ''exact-cluster-sign-flip'', fp_seed = seed\<rparr>)
    else
      (let extremes = length (filter (\<lambda>draw. extreme groups (drawn_signs randrange seed (length groups) draw)) [0..<nat permutations])
       in \<lparr>fp_observed_mean = mean (concat groups), fp_p_value = fdiv (of_nat (extremes + 1)) (of_int (permutations + 1)),
           fp_cluster_count = length groups, fp_draws = nat permutations, fp_method = ''monte-carlo-cluster-sign-flip'', fp_seed = seed\<rparr>))"
    using assms observations clusters
    by (cases "length clusters \<le> 16") (simp_all add: cluster_sign_flip_p_value_def groups_def Let_def)
  show ?thesis
  proof (cases "length groups \<le> 16")
    case True
    with exact_p_value_bounds [OF n True] n show ?thesis by (simp add: r sign_tuples_props(1) Let_def)
  next
    case False
    let ?k = "length (filter (\<lambda>draw. extreme groups (drawn_signs randrange seed (length groups) draw)) [0..<nat permutations])"
    have k: "?k \<le> nat permutations" by (metis length_filter_le length_upt minus_nat.diff_0)
    have p: "permutations = int (nat permutations)" using observations(2) by simp
    have "(of_int permutations + 1 :: rat) = of_nat (nat permutations + 1)" by (subst p) simp
    with drawn_p_value_bounds [OF k] False n observations(2) show ?thesis by (simp add: r Let_def add.commute)
  qed
qed

section \<open>Corrections keep the order of the p-values\<close>

text \<open>The values of the running bound, in the order the loop meets the entries.\<close>

fun run_bounds :: "(rat \<Rightarrow> nat \<Rightarrow> rat \<Rightarrow> rat) \<Rightarrow> (nat \<times> nat \<times> rat) list \<Rightarrow> rat \<Rightarrow> rat list" where
  "run_bounds next_bound [] running = []"
| "run_bounds next_bound ((position, original, p) # entries) running =
     (let r = next_bound running position p in r # run_bounds next_bound entries r)"

lemma length_run_bounds [simp]: "length (run_bounds f entries r) = length entries"
  by (induction f entries r rule: run_bounds.induct) (simp_all add: Let_def)

lemma run_bounds_nth:
  "entries \<noteq> [] \<Longrightarrow> run_bounds f entries r ! 0 = f r (fst (entries ! 0)) (snd (snd (entries ! 0)))"
  "Suc k < length entries \<Longrightarrow> run_bounds f entries r ! Suc k =
     f (run_bounds f entries r ! k) (fst (entries ! Suc k)) (snd (snd (entries ! Suc k)))"
proof -
  show "entries \<noteq> [] \<Longrightarrow> run_bounds f entries r ! 0 = f r (fst (entries ! 0)) (snd (snd (entries ! 0)))"
    by (cases entries) (auto simp: Let_def)
  show "Suc k < length entries \<Longrightarrow> run_bounds f entries r ! Suc k =
     f (run_bounds f entries r ! k) (fst (entries ! Suc k)) (snd (snd (entries ! Suc k)))"
  proof (induction f entries r arbitrary: k rule: run_bounds.induct)
    case (2 f position original p entries r)
    show ?case
    proof (cases k)
      case 0
      with 2(2) show ?thesis by (cases entries) (auto simp: Let_def)
    next
      case (Suc l)
      with 2 show ?thesis by (simp add: Let_def)
    qed
  qed simp
qed

lemma fold_store:
  assumes "distinct (map (fst \<circ> snd) entries)" and "\<forall>e \<in> set entries. fst (snd e) < length adjusted"
  shows "length (snd (fold (store_running f) entries (r, adjusted))) = length adjusted \<and>
    (\<forall>k < length entries. snd (fold (store_running f) entries (r, adjusted)) ! fst (snd (entries ! k)) = run_bounds f entries r ! k) \<and>
    (\<forall>i. i \<notin> (fst \<circ> snd) ` set entries \<longrightarrow> snd (fold (store_running f) entries (r, adjusted)) ! i = adjusted ! i)"
  using assms
proof (induction f entries r arbitrary: adjusted rule: run_bounds.induct)
  case (2 f position original p entries r)
  let ?r = "f r position p"
  note IH = 2(1) [of ?r "adjusted[original := ?r]"]
  have "snd (fold (store_running f) entries (?r, adjusted[original := ?r])) ! original = ?r"
    using IH 2(2,3) by (force simp: Let_def)
  with IH 2(2,3) show ?case
    by (auto simp: store_running_def Let_def nth_Cons split: nat.splits)
qed simp

definition ranked :: "float_value list \<Rightarrow> (nat \<times> rat) list" where
  "ranked p_values = sort_key snd (enumerate 0 (map number_of p_values))"

lemma ranked_props:
  shows "length (ranked ps) = length ps" "indexed_p_values ps = enumerate 0 (ranked ps)"
    and "k < length ps \<Longrightarrow> indexed_p_values ps ! k = (k, ranked ps ! k)"
    and "k \<le> l \<Longrightarrow> l < length ps \<Longrightarrow> snd (ranked ps ! k) \<le> snd (ranked ps ! l)"
    and "i < length ps \<Longrightarrow> \<exists>k < length ps. ranked ps ! k = (i, number_of (ps ! i))"
    and "k < length ps \<Longrightarrow> fst (ranked ps ! k) < length ps \<and> snd (ranked ps ! k) = number_of (ps ! fst (ranked ps ! k))"
proof -
  show len: "length (ranked ps) = length ps" by (simp add: ranked_def)
  show idx: "indexed_p_values ps = enumerate 0 (ranked ps)" by (simp add: indexed_p_values_def ranked_def)
  show "k < length ps \<Longrightarrow> indexed_p_values ps ! k = (k, ranked ps ! k)" by (simp add: idx len nth_enumerate_eq)
  have "sorted (map snd (ranked ps))" by (simp add: ranked_def)
  then show "k \<le> l \<Longrightarrow> l < length ps \<Longrightarrow> snd (ranked ps ! k) \<le> snd (ranked ps ! l)"
    using sorted_nth_mono [of "map snd (ranked ps)" k l] by (simp add: len)
  have set: "set (ranked ps) = set (enumerate 0 (map number_of ps))" by (simp add: ranked_def)
  show "i < length ps \<Longrightarrow> \<exists>k < length ps. ranked ps ! k = (i, number_of (ps ! i))"
  proof -
    assume i: "i < length ps"
    then have "(i, number_of (ps ! i)) \<in> set (ranked ps)" unfolding set by (simp add: in_set_enumerate_eq)
    then show ?thesis by (metis in_set_conv_nth len)
  qed
  show "k < length ps \<Longrightarrow> fst (ranked ps ! k) < length ps \<and> snd (ranked ps ! k) = number_of (ps ! fst (ranked ps ! k))"
    using nth_mem [of k "ranked ps"] unfolding set len by (auto simp: in_set_enumerate_eq)
qed

lemma indexed_distinct: "distinct (map (fst \<circ> snd) (indexed_p_values ps))" "\<forall>e \<in> set (indexed_p_values ps). fst (snd e) < length ps"
proof -
  have "mset (map fst (ranked ps)) = mset (map fst (enumerate 0 (map number_of ps)))" by (simp add: ranked_def del: map_fst_enumerate)
  then have "mset (map fst (ranked ps)) = mset [0..<length ps]" by (simp only: map_fst_enumerate length_map add_0)
  then have "distinct (map fst (ranked ps))" by (metis distinct_upt mset_eq_imp_distinct_iff)
  moreover have "map (fst \<circ> snd) (indexed_p_values ps) = map fst (ranked ps)"
    by (simp add: ranked_props(2) flip: map_map)
  ultimately show "distinct (map (fst \<circ> snd) (indexed_p_values ps))" by metis
  show "\<forall>e \<in> set (indexed_p_values ps). fst (snd e) < length ps"
    using ranked_props(6) [of _ ps] by (fastforce simp: ranked_props(1,2) in_set_enumerate_eq)
qed

text \<open>
  A bound per position that grows along the order, and stays when the p-value does, gives adjusted values in
  the order of the p-values.
\<close>

lemma stored_order:
  fixes out :: "rat list"
  assumes stored: "\<And>k. k < length ps \<Longrightarrow> out ! fst (ranked ps ! k) = bound k"
    and step: "\<And>k. Suc k < length ps \<Longrightarrow> bound k \<le> bound (Suc k)"
    and tie: "\<And>k. Suc k < length ps \<Longrightarrow> snd (ranked ps ! Suc k) = snd (ranked ps ! k) \<Longrightarrow> bound (Suc k) \<le> bound k"
    and ij: "i < length ps" "j < length ps" "number_of (ps ! i) \<le> number_of (ps ! j)"
  shows "out ! i \<le> out ! j"
proof -
  obtain k where k: "k < length ps" "ranked ps ! k = (i, number_of (ps ! i))" using ranked_props(5) [OF ij(1)] by blast
  obtain l where l: "l < length ps" "ranked ps ! l = (j, number_of (ps ! j))" using ranked_props(5) [OF ij(2)] by blast
  have up: "d + a < length ps \<Longrightarrow> bound a \<le> bound (d + a)" for a d
    by (induction d) (auto intro: order_trans step)
  have down: "d + a < length ps \<Longrightarrow> snd (ranked ps ! (d + a)) \<le> snd (ranked ps ! a) \<Longrightarrow> bound (d + a) \<le> bound a" for a d
  proof (induction d)
    case (Suc d)
    have "snd (ranked ps ! a) \<le> snd (ranked ps ! (d + a))" "snd (ranked ps ! (d + a)) \<le> snd (ranked ps ! Suc (d + a))"
      using Suc.prems(1) by (auto intro: ranked_props(4))
    then show ?case using Suc tie [of "d + a"] by fastforce
  qed simp
  have "bound k \<le> bound l"
  proof (cases "k \<le> l")
    case True
    then show ?thesis using up [of "l - k" k] l(1) by simp
  next
    case False
    then show ?thesis using down [of "k - l" l] k l ij(3) by simp
  qed
  then show ?thesis using stored [OF k(1)] stored [OF l(1)] k(2) l(2) by simp
qed

text \<open>Holm: the bound of a position is the running maximum.\<close>

lemma holm_bounds:
  assumes "list_all in_unit ps" and "ps \<noteq> []"
  defines "bound k \<equiv> run_bounds (holm_bound (length ps)) (indexed_p_values ps) 0 ! k"
  shows "Suc k < length ps \<Longrightarrow> bound k \<le> bound (Suc k)"
    and "k < length ps \<Longrightarrow> min 1 (fmul (snd (ranked ps ! k)) (of_nat (length ps - k))) \<le> bound k"
    and "k < length ps \<Longrightarrow> 0 \<le> bound k \<and> bound k \<le> 1"
    and "Suc k < length ps \<Longrightarrow> snd (ranked ps ! Suc k) = snd (ranked ps ! k) \<Longrightarrow> bound (Suc k) \<le> bound k"
proof -
  have len: "length (indexed_p_values ps) = length ps" by (simp add: ranked_props)
  have first: "bound 0 = holm_bound (length ps) 0 0 (snd (ranked ps ! 0))"
    unfolding bound_def using run_bounds_nth(1) [of "indexed_p_values ps"] assms(2) ranked_props(3) [of 0 ps] len
    by (metis fst_conv length_greater_0_conv snd_conv)
  have step: "bound (Suc k) = holm_bound (length ps) (bound k) (Suc k) (snd (ranked ps ! Suc k))" if "Suc k < length ps" for k
    unfolding bound_def using run_bounds_nth(2) [of k "indexed_p_values ps"] that by (simp add: len ranked_props(3))
  show "Suc k < length ps \<Longrightarrow> bound k \<le> bound (Suc k)" by (simp add: step holm_bound_def)
  show least: "k < length ps \<Longrightarrow> min 1 (fmul (snd (ranked ps ! k)) (of_nat (length ps - k))) \<le> bound k" for k
    by (cases k) (auto simp: first step holm_bound_def)
  show "k < length ps \<Longrightarrow> 0 \<le> bound k \<and> bound k \<le> 1"
    by (induction k) (auto simp: first step holm_bound_def)
  show "bound (Suc k) \<le> bound k" if k: "Suc k < length ps" "snd (ranked ps ! Suc k) = snd (ranked ps ! k)"
  proof -
    have "in_unit (ps ! fst (ranked ps ! k))" using ranked_props(6) [of k ps] k(1) assms(1) by (simp add: list_all_length)
    then have "0 \<le> snd (ranked ps ! k)" using ranked_props(6) [of k ps] k(1) by (auto simp: in_unit_def number_of_def split: float_value.splits)
    then have "snd (ranked ps ! k) * of_nat (length ps - Suc k) \<le> snd (ranked ps ! k) * of_nat (length ps - k)"
      by (intro mult_left_mono) simp_all
    then have "fmul (snd (ranked ps ! k)) (of_nat (length ps - Suc k)) \<le> fmul (snd (ranked ps ! k)) (of_nat (length ps - k))"
      unfolding fmul_def by (rule fl_mono)
    then have "min 1 (fmul (snd (ranked ps ! k)) (of_nat (length ps - Suc k))) \<le> bound k" using least [of k] k(1) by linarith
    then show ?thesis by (simp add: step k holm_bound_def)
  qed
qed

text \<open>Benjamini and Hochberg: the bound of a position is the running minimum from the end.\<close>

lemma bh_bounds:
  assumes "list_all in_unit ps" and "ps \<noteq> []"
  defines "bound k \<equiv> run_bounds (bh_bound (length ps)) (rev (indexed_p_values ps)) 1 ! (length ps - 1 - k)"
  shows "Suc k < length ps \<Longrightarrow> bound k \<le> bound (Suc k)"
    and "k < length ps \<Longrightarrow> 0 \<le> bound k \<and> bound k \<le> 1"
    and "Suc k < length ps \<Longrightarrow> snd (ranked ps ! Suc k) = snd (ranked ps ! k) \<Longrightarrow> bound (Suc k) \<le> bound k"
proof -
  let ?n = "length ps" and ?es = "rev (indexed_p_values ps)"
  let ?g = "\<lambda>k. fdiv (fmul (snd (ranked ps ! k)) (of_nat ?n)) (of_nat (k + 1))"
  have len: "length ?es = ?n" by (simp add: ranked_props)
  have entry: "?es ! (?n - 1 - k) = (k, ranked ps ! k)" if "k < ?n" for k
    using that rev_nth [of "?n - 1 - k" "indexed_p_values ps"] by (simp add: ranked_props(1,2,3)) (simp add: ranked_props(3) flip: ranked_props(2))
  have p0: "0 \<le> snd (ranked ps ! k)" if "k < ?n" for k
    using ranked_props(6) [OF that] assms(1) by (auto simp: in_unit_def number_of_def list_all_length split: float_value.splits)
  have g0: "0 \<le> ?g k" if "k < ?n" for k using p0 [OF that] by (simp add: fdiv_def fmul_def fl_nonneg)
  have last: "bound (?n - 1) = min 1 (?g (?n - 1))"
  proof -
    have "?es \<noteq> []" using len assms(2) by (metis length_0_conv)
    from run_bounds_nth(1) [OF this] show ?thesis
      unfolding bound_def using entry [of "?n - 1"] assms(2) by (simp add: bh_bound_def)
  qed
  have step: "bound k = min (bound (Suc k)) (?g k)" if "Suc k < ?n" for k
  proof -
    have "?n - 1 - k = Suc (?n - 1 - Suc k)" using that by simp
    then show ?thesis unfolding bound_def
      using run_bounds_nth(2) [of "?n - 1 - Suc k" ?es] entry [of k] that len by (simp add: bh_bound_def)
  qed
  show "Suc k < ?n \<Longrightarrow> bound k \<le> bound (Suc k)" by (simp add: step)
  have unit: "d < ?n \<Longrightarrow> 0 \<le> bound (?n - 1 - d) \<and> bound (?n - 1 - d) \<le> 1" for d
  proof (induction d)
    case 0
    then show ?case using last g0 [of "?n - 1"] by simp
  next
    case (Suc d)
    then have "Suc (?n - 1 - Suc d) = ?n - 1 - d" "Suc (?n - 1 - Suc d) < ?n" by simp_all
    with Suc step [of "?n - 1 - Suc d"] g0 [of "?n - 1 - Suc d"] show ?case by (simp add: min_le_iff_disj)
  qed
  show "k < ?n \<Longrightarrow> 0 \<le> bound k \<and> bound k \<le> 1" using unit [of "?n - 1 - k"] by simp
  show "bound (Suc k) \<le> bound k" if k: "Suc k < ?n" "snd (ranked ps ! Suc k) = snd (ranked ps ! k)"
  proof -
    have "bound (Suc k) \<le> ?g (Suc k)"
      using step [of "Suc k"] last k(1) by (cases "Suc (Suc k) < ?n") (auto simp: not_less dest!: le_antisym)
    also have "\<dots> \<le> ?g k"
      unfolding k(2) fdiv_def by (intro fl_mono divide_left_mono) (use p0 [of k] k(1) in \<open>simp_all add: fmul_def fl_nonneg\<close>)
    finally show ?thesis using step [OF k(1)] by simp
  qed
qed

text \<open>
  What a correction promises: a value per p-value, between zero and one, in the order of the p-values, with a
  rejection exactly where the value is at most \<open>alpha\<close>.
\<close>

definition order_preserving :: "float_value list \<Rightarrow> correction_result \<Rightarrow> bool" where
  "order_preserving ps r \<longleftrightarrow>
     length (cr_adjusted_p_values r) = length ps \<and> cr_reject r = map (\<lambda>p. p \<le> cr_alpha r) (cr_adjusted_p_values r) \<and>
     (\<forall>i < length ps. 0 \<le> cr_adjusted_p_values r ! i \<and> cr_adjusted_p_values r ! i \<le> 1) \<and>
     (\<forall>i < length ps. \<forall>j < length ps. number_of (ps ! i) \<le> number_of (ps ! j) \<longrightarrow>
        cr_adjusted_p_values r ! i \<le> cr_adjusted_p_values r ! j)"

lemma correction_order_preserving:
  assumes "length out = length ps" and "\<And>k. k < length ps \<Longrightarrow> out ! fst (ranked ps ! k) = bound k"
    and "\<And>k. Suc k < length ps \<Longrightarrow> bound k \<le> bound (Suc k)"
    and "\<And>k. Suc k < length ps \<Longrightarrow> snd (ranked ps ! Suc k) = snd (ranked ps ! k) \<Longrightarrow> bound (Suc k) \<le> bound k"
    and "\<And>k. k < length ps \<Longrightarrow> 0 \<le> bound k \<and> bound k \<le> 1"
  shows "order_preserving ps (correction out name alpha)"
proof -
  have "0 \<le> out ! i \<and> out ! i \<le> 1" if i: "i < length ps" for i
  proof -
    obtain k where k: "k < length ps" "ranked ps ! k = (i, number_of (ps ! i))" using ranked_props(5) [OF i] by blast
    then show ?thesis using assms(2) [OF k(1)] assms(5) [OF k(1)] by simp
  qed
  moreover have "out ! i \<le> out ! j" if "i < length ps" "j < length ps" "number_of (ps ! i) \<le> number_of (ps ! j)" for i j
    by (rule stored_order [of ps out bound]) (fact assms that)+
  ultimately show ?thesis using assms(1) by (simp add: order_preserving_def correction_def)
qed

lemma holm_stored:
  fixes ps :: "float_value list"
  defines "out \<equiv> snd (fold (store_running (holm_bound (length ps))) (indexed_p_values ps) (0, replicate (length ps) 0))"
  shows "length out = length ps" "k < length ps \<Longrightarrow> out ! fst (ranked ps ! k) = run_bounds (holm_bound (length ps)) (indexed_p_values ps) 0 ! k"
proof -
  have len: "length (indexed_p_values ps) = length ps" by (simp add: ranked_props)
  have store: "length out = length ps \<and> (\<forall>k < length ps. out ! fst (snd (indexed_p_values ps ! k)) =
      run_bounds (holm_bound (length ps)) (indexed_p_values ps) 0 ! k)"
    using fold_store [OF indexed_distinct(1), of ps "replicate (length ps) 0"] indexed_distinct(2) [of ps]
    by (simp add: out_def len)
  then show "length out = length ps" by simp
  show "k < length ps \<Longrightarrow> out ! fst (ranked ps ! k) = run_bounds (holm_bound (length ps)) (indexed_p_values ps) 0 ! k"
    using store ranked_props(3) [of k ps] by fastforce
qed

lemma bh_stored:
  fixes ps :: "float_value list"
  defines "out \<equiv> snd (fold (store_running (bh_bound (length ps))) (rev (indexed_p_values ps)) (1, replicate (length ps) 0))"
  shows "length out = length ps"
    "k < length ps \<Longrightarrow> out ! fst (ranked ps ! k) = run_bounds (bh_bound (length ps)) (rev (indexed_p_values ps)) 1 ! (length ps - 1 - k)"
proof -
  have len: "length (indexed_p_values ps) = length ps" by (simp add: ranked_props)
  have store: "length out = length ps \<and> (\<forall>k < length ps. out ! fst (snd (rev (indexed_p_values ps) ! k)) =
      run_bounds (bh_bound (length ps)) (rev (indexed_p_values ps)) 1 ! k)"
    using fold_store [of "rev (indexed_p_values ps)" "replicate (length ps) 0" "bh_bound (length ps)" 1] indexed_distinct [of ps]
    by (simp add: out_def len rev_map [symmetric])
  then show "length out = length ps" by simp
  show "out ! fst (ranked ps ! k) = run_bounds (bh_bound (length ps)) (rev (indexed_p_values ps)) 1 ! (length ps - 1 - k)"
    if "k < length ps"
  proof -
    have "rev (indexed_p_values ps) ! (length ps - 1 - k) = (k, ranked ps ! k)"
      using that by (simp add: rev_nth len ranked_props(3))
    moreover have "length ps - 1 - k < length ps" using that by simp
    ultimately show ?thesis using store by fastforce
  qed
qed

lemma validate_p_values_Inr: "validate_p_values ps alpha = Inr () \<Longrightarrow> ps \<noteq> [] \<and> list_all in_unit ps"
  by (auto simp: validate_p_values_def bind_r_eq_Inr_iff raise_if_eq_Inr_iff)

text \<open>
  C19: Both corrections keep the order of the p-values, ties included, and stay between zero and one in spite of
  rounding, so a rejection never skips a smaller p-value; and Holm's adjusted value is never below the p-value itself.
\<close>

theorem corrections_keep_order:
  assumes "validate_p_values ps alpha = Inr ()" and "list_all (\<lambda>p. fl (number_of p) = number_of p) ps"
  shows "\<exists>b h. benjamini_hochberg ps alpha = Inr b \<and> holm ps alpha = Inr h \<and> order_preserving ps b \<and> order_preserving ps h \<and>
    list_all2 (\<lambda>p q. number_of p \<le> q) ps (cr_adjusted_p_values h)"
proof -
  from validate_p_values_Inr [OF assms(1)] have ps: "list_all in_unit ps" "ps \<noteq> []" by simp_all
  let ?h = "snd (fold (store_running (holm_bound (length ps))) (indexed_p_values ps) (0, replicate (length ps) 0))"
  let ?b = "snd (fold (store_running (bh_bound (length ps))) (rev (indexed_p_values ps)) (1, replicate (length ps) 0))"
  have h: "order_preserving ps (correction ?h ''holm'' alpha)"
    by (rule correction_order_preserving [OF holm_stored holm_bounds(1) [OF ps] holm_bounds(4) [OF ps] holm_bounds(3) [OF ps]])
  have b: "order_preserving ps (correction ?b ''benjamini-hochberg'' alpha)"
    by (rule correction_order_preserving [OF bh_stored bh_bounds(1) [OF ps] bh_bounds(3) [OF ps] bh_bounds(2) [OF ps]])
  have "number_of (ps ! i) \<le> ?h ! i" if i: "i < length ps" for i
  proof -
    obtain k where k: "k < length ps" "ranked ps ! k = (i, number_of (ps ! i))" using ranked_props(5) [OF i] by blast
    have unit: "0 \<le> number_of (ps ! i)" "number_of (ps ! i) \<le> 1" "fl (number_of (ps ! i)) = number_of (ps ! i)"
      using ps(1) assms(2) i by (auto simp: list_all_length in_unit_def number_of_def split: float_value.splits)
    have "number_of (ps ! i) * 1 \<le> number_of (ps ! i) * of_nat (length ps - k)"
      using unit(1) k(1) by (intro mult_left_mono) auto
    then have "number_of (ps ! i) \<le> fmul (number_of (ps ! i)) (of_nat (length ps - k))"
      using fl_mono unit(3) unfolding fmul_def by fastforce
    then show ?thesis using holm_bounds(2) [OF ps k(1)] holm_stored(2) [OF k(1)] k(2) unit(2) by simp
  qed
  then have "list_all2 (\<lambda>p q. number_of p \<le> q) ps ?h" by (simp add: list_all2_conv_all_nth holm_stored(1))
  then show ?thesis using h b assms(1) by (simp add: benjamini_hochberg_def holm_def Let_def correction_def)
qed

section \<open>Examples\<close>

theorem pass_rates_ordered_witness:
  "\<exists>power anyk. pass_power_k [[True, False], [True, True]] 2 = Inr power \<and> pass_at_k [[True, False], [True, True]] 2 = Inr anyk \<and>
     rt_estimate power \<le> rt_estimate anyk"
proof -
  have "validate_groups [[True, False], [True, True]] 2 = Inr ()" by (simp add: validate_groups_Inr)
  from pass_rates_ordered [OF this] show ?thesis by fastforce
qed

definition example_pair :: "string \<Rightarrow> bool \<Rightarrow> bool \<Rightarrow> paired_binary_observation" where
  "example_pair i control treatment =
     \<lparr>pb_pair_id = i, pb_cluster_id = ''c'', pb_control_success = control, pb_treatment_success = treatment\<rparr>"

theorem risk_difference_counts_discordant_witness:
  "\<exists>e. paired_binary_risk_difference [example_pair ''a'' False True, example_pair ''b'' True True] = Inr e \<and>
     be_risk_difference e = fl (1 / 2)"
proof -
  obtain e where e: "paired_binary_risk_difference [example_pair ''a'' False True, example_pair ''b'' True True] = Inr e"
    by (simp add: paired_binary_risk_difference_def example_pair_def Let_def)
  then have "be_discordant_treatment_only e = 1" "be_discordant_control_only e = 0" "be_pairs e = 2"
    by (auto simp: paired_binary_risk_difference_def example_pair_def Let_def)
  with risk_difference_counts_discordant [OF e] e show ?thesis by simp
qed

theorem sign_flip_p_value_bounds_witness:
  "\<exists>r. cluster_sign_flip_p_value (\<lambda>_ _ _. 0) [(''a'', Finite 1), (''b'', Finite 2)] 10 0 = Inr r \<and>
     2 / 4 \<le> fp_p_value r \<and> fp_p_value r \<le> 1"
proof -
  obtain r where r: "cluster_sign_flip_p_value (\<lambda>_ _ _. 0) [(''a'', Finite 1), (''b'', Finite 2)] 10 0 = Inr r"
    by (simp add: cluster_sign_flip_p_value_def add_clustered_def Let_def)
  then have "fp_cluster_count r = 2"
    by (auto simp: cluster_sign_flip_p_value_def add_clustered_def Let_def)
  with sign_flip_p_value_bounds [OF r] r show ?thesis by simp
qed

theorem corrections_keep_order_witness:
  "\<exists>b h. benjamini_hochberg [Finite (1 / 2), Finite (1 / 4)] (Finite (1 / 4)) = Inr b \<and>
     holm [Finite (1 / 2), Finite (1 / 4)] (Finite (1 / 4)) = Inr h \<and>
     order_preserving [Finite (1 / 2), Finite (1 / 4)] b \<and> order_preserving [Finite (1 / 2), Finite (1 / 4)] h"
proof -
  have "validate_p_values [Finite (1 / 2), Finite (1 / 4)] (Finite (1 / 4)) = Inr ()"
    by (simp add: validate_p_values_def in_unit_def raise_if_def)
  moreover have "list_all (\<lambda>p. fl (number_of p) = number_of p) [Finite (1 / 2), Finite (1 / 4)]"
    using fl_exact [of 1 1] fl_exact [of 2 1] by (simp add: number_of_def)
  ultimately show ?thesis using corrections_keep_order [of "[Finite (1 / 2), Finite (1 / 4)]" "Finite (1 / 4)"] by blast
qed

lemma boundary_values:
  "fl (1 / 20) = 3602879701896397 / 2 ^ 56" "fmul (3602879701896397 / 2 ^ 56) 3 = 5404319552844596 / 2 ^ 55"
  "fdiv (5404319552844596 / 2 ^ 55) 3 = 7205759403792795 / 2 ^ 57"
  "fdiv (5404319552844596 / 2 ^ 55) 2 = 2702159776422298 / 2 ^ 55" "fdiv (5404319552844596 / 2 ^ 55) 1 = 5404319552844596 / 2 ^ 55"
proof -
  have "fl (1 / 20) = of_int 7205759403792794 / 2 ^ 57" by (rule fl_nearest) simp_all
  then show "fl (1 / 20) = 3602879701896397 / 2 ^ 56" by simp
  have "fl (3602879701896397 / 2 ^ 56 * 3) = of_int 5404319552844596 / 2 ^ 55" by (rule fl_nearest_even) simp_all
  then show "fmul (3602879701896397 / 2 ^ 56) 3 = 5404319552844596 / 2 ^ 55" by (simp add: fmul_def)
  have "fl (5404319552844596 / 2 ^ 55 / 3) = of_int 7205759403792795 / 2 ^ 57" by (rule fl_nearest) simp_all
  then show "fdiv (5404319552844596 / 2 ^ 55) 3 = 7205759403792795 / 2 ^ 57" by (simp add: fdiv_def)
  show "fdiv (5404319552844596 / 2 ^ 55) 2 = 2702159776422298 / 2 ^ 55"
    using fl_exact [of 55 2702159776422298] by (simp add: fdiv_def)
  show "fdiv (5404319552844596 / 2 ^ 55) 1 = 5404319552844596 / 2 ^ 55"
    using fl_exact [of 55 5404319552844596] by (simp add: fdiv_def)
qed

lemma boundary_order:
  "0 < fl (1 / 20)" "fl (1 / 20) < 1" "fl (1 / 20) < fdiv (fmul (fl (1 / 20)) 3) 3" "fl (1 / 20) < fdiv (fmul (fl (1 / 20)) 3) 2"
  "fl (1 / 20) < fdiv (fmul (fl (1 / 20)) 3) 1"
  unfolding boundary_values by simp_all

text \<open>
  Rounding moves the boundary of the Benjamini-Hochberg procedure. The procedure rejects every hypothesis
  when the largest p-value is at most \<open>alpha\<close>; three p-values equal to the default \<open>alpha\<close> of 0.05 are adjusted to
  the next double above it, and none is rejected.
\<close>

theorem bh_boundary_not_rejected:
  "map_sum id cr_reject (benjamini_hochberg (replicate 3 (Finite (fl (1 / 20)))) (Finite (fl (1 / 20)))) = Inr [False, False, False]"
  using boundary_order
  by (simp add: benjamini_hochberg_def validate_p_values_def in_unit_def number_of_def indexed_p_values_def numeral_3_eq_3
      raise_if_def Let_def store_running_def bh_bound_def correction_def min_le_iff_disj not_le)

end
