(* ===== verification/Spec2Isabelle.thy ===== *)
theory Spec2Isabelle
  imports Arena_System Lifecycle_Model Worker_Settlement Worker_Checks Controller_Invariants Evaluation_Examples Factor_Facts
    Trace_Alignment Analysis_Statistics
begin

text \<open>
  Scaffold Arena: verification of the durable execution core and of the evaluation of its attempts.

  Scaffold Arena runs factorial experiments on agent scaffolds: an experiment is expanded into attempts,
  each attempt is a job in a database, workers lease jobs, call an adapter (a model provider or a
  local process), account for what it cost and record immutable evidence. This development models the
  Python code that makes such a run durable (\<open>src/backend/execution_v1\<close>, \<open>src/backend/persistence_v1\<close> and
  what they call) and proves what its comments and documents promise: an experiment is expanded into
  exactly its declared cells and dispatched once per request, no attempt runs twice under one
  lease, no result is admitted twice, cancellation wins, money that may have been spent stays charged,
  and every status a worker reports is in the database. It also models how a finished attempt is
  graded (\<open>src/backend/evaluation_v1\<close>) and proves that the outcome is the one the plan describes, the
  mechanisms a treatment is made of (\<open>src/backend/factors_v1\<close>), and the rules by which finished attempts are
  compared (\<open>src/backend/analysis_v1\<close>).

  \<^bold>\<open>How the parts interact.\<close> One database holds all state. The experiment controller
  (\<open>controlled_controller.py\<close>) checks a frozen experiment, expands its design (\<open>design.py\<close>) and writes the
  execution, its episodes, attempts and jobs in one transaction. The job queue (\<open>jobs.py\<close>) hands a
  lease to one worker at a time; the fenced worker opens an invocation for that lease
  (\<open>invocations.py\<close>), a reservation is charged before the adapter is called (\<open>reservations.py\<close>),
  the call is marked as dispatched, its result is admitted once and the reservation is settled by
  evidence. A lease that expires is reclaimed and the next generation fences the one before. Events
  are appended in the transactions that change a status (\<open>repository.py\<close>), and evidence bytes go to
  the artifact store (\<open>artifacts_v1/store.py\<close>). A study pack declares graders as data; the compiler
  turns them into a plan for a scenario and the engine grades the output of an attempt with it
  (\<open>evaluation_v1/compiler.py\<close>, \<open>engine.py\<close>).

  \<^bold>\<open>The theories, in order.\<close>
    \<^item> \<open>Arena_Prelude\<close>: errors as values, the relational operators on lists of rows, reachability and
      the locale \<open>invariant_system\<close> that carries every proof over the runs of a step relation.
    \<^item> \<open>Lifecycle_Model\<close>: \<open>formal_model.py\<close>, the repository's own bounded model checker. Its seven
      checks are shown to hold at every depth and number of generations, beyond the bounds it explores,
      and its exploration is shown to terminate with a report.
    \<^item> \<open>Arena_Db\<close>: the tables of \<open>schema.py\<close> and \<open>invocation_schema.py\<close> the core reads and writes, with
      their keys and constraints, and \<open>ArenaRepository.transaction\<close>.
    \<^item> \<open>Event_Log\<close>: appending and reading events; numbering without gaps; resuming from a cursor.
    \<^item> \<open>Attempt_Input\<close>, \<open>Provider_Models\<close>, \<open>Adapter_Results\<close>: the documents workers exchange, with the
      validators of \<open>protocol_v1/models.py\<close> and \<open>adapters_v1/models.py\<close>.
    \<^item> \<open>Jobs\<close>, \<open>Job_Moves\<close>, \<open>Job_Invariants\<close>, \<open>Job_Retry\<close>: \<open>JobLeaseRepository\<close>. Every operation refines
      the life cycle of a job row; invariants are proved for the life cycle once.
    \<^item> \<open>Invocations\<close>, \<open>Invocation_Invariants\<close>: \<open>InvocationRepository\<close>, with the abstract changes of a row
      that its operations refine.
    \<^item> \<open>Currency\<close>, \<open>Reservations\<close>, \<open>Reservation_Invariants\<close>, \<open>Pricing\<close>: money, the reservation service and
      the price resolver.
    \<^item> \<open>Artifact_Store\<close>: both content-addressed stores, the registry and the evidence writers.
    \<^item> \<open>Worker_Writes\<close>, \<open>Arena_System\<close>: the worker's own writes, and the composition of all services over
      one database as one step relation with one invariant.
    \<^item> \<open>Worker\<close>, \<open>Worker_Run\<close>, \<open>Fenced_Worker\<close>: \<open>_worker_kernel.py\<close>, \<open>fenced_worker.py\<close> and
      \<open>validated_worker.py\<close>: a run of a lease as a function of a state, with every exception handler.
    \<^item> \<open>Worker_Refinement\<close>, \<open>Worker_Durability\<close>, \<open>Worker_Settlement\<close>, \<open>Worker_Checks\<close>: a run is a sequence
      of steps of the composed services; what it reports is durable; it leaves no reservation open; its
      own checks decide exactly what they say.
    \<^item> \<open>Experiment_Spec\<close>, \<open>Experiment_Design\<close>: factors, harnesses and experiments of
      \<open>protocol_v1/models.py\<close> with their validators, and \<open>expand_design\<close>, shown equal to a declarative
      set of arms; the half fraction has the announced size and is balanced.
    \<^item> \<open>Context_Schedule\<close>: \<open>context_handoff_schedule.py\<close>; an accepted schedule is a permutation of the units.
    \<^item> \<open>Controller\<close>, \<open>Controller_Invariants\<close>: \<open>_controller_kernel.py\<close> and \<open>controlled_controller.py\<close>. The
      matrix is the full crossing, creation is atomic and keeps the invariants of the core, and a request
      key is answered once.
    \<^item> \<open>Py_Float\<close>: Python's floating-point numbers as the rational numbers they are, with rounding to
      nearest even, and the built-in \<open>sum\<close>, which compensates rounding errors since CPython 3.12.
    \<^item> \<open>Json_Extract\<close>: \<open>utils/json_extract.py\<close>; the brace scan returns exactly the first object
      that an independent grammar of string literals and braces derives.
    \<^item> \<open>Grader_Models\<close>, \<open>Context_Handoff\<close>, \<open>Graders\<close>: the grader declarations of \<open>protocol_v1/models.py\<close> with
      their validators, the documents of \<open>evaluation_v1/models.py\<close>, the packets and the renderer of
      \<open>adapters_v1/context_handoff\<close>, and every grader of \<open>graders.py\<close>. What a context policy leaves out has no
      influence on the prompt.
    \<^item> \<open>Evaluation_Engine\<close>, \<open>Evaluation_Facts\<close>, \<open>Evaluation_Progress\<close>, \<open>Evaluation_Examples\<close>: \<open>compiler.py\<close> and
      \<open>engine.py\<close>. An evaluation equals a reference that is read off the plan, judges never move the
      deterministic outcome, validated declarations compile, well-formed attempts are evaluated with
      every number in its range, and an example in which rounding refuses a perfect attempt.
    \<^item> \<open>Factor_Mechanisms\<close>, \<open>Episode_Memory\<close>, \<open>Factor_Recipes\<close>, \<open>Factor_Adapter\<close>, \<open>Factor_Facts\<close>: the factor runtime
      (\<open>factors_v1\<close>): plans, verification, recovery, bounded memory, treatment fidelity, the recipe compiler,
      the adapter that runs an attempt under a recipe and the router over the sixteen recipes. Arms
      differ in the treatment alone, compaction accounts for every byte, a plan history is a run of the
      plan machine, execution fails closed; and two defects of the adapter.
    \<^item> \<open>Trace_Alignment\<close>: \<open>analysis_v1/trace.py\<close>. The alignment of two traces by dynamic programming is
      total, without its internal errors, and no other alignment in order scores higher; traces with equal
      observations never diverge; a divergence is the first row that is not skipped and only diagnostic;
      normalization does not depend on the order of the events.
    \<^item> \<open>Analysis_Decision\<close>, \<open>Analysis_Statistics\<close>: \<open>decision.py\<close>, \<open>adequacy.py\<close> and \<open>statistics.py\<close> of \<open>analysis_v1\<close>.
      The Pareto frontier is exactly the undominated part; when the minimum sufficient profile may be
      dominated; no analysis is eligible for a confirmatory claim; success rates are ordered; the risk
      difference counts discordant pairs; bounds of the sign-flip p-value; both corrections for multiple
      comparisons keep the order of the p-values, and where rounding moves the boundary of one of them.

  \<^bold>\<open>Interfaces.\<close> Laws that a client relies on are locales, and each is interpreted on the model's own
  definitions: \<open>invariant_system\<close> (on the lifecycle machine, the jobs, the invocations, the accounts,
  the whole system and the requests to the controller), \<open>event_appender\<close> (on
  \<open>append_attempt_event\<close>), \<open>artifact_store\<close> (on the local and the S3 store), \<open>worker_port\<close> (on an adapter
  without database access and on the fenced adapter over it).

  \<^bold>\<open>What is outside.\<close> Values the code draws from its environment are arguments: the clock, fresh
  identifiers, lease tokens and nonces, SHA-256 of canonical JSON, pydantic's parsers, the adapter,
  its event stream and the S3 transport, and the draws of Python's seeded generator, of which at most the
  range is used; in the evaluation \<open>json.loads\<close>, \<open>jsonschema.validate\<close>, the parsers of packets and receipts,
  installed plugins and the version of Python; in the factor runtime what the wrapped adapter and the
  trusted runtime answer. \<open>json.loads\<close> and \<open>jsonschema.validate\<close> may raise any exception, which the model
  propagates where the source does; that every evaluation returns is proved when they raise only the errors
  the source catches. The controller reads the experiment before its transaction starts, as the code does.
  The digest function is arbitrary: no theorem assumes that it
  has no collisions. The
  concurrency of a worker is a schedule: between two awaits a task runs without interruption, and an
  entry of the schedule is one such piece; the schedule is an argument, and the theorems hold for
  each. Transactions are atomic, as the immediate transactions of SQLite and the row and advisory
  locks on PostgreSQL make them; interleavings between transactions are the step relation.

  \<^bold>\<open>Bounds.\<close> The exploration of \<open>Lifecycle_Model\<close> recurses on the depth it is given, as the code's loop
  does; the walk back through an alignment has the sum of its two indices as a measure; the other loops
  recurse on lists, so no definition needs fuel. The alignment theorems hold below five hundred million
  events, where the stand-in for minus infinity in the scores is out of reach. Currency is exact in nanodollars;
  weights and scores are doubles, rounded after every operation as Python rounds them.

  \<^bold>\<open>Not modelled.\<close> The web API, the command line and the services behind them (registry, analysis,
  evidence, review, forge and others), the analysis report and its bootstrap interval and power planning,
  the annotation workflow and the queueing of evaluations, the
  foreign key of idempotency records to projects, the transports of the adapters, the frontend and the
  scripts have no definitions here: they read what the core wrote, or do input and output. Migrations
  restate the schema. The manifest lists them one by one.
\<close>

section \<open>The services over one database\<close>

text \<open>A run of the three services: one attempt is queued, claimed, begun, charged and dispatched.\<close>

lemma example_claimed: "reachable arena_init arena_step example_running_db"
proof -
  let ?db1 = "example_log_db\<lparr>db_jobs := [queued_job ''j1'' ''x1'' (Some ''a1'') ''attempt'' 0 [] 0]\<rparr>"
  have "reachable arena_init arena_step example_log_db"
    by (rule reachable.start)
      (simp add: arena_init_def jobs_init_def db_keys_def db_refs_def example_log_db_def)
  moreover have "enqueue ''x1'' (Some ''a1'') ''attempt'' [] ''j1'' 0 0 example_log_db = Inr (''j1'', ?db1)"
    by (simp add: enqueue_def attempt_execution_ids_def insert_job_def example_log_db_def queued_job_def)
  ultimately have "reachable arena_init arena_step ?db1"
    by (blast intro: reachable.move as_job js_enqueue)
  moreover have "\<exists>l. claim ''w1'' 60 0 None None None ''t1'' ?db1 = Inr (l, example_running_db)"
    by (simp add: claim_def reclaim_expired_in_transaction_def reclaim_selected_def reclaimable_def next_job_def claimable_def
        example_running_db_def example_log_db_def queued_job_def rowcount_def update_where_def in_project_def
        claim_row_def td_seconds_def expired_def Let_def job_generation_def)
  ultimately show ?thesis
    by (blast intro: reachable.move as_job js_claim)
qed

lemma example_charged:
  "\<exists>db. reachable arena_init arena_step db \<and>
     (\<exists>r \<in> set (db_invocations db). iv_dispatch_started_at r \<noteq> None \<and>
        (\<exists>b \<in> set (db_reservations db). br_invocation_id b = Some (iv_id r)))"
proof -
  let ?h = "\<lambda>_. example_digest"
  define n where "n = new_invocation_row ?h example_iv_lease ''a1'' (ai_attempt example_input) None 5 ''i1'' ''n''"
  let ?db1 = "example_running_db\<lparr>db_invocations := [n]\<rparr>"
  have "begin_invocation ?h example_iv_lease example_input None 5 ''i1'' ''n'' example_running_db = (Inr n, ?db1)"
    by (simp add: begin_invocation_def example_iv_lease_def transaction_def begin_body_def lease_is_live_def
      job_by_id_def example_running_db_def claim_row_def queued_job_def example_log_db_def expired_def
      job_generation_def insert_invocation_def n_def new_invocation_row_def retire_prior_def update_where_def
      example_digest_def provider_request_namespace_def legacy_provider_request_namespace_def get_invocation_def
      example_input_def example_envelope_def)
  then have r1: "reachable arena_init arena_step ?db1"
    by (rule reachable.move [OF example_claimed as_invocation [OF is_begin]])
  have "\<exists>db. reserve ''x1'' ''a1'' ''m'' 1 None None ''l1'' ''r1'' 5 ?db1 = Inr (''l1'', db) \<and>
      db_invocations db = [n] \<and> (\<exists>b. db_reservations db = [b] \<and> br_invocation_id b = Some ''i1'' \<and>
        br_state b = Res_reserved)"
    by (simp add: reserve_def insert_reservation_def insert_ledger_def insert_reservation_row_def
        example_running_db_def example_log_db_def n_def new_invocation_row_def negative_def ledger_ok_def
        currency_float_def currency_nonneg not_less)
  then obtain db2 b where db2: "reserve ''x1'' ''a1'' ''m'' 1 None None ''l1'' ''r1'' 5 ?db1 = Inr (''l1'', db2)"
      "db_invocations db2 = [n]" "db_reservations db2 = [b]" "br_invocation_id b = Some ''i1''"
      "br_state b = Res_reserved"
    by (elim exE conjE) (rule that)
  have r2: "reachable arena_init arena_step db2"
    by (rule reachable.move [OF r1 as_reservation [OF rs_reserve [OF db2(1)]]])
  let ?db3 = "db2\<lparr>db_invocations := [n\<lparr>iv_dispatch_started_at := Some 6, iv_side_effect_state := Eff_possible,
    iv_updated_at := 6\<rparr>]\<rparr>"
  have "snd (mark_dispatch_started n 6 db2) = ?db3"
    using db2 by (simp add: mark_dispatch_started_def transaction_def locked_def settled_reservation_def
        n_def new_invocation_row_def update_invocation_def update_where_def)
  then have "reachable arena_init arena_step ?db3"
    using reachable.move [OF r2 as_invocation [OF is_dispatch [OF prod.collapse [symmetric]]]] by metis
  moreover have "iv_id n = ''i1''" by (simp add: n_def new_invocation_row_def)
  ultimately show ?thesis
    using db2(3,4) by (intro exI [of _ ?db3]) simp
qed

text \<open>
  C1: In every database that the job queue, the invocation table and the reservation service can
  produce together, whatever the interleaving of their calls, the three invariants hold side by side,
  and money that a provider call may have spent is never given back: the reservation of an invocation
  whose dispatch has started is neither released nor expired, and its ledger row still counts against
  the budget.
\<close>

theorem dispatched_spend_stays_charged:
  assumes "reachable arena_init arena_step db"
    and "r \<in> set (db_invocations db)" and "iv_dispatch_started_at r \<noteq> None"
    and "b \<in> set (db_reservations db)" and "br_invocation_id b = Some (iv_id r)"
  shows "jobs_inv db \<and> invocations_inv (db_invocations db) \<and> reservations_inv db \<and>
    br_state b \<notin> {Res_released, Res_expired} \<and>
    (\<exists>u \<in> set (active_ledger db (br_execution_id b)). ul_id u = br_ledger_id b)"
proof -
  have inv: "jobs_inv db" "invocations_inv (db_invocations db)" "reservations_inv db" "dispatch_kept_charged db"
    using arena.inv_reachable [OF assms(1)] by (simp_all add: arena_inv_def)
  have "iv_id r \<in> dispatched_ids db"
    using assms(2,3) by (auto simp: dispatched_ids_def)
  with inv(4) assms(4,5) have st: "br_state b \<notin> {Res_released, Res_expired}"
    by (auto simp: dispatch_kept_charged_def)
  obtain u where u: "u \<in> set (db_ledger db)" "ul_id u = br_ledger_id b" "ul_execution_id u = br_execution_id b"
    using inv(3) assms(4) by (auto simp: reservations_inv_def)
  have "filter (\<lambda>d. br_ledger_id d = br_ledger_id b) (db_reservations db) = [b]"
    using inv(3) assms(4) by (intro filter_key_unique) (simp_all add: reservations_inv_def)
  then have "u \<in> set (active_ledger db (br_execution_id b))"
    using u st by (simp add: active_ledger_def reservation_state_of_def)
  with u inv st show ?thesis by blast
qed

theorem dispatched_spend_stays_charged_witness:
  "\<exists>db r b. reachable arena_init arena_step db \<and> r \<in> set (db_invocations db) \<and>
     iv_dispatch_started_at r \<noteq> None \<and> b \<in> set (db_reservations db) \<and> br_invocation_id b = Some (iv_id r) \<and>
     br_state b \<notin> {Res_released, Res_expired}"
  using example_charged dispatched_spend_stays_charged by blast

section \<open>The worker over the services\<close>

text \<open>
  C2: The public worker refines the services. Whatever the lease, the plugged-in adapter's answers, the
  schedule of its concurrent tasks and the exceptions on the way, a run of the worker changes the
  database only by calls of the job queue, the invocation table and the reservation service and by its
  own two writes; so after it every database is one the services can reach, with all their invariants.
\<close>

theorem worker_refines_services:
  assumes "worker_port raw" and "benign_schedule sp" and "rn_result s = None"
    and "reachable arena_init arena_step (rn_db s)"
    and "validated_run_lease fe env raw sp lease s = (r, s')"
  shows "arena_step\<^sup>*\<^sup>* (rn_db s) (rn_db s') \<and> reachable arena_init arena_step (rn_db s') \<and> arena_inv (rn_db s')"
proof -
  have "valid_locals s" using assms(3) by (simp add: valid_locals_def observed_usage_def)
  with worker_port.validated_run_lease_moves [OF assms(1,2)] have steps: "arena_step\<^sup>*\<^sup>* (rn_db s) (rn_db s')"
    using assms(5) by (rule movesD(1))
  then have "reachable arena_init arena_step (rn_db s')"
    using assms(4) by (induction rule: rtranclp_induct) (auto intro: reachable.move)
  with steps show ?thesis using arena.inv_reachable by blast
qed

text \<open>
  C3: The worker never reports a status the database does not hold: a result it returns names the
  leased job and either says that the lease was lost, or the job is terminal with exactly that status.
\<close>

theorem worker_result_durable:
  assumes "worker_port raw" and "benign_schedule sp" and "rn_result s = None"
    and "reachable arena_init arena_step (rn_db s)"
    and "validated_run_lease fe env raw sp lease s = (Inr w, s')"
  shows "wr_job_id w = jl_id lease \<and> (wr_status w = ''lost'' \<or>
    (\<exists>j \<in> set (db_jobs (rn_db s')). jb_id j = jl_id lease \<and> terminal_job j \<and> wr_status w = job_status_name (jb_status j)))"
proof -
  have "valid_locals s" using assms(3) by (simp add: valid_locals_def observed_usage_def)
  with worker_port.validated_run_lease_durable [OF assms(1,2)] arena.inv_reachable [OF assms(4)] assms(5)
  show ?thesis unfolding durable_run_def durable_def by blast
qed

text \<open>
  C4: However a fenced run ends, by a result, an exception or a cancelled task, none of the
  reservations of its invocation stays reserved, and the usage and effect recorded on the invocation
  are those its reservations determine.
\<close>

theorem fenced_run_settles:
  assumes "worker_port raw" and "benign_schedule sp" and "rn_result s = None"
    and "reachable arena_init arena_step (rn_db s)" and "iv \<in> set (db_invocations (rn_db s))"
    and "fenced_scope fe env raw sp lease iv s = (r, s')"
  shows "(\<forall>b \<in> set (db_reservations (rn_db s')). br_invocation_id b = Some (iv_id iv) \<longrightarrow> br_state b \<noteq> Res_reserved) \<and>
    settled_scope (iv_id iv) (rn_db s')"
proof -
  have "valid_locals s" using assms(3) by (simp add: valid_locals_def observed_usage_def)
  with worker_port.fenced_scope_settles_run [OF assms(1,2)] arena.inv_reachable [OF assms(4)] assms(5,6)
  have "settled_scope (iv_id iv) (rn_db s')" unfolding settles_run_def by blast
  then show ?thesis by (simp add: settled_scope_def)
qed

definition example_plugin :: "unit plugin" where
  "example_plugin = \<lparr>pg_prepare = (\<lambda>_ _ _. Inr ()), pg_execute = (\<lambda>_. Inl TimeoutError), pg_collect = (\<lambda>_. Inr []),
     pg_cleanup = (\<lambda>_. Inr ()), pg_cancel = (\<lambda>_. Inr ())\<rparr>"

definition example_schedule :: "unit schedule" where
  "example_schedule = \<lparr>sp_first = [Supervisor_tick 6, Execute_end], sp_interrupted = False, sp_remaining = 0, sp_second = [],
     sp_last = []\<rparr>"

definition example_fence :: fence_env where
  "example_fence = \<lparr>fe_supported = True, fe_request_id = (\<lambda>_. None), fe_result_digest = (\<lambda>_. ''d''),
     fe_parse_datetime = (\<lambda>_. Inr 0), fe_invocation_id = ''i1'', fe_nonce = ''n'', fe_sha256 = (\<lambda>_. ''d''),
     fe_clock = (\<lambda>_. 5)\<rparr>"

lemma example_port: "worker_port (isolated_adapter example_plugin)" "benign_schedule example_schedule"
    "rn_result (example_state db) = None" "rn_db (example_state db) = db"
  by (rule isolated.worker_port_axioms) (simp_all add: benign_schedule_def benign_def example_schedule_def example_state_def)

theorem worker_refines_services_witness:
  "\<exists>r s'. validated_run_lease example_fence example_env (isolated_adapter example_plugin) example_schedule example_iv_lease
     (example_state example_running_db) = (r, s') \<and> arena_inv (rn_db s')"
proof -
  obtain r s' where run: "validated_run_lease example_fence example_env (isolated_adapter example_plugin) example_schedule
      example_iv_lease (example_state example_running_db) = (r, s')" by fastforce
  have "reachable arena_init arena_step (rn_db (example_state example_running_db))"
    by (simp add: example_port example_claimed)
  from worker_refines_services [OF example_port(1,2,3) this run] run show ?thesis by blast
qed

lemma example_run:
  "\<exists>w s'. validated_run_lease example_fence example_env (isolated_adapter example_plugin) example_schedule example_iv_lease
     (example_state example_running_db) = (Inr w, s') \<and> wr_status w = ''failed''"
  by (simp add: validated_run_lease_def fenced_run_lease_def run_lease_def lease_body_def handle_error_def finish_def
      example_iv_lease_def dict_get_def payload_keys_def subscript_def terminal_failure_def dict_update_def dict_set_def
      opt_str_def opt_json_def read_s_def try_s_def attempt_s_def modify_s_def fresh_locals_def lift_s_def raise_if_def
      terminal_def captured_def bind_s_def tx_op_def db_op_def transaction_def return_s_def
      example_env_def example_state_def example_codec_def status_or_lost_def
      finalize_def job_by_id_def outcome_status_def terminal_job_def TERMINAL_JOB_STATUSES_def finalizable_def holds_lease_def
      expired_def terminal_winner_def example_running_db_def example_log_db_def claim_row_def
      queued_job_def rowcount_def record_attempt_outcome_def append_attempt_event_def insert_job_def
      attempt_execution_ids_def update_where_def insert_attempt_event_def insert_followup_def finalize_row_def Let_def)

theorem worker_result_durable_witness:
  "\<exists>w s'. validated_run_lease example_fence example_env (isolated_adapter example_plugin) example_schedule example_iv_lease
     (example_state example_running_db) = (Inr w, s') \<and>
     (\<exists>j \<in> set (db_jobs (rn_db s')). jb_id j = ''j1'' \<and> jb_status j = Job_failed)"
proof -
  obtain w s' where run: "validated_run_lease example_fence example_env (isolated_adapter example_plugin) example_schedule
      example_iv_lease (example_state example_running_db) = (Inr w, s')" "wr_status w = ''failed''"
    using example_run by blast
  have "reachable arena_init arena_step (rn_db (example_state example_running_db))"
    by (simp add: example_port example_claimed)
  from worker_result_durable [OF example_port(1,2,3) this run(1)] run(2)
  obtain j where "j \<in> set (db_jobs (rn_db s'))" "jb_id j = jl_id example_iv_lease" "''failed'' = job_status_name (jb_status j)"
    by auto
  moreover from this(3) have "jb_status j = Job_failed" by (cases "jb_status j") simp_all
  ultimately show ?thesis using run(1) by (auto simp: example_iv_lease_def)
qed

theorem fenced_run_settles_witness:
  "\<exists>db iv r s'. (\<exists>b \<in> set (db_reservations db). br_invocation_id b = Some (iv_id iv)) \<and>
     fenced_scope example_fence example_env (isolated_adapter example_plugin) example_schedule example_iv_lease iv
       (example_state db) = (r, s') \<and> settled_scope (iv_id iv) (rn_db s')"
proof -
  obtain db iv b where db: "reachable arena_init arena_step db" "iv \<in> set (db_invocations db)"
      "b \<in> set (db_reservations db)" "br_invocation_id b = Some (iv_id iv)"
    using example_charged by blast
  obtain r s' where run: "fenced_scope example_fence example_env (isolated_adapter example_plugin) example_schedule
      example_iv_lease iv (example_state db) = (r, s')" by fastforce
  have "reachable arena_init arena_step (rn_db (example_state db))" "iv \<in> set (db_invocations (rn_db (example_state db)))"
    by (simp_all add: example_port db)
  from fenced_run_settles [OF example_port(1,2,3) this run] db(3,4) run show ?thesis by blast
qed

section \<open>A reused reservation\<close>

text \<open>A digest function that tells the documents of two invocations apart.\<close>

definition example_hash2 :: "json \<Rightarrow> string" where
  "example_hash2 j = (case j of JObj ((_, JStr i) # _) \<Rightarrow> if i = ''i2'' then replicate 64 (CHR ''b'') else example_digest
     | _ \<Rightarrow> example_digest)"

definition example_gen1 :: invocation_row where
  "example_gen1 = new_invocation_row example_hash2 example_iv_lease ''a1'' (ai_attempt example_input) None 5 ''i1'' ''n''"

definition example_lease2 :: job_lease where
  "example_lease2 = example_iv_lease\<lparr>jl_owner := ''w2'', jl_token := ''t2'', jl_expires_at := seconds 160, jl_attempt_count := 2\<rparr>"

definition example_gen2 :: invocation_row where
  "example_gen2 = new_invocation_row example_hash2 example_lease2 ''a1'' (ai_attempt example_input) None (seconds 101) ''i2'' ''n''"

definition example_requeued :: job_row where
  "example_requeued = release_lease Job_queued (Some (seconds 72))
     (claim_row ''w1'' ''t1'' (seconds 60) 0 (queued_job ''j1'' ''x1'' (Some ''a1'') ''attempt'' 0 [] 0))"

lemma example_gen1_reachable: "reachable arena_init arena_step (example_running_db\<lparr>db_invocations := [example_gen1]\<rparr>)"
proof -
  have "begin_invocation example_hash2 example_iv_lease example_input None 5 ''i1'' ''n'' example_running_db =
      (Inr example_gen1, example_running_db\<lparr>db_invocations := [example_gen1]\<rparr>)"
    by (simp add: begin_invocation_def example_iv_lease_def transaction_def begin_body_def lease_is_live_def
      job_by_id_def example_running_db_def claim_row_def queued_job_def example_log_db_def expired_def
      job_generation_def insert_invocation_def example_gen1_def new_invocation_row_def retire_prior_def update_where_def
      example_digest_def example_hash2_def provider_request_namespace_def legacy_provider_request_namespace_def
      get_invocation_def example_input_def example_envelope_def)
  then show ?thesis by (rule reachable.move [OF example_claimed as_invocation [OF is_begin]])
qed

text \<open>The reservation expires before anything was dispatched.\<close>

lemma example_expired_reachable:
  "\<exists>u b. reachable arena_init arena_step (example_running_db\<lparr>db_invocations := [example_gen1], db_ledger := [u], db_reservations := [b]\<rparr>)
     \<and> ul_id u = ''l1'' \<and> ul_attempt_id u = Some ''a1'' \<and> br_ledger_id b = ''l1'' \<and> br_invocation_id b = Some ''i1'' \<and>
     br_state b = Res_expired"
proof -
  let ?db1 = "example_running_db\<lparr>db_invocations := [example_gen1]\<rparr>"
  have "\<exists>u b. reserve ''x1'' ''a1'' ''m'' 1 None None ''l1'' ''r1'' 5 ?db1 =
      Inr (''l1'', ?db1\<lparr>db_ledger := [u], db_reservations := [b]\<rparr>) \<and>
      ul_id u = ''l1'' \<and> ul_attempt_id u = Some ''a1'' \<and> ledger_ok (clear_cost Cost_expired u) \<and>
      br_ledger_id b = ''l1'' \<and> br_invocation_id b = Some ''i1'' \<and> br_state b = Res_reserved"
    by (simp add: reserve_def insert_reservation_def insert_ledger_def insert_reservation_row_def
        example_running_db_def example_log_db_def example_gen1_def new_invocation_row_def negative_def ledger_ok_def
        currency_float_def currency_nonneg not_less clear_cost_def)
  then obtain u b where ub: "reserve ''x1'' ''a1'' ''m'' 1 None None ''l1'' ''r1'' 5 ?db1 =
      Inr (''l1'', ?db1\<lparr>db_ledger := [u], db_reservations := [b]\<rparr>)" "ul_id u = ''l1''" "ul_attempt_id u = Some ''a1''"
      "ledger_ok (clear_cost Cost_expired u)" "br_ledger_id b = ''l1''" "br_invocation_id b = Some ''i1''" "br_state b = Res_reserved"
    by (elim exE conjE) (rule that)
  let ?db2 = "?db1\<lparr>db_ledger := [u], db_reservations := [b]\<rparr>"
  define b' where "b' = b\<lparr>br_state := Res_expired, br_reason := Some ''stale'', br_version := br_version b + 1,
    br_updated_at := seconds 65, br_terminal_at := Some (seconds 65)\<rparr>"
  let ?db3 = "?db1\<lparr>db_ledger := [clear_cost Cost_expired u], db_reservations := [b']\<rparr>"
  have "snd (expire ''l1'' ''stale'' (seconds 65) ?db2) = ?db3"
    using ub(2-7)
    by (simp add: expire_def expire_base_def then_lifecycle_def transaction_def expire_body_def lifecycle_def
        lock_bound_invocation_def lock_invocation_def example_gen1_def new_invocation_row_def require_open_def
        SETTLED_STATES_def dispatched_effect_def update_ledger_def update_where_def transition_def rowcount_def Let_def
        b'_def example_running_db_def example_log_db_def)
  then have "reachable arena_init arena_step ?db3"
    using reachable.move [OF reachable.move [OF example_gen1_reachable as_reservation [OF rs_reserve [OF ub(1)]]]
        as_reservation [OF rs_expire [OF prod.collapse [symmetric]]]] by metis
  with ub show ?thesis
    by (intro exI [of _ "clear_cost Cost_expired u"] exI [of _ b'] conjI) (simp_all add: clear_cost_def b'_def)
qed

text \<open>The first worker's lease runs out, the job is requeued and a second worker begins its generation.\<close>

lemma example_second_generation:
  "\<exists>u b db iv1. reachable arena_init arena_step db \<and> db_ledger db = [u] \<and> db_reservations db = [b] \<and>
     db_invocations db = [iv1, example_gen2] \<and> iv_id iv1 = ''i1'' \<and> lease_is_live db example_lease2 (seconds 101) 2 \<and>
     ul_id u = ''l1'' \<and> ul_attempt_id u = Some ''a1'' \<and> br_ledger_id b = ''l1'' \<and> br_invocation_id b = Some ''i1'' \<and>
     br_state b = Res_expired"
proof -
  from example_expired_reachable obtain u b where ub:
      "reachable arena_init arena_step (example_running_db\<lparr>db_invocations := [example_gen1], db_ledger := [u], db_reservations := [b]\<rparr>)"
      "ul_id u = ''l1''" "ul_attempt_id u = Some ''a1''" "br_ledger_id b = ''l1''" "br_invocation_id b = Some ''i1''"
      "br_state b = Res_expired"
    by (elim exE conjE) (rule that)
  let ?db3 = "example_running_db\<lparr>db_invocations := [example_gen1], db_ledger := [u], db_reservations := [b]\<rparr>"
  let ?db4 = "?db3\<lparr>db_jobs := [example_requeued]\<rparr>"
  have "reclaim_expired (seconds 70) ?db3 = Inr (1, ?db4)"
    by (simp add: reclaim_expired_def reclaim_expired_in_transaction_def reclaim_selected_def reclaimable_def
        LEASE_RECLAIM_GRACE_def reclaim_row_def example_running_db_def example_log_db_def claim_row_def queued_job_def
        job_generation_def MAX_LEASE_GENERATIONS_def rowcount_def update_where_def release_lease_def reclaim_backoff_def
        example_requeued_def Let_def)
  then have r4: "reachable arena_init arena_step ?db4"
    by (rule reachable.move [OF ub(1) as_job [OF js_reclaim]])
  let ?db5 = "?db4\<lparr>db_jobs := [claim_row ''w2'' ''t2'' (seconds 160) (seconds 100) example_requeued]\<rparr>"
  have "\<exists>l. claim ''w2'' 60 (seconds 100) None None None ''t2'' ?db4 = Inr (l, ?db5)"
    by (simp add: claim_def reclaim_expired_in_transaction_def reclaim_selected_def reclaimable_def next_job_def claimable_def
        example_requeued_def release_lease_def queued_job_def rowcount_def update_where_def in_project_def
        claim_row_def td_seconds_def expired_def Let_def job_generation_def)
  then have r5: "reachable arena_init arena_step ?db5"
    using reachable.move [OF r4 as_job [OF js_claim]] by blast
  let ?iv1 = "example_gen1\<lparr>iv_admission_state := Adm_stale, iv_side_effect_state := retire_side_effect Eff_not_started,
    iv_updated_at := seconds 101\<rparr>"
  let ?db6 = "?db5\<lparr>db_invocations := [?iv1, example_gen2]\<rparr>"
  have live: "lease_is_live ?db6 example_lease2 (seconds 101) 2"
    by (simp add: lease_is_live_def job_by_id_def example_lease2_def example_iv_lease_def claim_row_def example_requeued_def
        release_lease_def queued_job_def expired_def job_generation_def)
  have "snd (begin_invocation example_hash2 example_lease2 example_input None (seconds 101) ''i2'' ''n'' ?db5) = ?db6"
    by (simp add: begin_invocation_def example_lease2_def example_iv_lease_def transaction_def begin_body_def lease_is_live_def
      job_by_id_def example_running_db_def example_requeued_def release_lease_def claim_row_def queued_job_def example_log_db_def
      expired_def job_generation_def insert_invocation_def example_gen1_def example_gen2_def new_invocation_row_def retire_prior_def
      update_where_def example_digest_def example_hash2_def provider_request_namespace_def legacy_provider_request_namespace_def
      get_invocation_def example_input_def example_envelope_def)
  then have "reachable arena_init arena_step ?db6"
    using reachable.move [OF r5 as_invocation [OF is_begin [OF prod.collapse [symmetric]]]] by metis
  with ub(2-6) live show ?thesis
    by (intro exI [of _ u] exI [of _ b] exI [of _ ?db6] exI [of _ ?iv1])
      (simp add: example_gen1_def new_invocation_row_def)
qed

text \<open>
  C34: A reservation outlives its generation. There is a reachable database in which an attempt's only
  reservation has expired and a second worker holds the live lease of the next generation: then
  \<open>_reserve_once\<close> hands it the expired reservation without making a new one, the dispatch of its
  invocation goes through, and the call is under way with nothing charged to the execution.
\<close>

theorem reserve_once_reuses_settled:
  "\<exists>db iv l iv' db'. reachable arena_init arena_step db \<and> lease_is_live db example_lease2 (seconds 101) 2 \<and>
     iv \<in> set (db_invocations db) \<and> iv_generation iv = 2 \<and>
     reserve_once example_env example_lease2 example_envelope (example_state db) = (Inr l, example_state db) \<and>
     (\<exists>b \<in> set (db_reservations db). br_ledger_id b = l \<and> br_state b = Res_expired) \<and>
     mark_dispatch_started iv (seconds 101) db = (Inr iv', db') \<and> iv_dispatch_started_at iv' \<noteq> None \<and>
     active_ledger db' (jl_execution_id example_lease2) = []"
proof -
  from example_second_generation obtain u b db iv1 where d: "reachable arena_init arena_step db" "db_ledger db = [u]"
      "db_reservations db = [b]" "db_invocations db = [iv1, example_gen2]" "iv_id iv1 = ''i1''"
      "lease_is_live db example_lease2 (seconds 101) 2" "ul_id u = ''l1''" "ul_attempt_id u = Some ''a1''"
      "br_ledger_id b = ''l1''" "br_invocation_id b = Some ''i1''" "br_state b = Res_expired"
    by (elim exE conjE) (rule that)
  define iv' where "iv' = example_gen2\<lparr>iv_dispatch_started_at := Some (seconds 101), iv_side_effect_state := Eff_possible,
    iv_updated_at := seconds 101\<rparr>"
  have "reserve_once example_env example_lease2 example_envelope (example_state db) = (Inr ''l1'', example_state db)"
    using d by (simp add: reserve_once_def read_s_def latest_for_attempt_def return_s_def example_state_def example_envelope_def)
  moreover have "mark_dispatch_started example_gen2 (seconds 101) db = (Inr iv', db\<lparr>db_invocations := [iv1, iv']\<rparr>)"
    using d by (simp add: mark_dispatch_started_def transaction_def locked_def settled_reservation_def then_get_def
        get_invocation_def example_gen2_def new_invocation_row_def update_invocation_def update_where_def iv'_def)
  moreover have "active_ledger (db\<lparr>db_invocations := [iv1, iv']\<rparr>) (jl_execution_id example_lease2) = []"
    using d by (simp add: active_ledger_def reservation_state_of_def)
  ultimately show ?thesis
    using d by (intro exI [of _ db] exI [of _ example_gen2] exI [of _ "''l1''"] exI [of _ iv'] exI conjI)
      (auto simp: iv'_def example_gen2_def new_invocation_row_def example_lease2_def)
qed

end
